(* ===== verification/Prelude.thy ===== *)
theory Prelude
  imports Complex_Main "HOL-Library.Word" "HOL-Library.Signed_Division"
    "HOL-Library.State_Monad" "HOL-Library.Log_Nat"
    "HOL-Library.Code_Target_Nat" "HOL-Library.Code_Target_Int"
begin

text \<open>
  Shared ground of the development: the C integer types, the state monad in which the
  drivers are written, the combinators for the C idioms \<open>rc = f(); if (rc < 0) return rc;\<close>,
  \<open>r |= f();\<close> and \<open>ret = f(); if (ret) goto exit;\<close>, and the two proof devices every
  component uses: pre/post triples (\<open>valid\<close>) and step relations that hold between
  the state before and after an operation (\<open>state_io_rel\<close> of the library).
\<close>

unbundle bit_operations_syntax

section \<open>Machine integers\<close>

type_synonym u8 = "8 word"
type_synonym u16 = "16 word"

text \<open>
  Registers and bytes are words. Frequencies and counters of C type \<open>uint32_t\<close> are
  \<^typ>\<open>nat\<close> values with the wrap-around written out by \<open>u32\<close>; C \<open>int\<close> values are
  \<^typ>\<open>int\<close>, truncated by \<open>s16\<close> or \<open>s32\<close> where the source stores or converts them.
\<close>

definition u32 :: "nat \<Rightarrow> nat" where
  "u32 n = n mod 4294967296"

definition u32_of_int :: "int \<Rightarrow> nat" where
  "u32_of_int i = nat (i mod 4294967296)"

definition s16 :: "int \<Rightarrow> int" where
  "s16 i = signed_take_bit 15 i"

definition s32 :: "int \<Rightarrow> int" where
  "s32 i = signed_take_bit 31 i"

definition u8_of_int :: "int \<Rightarrow> u8" where
  "u8_of_int i = word_of_int i"

definition u8_of_nat :: "nat \<Rightarrow> u8" where
  "u8_of_nat n = word_of_nat n"

lemma unat_u8_of_nat: "unat (u8_of_nat n) = n mod 256"
  by (simp add: u8_of_nat_def unat_of_nat)

lemma u32_less [simp]: "u32 n < 4294967296"
  by (simp add: u32_def)

lemma u32_id [simp]: "n < 4294967296 \<Longrightarrow> u32 n = n"
  by (simp add: u32_def)

lemma s16_range: "- 32768 \<le> s16 i \<and> s16 i \<le> 32767"
  using signed_take_bit_int_greater_eq_minus_exp [of 15 i]
    signed_take_bit_int_less_exp [of 15 i]
  by (simp add: s16_def)

lemma s16_id: "- 32768 \<le> i \<Longrightarrow> i \<le> 32767 \<Longrightarrow> s16 i = i"
  by (simp add: s16_def signed_take_bit_int_eq_self_iff)

lemma s32_id: "- 2147483648 \<le> i \<Longrightarrow> i \<le> 2147483647 \<Longrightarrow> s32 i = i"
  by (simp add: s32_def signed_take_bit_int_eq_self_iff)

lemma s16_idem [simp]: "s16 (s16 i) = s16 i"
  by (simp add: s16_def)

section \<open>The state monad\<close>

abbreviation ret :: "'a \<Rightarrow> ('s, 'a) state" where
  "ret \<equiv> State_Monad.return"

definition gets :: "('s \<Rightarrow> 'a) \<Rightarrow> ('s, 'a) state" where
  "gets f = State (\<lambda>s. (f s, s))"

definition modify :: "('s \<Rightarrow> 's) \<Rightarrow> ('s, unit) state" where
  "modify f = State (\<lambda>s. ((), f s))"

lemma run_gets [simp]: "run_state (gets f) s = (f s, s)"
  by (simp add: gets_def)

lemma run_modify [simp]: "run_state (modify f) s = ((), f s)"
  by (simp add: modify_def)

lemma run_unit: "run_state m s = ((), snd (run_state m s))"
  by (simp add: prod_eq_iff)

text \<open>\<open>rc = m; if (rc < 0) return rc;\<close> for each \<open>m\<close>, then the continuation.\<close>

fun steps :: "('s, int) state list \<Rightarrow> ('s, int) state \<Rightarrow> ('s, int) state" where
  "steps [] k = k"
| "steps (m # ms) k = do { rc \<leftarrow> m; if rc < 0 then ret rc else steps ms k }"

text \<open>\<open>ret = m; if (ret) goto exit;\<close> for each \<open>m\<close>, then the continuation.\<close>

fun steps_nz :: "('s, int) state list \<Rightarrow> ('s, int) state \<Rightarrow> ('s, int) state" where
  "steps_nz [] k = k"
| "steps_nz (m # ms) k = do { rc \<leftarrow> m; if rc \<noteq> 0 then ret rc else steps_nz ms k }"

text \<open>\<open>r |= m;\<close> and \<open>r &= m;\<close> for each \<open>m\<close>.\<close>

fun or_steps :: "int \<Rightarrow> ('s, int) state list \<Rightarrow> ('s, int) state" where
  "or_steps r [] = ret r"
| "or_steps r (m # ms) = do { x \<leftarrow> m; or_steps (r OR x) ms }"

fun and_steps :: "int \<Rightarrow> ('s, int) state list \<Rightarrow> ('s, int) state" where
  "and_steps r [] = ret r"
| "and_steps r (m # ms) = do { x \<leftarrow> m; and_steps (r AND x) ms }"

text \<open>Calls whose results the source ignores.\<close>

fun seqs :: "('s, int) state list \<Rightarrow> ('s, unit) state" where
  "seqs [] = ret ()"
| "seqs (m # ms) = do { _ \<leftarrow> m; seqs ms }"

section \<open>Triples\<close>

definition valid :: "('s \<Rightarrow> bool) \<Rightarrow> ('s, 'a) state \<Rightarrow> ('a \<Rightarrow> 's \<Rightarrow> bool) \<Rightarrow> bool" where
  "valid P m Q \<longleftrightarrow> (\<forall>s. P s \<longrightarrow> (case run_state m s of (a, s') \<Rightarrow> Q a s'))"

named_theorems vcg and rel_intro

lemma validI: "(\<And>s a s'. P s \<Longrightarrow> run_state m s = (a, s') \<Longrightarrow> Q a s') \<Longrightarrow> valid P m Q"
  by (auto simp: valid_def)

lemma validD: "valid P m Q \<Longrightarrow> P s \<Longrightarrow> run_state m s = (a, s') \<Longrightarrow> Q a s'"
  by (auto simp: valid_def)

lemma valid_conseq:
  "valid P' m Q' \<Longrightarrow> (\<And>s. P s \<Longrightarrow> P' s) \<Longrightarrow> (\<And>a s. Q' a s \<Longrightarrow> Q a s) \<Longrightarrow> valid P m Q"
  unfolding valid_def by (metis (mono_tags, lifting) case_prodE case_prodI)

lemma valid_pre: "valid P' m Q \<Longrightarrow> (\<And>s. P s \<Longrightarrow> P' s) \<Longrightarrow> valid P m Q"
  by (erule valid_conseq) auto

lemma valid_bind:
  "valid P m R \<Longrightarrow> (\<And>x. valid (R x) (f x) Q) \<Longrightarrow> valid P (m \<bind> f) Q"
  unfolding valid_def by (fastforce split: prod.splits)

lemma valid_ret: "(\<And>s. P s \<Longrightarrow> Q a s) \<Longrightarrow> valid P (ret a) Q"
  by (simp add: valid_def)

lemma valid_gets: "(\<And>s. P s \<Longrightarrow> Q (f s) s) \<Longrightarrow> valid P (gets f) Q"
  by (simp add: valid_def)

lemma valid_modify: "(\<And>s. P s \<Longrightarrow> Q () (f s)) \<Longrightarrow> valid P (modify f) Q"
  by (simp add: valid_def)

lemma valid_if: "(b \<Longrightarrow> valid P m Q) \<Longrightarrow> (\<not> b \<Longrightarrow> valid P n Q) \<Longrightarrow> valid P (if b then m else n) Q"
  by simp

text \<open>Invariants: a triple with the same condition before and after.\<close>

definition keeps :: "('s \<Rightarrow> bool) \<Rightarrow> ('s, 'a) state \<Rightarrow> bool" where
  "keeps I m \<longleftrightarrow> valid I m (\<lambda>_. I)"

section \<open>Step relations\<close>

text \<open>
  A reflexive and transitive relation between the states before and after: every
  combinator of the monad preserves it, so it holds for a whole driver once it holds
  for the primitive transfers and updates.
\<close>

locale step_rel =
  fixes R :: "'s \<Rightarrow> 's \<Rightarrow> bool"
  assumes R_refl: "R s s"
    and R_trans: "R s t \<Longrightarrow> R t u \<Longrightarrow> R s u"
begin

abbreviation rel :: "('s, 'a) state \<Rightarrow> bool" where
  "rel \<equiv> state_io_rel R"

lemma rel_ret: "rel (ret a)"
  by (simp add: state_io_rel_def R_refl)

lemma rel_gets: "rel (gets f)"
  by (simp add: state_io_rel_def R_refl)

lemma rel_modify: "(\<And>s. R s (f s)) \<Longrightarrow> rel (modify f)"
  by (simp add: state_io_rel_def)

lemma rel_bind: "rel m \<Longrightarrow> (\<And>x. rel (f x)) \<Longrightarrow> rel (m \<bind> f)"
  unfolding state_io_rel_def by (auto split: prod.splits) (metis R_trans snd_conv)

lemma rel_if: "(b \<Longrightarrow> rel m) \<Longrightarrow> (\<not> b \<Longrightarrow> rel n) \<Longrightarrow> rel (if b then m else n)"
  by simp

lemma rel_steps: "(\<And>m. m \<in> set ms \<Longrightarrow> rel m) \<Longrightarrow> rel k \<Longrightarrow> rel (steps ms k)"
  by (induction ms) (auto intro!: rel_bind rel_if rel_ret)

lemma rel_steps_nz: "(\<And>m. m \<in> set ms \<Longrightarrow> rel m) \<Longrightarrow> rel k \<Longrightarrow> rel (steps_nz ms k)"
  by (induction ms) (auto intro!: rel_bind rel_if rel_ret)

lemma rel_or_steps: "(\<And>m. m \<in> set ms \<Longrightarrow> rel m) \<Longrightarrow> rel (or_steps r ms)"
  by (induction ms arbitrary: r) (auto intro!: rel_bind rel_ret)

lemma rel_and_steps: "(\<And>m. m \<in> set ms \<Longrightarrow> rel m) \<Longrightarrow> rel (and_steps r ms)"
  by (induction ms arbitrary: r) (auto intro!: rel_bind rel_ret)

lemma rel_seqs: "(\<And>m. m \<in> set ms \<Longrightarrow> rel m) \<Longrightarrow> rel (seqs ms)"
  by (induction ms) (auto intro!: rel_bind rel_ret)

lemma rel_let: "(\<And>y. y = x \<Longrightarrow> rel (f y)) \<Longrightarrow> rel (Let x f)"
  by simp

lemma rel_case_option:
  "(x = None \<Longrightarrow> rel m) \<Longrightarrow> (\<And>y. x = Some y \<Longrightarrow> rel (f y)) \<Longrightarrow> rel (case x of None \<Rightarrow> m | Some y \<Rightarrow> f y)"
  by (cases x) auto

lemma rel_case_prod: "(\<And>a b. x = (a, b) \<Longrightarrow> rel (f a b)) \<Longrightarrow> rel (case x of (a, b) \<Rightarrow> f a b)"
  by (cases x) auto

lemmas rel_rules = rel_ret rel_gets rel_bind rel_if rel_steps rel_steps_nz rel_or_steps
  rel_and_steps rel_seqs rel_let rel_case_option rel_case_prod

end

text \<open>Keeping an invariant is an instance, for any invariant.\<close>

definition imp_rel :: "('s \<Rightarrow> bool) \<Rightarrow> 's \<Rightarrow> 's \<Rightarrow> bool" where
  "imp_rel I s t \<longleftrightarrow> (I s \<longrightarrow> I t)"

interpretation inv: step_rel "imp_rel I" for I
  by unfold_locales (auto simp: imp_rel_def)

lemma keeps_iff: "keeps I m \<longleftrightarrow> state_io_rel (imp_rel I) m"
  by (simp add: keeps_def valid_def state_io_rel_def imp_rel_def case_prod_unfold)

lemma keepsD: "keeps I m \<Longrightarrow> run_state m s = (a, s') \<Longrightarrow> I s \<Longrightarrow> I s'"
  by (auto simp: keeps_def valid_def)

lemma state_io_rel_run: "state_io_rel R m \<Longrightarrow> run_state m s = (a, s') \<Longrightarrow> R s s'"
  by (auto simp: state_io_rel_def) (metis snd_conv)

lemmas keeps_rules =
  inv.rel_rules [of I for I, folded keeps_iff]

end
