(* ===== verification/Float64.thy ===== *)
theory Float64
  imports Prelude
begin

text \<open>
  The C type \<open>double\<close>: IEEE 754 binary64 values as rationals, every operation rounded to
  53 significant bits, to nearest with ties to even. The exponent range is unbounded
  (every value of this program lies far inside it), and there are no infinities or NaNs:
  a division by zero is excluded where it is modelled. \<open>dtrunc\<close> is the conversion to an
  integer type, which truncates towards zero.
\<close>

section \<open>Rounding\<close>

definition rne :: "rat \<Rightarrow> int" where
  "rne x = (let f = \<lfloor>x\<rfloor>; d = x - of_int f in
     if d < 1/2 then f else if 1/2 < d then f + 1 else if even f then f else f + 1)"

definition pow2 :: "int \<Rightarrow> rat" where
  "pow2 e = (if 0 \<le> e then 2 ^ nat e else 1 / 2 ^ nat (- e))"

text \<open>The binary exponent of a positive value: \<open>2 ^ e \<le> x < 2 ^ (e + 1)\<close>.\<close>

definition bin_exp :: "rat \<Rightarrow> int" where
  "bin_exp x = (case quotient_of x of (a, b) \<Rightarrow>
     let e = int (floorlog 2 (nat a)) - int (floorlog 2 (nat b))
     in if pow2 e \<le> x then e else e - 1)"

definition rnd :: "rat \<Rightarrow> rat" where
  "rnd x = (if x = 0 then 0 else
     let e = bin_exp \<bar>x\<bar> - 52 in of_int (rne (x / pow2 e)) * pow2 e)"

definition dadd :: "rat \<Rightarrow> rat \<Rightarrow> rat" where "dadd x y = rnd (x + y)"
definition dsub :: "rat \<Rightarrow> rat \<Rightarrow> rat" where "dsub x y = rnd (x - y)"
definition dmul :: "rat \<Rightarrow> rat \<Rightarrow> rat" where "dmul x y = rnd (x * y)"
definition ddiv :: "rat \<Rightarrow> rat \<Rightarrow> rat" where "ddiv x y = rnd (x / y)"

definition dtrunc :: "rat \<Rightarrow> int" where
  "dtrunc x = (if 0 \<le> x then \<lfloor>x\<rfloor> else \<lceil>x\<rceil>)"

section \<open>Powers of two\<close>

lemma pow2_pos [simp]: "0 < pow2 e"
  by (simp add: pow2_def)

lemma pow2_nonneg [simp]: "0 \<le> pow2 e" and pow2_neq0 [simp]: "pow2 e \<noteq> 0"
  using pow2_pos [of e] by (auto simp del: pow2_pos)

lemma pow2_nat: "0 \<le> e \<Longrightarrow> pow2 e = 2 ^ nat e"
  by (simp add: pow2_def)

lemma pow2_powi: "pow2 e = 2 powi e"
  by (auto simp: pow2_def power_int_def inverse_eq_divide power_one_over)

lemma pow2_add: "pow2 (a + b) = pow2 a * pow2 b"
  by (simp add: pow2_powi power_int_add)

lemma pow2_mono: "a \<le> b \<Longrightarrow> pow2 a \<le> pow2 b"
  by (simp add: pow2_powi power_int_increasing)

lemma pow2_strict_mono: "pow2 a < pow2 b \<longleftrightarrow> a < b"
  by (metis linorder_not_le order_less_imp_le pow2_mono pow2_powi power_int_strict_increasing
      one_less_numeral_iff semiring_norm(76) order_le_less_trans order_less_irrefl)

section \<open>The exponent\<close>

lemma floorlog2_bounds:
  "0 < n \<Longrightarrow> 2 ^ (floorlog 2 n - 1) \<le> n \<and> n < 2 ^ floorlog 2 n"
  using floorlog_bounds [of n 2] by simp

lemma floorlog2_rat:
  assumes "0 < n"
  shows "pow2 (int (floorlog 2 n) - 1) \<le> rat_of_nat n"
    and "rat_of_nat n < pow2 (int (floorlog 2 n))"
proof -
  have pos: "0 < floorlog 2 n" using assms by (simp add: floorlog_def)
  have b: "2 ^ (floorlog 2 n - 1) \<le> n" "n < 2 ^ floorlog 2 n"
    using floorlog2_bounds [OF assms] by auto
  have eq: "nat (int (floorlog 2 n) - 1) = floorlog 2 n - 1"
    using pos by linarith
  from b(1) have "rat_of_nat (2 ^ (floorlog 2 n - 1)) \<le> rat_of_nat n"
    by (simp only: of_nat_le_iff)
  with pos eq show "pow2 (int (floorlog 2 n) - 1) \<le> rat_of_nat n"
    by (simp add: pow2_nat)
  from b(2) have "rat_of_nat n < rat_of_nat (2 ^ floorlog 2 n)"
    by (simp only: of_nat_less_iff)
  then show "rat_of_nat n < pow2 (int (floorlog 2 n))"
    by (simp add: pow2_nat)
qed

lemma bin_exp_bounds:
  assumes "0 < x"
  shows "pow2 (bin_exp x) \<le> x" and "x < pow2 (bin_exp x + 1)"
proof -
  obtain a b where q: "quotient_of x = (a, b)" by fastforce
  have x: "x = rat_of_int a / rat_of_int b" and b: "0 < b"
    using q quotient_of_div quotient_of_denom_pos by auto
  with assms have a: "0 < a" by (simp add: zero_less_divide_iff)
  define la where "la = int (floorlog 2 (nat a))"
  define lb where "lb = int (floorlog 2 (nat b))"
  have A: "pow2 (la - 1) \<le> rat_of_int a" "rat_of_int a < pow2 la"
    using floorlog2_rat [of "nat a"] a by (auto simp: la_def)
  have B: "pow2 (lb - 1) \<le> rat_of_int b" "rat_of_int b < pow2 lb"
    using floorlog2_rat [of "nat b"] b by (auto simp: lb_def)
  have lo: "pow2 (la - lb - 1) \<le> x"
  proof -
    have "pow2 (la - lb - 1) * rat_of_int b \<le> pow2 (la - lb - 1) * pow2 lb"
      using B(2) by (intro mult_left_mono) auto
    also have "\<dots> = pow2 (la - 1)" by (simp flip: pow2_add)
    also have "\<dots> \<le> rat_of_int a" by (rule A(1))
    finally show ?thesis using b x by (simp add: pos_le_divide_eq)
  qed
  have hi: "x < pow2 (la - lb + 1)"
  proof -
    have "rat_of_int a < pow2 la" by (rule A(2))
    also have "\<dots> = pow2 (la - lb + 1) * pow2 (lb - 1)" by (simp flip: pow2_add)
    also have "\<dots> \<le> pow2 (la - lb + 1) * rat_of_int b"
      using B(1) by (intro mult_left_mono) auto
    finally show ?thesis using b x by (simp add: pos_divide_less_eq)
  qed
  have e: "bin_exp x = (if pow2 (la - lb) \<le> x then la - lb else la - lb - 1)"
    by (simp add: bin_exp_def q la_def lb_def Let_def)
  show "pow2 (bin_exp x) \<le> x" using lo by (simp add: e)
  show "x < pow2 (bin_exp x + 1)" using hi by (simp add: e)
qed

section \<open>Accuracy\<close>

lemma rne_int [simp]: "rne (of_int i) = i"
  by (simp add: rne_def)

lemma rne_error: "\<bar>of_int (rne x) - x\<bar> \<le> 1/2"
proof -
  define f where "f = \<lfloor>x\<rfloor>"
  have "of_int f \<le> x" "x < of_int f + 1"
    unfolding f_def by linarith+
  then show ?thesis by (auto simp: rne_def Let_def f_def [symmetric] abs_le_iff)
qed

lemma rnd_0 [simp]: "rnd 0 = 0"
  by (simp add: rnd_def)

text \<open>Half a unit in the last place, as a relative error.\<close>

lemma rnd_error: "\<bar>rnd x - x\<bar> \<le> \<bar>x\<bar> / 2 ^ 53"
proof (cases "x = 0")
  case False
  define e where "e = bin_exp \<bar>x\<bar> - 52"
  have le: "pow2 (e + 52) \<le> \<bar>x\<bar>"
    using bin_exp_bounds(1) [of "\<bar>x\<bar>"] False by (simp add: e_def)
  have "rnd x - x = (of_int (rne (x / pow2 e)) - x / pow2 e) * pow2 e"
    using False by (simp add: rnd_def e_def [symmetric] Let_def left_diff_distrib)
  then have "\<bar>rnd x - x\<bar> \<le> 1/2 * pow2 e"
    using rne_error [of "x / pow2 e"] by (simp add: abs_mult mult_right_mono)
  also have "\<dots> = pow2 (e + 52) / 2 ^ 53"
    by (simp add: pow2_add pow2_nat)
  also have "\<dots> \<le> \<bar>x\<bar> / 2 ^ 53"
    using le by (simp add: divide_right_mono)
  finally show ?thesis .
qed simp

text \<open>Values with at most 53 significant bits are exact.\<close>

lemma rnd_exact:
  assumes "\<bar>m\<bar> < 2 ^ 53"
  shows "rnd (of_int m * pow2 k) = of_int m * pow2 k"
proof (cases "m = 0")
  case False
  define x where "x = rat_of_int m * pow2 k"
  define e where "e = bin_exp \<bar>x\<bar> - 52"
  have nz: "x \<noteq> 0" using False by (simp add: x_def)
  have ax: "\<bar>x\<bar> = rat_of_int \<bar>m\<bar> * pow2 k" by (simp add: x_def abs_mult)
  have "pow2 (bin_exp \<bar>x\<bar>) \<le> \<bar>x\<bar>" using bin_exp_bounds(1) nz by simp
  also have "\<bar>x\<bar> < pow2 53 * pow2 k"
  proof -
    have "rat_of_int \<bar>m\<bar> < rat_of_int (2 ^ 53)" using assms by (simp only: of_int_less_iff)
    then show ?thesis unfolding ax by (simp add: pow2_nat)
  qed
  also have "\<dots> = pow2 (53 + k)" by (simp add: pow2_add)
  finally have "bin_exp \<bar>x\<bar> < 53 + k" by (simp only: pow2_strict_mono)
  then have le: "0 \<le> k - e" by (simp add: e_def)
  have "x / pow2 e = rat_of_int m * pow2 (k - e)"
    using pow2_add [of "k - e" e] by (simp add: x_def)
  also have "\<dots> = rat_of_int (m * 2 ^ nat (k - e))"
    using le by (simp add: pow2_nat)
  finally have i: "x / pow2 e = rat_of_int (m * 2 ^ nat (k - e))" .
  have "rnd x = of_int (rne (x / pow2 e)) * pow2 e"
    using nz by (simp add: rnd_def e_def [symmetric] Let_def)
  also have "\<dots> = x / pow2 e * pow2 e" by (simp only: i rne_int)
  finally show ?thesis by (simp add: x_def)
qed simp

lemma rnd_of_int: "\<bar>m\<bar> < 2 ^ 53 \<Longrightarrow> rnd (of_int m) = of_int m"
  using rnd_exact [of m 0] by (simp add: pow2_nat)

lemma rnd_of_nat: "n < 2 ^ 53 \<Longrightarrow> rnd (of_nat n) = of_nat n"
  using rnd_of_int [of "int n"] by simp

lemma dmul_1 [simp]: "dmul x 1 = rnd x"
  by (simp add: dmul_def)

lemma rnd_nonneg: "0 \<le> x \<Longrightarrow> 0 \<le> rnd x"
proof -
  assume x: "0 \<le> x"
  have "\<bar>rnd x - x\<bar> \<le> x / 2 ^ 53" using rnd_error [of x] x by simp
  moreover have "x / 2 ^ 53 \<le> x" using x by simp
  ultimately show ?thesis by linarith
qed

text \<open>
  Dividing two integers in double precision and truncating is integer division, as long
  as the dividend has at most 53 bits.
\<close>

lemma dtrunc_of_nat_div:
  assumes "n < 2 ^ 53" and "0 < d"
  shows "dtrunc (ddiv (of_nat n) (of_nat d)) = int (n div d)"
proof -
  define x where "x = rat_of_nat n / rat_of_nat d"
  define q where "q = n div d"
  have nn: "0 \<le> rnd x" by (rule rnd_nonneg) (simp add: x_def)
  have err: "\<bar>rnd x - x\<bar> \<le> x / 2 ^ 53" using rnd_error [of x] by (simp add: x_def)
  have "rat_of_nat n < rat_of_nat (2 ^ 53)" using assms(1) by (simp only: of_nat_less_iff)
  then have small: "x / 2 ^ 53 < 1 / rat_of_nat d"
    using assms(2) by (simp add: x_def field_simps)
  have "of_int (int q) \<le> rnd x \<and> rnd x < of_int (int q) + 1"
  proof (cases "n mod d = 0")
    case True
    then have "n = q * d" by (simp add: q_def mod_0_imp_dvd)
    then have "x = rat_of_nat q" using assms(2) by (simp add: x_def)
    moreover have "q < 2 ^ 53"
      using assms(1) unfolding q_def by (rule order_le_less_trans [OF div_le_dividend])
    ultimately show ?thesis using rnd_of_nat [of q] by simp
  next
    case False
    have n: "n = q * d + n mod d" by (simp add: q_def)
    have r: "1 \<le> n mod d" "n mod d + 1 \<le> d"
      using False assms(2) mod_less_divisor [of d n] by linarith+
    have x2: "x = rat_of_nat q + rat_of_nat (n mod d) / rat_of_nat d"
    proof -
      have "x = rat_of_nat (q * d + n mod d) / rat_of_nat d"
        by (subst n [symmetric]) (rule x_def)
      then show ?thesis using assms(2) by (simp add: add_divide_distrib)
    qed
    have "1 / rat_of_nat d \<le> rat_of_nat (n mod d) / rat_of_nat d"
    proof -
      have "rat_of_nat 1 \<le> rat_of_nat (n mod d)" using r(1) by (simp only: of_nat_le_iff)
      then show ?thesis by (simp add: divide_right_mono)
    qed
    moreover have "rat_of_nat (n mod d) / rat_of_nat d + 1 / rat_of_nat d \<le> 1"
    proof -
      have "rat_of_nat (n mod d + 1) \<le> rat_of_nat d" using r(2) by (simp only: of_nat_le_iff)
      then show ?thesis using assms(2) by (simp add: field_simps)
    qed
    moreover have "rnd x - x < 1 / rat_of_nat d" "x - rnd x < 1 / rat_of_nat d"
      using err small by linarith+
    ultimately have "rat_of_nat q \<le> rnd x" "rnd x < rat_of_nat q + 1"
      using x2 by linarith+
    then show ?thesis by simp
  qed
  then have "\<lfloor>rnd x\<rfloor> = int q" by (simp add: floor_eq_iff)
  then show ?thesis using nn by (simp add: dtrunc_def ddiv_def x_def q_def)
qed

end
