(* ===== verification/Device.thy ===== *)
theory Device
  imports Float64
begin

text \<open>
  The data model of the driver: \<open>struct rtlsdr_dev\<close> of \<open>librtlsdr.c\<close> with the tuner
  states it embeds (\<open>tuner_e4k.h\<close>, \<open>tuner_r82xx.h\<close>), the static gain tables of
  \<open>tuner_r82xx.c\<close>, and the USB control transfers through which every register of the dongle
  is reached. The device behind the bus is not part of the program: it is an arbitrary
  function of the transfers made so far (\<open>usb_env\<close>), and the list of completed transfers
  is part of the state. Undefined behaviour of C (division by zero, conversions out of
  range, reads outside a table) sets the sticky flag \<open>dev_ub\<close>.
\<close>

section \<open>USB control transfers\<close>

text \<open>
  One entry per \<open>libusb_control_transfer\<close>: \<open>wValue\<close>, \<open>wIndex\<close>, the bytes sent
  or the requested length, the return code, and for reads the buffer afterwards.
\<close>

datatype usb_xfer =
    CtrlOut u16 u16 "u8 list" int
  | CtrlIn u16 u16 nat int "u8 list"

record usb_env =
  out_rc :: "usb_xfer list \<Rightarrow> u16 \<Rightarrow> u16 \<Rightarrow> u8 list \<Rightarrow> int"
  in_rc :: "usb_xfer list \<Rightarrow> u16 \<Rightarrow> u16 \<Rightarrow> nat \<Rightarrow> int"
  in_byte :: "usb_xfer list \<Rightarrow> u16 \<Rightarrow> u16 \<Rightarrow> nat \<Rightarrow> nat \<Rightarrow> u8"
  stack_junk :: "usb_xfer list \<Rightarrow> nat \<Rightarrow> u8" \<comment> \<open>uninitialised locals\<close>

section \<open>Tuner states\<close>

datatype e4k_band = E4K_BAND_VHF2 | E4K_BAND_VHF3 | E4K_BAND_UHF | E4K_BAND_L

record e4k_pll_params =
  pll_fosc :: nat
  pll_intended_flo :: nat
  pll_flo :: nat
  pll_x :: nat
  pll_z :: nat
  pll_r :: nat
  pll_r_idx :: u8
  pll_threephase :: bool

record e4k_state =
  e4k_i2c_addr :: u8
  e4k_band :: e4k_band
  e4k_vco :: e4k_pll_params
  e4k_gain_mode :: int

datatype r82xx_chip = CHIP_R820T | CHIP_R620D | CHIP_R828D | CHIP_R828 | CHIP_R828S
  | CHIP_R820C

datatype r82xx_xtal_cap = XTAL_LOW_CAP_30P | XTAL_LOW_CAP_20P | XTAL_LOW_CAP_10P
  | XTAL_LOW_CAP_0P | XTAL_HIGH_CAP_0P

record r82xx_config =
  cfg_i2c_addr :: u8
  cfg_xtal :: nat
  cfg_rafael_chip :: r82xx_chip
  cfg_max_i2c_msg_len :: nat
  cfg_use_predetect :: bool

record r82xx_priv =
  r82_regs :: "u8 list"
  r82_xtal_cap_sel :: r82xx_xtal_cap
  r82_int_freq :: nat
  r82_fil_cal_code :: u8
  r82_input :: u8
  r82_has_lock :: bool
  r82_init_done :: bool
  r82_delsys :: nat
  r82_type :: int
  r82_bw :: nat
  r82_gain_mode :: int

text \<open>The writable statics of \<open>tuner_r82xx.c\<close>.\<close>

record r82xx_statics =
  r82_gain_table :: "int list"
  r82_gain_table_len :: nat
  LNA_stage :: "int list"
  Mixer_stage :: "int list"
  IF_stage :: "int list"

text \<open>And those of \<open>tuner_e4k.c\<close>.\<close>

record e4k_statics =
  tuner_gain_table_linearity :: "int list"
  tuner_gain_table_sensitivity :: "int list"

section \<open>The device\<close>

datatype rtlsdr_tuner = RTLSDR_TUNER_UNKNOWN | RTLSDR_TUNER_E4000 | RTLSDR_TUNER_FC0012
  | RTLSDR_TUNER_FC0013 | RTLSDR_TUNER_FC2580 | RTLSDR_TUNER_R820T | RTLSDR_TUNER_R828D

datatype rtlsdr_async_status = RTLSDR_INACTIVE | RTLSDR_CANCELING | RTLSDR_RUNNING

text \<open>
  \<open>dev_tuner\<close> is the pointer \<open>dev->tuner\<close> into the table \<open>tuners\<close>: \<open>None\<close> is NULL,
  \<open>Some t\<close> is \<open>&tuners[t]\<close>.
\<close>

record rtlsdr_dev =
  dev_usb :: usb_env
  dev_xfers :: "usb_xfer list" \<comment> \<open>newest first\<close>
  dev_ub :: bool
  dev_xfer_buf_num :: nat
  dev_xfer_buf_len :: nat
  dev_async_status :: rtlsdr_async_status
  dev_async_cancel :: bool
  dev_rate :: nat
  dev_rtl_xtal :: nat
  dev_fir :: "int list"
  dev_direct_sampling :: int
  dev_tuner_type :: rtlsdr_tuner
  dev_tuner :: "rtlsdr_tuner option"
  dev_tun_xtal :: nat
  dev_freq :: nat
  dev_bw :: nat
  dev_offs_freq :: nat
  dev_corr :: int
  dev_gain :: int
  dev_e4k :: e4k_state
  dev_r82c :: r82xx_config
  dev_r82p :: r82xx_priv
  dev_r82s :: r82xx_statics
  dev_e4s :: e4k_statics
  dev_lost :: bool
  dev_driver_active :: bool
  dev_xfer_errors :: nat

type_synonym 'a usb_m = "(rtlsdr_dev, 'a) state"

definition fault :: "unit usb_m" where
  "fault = modify (\<lambda>s. s\<lparr>dev_ub := True\<rparr>)"

section \<open>Transfers\<close>

text \<open>
  A read returns how many bytes arrived: those replace the front of the buffer, the rest
  of the buffer keeps its old contents.
\<close>

definition fill :: "int \<Rightarrow> u8 list \<Rightarrow> (nat \<Rightarrow> u8) \<Rightarrow> u8 list" where
  "fill rc old new = map (\<lambda>k. if int k < rc then new k else old ! k) [0..<length old]"

definition ctrl_out :: "u16 \<Rightarrow> u16 \<Rightarrow> u8 list \<Rightarrow> int usb_m" where
  "ctrl_out v i d = State (\<lambda>s. let rc = out_rc (dev_usb s) (dev_xfers s) v i d
     in (rc, s\<lparr>dev_xfers := CtrlOut v i d rc # dev_xfers s\<rparr>))"

definition ctrl_in :: "u16 \<Rightarrow> u16 \<Rightarrow> u8 list \<Rightarrow> (int \<times> u8 list) usb_m" where
  "ctrl_in v i old = State (\<lambda>s. let n = length old;
       rc = in_rc (dev_usb s) (dev_xfers s) v i n;
       d = fill rc old (in_byte (dev_usb s) (dev_xfers s) v i n)
     in ((rc, d), s\<lparr>dev_xfers := CtrlIn v i n rc d # dev_xfers s\<rparr>))"

text \<open>The contents of an uninitialised local array of \<open>n\<close> bytes.\<close>

definition junk :: "nat \<Rightarrow> u8 list usb_m" where
  "junk n = gets (\<lambda>s. map (stack_junk (dev_usb s) (dev_xfers s)) [0..<n])"

lemma length_fill [simp]: "length (fill rc old new) = length old"
  by (simp add: fill_def)

lemma run_ctrl_out:
  "run_state (ctrl_out v i d) s =
     (out_rc (dev_usb s) (dev_xfers s) v i d,
      s\<lparr>dev_xfers := CtrlOut v i d (out_rc (dev_usb s) (dev_xfers s) v i d) # dev_xfers s\<rparr>)"
  by (simp add: ctrl_out_def Let_def)

lemma run_fault [simp]: "run_state fault s = ((), s\<lparr>dev_ub := True\<rparr>)"
  by (simp add: fault_def)

text \<open>
  What libusb documents of a control transfer: the return code is negative for an error,
  and otherwise the number of bytes transferred, at most the number requested.
\<close>

definition usb_counts_ok :: "usb_env \<Rightarrow> bool" where
  "usb_counts_ok e \<longleftrightarrow> (\<forall>h v i d. out_rc e h v i d \<le> int (length d)) \<and>
     (\<forall>h v i n. in_rc e h v i n \<le> int n)"

text \<open>A bus on which every transfer completes in full.\<close>

definition usb_acks :: "usb_env \<Rightarrow> bool" where
  "usb_acks e \<longleftrightarrow> (\<forall>h v i d. out_rc e h v i d = int (length d)) \<and>
     (\<forall>h v i n. in_rc e h v i n = int n)"

section \<open>What the transfers have done\<close>

text \<open>Block numbers and \<open>wIndex\<close> values of the RTL2832U.\<close>

definition iic_out :: u16 where "iic_out = 0x610"
definition iic_in :: u16 where "iic_in = 0x600"
definition eeprom_addr :: u16 where "eeprom_addr = 0xa0"

text \<open>
  The register file of the I2C chip at address \<open>a\<close>: the last value written to each
  register by a transfer that was acknowledged in full (the first byte of a write is the
  register number, the others go to consecutive registers).
\<close>

fun chip_reg :: "u8 \<Rightarrow> usb_xfer list \<Rightarrow> u8 \<Rightarrow> u8 option" where
  "chip_reg a [] r = None"
| "chip_reg a (CtrlOut v i d rc # xs) r =
     (if i = iic_out \<and> v = ucast a \<and> rc = int (length d) \<and> d \<noteq> [] \<and>
         unat (r - hd d) < length (tl d)
      then Some (tl d ! unat (r - hd d)) else chip_reg a xs r)"
| "chip_reg a (CtrlIn v i n rc d # xs) r = chip_reg a xs r"

text \<open>
  The I2C repeater that connects the tuner to the bus is bit 3 of demodulator register
  0x01 on page 1 (\<open>wIndex\<close> 0x11, \<open>wValue\<close> 0x0120). It counts as switched to what was last commanded: the library does not look at the
  result of that transfer, and when it fails the state of the chip is not known.
\<close>

fun repeater_write :: "usb_xfer \<Rightarrow> bool" where
  "repeater_write (CtrlOut v i d rc) \<longleftrightarrow> v = 0x0120 \<and> i = 0x11 \<and> d \<noteq> []"
| "repeater_write (CtrlIn v i n rc d) \<longleftrightarrow> False"

fun repeater_on :: "usb_xfer list \<Rightarrow> bool" where
  "repeater_on [] = False"
| "repeater_on (CtrlOut v i d rc # xs) =
     (if repeater_write (CtrlOut v i d rc) then bit (hd d) 3 else repeater_on xs)"
| "repeater_on (CtrlIn v i n rc d # xs) = repeater_on xs"

text \<open>Traffic for a tuner: an I2C transfer to any address but the EEPROM's.\<close>

fun tuner_xfer :: "usb_xfer \<Rightarrow> bool" where
  "tuner_xfer (CtrlOut v i d rc) \<longleftrightarrow> i = iic_out \<and> v \<noteq> eeprom_addr"
| "tuner_xfer (CtrlIn v i n rc d) \<longleftrightarrow> i = iic_in \<and> v \<noteq> eeprom_addr"

fun disciplined :: "usb_xfer list \<Rightarrow> bool" where
  "disciplined [] = True"
| "disciplined (x # xs) \<longleftrightarrow> disciplined xs \<and> (tuner_xfer x \<longrightarrow> repeater_on xs)"

section \<open>Frames\<close>

text \<open>
  A tuner driver works through the bus and keeps its own state; the receiver's settings
  (sample rate, clocks, frequency, gain, streaming status) stay as they are.
\<close>

definition same_core :: "rtlsdr_dev \<Rightarrow> rtlsdr_dev \<Rightarrow> bool" where
  "same_core s t \<longleftrightarrow>
     dev_usb t = dev_usb s \<and>
     dev_xfer_buf_num t = dev_xfer_buf_num s \<and>
     dev_xfer_buf_len t = dev_xfer_buf_len s \<and>
     dev_async_status t = dev_async_status s \<and>
     dev_async_cancel t = dev_async_cancel s \<and>
     dev_rate t = dev_rate s \<and>
     dev_rtl_xtal t = dev_rtl_xtal s \<and>
     dev_fir t = dev_fir s \<and>
     dev_direct_sampling t = dev_direct_sampling s \<and>
     dev_tuner_type t = dev_tuner_type s \<and>
     dev_tuner t = dev_tuner s \<and>
     dev_tun_xtal t = dev_tun_xtal s \<and>
     dev_freq t = dev_freq s \<and>
     dev_bw t = dev_bw s \<and>
     dev_offs_freq t = dev_offs_freq s \<and>
     dev_corr t = dev_corr s \<and>
     dev_gain t = dev_gain s \<and>
     dev_r82c t = dev_r82c s \<and>
     dev_lost t = dev_lost s \<and>
     dev_driver_active t = dev_driver_active s \<and>
     dev_xfer_errors t = dev_xfer_errors s"

text \<open>The transfers made between two states all satisfy \<open>ok\<close>.\<close>

definition xfers_rel :: "(usb_xfer \<Rightarrow> bool) \<Rightarrow> rtlsdr_dev \<Rightarrow> rtlsdr_dev \<Rightarrow> bool" where
  "xfers_rel ok s t \<longleftrightarrow>
     (\<exists>ys. dev_xfers t = ys @ dev_xfers s \<and> (\<forall>y\<in>set ys. ok y))"

definition bus_rel :: "(usb_xfer \<Rightarrow> bool) \<Rightarrow> rtlsdr_dev \<Rightarrow> rtlsdr_dev \<Rightarrow> bool" where
  "bus_rel ok s t \<longleftrightarrow> xfers_rel ok s t \<and> same_core s t"

lemma same_core_refl [simp]: "same_core s s"
  by (simp add: same_core_def)

lemma same_core_trans: "same_core s t \<Longrightarrow> same_core t u \<Longrightarrow> same_core s u"
  by (simp add: same_core_def)

lemma xfers_rel_refl [simp]: "xfers_rel ok s s"
  by (simp add: xfers_rel_def)

lemma xfers_rel_trans: "xfers_rel ok s t \<Longrightarrow> xfers_rel ok t u \<Longrightarrow> xfers_rel ok s u"
  unfolding xfers_rel_def by (metis Un_iff append.assoc set_append)

interpretation bus: step_rel "bus_rel ok" for ok
  by unfold_locales
    (auto simp: bus_rel_def intro: xfers_rel_trans same_core_trans)

lemma rel_ctrl_out:
  "(\<And>rc. ok (CtrlOut v i d rc)) \<Longrightarrow> bus.rel ok (ctrl_out v i d)"
  by (auto simp: state_io_rel_def ctrl_out_def Let_def bus_rel_def xfers_rel_def same_core_def)

lemma rel_ctrl_in:
  "(\<And>rc b. ok (CtrlIn v i (length d) rc b)) \<Longrightarrow> bus.rel ok (ctrl_in v i d)"
  by (auto simp: state_io_rel_def ctrl_in_def Let_def bus_rel_def xfers_rel_def same_core_def)

lemma rel_fault [rel_intro]: "bus.rel ok fault"
  by (auto simp: state_io_rel_def bus_rel_def xfers_rel_def same_core_def)

lemma rel_junk [rel_intro]: "bus.rel ok (junk n)"
  by (simp add: junk_def bus.rel_gets)

text \<open>Updates of the tuner states stay inside the frame.\<close>

lemma rel_modify_e4k [rel_intro]: "bus.rel ok (modify (\<lambda>s. s\<lparr>dev_e4k := f s\<rparr>))"
  by (rule bus.rel_modify) (simp add: bus_rel_def xfers_rel_def same_core_def)

lemma rel_modify_r82p [rel_intro]: "bus.rel ok (modify (\<lambda>s. s\<lparr>dev_r82p := g s\<rparr>))"
  by (rule bus.rel_modify) (simp add: bus_rel_def xfers_rel_def same_core_def)

lemma rel_modify_r82s [rel_intro]: "bus.rel ok (modify (\<lambda>s. s\<lparr>dev_r82s := h s\<rparr>))"
  by (rule bus.rel_modify) (simp add: bus_rel_def xfers_rel_def same_core_def)

lemma bus_rel_mono: "bus_rel ok s t \<Longrightarrow> (\<And>x. ok x \<Longrightarrow> ok' x) \<Longrightarrow> bus_rel ok' s t"
  by (auto simp: bus_rel_def xfers_rel_def)

lemma rel_mono_ok: "bus.rel ok m \<Longrightarrow> (\<And>x. ok x \<Longrightarrow> ok' x) \<Longrightarrow> bus.rel ok' m"
  unfolding state_io_rel_def by (blast intro: bus_rel_mono)

lemma rel_modify_e4s [rel_intro]: "bus.rel ok (modify (\<lambda>s. s\<lparr>dev_e4s := h s\<rparr>))"
  by (rule bus.rel_modify) (simp add: bus_rel_def xfers_rel_def same_core_def)

section \<open>Consequences for the repeater\<close>

lemma repeater_on_append:
  "\<forall>y\<in>set ys. \<not> repeater_write y \<Longrightarrow> repeater_on (ys @ xs) = repeater_on xs"
proof (induction ys)
  case (Cons y ys)
  then show ?case by (cases y) (auto simp del: repeater_write.simps)
qed simp

lemma disciplined_append:
  "\<forall>y\<in>set ys. \<not> repeater_write y \<Longrightarrow> repeater_on xs \<Longrightarrow> disciplined xs \<Longrightarrow>
     disciplined (ys @ xs)"
  by (induction ys) (auto simp: repeater_on_append)

lemma disciplined_append_quiet:
  "\<forall>y\<in>set ys. \<not> tuner_xfer y \<Longrightarrow> disciplined (ys @ xs) = disciplined xs"
  by (induction ys) auto

section \<open>An example device\<close>

text \<open>
  A device as \<open>calloc\<close> and the first lines of \<open>rtlsdr_open\<close> leave it, on a bus that
  completes every transfer and reads zeros. The witnesses of the properties start here.
\<close>

definition ack_env :: usb_env where
  "ack_env = \<lparr>out_rc = (\<lambda>h v i d. int (length d)), in_rc = (\<lambda>h v i n. int n),
     in_byte = (\<lambda>h v i n k. 0), stack_junk = (\<lambda>h k. 0)\<rparr>"

definition example_dev :: rtlsdr_dev where
  "example_dev = \<lparr>
     dev_usb = ack_env, dev_xfers = [], dev_ub = False,
     dev_xfer_buf_num = 0, dev_xfer_buf_len = 0,
     dev_async_status = RTLSDR_INACTIVE, dev_async_cancel = False,
     dev_rate = 0, dev_rtl_xtal = 28800000, dev_fir = replicate 16 0,
     dev_direct_sampling = 0, dev_tuner_type = RTLSDR_TUNER_UNKNOWN, dev_tuner = None,
     dev_tun_xtal = 28800000, dev_freq = 0, dev_bw = 0, dev_offs_freq = 0, dev_corr = 0,
     dev_gain = 0,
     dev_e4k = \<lparr>e4k_i2c_addr = 0, e4k_band = E4K_BAND_VHF2,
       e4k_vco = \<lparr>pll_fosc = 0, pll_intended_flo = 0, pll_flo = 0, pll_x = 0, pll_z = 0,
         pll_r = 0, pll_r_idx = 0, pll_threephase = False\<rparr>, e4k_gain_mode = 0\<rparr>,
     dev_r82c = \<lparr>cfg_i2c_addr = 0x34, cfg_xtal = 28800000, cfg_rafael_chip = CHIP_R820T,
       cfg_max_i2c_msg_len = 8, cfg_use_predetect = False\<rparr>,
     dev_r82p = \<lparr>r82_regs = replicate 30 0, r82_xtal_cap_sel = XTAL_LOW_CAP_30P,
       r82_int_freq = 0, r82_fil_cal_code = 0, r82_input = 0, r82_has_lock = False,
       r82_init_done = False, r82_delsys = 0, r82_type = 0, r82_bw = 0, r82_gain_mode = 0\<rparr>,
     dev_r82s = \<lparr>r82_gain_table = replicate 32 0, r82_gain_table_len = 0,
       LNA_stage = replicate 16 0, Mixer_stage = replicate 16 0, IF_stage = replicate 16 0\<rparr>,
     dev_e4s = \<lparr>tuner_gain_table_linearity = replicate 11 0,
       tuner_gain_table_sensitivity = replicate 11 0\<rparr>,
     dev_lost = False, dev_driver_active = False, dev_xfer_errors = 0\<rparr>"

lemma ack_env_acks [simp]: "usb_acks ack_env"
  by (simp add: usb_acks_def ack_env_def)

lemma example_dev_simps [simp]:
  "dev_usb example_dev = ack_env" "dev_xfers example_dev = []" "dev_ub example_dev = False"
  "dev_rtl_xtal example_dev = 28800000" "dev_tun_xtal example_dev = 28800000"
  "dev_corr example_dev = 0" "dev_tuner example_dev = None"
  "dev_async_status example_dev = RTLSDR_INACTIVE"
  "cfg_max_i2c_msg_len (dev_r82c example_dev) = 8" "cfg_xtal (dev_r82c example_dev) = 28800000"
  "cfg_rafael_chip (dev_r82c example_dev) = CHIP_R820T"
  "length (r82_regs (dev_r82p example_dev)) = 30"
  by (simp_all add: example_dev_def)

end
