(* ===== verification/Regs.thy ===== *)
theory Regs
  imports Device
begin

text \<open>
  Register access of \<open>librtlsdr.c\<close>: the USB, system and I2C blocks, the demodulator
  pages, the GPIO pins, the I2C repeater, the FIR coefficients, the initialisation of
  the baseband, and the crystal clocks with the ppm correction applied. The lemmas give
  what each primitive puts on the bus and that none of them touches the tuner settings.
\<close>

section \<open>Blocks and registers\<close>

definition DEMODB :: u8 where "DEMODB = 0"
definition USBB :: u8 where "USBB = 1"
definition SYSB :: u8 where "SYSB = 2"
definition IICB :: u8 where "IICB = 6"

definition USB_SYSCTL :: u16 where "USB_SYSCTL = 0x2000"
definition USB_EPA_CTL :: u16 where "USB_EPA_CTL = 0x2148"
definition USB_EPA_MAXPKT :: u16 where "USB_EPA_MAXPKT = 0x2158"
definition DEMOD_CTL :: u16 where "DEMOD_CTL = 0x3000"
definition GPO :: u16 where "GPO = 0x3001"
definition GPOE :: u16 where "GPOE = 0x3003"
definition GPD :: u16 where "GPD = 0x3004"
definition DEMOD_CTL_1 :: u16 where "DEMOD_CTL_1 = 0x300b"
definition EEPROM_ADDR :: u16 where "EEPROM_ADDR = 0xa0"

lemmas reg_defs = DEMODB_def USBB_def SYSB_def IICB_def USB_SYSCTL_def USB_EPA_CTL_def
  USB_EPA_MAXPKT_def DEMOD_CTL_def GPO_def GPOE_def GPD_def DEMOD_CTL_1_def EEPROM_ADDR_def

section \<open>Arrays and I2C\<close>

definition rtlsdr_read_array :: "u8 \<Rightarrow> u16 \<Rightarrow> u8 list \<Rightarrow> (int \<times> u8 list) usb_m" where
  "rtlsdr_read_array block addr old = ctrl_in addr (push_bit 8 (ucast block)) old"

definition rtlsdr_write_array :: "u8 \<Rightarrow> u16 \<Rightarrow> u8 list \<Rightarrow> int usb_m" where
  "rtlsdr_write_array block addr arr = ctrl_out addr (push_bit 8 (ucast block) OR 0x10) arr"

definition rtlsdr_i2c_write_reg :: "u8 \<Rightarrow> u8 \<Rightarrow> u8 \<Rightarrow> int usb_m" where
  "rtlsdr_i2c_write_reg i2c_addr reg val = rtlsdr_write_array IICB (ucast i2c_addr) [reg, val]"

definition rtlsdr_i2c_read_reg :: "u8 \<Rightarrow> u8 \<Rightarrow> u8 usb_m" where
  "rtlsdr_i2c_read_reg i2c_addr reg = do {
     _ \<leftarrow> rtlsdr_write_array IICB (ucast i2c_addr) [reg];
     (_, d) \<leftarrow> rtlsdr_read_array IICB (ucast i2c_addr) [0];
     ret (d ! 0) }"

definition rtlsdr_i2c_write_fn :: "u8 \<Rightarrow> u8 list \<Rightarrow> int usb_m" where
  "rtlsdr_i2c_write_fn addr buf = rtlsdr_write_array IICB (ucast addr) buf"

definition rtlsdr_i2c_read_fn :: "u8 \<Rightarrow> u8 list \<Rightarrow> (int \<times> u8 list) usb_m" where
  "rtlsdr_i2c_read_fn addr old = rtlsdr_read_array IICB (ucast addr) old"

section \<open>Registers of the USB and system blocks\<close>

text \<open>
  Only the first \<open>len\<close> bytes of the uninitialised two-byte buffer are filled, so for
  \<open>len = 1\<close> the high byte of the result is arbitrary.
\<close>

definition reg_word :: "u8 list \<Rightarrow> u16" where
  "reg_word data = push_bit 8 (ucast (data ! 1)) OR ucast (data ! 0)"

definition rtlsdr_read_reg :: "u8 \<Rightarrow> u16 \<Rightarrow> nat \<Rightarrow> u16 usb_m" where
  "rtlsdr_read_reg block addr len = do {
     j \<leftarrow> junk 2;
     (_, d) \<leftarrow> ctrl_in addr (push_bit 8 (ucast block)) (take len j);
     ret (reg_word (d @ drop len j)) }"

definition reg_bytes :: "u16 \<Rightarrow> nat \<Rightarrow> u8 list" where
  "reg_bytes val len =
     take len [if len = 1 then ucast (val AND 0xff) else ucast (drop_bit 8 val),
               ucast (val AND 0xff)]"

definition rtlsdr_write_reg :: "u8 \<Rightarrow> u16 \<Rightarrow> u16 \<Rightarrow> nat \<Rightarrow> int usb_m" where
  "rtlsdr_write_reg block addr val len =
     ctrl_out addr (push_bit 8 (ucast block) OR 0x10) (reg_bytes val len)"

section \<open>Demodulator registers\<close>

definition rtlsdr_demod_read_reg :: "u8 \<Rightarrow> u16 \<Rightarrow> nat \<Rightarrow> u16 usb_m" where
  "rtlsdr_demod_read_reg page addr len = do {
     j \<leftarrow> junk 2;
     (_, d) \<leftarrow> ctrl_in (push_bit 8 addr OR 0x20) (ucast page) (take len j);
     ret (reg_word (d @ drop len j)) }"

definition rtlsdr_demod_write_reg :: "u8 \<Rightarrow> u16 \<Rightarrow> u16 \<Rightarrow> nat \<Rightarrow> int usb_m" where
  "rtlsdr_demod_write_reg page addr val len = do {
     r \<leftarrow> ctrl_out (push_bit 8 addr OR 0x20) (0x10 OR ucast page) (reg_bytes val len);
     _ \<leftarrow> rtlsdr_demod_read_reg 0x0a 0x01 1;
     ret (if r = int len then 0 else -1) }"

section \<open>GPIO and the I2C repeater\<close>

definition rtlsdr_set_gpio_bit :: "u8 \<Rightarrow> bool \<Rightarrow> unit usb_m" where
  "rtlsdr_set_gpio_bit gpio val = do {
     r \<leftarrow> rtlsdr_read_reg SYSB GPO 1;
     let g = (ucast (push_bit (unat gpio) 1 :: u8) :: u16);
     _ \<leftarrow> rtlsdr_write_reg SYSB GPO (if val then r OR g else r AND NOT g) 1;
     ret () }"

definition rtlsdr_set_gpio_output :: "u8 \<Rightarrow> unit usb_m" where
  "rtlsdr_set_gpio_output gpio = do {
     let g = (ucast (push_bit (unat gpio) 1 :: u8) :: u16);
     r \<leftarrow> rtlsdr_read_reg SYSB GPD 1;
     _ \<leftarrow> rtlsdr_write_reg SYSB GPO (r AND NOT g) 1;
     r \<leftarrow> rtlsdr_read_reg SYSB GPOE 1;
     _ \<leftarrow> rtlsdr_write_reg SYSB GPOE (r OR g) 1;
     ret () }"

definition rtlsdr_set_i2c_repeater :: "bool \<Rightarrow> unit usb_m" where
  "rtlsdr_set_i2c_repeater on = do {
     _ \<leftarrow> rtlsdr_demod_write_reg 1 0x01 (if on then 0x18 else 0x10) 1;
     ret () }"

section \<open>FIR coefficients\<close>

definition fir_default :: "int list" where
  "fir_default = [-54, -36, -41, -40, -32, -14, 14, 53,
                  101, 156, 215, 273, 327, 372, 404, 421]"

text \<open>Eight 8-bit coefficients, then eight 12-bit ones packed two in three bytes.\<close>

fun fir_pack12 :: "int list \<Rightarrow> u8 list option" where
  "fir_pack12 (val0 # val1 # cs) =
     (if val0 < -2048 \<or> val0 > 2047 \<or> val1 < -2048 \<or> val1 > 2047 then None
      else map_option (\<lambda>bs. word_of_int (drop_bit 4 val0) #
             word_of_int (push_bit 4 val0 OR (drop_bit 8 val1 AND 0x0f)) #
             word_of_int val1 # bs) (fir_pack12 cs))"
| "fir_pack12 cs = Some []"

definition fir_encode :: "int list \<Rightarrow> u8 list option" where
  "fir_encode cs =
     (if \<exists>c \<in> set (take 8 cs). c < -128 \<or> c > 127 then None
      else map_option ((@) (map word_of_int (take 8 cs))) (fir_pack12 (drop 8 cs)))"

fun fir_writes :: "u16 \<Rightarrow> u8 list \<Rightarrow> int usb_m" where
  "fir_writes a [] = ret 0"
| "fir_writes a (b # bs) = do {
     r \<leftarrow> rtlsdr_demod_write_reg 1 a (ucast b) 1;
     if r \<noteq> 0 then ret (-1) else fir_writes (a + 1) bs }"

definition rtlsdr_set_fir :: "int usb_m" where
  "rtlsdr_set_fir = do {
     cs \<leftarrow> gets dev_fir;
     case fir_encode cs of None \<Rightarrow> ret (-1) | Some bs \<Rightarrow> fir_writes 0x1c bs }"

section \<open>Baseband initialisation\<close>

definition rtlsdr_init_baseband :: "unit usb_m" where
  "rtlsdr_init_baseband = seqs (
     [rtlsdr_write_reg USBB USB_SYSCTL 0x09 1,
      rtlsdr_write_reg USBB USB_EPA_MAXPKT 0x0002 2,
      rtlsdr_write_reg USBB USB_EPA_CTL 0x1002 2,
      rtlsdr_write_reg SYSB DEMOD_CTL_1 0x22 1,
      rtlsdr_write_reg SYSB DEMOD_CTL 0xe8 1,
      rtlsdr_demod_write_reg 1 0x01 0x14 1,
      rtlsdr_demod_write_reg 1 0x01 0x10 1,
      rtlsdr_demod_write_reg 1 0x15 0x00 1,
      rtlsdr_demod_write_reg 1 0x16 0x0000 2] @
     map (\<lambda>i. rtlsdr_demod_write_reg 1 (0x16 + i) 0x00 1) [0, 1, 2, 3, 4, 5] @
     [rtlsdr_set_fir,
      rtlsdr_demod_write_reg 0 0x19 0x05 1,
      rtlsdr_demod_write_reg 1 0x93 0xf0 1,
      rtlsdr_demod_write_reg 1 0x94 0x0f 1,
      rtlsdr_demod_write_reg 1 0x11 0x00 1,
      rtlsdr_demod_write_reg 1 0x04 0x00 1,
      rtlsdr_demod_write_reg 0 0x61 0x60 1,
      rtlsdr_demod_write_reg 0 0x06 0x80 1,
      rtlsdr_demod_write_reg 1 0xb1 0x1b 1,
      rtlsdr_demod_write_reg 0 0x0d 0x83 1])"

section \<open>Crystal clocks\<close>

text \<open>\<open>APPLY_PPM_CORR\<close>: \<open>val * (1.0 + ppm / 1e6)\<close> in double precision, truncated.\<close>

definition apply_ppm_corr :: "nat \<Rightarrow> int \<Rightarrow> int" where
  "apply_ppm_corr val ppm =
     dtrunc (dmul (of_nat val) (dadd 1 (ddiv (of_int ppm) 1000000)))"

definition corrected_clock :: "(rtlsdr_dev \<Rightarrow> nat) \<Rightarrow> nat usb_m" where
  "corrected_clock sel = do {
     val \<leftarrow> gets sel;
     ppm \<leftarrow> gets dev_corr;
     let x = apply_ppm_corr val ppm;
     if 0 \<le> x \<and> x < 4294967296 then ret (nat x)
     else do { fault; ret (u32_of_int x) } }"

definition rtlsdr_get_rtl_xtal :: "nat usb_m" where
  "rtlsdr_get_rtl_xtal = corrected_clock dev_rtl_xtal"

definition rtlsdr_get_tuner_clock :: "nat usb_m" where
  "rtlsdr_get_tuner_clock = corrected_clock dev_tun_xtal"

text \<open>
  \<open>if_freq = ((freq * TWO_POW(22)) / rtl_xtal) * (-1)\<close>, converted to \<open>int32_t\<close>; the
  three bytes go to registers 0x19 to 0x1b of page 1.
\<close>

definition if_freq_word :: "nat \<Rightarrow> nat \<Rightarrow> int" where
  "if_freq_word freq xtal =
     dtrunc (dmul (ddiv (dmul (of_nat freq) 4194304) (of_nat xtal)) (-1))"

definition rtlsdr_set_if_freq :: "nat \<Rightarrow> int usb_m" where
  "rtlsdr_set_if_freq freq = do {
     xtal \<leftarrow> rtlsdr_get_rtl_xtal;
     let w = if_freq_word freq xtal;
     (if xtal = 0 \<or> w < - 2147483648 \<or> w > 2147483647 then fault else ret ());
     or_steps 0 [rtlsdr_demod_write_reg 1 0x19 (word_of_int (drop_bit 16 w AND 0x3f)) 1,
                 rtlsdr_demod_write_reg 1 0x1a (word_of_int (drop_bit 8 w AND 0xff)) 1,
                 rtlsdr_demod_write_reg 1 0x1b (word_of_int (w AND 0xff)) 1] }"

text \<open>\<open>int16_t offs = ppm * (-1) * TWO_POW(24) / 1000000\<close>.\<close>

definition ppm_offset :: "int \<Rightarrow> int" where
  "ppm_offset ppm = dtrunc (ddiv (dmul (of_int (ppm * (-1))) 16777216) 1000000)"

definition rtlsdr_set_sample_freq_correction :: "int \<Rightarrow> int usb_m" where
  "rtlsdr_set_sample_freq_correction ppm = do {
     let offs = ppm_offset ppm;
     (if offs < - 32768 \<or> offs > 32767 then fault else ret ());
     or_steps 0 [rtlsdr_demod_write_reg 1 0x3f (word_of_int (offs AND 0xff)) 1,
                 rtlsdr_demod_write_reg 1 0x3e (word_of_int (drop_bit 8 offs AND 0x3f)) 1] }"

section \<open>Frames of the primitives\<close>

text \<open>Where a transfer is addressed: the demodulator register a write goes to.\<close>

definition demod_xfer :: "u8 \<Rightarrow> u16 \<Rightarrow> usb_xfer \<Rightarrow> bool" where
  "demod_xfer page addr x \<longleftrightarrow> (case x of
     CtrlOut v i d rc \<Rightarrow> v = push_bit 8 addr OR 0x20 \<and> i = (0x10 OR ucast page)
   | CtrlIn v i n rc d \<Rightarrow> i = 0x0a)"

text \<open>I2C transfers for the chip at address \<open>a\<close>.\<close>

definition i2c_xfer :: "u8 \<Rightarrow> usb_xfer \<Rightarrow> bool" where
  "i2c_xfer a x \<longleftrightarrow> (case x of
     CtrlOut v i d rc \<Rightarrow> v = ucast a \<and> i = iic_out
   | CtrlIn v i n rc d \<Rightarrow> v = ucast a \<and> i = iic_in)"

text \<open>I2C transfers for any chip.\<close>

definition any_i2c :: "usb_xfer \<Rightarrow> bool" where
  "any_i2c x \<longleftrightarrow> (\<exists>a. i2c_xfer a x)"

lemma any_i2cI: "i2c_xfer a x \<Longrightarrow> any_i2c x"
  by (auto simp: any_i2c_def)

text \<open>Transfers of the USB and system blocks.\<close>

definition sys_xfer :: "usb_xfer \<Rightarrow> bool" where
  "sys_xfer x \<longleftrightarrow> (case x of
     CtrlOut v i d rc \<Rightarrow> i = 0x110 \<or> i = 0x210
   | CtrlIn v i n rc d \<Rightarrow> i = 0x100 \<or> i = 0x200)"

lemma rel_i2c_write_fn [rel_intro]:
  "(\<And>x. i2c_xfer a x \<Longrightarrow> ok x) \<Longrightarrow> bus.rel ok (rtlsdr_i2c_write_fn a d)"
  unfolding rtlsdr_i2c_write_fn_def rtlsdr_write_array_def
  by (rule rel_ctrl_out) (simp add: i2c_xfer_def iic_out_def IICB_def)

lemma rel_i2c_read_fn [rel_intro]:
  "(\<And>x. i2c_xfer a x \<Longrightarrow> ok x) \<Longrightarrow> bus.rel ok (rtlsdr_i2c_read_fn a d)"
  unfolding rtlsdr_i2c_read_fn_def rtlsdr_read_array_def
  by (rule rel_ctrl_in) (simp add: i2c_xfer_def iic_in_def IICB_def)

lemma rel_i2c_read_reg [rel_intro]:
  "(\<And>x. i2c_xfer a x \<Longrightarrow> ok x) \<Longrightarrow> bus.rel ok (rtlsdr_i2c_read_reg a r)"
  unfolding rtlsdr_i2c_read_reg_def rtlsdr_write_array_def rtlsdr_read_array_def
  by (intro bus.rel_rules rel_ctrl_out rel_ctrl_in)
    (simp_all add: i2c_xfer_def iic_in_def iic_out_def IICB_def)

lemma rel_demod_read_reg [rel_intro]:
  "(\<And>v n rc d. ok (CtrlIn v (ucast page) n rc d)) \<Longrightarrow> bus.rel ok (rtlsdr_demod_read_reg page addr len)"
  unfolding rtlsdr_demod_read_reg_def
  by (intro bus.rel_rules rel_ctrl_in rel_intro) auto

lemma rel_demod_write_reg [rel_intro]:
  "(\<And>x. demod_xfer page addr x \<Longrightarrow> ok x) \<Longrightarrow>
     bus.rel ok (rtlsdr_demod_write_reg page addr val len)"
  unfolding rtlsdr_demod_write_reg_def
  by (intro bus.rel_rules rel_ctrl_out rel_intro) (auto simp: demod_xfer_def)

lemma rel_block_read_reg [rel_intro]:
  "block = USBB \<or> block = SYSB \<Longrightarrow> (\<And>x. sys_xfer x \<Longrightarrow> ok x) \<Longrightarrow>
     bus.rel ok (rtlsdr_read_reg block addr len)"
  unfolding rtlsdr_read_reg_def
  by (intro bus.rel_rules rel_ctrl_in rel_intro) (auto simp: sys_xfer_def USBB_def SYSB_def)

lemma rel_block_write_reg [rel_intro]:
  "block = USBB \<or> block = SYSB \<Longrightarrow> (\<And>x. sys_xfer x \<Longrightarrow> ok x) \<Longrightarrow>
     bus.rel ok (rtlsdr_write_reg block addr val len)"
  unfolding rtlsdr_write_reg_def
  by (rule rel_ctrl_out) (auto simp: sys_xfer_def USBB_def SYSB_def)

lemma rel_set_gpio_bit [rel_intro]:
  "(\<And>x. sys_xfer x \<Longrightarrow> ok x) \<Longrightarrow> bus.rel ok (rtlsdr_set_gpio_bit gpio val)"
  unfolding rtlsdr_set_gpio_bit_def
  by (intro bus.rel_rules rel_intro) auto

lemma rel_set_gpio_output [rel_intro]:
  "(\<And>x. sys_xfer x \<Longrightarrow> ok x) \<Longrightarrow> bus.rel ok (rtlsdr_set_gpio_output gpio)"
  unfolding rtlsdr_set_gpio_output_def
  by (intro bus.rel_rules rel_intro) auto

lemma rel_corrected_clock [rel_intro]: "bus.rel ok (corrected_clock sel)"
  unfolding corrected_clock_def by (intro bus.rel_rules rel_intro)

lemma rel_tuner_clock [rel_intro]: "bus.rel ok rtlsdr_get_tuner_clock"
  unfolding rtlsdr_get_tuner_clock_def by (rule rel_corrected_clock)

lemma rel_rtl_xtal [rel_intro]: "bus.rel ok rtlsdr_get_rtl_xtal"
  unfolding rtlsdr_get_rtl_xtal_def by (rule rel_corrected_clock)

text \<open>Kinds of transfers, as the repeater discipline sees them.\<close>

lemma i2c_xfer_not_repeater: "i2c_xfer a x \<Longrightarrow> \<not> repeater_write x"
  by (cases x) (auto simp: i2c_xfer_def iic_out_def)

lemma sys_xfer_quiet: "sys_xfer x \<Longrightarrow> \<not> repeater_write x \<and> \<not> tuner_xfer x"
  by (cases x) (auto simp: sys_xfer_def iic_out_def iic_in_def)

lemma page_index: "(0x10 OR ucast (p :: u8) :: u16) \<noteq> 0x610"
proof
  assume "(0x10 OR ucast p :: u16) = 0x610"
  then have "bit (0x10 OR ucast p :: u16) 10 = bit (0x610 :: u16) 10" by simp
  then show False by (auto simp: bit_simps dest: bit_imp_le_length)
qed

lemma demod_xfer_quiet: "demod_xfer p a x \<Longrightarrow> \<not> tuner_xfer x"
  using page_index [of p]
  by (cases x) (auto simp: demod_xfer_def iic_out_def iic_in_def)

section \<open>The clocks without correction\<close>

lemma apply_ppm_corr_0: "val < 4294967296 \<Longrightarrow> apply_ppm_corr val 0 = int val"
proof -
  assume "val < 4294967296"
  then have "rnd (of_nat val) = of_nat val" by (intro rnd_of_nat) simp
  moreover have "rnd 1 = 1" using rnd_of_nat [of 1] by simp
  ultimately show ?thesis
    by (simp add: apply_ppm_corr_def dadd_def ddiv_def dtrunc_def)
qed

lemma run_tuner_clock_0:
  "dev_corr s = 0 \<Longrightarrow> dev_tun_xtal s < 4294967296 \<Longrightarrow>
     run_state rtlsdr_get_tuner_clock s = (dev_tun_xtal s, s)"
  by (simp add: rtlsdr_get_tuner_clock_def corrected_clock_def apply_ppm_corr_0 Let_def)

lemma run_rtl_xtal_0:
  "dev_corr s = 0 \<Longrightarrow> dev_rtl_xtal s < 4294967296 \<Longrightarrow>
     run_state rtlsdr_get_rtl_xtal s = (dev_rtl_xtal s, s)"
  by (simp add: rtlsdr_get_rtl_xtal_def corrected_clock_def apply_ppm_corr_0 Let_def)

section \<open>Correctness of the encodings\<close>

text \<open>What the demodulator reads back from the twenty coefficient bytes.\<close>

fun fir_unpack12 :: "u8 list \<Rightarrow> int list" where
  "fir_unpack12 (b0 # b1 # b2 # bs) =
     sint (push_bit 4 (ucast b0) OR drop_bit 4 (ucast b1) :: 12 word) #
     sint (push_bit 8 (ucast (b1 AND 0x0f)) OR ucast b2 :: 12 word) # fir_unpack12 bs"
| "fir_unpack12 bs = []"

definition fir_decode :: "u8 list \<Rightarrow> int list" where
  "fir_decode bs = map sint (take 8 bs) @ fir_unpack12 (drop 8 bs)"

lemma sint12: "-2048 \<le> v \<Longrightarrow> v \<le> 2047 \<Longrightarrow> sint (word_of_int v :: 12 word) = v"
  by (simp add: sint_sbintrunc' signed_take_bit_int_eq_self_iff)

lemma sint8: "-128 \<le> v \<Longrightarrow> v \<le> 127 \<Longrightarrow> sint (word_of_int v :: u8) = v"
  by (simp add: sint_sbintrunc' signed_take_bit_int_eq_self_iff)

lemma unpack_first:
  "(push_bit 4 (ucast (word_of_int (drop_bit 4 v0) :: u8)) OR
    drop_bit 4 (ucast (word_of_int (push_bit 4 v0 OR (drop_bit 8 v1 AND 0x0f)) :: u8)) :: 12 word)
   = word_of_int v0"
proof (rule bit_word_eqI)
  have m: "(0x0f :: int) = mask 4" by (simp add: mask_eq_exp_minus_1)
  fix n assume "n < LENGTH(12)"
  then show "bit (push_bit 4 (ucast (word_of_int (drop_bit 4 v0) :: u8)) OR
    drop_bit 4 (ucast (word_of_int (push_bit 4 v0 OR (drop_bit 8 v1 AND 0x0f)) :: u8)) :: 12 word) n
    = bit (word_of_int v0 :: 12 word) n"
    by (auto simp: m bit_simps)
qed

lemma unpack_second:
  "(push_bit 8 (ucast ((word_of_int (push_bit 4 v0 OR (drop_bit 8 v1 AND 0x0f)) :: u8) AND 0x0f))
    OR ucast (word_of_int v1 :: u8) :: 12 word) = word_of_int v1"
proof (rule bit_word_eqI)
  have m: "(0x0f :: int) = mask 4" "(0x0f :: u8) = mask 4" by (simp_all add: mask_eq_exp_minus_1)
  fix n assume "n < LENGTH(12)"
  then show "bit (push_bit 8 (ucast ((word_of_int (push_bit 4 v0 OR (drop_bit 8 v1 AND 0x0f)) :: u8)
      AND 0x0f)) OR ucast (word_of_int v1 :: u8) :: 12 word) n = bit (word_of_int v1 :: 12 word) n"
    by (auto simp: m bit_simps)
qed

lemma fir_pack12_decode:
  "fir_pack12 cs = Some bs \<Longrightarrow> even (length cs) \<Longrightarrow>
     fir_unpack12 bs = cs \<and> 2 * length bs = 3 * length cs"
proof (induction cs arbitrary: bs rule: fir_pack12.induct)
  case (1 val0 val1 cs)
  from "1.prems"(1) obtain bs' where bs': "fir_pack12 cs = Some bs'"
    and r: "-2048 \<le> val0" "val0 \<le> 2047" "-2048 \<le> val1" "val1 \<le> 2047"
    and bs: "bs = word_of_int (drop_bit 4 val0) #
             word_of_int (push_bit 4 val0 OR (drop_bit 8 val1 AND 0x0f)) #
             word_of_int val1 # bs'"
    by (auto split: if_splits)
  have "fir_unpack12 bs' = cs \<and> 2 * length bs' = 3 * length cs"
    using "1.IH" bs' r "1.prems"(2) by auto
  then show ?case
    unfolding bs using r by (simp only: fir_unpack12.simps unpack_first unpack_second sint12) simp
qed auto

text \<open>
  Coefficients written by \<open>rtlsdr_set_fir\<close> survive the packing: whenever
  the range check accepts the sixteen coefficients, the twenty register bytes decode to
  exactly those coefficients; no other value can share the encoding.
\<close>

lemma fir_encode_decode:
  assumes "length cs = 16" and "fir_encode cs = Some bs"
  shows "fir_decode bs = cs \<and> length bs = 20"
proof -
  from assms(2) obtain p where p: "fir_pack12 (drop 8 cs) = Some p"
    and r: "\<forall>c \<in> set (take 8 cs). -128 \<le> c \<and> c \<le> 127"
    and bs: "bs = map word_of_int (take 8 cs) @ p"
    by (force simp: fir_encode_def not_less split: if_splits)
  have "fir_unpack12 p = drop 8 cs \<and> 2 * length p = 3 * length (drop 8 cs)"
    using fir_pack12_decode [OF p] assms(1) by simp
  moreover have "map sint (map word_of_int (take 8 cs) :: u8 list) = take 8 cs"
    using r by (simp add: sint8 map_idI)
  ultimately show ?thesis
    using assms(1) bs by (simp add: fir_decode_def)
qed

lemma fir_encode_decode_example:
  "fir_decode (the (fir_encode fir_default)) = fir_default \<and>
   length (the (fir_encode fir_default)) = 20"
  by (rule fir_encode_decode) (simp_all add: fir_default_def fir_encode_def)

end
