(* ===== verification/Chip.thy ===== *)
theory Chip
  imports Regs
begin

text \<open>
  The interface between a tuner driver and the register file of its chip: a write
  operation that touches nothing but the chip's I2C address, and that updates exactly the
  named register when the bus acknowledges. Everything a driver does with a table of
  register values follows from these two laws.
\<close>

definition i2c_only :: "u8 \<Rightarrow> 'a usb_m \<Rightarrow> bool" where
  "i2c_only a m \<longleftrightarrow> state_io_rel (bus_rel (i2c_xfer a)) m"

lemma same_core_usb: "bus_rel ok s t \<Longrightarrow> dev_usb t = dev_usb s"
  by (simp add: bus_rel_def same_core_def)

locale reg_chip =
  fixes addr :: u8
    and wr :: "u8 \<Rightarrow> u8 \<Rightarrow> int usb_m"
    and good :: int
  assumes wr_frame: "i2c_only addr (wr r v)"
    and wr_acked: "usb_acks (dev_usb s) \<Longrightarrow> run_state (wr r v) s = (rc, s') \<Longrightarrow>
      rc = good \<and> chip_reg addr (dev_xfers s') = (chip_reg addr (dev_xfers s))(r \<mapsto> v)"
begin

definition after_writes :: "(u8 \<times> u8) list \<Rightarrow> rtlsdr_dev \<Rightarrow> rtlsdr_dev \<Rightarrow> bool" where
  "after_writes rvs s t \<longleftrightarrow> bus_rel (i2c_xfer addr) s t \<and>
     chip_reg addr (dev_xfers t) = chip_reg addr (dev_xfers s) ++ map_of (rev rvs)"

lemma after_writes_Nil: "after_writes [] s s"
  by (simp add: after_writes_def bus.R_refl)

lemma after_writes_Cons:
  assumes "usb_acks (dev_usb s)" and run: "run_state (wr r v) s = (rc, s1)"
    and t: "after_writes rvs s1 t"
  shows "after_writes ((r, v) # rvs) s t"
proof -
  have "bus_rel (i2c_xfer addr) s s1"
    using state_io_rel_run [OF wr_frame [unfolded i2c_only_def] run] .
  moreover have "chip_reg addr (dev_xfers s1) = (chip_reg addr (dev_xfers s))(r \<mapsto> v)"
    using wr_acked [OF assms(1) run] by simp
  ultimately show ?thesis
    using t by (auto simp: after_writes_def map_add_assoc [symmetric] intro: bus.R_trans)
qed

lemma wr_step:
  assumes "usb_acks (dev_usb s)"
  obtains s1 where "run_state (wr r v) s = (good, s1)" and "usb_acks (dev_usb s1)"
proof -
  obtain rc s1 where run: "run_state (wr r v) s = (rc, s1)" by fastforce
  have "dev_usb s1 = dev_usb s"
    using state_io_rel_run [OF wr_frame [unfolded i2c_only_def] run] by (rule same_core_usb)
  with run wr_acked [OF assms run] assms that show thesis by auto
qed

lemma steps_writes:
  "0 \<le> good \<Longrightarrow> usb_acks (dev_usb s) \<Longrightarrow>
     \<exists>t. run_state (steps (map (\<lambda>(r, v). wr r v) rvs) k) s = run_state k t \<and> after_writes rvs s t"
proof (induction rvs arbitrary: s)
  case (Cons rv rvs)
  obtain r v where rv: "rv = (r, v)" by (cases rv)
  obtain s1 where s1: "run_state (wr r v) s = (good, s1)" "usb_acks (dev_usb s1)"
    using wr_step [OF Cons.prems(2)] .
  from Cons.IH [OF Cons.prems(1) s1(2)] Cons.prems s1 show ?case
    by (auto simp: rv intro: after_writes_Cons)
qed (auto simp: after_writes_Nil)

lemma steps_nz_writes:
  "good = 0 \<Longrightarrow> usb_acks (dev_usb s) \<Longrightarrow>
     \<exists>t. run_state (steps_nz (map (\<lambda>(r, v). wr r v) rvs) k) s = run_state k t \<and> after_writes rvs s t"
proof (induction rvs arbitrary: s)
  case (Cons rv rvs)
  obtain r v where rv: "rv = (r, v)" by (cases rv)
  obtain s1 where s1: "run_state (wr r v) s = (good, s1)" "usb_acks (dev_usb s1)"
    using wr_step [OF Cons.prems(2)] .
  from Cons.IH [OF Cons.prems(1) s1(2)] Cons.prems s1 show ?case
    by (auto simp: rv intro: after_writes_Cons)
qed (auto simp: after_writes_Nil)

lemma and_steps_writes:
  "good = 1 \<Longrightarrow> usb_acks (dev_usb s) \<Longrightarrow>
     \<exists>t. run_state (and_steps 1 (map (\<lambda>(r, v). wr r v) rvs @ ms)) s = run_state (and_steps 1 ms) t \<and>
       after_writes rvs s t"
proof (induction rvs arbitrary: s)
  case (Cons rv rvs)
  obtain r v where rv: "rv = (r, v)" by (cases rv)
  obtain s1 where s1: "run_state (wr r v) s = (good, s1)" "usb_acks (dev_usb s1)"
    using wr_step [OF Cons.prems(2)] .
  from Cons.IH [OF Cons.prems(1) s1(2)] Cons.prems s1 show ?case
    by (auto simp: rv intro: after_writes_Cons)
qed (auto simp: after_writes_Nil)

lemma seqs_writes:
  "usb_acks (dev_usb s) \<Longrightarrow>
     \<exists>t. run_state (seqs (map (\<lambda>(r, v). wr r v) rvs)) s = ((), t) \<and> after_writes rvs s t"
proof (induction rvs arbitrary: s)
  case (Cons rv rvs)
  obtain r v where rv: "rv = (r, v)" by (cases rv)
  obtain s1 where s1: "run_state (wr r v) s = (good, s1)" "usb_acks (dev_usb s1)"
    using wr_step [OF Cons.prems(1)] .
  from Cons.IH [OF s1(2)] Cons.prems s1 show ?case
    by (auto simp: rv intro: after_writes_Cons)
qed (auto simp: after_writes_Nil)

end

section \<open>Two-byte register writes\<close>

text \<open>The transfer every chip uses: the register number and the value.\<close>

lemma chip_reg_write_fn:
  assumes "usb_acks (dev_usb s)" and "run_state (rtlsdr_i2c_write_fn a [r, v]) s = (rc, s')"
  shows "rc = 2 \<and> chip_reg a (dev_xfers s') = (chip_reg a (dev_xfers s))(r \<mapsto> v)"
proof -
  have i: "(push_bit 8 (ucast IICB) OR 0x10 :: u16) = iic_out"
    by (simp add: IICB_def iic_out_def)
  have rc: "out_rc (dev_usb s) (dev_xfers s) (ucast a) iic_out [r, v] = 2"
    using assms(1) by (simp add: usb_acks_def)
  have s': "rc = 2" "s' = s\<lparr>dev_xfers := CtrlOut (ucast a) iic_out [r, v] 2 # dev_xfers s\<rparr>"
    using assms(2) rc
    by (simp_all add: rtlsdr_i2c_write_fn_def rtlsdr_write_array_def run_ctrl_out i)
  have "unat (r' - r) < Suc 0 \<longleftrightarrow> r' = r" for r' :: u8
    by (simp add: unat_eq_0)
  then show ?thesis by (auto simp: s' fun_eq_iff)
qed

lemma write_fn_i2c_only: "i2c_only a (rtlsdr_i2c_write_fn a d)"
  unfolding i2c_only_def by (rule rel_i2c_write_fn)

section \<open>Registers left alone\<close>

text \<open>Between the two states only the registers in \<open>S\<close> of chip \<open>a\<close> may have changed.\<close>

definition chip_frame :: "u8 \<Rightarrow> u8 set \<Rightarrow> rtlsdr_dev \<Rightarrow> rtlsdr_dev \<Rightarrow> bool" where
  "chip_frame a S s t \<longleftrightarrow>
     (\<forall>r. r \<notin> S \<longrightarrow> chip_reg a (dev_xfers t) r = chip_reg a (dev_xfers s) r)"

interpretation cf: step_rel "chip_frame a S" for a S
  by unfold_locales (auto simp: chip_frame_def)

lemma unat_diff_eq_0 [simp]: "unat (a - b) = 0 \<longleftrightarrow> a = b" for a b :: "'a::len word"
  by (simp add: unat_eq_0)

lemma cf_write_fn: "r \<in> S \<Longrightarrow> cf.rel a S (rtlsdr_i2c_write_fn a [r, v])"
  by (auto simp: state_io_rel_def chip_frame_def rtlsdr_i2c_write_fn_def
      rtlsdr_write_array_def run_ctrl_out)

lemma cf_write_addr: "cf.rel a S (rtlsdr_i2c_write_fn a [r])"
  by (auto simp: state_io_rel_def chip_frame_def rtlsdr_i2c_write_fn_def
      rtlsdr_write_array_def run_ctrl_out)

lemma cf_read_fn: "cf.rel a S (rtlsdr_i2c_read_fn a d)"
  by (auto simp: state_io_rel_def chip_frame_def rtlsdr_i2c_read_fn_def
      rtlsdr_read_array_def ctrl_in_def Let_def)

section \<open>Operations on an acknowledging bus\<close>

text \<open>On a bus that acknowledges, the operation returns a value in \<open>G\<close>.\<close>

definition acked :: "('a \<Rightarrow> bool) \<Rightarrow> 'a usb_m \<Rightarrow> bool" where
  "acked G m \<longleftrightarrow> valid (\<lambda>s. usb_acks (dev_usb s)) m (\<lambda>a s. G a \<and> usb_acks (dev_usb s))"

lemma ackedD: "acked G m \<Longrightarrow> usb_acks (dev_usb s) \<Longrightarrow> run_state m s = (a, s') \<Longrightarrow>
    G a \<and> usb_acks (dev_usb s')"
  by (auto simp: acked_def valid_def)

lemma acked_weaken: "acked G m \<Longrightarrow> (\<And>a. G a \<Longrightarrow> H a) \<Longrightarrow> acked H m"
  unfolding acked_def by (erule valid_conseq) auto

lemma acked_ret: "G a \<Longrightarrow> acked G (ret a)"
  by (simp add: acked_def valid_def)

lemma acked_gets: "(\<And>s. G (f s)) \<Longrightarrow> acked G (gets f)"
  by (simp add: acked_def valid_def)

lemma acked_bind: "acked H m \<Longrightarrow> (\<And>a. H a \<Longrightarrow> acked G (f a)) \<Longrightarrow> acked G (m \<bind> f)"
  unfolding acked_def by (erule valid_bind) (auto simp: valid_def)

lemma acked_if: "(b \<Longrightarrow> acked G m) \<Longrightarrow> (\<not> b \<Longrightarrow> acked G n) \<Longrightarrow> acked G (if b then m else n)"
  by simp

lemma acked_steps:
  "(\<And>m. m \<in> set ms \<Longrightarrow> acked ((\<le>) 0) m) \<Longrightarrow> acked G k \<Longrightarrow> acked G (steps ms k)"
  by (induction ms) (auto intro!: acked_bind [where H = "(\<le>) 0"] acked_if acked_ret)

lemma acked_steps_nz:
  "(\<And>m. m \<in> set ms \<Longrightarrow> acked (\<lambda>a. a = 0) m) \<Longrightarrow> acked G k \<Longrightarrow> acked G (steps_nz ms k)"
  by (induction ms) (auto intro!: acked_bind [where H = "\<lambda>a. a = 0"] acked_if acked_ret)

lemma acked_write_fn: "acked (\<lambda>a. a = (int (length d))) (rtlsdr_i2c_write_fn a d)"
  by (auto simp: acked_def valid_def usb_acks_def rtlsdr_i2c_write_fn_def
      rtlsdr_write_array_def run_ctrl_out)

lemma acked_read_fn: "acked (\<lambda>(rc, b). rc = int (length d)) (rtlsdr_i2c_read_fn a d)"
  by (auto simp: acked_def valid_def usb_acks_def rtlsdr_i2c_read_fn_def
      rtlsdr_read_array_def ctrl_in_def Let_def)

lemma acked_and_steps:
  "(\<And>m. m \<in> set ms \<Longrightarrow> acked (\<lambda>a. a = 1) m) \<Longrightarrow> acked (\<lambda>a. a = 1) (and_steps 1 ms)"
  by (induction ms) (auto intro!: acked_bind [where H = "\<lambda>a. a = 1"] acked_ret)

text \<open>A prefix of acknowledged operations falls through to the continuation.\<close>

lemma steps_nz_acked_run:
  "(\<And>m. m \<in> set ms \<Longrightarrow> acked (\<lambda>a. a = 0) m) \<Longrightarrow> usb_acks (dev_usb s) \<Longrightarrow>
     \<exists>t. run_state (steps_nz ms k) s = run_state k t \<and> usb_acks (dev_usb t)"
proof (induction ms arbitrary: s)
  case (Cons m ms)
  obtain rc s1 where run: "run_state m s = (rc, s1)" by (rule prod.exhaust)
  have "acked (\<lambda>a. a = 0) m" by (rule Cons.prems(1)) simp
  from ackedD [OF this Cons.prems(2) run] have rc: "rc = 0" and s1: "usb_acks (dev_usb s1)" by simp_all
  have "acked (\<lambda>a. a = 0) x" if "x \<in> set ms" for x using that by (intro Cons.prems(1)) simp
  from Cons.IH [OF this s1] show ?case by (simp add: run rc)
qed auto

lemma acked_run:
  "acked G m \<Longrightarrow> usb_acks (dev_usb s) \<Longrightarrow>
     \<exists>a t. run_state m s = (a, t) \<and> G a \<and> usb_acks (dev_usb t)"
  using ackedD by (metis surj_pair)

end
