(* ===== verification/Fc0012.thy ===== *)
theory Fc0012
  imports Chip
begin

text \<open>
  The Fitipower FC0012 tuner, \<open>tuner_fc0012.c\<close>: register access, initialisation, the
  PLL computation (divider, integer part, sigma-delta fraction) with the wrap-around of
  its C types, tuning with VCO calibration, and the gain setting. The PLL functions with
  prefix \<open>fc_\<close> are the statements that \<open>tuner_fc0013.c\<close> repeats word for word.
\<close>

definition FC0012_I2C_ADDR :: u8 where "FC0012_I2C_ADDR = 0xc6"

section \<open>Register access\<close>

definition fc0012_writereg :: "u8 \<Rightarrow> u8 \<Rightarrow> int usb_m" where
  "fc0012_writereg reg val = do {
     rc \<leftarrow> rtlsdr_i2c_write_fn FC0012_I2C_ADDR [reg, val];
     ret (if rc < 0 then -1 else 0) }"

text \<open>\<open>*val\<close> is assigned only on success; the second component is \<open>data\<close>.\<close>

definition fc0012_readreg :: "u8 \<Rightarrow> (int \<times> u8) usb_m" where
  "fc0012_readreg reg = do {
     rc \<leftarrow> rtlsdr_i2c_write_fn FC0012_I2C_ADDR [reg];
     if rc < 0 then ret (-1, reg)
     else do {
       (rc, d) \<leftarrow> rtlsdr_i2c_read_fn FC0012_I2C_ADDR [reg];
       if rc < 0 then ret (-1, reg) else ret (0, d ! 0) } }"

section \<open>Initialisation\<close>

text \<open>
  Registers 0x01 to 0x15; register 0x07 with 0x20 and register 0x0c with 0x02 set.
\<close>

definition fc0012_init_regs :: "u8 list" where
  "fc0012_init_regs =
     (let reg = [0x00, 0x05, 0x10, 0x00, 0x00, 0x0f, 0x00, 0x00, 0xff, 0x6e, 0xb8, 0x82,
                 0xfc, 0x02, 0x00, 0x00, 0x00, 0x00, 0x1f, 0x08, 0x00, 0x04];
          reg = reg[0x07 := reg ! 0x07 OR 0x20]
      in reg[0x0c := reg ! 0x0c OR 0x02])"

definition fc0012_init :: "int usb_m" where
  "fc0012_init =
     steps_nz (map (\<lambda>(i, v). fc0012_writereg i v)
       (map (\<lambda>i. (of_nat i, fc0012_init_regs ! i)) [1..<length fc0012_init_regs])) (ret 0)"

section \<open>PLL computation\<close>

text \<open>Divider and the initial values of registers 5 and 6, by frequency.\<close>

definition fc0012_divider :: "nat \<Rightarrow> nat \<times> u8 \<times> u8" where
  "fc0012_divider freq =
     (if freq < 37084000 then (96, 0x82, 0x00)
      else if freq < 55625000 then (64, 0x82, 0x02)
      else if freq < 74167000 then (48, 0x42, 0x00)
      else if freq < 111250000 then (32, 0x42, 0x02)
      else if freq < 148334000 then (24, 0x22, 0x00)
      else if freq < 222500000 then (16, 0x22, 0x02)
      else if freq < 296667000 then (12, 0x12, 0x00)
      else if freq < 445000000 then (8, 0x12, 0x02)
      else if freq < 593334000 then (6, 0x0a, 0x00)
      else (4, 0x0a, 0x02))"

text \<open>
  \<open>f_vco = freq * multi\<close>: both operands are 32-bit, so the product wraps before it is
  widened to \<open>uint64_t\<close>.
\<close>

definition fc_f_vco :: "nat \<Rightarrow> nat \<Rightarrow> nat" where
  "fc_f_vco freq multi = u32 (freq * multi)"

text \<open>\<open>xdiv\<close>: the quotient as \<open>uint16_t\<close>, rounded up from one half.\<close>

definition fc_xdiv :: "nat \<Rightarrow> nat \<Rightarrow> nat" where
  "fc_xdiv f_vco xd2 =
     (let xdiv = (f_vco div xd2) mod 65536
      in if xd2 div 2 \<le> (f_vco + 18446744073709551616 - u32 (xdiv * xd2)) mod 18446744073709551616
         then (xdiv + 1) mod 65536 else xdiv)"

text \<open>Registers 1 (FA) and 2 (FP) from \<open>pm\<close> and \<open>am\<close>, both \<open>uint8_t\<close>.\<close>

definition fc_fa_fp :: "nat \<Rightarrow> nat \<times> nat" where
  "fc_fa_fp xdiv =
     (let pm = (xdiv div 8) mod 256;
          am = nat ((int xdiv - 8 * int pm) mod 256);
          (am, pm) = (if am < 2 then (am + 8, (pm + 255) mod 256) else (am, pm))
      in if pm > 31 then ((am + 8 * (pm - 31)) mod 256, 31) else (am, pm))"

text \<open>The sigma-delta fraction, \<open>uint16_t\<close> throughout.\<close>

definition fc_xin :: "nat \<Rightarrow> nat \<Rightarrow> nat" where
  "fc_xin f_vco xd2 =
     (let xin = ((f_vco - (f_vco div xd2) * xd2) div 1000) mod 65536;
          xin = ((xin * 32768) div (xd2 div 1000)) mod 65536
      in if xin \<ge> 16384 then (xin + 32768) mod 65536 else xin)"

definition fc_bandwidth :: "nat \<Rightarrow> u8" where
  "fc_bandwidth bandwidth =
     (if bandwidth = 6000000 then 0x80 else if bandwidth = 7000000 then 0x40 else 0x00)"

text \<open>Registers 1 to 6 as they are written.\<close>

definition fc_pll_regs :: "nat \<Rightarrow> nat \<Rightarrow> u8 \<Rightarrow> u8 \<Rightarrow> nat \<Rightarrow> u8 list" where
  "fc_pll_regs f_vco xd2 r5 r6 bandwidth =
     (let (fa, fp) = fc_fa_fp (fc_xdiv f_vco xd2); xin = fc_xin f_vco xd2
      in [u8_of_nat fa, u8_of_nat fp, u8_of_nat (xin div 256), u8_of_nat (xin mod 256),
          r5 OR 0x07, ((r6 OR 0x20) AND 0x3f) OR fc_bandwidth bandwidth])"

section \<open>Tuning\<close>

text \<open>
  VCO calibration and, when the VCO reports the end of its range, the other VCO
  (bit 3 of register 6).
\<close>

definition fc0012_vco :: "bool \<Rightarrow> u8 \<Rightarrow> int usb_m" where
  "fc0012_vco vco_select r6 =
     steps_nz [fc0012_writereg 0x0e 0x80, fc0012_writereg 0x0e 0x00, fc0012_writereg 0x0e 0x00]
       (do {
          (rc, tmp) \<leftarrow> fc0012_readreg 0x0e;
          if rc \<noteq> 0 then ret rc
          else if vco_select \<and> tmp AND 0x3f > 0x3c then
            steps_nz [fc0012_writereg 0x06 (r6 AND NOT 0x08), fc0012_writereg 0x0e 0x80]
              (fc0012_writereg 0x0e 0x00)
          else if \<not> vco_select \<and> tmp AND 0x3f < 0x02 then
            steps_nz [fc0012_writereg 0x06 (r6 OR 0x08), fc0012_writereg 0x0e 0x80]
              (fc0012_writereg 0x0e 0x00)
          else ret 0 })"

definition fc0012_set_params :: "nat \<Rightarrow> nat \<Rightarrow> int usb_m" where
  "fc0012_set_params freq bandwidth = do {
     clock \<leftarrow> rtlsdr_get_tuner_clock;
     let xd2 = clock div 2;
     let (multi, r5, r6) = fc0012_divider freq;
     let f_vco = fc_f_vco freq multi;
     let vco_select = (f_vco \<ge> 3060000000);
     let r6 = (if vco_select then r6 OR 0x08 else r6);
     if xd2 = 0 then do { fault; ret (-1) }
     else
       let (fa, fp) = fc_fa_fp (fc_xdiv f_vco xd2)
       in if fa > 15 \<or> fp < 0x0b then ret (-1)
       else if xd2 div 1000 = 0 then do { fault; ret (-1) }
       else
         let regs = fc_pll_regs f_vco xd2 r5 r6 bandwidth
         in steps_nz (map (\<lambda>(i, v). fc0012_writereg i v) (zip [1, 2, 3, 4, 5, 6] regs))
              (fc0012_vco vco_select (regs ! 5)) }"

section \<open>Gain\<close>

definition fc0012_gain_bits :: "int \<Rightarrow> u8" where
  "fc0012_gain_bits gain =
     (if gain = -99 then 0x02 else if gain = -40 then 0x00 else if gain = 71 then 0x08
      else if gain = 179 then 0x17 else 0x10)"

definition fc0012_set_gain :: "int \<Rightarrow> int usb_m" where
  "fc0012_set_gain gain = do {
     (rc, d) \<leftarrow> fc0012_readreg 0x13;
     let tmp = (if rc = 0 then d else 0);
     fc0012_writereg 0x13 ((tmp AND 0xe0) OR fc0012_gain_bits gain) }"

section \<open>Frames\<close>

lemma rel_fc0012_writereg [rel_intro]:
  "(\<And>x. i2c_xfer FC0012_I2C_ADDR x \<Longrightarrow> ok x) \<Longrightarrow> bus.rel ok (fc0012_writereg r v)"
  unfolding fc0012_writereg_def by (intro bus.rel_rules rel_intro) auto

lemma rel_fc0012_readreg [rel_intro]:
  "(\<And>x. i2c_xfer FC0012_I2C_ADDR x \<Longrightarrow> ok x) \<Longrightarrow> bus.rel ok (fc0012_readreg r)"
  unfolding fc0012_readreg_def by (intro bus.rel_rules rel_intro) auto

lemma rel_fc0012_init [rel_intro]:
  "(\<And>x. i2c_xfer FC0012_I2C_ADDR x \<Longrightarrow> ok x) \<Longrightarrow> bus.rel ok fc0012_init"
  unfolding fc0012_init_def by (intro bus.rel_rules) (auto intro!: rel_intro)

lemma rel_fc0012_vco [rel_intro]:
  "(\<And>x. i2c_xfer FC0012_I2C_ADDR x \<Longrightarrow> ok x) \<Longrightarrow> bus.rel ok (fc0012_vco b r6)"
  unfolding fc0012_vco_def by (intro bus.rel_rules rel_intro) (auto intro!: rel_intro)

lemma rel_fc0012_set_params [rel_intro]:
  "(\<And>x. i2c_xfer FC0012_I2C_ADDR x \<Longrightarrow> ok x) \<Longrightarrow> bus.rel ok (fc0012_set_params f b)"
  unfolding fc0012_set_params_def
  by (intro bus.rel_rules rel_intro) (auto intro!: rel_intro)

lemma rel_fc0012_set_gain [rel_intro]:
  "(\<And>x. i2c_xfer FC0012_I2C_ADDR x \<Longrightarrow> ok x) \<Longrightarrow> bus.rel ok (fc0012_set_gain g)"
  unfolding fc0012_set_gain_def by (intro bus.rel_rules rel_intro) auto

section \<open>Register file\<close>

interpretation fc0012: reg_chip FC0012_I2C_ADDR fc0012_writereg 0
proof
  show "i2c_only FC0012_I2C_ADDR (fc0012_writereg r v)" for r v
    unfolding i2c_only_def by (rule rel_fc0012_writereg)
next
  fix s r v rc s'
  assume a: "usb_acks (dev_usb s)" and run: "run_state (fc0012_writereg r v) s = (rc, s')"
  from run obtain x where x: "run_state (rtlsdr_i2c_write_fn FC0012_I2C_ADDR [r, v]) s = (x, s')"
    and rc: "rc = (if x < 0 then -1 else 0)"
    by (auto simp: fc0012_writereg_def split: prod.splits)
  show "rc = 0 \<and> chip_reg FC0012_I2C_ADDR (dev_xfers s') =
      (chip_reg FC0012_I2C_ADDR (dev_xfers s))(r \<mapsto> v)"
    using chip_reg_write_fn [OF a x] rc by simp
qed

lemma cf_fc0012_writereg:
  "r \<in> S \<Longrightarrow> cf.rel FC0012_I2C_ADDR S (fc0012_writereg r v)"
  unfolding fc0012_writereg_def by (intro cf.rel_rules cf_write_fn)

lemma cf_fc0012_readreg: "cf.rel FC0012_I2C_ADDR S (fc0012_readreg r)"
  unfolding fc0012_readreg_def by (intro cf.rel_rules cf_write_addr cf_read_fn)

lemma cf_fc0012_vco:
  "cf.rel FC0012_I2C_ADDR {0x06, 0x0e} (fc0012_vco b r6)"
  unfolding fc0012_vco_def
  by (intro cf.rel_rules cf_fc0012_readreg) (auto intro!: cf_fc0012_writereg)

section \<open>Accuracy of the PLL\<close>

lemma fc_xdiv_rounds:
  assumes "f < 4294967296" and "0 < xd2" and "f div xd2 < 65535"
  shows "2 * \<bar>int f - int (fc_xdiv f xd2 * xd2)\<bar> \<le> int xd2 + 1" and "fc_xdiv f xd2 \<le> f div xd2 + 1"
    and "f div xd2 \<le> fc_xdiv f xd2"
proof -
  define q where "q = f div xd2"
  define r where "r = f mod xd2"
  have f: "f = q * xd2 + r" and r: "r < xd2" using assms(2) by (simp_all add: q_def r_def)
  have q: "q < 65535" using assms(3) by (simp add: q_def)
  have "q * xd2 \<le> f" by (simp add: q_def)
  then have u: "u32 (q * xd2) = q * xd2" using assms(1) by simp
  have m: "(f + 18446744073709551616 - u32 (q * xd2)) mod 18446744073709551616 = r"
  proof -
    have "f + 18446744073709551616 - u32 (q * xd2) = r + 18446744073709551616"
      using f u by linarith
    moreover have "r < 18446744073709551616" using f assms(1) by linarith
    ultimately show ?thesis by (simp only: mod_add_self2 mod_less)
  qed
  have x: "fc_xdiv f xd2 = (if xd2 div 2 \<le> r then q + 1 else q)"
    using q m by (simp add: fc_xdiv_def Let_def flip: q_def)
  show "2 * \<bar>int f - int (fc_xdiv f xd2 * xd2)\<bar> \<le> int xd2 + 1"
  proof (cases "xd2 div 2 \<le> r")
    case True
    then have "int (fc_xdiv f xd2 * xd2) = int q * int xd2 + int xd2"
      by (simp add: x algebra_simps)
    moreover have "int f = int q * int xd2 + int r" using f by simp
    ultimately have e: "int f - int (fc_xdiv f xd2 * xd2) = int r - int xd2" by linarith
    have "xd2 \<le> 2 * r + 1" using True by presburger
    then show ?thesis unfolding e using r by arith
  next
    case False
    then have "int (fc_xdiv f xd2 * xd2) = int q * int xd2" by (simp add: x)
    moreover have "int f = int q * int xd2 + int r" using f by simp
    ultimately have e: "int f - int (fc_xdiv f xd2 * xd2) = int r" by linarith
    have "2 * r < xd2" using False by presburger
    then show ?thesis unfolding e by arith
  qed
  show "fc_xdiv f xd2 \<le> f div xd2 + 1" "f div xd2 \<le> fc_xdiv f xd2"
    by (simp_all add: x q_def)
qed

text \<open>Registers 1 and 2 represent the divider as \<open>8 * FP + FA\<close>.\<close>

lemma fc_fa_fp_range:
  assumes "90 \<le> x" and "x \<le> 263"
  shows "\<exists>fa fp. fc_fa_fp x = (fa, fp) \<and> 8 * fp + fa = x \<and> 2 \<le> fa \<and> fa \<le> 15 \<and> 11 \<le> fp \<and> fp \<le> 31"
proof -
  define p where "p = x div 8"
  define a where "a = x mod 8"
  have x: "8 * p + a = x" and a: "a < 8" by (simp_all add: p_def a_def)
  have p: "11 \<le> p" "p \<le> 32" using x a assms by linarith+
  have pm: "x div 8 mod 256 = p" using p by (simp add: p_def)
  have am: "nat ((int x - 8 * int p) mod 256) = a"
  proof -
    have "int x - 8 * int p = int a" using x by linarith
    then show ?thesis using a by simp
  qed
  have w: "(p + 255) mod 256 = p - 1"
  proof -
    have "p + 255 = (p - 1) + 256" using p by linarith
    moreover have "(p - 1) mod 256 = p - 1" using p by (intro mod_less) linarith
    ultimately show ?thesis by (simp only: mod_add_self2)
  qed
  have fx: "fc_fa_fp x = (if a < 2 then (a + 8, p - 1)
      else if p = 32 then (a + 8, 31) else (a, p))"
  proof -
    have "(a + 8 * (p - 31)) mod 256 = a + 8 * (p - 31)" using p a by (intro mod_less) linarith
    moreover have "p > 31 \<longleftrightarrow> p = 32" "\<not> p - 1 > 31" using p by linarith+
    ultimately show ?thesis
      unfolding fc_fa_fp_def Let_def pm am w by (cases "a < 2"; cases "p = 32") simp_all
  qed
  consider "a < 2" | "\<not> a < 2" "p = 32" | "\<not> a < 2" "p < 32" using p by linarith
  then show ?thesis
  proof cases
    case 1
    then have "fc_fa_fp x = (a + 8, p - 1)" by (simp add: fx)
    moreover have "8 * (p - 1) + (a + 8) = x" using x p by linarith
    moreover have "11 \<le> p - 1" "p - 1 \<le> 31" using x assms(1) 1 p by linarith+
    ultimately show ?thesis using 1 by (intro exI conjI) (assumption | linarith)+
  next
    case 2
    then have "fc_fa_fp x = (a + 8, 31)" by (simp add: fx)
    moreover have "8 * 31 + (a + 8) = x" using x 2 by linarith
    ultimately show ?thesis using 2 a by (intro exI conjI) (assumption | linarith)+
  next
    case 3
    then have "fc_fa_fp x = (a, p)" by (simp add: fx)
    then show ?thesis using x 3 p a by (intro exI conjI) (assumption | linarith)+
  qed
qed

section \<open>Tuning\<close>

lemma acked_fc0012_writereg: "acked (\<lambda>a. a = 0) (fc0012_writereg r v)"
  unfolding fc0012_writereg_def
  by (rule acked_bind [OF acked_write_fn]) (auto intro: acked_ret)

lemma acked_fc0012_readreg: "acked (\<lambda>(rc, d). rc = 0) (fc0012_readreg r)"
  unfolding fc0012_readreg_def
  by (rule acked_bind [OF acked_write_fn])
    (auto intro!: acked_bind [OF acked_read_fn] acked_ret split: prod.splits)

lemma acked_fc0012_vco: "acked (\<lambda>a. a = 0) (fc0012_vco b r6)"
  unfolding fc0012_vco_def
  by (intro acked_steps_nz acked_bind [OF acked_fc0012_readreg])
    (auto intro!: acked_steps_nz acked_fc0012_writereg acked_ret
       simp del: steps_nz.simps split: prod.splits)

text \<open>The VCO frequency stays below 3.8 GHz and never wraps in the supported range.\<close>

lemma fc0012_divider_range:
  assumes "13500000 \<le> freq" and "freq \<le> 948000000"
  shows "1296000000 \<le> freq * fst (fc0012_divider freq)"
    and "freq * fst (fc0012_divider freq) \<le> 3792000000"
  using assms by (auto simp: fc0012_divider_def)

lemma fc_pll_ok:
  assumes r: "1296000000 \<le> f" "f \<le> 3792000000"
  obtains fa fp where "fc_fa_fp (fc_xdiv f 14400000) = (fa, fp)"
    and "2 \<le> fa" "fa \<le> 15" "11 \<le> fp" "fp \<le> 31"
    and "\<bar>int f - int (8 * fp + fa) * 14400000\<bar> \<le> 7200000"
proof -
  define x where "x = fc_xdiv f 14400000"
  have "f div 14400000 < 65535" using r by (simp add: div_less_iff_less_mult)
  with r have x: "2 * \<bar>int f - int (x * 14400000)\<bar> \<le> 14400001"
    using fc_xdiv_rounds(1) [of f 14400000] by (simp add: x_def)
  define d where "d = int f - int (x * 14400000)"
  have "2 * d \<le> 14400001" "2 * (- d) \<le> 14400001"
    using x unfolding d_def [symmetric] by (auto simp: abs_if split: if_splits)
  then have y: "2 * (int f - int (x * 14400000)) \<le> 14400001"
    "2 * (int (x * 14400000) - int f) \<le> 14400001" by (simp_all add: d_def)
  then have y': "2 * int f - 28800000 * int x \<le> 14400001" "28800000 * int x - 2 * int f \<le> 14400001"
    by simp_all
  have "90 \<le> int x" using y'(1) r(1) by linarith
  moreover have "int x \<le> 263" using y'(2) r(2) by linarith
  ultimately have "90 \<le> x" "x \<le> 263" by simp_all
  then obtain fa fp where ff: "fc_fa_fp x = (fa, fp)" "8 * fp + fa = x" "2 \<le> fa" "fa \<le> 15"
    "11 \<le> fp" "fp \<le> 31" using fc_fa_fp_range by blast
  have half: "a \<le> 7200000" if "2 * a \<le> 14400001" for a :: int using that by linarith
  have "\<bar>int f - int (8 * fp + fa) * 14400000\<bar> \<le> 7200000"
  proof -
    have "int f - 14400000 * int x \<le> 7200000" "14400000 * int x - int f \<le> 7200000"
      using half [of "int f - 14400000 * int x"] half [of "14400000 * int x - int f"] y' by simp_all
    moreover have "int (8 * fp + fa) * 14400000 = 14400000 * int x" using ff(2) by simp
    ultimately show ?thesis by (intro abs_leI) linarith+
  qed
  with that ff show thesis by (simp add: x_def)
qed

lemma fc0012_pll_ok:
  assumes "13500000 \<le> freq" and "freq \<le> 948000000"
    and "f = fc_f_vco freq (fst (fc0012_divider freq))"
  obtains fa fp where "fc_fa_fp (fc_xdiv f 14400000) = (fa, fp)"
    and "2 \<le> fa" "fa \<le> 15" "11 \<le> fp" "fp \<le> 31"
    and "f = freq * fst (fc0012_divider freq)"
    and "\<bar>int f - int (8 * fp + fa) * 14400000\<bar> \<le> 7200000"
proof -
  have f: "f = freq * fst (fc0012_divider freq)"
    using fc0012_divider_range [OF assms(1,2)] by (simp add: assms(3) fc_f_vco_def)
  have r: "1296000000 \<le> f" "f \<le> 3792000000"
    using fc0012_divider_range [OF assms(1,2)] by (simp_all add: f)
  show thesis by (rule fc_pll_ok [OF r]) (rule that [OF _ _ _ _ _ f])
qed

text \<open>
  C36. On a bus that acknowledges every transfer, with the usual 28.8 MHz clock and
  no ppm correction, the FC0012 driver tunes every frequency from 13.5 MHz to 948 MHz: it
  returns 0, and the divider \<open>8 * FP + FA\<close> left in the chip's registers 2 and 1 is the
  multiple of the 14.4 MHz reference nearest to the VCO frequency, which is exactly the
  requested frequency times the divider of its range (no wrap-around).
\<close>

theorem fc0012_tunes:
  assumes acks: "usb_acks (dev_usb s)" and corr: "dev_corr s = 0"
    and xtal: "dev_tun_xtal s = 28800000"
    and range: "13500000 \<le> freq" "freq \<le> 948000000"
  shows "\<exists>s' fa fp. run_state (fc0012_set_params freq bw) s = (0, s') \<and>
    chip_reg FC0012_I2C_ADDR (dev_xfers s') 1 = Some (u8_of_nat fa) \<and>
    chip_reg FC0012_I2C_ADDR (dev_xfers s') 2 = Some (u8_of_nat fp) \<and>
    fa \<le> 15 \<and> 11 \<le> fp \<and> fp \<le> 31 \<and>
    \<bar>int (freq * fst (fc0012_divider freq)) - int (8 * fp + fa) * 14400000\<bar> \<le> 7200000"
proof -
  obtain multi r5 r6 where d: "fc0012_divider freq = (multi, r5, r6)" by (metis prod_cases3)
  define f where "f = fc_f_vco freq multi"
  obtain fa fp where ff: "fc_fa_fp (fc_xdiv f 14400000) = (fa, fp)" "fa \<le> 15" "11 \<le> fp" "fp \<le> 31"
    and fe: "f = freq * multi" "\<bar>int f - int (8 * fp + fa) * 14400000\<bar> \<le> 7200000"
    using fc0012_pll_ok [OF range, of f] unfolding d fst_conv f_def by blast
  define r6' where "r6' = (if 3060000000 \<le> f then r6 OR 8 else r6)"
  define regs where "regs = fc_pll_regs f 14400000 r5 r6' bw"
  have regs: "\<exists>a b c d. regs = [u8_of_nat fa, u8_of_nat fp, a, b, c, d]"
    by (simp add: regs_def fc_pll_regs_def ff Let_def)
  have run: "run_state (fc0012_set_params freq bw) s =
    run_state (steps_nz (map (\<lambda>(i, v). fc0012_writereg i v) (zip [1, 2, 3, 4, 5, 6] regs))
       (fc0012_vco (3060000000 \<le> f) (regs ! 5))) s"
    using ff run_tuner_clock_0 [OF corr]
    by (simp add: fc0012_set_params_def xtal d Let_def regs_def r6'_def flip: f_def)
  obtain t where t: "run_state (fc0012_set_params freq bw) s =
      run_state (fc0012_vco (3060000000 \<le> f) (regs ! 5)) t"
    and w: "fc0012.after_writes (zip [1, 2, 3, 4, 5, 6] regs) s t"
    using fc0012.steps_nz_writes [OF refl acks] unfolding run by blast
  have "usb_acks (dev_usb t)"
    using w acks by (auto simp: fc0012.after_writes_def dest: same_core_usb)
  moreover obtain rc s' where rc: "run_state (fc0012_vco (3060000000 \<le> f) (regs ! 5)) t = (rc, s')"
    by (rule prod.exhaust)
  ultimately have s': "run_state (fc0012_vco (3060000000 \<le> f) (regs ! 5)) t = (0, s')"
    using ackedD [OF acked_fc0012_vco _ rc] by simp
  have fr: "chip_frame FC0012_I2C_ADDR {0x06, 0x0e} t s'"
    using state_io_rel_run [OF cf_fc0012_vco s'] .
  obtain a b c d where l: "regs = [u8_of_nat fa, u8_of_nat fp, a, b, c, d]" using regs by blast
  have m: "map_of (rev (zip [1, 2, 3, 4, 5, 6 :: u8] regs)) 1 = Some (u8_of_nat fa)"
    "map_of (rev (zip [1, 2, 3, 4, 5, 6 :: u8] regs)) 2 = Some (u8_of_nat fp)"
    by (simp_all add: l)
  have k: "chip_reg FC0012_I2C_ADDR (dev_xfers s') 1 = chip_reg FC0012_I2C_ADDR (dev_xfers t) 1"
    "chip_reg FC0012_I2C_ADDR (dev_xfers s') 2 = chip_reg FC0012_I2C_ADDR (dev_xfers t) 2"
    using fr unfolding chip_frame_def by simp_all
  have "chip_reg FC0012_I2C_ADDR (dev_xfers s') 1 = Some (u8_of_nat fa)"
    "chip_reg FC0012_I2C_ADDR (dev_xfers s') 2 = Some (u8_of_nat fp)"
    using conjunct2 [OF w [unfolded fc0012.after_writes_def]] m
    by (simp_all only: k map_add_find_right)
  with t s' ff fe d show ?thesis by auto
qed

theorem fc0012_tunes_witness:
  "\<exists>s' fa fp. run_state (fc0012_set_params 162000000 6000000) example_dev = (0, s') \<and>
    chip_reg FC0012_I2C_ADDR (dev_xfers s') 1 = Some (u8_of_nat fa) \<and>
    chip_reg FC0012_I2C_ADDR (dev_xfers s') 2 = Some (u8_of_nat fp) \<and>
    fa \<le> 15 \<and> 11 \<le> fp \<and> fp \<le> 31 \<and>
    \<bar>int (162000000 * fst (fc0012_divider 162000000)) - int (8 * fp + fa) * 14400000\<bar> \<le> 7200000"
  by (rule fc0012_tunes) simp_all

text \<open>
  The VCO frequency of the FC0012 is a 32-bit product, so it wraps for every
  frequency of 1073741824 Hz or more: at 1.5 GHz the driver computes the divider for
  1705032704 Hz instead of 6 GHz and programs the PLL for another channel.
\<close>

lemma fc0012_f_vco_wraps:
  assumes "1073741824 \<le> freq" and "freq < 4294967296"
  shows "fst (fc0012_divider freq) = 4 \<and> fc_f_vco freq 4 = (4 * freq) mod 4294967296 \<and>
    fc_f_vco freq 4 + 4294967296 \<le> 4 * freq"
proof -
  have "(4 * freq) mod 4294967296 = (4 * freq - 4294967296) mod 4294967296"
    using assms by (simp add: le_mod_geq)
  also have "\<dots> \<le> 4 * freq - 4294967296" by (rule mod_less_eq_dividend)
  finally show ?thesis
    using assms by (simp add: fc_f_vco_def u32_def fc0012_divider_def mult.commute)
qed

lemma fc0012_f_vco_wraps_example:
  "fst (fc0012_divider 1500000000) = 4 \<and>
    fc_f_vco 1500000000 4 = (4 * 1500000000) mod 4294967296 \<and>
    fc_f_vco 1500000000 4 + 4294967296 \<le> 4 * 1500000000"
  by (rule fc0012_f_vco_wraps) simp_all

end
