(* ===== verification/Fc0013.thy ===== *)
theory Fc0013
  imports Fc0012
begin

text \<open>
  The Fitipower FC0013 tuner, \<open>tuner_fc0013.c\<close>: register access, initialisation, the
  RC calibration, the tracking filter, tuning and the gain functions. The PLL computation
  is the one of \<open>Fc0012\<close> (the two files share those statements) with another divider table.
\<close>

definition FC0013_I2C_ADDR :: u8 where "FC0013_I2C_ADDR = 0xc6"

section \<open>Register access\<close>

definition fc0013_writereg :: "u8 \<Rightarrow> u8 \<Rightarrow> int usb_m" where
  "fc0013_writereg reg val = do {
     rc \<leftarrow> rtlsdr_i2c_write_fn FC0013_I2C_ADDR [reg, val];
     ret (if rc < 0 then -1 else 0) }"

definition fc0013_readreg :: "u8 \<Rightarrow> (int \<times> u8) usb_m" where
  "fc0013_readreg reg = do {
     rc \<leftarrow> rtlsdr_i2c_write_fn FC0013_I2C_ADDR [reg];
     if rc < 0 then ret (-1, reg)
     else do {
       (rc, d) \<leftarrow> rtlsdr_i2c_read_fn FC0013_I2C_ADDR [reg];
       if rc < 0 then ret (-1, reg) else ret (0, d ! 0) } }"

text \<open>
  The recurring pair \<open>ret = fc0013_readreg(dev, reg, &tmp); if (ret) goto exit;
  ret = fc0013_writereg(dev, reg, f(tmp));\<close>.
\<close>

definition fc0013_update :: "u8 \<Rightarrow> (u8 \<Rightarrow> u8) \<Rightarrow> int usb_m" where
  "fc0013_update reg f = do {
     (rc, tmp) \<leftarrow> fc0013_readreg reg;
     if rc \<noteq> 0 then ret rc else fc0013_writereg reg (f tmp) }"

section \<open>Initialisation\<close>

definition fc0013_init_regs :: "u8 list" where
  "fc0013_init_regs =
     (let reg = [0x00, 0x09, 0x16, 0x00, 0x00, 0x17, 0x02, 0x0a, 0xff, 0x6e, 0xb8, 0x82,
                 0xfc, 0x01, 0x00, 0x00, 0x00, 0x00, 0x00, 0x00, 0x50, 0x01];
          reg = reg[0x07 := reg ! 0x07 OR 0x20]
      in reg[0x0c := reg ! 0x0c OR 0x02])"

definition fc0013_init :: "int usb_m" where
  "fc0013_init =
     steps (map (\<lambda>(i, v). fc0013_writereg i v)
       (map (\<lambda>i. (of_nat i, fc0013_init_regs ! i)) [1..<length fc0013_init_regs])) (ret 0)"

section \<open>RC calibration\<close>

definition fc0013_rc_cal_add :: "int \<Rightarrow> int usb_m" where
  "fc0013_rc_cal_add rc_val = do {
     rc \<leftarrow> fc0013_writereg 0x10 0x00;
     if rc \<noteq> 0 then ret rc
     else do {
       (rc, rc_cal) \<leftarrow> fc0013_readreg 0x10;
       if rc \<noteq> 0 then ret rc
       else
         let val = uint (rc_cal AND 0x0f) + rc_val
         in steps_nz [fc0013_writereg 0x0d 0x11]
              (if val > 15 then fc0013_writereg 0x10 0x0f
               else if val < 0 then fc0013_writereg 0x10 0x00
               else fc0013_writereg 0x10 (u8_of_int val)) } }"

definition fc0013_rc_cal_reset :: "int usb_m" where
  "fc0013_rc_cal_reset = steps_nz [fc0013_writereg 0x0d 0x01] (fc0013_writereg 0x10 0x00)"

section \<open>Tuning\<close>

definition fc0013_vhf_track :: "nat \<Rightarrow> u8" where
  "fc0013_vhf_track freq =
     (if freq \<le> 177500000 then 0x1c else if freq \<le> 184500000 then 0x18
      else if freq \<le> 191500000 then 0x14 else if freq \<le> 198500000 then 0x10
      else if freq \<le> 205500000 then 0x0c else if freq \<le> 219500000 then 0x08
      else if freq < 300000000 then 0x04 else 0x1c)"

definition fc0013_set_vhf_track :: "nat \<Rightarrow> int usb_m" where
  "fc0013_set_vhf_track freq =
     fc0013_update 0x1d (\<lambda>tmp. (tmp AND 0xe3) OR fc0013_vhf_track freq)"

definition fc0013_divider :: "nat \<Rightarrow> nat \<times> u8 \<times> u8" where
  "fc0013_divider freq =
     (if freq < 37084000 then (96, 0x82, 0x00)
      else if freq < 55625000 then (64, 0x02, 0x02)
      else if freq < 74167000 then (48, 0x42, 0x00)
      else if freq < 111250000 then (32, 0x82, 0x02)
      else if freq < 148334000 then (24, 0x22, 0x00)
      else if freq < 222500000 then (16, 0x42, 0x02)
      else if freq < 296667000 then (12, 0x12, 0x00)
      else if freq < 445000000 then (8, 0x22, 0x02)
      else if freq < 593334000 then (6, 0x0a, 0x00)
      else if freq < 950000000 then (4, 0x12, 0x02)
      else (2, 0x0a, 0x02))"

text \<open>The band filters: VHF below 300 MHz, UHF to 862 MHz, GPS above.\<close>

definition fc0013_band :: "nat \<Rightarrow> int usb_m list" where
  "fc0013_band freq =
     (if freq < 300000000 then
        [fc0013_update 0x07 (\<lambda>t. t OR 0x10), fc0013_update 0x14 (\<lambda>t. t AND 0x1f)]
      else if freq \<le> 862000000 then
        [fc0013_update 0x07 (\<lambda>t. t AND 0xef), fc0013_update 0x14 (\<lambda>t. (t AND 0x1f) OR 0x40)]
      else
        [fc0013_update 0x07 (\<lambda>t. t AND 0xef), fc0013_update 0x14 (\<lambda>t. (t AND 0x1f) OR 0x20)])"

definition fc0013_vco :: "bool \<Rightarrow> u8 \<Rightarrow> int usb_m" where
  "fc0013_vco vco_select r6 =
     steps_nz [fc0013_writereg 0x0e 0x80, fc0013_writereg 0x0e 0x00, fc0013_writereg 0x0e 0x00]
       (do {
          (rc, tmp) \<leftarrow> fc0013_readreg 0x0e;
          if rc \<noteq> 0 then ret rc
          else if vco_select \<and> tmp AND 0x3f > 0x3c then
            steps_nz [fc0013_writereg 0x06 (r6 AND NOT 0x08), fc0013_writereg 0x0e 0x80]
              (fc0013_writereg 0x0e 0x00)
          else if \<not> vco_select \<and> tmp AND 0x3f < 0x02 then
            steps_nz [fc0013_writereg 0x06 (r6 OR 0x08), fc0013_writereg 0x0e 0x80]
              (fc0013_writereg 0x0e 0x00)
          else ret 0 })"

definition fc0013_set_params :: "nat \<Rightarrow> nat \<Rightarrow> int usb_m" where
  "fc0013_set_params freq bandwidth = do {
     clock \<leftarrow> rtlsdr_get_tuner_clock;
     let xd2 = clock div 2;
     steps_nz (fc0013_set_vhf_track freq # fc0013_band freq)
       (let (multi, r5, r6) = fc0013_divider freq;
            f_vco = fc_f_vco freq multi;
            vco_select = (f_vco \<ge> 3060000000);
            r6 = (if vco_select then r6 OR 0x08 else r6)
        in if xd2 = 0 then do { fault; ret (-1) }
        else
          let (fa, fp) = fc_fa_fp (fc_xdiv f_vco xd2)
          in if fa > 15 \<or> fp < 0x0b then ret (-1)
          else if xd2 div 1000 = 0 then do { fault; ret (-1) }
          else
            let regs = fc_pll_regs f_vco xd2 r5 r6 bandwidth
            in steps_nz (map (\<lambda>(i, v). fc0013_writereg i v) (zip [1, 2, 3, 4, 5, 6] regs))
                 (steps_nz [fc0013_update 0x11 (\<lambda>t. if multi = 64 then t OR 0x04 else t AND 0xfb)]
                    (fc0013_vco vco_select (regs ! 5)))) }"

section \<open>Gain\<close>

definition fc0013_set_gain_mode :: "bool \<Rightarrow> int usb_m" where
  "fc0013_set_gain_mode manual = do {
     (rc, d) \<leftarrow> fc0013_readreg 0x0d;
     let tmp = (if rc = 0 then d else 0);
     or_steps rc [fc0013_writereg 0x0d (if manual then tmp OR 0x08 else tmp AND NOT 0x08),
                  fc0013_writereg 0x13 0x0a] }"

definition fc0013_lna_gains :: "(int \<times> u8) list" where
  "fc0013_lna_gains =
     [(-99, 0x02), (-73, 0x03), (-65, 0x05), (-63, 0x04), (-63, 0x00), (-60, 0x07),
      (-58, 0x01), (-54, 0x06), (58, 0x0f), (61, 0x0e), (63, 0x0d), (65, 0x0c),
      (67, 0x0b), (68, 0x0a), (70, 0x09), (71, 0x08), (179, 0x17), (181, 0x16),
      (182, 0x15), (184, 0x14), (186, 0x13), (188, 0x12), (191, 0x11), (197, 0x10)]"

text \<open>The first entry that reaches the gain, else the last one.\<close>

fun fc0013_gain_bits :: "(int \<times> u8) list \<Rightarrow> int \<Rightarrow> u8" where
  "fc0013_gain_bits [] gain = 0"
| "fc0013_gain_bits [(g, b)] gain = b"
| "fc0013_gain_bits ((g, b) # gs) gain = (if gain \<le> g then b else fc0013_gain_bits gs gain)"

definition fc0013_set_lna_gain :: "int \<Rightarrow> int usb_m" where
  "fc0013_set_lna_gain gain = do {
     (rc, d) \<leftarrow> fc0013_readreg 0x14;
     let tmp = (if rc = 0 then d else 0) AND 0xe0;
     or_steps rc [fc0013_writereg 0x14 (tmp OR fc0013_gain_bits fc0013_lna_gains gain)] }"

section \<open>Frames\<close>

lemma rel_fc0013_writereg [rel_intro]:
  "(\<And>x. i2c_xfer FC0013_I2C_ADDR x \<Longrightarrow> ok x) \<Longrightarrow> bus.rel ok (fc0013_writereg r v)"
  unfolding fc0013_writereg_def by (intro bus.rel_rules rel_intro) auto

lemma rel_fc0013_readreg [rel_intro]:
  "(\<And>x. i2c_xfer FC0013_I2C_ADDR x \<Longrightarrow> ok x) \<Longrightarrow> bus.rel ok (fc0013_readreg r)"
  unfolding fc0013_readreg_def by (intro bus.rel_rules rel_intro) auto

lemma rel_fc0013_update [rel_intro]:
  "(\<And>x. i2c_xfer FC0013_I2C_ADDR x \<Longrightarrow> ok x) \<Longrightarrow> bus.rel ok (fc0013_update r f)"
  unfolding fc0013_update_def by (intro bus.rel_rules rel_intro) auto

lemma rel_fc0013_init [rel_intro]:
  "(\<And>x. i2c_xfer FC0013_I2C_ADDR x \<Longrightarrow> ok x) \<Longrightarrow> bus.rel ok fc0013_init"
  unfolding fc0013_init_def by (intro bus.rel_rules) (auto intro!: rel_intro)

lemma rel_fc0013_rc_cal_add [rel_intro]:
  "(\<And>x. i2c_xfer FC0013_I2C_ADDR x \<Longrightarrow> ok x) \<Longrightarrow> bus.rel ok (fc0013_rc_cal_add v)"
  unfolding fc0013_rc_cal_add_def
  by (intro bus.rel_rules rel_intro) (auto intro!: rel_intro)

lemma rel_fc0013_rc_cal_reset [rel_intro]:
  "(\<And>x. i2c_xfer FC0013_I2C_ADDR x \<Longrightarrow> ok x) \<Longrightarrow> bus.rel ok fc0013_rc_cal_reset"
  unfolding fc0013_rc_cal_reset_def
  by (intro bus.rel_rules rel_intro) (auto intro!: rel_intro)

lemma rel_fc0013_vco [rel_intro]:
  "(\<And>x. i2c_xfer FC0013_I2C_ADDR x \<Longrightarrow> ok x) \<Longrightarrow> bus.rel ok (fc0013_vco b r6)"
  unfolding fc0013_vco_def by (intro bus.rel_rules rel_intro) (auto intro!: rel_intro)

lemma rel_fc0013_set_vhf_track [rel_intro]:
  "(\<And>x. i2c_xfer FC0013_I2C_ADDR x \<Longrightarrow> ok x) \<Longrightarrow> bus.rel ok (fc0013_set_vhf_track f)"
  unfolding fc0013_set_vhf_track_def by (rule rel_fc0013_update)

lemma rel_fc0013_band:
  "m \<in> set (fc0013_band f) \<Longrightarrow> (\<And>x. i2c_xfer FC0013_I2C_ADDR x \<Longrightarrow> ok x) \<Longrightarrow> bus.rel ok m"
  by (auto simp: fc0013_band_def intro!: rel_fc0013_update split: if_splits)

lemma rel_fc0013_set_params [rel_intro]:
  "(\<And>x. i2c_xfer FC0013_I2C_ADDR x \<Longrightarrow> ok x) \<Longrightarrow> bus.rel ok (fc0013_set_params f b)"
  unfolding fc0013_set_params_def
  by (intro bus.rel_rules rel_tuner_clock rel_fault rel_fc0013_vco)
    (auto intro!: rel_fc0013_set_vhf_track rel_fc0013_update rel_fc0013_writereg
       elim: rel_fc0013_band)

lemma rel_fc0013_set_gain_mode [rel_intro]:
  "(\<And>x. i2c_xfer FC0013_I2C_ADDR x \<Longrightarrow> ok x) \<Longrightarrow> bus.rel ok (fc0013_set_gain_mode m)"
  unfolding fc0013_set_gain_mode_def
  by (intro bus.rel_rules rel_intro) (auto intro!: rel_intro)

lemma rel_fc0013_set_lna_gain [rel_intro]:
  "(\<And>x. i2c_xfer FC0013_I2C_ADDR x \<Longrightarrow> ok x) \<Longrightarrow> bus.rel ok (fc0013_set_lna_gain g)"
  unfolding fc0013_set_lna_gain_def
  by (intro bus.rel_rules rel_intro) (auto intro!: rel_intro)

section \<open>Register file\<close>

interpretation fc0013: reg_chip FC0013_I2C_ADDR fc0013_writereg 0
proof
  show "i2c_only FC0013_I2C_ADDR (fc0013_writereg r v)" for r v
    unfolding i2c_only_def by (rule rel_fc0013_writereg)
next
  fix s r v rc s'
  assume a: "usb_acks (dev_usb s)" and run: "run_state (fc0013_writereg r v) s = (rc, s')"
  from run obtain x where x: "run_state (rtlsdr_i2c_write_fn FC0013_I2C_ADDR [r, v]) s = (x, s')"
    and rc: "rc = (if x < 0 then -1 else 0)"
    by (auto simp: fc0013_writereg_def split: prod.splits)
  show "rc = 0 \<and> chip_reg FC0013_I2C_ADDR (dev_xfers s') =
      (chip_reg FC0013_I2C_ADDR (dev_xfers s))(r \<mapsto> v)"
    using chip_reg_write_fn [OF a x] rc by simp
qed

lemma cf_fc0013_writereg:
  "r \<in> S \<Longrightarrow> cf.rel FC0013_I2C_ADDR S (fc0013_writereg r v)"
  unfolding fc0013_writereg_def by (intro cf.rel_rules cf_write_fn)

lemma cf_fc0013_readreg: "cf.rel FC0013_I2C_ADDR S (fc0013_readreg r)"
  unfolding fc0013_readreg_def by (intro cf.rel_rules cf_write_addr cf_read_fn)

lemma cf_fc0013_update: "r \<in> S \<Longrightarrow> cf.rel FC0013_I2C_ADDR S (fc0013_update r f)"
  unfolding fc0013_update_def
  by (intro cf.rel_rules cf_fc0013_readreg cf_fc0013_writereg)

lemma cf_fc0013_vco: "{0x06, 0x0e} \<subseteq> S \<Longrightarrow> cf.rel FC0013_I2C_ADDR S (fc0013_vco b r6)"
  unfolding fc0013_vco_def
  by (intro cf.rel_rules cf_fc0013_readreg) (auto intro!: cf_fc0013_writereg)

lemma acked_fc0013_writereg: "acked (\<lambda>a. a = 0) (fc0013_writereg r v)"
  unfolding fc0013_writereg_def
  by (rule acked_bind [OF acked_write_fn]) (auto intro: acked_ret)

lemma acked_fc0013_readreg: "acked (\<lambda>(rc, d). rc = 0) (fc0013_readreg r)"
  unfolding fc0013_readreg_def
  by (rule acked_bind [OF acked_write_fn])
    (auto intro!: acked_bind [OF acked_read_fn] acked_ret split: prod.splits)

lemma acked_fc0013_update: "acked (\<lambda>a. a = 0) (fc0013_update r f)"
  unfolding fc0013_update_def
  by (rule acked_bind [OF acked_fc0013_readreg])
    (auto intro: acked_fc0013_writereg split: prod.splits)

lemma acked_fc0013_vco: "acked (\<lambda>a. a = 0) (fc0013_vco b r6)"
  unfolding fc0013_vco_def
  by (intro acked_steps_nz acked_bind [OF acked_fc0013_readreg])
    (auto intro!: acked_steps_nz acked_fc0013_writereg acked_ret
       simp del: steps_nz.simps split: prod.splits)

lemma acked_fc0013_band:
  "m \<in> set (fc0013_set_vhf_track f # fc0013_band f) \<Longrightarrow> acked (\<lambda>a. a = 0) m"
  by (auto simp: fc0013_set_vhf_track_def fc0013_band_def acked_fc0013_update split: if_splits)

section \<open>Tuning is accurate, with a gap\<close>

definition fc0013_tunable :: "nat \<Rightarrow> bool" where
  "fc0013_tunable freq \<longleftrightarrow>
     13500000 \<le> freq \<and> freq \<le> 948000000 \<or> 950000000 \<le> freq \<and> freq \<le> 1896000000"

lemma fc0013_divider_range:
  assumes "fc0013_tunable freq"
  shows "1296000000 \<le> freq * fst (fc0013_divider freq)"
    and "freq * fst (fc0013_divider freq) \<le> 3792000000"
  using assms by (auto simp: fc0013_divider_def fc0013_tunable_def)

lemma fc0013_pll_ok:
  assumes "fc0013_tunable freq" and "f = fc_f_vco freq (fst (fc0013_divider freq))"
  obtains fa fp where "fc_fa_fp (fc_xdiv f 14400000) = (fa, fp)"
    and "2 \<le> fa" "fa \<le> 15" "11 \<le> fp" "fp \<le> 31"
    and "f = freq * fst (fc0013_divider freq)"
    and "\<bar>int f - int (8 * fp + fa) * 14400000\<bar> \<le> 7200000"
proof -
  have f: "f = freq * fst (fc0013_divider freq)"
    using fc0013_divider_range [OF assms(1)] by (simp add: assms(2) fc_f_vco_def)
  have r: "1296000000 \<le> f" "f \<le> 3792000000"
    using fc0013_divider_range [OF assms(1)] by (simp_all add: f)
  show thesis by (rule fc_pll_ok [OF r]) (rule that [OF _ _ _ _ _ f])
qed

text \<open>
  On an acknowledging bus, with the 28.8 MHz clock and no ppm correction, the FC0013
  driver tunes every frequency of 13.5 to 948 MHz and of 950 to 1896 MHz: it returns 0 and the
  chip holds the divider nearest to the VCO frequency, which did not wrap.
\<close>

lemma fc0013_tunes:
  assumes acks: "usb_acks (dev_usb s)" and corr: "dev_corr s = 0"
    and xtal: "dev_tun_xtal s = 28800000" and range: "fc0013_tunable freq"
  shows "\<exists>s' fa fp. run_state (fc0013_set_params freq bw) s = (0, s') \<and>
    chip_reg FC0013_I2C_ADDR (dev_xfers s') 1 = Some (u8_of_nat fa) \<and>
    chip_reg FC0013_I2C_ADDR (dev_xfers s') 2 = Some (u8_of_nat fp) \<and>
    fa \<le> 15 \<and> 11 \<le> fp \<and> fp \<le> 31 \<and>
    \<bar>int (freq * fst (fc0013_divider freq)) - int (8 * fp + fa) * 14400000\<bar> \<le> 7200000"
proof -
  obtain multi r5 r6 where d: "fc0013_divider freq = (multi, r5, r6)" by (metis prod_cases3)
  define f where "f = fc_f_vco freq multi"
  obtain fa fp where ff: "fc_fa_fp (fc_xdiv f 14400000) = (fa, fp)" "fa \<le> 15" "11 \<le> fp" "fp \<le> 31"
    and fe: "f = freq * multi" "\<bar>int f - int (8 * fp + fa) * 14400000\<bar> \<le> 7200000"
    using fc0013_pll_ok [OF range, of f] unfolding d fst_conv f_def by blast
  define r6' where "r6' = (if 3060000000 \<le> f then r6 OR 8 else r6)"
  define regs where "regs = fc_pll_regs f 14400000 r5 r6' bw"
  define pre where "pre = fc0013_set_vhf_track freq # fc0013_band freq"
  define tail where "tail = steps_nz
    [fc0013_update 0x11 (\<lambda>t. if multi = 64 then t OR 0x04 else t AND 0xfb)]
    (fc0013_vco (3060000000 \<le> f) (regs ! 5))"
  obtain a b c e where l: "regs = [u8_of_nat fa, u8_of_nat fp, a, b, c, e]"
    by (simp add: regs_def fc_pll_regs_def ff Let_def)
  have run: "run_state (fc0013_set_params freq bw) s = run_state (steps_nz pre
    (steps_nz (map (\<lambda>(i, v). fc0013_writereg i v) (zip [1, 2, 3, 4, 5, 6] regs)) tail)) s"
    using ff run_tuner_clock_0 [OF corr]
    by (simp add: fc0013_set_params_def xtal d Let_def regs_def r6'_def tail_def pre_def
        flip: f_def del: steps_nz.simps)
  obtain s1 where s1: "run_state (fc0013_set_params freq bw) s = run_state
      (steps_nz (map (\<lambda>(i, v). fc0013_writereg i v) (zip [1, 2, 3, 4, 5, 6] regs)) tail) s1"
    and a1: "usb_acks (dev_usb s1)"
    using steps_nz_acked_run [of pre s, OF _ acks] acked_fc0013_band [of _ freq]
    unfolding run pre_def by blast
  obtain t where t: "run_state (fc0013_set_params freq bw) s = run_state tail t"
    and w: "fc0013.after_writes (zip [1, 2, 3, 4, 5, 6] regs) s1 t"
    using fc0013.steps_nz_writes [OF refl a1] unfolding s1 by blast
  have at: "usb_acks (dev_usb t)"
    using w a1 by (auto simp: fc0013.after_writes_def dest: same_core_usb)
  have "acked (\<lambda>a. a = 0) tail" unfolding tail_def
    by (rule acked_steps_nz) (auto intro: acked_fc0013_update acked_fc0013_vco)
  from acked_run [OF this at] obtain s' where s': "run_state tail t = (0, s')" by auto
  have "cf.rel FC0013_I2C_ADDR {0x11, 0x06, 0x0e} tail" unfolding tail_def
    by (intro cf.rel_rules) (auto intro!: cf_fc0013_update cf_fc0013_vco)
  from state_io_rel_run [OF this s']
  have fr: "chip_frame FC0013_I2C_ADDR {0x11, 0x06, 0x0e} t s'" .
  have m: "map_of (rev (zip [1, 2, 3, 4, 5, 6 :: u8] regs)) 1 = Some (u8_of_nat fa)"
    "map_of (rev (zip [1, 2, 3, 4, 5, 6 :: u8] regs)) 2 = Some (u8_of_nat fp)"
    by (simp_all add: l)
  have k: "chip_reg FC0013_I2C_ADDR (dev_xfers s') 1 = chip_reg FC0013_I2C_ADDR (dev_xfers t) 1"
    "chip_reg FC0013_I2C_ADDR (dev_xfers s') 2 = chip_reg FC0013_I2C_ADDR (dev_xfers t) 2"
    using fr unfolding chip_frame_def by simp_all
  have "chip_reg FC0013_I2C_ADDR (dev_xfers s') 1 = Some (u8_of_nat fa)"
    "chip_reg FC0013_I2C_ADDR (dev_xfers s') 2 = Some (u8_of_nat fp)"
    using conjunct2 [OF w [unfolded fc0013.after_writes_def]] m
    by (simp_all only: k map_add_find_right)
  with t s' ff fe d show ?thesis by auto
qed

lemma fc0013_tunes_example:
  "\<exists>s' fa fp. run_state (fc0013_set_params 162000000 6000000) example_dev = (0, s') \<and>
    chip_reg FC0013_I2C_ADDR (dev_xfers s') 1 = Some (u8_of_nat fa) \<and>
    chip_reg FC0013_I2C_ADDR (dev_xfers s') 2 = Some (u8_of_nat fp) \<and>
    fa \<le> 15 \<and> 11 \<le> fp \<and> fp \<le> 31 \<and>
    \<bar>int (162000000 * fst (fc0013_divider 162000000)) - int (8 * fp + fa) * 14400000\<bar> \<le> 7200000"
  by (rule fc0013_tunes) (simp_all add: fc0013_tunable_def)

text \<open>
  Between the two ranges lies a gap: for every frequency from 948.6 MHz up to
  950 MHz the divider table still selects a VCO frequency of four times the request, whose
  divider needs FA = 16, and the driver refuses to tune, although 950 MHz is within reach of
  the next entry of the table.
\<close>

lemma fc0013_gap:
  assumes "dev_corr s = 0" and "dev_tun_xtal s = 28800000" and "usb_acks (dev_usb s)"
    and "948600000 \<le> freq" and "freq < 950000000"
  shows "fst (run_state (fc0013_set_params freq bw) s) = -1"
proof -
  define f where "f = fc_f_vco freq 4"
  have d: "fc0013_divider freq = (4, 0x12, 0x02)" using assms by (simp add: fc0013_divider_def)
  have f: "f = freq * 4" using assms by (simp add: f_def fc_f_vco_def)
  have x: "fc_xdiv f 14400000 = 264"
  proof -
    have "f div 14400000 = 263" using assms by (intro div_nat_eqI) (simp_all add: f)
    moreover obtain k where k: "f = 3787200000 + k" "7200000 \<le> k" "k < 12800000"
      using assms by (intro that [of "f - 3787200000"]) (simp_all add: f)
    ultimately show ?thesis by (simp add: fc_xdiv_def Let_def)
  qed
  have ff: "fc_fa_fp 264 = (16, 31)" by (simp add: fc_fa_fp_def)
  define pre where "pre = fc0013_set_vhf_track freq # fc0013_band freq"
  have run: "run_state (fc0013_set_params freq bw) s = run_state (steps_nz pre (ret (-1))) s"
    using run_tuner_clock_0 [OF assms(1)]
    by (simp add: fc0013_set_params_def assms d x ff pre_def flip: f_def del: steps_nz.simps)
  obtain t where "run_state (steps_nz pre (ret (-1))) s = run_state (ret (-1)) t"
    using steps_nz_acked_run [of pre s, OF _ assms(3)] acked_fc0013_band [of _ freq]
    unfolding pre_def by blast
  then show ?thesis by (simp add: run)
qed

lemma fc0013_gap_example: "fst (run_state (fc0013_set_params 949000000 0) example_dev) = -1"
  by (rule fc0013_gap) simp_all

end
