(* ===== verification/Fc2580.thy ===== *)
theory Fc2580
  imports Chip
begin

text \<open>
  The FCI FC2580 tuner, \<open>tuner_fc2580.c\<close>: register access with the result type
  FAIL = 0 and SUCCESS = 1 accumulated by \<open>&=\<close>, the initial setting, the channel filter
  with its calibration loop of at most five rounds, and the frequency setting with the
  N and K values of its PLL. All entry points run with the 16.384 MHz crystal.
\<close>

definition FC2580_I2C_ADDR :: u8 where "FC2580_I2C_ADDR = 0xac"
definition CRYSTAL_FREQ :: nat where "CRYSTAL_FREQ = 16384000"
definition BORDER_FREQ :: nat where "BORDER_FREQ = 2600000"

datatype fc2580_band_type = FC2580_UHF_BAND | FC2580_L_BAND | FC2580_VHF_BAND

section \<open>Register access\<close>

definition fc2580_i2c_write :: "u8 \<Rightarrow> u8 \<Rightarrow> int usb_m" where
  "fc2580_i2c_write reg val = do {
     rc \<leftarrow> rtlsdr_i2c_write_fn FC2580_I2C_ADDR [reg, val];
     ret (if rc < 0 then 0 else 1) }"

definition fc2580_i2c_read :: "u8 \<Rightarrow> (int \<times> u8) usb_m" where
  "fc2580_i2c_read reg = do {
     rc \<leftarrow> rtlsdr_i2c_write_fn FC2580_I2C_ADDR [reg];
     if rc < 0 then ret (0, reg)
     else do {
       (rc, d) \<leftarrow> rtlsdr_i2c_read_fn FC2580_I2C_ADDR [reg];
       if rc < 0 then ret (0, reg) else ret (1, d ! 0) } }"

definition fc2580_writes :: "(u8 \<times> u8) list \<Rightarrow> int usb_m list" where
  "fc2580_writes = map (\<lambda>(r, v). fc2580_i2c_write r v)"

section \<open>Channel filter\<close>

definition fc2580_filter_regs :: "u8 \<Rightarrow> nat \<Rightarrow> (u8 \<times> u8) list" where
  "fc2580_filter_regs filter_bw freq_xtal =
     (if filter_bw = 1 then
        [(0x36, 0x1C), (0x37, u8_of_nat (u32 (4151 * freq_xtal) div 1000000)),
         (0x39, 0x00), (0x2E, 0x09)]
      else if filter_bw = 6 then
        [(0x36, 0x18), (0x37, u8_of_nat (u32 (4400 * freq_xtal) div 1000000)),
         (0x39, 0x00), (0x2E, 0x09)]
      else if filter_bw = 7 then
        [(0x36, 0x18), (0x37, u8_of_nat (u32 (3910 * freq_xtal) div 1000000)),
         (0x39, 0x80), (0x2E, 0x09)]
      else if filter_bw = 8 then
        [(0x36, 0x18), (0x37, u8_of_nat (u32 (3300 * freq_xtal) div 1000000)),
         (0x39, 0x80), (0x2E, 0x09)]
      else [])"

text \<open>
  The calibration loop: \<open>n\<close> rounds are left; \<open>cal_mon\<close> keeps its value when a read fails.
\<close>

fun fc2580_calibrate :: "nat \<Rightarrow> u8 \<Rightarrow> int \<Rightarrow> int usb_m" where
  "fc2580_calibrate 0 cal_mon result = ret result"
| "fc2580_calibrate (Suc n) cal_mon result = do {
     (r, d) \<leftarrow> fc2580_i2c_read 0x2F;
     let cal_mon = (if r = 1 then d else cal_mon);
     let result = result AND r;
     if cal_mon AND 0xC0 \<noteq> 0xC0 then do {
       result \<leftarrow> and_steps result (fc2580_writes [(0x2E, 0x01), (0x2E, 0x09)]);
       fc2580_calibrate n cal_mon result }
     else ret result }"

definition fc2580_set_filter :: "u8 \<Rightarrow> nat \<Rightarrow> int usb_m" where
  "fc2580_set_filter filter_bw freq_xtal = do {
     result \<leftarrow> and_steps 1 (fc2580_writes (fc2580_filter_regs filter_bw freq_xtal));
     result \<leftarrow> fc2580_calibrate 5 0 result;
     and_steps result [fc2580_i2c_write 0x2E 0x01] }"

section \<open>Initial setting\<close>

definition fc2580_set_init :: "nat \<Rightarrow> nat \<Rightarrow> int usb_m" where
  "fc2580_set_init ifagc_mode freq_xtal =
     and_steps 1 (fc2580_writes (
       [(0x00, 0x00), (0x12, 0x86), (0x14, 0x5C), (0x16, 0x3C), (0x1F, 0xD2), (0x09, 0xD7),
        (0x0B, 0xD5), (0x0C, 0x32), (0x0E, 0x43), (0x21, 0x0A), (0x22, 0x82)] @
       (if ifagc_mode = 1 then [(0x45, 0x10), (0x4C, 0x00)]
        else if ifagc_mode = 2 then [(0x45, 0x20), (0x4C, 0x02)] else []) @
       [(0x3F, 0x88), (0x02, 0x0E), (0x58, 0x14)]) @
       [fc2580_set_filter 8 freq_xtal])"

section \<open>Frequency setting\<close>

definition fc2580_band :: "nat \<Rightarrow> fc2580_band_type" where
  "fc2580_band f_lo =
     (if f_lo > 1000000 then FC2580_L_BAND
      else if f_lo > 400000 then FC2580_UHF_BAND else FC2580_VHF_BAND)"

definition fc2580_f_vco :: "nat \<Rightarrow> nat" where
  "fc2580_f_vco f_lo = (case fc2580_band f_lo of
     FC2580_UHF_BAND \<Rightarrow> u32 (f_lo * 4)
   | FC2580_L_BAND \<Rightarrow> u32 (f_lo * 2)
   | FC2580_VHF_BAND \<Rightarrow> u32 (f_lo * 12))"

definition fc2580_r_val :: "nat \<Rightarrow> nat \<Rightarrow> nat" where
  "fc2580_r_val f_vco freq_xtal =
     (if f_vco \<ge> u32 (2 * 76 * freq_xtal) then 1
      else if f_vco \<ge> u32 (76 * freq_xtal) then 2 else 4)"

text \<open>\<open>n_val\<close> and \<open>k_val\<close> for a comparison frequency that is not zero after the shift.\<close>

definition fc2580_nk :: "nat \<Rightarrow> nat \<Rightarrow> nat \<times> nat" where
  "fc2580_nk f_vco f_comp =
     (let n_val = (f_vco div 2) div f_comp;
          f_diff = u32 (f_vco + 4294967296 - u32 (u32 (2 * f_comp) * n_val));
          f_diff_shifted = u32 (push_bit 16 f_diff);
          step = drop_bit 4 (u32 (2 * f_comp));
          k_val = f_diff_shifted div step
      in (n_val, if drop_bit 4 f_comp \<le> u32 (f_diff_shifted + 4294967296 - u32 (k_val * step))
                 then u32 (k_val + 1) else k_val))"

definition fc2580_band_regs :: "fc2580_band_type \<Rightarrow> nat \<Rightarrow> (u8 \<times> u8) list" where
  "fc2580_band_regs band f_lo = (case band of
     FC2580_UHF_BAND \<Rightarrow>
       [(0x25, 0xF0), (0x27, 0x77), (0x28, 0x53), (0x29, 0x60), (0x30, 0x09), (0x50, 0x8C),
        (0x53, 0x50), (0x5F, if f_lo < 538000 then 0x13 else 0x15)] @
       (if f_lo < 538000 then
          [(0x61, 0x07), (0x62, 0x06), (0x67, 0x06), (0x68, 0x08), (0x69, 0x10), (0x6A, 0x12)]
        else if f_lo < 794000 then
          [(0x61, 0x03), (0x62, 0x03), (0x67, 0x03), (0x68, 0x05), (0x69, 0x0C), (0x6A, 0x0E)]
        else
          [(0x61, 0x07), (0x62, 0x06), (0x67, 0x07), (0x68, 0x09), (0x69, 0x10), (0x6A, 0x12)]) @
       [(0x63, 0x15), (0x6B, 0x0B), (0x6C, 0x0C), (0x6D, 0x78), (0x6E, 0x32), (0x6F, 0x14)]
   | FC2580_VHF_BAND \<Rightarrow>
       [(0x27, 0x77), (0x28, 0x33), (0x29, 0x40), (0x30, 0x09), (0x50, 0x8C), (0x53, 0x50),
        (0x5F, 0x0F), (0x61, 0x07), (0x62, 0x00), (0x63, 0x15), (0x67, 0x03), (0x68, 0x05),
        (0x69, 0x10), (0x6A, 0x12), (0x6B, 0x08), (0x6C, 0x0A), (0x6D, 0x78), (0x6E, 0x32),
        (0x6F, 0x54)]
   | FC2580_L_BAND \<Rightarrow>
       [(0x2B, 0x70), (0x2C, 0x37), (0x2D, 0xE7), (0x30, 0x09), (0x44, 0x20), (0x50, 0x8C),
        (0x53, 0x50), (0x5F, 0x0F), (0x61, 0x0F), (0x62, 0x00), (0x63, 0x13), (0x67, 0x00),
        (0x68, 0x02), (0x69, 0x0C), (0x6A, 0x0E), (0x6B, 0x08), (0x6C, 0x0A), (0x6D, 0xA0),
        (0x6E, 0x50), (0x6F, 0x14)])"

definition fc2580_band_filter :: "fc2580_band_type \<Rightarrow> u8" where
  "fc2580_band_filter band = (case band of
     FC2580_UHF_BAND \<Rightarrow> 8 | FC2580_VHF_BAND \<Rightarrow> 7 | FC2580_L_BAND \<Rightarrow> 1)"

text \<open>Register 2: the VCO band in bit 3, the reception band in bits 6 and 7.\<close>

definition fc2580_data_0x02 :: "fc2580_band_type \<Rightarrow> nat \<Rightarrow> u8" where
  "fc2580_data_0x02 band f_vco =
     (let d = (if f_vco \<ge> BORDER_FREQ then 0x0E OR 0x08 else 0x0E AND 0xF7)
      in case band of FC2580_UHF_BAND \<Rightarrow> d AND 0x3F
         | FC2580_VHF_BAND \<Rightarrow> (d AND 0x3F) OR 0x80
         | FC2580_L_BAND \<Rightarrow> (d AND 0x3F) OR 0x40)"

definition fc2580_pll_regs :: "nat \<Rightarrow> nat \<Rightarrow> nat \<Rightarrow> (u8 \<times> u8) list" where
  "fc2580_pll_regs r_val n_val k_val =
     [(0x18, (if r_val = 1 then 0x00 else if r_val = 2 then 0x10 else 0x20) +
             u8_of_nat (drop_bit 16 k_val)),
      (0x1A, u8_of_nat (drop_bit 8 k_val)),
      (0x1B, u8_of_nat k_val),
      (0x1C, u8_of_nat n_val)]"

definition fc2580_set_freq :: "nat \<Rightarrow> nat \<Rightarrow> int usb_m" where
  "fc2580_set_freq f_lo freq_xtal =
     (let band = fc2580_band f_lo;
          f_vco = fc2580_f_vco f_lo;
          r_val = fc2580_r_val f_vco freq_xtal;
          f_comp = freq_xtal div r_val
      in if f_comp = 0 \<or> drop_bit 4 (u32 (2 * f_comp)) = 0 then do { fault; ret 0 }
      else
        let (n_val, k_val) = fc2580_nk f_vco f_comp
        in and_steps 1 (fc2580_writes (fc2580_band_regs band f_lo) @
          fc2580_set_filter (fc2580_band_filter band) freq_xtal #
          fc2580_writes (
            (if freq_xtal \<ge> 28000 then [(0x4B, 0x22)] else []) @
            [(0x02, fc2580_data_0x02 band f_vco)] @
            fc2580_pll_regs r_val n_val k_val @
            (if band = FC2580_UHF_BAND
             then [(0x2D, if f_lo \<le> 794000 then 0x9F else 0x8F)] else []))))"

section \<open>Entry points\<close>

text \<open>FUNCTION_SUCCESS is 0 and FUNCTION_ERROR is 1; \<open>unsigned long\<close> has 32 bits.\<close>

definition fc2580_Initialize :: "int usb_m" where
  "fc2580_Initialize = do {
     r \<leftarrow> fc2580_set_init 2 ((CRYSTAL_FREQ + 500) div 1000);
     ret (if r \<noteq> 1 then 1 else 0) }"

definition fc2580_SetRfFreqHz :: "nat \<Rightarrow> int usb_m" where
  "fc2580_SetRfFreqHz RfFreqHz = do {
     r \<leftarrow> fc2580_set_freq (u32 (RfFreqHz + 500) div 1000) ((CRYSTAL_FREQ + 500) div 1000);
     ret (if r \<noteq> 1 then 1 else 0) }"

definition fc2580_SetBandwidthMode :: "int \<Rightarrow> int usb_m" where
  "fc2580_SetBandwidthMode BandwidthMode = do {
     r \<leftarrow> fc2580_set_filter (u8_of_int BandwidthMode) ((CRYSTAL_FREQ + 500) div 1000);
     ret (if r \<noteq> 1 then 1 else 0) }"

section \<open>Frames\<close>

lemma rel_fc2580_i2c_write [rel_intro]:
  "(\<And>x. i2c_xfer FC2580_I2C_ADDR x \<Longrightarrow> ok x) \<Longrightarrow> bus.rel ok (fc2580_i2c_write r v)"
  unfolding fc2580_i2c_write_def by (intro bus.rel_rules rel_intro) auto

lemma rel_fc2580_i2c_read [rel_intro]:
  "(\<And>x. i2c_xfer FC2580_I2C_ADDR x \<Longrightarrow> ok x) \<Longrightarrow> bus.rel ok (fc2580_i2c_read r)"
  unfolding fc2580_i2c_read_def by (intro bus.rel_rules rel_intro) auto

lemma rel_fc2580_writes:
  "m \<in> set (fc2580_writes rvs) \<Longrightarrow> (\<And>x. i2c_xfer FC2580_I2C_ADDR x \<Longrightarrow> ok x) \<Longrightarrow>
     bus.rel ok m"
  by (auto simp: fc2580_writes_def intro!: rel_fc2580_i2c_write)

lemma rel_fc2580_and_writes:
  "(\<And>x. i2c_xfer FC2580_I2C_ADDR x \<Longrightarrow> ok x) \<Longrightarrow>
     bus.rel ok (and_steps r (fc2580_writes rvs))"
  by (rule bus.rel_and_steps) (erule rel_fc2580_writes)

lemma rel_fc2580_calibrate:
  assumes "\<And>x. i2c_xfer FC2580_I2C_ADDR x \<Longrightarrow> ok x"
  shows "bus.rel ok (fc2580_calibrate n c r)"
  using assms
  by (induction n arbitrary: c r)
    (auto intro!: bus.rel_ret bus.rel_bind bus.rel_case_prod rel_fc2580_and_writes
      rel_fc2580_i2c_read simp: Let_def)

lemma rel_fc2580_set_filter [rel_intro]:
  "(\<And>x. i2c_xfer FC2580_I2C_ADDR x \<Longrightarrow> ok x) \<Longrightarrow> bus.rel ok (fc2580_set_filter b x)"
  unfolding fc2580_set_filter_def
  by (intro bus.rel_rules rel_fc2580_calibrate)
    (auto elim: rel_fc2580_writes intro!: rel_fc2580_i2c_write)

lemma rel_fc2580_set_init [rel_intro]:
  "(\<And>x. i2c_xfer FC2580_I2C_ADDR x \<Longrightarrow> ok x) \<Longrightarrow> bus.rel ok (fc2580_set_init m x)"
  unfolding fc2580_set_init_def
  by (intro bus.rel_rules)
    (auto elim: rel_fc2580_writes intro!: rel_fc2580_set_filter split: if_splits)

lemma rel_fc2580_set_freq [rel_intro]:
  "(\<And>x. i2c_xfer FC2580_I2C_ADDR x \<Longrightarrow> ok x) \<Longrightarrow> bus.rel ok (fc2580_set_freq f x)"
  unfolding fc2580_set_freq_def
  by (intro bus.rel_rules rel_fault)
    (auto elim: rel_fc2580_writes intro!: rel_fc2580_set_filter split: if_splits)

lemma rel_fc2580_Initialize [rel_intro]:
  "(\<And>x. i2c_xfer FC2580_I2C_ADDR x \<Longrightarrow> ok x) \<Longrightarrow> bus.rel ok fc2580_Initialize"
  unfolding fc2580_Initialize_def by (intro bus.rel_rules rel_intro) auto

lemma rel_fc2580_SetRfFreqHz [rel_intro]:
  "(\<And>x. i2c_xfer FC2580_I2C_ADDR x \<Longrightarrow> ok x) \<Longrightarrow> bus.rel ok (fc2580_SetRfFreqHz f)"
  unfolding fc2580_SetRfFreqHz_def by (intro bus.rel_rules rel_intro) auto

lemma rel_fc2580_SetBandwidthMode [rel_intro]:
  "(\<And>x. i2c_xfer FC2580_I2C_ADDR x \<Longrightarrow> ok x) \<Longrightarrow> bus.rel ok (fc2580_SetBandwidthMode b)"
  unfolding fc2580_SetBandwidthMode_def by (intro bus.rel_rules rel_intro) auto

section \<open>Register file\<close>

interpretation fc2580: reg_chip FC2580_I2C_ADDR fc2580_i2c_write 1
proof
  show "i2c_only FC2580_I2C_ADDR (fc2580_i2c_write r v)" for r v
    unfolding i2c_only_def by (rule rel_fc2580_i2c_write)
next
  fix s r v rc s'
  assume a: "usb_acks (dev_usb s)" and run: "run_state (fc2580_i2c_write r v) s = (rc, s')"
  from run obtain x where x: "run_state (rtlsdr_i2c_write_fn FC2580_I2C_ADDR [r, v]) s = (x, s')"
    and rc: "rc = (if x < 0 then 0 else 1)"
    by (auto simp: fc2580_i2c_write_def split: prod.splits)
  show "rc = 1 \<and> chip_reg FC2580_I2C_ADDR (dev_xfers s') =
      (chip_reg FC2580_I2C_ADDR (dev_xfers s))(r \<mapsto> v)"
    using chip_reg_write_fn [OF a x] rc by simp
qed

lemma acked_fc2580_i2c_write: "acked (\<lambda>a. a = 1) (fc2580_i2c_write r v)"
  unfolding fc2580_i2c_write_def
  by (rule acked_bind [OF acked_write_fn]) (auto intro: acked_ret)

lemma acked_fc2580_i2c_read: "acked (\<lambda>(rc, d). rc = 1) (fc2580_i2c_read r)"
  unfolding fc2580_i2c_read_def
  by (rule acked_bind [OF acked_write_fn])
    (auto intro!: acked_bind [OF acked_read_fn] acked_ret split: prod.splits)

lemma acked_fc2580_writes: "acked (\<lambda>a. a = 1) (and_steps 1 (fc2580_writes rvs))"
  by (rule acked_and_steps) (auto simp: fc2580_writes_def intro: acked_fc2580_i2c_write)

lemma acked_fc2580_calibrate: "acked (\<lambda>a. a = 1) (fc2580_calibrate n c 1)"
proof (induction n arbitrary: c)
  case (Suc n)
  show ?case unfolding fc2580_calibrate.simps
    by (rule acked_bind [OF acked_fc2580_i2c_read])
      (auto simp: Let_def intro!: acked_if acked_ret acked_bind [OF acked_fc2580_writes] Suc
        split: prod.splits)
qed (simp add: acked_ret)

lemma acked_fc2580_set_filter: "acked (\<lambda>a. a = 1) (fc2580_set_filter b x)"
  unfolding fc2580_set_filter_def
  by (rule acked_bind [OF acked_fc2580_writes], simp only:,
      rule acked_bind [OF acked_fc2580_calibrate], simp only:)
    (rule acked_and_steps, simp add: acked_fc2580_i2c_write)

section \<open>The PLL is exact\<close>

text \<open>
  With the 16384 kHz crystal the comparison frequency is a power of two of kHz, so N and K
  represent every VCO frequency in kHz without a rounding error.
\<close>

lemma fc2580_nk_exact:
  assumes f: "f < 8388608" and c: "c = 16384 \<or> c = 8192 \<or> c = 4096"
  shows "\<exists>n k. fc2580_nk f c = (n, k) \<and> k < 1048576 \<and> (n * 1048576 + k) * (2 * c) = f * 1048576
    \<and> n = f div (2 * c)"
proof -
  define q where "q = f div (2 * c)"
  define r where "r = f mod (2 * c)"
  have fr: "f = 2 * c * q + r" by (simp add: q_def r_def)
  have rc: "r < 2 * c" using c by (auto simp: r_def)
  have qf: "2 * c * q \<le> f" by (simp add: fr)
  have n: "f div 2 div c = q" by (simp add: q_def div_mult2_eq)
  have d: "u32 (f + 4294967296 - u32 (u32 (2 * c) * q)) = r"
  proof -
    have "u32 (u32 (2 * c) * q) = 2 * c * q" using c f qf by (auto simp: u32_def)
    moreover have "f + 4294967296 - 2 * c * q = r + 4294967296" using fr by linarith
    moreover have "r < 4294967296" using rc c by auto
    ultimately show ?thesis by (simp add: u32_def)
  qed
  have "fc2580_nk f c = (q, r * 1048576 div (2 * c))"
    using c rc unfolding fc2580_nk_def Let_def n d
    by (elim disjE) (simp_all add: u32_def push_bit_eq_mult drop_bit_eq_div)
  moreover have "r * 1048576 div (2 * c) * (2 * c) = r * 1048576"
    using c by (elim disjE) (simp_all add: dvd_div_mult_self)
  moreover have "r * 1048576 div (2 * c) < 1048576"
    using c rc by (elim disjE) simp_all
  moreover have "(q * 1048576 + k) * (2 * c) = f * 1048576"
    if "k * (2 * c) = r * 1048576" for k
  proof -
    have "(q * 1048576 + k) * (2 * c) = 2 * c * q * 1048576 + k * (2 * c)"
      by (simp add: algebra_simps)
    also have "\<dots> = (2 * c * q + r) * 1048576" by (simp only: that add_mult_distrib)
    finally show ?thesis by (simp only: fr [symmetric])
  qed
  ultimately show ?thesis unfolding q_def [symmetric] by blast
qed

text \<open>
  What the PLL of the chip does with its registers: the reference divider in the high half
  of register 0x18, K in the rest of it and in 0x1A and 0x1B, N in 0x1C. The VCO runs at
  \<open>2 * (16384 kHz / R) * (N + K / 1048576)\<close>; the function gives 1048576 times that, in kHz.
\<close>

definition fc2580_programmed :: "u8 \<Rightarrow> u8 \<Rightarrow> u8 \<Rightarrow> u8 \<Rightarrow> nat" where
  "fc2580_programmed r18 r1a r1b r1c =
     (let R = (if unat r18 div 16 = 0 then 1 else if unat r18 div 16 = 1 then 2 else 4);
          K = unat r18 mod 16 * 65536 + unat r1a * 256 + unat r1b
      in (unat r1c * 1048576 + K) * (2 * (16384 div R)))"

lemma fc2580_programmed_regs:
  assumes k: "k < 1048576" and n: "n < 256" and r: "r = 1 \<or> r = 2 \<or> r = 4"
    and m: "map_of (fc2580_pll_regs r n k) = g"
  shows "fc2580_programmed (the (g 0x18)) (the (g 0x1A)) (the (g 0x1B)) (the (g 0x1C)) =
    (n * 1048576 + k) * (2 * (16384 div r))"
proof -
  have h: "drop_bit 16 k < 16" using k by (simp add: drop_bit_eq_div div_less_iff_less_mult)
  have c: "unat ((if r = 1 then 0x00 else if r = 2 then 0x10 else 0x20) + u8_of_nat (drop_bit 16 k)) =
      (if r = 1 then 0 else if r = 2 then 16 else 32) + drop_bit 16 k"
    using h by (auto simp: unat_word_ariths unat_u8_of_nat)
  have d: "drop_bit 16 k * 65536 + (drop_bit 8 k mod 256) * 256 + k mod 256 = k"
  proof -
    have "k div 65536 = k div 256 div 256" by (simp flip: div_mult2_eq)
    then have "k div 65536 * 65536 + k div 256 mod 256 * 256 = 256 * (k div 256)"
      using arg_cong [OF div_mult_mod_eq [of "k div 256" 256], of "(*) 256"]
      by (simp only: add_mult_distrib2)
    then show ?thesis using div_mult_mod_eq [of k 256] by (simp add: drop_bit_eq_div)
  qed
  have g: "the (g 0x18) = (if r = 1 then 0x00 else if r = 2 then 0x10 else 0x20) + u8_of_nat (drop_bit 16 k)"
    "the (g 0x1A) = u8_of_nat (drop_bit 8 k)" "the (g 0x1B) = u8_of_nat k" "the (g 0x1C) = u8_of_nat n"
    by (simp_all add: fc2580_pll_regs_def flip: m)
  have "(16 * j + drop_bit 16 k) div 16 = j" "(16 * j + drop_bit 16 k) mod 16 = drop_bit 16 k" for j
    using h by simp_all
  from this [of 1] this [of 2] d show ?thesis
    unfolding fc2580_programmed_def g c Let_def using r h n by (auto simp: unat_u8_of_nat)
qed

lemma fc2580_set_freq_exact:
  assumes acks: "usb_acks (dev_usb s)" and f: "f_lo < 4194304"
  obtains s' r18 r1a r1b r1c where "run_state (fc2580_set_freq f_lo 16384) s = (1, s')"
    and "chip_reg FC2580_I2C_ADDR (dev_xfers s') 0x18 = Some r18"
    and "chip_reg FC2580_I2C_ADDR (dev_xfers s') 0x1A = Some r1a"
    and "chip_reg FC2580_I2C_ADDR (dev_xfers s') 0x1B = Some r1b"
    and "chip_reg FC2580_I2C_ADDR (dev_xfers s') 0x1C = Some r1c"
    and "fc2580_programmed r18 r1a r1b r1c = fc2580_f_vco f_lo * 1048576"
proof -
  define v where "v = fc2580_f_vco f_lo"
  define r where "r = fc2580_r_val v 16384"
  define c where "c = 16384 div r"
  have v: "v < 8388608" using f by (auto simp: v_def fc2580_f_vco_def fc2580_band_def)
  have r: "r = 1 \<or> r = 2 \<or> r = 4" by (simp add: r_def fc2580_r_val_def)
  then have c: "c = 16384 \<or> c = 8192 \<or> c = 4096" by (auto simp: c_def)
  obtain n k where nk: "fc2580_nk v c = (n, k)" "k < 1048576"
    and nke: "(n * 1048576 + k) * (2 * c) = v * 1048576" and n: "n = v div (2 * c)"
    using fc2580_nk_exact [OF v c] by blast
  have "n < 256"
    using v r unfolding n c_def
    by (auto simp: r_def fc2580_r_val_def div_less_iff_less_mult split: if_splits)
  define tail where "tail = [(0x02 :: u8, fc2580_data_0x02 (fc2580_band f_lo) v)] @
    fc2580_pll_regs r n k @ (if fc2580_band f_lo = FC2580_UHF_BAND
             then [(0x2D, if f_lo \<le> 794000 then 0x9F else 0x8F)] else [])"
  have ok: "(c = 0 \<or> drop_bit 4 (u32 (2 * c)) = 0) = False"
    using c by (auto simp: drop_bit_eq_div)
  have e: "(if (28000 :: nat) \<le> 16384 then [(0x4B, 0x22)] else []) = ([] :: (u8 \<times> u8) list)"
    by simp
  have run: "run_state (fc2580_set_freq f_lo 16384) s = run_state (and_steps 1
     (map (\<lambda>(r, v). fc2580_i2c_write r v) (fc2580_band_regs (fc2580_band f_lo) f_lo) @
      fc2580_set_filter (fc2580_band_filter (fc2580_band f_lo)) 16384 #
      map (\<lambda>(r, v). fc2580_i2c_write r v) tail @ [])) s"
    unfolding fc2580_set_freq_def Let_def v_def [symmetric] r_def [symmetric] c_def [symmetric]
      ok if_False nk(1) prod.case fc2580_writes_def tail_def
    by (simp only: e append_Cons append_Nil append_Nil2 map_append append_assoc list.map(1))
  obtain t where t: "run_state (fc2580_set_freq f_lo 16384) s = run_state (and_steps 1
      (fc2580_set_filter (fc2580_band_filter (fc2580_band f_lo)) 16384 #
       map (\<lambda>(r, v). fc2580_i2c_write r v) tail @ [])) t"
    and w: "fc2580.after_writes (fc2580_band_regs (fc2580_band f_lo) f_lo) s t"
    using fc2580.and_steps_writes [OF refl acks] unfolding run by blast
  have "usb_acks (dev_usb t)"
    using w acks by (auto simp: fc2580.after_writes_def dest: same_core_usb)
  from acked_run [OF acked_fc2580_set_filter this] obtain u where
    u: "run_state (fc2580_set_filter (fc2580_band_filter (fc2580_band f_lo)) 16384) t = (1, u)"
    and au: "usb_acks (dev_usb u)" by blast
  obtain s' where s': "run_state (fc2580_set_freq f_lo 16384) s = (1, s')"
    and x: "fc2580.after_writes tail u s'"
    using fc2580.and_steps_writes [OF refl au, of tail "[]"] by (auto simp: t u)
  have g: "chip_reg FC2580_I2C_ADDR (dev_xfers s') a = map_of (fc2580_pll_regs r n k) a"
    if "a \<in> {0x18, 0x1A, 0x1B, 0x1C}" for a
    using x that by (auto simp: fc2580.after_writes_def tail_def fc2580_pll_regs_def map_add_def)
  then have g': "chip_reg FC2580_I2C_ADDR (dev_xfers s') a = Some (the (map_of (fc2580_pll_regs r n k) a))"
    if "a \<in> {0x18, 0x1A, 0x1B, 0x1C}" for a
    using that by (auto simp: fc2580_pll_regs_def)
  have h: "fc2580_programmed (the (map_of (fc2580_pll_regs r n k) 0x18))
      (the (map_of (fc2580_pll_regs r n k) 0x1A)) (the (map_of (fc2580_pll_regs r n k) 0x1B))
      (the (map_of (fc2580_pll_regs r n k) 0x1C)) = fc2580_f_vco f_lo * 1048576"
    using fc2580_programmed_regs [OF nk(2) \<open>n < 256\<close> r refl] nke by (simp only: c_def v_def)
  show thesis by (rule that [OF s' _ _ _ _ h]) (rule g', simp)+
qed

text \<open>
  C7. On a bus that acknowledges, \<open>fc2580_SetRfFreqHz\<close> reports success for every
  frequency below 4194303500 Hz, and the values of R, N and K it leaves in the chip make the VCO
  run at exactly the multiple of the frequency, rounded to kHz, that the band asks for: there is
  no rounding error and no wrap-around in the 32-bit computation.
\<close>

theorem fc2580_tunes_exactly:
  assumes acks: "usb_acks (dev_usb s)" and hz: "hz < 4194303500"
  shows "\<exists>s' r18 r1a r1b r1c. run_state (fc2580_SetRfFreqHz hz) s = (0, s') \<and>
    chip_reg FC2580_I2C_ADDR (dev_xfers s') 0x18 = Some r18 \<and>
    chip_reg FC2580_I2C_ADDR (dev_xfers s') 0x1A = Some r1a \<and>
    chip_reg FC2580_I2C_ADDR (dev_xfers s') 0x1B = Some r1b \<and>
    chip_reg FC2580_I2C_ADDR (dev_xfers s') 0x1C = Some r1c \<and>
    fc2580_programmed r18 r1a r1b r1c =
      (hz + 500) div 1000 * (case fc2580_band ((hz + 500) div 1000) of
         FC2580_UHF_BAND \<Rightarrow> 4 | FC2580_L_BAND \<Rightarrow> 2 | FC2580_VHF_BAND \<Rightarrow> 12) * 1048576"
proof -
  define f where "f = (hz + 500) div 1000"
  have f: "f < 4194304" using hz unfolding f_def by simp
  have "(16384500 :: nat) div 1000 = 16384" by simp
  then have run: "fc2580_SetRfFreqHz hz = fc2580_set_freq f 16384 \<bind> (\<lambda>r. ret (if r \<noteq> 1 then 1 else 0))"
    using hz by (simp add: fc2580_SetRfFreqHz_def CRYSTAL_FREQ_def f_def)
  have v: "fc2580_f_vco f = f * (case fc2580_band f of
      FC2580_UHF_BAND \<Rightarrow> 4 | FC2580_L_BAND \<Rightarrow> 2 | FC2580_VHF_BAND \<Rightarrow> 12)"
    using f by (auto simp: fc2580_f_vco_def fc2580_band_def)
  obtain s' r18 r1a r1b r1c where "run_state (fc2580_set_freq f 16384) s = (1, s')"
    and "chip_reg FC2580_I2C_ADDR (dev_xfers s') 0x18 = Some r18"
    and "chip_reg FC2580_I2C_ADDR (dev_xfers s') 0x1A = Some r1a"
    and "chip_reg FC2580_I2C_ADDR (dev_xfers s') 0x1B = Some r1b"
    and "chip_reg FC2580_I2C_ADDR (dev_xfers s') 0x1C = Some r1c"
    and "fc2580_programmed r18 r1a r1b r1c = fc2580_f_vco f * 1048576"
    by (rule fc2580_set_freq_exact [OF acks f])
  then show ?thesis unfolding f_def [symmetric] v run by auto
qed

theorem fc2580_tunes_exactly_witness:
  "\<exists>s' r18 r1a r1b r1c. run_state (fc2580_SetRfFreqHz 162000000) example_dev = (0, s') \<and>
    chip_reg FC2580_I2C_ADDR (dev_xfers s') 0x18 = Some r18 \<and>
    chip_reg FC2580_I2C_ADDR (dev_xfers s') 0x1A = Some r1a \<and>
    chip_reg FC2580_I2C_ADDR (dev_xfers s') 0x1B = Some r1b \<and>
    chip_reg FC2580_I2C_ADDR (dev_xfers s') 0x1C = Some r1c \<and>
    fc2580_programmed r18 r1a r1b r1c =
      (162000000 + 500) div 1000 * (case fc2580_band ((162000000 + 500) div 1000) of
         FC2580_UHF_BAND \<Rightarrow> 4 | FC2580_L_BAND \<Rightarrow> 2 | FC2580_VHF_BAND \<Rightarrow> 12) * 1048576"
  by (rule fc2580_tunes_exactly) simp_all

end
