(* ===== verification/R82xx.thy ===== *)
theory R82xx
  imports Chip
begin

text \<open>
  The Rafael Micro R820T/R828D tuner, \<open>tuner_r82xx.c\<close>: shadow registers and chunked
  I2C writes, the multiplexer, the PLL with its sigma-delta fraction, system frequency
  selection, TV standard with filter calibration, frequency setting, standby and
  initialisation. The gain functions are in \<open>R82xxGain\<close>. The state is the part
  \<open>dev_r82p\<close> (\<open>struct r82xx_priv\<close>) and \<open>dev_r82c\<close> (\<open>struct r82xx_config\<close>) of the device.
\<close>

section \<open>Constants\<close>

definition REG_SHADOW_START :: int where "REG_SHADOW_START = 5"
definition NUM_REGS :: nat where "NUM_REGS = 30"
definition VER_NUM :: u8 where "VER_NUM = 49"
definition TUNER_ANALOG_TV :: int where "TUNER_ANALOG_TV = 2"
definition TUNER_DIGITAL_TV :: int where "TUNER_DIGITAL_TV = 3"
definition SYS_DVBT :: nat where "SYS_DVBT = 1"
definition SYS_DVBT2 :: nat where "SYS_DVBT2 = 2"
definition SYS_ISDBT :: nat where "SYS_ISDBT = 3"

text \<open>The initialiser has 27 values; C fills the rest of the array with zeros.\<close>

definition r82xx_init_array :: "u8 list" where
  "r82xx_init_array =
     [0x83, 0x32, 0x75, 0xc0, 0x40, 0xd6, 0x6c, 0xf5, 0x63, 0x75, 0x68, 0x6c, 0x83, 0x80,
      0x00, 0x0f, 0x00, 0xc0, 0x30, 0x48, 0xcc, 0x60, 0x00, 0x54, 0xae, 0x4a, 0xc0,
      0, 0, 0]"

text \<open>Frequency in MHz, open drain, RF mux, tracking filter, capacitors 20p, 10p, 0p.\<close>

type_synonym r82xx_freq_range = "nat \<times> u8 \<times> u8 \<times> u8 \<times> u8 \<times> u8 \<times> u8"

definition freq_ranges :: "r82xx_freq_range list" where
  "freq_ranges =
     [(0, 0x08, 0x02, 0xdf, 0x02, 0x01, 0x00),
      (50, 0x08, 0x02, 0xbe, 0x02, 0x01, 0x00),
      (55, 0x08, 0x02, 0x8b, 0x02, 0x01, 0x00),
      (60, 0x08, 0x02, 0x7b, 0x02, 0x01, 0x00),
      (65, 0x08, 0x02, 0x69, 0x02, 0x01, 0x00),
      (70, 0x08, 0x02, 0x58, 0x02, 0x01, 0x00),
      (75, 0x00, 0x02, 0x44, 0x02, 0x01, 0x00),
      (80, 0x00, 0x02, 0x44, 0x02, 0x01, 0x00),
      (90, 0x00, 0x02, 0x34, 0x01, 0x01, 0x00),
      (100, 0x00, 0x02, 0x34, 0x01, 0x01, 0x00),
      (110, 0x00, 0x02, 0x24, 0x01, 0x01, 0x00),
      (120, 0x00, 0x02, 0x24, 0x01, 0x01, 0x00),
      (140, 0x00, 0x02, 0x14, 0x01, 0x01, 0x00),
      (180, 0x00, 0x02, 0x13, 0x00, 0x00, 0x00),
      (220, 0x00, 0x02, 0x13, 0x00, 0x00, 0x00),
      (250, 0x00, 0x02, 0x11, 0x00, 0x00, 0x00),
      (280, 0x00, 0x02, 0x00, 0x00, 0x00, 0x00),
      (310, 0x00, 0x41, 0x00, 0x00, 0x00, 0x00),
      (450, 0x00, 0x41, 0x00, 0x00, 0x00, 0x00),
      (588, 0x00, 0x40, 0x00, 0x00, 0x00, 0x00),
      (650, 0x00, 0x40, 0x00, 0x00, 0x00, 0x00)]"

section \<open>Shadow registers and I2C\<close>

definition upd_r82p :: "(r82xx_priv \<Rightarrow> r82xx_priv) \<Rightarrow> unit usb_m" where
  "upd_r82p f = modify (\<lambda>s. s\<lparr>dev_r82p := f (dev_r82p s)\<rparr>)"

text \<open>
  For a register below 5 the source shortens the copy but still takes the bytes from the
  start of \<open>val\<close>; a register above 35 would make the length negative (\<open>memcpy\<close> out of
  bounds), which is the fault of \<open>r82xx_write\<close>.
\<close>

definition shadow_store :: "u8 list \<Rightarrow> u8 \<Rightarrow> u8 list \<Rightarrow> u8 list" where
  "shadow_store regs reg val =
     (let r = uint reg - REG_SHADOW_START;
          len = int (length val);
          (r, len) = (if r < 0 then (0, len + r) else (r, len));
          len = (if len > int NUM_REGS - r then int NUM_REGS - r else len)
      in if len \<le> 0 then regs
         else take (nat r) regs @ take (nat len) val @ drop (nat r + nat len) regs)"

text \<open>
  The do-while loop that sends the values in messages of at most \<open>m\<close> bytes. A length
  \<open>m\<close> of 0 (\<open>max_i2c_msg_len = 1\<close>) would loop for ever; \<open>r82xx_write\<close> excludes it, and
  the only writer of the field, \<open>r820t_init\<close>, sets 8.
\<close>

function r82xx_chunks :: "nat \<Rightarrow> u8 \<Rightarrow> u8 \<Rightarrow> u8 list \<Rightarrow> int usb_m" where
  "r82xx_chunks m addr reg val = do {
     let size = min (length val) m;
     rc \<leftarrow> rtlsdr_i2c_write_fn addr (reg # take size val);
     if rc \<noteq> int (size + 1) then ret (if rc < 0 then rc else -1)
     else if drop size val = [] \<or> m = 0 then ret 0
     else r82xx_chunks m addr (reg + of_nat size) (drop size val) }"
  by pat_completeness auto
termination
  by (relation "measure (\<lambda>(m, addr, reg, val). length val)") auto

declare r82xx_chunks.simps [simp del]

definition r82xx_write :: "u8 \<Rightarrow> u8 list \<Rightarrow> int usb_m" where
  "r82xx_write reg val = do {
     upd_r82p (\<lambda>p. p\<lparr>r82_regs := shadow_store (r82_regs p) reg val\<rparr>);
     cfg \<leftarrow> gets dev_r82c;
     let m = u32_of_int (int (cfg_max_i2c_msg_len cfg) - 1);
     (if unat reg > 35 \<or> m = 0 then fault else ret ());
     r82xx_chunks m (cfg_i2c_addr cfg) reg val }"

definition r82xx_write_reg :: "u8 \<Rightarrow> u8 \<Rightarrow> int usb_m" where
  "r82xx_write_reg reg val = r82xx_write reg [val]"

definition r82xx_read_cache_reg :: "int \<Rightarrow> int usb_m" where
  "r82xx_read_cache_reg reg = do {
     regs \<leftarrow> gets (r82_regs \<circ> dev_r82p);
     let reg = reg - REG_SHADOW_START;
     ret (if 0 \<le> reg \<and> reg < int NUM_REGS then uint (regs ! nat reg) else -1) }"

definition r82xx_write_reg_mask :: "u8 \<Rightarrow> u8 \<Rightarrow> u8 \<Rightarrow> int usb_m" where
  "r82xx_write_reg_mask reg val bit_mask = do {
     rc \<leftarrow> r82xx_read_cache_reg (uint reg);
     if rc < 0 then ret rc
     else r82xx_write reg [(u8_of_int rc AND NOT bit_mask) OR (val AND bit_mask)] }"

definition r82xx_bitrev :: "u8 \<Rightarrow> u8" where
  "r82xx_bitrev byte =
     (let lut = [0x0, 0x8, 0x4, 0xc, 0x2, 0xa, 0x6, 0xe,
                 0x1, 0x9, 0x5, 0xd, 0x3, 0xb, 0x7, 0xf] :: u8 list
      in push_bit 4 (lut ! unat (byte AND 0xf)) OR lut ! unat (drop_bit 4 byte))"

text \<open>
  Reads \<open>length old\<close> registers; the output buffer is left as it was on an error, and also
  when the address write reports 0 bytes, which is returned as success.
\<close>

definition r82xx_read :: "u8 \<Rightarrow> u8 list \<Rightarrow> (int \<times> u8 list) usb_m" where
  "r82xx_read reg old = do {
     cfg \<leftarrow> gets dev_r82c;
     rc \<leftarrow> rtlsdr_i2c_write_fn (cfg_i2c_addr cfg) [reg];
     if rc < 1 then ret (rc, old)
     else do {
       (rc, p) \<leftarrow> rtlsdr_i2c_read_fn (cfg_i2c_addr cfg) (replicate (length old) 0);
       if rc \<noteq> int (length old) then ret (if rc < 0 then rc else -1, old)
       else ret (0, map r82xx_bitrev p) } }"

section \<open>Multiplexer\<close>

fun r82xx_range :: "nat \<Rightarrow> r82xx_freq_range list \<Rightarrow> r82xx_freq_range" where
  "r82xx_range freq (r # r' # rs) = (if freq < fst r' then r else r82xx_range freq (r' # rs))"
| "r82xx_range freq rs = hd rs"

definition r82xx_xtal_val :: "r82xx_xtal_cap \<Rightarrow> r82xx_freq_range \<Rightarrow> u8" where
  "r82xx_xtal_val cap rg = (case rg of (_, _, _, _, cap20p, cap10p, cap0p) \<Rightarrow>
     (case cap of
        XTAL_LOW_CAP_30P \<Rightarrow> cap20p OR 0x08
      | XTAL_LOW_CAP_20P \<Rightarrow> cap20p OR 0x08
      | XTAL_LOW_CAP_10P \<Rightarrow> cap10p OR 0x08
      | XTAL_HIGH_CAP_0P \<Rightarrow> cap0p OR 0x00
      | XTAL_LOW_CAP_0P \<Rightarrow> cap0p OR 0x08))"

definition r82xx_set_mux :: "nat \<Rightarrow> int usb_m" where
  "r82xx_set_mux freq = do {
     cap \<leftarrow> gets (r82_xtal_cap_sel \<circ> dev_r82p);
     let rg = r82xx_range (freq div 1000000) freq_ranges;
     let (_, open_d, rf_mux_ploy, tf_c, _, _, _) = rg;
     steps [r82xx_write_reg_mask 0x17 open_d 0x08,
            r82xx_write_reg_mask 0x1a rf_mux_ploy 0xc3,
            r82xx_write_reg 0x1b tf_c,
            r82xx_write_reg_mask 0x10 (r82xx_xtal_val cap rg) 0x0b,
            r82xx_write_reg_mask 0x08 0x00 0x3f]
       (r82xx_write_reg_mask 0x09 0x00 0x3f) }"

section \<open>PLL\<close>

text \<open>
  The divider: the first power of two \<open>mix_div\<close> that brings the VCO into its range, with
  \<open>div_num\<close> its logarithm less one; \<open>n\<close> counts the doublings that are left.
\<close>

fun r82xx_mix_div :: "nat \<Rightarrow> nat \<Rightarrow> nat \<Rightarrow> nat \<Rightarrow> nat \<times> nat" where
  "r82xx_mix_div freq_khz mix_div div_num 0 = (mix_div, 0)"
| "r82xx_mix_div freq_khz mix_div div_num (Suc n) =
     (if 1770000 \<le> u32 (freq_khz * mix_div) \<and> u32 (freq_khz * mix_div) < 1770000 * 2
      then (mix_div, div_num)
      else r82xx_mix_div freq_khz (mix_div * 2) (div_num + 1) n)"

text \<open>The VCO fine tuning read from the chip moves \<open>div_num\<close> by one (in 8 bits).\<close>

definition r82xx_div_num :: "nat \<Rightarrow> nat \<Rightarrow> nat \<Rightarrow> u8" where
  "r82xx_div_num vco_fine_tune vco_power_ref div_num =
     (if vco_fine_tune > vco_power_ref then u8_of_nat div_num - 1
      else if vco_fine_tune < vco_power_ref then u8_of_nat div_num + 1
      else u8_of_nat div_num)"

text \<open>Integer part (8 bits) and fraction in kHz (32 bits) of the VCO frequency.\<close>

definition r82xx_nint :: "nat \<Rightarrow> nat \<Rightarrow> nat" where
  "r82xx_nint vco_freq pll_ref = (vco_freq div u32 (2 * pll_ref)) mod 256"

definition r82xx_vco_fra :: "nat \<Rightarrow> nat \<Rightarrow> nat \<Rightarrow> nat" where
  "r82xx_vco_fra vco_freq pll_ref nint =
     u32 (((vco_freq + 18446744073709551616 - u32 (u32 (2 * pll_ref) * nint))
            mod 18446744073709551616) div 1000)"

text \<open>Register 0x14 from the integer part: \<open>ni\<close> and \<open>si\<close> are 8-bit.\<close>

definition r82xx_ni_si :: "nat \<Rightarrow> u8" where
  "r82xx_ni_si nint =
     (let ni = u8_of_int ((int nint - 13) sdiv 4);
          si = u8_of_int (int nint - 4 * uint ni - 13)
      in ni + push_bit 6 si)"

text \<open>Doubling modulo 65536 doubles the greatest common divisor with 65536.\<close>

lemma double_dvd_power2: "d dvd 2 ^ k \<Longrightarrow> d = 2 ^ k \<or> 2 * d dvd 2 ^ k" for d :: nat
proof (induction k arbitrary: d)
  case (Suc k)
  show ?case
  proof (cases "even d")
    case True
    then obtain e where e: "d = 2 * e" by (elim evenE)
    with Suc.prems have "e dvd 2 ^ k" by simp
    from Suc.IH [OF this] show ?thesis by (auto simp: e)
  next
    case False
    then have "coprime d (2 ^ Suc k)" by simp
    then have "is_unit d" using Suc.prems by (metis coprime_absorb_left)
    then show ?thesis by simp
  qed
qed simp

lemma gcd_doubling:
  assumes n': "0 < (2 * n) mod 65536"
  shows "gcd n 65536 < gcd ((2 * n) mod 65536) (65536 :: nat)"
proof -
  let ?d = "gcd n 65536"
  have "?d \<noteq> 65536"
  proof
    assume "?d = 65536"
    then have "65536 dvd n" by (metis gcd_dvd1)
    then show False using n' by (auto elim!: dvdE)
  qed
  then have "2 * ?d dvd 65536" using double_dvd_power2 [of ?d 16] by simp
  moreover have "2 * ?d dvd 2 * n" by (intro mult_dvd_mono) simp_all
  ultimately have "2 * ?d dvd gcd (2 * n) 65536" by (rule gcd_greatest [rotated])
  moreover have "gcd ((2 * n) mod 65536) 65536 = gcd (2 * n) (65536 :: nat)"
    by (metis gcd.commute gcd_red_nat)
  ultimately have "2 * ?d \<le> gcd ((2 * n) mod 65536) (65536 :: nat)"
    by (simp only:) (rule dvd_imp_le, simp_all)
  moreover have "0 < ?d" by simp
  ultimately show ?thesis by linarith
qed

lemma sdm_measure:
  assumes "0 < n"
  shows "(if (2 * n) mod 65536 = 0 then 0 else 65537 - gcd ((2 * n) mod 65536) 65536)
    < (if n = 0 then 0 else 65537 - gcd n (65536 :: nat))"
proof -
  have "gcd n 65536 \<le> (65536 :: nat)" by (rule dvd_imp_le) simp_all
  then have "gcd n 65536 < (65537 :: nat)" by linarith
  then show ?thesis using assms gcd_doubling [of n] by (auto intro!: diff_less_mono2)
qed

text \<open>
  The sigma-delta word: successive approximation with a 16-bit \<open>n_sdm\<close> that doubles. The
  doubling overflows to 0 after 0x8000, and the division that follows is undefined: None.
\<close>

function r82xx_sdm :: "nat \<Rightarrow> nat \<Rightarrow> nat \<Rightarrow> nat \<Rightarrow> nat option" where
  "r82xx_sdm pll_ref_khz n_sdm sdm vco_fra =
     (if vco_fra \<le> 1 then Some sdm
      else if n_sdm = 0 then None
      else
        let q = u32 (2 * pll_ref_khz) div n_sdm
        in if vco_fra > q then
             let sdm = (sdm + 32768 div (n_sdm div 2)) mod 65536
             in if n_sdm \<ge> 0x8000 then Some sdm
                else r82xx_sdm pll_ref_khz ((2 * n_sdm) mod 65536) sdm (vco_fra - q)
           else r82xx_sdm pll_ref_khz ((2 * n_sdm) mod 65536) sdm vco_fra)"
  by pat_completeness auto

termination
  by (relation "measure (\<lambda>(k, n, s, v). if n = 0 then 0 else 65537 - gcd n 65536)")
    (simp_all only: in_measure prod.case sdm_measure neq0_conv wf_measure)

declare r82xx_sdm.simps [simp del]

text \<open>Two looks at the lock bit, the second with a higher VCO current.\<close>

definition r82xx_locked :: "bool \<Rightarrow> int usb_m" where
  "r82xx_locked locked = do {
     upd_r82p (\<lambda>p. p\<lparr>r82_has_lock := locked\<rparr>);
     if \<not> locked then ret 0 else r82xx_write_reg_mask 0x1a 0x08 0x08 }"

definition r82xx_lock :: "u8 list \<Rightarrow> int usb_m" where
  "r82xx_lock data = do {
     (rc, data) \<leftarrow> r82xx_read 0x00 (take 3 data);
     if rc < 0 then ret rc
     else if data ! 2 AND 0x40 \<noteq> 0 then r82xx_locked True
     else steps [r82xx_write_reg_mask 0x12 0x60 0xe0]
       (do {
          (rc, data) \<leftarrow> r82xx_read 0x00 data;
          if rc < 0 then ret rc else r82xx_locked (data ! 2 AND 0x40 \<noteq> 0) }) }"

text \<open>The registers of the fraction and the lock check.\<close>

definition r82xx_set_sdm :: "nat \<Rightarrow> nat \<Rightarrow> u8 list \<Rightarrow> int usb_m" where
  "r82xx_set_sdm pll_ref_khz vco_fra data =
     (case r82xx_sdm pll_ref_khz 2 0 vco_fra of
        None \<Rightarrow> do { fault; ret (-1) }
      | Some sdm \<Rightarrow>
          steps [r82xx_write_reg 0x16 (u8_of_nat (sdm div 256)),
                 r82xx_write_reg 0x15 (u8_of_nat (sdm mod 256))]
            (r82xx_lock data))"

definition r82xx_set_pll :: "nat \<Rightarrow> int usb_m" where
  "r82xx_set_pll freq = do {
     data \<leftarrow> junk 5;
     cfg \<leftarrow> gets dev_r82c;
     let pll_ref = cfg_xtal cfg;
     let pll_ref_khz = u32 (cfg_xtal cfg + 500) div 1000;
     let (mix_div, div_num) = r82xx_mix_div (u32 (freq + 500) div 1000) 2 0 6;
     let vco_power_ref = (if cfg_rafael_chip cfg = CHIP_R828D then 1 else 2);
     steps [r82xx_write_reg_mask 0x10 0x00 0x10,
            r82xx_write_reg_mask 0x1a 0x00 0x0c,
            r82xx_write_reg_mask 0x12 0x80 0xe0]
       (do {
          (rc, data) \<leftarrow> r82xx_read 0x00 data;
          if rc < 0 then ret rc
          else
            let vco_fine_tune = unat (drop_bit 4 (data ! 4 AND 0x30));
                div_num = r82xx_div_num vco_fine_tune vco_power_ref div_num
            in steps [r82xx_write_reg_mask 0x10 (push_bit 5 div_num) 0xe0]
              (if u32 (2 * pll_ref) = 0 then do { fault; ret (-1) }
               else
                 let vco_freq = freq * mix_div;
                     nint = r82xx_nint vco_freq pll_ref;
                     vco_fra = r82xx_vco_fra vco_freq pll_ref nint
                 in if nint > 128 div vco_power_ref - 1 then ret (-1)
                    else steps [r82xx_write_reg 0x14 (r82xx_ni_si nint),
                                r82xx_write_reg_mask 0x12 (if vco_fra = 0 then 0x08 else 0x00) 0x08]
                      (r82xx_set_sdm pll_ref_khz vco_fra data)) }) }"

section \<open>System frequency selection\<close>

record r82xx_sysfreq =
  mixer_top :: u8
  lna_top :: u8
  cp_cur :: u8
  div_buf_cur :: u8
  lna_vth_l :: u8
  mixer_vth_l :: u8
  air_cable1_in :: u8
  cable2_in :: u8
  pre_dect :: u8
  lna_discharge :: u8
  filter_cur :: u8

definition r82xx_sysfreq_params :: "nat \<Rightarrow> nat \<Rightarrow> r82xx_sysfreq" where
  "r82xx_sysfreq_params freq delsys =
     (let base = \<lparr>mixer_top = 0x24, lna_top = 0xe5, cp_cur = 0x38, div_buf_cur = 0x30,
            lna_vth_l = 0x53, mixer_vth_l = 0x75, air_cable1_in = 0x00, cable2_in = 0x00,
            pre_dect = 0x40, lna_discharge = 14, filter_cur = 0x40\<rparr>
      in if delsys = SYS_DVBT then
           (if freq = 506000000 \<or> freq = 666000000 \<or> freq = 818000000
            then base\<lparr>mixer_top := 0x14, cp_cur := 0x28, div_buf_cur := 0x20\<rparr> else base)
         else if delsys = SYS_DVBT2 then base
         else if delsys = SYS_ISDBT then base\<lparr>lna_vth_l := 0x75\<rparr>
         else base)"

definition r82xx_sysfreq_lna :: "r82xx_sysfreq \<Rightarrow> int \<Rightarrow> int usb_m list" where
  "r82xx_sysfreq_lna q type =
     (if type \<noteq> TUNER_ANALOG_TV then
        [r82xx_write_reg_mask 0x1d 0 0x38,
         r82xx_write_reg_mask 0x1c 0 0x04,
         r82xx_write_reg_mask 0x06 0 0x40,
         r82xx_write_reg_mask 0x1a 0x30 0x30,
         r82xx_write_reg_mask 0x1d 0x18 0x38,
         r82xx_write_reg_mask 0x1c (mixer_top q) 0x04,
         r82xx_write_reg_mask 0x1e (lna_discharge q) 0x1f,
         r82xx_write_reg_mask 0x1a 0x20 0x30]
      else
        [r82xx_write_reg_mask 0x06 0 0x40,
         r82xx_write_reg_mask 0x1d (lna_top q) 0x38,
         r82xx_write_reg_mask 0x1c (mixer_top q) 0x04,
         r82xx_write_reg_mask 0x1e (lna_discharge q) 0x1f,
         r82xx_write_reg_mask 0x1a 0x00 0x30,
         r82xx_write_reg_mask 0x10 0x00 0x04])"

definition r82xx_sysfreq_sel :: "nat \<Rightarrow> int \<Rightarrow> nat \<Rightarrow> int usb_m" where
  "r82xx_sysfreq_sel freq type delsys = do {
     cfg \<leftarrow> gets dev_r82c;
     let q = r82xx_sysfreq_params freq delsys;
     steps ((if cfg_use_predetect cfg then [r82xx_write_reg_mask 0x06 (pre_dect q) 0x40] else []) @
            [r82xx_write_reg_mask 0x1d (lna_top q) 0xc7,
             r82xx_write_reg_mask 0x1c (mixer_top q) 0xf8,
             r82xx_write_reg 0x0d (lna_vth_l q),
             r82xx_write_reg 0x0e (mixer_vth_l q)])
       (do {
          upd_r82p (\<lambda>p. p\<lparr>r82_input := air_cable1_in q\<rparr>);
          steps ([r82xx_write_reg_mask 0x05 (air_cable1_in q) 0x60,
                  r82xx_write_reg_mask 0x06 (cable2_in q) 0x08,
                  r82xx_write_reg_mask 0x11 (cp_cur q) 0x38,
                  r82xx_write_reg_mask 0x17 (div_buf_cur q) 0x30,
                  r82xx_write_reg_mask 0x0a (filter_cur q) 0x60] @
                 r82xx_sysfreq_lna q type) (ret 0) }) }"

section \<open>TV standard\<close>

record r82xx_std =
  if_khz :: nat
  filt_cal_lo :: nat
  filt_gain :: u8
  img_r :: u8
  filt_q :: u8
  hp_cor :: u8
  ext_enable :: u8
  loop_through :: u8
  lt_att :: u8
  flt_ext_widest :: u8
  polyfil_cur :: u8

definition r82xx_std_params :: "nat \<Rightarrow> nat \<Rightarrow> r82xx_std" where
  "r82xx_std_params bw delsys =
     (let base = \<lparr>if_khz = 3570, filt_cal_lo = 56000, filt_gain = 0x10, img_r = 0x00,
            filt_q = 0x10, hp_cor = 0x6b, ext_enable = 0x60, loop_through = 0x00,
            lt_att = 0x00, flt_ext_widest = 0x00, polyfil_cur = 0x60\<rparr>
      in if delsys = SYS_ISDBT then
           base\<lparr>if_khz := 4063, filt_cal_lo := 59000, hp_cor := 0x6a, ext_enable := 0x40\<rparr>
         else if bw \<le> 6 then base
         else if bw = 7 then base\<lparr>if_khz := 4570, filt_cal_lo := 63000, hp_cor := 0x2a\<rparr>
         else base\<lparr>if_khz := 4570, filt_cal_lo := 68500, hp_cor := 0x0b\<rparr>)"

text \<open>
  The filter calibration: \<open>n\<close> rounds are left, \<open>k\<close> is what follows the loop. A failure, or a
  PLL that does not lock, returns from \<open>r82xx_set_tv_standard\<close>.
\<close>

fun r82xx_filter_cal :: "nat \<Rightarrow> r82xx_std \<Rightarrow> u8 list \<Rightarrow> int usb_m \<Rightarrow> int usb_m" where
  "r82xx_filter_cal 0 q data k = k"
| "r82xx_filter_cal (Suc n) q data k =
     steps [r82xx_write_reg_mask 0x0b (hp_cor q) 0x60,
            r82xx_write_reg_mask 0x0f 0x04 0x04,
            r82xx_write_reg_mask 0x10 0x00 0x03]
       (do {
          rc \<leftarrow> r82xx_set_pll (filt_cal_lo q * 1000);
          has_lock \<leftarrow> gets (r82_has_lock \<circ> dev_r82p);
          if rc < 0 \<or> \<not> has_lock then ret rc
          else
            steps [r82xx_write_reg_mask 0x0b 0x10 0x10,
                   r82xx_write_reg_mask 0x0b 0x00 0x10,
                   r82xx_write_reg_mask 0x0f 0x00 0x04]
              (do {
                 (rc, data) \<leftarrow> r82xx_read 0x00 data;
                 if rc < 0 then ret rc
                 else do {
                   let code = data ! 4 AND 0x0f;
                   upd_r82p (\<lambda>p. p\<lparr>r82_fil_cal_code := code\<rparr>);
                   if code \<noteq> 0 \<and> code \<noteq> 0x0f then k else r82xx_filter_cal n q data k } }) })"

definition r82xx_std_regs :: "r82xx_std \<Rightarrow> u8 \<Rightarrow> int usb_m list" where
  "r82xx_std_regs q fil_cal_code =
     [r82xx_write_reg_mask 0x0a (filt_q q OR fil_cal_code) 0x1f,
      r82xx_write_reg_mask 0x0b (hp_cor q) 0xef,
      r82xx_write_reg_mask 0x07 (img_r q) 0x80,
      r82xx_write_reg_mask 0x06 (filt_gain q) 0x30,
      r82xx_write_reg_mask 0x1e (ext_enable q) 0x60,
      r82xx_write_reg_mask 0x05 (loop_through q) 0x80,
      r82xx_write_reg_mask 0x1f (lt_att q) 0x80,
      r82xx_write_reg_mask 0x0f (flt_ext_widest q) 0x80,
      r82xx_write_reg_mask 0x19 (polyfil_cur q) 0x60]"

definition r82xx_set_tv_standard :: "nat \<Rightarrow> int \<Rightarrow> nat \<Rightarrow> int usb_m" where
  "r82xx_set_tv_standard bw type delsys = do {
     data \<leftarrow> junk 5;
     let q = r82xx_std_params bw delsys;
     upd_r82p (\<lambda>p. p\<lparr>r82_regs := r82xx_init_array\<rparr>);
     steps ([r82xx_write_reg_mask 0x0c 0x00 0x0f, r82xx_write_reg_mask 0x13 VER_NUM 0x3f] @
            (if type \<noteq> TUNER_ANALOG_TV then [r82xx_write_reg_mask 0x1d 0x00 0x38] else []))
       (do {
          upd_r82p (\<lambda>p. p\<lparr>r82_int_freq := if_khz q * 1000\<rparr>);
          r82xx_filter_cal 2 q data
            (do {
               upd_r82p (\<lambda>p. p\<lparr>r82_fil_cal_code :=
                 if r82_fil_cal_code p = 0x0f then 0 else r82_fil_cal_code p\<rparr>);
               code \<leftarrow> gets (r82_fil_cal_code \<circ> dev_r82p);
               steps (r82xx_std_regs q code)
                 (do {
                    upd_r82p (\<lambda>p. p\<lparr>r82_delsys := delsys, r82_type := type, r82_bw := bw\<rparr>);
                    ret 0 }) }) }) }"

section \<open>Frequency, standby, crystal check\<close>

definition r82xx_set_freq :: "nat \<Rightarrow> int usb_m" where
  "r82xx_set_freq freq = do {
     int_freq \<leftarrow> gets (r82_int_freq \<circ> dev_r82p);
     let lo_freq = u32 (freq + int_freq);
     steps [r82xx_set_mux lo_freq]
       (do {
          rc \<leftarrow> r82xx_set_pll lo_freq;
          has_lock \<leftarrow> gets (r82_has_lock \<circ> dev_r82p);
          if rc < 0 \<or> \<not> has_lock then ret rc
          else do {
            let air = (if freq > 345000000 then 0x00 else 0x60);
            cfg \<leftarrow> gets dev_r82c;
            input \<leftarrow> gets (r82_input \<circ> dev_r82p);
            if cfg_rafael_chip cfg = CHIP_R828D \<and> air \<noteq> input then do {
              upd_r82p (\<lambda>p. p\<lparr>r82_input := air\<rparr>);
              r82xx_write_reg_mask 0x05 air 0x60 }
            else ret rc } }) }"

definition r82xx_standby :: "int usb_m" where
  "r82xx_standby = do {
     init_done \<leftarrow> gets (r82_init_done \<circ> dev_r82p);
     if \<not> init_done then ret 0
     else
       steps (map (\<lambda>(r, v). r82xx_write_reg r v)
         [(0x06, 0xb1), (0x05, 0x03), (0x07, 0x3a), (0x08, 0x40), (0x09, 0xc0),
          (0x0a, 0x36), (0x0c, 0x35), (0x0f, 0x68), (0x11, 0x03), (0x17, 0xf4)])
       (do {
          rc \<leftarrow> r82xx_write_reg 0x19 0x0c;
          upd_r82p (\<lambda>p. p\<lparr>r82_type := -1\<rparr>);
          ret rc }) }"

text \<open>The value to write and the number of the \<open>r82xx_xtal_cap_value\<close>.\<close>

definition r82xx_xtal_capacitor :: "(u8 \<times> int) list" where
  "r82xx_xtal_capacitor = [(0x0b, 0), (0x02, 1), (0x01, 2), (0x00, 3), (0x10, 4)]"

fun r82xx_try_caps :: "(u8 \<times> int) list \<Rightarrow> u8 list \<Rightarrow> int usb_m" where
  "r82xx_try_caps [] data = ret (-1)"
| "r82xx_try_caps ((v, cap) # caps) data =
     steps [r82xx_write_reg_mask 0x10 v 0x1b]
       (do {
          (rc, data) \<leftarrow> r82xx_read 0x00 data;
          cfg \<leftarrow> gets dev_r82c;
          if rc < 0 then ret rc
          else if data ! 2 AND 0x40 = 0 then r82xx_try_caps caps data
          else
            let val = data ! 2 AND 0x3f
            in if cfg_xtal cfg = 16000000 \<and> (val > 29 \<or> val < 23) then ret cap
               else if val \<noteq> 0x3f then ret cap
               else r82xx_try_caps caps data })"

definition r82xx_xtal_check :: "int usb_m" where
  "r82xx_xtal_check = do {
     data \<leftarrow> junk 3;
     upd_r82p (\<lambda>p. p\<lparr>r82_regs := r82xx_init_array\<rparr>);
     steps [r82xx_write_reg_mask 0x10 0x0b 0x0b,
            r82xx_write_reg_mask 0x1a 0x00 0x0c,
            r82xx_write_reg_mask 0x13 0x7f 0x7f,
            r82xx_write_reg_mask 0x13 0x00 0x40]
       (r82xx_try_caps r82xx_xtal_capacitor data) }"

end
