(* ===== verification/R82xxGain.thy ===== *)
theory R82xxGain
  imports R82xx
begin

text \<open>
  The gain functions of \<open>tuner_r82xx.c\<close>, the bandwidth setting and the initialisation:
  the step tables, the cumulated stage gains and the gain table kept in writable statics
  (\<open>dev_r82s\<close>), the three manual gain modes, and the gain of a single stage.
\<close>

section \<open>Tables\<close>

definition r82xx_vga_gain_steps :: "int list" where
  "r82xx_vga_gain_steps = [0, 26, 26, 30, 42, 35, 24, 13, 14, 32, 36, 34, 35, 37, 35, 36]"

definition r82xx_lna_gain_steps :: "int list" where
  "r82xx_lna_gain_steps = [0, 9, 13, 40, 38, 13, 31, 22, 26, 31, 26, 14, 19, 5, 35, 13]"

definition r82xx_mixer_gain_steps :: "int list" where
  "r82xx_mixer_gain_steps = [0, 5, 10, 10, 19, 9, 10, 25, 17, 10, 8, 16, 13, 6, 3, -8]"

definition VGA_BASE_GAIN :: int where "VGA_BASE_GAIN = -47"
definition MANUAL_GAIN_VGA_INDEX :: nat where "MANUAL_GAIN_VGA_INDEX = 8"
definition SIZE_GAIN_TABLE :: nat where "SIZE_GAIN_TABLE = 22"

definition GAIN_MODE_AGC :: int where "GAIN_MODE_AGC = 0"
definition GAIN_MODE_MANUAL :: int where "GAIN_MODE_MANUAL = 1"
definition GAIN_MODE_LINEARITY :: int where "GAIN_MODE_LINEARITY = 2"
definition GAIN_MODE_SENSITIVITY :: int where "GAIN_MODE_SENSITIVITY = 3"

record gain_index_table =
  lna_gain_index :: "nat list"
  mix_gain_index :: "nat list"
  vga_gain_index :: "nat list"

definition gain_index_linearity :: gain_index_table where
  "gain_index_linearity = \<lparr>
     lna_gain_index = [15,15,13,13,12,10, 9, 9, 8, 7, 7, 6, 6, 6, 6, 5, 5, 4, 3, 3, 2, 1],
     mix_gain_index = [12,10,10, 9, 8, 7, 6, 6, 5, 5, 5, 5, 5, 4, 4, 4, 3, 3, 3, 2, 1, 0],
     vga_gain_index = [13,13,12,11,11,11,11,10,10,10, 9, 9, 8, 8, 7, 7, 6, 6, 5, 4, 4, 4]\<rparr>"

definition gain_index_sensitivity :: gain_index_table where
  "gain_index_sensitivity = \<lparr>
     lna_gain_index = [15,15,13,13,13,13,13,13,13,13,13,12,11,11,10, 9, 8, 7, 6, 5, 4, 3],
     mix_gain_index = [12,12,12,12,12,12,12,12,11,11,10,10, 9, 8, 7, 6, 5, 4, 3, 2, 1, 0],
     vga_gain_index = [13,12,12,11,10, 9, 8, 7, 6, 5, 4, 4, 4, 3, 3, 3, 3, 3, 3, 3, 3, 3]\<rparr>"

definition r82xx_gain_index_table :: "int \<Rightarrow> gain_index_table" where
  "r82xx_gain_index_table gain_mode =
     (if gain_mode = GAIN_MODE_LINEARITY then gain_index_linearity else gain_index_sensitivity)"

section \<open>Stage gains and gain table\<close>

fun cumulate :: "int \<Rightarrow> int list \<Rightarrow> int list" where
  "cumulate a [] = []"
| "cumulate a (x # xs) = (a + x) # cumulate (a + x) xs"

definition r82xx_calculate_stage_gains :: "unit usb_m" where
  "r82xx_calculate_stage_gains = modify (\<lambda>s. s\<lparr>dev_r82s := (dev_r82s s)
     \<lparr>LNA_stage := cumulate 0 r82xx_lna_gain_steps,
      Mixer_stage := cumulate 0 r82xx_mixer_gain_steps,
      IF_stage := cumulate VGA_BASE_GAIN r82xx_vga_gain_steps\<rparr>\<rparr>)"

text \<open>The manual table: every new maximum of the total gain along the step order.\<close>

definition push_gain :: "int list \<Rightarrow> int \<Rightarrow> int list" where
  "push_gain table total_gain = (if total_gain > last table then table @ [total_gain] else table)"

definition r82xx_manual_table :: "int list" where
  "r82xx_manual_table = snd (foldl (\<lambda>(total_gain, table) i.
       let total_gain = total_gain + r82xx_lna_gain_steps ! i;
           table = push_gain table total_gain;
           total_gain = total_gain + r82xx_mixer_gain_steps ! i
       in (total_gain, push_gain table total_gain)) (0, [0]) [1..<16])"

definition r82xx_index_table :: "gain_index_table \<Rightarrow> r82xx_statics \<Rightarrow> int list" where
  "r82xx_index_table t s = map (\<lambda>i.
       LNA_stage s ! (lna_gain_index t ! (SIZE_GAIN_TABLE - i - 1)) +
       Mixer_stage s ! (mix_gain_index t ! (SIZE_GAIN_TABLE - i - 1)) +
       IF_stage s ! (vga_gain_index t ! (SIZE_GAIN_TABLE - i - 1)) -
       IF_stage s ! MANUAL_GAIN_VGA_INDEX) [0..<SIZE_GAIN_TABLE]"

text \<open>The new entries replace the front of the static array.\<close>

definition set_gain_table :: "int list \<Rightarrow> r82xx_statics \<Rightarrow> r82xx_statics" where
  "set_gain_table t s = s\<lparr>r82_gain_table := t @ drop (length t) (r82_gain_table s),
                          r82_gain_table_len := length t\<rparr>"

definition r82xx_compute_gain_table :: "unit usb_m" where
  "r82xx_compute_gain_table = do {
     gain_mode \<leftarrow> gets (r82_gain_mode \<circ> dev_r82p);
     if gain_mode = GAIN_MODE_AGC \<or> gain_mode = GAIN_MODE_MANUAL then
       modify (\<lambda>s. s\<lparr>dev_r82s := set_gain_table r82xx_manual_table (dev_r82s s)\<rparr>)
     else if gain_mode = GAIN_MODE_LINEARITY \<or> gain_mode = GAIN_MODE_SENSITIVITY then
       modify (\<lambda>s. s\<lparr>dev_r82s := set_gain_table
         (r82xx_index_table (r82xx_gain_index_table gain_mode) (dev_r82s s)) (dev_r82s s)\<rparr>)
     else ret () }"

section \<open>Setting the gain\<close>

text \<open>
  The original algorithm: LNA and mixer steps in turn until the total reaches the gain;
  \<open>n\<close> of the 15 rounds are left.
\<close>

fun r82xx_manual_index :: "nat \<Rightarrow> int \<Rightarrow> int \<Rightarrow> nat \<Rightarrow> nat \<Rightarrow> nat \<times> nat" where
  "r82xx_manual_index 0 gain tot lna mix = (lna, mix)"
| "r82xx_manual_index (Suc n) gain tot lna mix =
     (if tot \<ge> gain then (lna, mix)
      else
        let lna = lna + 1; tot = tot + r82xx_lna_gain_steps ! lna
        in if tot \<ge> gain then (lna, mix)
           else let mix = mix + 1; tot = tot + r82xx_mixer_gain_steps ! mix
                in r82xx_manual_index n gain tot lna mix)"

text \<open>\<open>for (i = len - 1; i > 0; i--) if (gain >= table[i]) break;\<close>\<close>

fun r82xx_table_index :: "int list \<Rightarrow> int \<Rightarrow> nat \<Rightarrow> nat" where
  "r82xx_table_index table gain 0 = 0"
| "r82xx_table_index table gain (Suc i) =
     (if gain \<ge> table ! Suc i then Suc i else r82xx_table_index table gain i)"

text \<open>
  LNA, mixer and VGA index; \<open>None\<close> when an index would lie outside the tables (an empty
  gain table, \<open>i = -1\<close>, or one longer than 22).
\<close>

definition r82xx_gain_indices :: "int \<Rightarrow> r82xx_statics \<Rightarrow> int \<Rightarrow> (nat \<times> nat \<times> nat) option" where
  "r82xx_gain_indices gain_mode s gain =
     (if gain_mode = GAIN_MODE_MANUAL then
        let (lna, mix) = r82xx_manual_index 15 gain 0 0 0 in Some (lna, mix, MANUAL_GAIN_VGA_INDEX)
      else if gain_mode = GAIN_MODE_LINEARITY \<or> gain_mode = GAIN_MODE_SENSITIVITY then
        if r82_gain_table_len s = 0 then None
        else
          let t = r82xx_gain_index_table gain_mode;
              i = r82xx_table_index (r82_gain_table s) gain (r82_gain_table_len s - 1)
          in if i \<ge> SIZE_GAIN_TABLE then None
             else Some (lna_gain_index t ! (SIZE_GAIN_TABLE - i - 1),
                        mix_gain_index t ! (SIZE_GAIN_TABLE - i - 1),
                        vga_gain_index t ! (SIZE_GAIN_TABLE - i - 1))
      else Some (0, 0, 0))"

definition r82xx_set_gain :: "int \<Rightarrow> int usb_m" where
  "r82xx_set_gain gain = do {
     gain_mode \<leftarrow> gets (r82_gain_mode \<circ> dev_r82p);
     if gain_mode \<noteq> 0 then do {
       data \<leftarrow> junk 4;
       (rc, data) \<leftarrow> r82xx_read 0x00 data;
       if rc < 0 then ret rc
       else do {
         s \<leftarrow> gets dev_r82s;
         case r82xx_gain_indices gain_mode s gain of
           None \<Rightarrow> do { fault; ret (-1) }
         | Some (lna_index, mix_index, vga_index) \<Rightarrow>
             steps [r82xx_write_reg_mask 0x0c (u8_of_nat vga_index) 0x9f,
                    r82xx_write_reg_mask 0x05 (u8_of_nat lna_index) 0x0f,
                    r82xx_write_reg_mask 0x07 (u8_of_nat mix_index) 0x0f] (ret 0) } }
     else ret 0 }"

definition r82xx_read_gain :: "int usb_m" where
  "r82xx_read_gain = do {
     data \<leftarrow> junk 4;
     (rc, data) \<leftarrow> r82xx_read 0x00 data;
     if rc < 0 then ret rc
     else ret (push_bit 1 (uint (data ! 3 AND 0x0f)) + drop_bit 4 (uint (data ! 3 AND 0xf0))) }"

text \<open>The argument is a \<open>uint8_t\<close>.\<close>

definition r82xx_enable_manual_gain :: "u8 \<Rightarrow> int usb_m" where
  "r82xx_enable_manual_gain gain_mode = do {
     let gain_mode = (if gain_mode > 3 then 3 else uint gain_mode);
     old \<leftarrow> gets (r82_gain_mode \<circ> dev_r82p);
     data \<leftarrow> junk 4;
     let finish = (if gain_mode = GAIN_MODE_MANUAL then ret 0 else ret gain_mode);
     if old \<noteq> gain_mode then do {
       (rc, data) \<leftarrow> r82xx_read 0x00 data;
       if rc < 0 then ret rc
       else
         steps (if gain_mode \<noteq> 0
                then [r82xx_write_reg_mask 0x05 0x10 0x10, r82xx_write_reg_mask 0x07 0 0x10]
                else [r82xx_write_reg_mask 0x05 0 0x10, r82xx_write_reg_mask 0x07 0x10 0x10,
                      r82xx_write_reg_mask 0x0c 0x0b 0x9f])
           (do {
              (rc, data) \<leftarrow> r82xx_read 0x00 data;
              if rc < 0 then ret rc
              else do {
                upd_r82p (\<lambda>p. p\<lparr>r82_gain_mode := gain_mode\<rparr>);
                r82xx_compute_gain_table;
                finish } }) }
     else finish }"

section \<open>Gain of one stage\<close>

text \<open>The first index with exactly the gain; \<open>-EINVAL\<close> is -22.\<close>

fun find_gain :: "int list \<Rightarrow> int \<Rightarrow> nat option" where
  "find_gain [] gain = None"
| "find_gain (g # gs) gain = (if g = gain then Some 0 else map_option Suc (find_gain gs gain))"

definition r82xx_set_stage :: "(r82xx_statics \<Rightarrow> int list) \<Rightarrow> u8 \<Rightarrow> u8 \<Rightarrow> int \<Rightarrow> int usb_m" where
  "r82xx_set_stage stage reg bits gain = do {
     gains \<leftarrow> gets (stage \<circ> dev_r82s);
     case find_gain gains gain of
       None \<Rightarrow> ret (-22)
     | Some index \<Rightarrow> do {
         data \<leftarrow> junk 4;
         (rc, data) \<leftarrow> r82xx_read 0x00 data;
         if rc < 0 then ret rc
         else steps [r82xx_write_reg_mask reg (u8_of_nat index) bits] (ret 0) } }"

definition r82xx_set_lna_gain :: "int \<Rightarrow> int usb_m" where
  "r82xx_set_lna_gain gain = r82xx_set_stage LNA_stage 0x05 0x0f gain"

definition r82xx_set_mixer_gain :: "int \<Rightarrow> int usb_m" where
  "r82xx_set_mixer_gain gain = r82xx_set_stage Mixer_stage 0x07 0x0f gain"

definition r82xx_set_VGA_gain :: "int \<Rightarrow> int usb_m" where
  "r82xx_set_VGA_gain gain = r82xx_set_stage IF_stage 0x0c 0x9f gain"

definition r82xx_set_tuner_stage_gain :: "u8 \<Rightarrow> int \<Rightarrow> int usb_m" where
  "r82xx_set_tuner_stage_gain stage gain =
     (if stage = 0 then r82xx_set_lna_gain gain
      else if stage = 1 then r82xx_set_mixer_gain gain
      else r82xx_set_VGA_gain gain)"

definition r82xx_get_tuner_gains :: "(int list \<times> nat) usb_m" where
  "r82xx_get_tuner_gains =
     gets (\<lambda>s. (r82_gain_table (dev_r82s s), r82_gain_table_len (dev_r82s s) * 4))"

text \<open>The stage's gains and description, or \<open>None\<close> (return value 0) for another stage.\<close>

definition r82xx_get_tuner_stage_gains :: "u8 \<Rightarrow> (int list \<times> string) option usb_m" where
  "r82xx_get_tuner_stage_gains stage =
     gets (\<lambda>s. if stage = 0 then Some (LNA_stage (dev_r82s s), ''LNA'')
               else if stage = 1 then Some (Mixer_stage (dev_r82s s), ''Mixer'')
               else if stage = 2 then Some (IF_stage (dev_r82s s), ''IF'')
               else None)"

section \<open>Bandwidth\<close>

definition r82xx_bandwidth_table :: "int list" where
  "r82xx_bandwidth_table =
     [300000, 400000, 550000, 700000, 1000000, 1200000, 1300000, 1600000, 2200000]"

definition r82xx_bandwidth_table_0xb :: "u8 list" where
  "r82xx_bandwidth_table_0xb = [0xe7, 0xe8, 0xe9, 0xea, 0xeb, 0xec, 0xed, 0xef, 0x51]"

definition r82xx_if_freq_table :: "nat list" where
  "r82xx_if_freq_table =
     [2150000, 2100000, 2050000, 1700000, 1550000, 1350000, 1300000, 1200000, 4700000]"

text \<open>The index whose midpoint with its successor is above the bandwidth.\<close>

fun r82xx_bw_index :: "int list \<Rightarrow> int \<Rightarrow> nat" where
  "r82xx_bw_index (b # b' # bs) bandwidth =
     (if bandwidth < (b' + b) sdiv 2 then 0 else Suc (r82xx_bw_index (b' # bs) bandwidth))"
| "r82xx_bw_index bs bandwidth = 0"

definition r82xx_set_bandwidth :: "int \<Rightarrow> nat \<Rightarrow> int usb_m" where
  "r82xx_set_bandwidth bandwidth rate = do {
     let i = r82xx_bw_index r82xx_bandwidth_table bandwidth;
     steps [r82xx_write 0x0a [0xef], r82xx_write 0x0b [r82xx_bandwidth_table_0xb ! i]]
       (do {
          let f = r82xx_if_freq_table ! i;
          let f = (if rate < 400000 then f - 240000 else f);
          upd_r82p (\<lambda>p. p\<lparr>r82_int_freq := f\<rparr>);
          ret (int f) }) }"

definition r82xx_get_tuner_bandwidths :: "int list \<times> nat" where
  "r82xx_get_tuner_bandwidths = (r82xx_bandwidth_table, 9 * 4)"

section \<open>Initialisation\<close>

text \<open>The result of the first register write is overwritten, so a failure of it is ignored.\<close>

definition r82xx_init :: "int usb_m" where
  "r82xx_init = do {
     upd_r82p (\<lambda>p. p\<lparr>r82_xtal_cap_sel := XTAL_HIGH_CAP_0P\<rparr>);
     _ \<leftarrow> r82xx_write 0x05 r82xx_init_array;
     steps [r82xx_set_tv_standard 3 TUNER_DIGITAL_TV 0]
       (do {
          rc \<leftarrow> r82xx_sysfreq_sel 0 TUNER_DIGITAL_TV SYS_DVBT;
          r82xx_calculate_stage_gains;
          r82xx_compute_gain_table;
          upd_r82p (\<lambda>p. p\<lparr>r82_init_done := True\<rparr>);
          ret rc }) }"

end
