(* ===== verification/R82xxRules.thy ===== *)
theory R82xxRules
  imports R82xxGain
begin

text \<open>
  The interface between the drivers' register access and everything built on it: a step
  relation that register writes and reads, and updates of the tuner state that leave the shadow
  registers and the gain mode alone, satisfy. Every operation of the R820T driver on an
  initialised tuner then satisfies it. Interpreted for the bus traffic here, for the coherence of
  the shadow registers in \<open>R82xxShadow\<close> and for the gain tables in \<open>R82xxGains\<close>.
\<close>

locale r82_rel = step_rel R for R :: "rtlsdr_dev \<Rightarrow> rtlsdr_dev \<Rightarrow> bool" +
  assumes rel_write: "5 \<le> unat reg \<Longrightarrow> unat reg + length val \<le> 35 \<Longrightarrow>
      state_io_rel R (r82xx_write reg val)"
    and rel_read: "state_io_rel R (r82xx_read reg old)"
    and rel_upd: "(\<And>p. r82_regs (f p) = r82_regs p \<and> r82_gain_mode (f p) = r82_gain_mode p) \<Longrightarrow>
      state_io_rel R (upd_r82p f)"
    and rel_ub: "state_io_rel R fault"
begin

lemma rel_junk_bytes: "rel (junk n)"
  by (simp add: junk_def rel_gets)

lemma rel_write_reg: "5 \<le> unat reg \<Longrightarrow> unat reg \<le> 34 \<Longrightarrow> rel (r82xx_write_reg reg v)"
  unfolding r82xx_write_reg_def by (rule rel_write) simp_all

lemma rel_write_reg_mask: "rel (r82xx_write_reg_mask reg v m)"
proof (cases "5 \<le> unat reg \<and> unat reg < 35")
  case True
  then have "rel (r82xx_write reg [w])" for w by (intro rel_write) simp_all
  then show ?thesis
    unfolding r82xx_write_reg_mask_def r82xx_read_cache_reg_def by (intro rel_rules) auto
next
  case False
  moreover have "uint reg = int (unat reg)" by simp
  ultimately have "\<not> (0 \<le> uint reg - 5 \<and> uint reg - 5 < 30)" by presburger
  then show ?thesis
    by (auto simp: r82xx_write_reg_mask_def r82xx_read_cache_reg_def REG_SHADOW_START_def
        NUM_REGS_def Let_def state_io_rel_def R_refl)
qed

lemmas prim = rel_junk_bytes rel_write_reg rel_write_reg_mask rel_read rel_upd rel_ub

lemma rel_set_mux: "rel (r82xx_set_mux f)"
  unfolding r82xx_set_mux_def by (intro rel_rules prim) (auto intro!: prim)

lemma rel_locked: "rel (r82xx_locked b)"
  unfolding r82xx_locked_def by (intro rel_rules prim) simp

lemma rel_lock: "rel (r82xx_lock d)"
  unfolding r82xx_lock_def by (intro rel_rules prim rel_locked) (auto intro!: prim rel_locked)

lemma rel_set_sdm: "rel (r82xx_set_sdm k v d)"
  unfolding r82xx_set_sdm_def by (intro rel_rules prim rel_lock) (auto intro!: prim)

lemma rel_set_pll: "rel (r82xx_set_pll f)"
  unfolding r82xx_set_pll_def by (intro rel_rules prim rel_set_sdm) (auto intro!: prim)

lemma rel_set_freq: "rel (r82xx_set_freq f)"
  unfolding r82xx_set_freq_def
  by (intro rel_rules prim rel_set_pll) (auto intro!: prim rel_set_mux)

lemma rel_sysfreq_lna: "m \<in> set (r82xx_sysfreq_lna q t) \<Longrightarrow> rel m"
  by (auto simp: r82xx_sysfreq_lna_def intro!: prim split: if_splits)

lemma rel_sysfreq_sel: "rel (r82xx_sysfreq_sel f t d)"
  unfolding r82xx_sysfreq_sel_def
  by (intro rel_rules prim) (auto intro!: prim elim: rel_sysfreq_lna split: if_splits)

lemma rel_filter_cal: "rel k \<Longrightarrow> rel (r82xx_filter_cal n q d k)"
proof (induction n arbitrary: d)
  case (Suc n)
  then show ?case unfolding r82xx_filter_cal.simps
    by (intro rel_rules prim rel_set_pll Suc) (auto intro!: prim)
qed simp

lemma rel_tv_standard_regs:
  "rel (steps ([r82xx_write_reg_mask 0x0c 0x00 0x0f, r82xx_write_reg_mask 0x13 VER_NUM 0x3f] @
        (if type \<noteq> TUNER_ANALOG_TV then [r82xx_write_reg_mask 0x1d 0x00 0x38] else []))
       (do {
          upd_r82p (\<lambda>p. p\<lparr>r82_int_freq := if_khz q * 1000\<rparr>);
          r82xx_filter_cal 2 q data
            (do {
               upd_r82p (\<lambda>p. p\<lparr>r82_fil_cal_code :=
                 if r82_fil_cal_code p = 0x0f then 0 else r82_fil_cal_code p\<rparr>);
               code \<leftarrow> gets (r82_fil_cal_code \<circ> dev_r82p);
               steps (r82xx_std_regs q code)
                 (do {
                    upd_r82p (\<lambda>p. p\<lparr>r82_delsys := delsys, r82_type := type, r82_bw := bw\<rparr>);
                    ret 0 }) }) }))"
  by (intro rel_rules rel_filter_cal prim)
    (auto intro!: prim simp: r82xx_std_regs_def split: if_splits)

lemma rel_standby: "rel r82xx_standby"
  unfolding r82xx_standby_def by (intro rel_rules prim) (auto intro!: prim)

lemma rel_set_gain: "rel (r82xx_set_gain g)"
  unfolding r82xx_set_gain_def by (intro rel_rules prim) (auto intro!: prim)

lemma rel_read_gain: "rel r82xx_read_gain"
  unfolding r82xx_read_gain_def by (intro rel_rules prim)

lemma rel_set_stage: "rel (r82xx_set_stage st r m g)"
  unfolding r82xx_set_stage_def by (intro rel_rules prim) (auto intro!: prim)

lemma rel_set_tuner_stage_gain: "rel (r82xx_set_tuner_stage_gain st g)"
  unfolding r82xx_set_tuner_stage_gain_def r82xx_set_lna_gain_def r82xx_set_mixer_gain_def
    r82xx_set_VGA_gain_def
  by (intro rel_rules rel_set_stage)

lemma rel_set_bandwidth: "rel (r82xx_set_bandwidth b r)"
  unfolding r82xx_set_bandwidth_def
  by (intro rel_rules prim) (auto intro!: rel_write)

text \<open>Changing the gain mode: the updates of the mode and of the tables belong together.\<close>

lemma rel_enable_manual_gain:
  assumes "\<And>m. m \<in> {0, 1, 2, 3} \<Longrightarrow>
    rel (do { upd_r82p (\<lambda>p. p\<lparr>r82_gain_mode := m\<rparr>); r82xx_compute_gain_table })"
  shows "rel (r82xx_enable_manual_gain g)"
proof -
  have g: "(if g > 3 then 3 else uint g) \<in> {0, 1, 2, 3}"
  proof -
    have "uint g \<le> 3 \<Longrightarrow> uint g = 0 \<or> uint g = 1 \<or> uint g = 2 \<or> uint g = 3"
      using uint_ge_0 [of g] by linarith
    then show ?thesis by (auto simp: word_less_def)
  qed
  have b: "rel (do { upd_r82p (\<lambda>p. p\<lparr>r82_gain_mode := (if g > 3 then 3 else uint g)\<rparr>);
      r82xx_compute_gain_table; k })" if "rel k" for k :: "int usb_m"
    using rel_bind [OF assms [OF g], of "\<lambda>_. k"] that by (simp add: State_Monad.bind_assoc)
  show ?thesis
    unfolding r82xx_enable_manual_gain_def Let_def
    by (intro rel_bind rel_gets prim rel_if rel_ret rel_case_prod rel_steps b)
      (auto intro!: prim split: if_splits)
qed

end

section \<open>Bus traffic\<close>

text \<open>The driver makes I2C transfers only and keeps to its own part of the state.\<close>

lemma rel_r82xx_chunks: "bus.rel any_i2c (r82xx_chunks m a r v)"
proof (induction m a r v rule: r82xx_chunks.induct)
  case (1 m a r v)
  show ?case unfolding r82xx_chunks.simps [of m a r v]
    by (intro bus.rel_rules rel_i2c_write_fn) (use 1 in \<open>auto intro: any_i2cI\<close>)
qed

lemma rel_upd_r82p: "bus.rel ok (upd_r82p f)"
  unfolding upd_r82p_def by (rule rel_modify_r82p)

lemma rel_r82xx_write: "bus.rel any_i2c (r82xx_write r v)"
  unfolding r82xx_write_def
  by (intro bus.rel_rules rel_r82xx_chunks rel_upd_r82p rel_fault)

interpretation r82_bus: r82_rel "bus_rel any_i2c"
proof unfold_locales
  show "bus.rel any_i2c (r82xx_write reg val)" for reg val by (rule rel_r82xx_write)
  show "bus.rel any_i2c (r82xx_read reg old)" for reg old
    unfolding r82xx_read_def
    by (intro bus.rel_rules rel_i2c_write_fn rel_i2c_read_fn) (auto intro: any_i2cI)
  show "bus.rel any_i2c (upd_r82p f)" for f by (rule rel_upd_r82p)
  show "bus.rel any_i2c fault" by (rule rel_fault)
qed

lemma rel_compute_gain_table: "bus.rel ok r82xx_compute_gain_table"
  unfolding r82xx_compute_gain_table_def by (intro bus.rel_rules rel_modify_r82s)

lemma rel_r82xx_enable_manual_gain: "bus.rel any_i2c (r82xx_enable_manual_gain g)"
  by (intro r82_bus.rel_enable_manual_gain bus.rel_rules rel_compute_gain_table rel_upd_r82p)

lemma rel_r82xx_init: "bus.rel any_i2c r82xx_init"
proof -
  have "bus.rel any_i2c (r82xx_set_tv_standard b t d)" for b t d
    unfolding r82xx_set_tv_standard_def Let_def
    by (intro bus.rel_bind rel_junk rel_upd_r82p r82_bus.rel_tv_standard_regs)
  then show ?thesis
    unfolding r82xx_init_def r82xx_calculate_stage_gains_def
    by (intro bus.rel_rules rel_upd_r82p rel_r82xx_write r82_bus.rel_sysfreq_sel
        rel_compute_gain_table rel_modify_r82s) auto
qed

end
