(* ===== verification/R82xxShadow.thy ===== *)
theory R82xxShadow
  imports R82xxRules
begin

text \<open>
  The shadow registers of the R820T driver agree with the chip: established by
  \<open>r82xx_init\<close> and kept by every operation the receiver calls, on a bus that completes its
  transfers. Masked writes are therefore read-modify-write operations on the chip itself.
\<close>

section \<open>Chunked writes\<close>

text \<open>The chip's registers after a write of consecutive values.\<close>

definition reg_write :: "u8 \<Rightarrow> u8 list \<Rightarrow> (u8 \<Rightarrow> u8 option) \<Rightarrow> u8 \<Rightarrow> u8 option" where
  "reg_write reg val f r =
     (if unat (r - reg) < length val then Some (val ! unat (r - reg)) else f r)"

lemma run_write_fn_acked:
  assumes "usb_acks (dev_usb s)"
  shows "run_state (rtlsdr_i2c_write_fn a d) s =
    (int (length d), s\<lparr>dev_xfers := CtrlOut (ucast a) iic_out d (int (length d)) # dev_xfers s\<rparr>)"
proof -
  have i: "(push_bit 8 (ucast IICB) OR 0x10 :: u16) = iic_out"
    by (simp add: IICB_def iic_out_def)
  show ?thesis
    using assms
    by (simp add: rtlsdr_i2c_write_fn_def rtlsdr_write_array_def run_ctrl_out i usb_acks_def)
qed

lemma chip_reg_message:
  "chip_reg a (CtrlOut (ucast a) iic_out (reg # val) (1 + int (length val)) # xs) =
     reg_write reg val (chip_reg a xs)"
  by (auto simp: reg_write_def fun_eq_iff)

lemma unat_diff_of_nat:
  fixes d :: u8
  assumes "n \<le> 255"
  shows "unat (d - of_nat n) = (if n \<le> unat d then unat d - n else unat d + 256 - n)"
  using assms by (simp add: unat_sub_if' unat_of_nat)

lemma reg_write_append:
  assumes "length v + length w \<le> 256" and "length v \<le> 255"
  shows "reg_write (reg + of_nat (length v)) w (reg_write reg v f) = reg_write reg (v @ w) f"
proof
  fix r :: u8
  define d where "d = r - reg"
  have e: "r - (reg + of_nat (length v)) = d - of_nat (length v)" by (simp add: d_def)
  show "reg_write (reg + of_nat (length v)) w (reg_write reg v f) r = reg_write reg (v @ w) f r"
    unfolding reg_write_def e d_def [symmetric] unat_diff_of_nat [OF assms(2)]
    using assms(1) by (auto simp: nth_append)
qed

lemma run_chunks_acked:
  assumes "usb_acks (dev_usb s)" and "0 < m" and "length val \<le> 255"
  shows "\<exists>s'. run_state (r82xx_chunks m a reg val) s = (0, s') \<and>
    s' = s\<lparr>dev_xfers := dev_xfers s'\<rparr> \<and>
    chip_reg a (dev_xfers s') = reg_write reg val (chip_reg a (dev_xfers s))"
  using assms
proof (induction m a reg val arbitrary: s rule: r82xx_chunks.induct)
  case (1 m a reg val)
  define size where "size = min (length val) m"
  define s1 where "s1 = s\<lparr>dev_xfers := CtrlOut (ucast a) iic_out (reg # take size val)
    (1 + int (length (take size val))) # dev_xfers s\<rparr>"
  have run: "run_state (rtlsdr_i2c_write_fn a (reg # take size val)) s = (int (size + 1), s1)"
    by (simp add: run_write_fn_acked "1.prems" s1_def) (simp add: size_def)
  have c1: "chip_reg a (dev_xfers s1) = reg_write reg (take size val) (chip_reg a (dev_xfers s))"
  proof -
    have "dev_xfers s1 = CtrlOut (ucast a) iic_out (reg # take size val)
      (1 + int (length (take size val))) # dev_xfers s"
      by (simp add: s1_def del: length_take)
    then show ?thesis by (simp only: chip_reg_message)
  qed
  show ?case
  proof (cases "drop size val = []")
    case True
    then have tv: "take size val = val" by (metis append_take_drop_id append_Nil2)
    have "run_state (r82xx_chunks m a reg val) s = (0, s1)"
      using True run by (simp add: r82xx_chunks.simps [of m a reg val] tv flip: size_def)
    with tv show ?thesis using c1 by (auto simp: s1_def)
  next
    case False
    have a1: "usb_acks (dev_usb s1)" using "1.prems"(1) by (simp add: s1_def)
    obtain s' where s': "run_state (r82xx_chunks m a (reg + of_nat size) (drop size val)) s1 = (0, s')"
      "s' = s1\<lparr>dev_xfers := dev_xfers s'\<rparr>"
      "chip_reg a (dev_xfers s') =
         reg_write (reg + of_nat size) (drop size val) (chip_reg a (dev_xfers s1))"
    proof -
      have l: "length (drop size val) \<le> 255" using "1.prems"(3) by simp
      have "\<not> int (size + 1) \<noteq> int (size + 1)" "\<not> (drop size val = [] \<or> m = 0)"
        using False "1.prems"(2) by simp_all
      from "1.IH" [OF size_def this a1 "1.prems"(2) l] that show thesis by blast
    qed
    have "run_state (r82xx_chunks m a reg val) s = (0, s')"
      using s'(1) False "1.prems"(2)
      by (simp add: r82xx_chunks.simps [of m a reg val] run flip: size_def)
    moreover have "chip_reg a (dev_xfers s') = reg_write reg val (chip_reg a (dev_xfers s))"
    proof -
      have sz: "length (take size val) = size" "size \<le> length val" by (simp_all add: size_def)
      then have "length (take size val) + length (drop size val) \<le> 256" "length (take size val) \<le> 255"
        using "1.prems"(3) by (simp_all del: length_take)
      from reg_write_append [OF this] show ?thesis unfolding s'(3) c1 sz(1) by simp
    qed
    moreover have "s' = s\<lparr>dev_xfers := dev_xfers s'\<rparr>"
      by (subst s'(2)) (simp add: s1_def)
    ultimately show ?thesis by blast
  qed
qed

section \<open>Coherence\<close>

text \<open>Every shadow register holds what was last written to its register of the chip.\<close>

definition shadow_ok :: "rtlsdr_dev \<Rightarrow> bool" where
  "shadow_ok s \<longleftrightarrow> length (r82_regs (dev_r82p s)) = 30 \<and>
     (\<forall>k<30. chip_reg (cfg_i2c_addr (dev_r82c s)) (dev_xfers s) (5 + of_nat k) =
        Some (r82_regs (dev_r82p s) ! k))"

text \<open>A bus that completes its transfers, with messages that carry at least one value.\<close>

definition r82_bus :: "rtlsdr_dev \<Rightarrow> bool" where
  "r82_bus s \<longleftrightarrow> usb_acks (dev_usb s) \<and> 2 \<le> cfg_max_i2c_msg_len (dev_r82c s) \<and>
     cfg_max_i2c_msg_len (dev_r82c s) \<le> 4294967295"

definition coherent :: "rtlsdr_dev \<Rightarrow> bool" where
  "coherent s \<longleftrightarrow> r82_bus s \<and> shadow_ok s"

lemma shadow_store_in_range:
  assumes "5 \<le> unat reg" and "unat reg + length val \<le> 35" and "length regs = 30"
  shows "shadow_store regs reg val =
    take (unat reg - 5) regs @ val @ drop (unat reg - 5 + length val) regs"
proof -
  define n where "n = unat reg"
  have u: "uint reg = int n" by (simp add: n_def)
  have n: "nat (int n - 5) = n - 5" "nat (int (length val)) = length val" "5 \<le> n"
    "n + length val \<le> 35"
    using assms by (simp_all add: n_def nat_diff_distrib')
  then have "\<not> int n - 5 < 0" "\<not> int (length val) > int 30 - (int n - 5)" by simp_all
  then show ?thesis
    using n assms(3) unfolding shadow_store_def REG_SHADOW_START_def NUM_REGS_def Let_def u
      n_def [symmetric] by (auto simp: take_all)
qed

lemma run_r82xx_write:
  assumes b: "r82_bus s" and r: "unat reg + length val \<le> 35"
  shows "\<exists>s'. run_state (r82xx_write reg val) s = (0, s') \<and> r82_bus s' \<and>
    dev_r82c s' = dev_r82c s \<and> dev_ub s' = dev_ub s \<and>
    r82_regs (dev_r82p s') = shadow_store (r82_regs (dev_r82p s)) reg val \<and>
    chip_reg (cfg_i2c_addr (dev_r82c s)) (dev_xfers s') =
      reg_write reg val (chip_reg (cfg_i2c_addr (dev_r82c s)) (dev_xfers s))"
proof -
  define s1 where "s1 = s\<lparr>dev_r82p := (dev_r82p s)
    \<lparr>r82_regs := shadow_store (r82_regs (dev_r82p s)) reg val\<rparr>\<rparr>"
  define m where "m = u32_of_int (int (cfg_max_i2c_msg_len (dev_r82c s)) - 1)"
  have "m = cfg_max_i2c_msg_len (dev_r82c s) - 1"
    using b by (simp add: m_def u32_of_int_def r82_bus_def nat_diff_distrib')
  then have m: "0 < m" using b by (simp add: r82_bus_def)
  have a1: "usb_acks (dev_usb s1)" using b by (simp add: r82_bus_def s1_def)
  obtain s' where s': "run_state (r82xx_chunks m (cfg_i2c_addr (dev_r82c s)) reg val) s1 = (0, s')"
    "s' = s1\<lparr>dev_xfers := dev_xfers s'\<rparr>"
    "chip_reg (cfg_i2c_addr (dev_r82c s)) (dev_xfers s') =
       reg_write reg val (chip_reg (cfg_i2c_addr (dev_r82c s)) (dev_xfers s1))"
    using run_chunks_acked [OF a1 m, of val] r by auto
  have "run_state (r82xx_write reg val) s = (0, s')"
    using r m s'(1)
    by (simp add: r82xx_write_def upd_r82p_def Let_def flip: s1_def m_def)
      (simp add: s1_def m_def)
  moreover have "r82_bus s'" "dev_r82c s' = dev_r82c s" "dev_ub s' = dev_ub s"
    "r82_regs (dev_r82p s') = shadow_store (r82_regs (dev_r82p s)) reg val"
    using b by (subst s'(2), simp add: s1_def r82_bus_def)+
  ultimately show ?thesis using s'(3) by (auto simp: s1_def)
qed

lemma unat_shadow_index:
  fixes reg :: u8
  assumes "k < 30" and "5 \<le> unat reg" and "unat reg \<le> 35"
  shows "unat (5 + of_nat k - reg) = (if unat reg \<le> k + 5 then k + 5 - unat reg else 261 + k - unat reg)"
proof -
  have "(5 + of_nat k :: u8) = of_nat (5 + k)" by simp
  moreover have "unat (of_nat (5 + k) :: u8) = 5 + k" using assms(1) by (simp add: unat_of_nat del: of_nat_add)
  ultimately have "unat (5 + of_nat k :: u8) = 5 + k" by metis
  then show ?thesis using assms by (simp add: unat_sub_if' add.commute)
qed

lemma run_write_coherent:
  assumes c: "coherent s" and r: "5 \<le> unat reg" "unat reg + length val \<le> 35"
  shows "\<exists>s'. run_state (r82xx_write reg val) s = (0, s') \<and> coherent s' \<and>
    dev_r82c s' = dev_r82c s \<and> dev_ub s' = dev_ub s \<and>
    r82_regs (dev_r82p s') = take (unat reg - 5) (r82_regs (dev_r82p s)) @ val @
      drop (unat reg - 5 + length val) (r82_regs (dev_r82p s))"
proof -
  have b: "r82_bus s" and l: "length (r82_regs (dev_r82p s)) = 30"
    and k: "\<And>k. k < 30 \<Longrightarrow> chip_reg (cfg_i2c_addr (dev_r82c s)) (dev_xfers s) (5 + of_nat k) =
      Some (r82_regs (dev_r82p s) ! k)"
    using c by (simp_all add: coherent_def shadow_ok_def)
  obtain s' where s': "run_state (r82xx_write reg val) s = (0, s')" "r82_bus s'"
    "dev_r82c s' = dev_r82c s"
    "r82_regs (dev_r82p s') = shadow_store (r82_regs (dev_r82p s)) reg val"
    "chip_reg (cfg_i2c_addr (dev_r82c s)) (dev_xfers s') =
      reg_write reg val (chip_reg (cfg_i2c_addr (dev_r82c s)) (dev_xfers s))"
    "dev_ub s' = dev_ub s"
    using run_r82xx_write [OF b r(2)] by blast
  have "shadow_ok s'"
    unfolding shadow_ok_def s'(3,4,5) shadow_store_in_range [OF r l]
    using r l by (auto simp: reg_write_def unat_shadow_index k nth_append)
  with s' show ?thesis by (auto simp: coherent_def shadow_store_in_range [OF r l])
qed

lemma keeps_read: "keeps coherent (r82xx_read reg old)"
  by (auto simp: keeps_def valid_def r82xx_read_def coherent_def shadow_ok_def r82_bus_def
      run_write_fn_acked rtlsdr_i2c_read_fn_def rtlsdr_read_array_def ctrl_in_def Let_def
      split: prod.splits if_splits)

lemma keeps_upd_r82p:
  "(\<And>p. r82_regs (f p) = r82_regs p) \<Longrightarrow> keeps coherent (upd_r82p f)"
  by (simp add: keeps_def valid_def upd_r82p_def coherent_def shadow_ok_def r82_bus_def)

lemma keeps_r82s: "keeps coherent (modify (\<lambda>s. s\<lparr>dev_r82s := f s\<rparr>))"
  by (simp add: keeps_def valid_def coherent_def shadow_ok_def r82_bus_def)

interpretation co: r82_rel "imp_rel coherent"
  rewrites "state_io_rel (imp_rel coherent) \<equiv> keeps coherent"
proof -
  show "r82_rel (imp_rel coherent)"
  proof (unfold_locales, unfold keeps_iff [symmetric])
    show "keeps coherent (r82xx_write reg val)" if "5 \<le> unat reg" "unat reg + length val \<le> 35"
      for reg val
      using run_write_coherent [OF _ that] by (fastforce simp: keeps_def valid_def)
    show "keeps coherent (r82xx_read reg old)" for reg old by (rule keeps_read)
    show "keeps coherent (upd_r82p f)"
      if "\<And>p. r82_regs (f p) = r82_regs p \<and> r82_gain_mode (f p) = r82_gain_mode p" for f
      using that by (simp add: keeps_upd_r82p)
    show "keeps coherent fault"
      by (simp add: keeps_def valid_def coherent_def shadow_ok_def r82_bus_def)
  qed
  show "state_io_rel (imp_rel coherent) \<equiv> keeps coherent"
    by (rule eq_reflection) (simp add: fun_eq_iff keeps_iff)
qed

lemma keeps_stage_gains: "keeps coherent r82xx_calculate_stage_gains"
  unfolding r82xx_calculate_stage_gains_def by (rule keeps_r82s)

lemma keeps_compute_gain_table: "keeps coherent r82xx_compute_gain_table"
  unfolding r82xx_compute_gain_table_def by (intro keeps_rules keeps_r82s)

lemma keeps_enable_manual_gain: "keeps coherent (r82xx_enable_manual_gain g)"
  by (intro co.rel_enable_manual_gain keeps_rules keeps_upd_r82p keeps_compute_gain_table) simp

section \<open>Initialisation\<close>

text \<open>
  The registers are written first; copying the initial values into the shadow a second time
  in \<open>r82xx_set_tv_standard\<close> then changes nothing.
\<close>

lemma run_init_write:
  assumes b: "r82_bus s" and l: "length (r82_regs (dev_r82p s)) = 30"
  shows "\<exists>s'. run_state (r82xx_write 0x05 r82xx_init_array) s = (0, s') \<and> coherent s' \<and>
    r82_regs (dev_r82p s') = r82xx_init_array \<and> dev_r82c s' = dev_r82c s \<and> dev_ub s' = dev_ub s"
proof -
  have n: "length r82xx_init_array = 30" by (simp add: r82xx_init_array_def)
  obtain s' where s': "run_state (r82xx_write 0x05 r82xx_init_array) s = (0, s')" "r82_bus s'"
    "dev_r82c s' = dev_r82c s"
    "r82_regs (dev_r82p s') = shadow_store (r82_regs (dev_r82p s)) 0x05 r82xx_init_array"
    "chip_reg (cfg_i2c_addr (dev_r82c s)) (dev_xfers s') =
      reg_write 0x05 r82xx_init_array (chip_reg (cfg_i2c_addr (dev_r82c s)) (dev_xfers s))"
    "dev_ub s' = dev_ub s"
    using run_r82xx_write [OF b, of "0x05" r82xx_init_array] n by auto
  have r: "r82_regs (dev_r82p s') = r82xx_init_array"
    unfolding s'(4) using n l by (simp add: shadow_store_in_range)
  have "shadow_ok s'"
    unfolding shadow_ok_def r s'(3,5)
    using unat_shadow_index [where reg = 5] n by (simp add: reg_write_def)
  with s' r show ?thesis by (auto simp: coherent_def)
qed

lemma valid_tv_standard:
  "valid (\<lambda>s. coherent s \<and> r82_regs (dev_r82p s) = r82xx_init_array)
     (r82xx_set_tv_standard bw type delsys) (\<lambda>_. coherent)"
proof -
  have c: "coherent (s\<lparr>dev_r82p := (dev_r82p s)\<lparr>r82_regs := r82xx_init_array\<rparr>\<rparr>)"
    if "coherent s" "r82_regs (dev_r82p s) = r82xx_init_array" for s
    using that by (simp add: coherent_def shadow_ok_def r82_bus_def)
  note co.rel_tv_standard_regs
  then show ?thesis
    unfolding r82xx_set_tv_standard_def Let_def keeps_def
    by (intro valid_bind [where R = "\<lambda>_ s. coherent s \<and> r82_regs (dev_r82p s) = r82xx_init_array"]
        valid_bind [where R = "\<lambda>_. coherent"])
      (auto simp: junk_def valid_def upd_r82p_def c)
qed

lemma valid_r82xx_init:
  "valid (\<lambda>s. r82_bus s \<and> length (r82_regs (dev_r82p s)) = 30) r82xx_init (\<lambda>_. coherent)"
proof -
  have w: "valid (\<lambda>s. r82_bus s \<and> length (r82_regs (dev_r82p s)) = 30) (r82xx_write 0x05 r82xx_init_array)
      (\<lambda>_ s. coherent s \<and> r82_regs (dev_r82p s) = r82xx_init_array)"
    using run_init_write by (fastforce simp: valid_def)
  have k: "keeps coherent (do {
          rc \<leftarrow> r82xx_sysfreq_sel 0 TUNER_DIGITAL_TV SYS_DVBT;
          r82xx_calculate_stage_gains;
          r82xx_compute_gain_table;
          upd_r82p (\<lambda>p. p\<lparr>r82_init_done := True\<rparr>);
          ret rc })"
    by (intro keeps_rules co.rel_sysfreq_sel keeps_stage_gains keeps_compute_gain_table
        keeps_upd_r82p) simp
  have u: "valid (\<lambda>s. r82_bus s \<and> length (r82_regs (dev_r82p s)) = 30)
      (upd_r82p (\<lambda>p. p\<lparr>r82_xtal_cap_sel := XTAL_HIGH_CAP_0P\<rparr>))
      (\<lambda>_ s. r82_bus s \<and> length (r82_regs (dev_r82p s)) = 30)"
    by (simp add: valid_def upd_r82p_def r82_bus_def)
  show ?thesis
    unfolding r82xx_init_def steps.simps
    by (intro valid_bind [OF u] valid_bind [OF w] valid_bind [OF valid_tv_standard]
        valid_if valid_ret) (use k in \<open>auto simp: keeps_def\<close>)
qed

section \<open>Driver sessions\<close>

text \<open>The operations the receiver calls on an initialised tuner.\<close>

datatype r82_op = SetFreq nat | SetGain int | GainMode u8 | StageGain u8 int
  | Bandwidth int nat | Standby

fun r82_call :: "r82_op \<Rightarrow> int usb_m" where
  "r82_call (SetFreq f) = r82xx_set_freq f"
| "r82_call (SetGain g) = r82xx_set_gain g"
| "r82_call (GainMode m) = r82xx_enable_manual_gain m"
| "r82_call (StageGain st g) = r82xx_set_tuner_stage_gain st g"
| "r82_call (Bandwidth b r) = r82xx_set_bandwidth b r"
| "r82_call Standby = r82xx_standby"

lemma keeps_r82_call: "keeps coherent (r82_call c)"
  by (cases c)
    (simp_all add: co.rel_set_freq co.rel_set_gain keeps_enable_manual_gain
       co.rel_set_tuner_stage_gain co.rel_set_bandwidth co.rel_standby)

text \<open>
  C4. After \<open>r82xx_init\<close> on a bus that completes its transfers, and after any sequence of
  calls of the driver, whatever they return, each of the thirty shadow registers holds the value
  that was last written to its register of the chip, however the writes were split into messages.
\<close>

theorem r82xx_shadow_coherent:
  assumes "usb_acks (dev_usb s)" and "2 \<le> cfg_max_i2c_msg_len (dev_r82c s)"
    and "cfg_max_i2c_msg_len (dev_r82c s) \<le> 4294967295"
    and "length (r82_regs (dev_r82p s)) = 30"
    and run: "run_state (do { _ \<leftarrow> r82xx_init; seqs (map r82_call calls) }) s = ((), s')"
  shows "shadow_ok s'"
proof -
  have "keeps coherent (seqs (map r82_call calls))"
    by (intro keeps_rules) (auto simp: keeps_r82_call)
  then have "valid (\<lambda>s. r82_bus s \<and> length (r82_regs (dev_r82p s)) = 30)
      (do { _ \<leftarrow> r82xx_init; seqs (map r82_call calls) }) (\<lambda>_. coherent)"
    by (intro valid_bind [OF valid_r82xx_init]) (simp add: keeps_def)
  from validD [OF this _ run] show ?thesis
    using assms(1-4) by (simp add: r82_bus_def coherent_def)
qed

theorem r82xx_shadow_coherent_witness:
  "shadow_ok (snd (run_state (do { _ \<leftarrow> r82xx_init; seqs (map r82_call [SetFreq 162000000]) })
     example_dev))"
  by (rule r82xx_shadow_coherent [OF _ _ _ _ run_unit]) simp_all

end
