(* ===== verification/R82xxPll.thy ===== *)
theory R82xxPll
  imports R82xxShadow
begin

text \<open>
  The PLL of the R820T: the successive approximation of the fraction never divides by zero
  exactly for the crystals that round to less than 32768 kHz, and with the 28.8 MHz crystal the registers left in the chip
  represent the wanted VCO frequency to 5 kHz over the whole tuning range.
\<close>

section \<open>The sigma-delta word\<close>

lemma r82xx_sdm_defined:
  assumes "ref < 32768" and "k \<le> 14"
  shows "r82xx_sdm ref (2 ^ Suc k) sdm v \<noteq> None"
  using assms(2)
proof (induction "14 - k" arbitrary: k sdm v)
  case 0
  then have k: "(2 :: nat) ^ Suc k = 32768" by simp
  have "u32 (2 * ref) div 32768 \<le> 1" using assms(1) by (simp add: u32_def)
  then show ?case unfolding k by (subst r82xx_sdm.simps) (simp add: Let_def)
next
  case (Suc x)
  then have "k \<le> 13" by simp
  then have "(2 :: nat) ^ Suc (Suc k) \<le> 2 ^ 15" by (intro power_increasing) simp_all
  then have m: "2 * 2 ^ Suc k mod 65536 = (2 :: nat) ^ Suc (Suc k)" by simp
  have ih: "r82xx_sdm ref (2 ^ Suc (Suc k)) s w \<noteq> None" for s w
    using Suc(1) [of "Suc k"] Suc(2) \<open>k \<le> 13\<close> by simp
  have n: "(2 :: nat) ^ Suc k \<noteq> 0" by simp
  show ?case
    by (subst r82xx_sdm.simps) (use ih n m in \<open>simp only: Let_def m split: if_splits\<close>, simp)
qed

text \<open>
  One stage of the approximation with the 28.8 MHz crystal, for \<open>n_sdm = 65536 / w\<close>: from
  bounds for the rest of the loop to bounds for the loop from here.
\<close>

definition sdm_acc :: "nat \<Rightarrow> nat \<Rightarrow> int \<Rightarrow> int \<Rightarrow> bool" where
  "sdm_acc n B L U \<longleftrightarrow> (\<forall>sdm v. v \<le> B \<longrightarrow> sdm + 2 * (65536 div n) \<le> 65536 \<longrightarrow>
     (\<exists>e. r82xx_sdm 28800 n sdm v = Some (sdm + e) \<and> e < 2 * (65536 div n) \<and>
        - L \<le> 65536 * int v - 57600 * int e \<and> 65536 * int v - 57600 * int e \<le> U))"

lemma sdm_acc_last: "sdm_acc 32768 5 0 212480"
  unfolding sdm_acc_def
proof (intro allI impI)
  fix sdm v :: nat
  assume v: "v \<le> 5" and s: "sdm + 2 * (65536 div 32768) \<le> 65536"
  then have "r82xx_sdm 28800 32768 sdm v = Some (sdm + (if v \<le> 1 then 0 else 2))"
    by (subst r82xx_sdm.simps) (simp add: Let_def)
  then show "\<exists>e. r82xx_sdm 28800 32768 sdm v = Some (sdm + e) \<and> e < 2 * (65536 div 32768) \<and>
        - 0 \<le> 65536 * int v - 57600 * int e \<and> 65536 * int v - 57600 * int e \<le> 212480"
    using v by (intro exI [of _ "if v \<le> 1 then 0 else 2"]) auto
qed

lemma sdm_acc_step:
  assumes acc: "sdm_acc (2 * n) B' L' U" and n: "0 < n" "n < 32768" "65536 div n = 2 * w"
    "32768 div (n div 2) = 2 * w" "65536 div (2 * n) = w" "0 < w"
    and q: "57600 div n = q" "q \<le> B'" "B \<le> B' + q"
    and L: "0 \<le> L'" "L' + 57600 * (2 * int w) - 65536 * int q \<le> L" "L' \<le> L" and U: "65536 \<le> U"
    and qw: "65536 * q \<le> 57600 * (2 * w)"
  shows "sdm_acc n B L U"
  unfolding sdm_acc_def
proof (intro allI impI)
  fix sdm v :: nat
  assume v: "v \<le> B" and s: "sdm + 2 * (65536 div n) \<le> 65536"
  have m: "(2 * n) mod 65536 = 2 * n" using n(2) by simp
  show "\<exists>e. r82xx_sdm 28800 n sdm v = Some (sdm + e) \<and> e < 2 * (65536 div n) \<and>
        - L \<le> 65536 * int v - 57600 * int e \<and> 65536 * int v - 57600 * int e \<le> U"
  proof -
    consider "v \<le> 1" | "1 < v" "v \<le> q" | "1 < v" "q < v" by linarith
    then show ?thesis
    proof cases
      case 1
      then have "r82xx_sdm 28800 n sdm v = Some (sdm + 0)" by (subst r82xx_sdm.simps) simp
      then show ?thesis using 1 L U n(3,6) by (intro exI [of _ 0]) auto
    next
      case 2
      then have "r82xx_sdm 28800 n sdm v = r82xx_sdm 28800 (2 * n) sdm v"
        using n by (subst r82xx_sdm.simps) (simp add: Let_def q(1) m)
      moreover obtain e where "r82xx_sdm 28800 (2 * n) sdm v = Some (sdm + e)" "e < 2 * w"
        "- L' \<le> 65536 * int v - 57600 * int e" "65536 * int v - 57600 * int e \<le> U"
        using acc [unfolded sdm_acc_def n(5), rule_format, of v sdm] s 2 q(2) n(3) by auto
      ultimately show ?thesis using n(3) L by (intro exI [of _ e]) auto
    next
      case 3
      have "sdm + 2 * w < 65536" using s n(3,6) by linarith
      then have "r82xx_sdm 28800 n sdm v = r82xx_sdm 28800 (2 * n) (sdm + 2 * w) (v - q)"
        using 3 n by (subst r82xx_sdm.simps) (simp add: Let_def q(1) m)
      moreover have "v - q \<le> B'" "(sdm + 2 * w) + 2 * w \<le> 65536" using v q(3) s n(3) by linarith+
      then obtain e where e: "r82xx_sdm 28800 (2 * n) (sdm + 2 * w) (v - q) = Some (sdm + 2 * w + e)"
        "e < 2 * w" "- L' \<le> 65536 * int (v - q) - 57600 * int e"
        "65536 * int (v - q) - 57600 * int e \<le> U"
        using acc [unfolded sdm_acc_def n(5), rule_format, of "v - q" "sdm + 2 * w"] by auto
      moreover have "int (v - q) = int v - int q" using 3 by simp
      moreover have "65536 * int q \<le> 57600 * (2 * int w)" using qw by linarith
      ultimately show ?thesis using n(3) L by (intro exI [of _ "2 * w + e"]) auto
    qed
  qed
qed

lemma sdm_acc_first: "sdm_acc 2 57600 97280 212480"
proof -
  have a14: "sdm_acc 16384 8 33792 212480"
    by (rule sdm_acc_step [where B' = 5 and L' = 0 and w = 2 and q = 3])
      (simp_all add: sdm_acc_last)
  have a13: "sdm_acc 8192 15 35840 212480"
    by (rule sdm_acc_step [where B' = 8 and L' = 33792 and w = 4 and q = 7])
      (simp_all add: a14)
  have a12: "sdm_acc 4096 29 39936 212480"
    by (rule sdm_acc_step [where B' = 15 and L' = 35840 and w = 8 and q = 14])
      (simp_all add: a13)
  have a11: "sdm_acc 2048 57 48128 212480"
    by (rule sdm_acc_step [where B' = 29 and L' = 39936 and w = 16 and q = 28])
      (simp_all add: a12)
  have a10: "sdm_acc 1024 113 64512 212480"
    by (rule sdm_acc_step [where B' = 57 and L' = 48128 and w = 32 and q = 56])
      (simp_all add: a11)
  have a9: "sdm_acc 512 225 97280 212480"
    by (rule sdm_acc_step [where B' = 113 and L' = 64512 and w = 64 and q = 112])
      (simp_all add: a10)
  have a8: "sdm_acc 256 450 97280 212480"
    by (rule sdm_acc_step [where B' = 225 and L' = 97280 and w = 128 and q = 225])
      (simp_all add: a9)
  have a7: "sdm_acc 128 900 97280 212480"
    by (rule sdm_acc_step [where B' = 450 and L' = 97280 and w = 256 and q = 450])
      (simp_all add: a8)
  have a6: "sdm_acc 64 1800 97280 212480"
    by (rule sdm_acc_step [where B' = 900 and L' = 97280 and w = 512 and q = 900])
      (simp_all add: a7)
  have a5: "sdm_acc 32 3600 97280 212480"
    by (rule sdm_acc_step [where B' = 1800 and L' = 97280 and w = 1024 and q = 1800])
      (simp_all add: a6)
  have a4: "sdm_acc 16 7200 97280 212480"
    by (rule sdm_acc_step [where B' = 3600 and L' = 97280 and w = 2048 and q = 3600])
      (simp_all add: a5)
  have a3: "sdm_acc 8 14400 97280 212480"
    by (rule sdm_acc_step [where B' = 7200 and L' = 97280 and w = 4096 and q = 7200])
      (simp_all add: a4)
  have a2: "sdm_acc 4 28800 97280 212480"
    by (rule sdm_acc_step [where B' = 14400 and L' = 97280 and w = 8192 and q = 14400])
      (simp_all add: a3)
  have a1: "sdm_acc 2 57600 97280 212480"
    by (rule sdm_acc_step [where B' = 28800 and L' = 97280 and w = 16384 and q = 28800])
      (simp_all add: a2)
  from a1 show ?thesis .
qed

lemma r82xx_sdm_accurate:
  assumes "v \<le> 57600"
  obtains e where "r82xx_sdm 28800 2 0 v = Some e" and "e < 65536"
    and "\<bar>65536 * int v - 57600 * int e\<bar> \<le> 4 * 65536"
  using sdm_acc_first [unfolded sdm_acc_def, rule_format, of v 0] assms that by fastforce

section \<open>Divider and integer part\<close>

text \<open>The divider brings every frequency of the tuning range into the range of the VCO.\<close>

lemma r82xx_mix_div_range:
  assumes "27657 \<le> khz" and "khz \<le> 1769999"
  shows "\<exists>m d. r82xx_mix_div khz 2 0 6 = (m, d) \<and> m \<in> {2, 4, 8, 16, 32, 64} \<and>
    1770000 \<le> khz * m \<and> khz * m < 3540000"
proof -
  have u: "u32 (khz * 2) = khz * 2" "u32 (khz * 4) = khz * 4" "u32 (khz * 8) = khz * 8"
    "u32 (khz * 16) = khz * 16" "u32 (khz * 32) = khz * 32" "u32 (khz * 64) = khz * 64"
    using assms by simp_all
  have six: "(6 :: nat) = Suc (Suc (Suc (Suc (Suc (Suc 0)))))" by simp
  consider "885000 \<le> khz" | "442500 \<le> khz" "khz < 885000" | "221250 \<le> khz" "khz < 442500"
    | "110625 \<le> khz" "khz < 221250" | "110625 \<le> 2 * khz" "khz < 110625"
    | "2 * khz < 110625" by linarith
  then show ?thesis
    unfolding six using assms by cases (simp_all add: u)
qed

text \<open>The inverse of the packing of register 0x14.\<close>

definition r82xx_nint_of :: "u8 \<Rightarrow> nat" where
  "r82xx_nint_of r14 = 4 * (unat r14 mod 64) + unat r14 div 64 + 13"

lemma r82xx_ni_si_inverse:
  assumes "13 \<le> n" and "n \<le> 127"
  shows "r82xx_nint_of (r82xx_ni_si n) = n"
proof -
  define a where "a = (n - 13) div 4"
  define b where "b = (n - 13) mod 4"
  have n: "n = 4 * a + b + 13" using assms(1) by (simp add: a_def b_def)
  have ab: "b < 4" "a < 64" using assms by (simp_all add: a_def b_def)
  have "(int n - 13) sdiv 4 = int a"
  proof -
    have "int n - 13 = int (4 * a + b)" by (simp add: n)
    then show ?thesis using ab by (simp add: signed_divide_int_def sgn_if)
  qed
  then have "r82xx_ni_si n = of_nat a + push_bit 6 (of_nat b)"
    using ab by (simp add: r82xx_ni_si_def u8_of_int_def n Let_def)
  moreover have "unat (of_nat a + push_bit 6 (of_nat b) :: u8) = a + 64 * b"
    using ab by (simp add: push_bit_eq_mult unat_word_ariths unat_of_nat)
  ultimately show ?thesis using ab by (simp add: r82xx_nint_of_def n)
qed

text \<open>What the registers 0x14, 0x15, 0x16 mean: 65536 times the VCO frequency in Hz.\<close>

definition r82xx_programmed :: "u8 \<Rightarrow> u8 \<Rightarrow> u8 \<Rightarrow> nat" where
  "r82xx_programmed r14 r15 r16 =
     57600000 * (65536 * r82xx_nint_of r14 + 256 * unat r16 + unat r15)"

lemma r82xx_pll_numbers:
  assumes "1769936000 \<le> vco" and "vco \<le> 3540064000"
  obtains nint v e where "r82xx_nint vco 28800000 = nint" and "30 \<le> nint" and "nint \<le> 61"
    and "r82xx_vco_fra vco 28800000 nint = v" and "r82xx_sdm 28800 2 0 v = Some e" and "e < 65536"
    and "\<bar>int (65536 * vco) -
      int (r82xx_programmed (r82xx_ni_si nint) (u8_of_nat (e mod 256)) (u8_of_nat (e div 256)))\<bar>
      \<le> 5000 * 65536"
proof -
  define q where "q = vco div 57600000"
  define r where "r = vco mod 57600000"
  have vq: "vco = 57600000 * q + r" and r: "r < 57600000" by (simp_all add: q_def r_def)
  have q: "30 \<le> q" "q \<le> 61" using assms vq r by linarith+
  have n: "r82xx_nint vco 28800000 = q" using q by (simp add: r82xx_nint_def flip: q_def)
  have "u32 (u32 (2 * 28800000) * q) = 57600000 * q" using q by simp
  moreover have "(vco + 18446744073709551616 - 57600000 * q) mod 18446744073709551616 = r"
  proof -
    have "vco + 18446744073709551616 - 57600000 * q = r + 18446744073709551616"
      using vq by linarith
    then show ?thesis using r by simp
  qed
  ultimately have f: "r82xx_vco_fra vco 28800000 q = r div 1000"
    using r by (simp add: r82xx_vco_fra_def u32_def)
  have "r div 1000 \<le> 57600" using r by simp
  then obtain e where e: "r82xx_sdm 28800 2 0 (r div 1000) = Some e" "e < 65536"
    "\<bar>65536 * int (r div 1000) - 57600 * int e\<bar> \<le> 4 * 65536"
    by (rule r82xx_sdm_accurate)
  have "e div 256 < 256" using e(2) by simp
  then have p: "r82xx_programmed (r82xx_ni_si q) (u8_of_nat (e mod 256)) (u8_of_nat (e div 256)) =
      57600000 * (65536 * q + e)"
    using q by (simp add: r82xx_programmed_def r82xx_ni_si_inverse u8_of_nat_def unat_of_nat)
  define t where "t = int (r div 1000)"
  have "int r = 1000 * t + int (r mod 1000)"
    unfolding t_def by (metis mult_div_mod_eq of_nat_add of_nat_mult of_nat_numeral)
  moreover have "0 \<le> int (r mod 1000)" "int (r mod 1000) < 1000" by simp_all
  moreover have "65536 * t - 57600 * int e \<le> 4 * 65536" "57600 * int e - 65536 * t \<le> 4 * 65536"
    using e(3) by (simp_all add: t_def abs_le_iff)
  ultimately have "\<bar>65536 * (57600000 * int q + int r) - 57600000 * (65536 * int q + int e)\<bar>
      \<le> 5000 * 65536"
    by (simp add: abs_le_iff)
  then show thesis
    by (intro that [OF n q f e(1,2)]) (simp add: p vq)
qed

section \<open>Tuning\<close>

text \<open>A coherent state with a given configuration whose registers satisfy \<open>P\<close>.\<close>

definition rstate :: "(u8 list \<Rightarrow> bool) \<Rightarrow> r82xx_config \<Rightarrow> bool \<Rightarrow> rtlsdr_dev \<Rightarrow> bool" where
  "rstate P c u s \<longleftrightarrow> coherent s \<and> dev_r82c s = c \<and> dev_ub s = u \<and> P (r82_regs (dev_r82p s))"

lemma coherent_length: "coherent s \<Longrightarrow> length (r82_regs (dev_r82p s)) = 30"
  by (simp add: coherent_def shadow_ok_def)

lemma write_one_value:
  "length xs = 30 \<Longrightarrow> k < 30 \<Longrightarrow> take k xs @ [v] @ drop (k + 1) xs = xs[k := v]"
  by (simp add: upd_conv_take_nth_drop)

lemma rstate_write_reg:
  assumes r: "5 \<le> unat reg" "unat reg \<le> 34"
    and P: "\<And>xs. length xs = 30 \<Longrightarrow> P xs \<Longrightarrow> Q (xs[unat reg - 5 := v])"
  shows "valid (rstate P c u) (r82xx_write_reg reg v) (\<lambda>rc s. rc = 0 \<and> rstate Q c u s)"
proof (rule validI)
  fix s rc s'
  assume s: "rstate P c u s" and run: "run_state (r82xx_write_reg reg v) s = (rc, s')"
  have co: "coherent s" using s by (simp add: rstate_def)
  have "unat reg + length [v] \<le> 35" using r by simp
  from run_write_coherent [OF co r(1) this] run
  have "rc = 0 \<and> coherent s' \<and> dev_r82c s' = dev_r82c s \<and> dev_ub s' = dev_ub s \<and>
      r82_regs (dev_r82p s') = (r82_regs (dev_r82p s))[unat reg - 5 := v]"
    using write_one_value [OF coherent_length [OF co], of "unat reg - 5" v] r
    by (auto simp: r82xx_write_reg_def)
  then show "rc = 0 \<and> rstate Q c u s'"
    using s P [OF coherent_length [OF co]] by (simp add: rstate_def)
qed

lemma rstate_write_reg_mask:
  assumes r: "5 \<le> unat reg" "unat reg \<le> 34"
    and P: "\<And>xs w. length xs = 30 \<Longrightarrow> P xs \<Longrightarrow> Q (xs[unat reg - 5 := w])"
  shows "valid (rstate P c u) (r82xx_write_reg_mask reg v m) (\<lambda>rc s. rc = 0 \<and> rstate Q c u s)"
proof -
  have "int 5 \<le> int (unat reg)" "int (unat reg) \<le> int 34" using r by (simp_all only: of_nat_le_iff)
  then have i: "0 \<le> uint reg - 5 \<and> uint reg - 5 < 30" by simp
  have w: "valid (rstate P c u) (r82xx_write reg [w]) (\<lambda>rc s. rc = 0 \<and> rstate Q c u s)" for w
    using rstate_write_reg [where P = P and Q = Q and v = w, OF r] P
    unfolding r82xx_write_reg_def by blast
  have A: "valid (rstate P c u) (r82xx_read_cache_reg (uint reg)) (\<lambda>rc s. 0 \<le> rc \<and> rstate P c u s)"
    using i by (simp add: r82xx_read_cache_reg_def valid_def REG_SHADOW_START_def NUM_REGS_def Let_def)
  have B: "valid (\<lambda>s. 0 \<le> rc \<and> rstate P c u s)
     (if rc < 0 then ret rc else r82xx_write reg [(u8_of_int rc AND NOT m) OR (v AND m)])
     (\<lambda>rc s. rc = 0 \<and> rstate Q c u s)" for rc
    using w by (auto simp: valid_def)
  show ?thesis unfolding r82xx_write_reg_mask_def by (rule valid_bind [OF A B])
qed

lemma rstate_read:
  "valid (rstate P c u) (r82xx_read reg old) (\<lambda>(rc, d) s. rc = 0 \<and> rstate P c u s)"
proof (rule validI)
  fix s x s'
  assume s: "rstate P c u s" and run: "run_state (r82xx_read reg old) s = (x, s')"
  have "usb_acks (dev_usb s)" using s by (simp add: rstate_def coherent_def r82_bus_def)
  then have "fst x = 0" and "dev_r82c s' = dev_r82c s" and "dev_ub s' = dev_ub s"
    and "dev_r82p s' = dev_r82p s"
    using run
    by (auto simp: r82xx_read_def run_write_fn_acked rtlsdr_i2c_read_fn_def
        rtlsdr_read_array_def ctrl_in_def Let_def usb_acks_def)
  moreover have "coherent s'"
    using keepsD [OF keeps_read run] s by (simp add: rstate_def)
  ultimately show "(case x of (rc, d) \<Rightarrow> \<lambda>s. rc = 0 \<and> rstate P c u s) s'"
    using s by (auto simp: rstate_def split: prod.splits)
qed

lemma rstate_steps:
  assumes "\<And>m. m \<in> set ms \<Longrightarrow> valid (rstate P c u) m (\<lambda>rc s. rc = 0 \<and> rstate P c u s)"
    and "valid (rstate P c u) k Q"
  shows "valid (rstate P c u) (steps ms k) Q"
  using assms(1)
proof (induction ms)
  case (Cons m ms)
  have m: "valid (rstate P c u) m (\<lambda>rc s. rc = 0 \<and> rstate P c u s)" by (rule Cons.prems) simp
  have "valid (rstate P c u) (steps ms k) Q" by (rule Cons.IH) (rule Cons.prems, simp)
  then have "valid (\<lambda>s. rc = 0 \<and> rstate P c u s) (if rc < 0 then ret rc else steps ms k) Q" for rc
    by (auto simp: valid_def)
  then show ?case unfolding steps.simps by (intro valid_bind [OF m])
qed (simp add: assms(2))

lemma rstate_then:
  assumes "valid (rstate P c u) m (\<lambda>rc s. rc = 0 \<and> rstate P' c u s)"
    and "valid (rstate P' c u) k Q"
  shows "valid (rstate P c u) (steps [m] k) Q"
proof -
  have "valid (\<lambda>s. rc = 0 \<and> rstate P' c u s) (if rc < 0 then ret rc else k) Q" for rc
    using assms(2) by (auto simp: valid_def)
  then show ?thesis unfolding steps.simps by (intro valid_bind [OF assms(1)]) 
qed

text \<open>The three registers of the PLL, at their places in the shadow.\<close>

definition pll_regs_are :: "u8 option \<Rightarrow> u8 option \<Rightarrow> u8 option \<Rightarrow> u8 list \<Rightarrow> bool" where
  "pll_regs_are r14 r15 r16 xs \<longleftrightarrow>
     (r14 = None \<or> r14 = Some (xs ! 15)) \<and> (r15 = None \<or> r15 = Some (xs ! 16)) \<and>
     (r16 = None \<or> r16 = Some (xs ! 17))"

lemma rstate_pll_mask:
  assumes "5 \<le> unat reg" "unat reg \<le> 34" "unat reg \<notin> {0x14, 0x15, 0x16}"
  shows "valid (rstate (pll_regs_are a b d) c u) (r82xx_write_reg_mask reg v m)
    (\<lambda>rc s. rc = 0 \<and> rstate (pll_regs_are a b d) c u s)"
  by (rule rstate_write_reg_mask) (use assms in \<open>auto simp: pll_regs_are_def\<close>)

lemma rstate_upd_lock:
  "valid (rstate P c u) (upd_r82p (\<lambda>p. p\<lparr>r82_has_lock := l\<rparr>)) (\<lambda>_. rstate P c u)"
  using keeps_upd_r82p [of "\<lambda>p. p\<lparr>r82_has_lock := l\<rparr>"]
  by (auto simp: valid_def keeps_def rstate_def upd_r82p_def)

lemma rstate_locked:
  "valid (rstate (pll_regs_are a b d) c u) (r82xx_locked l)
     (\<lambda>rc s. rc = 0 \<and> rstate (pll_regs_are a b d) c u s)"
  unfolding r82xx_locked_def
  by (intro valid_bind [OF rstate_upd_lock] valid_if valid_ret rstate_pll_mask) auto

lemma rstate_lock:
  "valid (rstate (pll_regs_are a b d) c u) (r82xx_lock data)
     (\<lambda>rc s. rc = 0 \<and> rstate (pll_regs_are a b d) c u s)"
proof -
  have k: "valid (\<lambda>s. rc = 0 \<and> rstate (pll_regs_are a b d) c u s)
      (if rc < 0 then ret rc else r82xx_locked (x ! 2 AND 0x40 \<noteq> 0))
      (\<lambda>rc s. rc = 0 \<and> rstate (pll_regs_are a b d) c u s)"
    for rc and x :: "u8 list"
    using rstate_locked by (auto simp: valid_def)
  have r: "valid (rstate (pll_regs_are a b d) c u) (do { (rc, x) \<leftarrow> r82xx_read 0x00 y;
        if rc < 0 then ret rc else r82xx_locked (x ! 2 AND 0x40 \<noteq> 0) })
      (\<lambda>rc s. rc = 0 \<and> rstate (pll_regs_are a b d) c u s)" for y
    by (rule valid_bind [OF rstate_read]) (simp only: split_paired_all prod.case k)
  have t: "valid (rstate (pll_regs_are a b d) c u) (steps [r82xx_write_reg_mask 0x12 0x60 0xe0]
      (do { (rc, x) \<leftarrow> r82xx_read 0x00 y;
        if rc < 0 then ret rc else r82xx_locked (x ! 2 AND 0x40 \<noteq> 0) }))
      (\<lambda>rc s. rc = 0 \<and> rstate (pll_regs_are a b d) c u s)" for y
    by (rule rstate_then [OF rstate_pll_mask r]) auto
  show ?thesis
    unfolding r82xx_lock_def
    by (rule valid_bind [OF rstate_read])
      (use t rstate_locked in \<open>fastforce simp: valid_def split: prod.splits\<close>)
qed

lemma steps_Cons2: "steps (m # m' # ms) k = steps [m] (steps (m' # ms) k)"
  by (simp only: steps.simps)

lemma rstate_set_sdm:
  assumes "r82xx_sdm khz 2 0 v = Some e"
  shows "valid (rstate (pll_regs_are (Some a) None None) c u) (r82xx_set_sdm khz v data)
     (\<lambda>rc s. rc = 0 \<and> rstate (pll_regs_are (Some a) (Some (u8_of_nat (e mod 256)))
        (Some (u8_of_nat (e div 256)))) c u s)"
  unfolding r82xx_set_sdm_def assms option.case steps_Cons2
proof (rule rstate_then)
  show "valid (rstate (pll_regs_are (Some a) None None) c u) (r82xx_write_reg 0x16 (u8_of_nat (e div 256)))
      (\<lambda>rc s. rc = 0 \<and> rstate (pll_regs_are (Some a) None (Some (u8_of_nat (e div 256)))) c u s)"
    by (rule rstate_write_reg) (auto simp: pll_regs_are_def)
  show "valid (rstate (pll_regs_are (Some a) None (Some (u8_of_nat (e div 256)))) c u)
      (steps [r82xx_write_reg 0x15 (u8_of_nat (e mod 256))] (r82xx_lock data))
      (\<lambda>rc s. rc = 0 \<and> rstate (pll_regs_are (Some a) (Some (u8_of_nat (e mod 256)))
        (Some (u8_of_nat (e div 256)))) c u s)"
    by (rule rstate_then [OF rstate_write_reg rstate_lock]) (auto simp: pll_regs_are_def)
qed

lemma rstate_set_pll:
  assumes xtal: "cfg_xtal c = 28800000" and chip: "cfg_rafael_chip c \<noteq> CHIP_R828D"
    and mix: "r82xx_mix_div (u32 (freq + 500) div 1000) 2 0 6 = (mix, d)"
    and nint: "r82xx_nint (freq * mix) 28800000 = nint" "nint \<le> 61"
    and sdm: "r82xx_sdm 28800 2 0 (r82xx_vco_fra (freq * mix) 28800000 nint) = Some e"
  shows "valid (rstate (pll_regs_are None None None) c u) (r82xx_set_pll freq)
     (\<lambda>rc s. rc = 0 \<and> rstate (pll_regs_are (Some (r82xx_ni_si nint)) (Some (u8_of_nat (e mod 256)))
        (Some (u8_of_nat (e div 256)))) c u s)" (is "valid ?P _ ?Q")
proof -
  let ?v = "r82xx_vco_fra (freq * mix) 28800000 nint"
  let ?A = "rstate (pll_regs_are (Some (r82xx_ni_si nint)) None None) c u"
  have k: "u32 (28800000 + 500) div 1000 = 28800" "u32 (2 * 28800000) \<noteq> 0"
    "\<not> nint > 128 div 2 - 1" using nint(2) by simp_all
  have m12: "valid ?A (steps [r82xx_write_reg_mask 0x12 x 0x08] (r82xx_set_sdm 28800 ?v data)) ?Q"
    for x data by (rule rstate_then [OF rstate_pll_mask rstate_set_sdm [OF sdm]]) auto
  have w14: "valid ?P (steps [r82xx_write_reg 0x14 (r82xx_ni_si nint), r82xx_write_reg_mask 0x12 x 0x08]
      (r82xx_set_sdm 28800 ?v data)) ?Q" for x data
    unfolding steps_Cons2 by (rule rstate_then [OF rstate_write_reg m12]) (auto simp: pll_regs_are_def)
  have tail: "valid ?P (steps [r82xx_write_reg_mask 0x10 y 0xe0]
      (steps [r82xx_write_reg 0x14 (r82xx_ni_si nint), r82xx_write_reg_mask 0x12 x 0x08]
      (r82xx_set_sdm 28800 ?v data))) ?Q" for x y data
    by (rule rstate_then [OF rstate_pll_mask w14]) auto
  have body: "valid ?P (do { (rc, data) \<leftarrow> r82xx_read 0x00 data0;
        if rc < 0 then ret rc
        else steps [r82xx_write_reg_mask 0x10 (push_bit 5 (dn data)) 0xe0]
         (steps [r82xx_write_reg 0x14 (r82xx_ni_si nint), r82xx_write_reg_mask 0x12 x 0x08]
           (r82xx_set_sdm 28800 ?v data)) }) ?Q" for x dn data0
    by (rule valid_bind [OF rstate_read])
      (use tail in \<open>auto simp: valid_def split: prod.splits\<close>)
  have "run_state (r82xx_set_pll freq) s = run_state (do {
      data0 \<leftarrow> junk 5;
      steps [r82xx_write_reg_mask 0x10 0x00 0x10, r82xx_write_reg_mask 0x1a 0x00 0x0c,
             r82xx_write_reg_mask 0x12 0x80 0xe0]
       (do { (rc, data) \<leftarrow> r82xx_read 0x00 data0;
        if rc < 0 then ret rc
        else steps [r82xx_write_reg_mask 0x10
            (push_bit 5 (r82xx_div_num (unat (drop_bit 4 (data ! 4 AND 0x30))) 2 d)) 0xe0]
         (steps [r82xx_write_reg 0x14 (r82xx_ni_si nint),
                 r82xx_write_reg_mask 0x12 (if ?v = 0 then 0x08 else 0x00) 0x08]
           (r82xx_set_sdm 28800 ?v data)) }) }) s" if "dev_r82c s = c" for s
    using that k
    by (simp add: r82xx_set_pll_def junk_def Let_def xtal chip mix nint(1)
        del: steps.simps cong del: if_weak_cong)
  moreover have "valid ?P (do {
      data0 \<leftarrow> junk 5;
      steps [r82xx_write_reg_mask 0x10 0x00 0x10, r82xx_write_reg_mask 0x1a 0x00 0x0c,
             r82xx_write_reg_mask 0x12 0x80 0xe0]
       (do { (rc, data) \<leftarrow> r82xx_read 0x00 data0;
        if rc < 0 then ret rc
        else steps [r82xx_write_reg_mask 0x10 (push_bit 5 (dn data)) 0xe0]
         (steps [r82xx_write_reg 0x14 (r82xx_ni_si nint), r82xx_write_reg_mask 0x12 x 0x08]
           (r82xx_set_sdm 28800 ?v data)) }) }) ?Q" for x dn
    by (rule valid_bind [where R = "\<lambda>_. ?P"], simp add: junk_def valid_def, rule rstate_steps)
      (auto intro!: rstate_pll_mask body)
  ultimately show ?thesis by (simp add: valid_def rstate_def)
qed

text \<open>The numbers behind a tuning request within the range.\<close>

lemma r82xx_pll_request:
  assumes range: "27657000 \<le> freq" "freq \<le> 1769999000"
  obtains m d nint e where "r82xx_mix_div (u32 (freq + 500) div 1000) 2 0 6 = (m, d)"
    and "m \<in> {2, 4, 8, 16, 32, 64}" and "r82xx_nint (freq * m) 28800000 = nint" and "nint \<le> 61"
    and "r82xx_sdm 28800 2 0 (r82xx_vco_fra (freq * m) 28800000 nint) = Some e"
    and "\<bar>int (65536 * (freq * m)) - int (r82xx_programmed (r82xx_ni_si nint)
      (u8_of_nat (e mod 256)) (u8_of_nat (e div 256)))\<bar> \<le> 5000 * 65536"
proof -
  define khz where "khz = u32 (freq + 500) div 1000"
  have u: "u32 (freq + 500) = freq + 500" using range by simp
  have khz: "27657 \<le> khz" "khz \<le> 1769999" "1000 * khz \<le> freq + 500" "freq \<le> 1000 * khz + 500"
    using range unfolding khz_def u by linarith+
  obtain m d where mix: "r82xx_mix_div khz 2 0 6 = (m, d)" "m \<in> {2, 4, 8, 16, 32, 64}"
    "1770000 \<le> khz * m" "khz * m < 3540000"
    using r82xx_mix_div_range [OF khz(1,2)] by blast
  have "m \<le> 64" using mix(2) by auto
  have "1000 * khz * m \<le> (freq + 500) * m" "freq * m \<le> (1000 * khz + 500) * m"
    using khz(3,4) by (intro mult_le_mono1; simp)+
  then have v: "1769936000 \<le> freq * m" "freq * m \<le> 3540064000"
    using mix(3,4) \<open>m \<le> 64\<close> by (simp_all add: algebra_simps)
  obtain nint v e where n: "r82xx_nint (freq * m) 28800000 = nint" "nint \<le> 61"
    and f: "r82xx_vco_fra (freq * m) 28800000 nint = v" and e: "r82xx_sdm 28800 2 0 v = Some e"
    and acc: "\<bar>int (65536 * (freq * m)) - int (r82xx_programmed (r82xx_ni_si nint)
      (u8_of_nat (e mod 256)) (u8_of_nat (e div 256)))\<bar> \<le> 5000 * 65536"
    using r82xx_pll_numbers [OF v] by metis
  show thesis by (rule that [OF mix(1,2) [unfolded khz_def] n e [folded f] acc])
qed

lemma rstate_conseq:
  "valid (rstate P c u) m (\<lambda>rc s. rc = 0 \<and> rstate Q c u s) \<Longrightarrow>
     (\<And>xs. P' xs \<Longrightarrow> P xs) \<Longrightarrow> (\<And>xs. Q xs \<Longrightarrow> Q' xs) \<Longrightarrow>
     valid (rstate P' c u) m (\<lambda>rc s. rc = 0 \<and> rstate Q' c u s)"
  by (erule valid_conseq) (auto simp: rstate_def)

lemma rstate_set_pll_ok:
  assumes "cfg_xtal c = 28800000" and "cfg_rafael_chip c \<noteq> CHIP_R828D"
    and "27657000 \<le> freq" "freq \<le> 1769999000"
  shows "valid (rstate (\<lambda>_. True) c u) (r82xx_set_pll freq) (\<lambda>rc s. rc = 0 \<and> rstate (\<lambda>_. True) c u s)"
proof -
  obtain m d nint e where "r82xx_mix_div (u32 (freq + 500) div 1000) 2 0 6 = (m, d)"
    and "r82xx_nint (freq * m) 28800000 = nint" and "nint \<le> 61"
    and "r82xx_sdm 28800 2 0 (r82xx_vco_fra (freq * m) 28800000 nint) = Some e"
    using r82xx_pll_request [OF assms(3,4)] by metis
  from rstate_set_pll [OF assms(1,2) this] show ?thesis
    by (rule rstate_conseq) (simp_all add: pll_regs_are_def)
qed

text \<open>
  C5. For an R820T with the 28.8 MHz crystal whose shadow registers agree with the chip
  (as \<open>r82xx_init\<close> leaves it), \<open>r82xx_set_pll\<close> programs every frequency from 27.657 MHz to
  1769.999 MHz without undefined behaviour: it returns 0 and leaves in the chip's registers
  0x14 to 0x16 an integer part and a fraction whose VCO frequency is within 5 kHz of the wanted
  one, a power of two between 2 and 64 times the frequency.
\<close>

theorem r82xx_pll_accurate:
  assumes co: "coherent s" and xtal: "cfg_xtal (dev_r82c s) = 28800000"
    and chip: "cfg_rafael_chip (dev_r82c s) \<noteq> CHIP_R828D"
    and range: "27657000 \<le> freq" "freq \<le> 1769999000"
  shows "\<exists>s' m r14 r15 r16. run_state (r82xx_set_pll freq) s = (0, s') \<and> dev_ub s' = dev_ub s \<and>
    m \<in> {2, 4, 8, 16, 32, 64} \<and>
    chip_reg (cfg_i2c_addr (dev_r82c s)) (dev_xfers s') 0x14 = Some r14 \<and>
    chip_reg (cfg_i2c_addr (dev_r82c s)) (dev_xfers s') 0x15 = Some r15 \<and>
    chip_reg (cfg_i2c_addr (dev_r82c s)) (dev_xfers s') 0x16 = Some r16 \<and>
    \<bar>int (65536 * (freq * m)) - int (r82xx_programmed r14 r15 r16)\<bar> \<le> 5000 * 65536"
proof -
  obtain m d nint e where mix: "r82xx_mix_div (u32 (freq + 500) div 1000) 2 0 6 = (m, d)"
    "m \<in> {2, 4, 8, 16, 32, 64}"
    and n: "r82xx_nint (freq * m) 28800000 = nint" "nint \<le> 61"
    and e: "r82xx_sdm 28800 2 0 (r82xx_vco_fra (freq * m) 28800000 nint) = Some e"
    and acc: "\<bar>int (65536 * (freq * m)) - int (r82xx_programmed (r82xx_ni_si nint)
      (u8_of_nat (e mod 256)) (u8_of_nat (e div 256)))\<bar> \<le> 5000 * 65536"
    by (rule r82xx_pll_request [OF range])
  obtain rc s' where run: "run_state (r82xx_set_pll freq) s = (rc, s')" by fastforce
  have "rstate (pll_regs_are None None None) (dev_r82c s) (dev_ub s) s"
    using co by (simp add: rstate_def pll_regs_are_def)
  from validD [OF rstate_set_pll [OF xtal chip mix(1) n e] this run]
  have rc: "rc = 0" and co': "coherent s'" and c': "dev_r82c s' = dev_r82c s"
    and ub: "dev_ub s' = dev_ub s"
    and regs: "pll_regs_are (Some (r82xx_ni_si nint)) (Some (u8_of_nat (e mod 256)))
      (Some (u8_of_nat (e div 256))) (r82_regs (dev_r82p s'))"
    by (auto simp: rstate_def)
  have "chip_reg (cfg_i2c_addr (dev_r82c s)) (dev_xfers s') (5 + of_nat k) =
      Some (r82_regs (dev_r82p s') ! k)" if "k < 30" for k
    using co' that by (simp add: coherent_def shadow_ok_def c')
  from this [of 15] this [of 16] this [of 17] regs
  have "chip_reg (cfg_i2c_addr (dev_r82c s)) (dev_xfers s') 0x14 = Some (r82xx_ni_si nint)"
    "chip_reg (cfg_i2c_addr (dev_r82c s)) (dev_xfers s') 0x15 = Some (u8_of_nat (e mod 256))"
    "chip_reg (cfg_i2c_addr (dev_r82c s)) (dev_xfers s') 0x16 = Some (u8_of_nat (e div 256))"
    by (simp_all add: pll_regs_are_def)
  with acc rc run ub mix(2) show ?thesis by blast
qed

section \<open>The initialisation succeeds\<close>

lemma rstate_upd:
  "(\<And>p. r82_regs (f p) = r82_regs p) \<Longrightarrow> valid (rstate P c u) (upd_r82p f) (\<lambda>_. rstate P c u)"
  using keeps_upd_r82p [of f]
  by (auto simp: valid_def keeps_def rstate_def upd_r82p_def)

lemma rstate_mask: "5 \<le> unat reg \<Longrightarrow> unat reg \<le> 34 \<Longrightarrow>
    valid (rstate (\<lambda>_. True) c u) (r82xx_write_reg_mask reg v m)
      (\<lambda>rc s. rc = 0 \<and> rstate (\<lambda>_. True) c u s)"
  by (rule rstate_write_reg_mask)

lemma rstate_reg: "5 \<le> unat reg \<Longrightarrow> unat reg \<le> 34 \<Longrightarrow>
    valid (rstate (\<lambda>_. True) c u) (r82xx_write_reg reg v)
      (\<lambda>rc s. rc = 0 \<and> rstate (\<lambda>_. True) c u s)"
  by (rule rstate_write_reg)

lemma rstate_sysfreq_sel:
  "valid (rstate (\<lambda>_. True) c u) (r82xx_sysfreq_sel f t d)
     (\<lambda>rc s. rc = 0 \<and> rstate (\<lambda>_. True) c u s)"
proof -
  let ?q = "r82xx_sysfreq_params f d"
  let ?ok = "\<lambda>rc s. rc = (0 :: int) \<and> rstate (\<lambda>_. True) c u s"
  have lna: "m \<in> set (r82xx_sysfreq_lna ?q t) \<Longrightarrow> valid (rstate (\<lambda>_. True) c u) m ?ok" for m
    by (auto simp: r82xx_sysfreq_lna_def intro!: rstate_mask split: if_splits)
  have tail: "valid (rstate (\<lambda>_. True) c u) (do {
          upd_r82p (\<lambda>p. p\<lparr>r82_input := air_cable1_in ?q\<rparr>);
          steps ([r82xx_write_reg_mask 0x05 (air_cable1_in ?q) 0x60,
                  r82xx_write_reg_mask 0x06 (cable2_in ?q) 0x08,
                  r82xx_write_reg_mask 0x11 (cp_cur ?q) 0x38,
                  r82xx_write_reg_mask 0x17 (div_buf_cur ?q) 0x30,
                  r82xx_write_reg_mask 0x0a (filter_cur ?q) 0x60] @
                 r82xx_sysfreq_lna ?q t) (ret 0) }) ?ok"
    by (rule valid_bind [OF rstate_upd], simp, rule rstate_steps)
      (auto intro!: rstate_mask valid_ret elim: lna)
  show ?thesis
    unfolding r82xx_sysfreq_sel_def Let_def
    by (rule valid_bind [where R = "\<lambda>_. rstate (\<lambda>_. True) c u"], rule valid_gets, assumption,
        rule rstate_steps [OF _ tail])
      (auto intro!: rstate_mask rstate_reg split: if_splits)
qed

lemma rstate_filter_cal:
  assumes k: "valid (rstate (\<lambda>_. True) c u) k (\<lambda>rc s. rc = 0 \<and> rstate (\<lambda>_. True) c u s)"
    and pll: "cfg_xtal c = 28800000" "cfg_rafael_chip c \<noteq> CHIP_R828D"
      "27657 \<le> filt_cal_lo q" "filt_cal_lo q \<le> 1769999"
  shows "valid (rstate (\<lambda>_. True) c u) (r82xx_filter_cal n q data k)
    (\<lambda>rc s. rc = 0 \<and> rstate (\<lambda>_. True) c u s)"
proof (induction n arbitrary: data)
  case (Suc n)
  let ?T = "\<lambda>_. True"
  have code: "valid (rstate ?T c u) (do { upd_r82p (\<lambda>p. p\<lparr>r82_fil_cal_code := x\<rparr>);
      if x \<noteq> 0 \<and> x \<noteq> 0x0f then k else r82xx_filter_cal n q d k })
      (\<lambda>rc s. rc = 0 \<and> rstate ?T c u s)" for x d
    by (rule valid_bind [OF rstate_upd]) (use k Suc in auto)
  have rd: "valid (rstate ?T c u) (do { (rc, data) \<leftarrow> r82xx_read 0x00 d; if rc < 0 then ret rc
      else do { let code = data ! 4 AND 0x0f; upd_r82p (\<lambda>p. p\<lparr>r82_fil_cal_code := code\<rparr>);
        if code \<noteq> 0 \<and> code \<noteq> 0x0f then k else r82xx_filter_cal n q data k } })
      (\<lambda>rc s. rc = 0 \<and> rstate ?T c u s)" for d
    by (rule valid_bind [OF rstate_read])
      (use code in \<open>auto simp: valid_def Let_def split: prod.splits\<close>)
  have trig: "valid (rstate ?T c u) (steps [r82xx_write_reg_mask 0x0b 0x10 0x10,
      r82xx_write_reg_mask 0x0b 0x00 0x10, r82xx_write_reg_mask 0x0f 0x00 0x04]
      (do { (rc, data) \<leftarrow> r82xx_read 0x00 d; if rc < 0 then ret rc
      else do { let code = data ! 4 AND 0x0f; upd_r82p (\<lambda>p. p\<lparr>r82_fil_cal_code := code\<rparr>);
        if code \<noteq> 0 \<and> code \<noteq> 0x0f then k else r82xx_filter_cal n q data k } }))
      (\<lambda>rc s. rc = 0 \<and> rstate ?T c u s)" for d
    by (rule rstate_steps [OF _ rd]) (auto intro!: rstate_mask)
  have p: "valid (rstate ?T c u) (r82xx_set_pll (filt_cal_lo q * 1000))
      (\<lambda>rc s. rc = 0 \<and> rstate ?T c u s)"
    by (rule rstate_set_pll_ok [OF pll(1,2)]) (use pll(3,4) in simp_all)
  show ?case
    unfolding r82xx_filter_cal.simps
    by (rule rstate_steps, auto intro!: rstate_mask)
      (rule valid_bind [OF p], use trig in \<open>auto simp: valid_def\<close>)
qed (simp add: k)

lemma rstate_tv_standard:
  assumes pll: "cfg_xtal c = 28800000" "cfg_rafael_chip c \<noteq> CHIP_R828D"
  shows "valid (rstate (\<lambda>xs. xs = r82xx_init_array) c u) (r82xx_set_tv_standard bw type delsys)
    (\<lambda>rc s. rc = 0 \<and> rstate (\<lambda>_. True) c u s)"
proof -
  let ?T = "\<lambda>_. True" and ?q = "r82xx_std_params bw delsys"
  let ?ok = "\<lambda>rc s. rc = (0 :: int) \<and> rstate ?T c u s"
  have last: "valid (rstate ?T c u) (do {
      upd_r82p (\<lambda>p. p\<lparr>r82_delsys := delsys, r82_type := type, r82_bw := bw\<rparr>); ret 0 }) ?ok"
    by (rule valid_bind [OF rstate_upd]) (simp_all add: valid_ret)
  have std: "valid (rstate ?T c u) (steps (r82xx_std_regs ?q code) (do {
      upd_r82p (\<lambda>p. p\<lparr>r82_delsys := delsys, r82_type := type, r82_bw := bw\<rparr>); ret 0 })) ?ok" for code
    by (rule rstate_steps [OF _ last]) (auto simp: r82xx_std_regs_def intro!: rstate_mask)
  have k: "valid (rstate ?T c u) (do {
      upd_r82p (\<lambda>p. p\<lparr>r82_fil_cal_code := if r82_fil_cal_code p = 0x0f then 0 else r82_fil_cal_code p\<rparr>);
      code \<leftarrow> gets (r82_fil_cal_code \<circ> dev_r82p);
      steps (r82xx_std_regs ?q code) (do {
        upd_r82p (\<lambda>p. p\<lparr>r82_delsys := delsys, r82_type := type, r82_bw := bw\<rparr>); ret 0 }) }) ?ok"
    by (rule valid_bind [OF rstate_upd], simp,
        rule valid_bind [where R = "\<lambda>_. rstate ?T c u"], rule valid_gets, assumption, rule std)
  have lo: "27657 \<le> filt_cal_lo ?q" "filt_cal_lo ?q \<le> 1769999"
    by (simp_all add: r82xx_std_params_def Let_def)
  note cal = rstate_filter_cal [OF k pll lo]
  have copy: "valid (rstate (\<lambda>xs. xs = r82xx_init_array) c u)
      (upd_r82p (\<lambda>p. p\<lparr>r82_regs := r82xx_init_array\<rparr>)) (\<lambda>_. rstate ?T c u)"
    by (auto simp: valid_def upd_r82p_def rstate_def coherent_def shadow_ok_def r82_bus_def)
  have rest: "valid (rstate ?T c u) (do {
      upd_r82p (\<lambda>p. p\<lparr>r82_int_freq := if_khz ?q * 1000\<rparr>);
      r82xx_filter_cal 2 ?q data (do {
        upd_r82p (\<lambda>p. p\<lparr>r82_fil_cal_code := if r82_fil_cal_code p = 0x0f then 0 else r82_fil_cal_code p\<rparr>);
        code \<leftarrow> gets (r82_fil_cal_code \<circ> dev_r82p);
        steps (r82xx_std_regs ?q code) (do {
          upd_r82p (\<lambda>p. p\<lparr>r82_delsys := delsys, r82_type := type, r82_bw := bw\<rparr>); ret 0 }) }) }) ?ok"
    for data by (rule valid_bind [OF rstate_upd], simp, rule cal)
  show ?thesis
    unfolding r82xx_set_tv_standard_def Let_def
    by (rule valid_bind [where R = "\<lambda>_. rstate (\<lambda>xs. xs = r82xx_init_array) c u"],
        simp add: junk_def valid_gets, rule valid_bind [OF copy], rule rstate_steps [OF _ rest])
      (auto intro!: rstate_mask split: if_splits)
qed

lemma r82xx_init_runs:
  assumes "usb_acks (dev_usb s)" and "2 \<le> cfg_max_i2c_msg_len (dev_r82c s)"
    and "cfg_max_i2c_msg_len (dev_r82c s) \<le> 4294967295"
    and "length (r82_regs (dev_r82p s)) = 30"
    and "cfg_xtal (dev_r82c s) = 28800000" and "cfg_rafael_chip (dev_r82c s) \<noteq> CHIP_R828D"
  shows "\<exists>s'. run_state r82xx_init s = (0, s') \<and> shadow_ok s' \<and> dev_ub s' = dev_ub s"
proof -
  let ?T = "\<lambda>_. True" and ?c = "dev_r82c s" and ?u = "dev_ub s"
  let ?P = "\<lambda>s'. r82_bus s' \<and> length (r82_regs (dev_r82p s')) = 30 \<and> dev_r82c s' = ?c \<and> dev_ub s' = ?u"
  have w: "valid ?P (r82xx_write 0x05 r82xx_init_array)
      (\<lambda>rc. rstate (\<lambda>xs. xs = r82xx_init_array) ?c ?u)"
  proof (rule validI)
    fix t rc t' assume t: "?P t" and run: "run_state (r82xx_write 0x05 r82xx_init_array) t = (rc, t')"
    show "rstate (\<lambda>xs. xs = r82xx_init_array) ?c ?u t'"
      using run_init_write [of t] t run by (auto simp: rstate_def)
  qed
  have p: "valid ?P (upd_r82p (\<lambda>p. p\<lparr>r82_xtal_cap_sel := XTAL_HIGH_CAP_0P\<rparr>)) (\<lambda>_. ?P)"
    by (auto simp: valid_def upd_r82p_def r82_bus_def)
  have t: "valid (rstate ?T ?c ?u) (do { r82xx_calculate_stage_gains; r82xx_compute_gain_table;
      upd_r82p (\<lambda>p. p\<lparr>r82_init_done := True\<rparr>); ret rc }) (\<lambda>x s. x = rc \<and> rstate ?T ?c ?u s)"
    for rc :: int
    by (auto simp: valid_def r82xx_calculate_stage_gains_def r82xx_compute_gain_table_def upd_r82p_def
        rstate_def coherent_def shadow_ok_def r82_bus_def)
  have tail: "valid (rstate ?T ?c ?u) (do { rc \<leftarrow> r82xx_sysfreq_sel 0 TUNER_DIGITAL_TV SYS_DVBT;
      r82xx_calculate_stage_gains; r82xx_compute_gain_table;
      upd_r82p (\<lambda>p. p\<lparr>r82_init_done := True\<rparr>); ret rc }) (\<lambda>rc s. rc = 0 \<and> rstate ?T ?c ?u s)"
    by (rule valid_bind [OF rstate_sysfreq_sel]) (use t in \<open>auto simp: valid_def\<close>)
  have v: "valid ?P r82xx_init (\<lambda>rc s. rc = 0 \<and> rstate ?T ?c ?u s)"
    unfolding r82xx_init_def
    by (rule valid_bind [OF p], rule valid_bind [OF w],
        rule rstate_then [OF rstate_tv_standard [OF assms(5,6)] tail])
  obtain rc s' where run: "run_state r82xx_init s = (rc, s')" by fastforce
  have "rc = 0 \<and> rstate ?T ?c ?u s'"
    by (rule validD [OF v _ run]) (use assms(1-4) in \<open>simp add: r82_bus_def\<close>)
  then show ?thesis using run by (auto simp: rstate_def coherent_def)
qed

text \<open>
  On a bus that completes its transfers, with the 28.8 MHz crystal, \<open>r82xx_init\<close>
  succeeds whatever the chip answers, even when its PLL does not lock or the filter
  calibration fails, and leaves shadow registers that agree with the chip.
\<close>

lemma r82xx_init_succeeds:
  assumes "usb_acks (dev_usb s)" and "2 \<le> cfg_max_i2c_msg_len (dev_r82c s)"
    and "cfg_max_i2c_msg_len (dev_r82c s) \<le> 4294967295"
    and "length (r82_regs (dev_r82p s)) = 30"
    and "cfg_xtal (dev_r82c s) = 28800000" and "cfg_rafael_chip (dev_r82c s) \<noteq> CHIP_R828D"
  shows "\<exists>s'. run_state r82xx_init s = (0, s') \<and> shadow_ok s' \<and> dev_ub s' = dev_ub s"
  by (rule r82xx_init_runs) (rule assms)+

lemma r82xx_init_succeeds_example:
  "\<exists>s'. run_state r82xx_init example_dev = (0, s') \<and> shadow_ok s' \<and> dev_ub s' = dev_ub example_dev"
  by (rule r82xx_init_succeeds) simp_all

text \<open>The state right after \<open>r82xx_init\<close> on the example device.\<close>

definition r82_example :: rtlsdr_dev where
  "r82_example = snd (run_state r82xx_init example_dev)"

lemma r82_example_run: "run_state r82xx_init example_dev = (0, r82_example)"
proof -
  have "\<exists>s'. run_state r82xx_init example_dev = (0, s')"
    using r82xx_init_runs [of example_dev] by auto
  then show ?thesis by (auto simp: r82_example_def)
qed

lemma r82_example:
  "coherent r82_example" "cfg_xtal (dev_r82c r82_example) = 28800000"
  "cfg_rafael_chip (dev_r82c r82_example) = CHIP_R820T"
proof -
  obtain rc where run: "run_state r82xx_init example_dev = (rc, r82_example)"
    unfolding r82_example_def by (metis prod.collapse)
  show "coherent r82_example"
    by (rule validD [OF valid_r82xx_init _ run]) (simp add: r82_bus_def)
  have "same_core example_dev r82_example"
    using state_io_rel_run [OF rel_r82xx_init run]
    by (simp add: bus_rel_def)
  then show "cfg_xtal (dev_r82c r82_example) = 28800000"
    "cfg_rafael_chip (dev_r82c r82_example) = CHIP_R820T"
    by (simp_all add: same_core_def)
qed

theorem r82xx_pll_accurate_witness:
  "\<exists>s' m r14 r15 r16. run_state (r82xx_set_pll 165570000) r82_example = (0, s') \<and>
    dev_ub s' = dev_ub r82_example \<and> m \<in> {2, 4, 8, 16, 32, 64} \<and>
    chip_reg (cfg_i2c_addr (dev_r82c r82_example)) (dev_xfers s') 0x14 = Some r14 \<and>
    chip_reg (cfg_i2c_addr (dev_r82c r82_example)) (dev_xfers s') 0x15 = Some r15 \<and>
    chip_reg (cfg_i2c_addr (dev_r82c r82_example)) (dev_xfers s') 0x16 = Some r16 \<and>
    \<bar>int (65536 * (165570000 * m)) - int (r82xx_programmed r14 r15 r16)\<bar> \<le> 5000 * 65536"
  by (rule r82xx_pll_accurate) (simp_all add: r82_example)

section \<open>Other crystals\<close>

lemma power_step: "k \<le> 13 \<Longrightarrow> 2 * 2 ^ Suc k mod 65536 = (2 :: nat) ^ Suc (Suc k)"
proof -
  assume "k \<le> 13"
  then have "(2 :: nat) ^ Suc (Suc k) \<le> 2 ^ 15" by (intro power_increasing) simp_all
  then show ?thesis by simp
qed

text \<open>A fraction of 2 kHz is never subtracted from, and the divisor overflows.\<close>

lemma sdm_two:
  assumes "32768 \<le> ref" "ref < 2147483648" "k \<le> 14"
  shows "r82xx_sdm ref (2 ^ Suc k) sdm 2 = None"
  using assms(3)
proof (induction "14 - k" arbitrary: k sdm)
  case 0
  then have k: "(2 :: nat) ^ Suc k = 32768" by simp
  have "2 \<le> 2 * ref div 32768" using assms(1) by (simp add: less_eq_div_iff_mult_less_eq)
  then show ?case unfolding k
    using assms(2) by (subst r82xx_sdm.simps) (simp add: Let_def u32_def r82xx_sdm.simps [of _ 0])
next
  case (Suc x)
  then have k: "k \<le> 13" by simp
  have ih: "r82xx_sdm ref (2 ^ Suc (Suc k)) s 2 = None" for s
    using Suc(1) [of "Suc k"] Suc(2) k by simp
  have "(2 :: nat) ^ Suc k \<le> 2 ^ 14" using k by (intro power_increasing) simp_all
  then have "2 * 2 ^ Suc k \<le> 2 * ref" using assms(1) by simp
  then have "2 \<le> 2 * ref div 2 ^ Suc k" by (simp add: less_eq_div_iff_mult_less_eq)
  then have "\<not> 2 > u32 (2 * ref) div 2 ^ Suc k" using assms(2) by (simp add: u32_def)
  moreover have "(2 :: nat) ^ Suc k \<noteq> 0" by simp
  ultimately show ?case
    by (subst r82xx_sdm.simps) (simp only: Let_def power_step [OF k] ih if_False if_True if_cancel, simp)
qed

text \<open>With 32768 kHz each stage takes off one binary digit of the fraction less one.\<close>

lemma sdm_32768:
  assumes "k \<le> 14" "v \<le> 2 ^ (16 - k)"
  shows "r82xx_sdm 32768 (2 ^ Suc k) sdm v = None \<longleftrightarrow> v mod 4 = 2"
  using assms
proof (induction "14 - k" arbitrary: k sdm v)
  case 0
  then have k: "(2 :: nat) ^ Suc k = 32768" and "v \<le> 4" by simp_all
  then have "v = 0 \<or> v = 1 \<or> v = 2 \<or> v = 3 \<or> v = 4" by auto
  then show ?case unfolding k
    by (subst r82xx_sdm.simps) (auto simp: Let_def u32_def r82xx_sdm.simps [of _ 0])
next
  case (Suc x)
  then have k: "k \<le> 13" by simp
  define q :: nat where "q = 2 ^ (15 - k)"
  have ih: "r82xx_sdm 32768 (2 ^ Suc (Suc k)) s w = None \<longleftrightarrow> w mod 4 = 2" if "w \<le> q" for s w
    using Suc(1) [of "Suc k" w s] Suc(2) k that by (simp add: q_def)
  have "15 - k = 2 + (13 - k)" using k by simp
  then have "q = 4 * 2 ^ (13 - k)" by (simp add: q_def power_add)
  then have q4: "q mod 4 = 0" by simp
  have "16 - k = Suc (15 - k)" using k by simp
  then have v2: "v \<le> 2 * q" using Suc.prems(2) by (simp add: q_def)
  have u: "u32 (2 * 32768) = 65536" by (simp add: u32_def)
  have q: "(65536 :: nat) = q * 2 ^ Suc k" using k by (simp add: q_def flip: power_add)
  have qd: "u32 (2 * 32768) div 2 ^ Suc k = q"
    unfolding u q by (rule nonzero_mult_div_cancel_right) simp
  have m: "(v - q) mod 4 = v mod 4" if "q < v"
    using that q4 by (metis add_0 le_add_diff_inverse less_imp_le mod_add_left_eq)
  have "(2 :: nat) ^ Suc k \<le> 2 ^ 14" using k by (intro power_increasing) simp_all
  then have n: "(2 :: nat) ^ Suc k \<noteq> 0" "\<not> (2 :: nat) ^ Suc k \<ge> 0x8000" by simp_all
  show ?case
  proof (cases "v \<le> 1")
    case False
    then show ?thesis
      using ih [of "v - q"] ih [of v] v2 m n
      by (subst r82xx_sdm.simps) (simp only: Let_def power_step [OF k] qd if_False split: if_split, auto)
  qed (subst r82xx_sdm.simps, auto)
qed

text \<open>
  C35. The successive approximation ends and never divides by zero, whatever the fraction,
  exactly when the crystal rounds to less than 32768 kHz: below 32.7675 MHz, or within 500 Hz of the
  32-bit limit, where the rounding wraps. For every other crystal a fraction of 2 kHz makes
  the 16-bit divisor overflow to 0, which the loop then divides by; for those that round to 32768 kHz
  this is so for exactly every fourth fraction. The crystal frequency
  is a setting of the API, taken without a check.
\<close>

theorem r82xx_sdm_division:
  assumes "xtal < 4294967296"
  shows "let pll_ref_khz = u32 (xtal + 500) div 1000
    in ((\<forall>v. r82xx_sdm pll_ref_khz 2 0 v \<noteq> None) \<longleftrightarrow> xtal < 32767500 \<or> 4294966796 \<le> xtal) \<and>
       (32767500 \<le> xtal \<and> xtal < 32768500 \<longrightarrow>
         (\<forall>v\<le>65536. r82xx_sdm pll_ref_khz 2 0 v = None \<longleftrightarrow> v mod 4 = 2))"
proof -
  define ref where "ref = u32 (xtal + 500) div 1000"
  have ref: "ref < 32768 \<longleftrightarrow> xtal < 32767500 \<or> 4294966796 \<le> xtal"
  proof (cases "xtal < 4294966796")
    case True
    then have "ref = (xtal + 500) div 1000" by (simp add: ref_def u32_def)
    then show ?thesis using True by (auto simp: div_less_iff_less_mult)
  next
    case False
    then have "u32 (xtal + 500) = xtal + 500 - 4294967296" using assms by (simp add: u32_def mod_if)
    then show ?thesis using False assms by (simp add: ref_def div_less_iff_less_mult)
  qed
  have "ref < 2147483648" by (simp add: ref_def u32_def div_less_iff_less_mult less_le_trans [OF mod_less_divisor])
  then have "(\<forall>v. r82xx_sdm ref 2 0 v \<noteq> None) \<longleftrightarrow> ref < 32768"
    using r82xx_sdm_defined [of ref 0 0] sdm_two [of ref 0 0] by (cases "ref < 32768") (auto simp: not_less)
  moreover have "ref = 32768" if "32767500 \<le> xtal" "xtal < 32768500"
    using that by (simp add: ref_def u32_def)
  ultimately show ?thesis
    using ref sdm_32768 [of 0 _ 0] unfolding Let_def ref_def [symmetric] by auto
qed

theorem r82xx_sdm_division_witness:
  "(\<forall>v. r82xx_sdm 28800 2 0 v \<noteq> None) \<and> r82xx_sdm 32768 2 0 4098 = None"
  using r82xx_sdm_division [of 28800000] r82xx_sdm_division [of 32767900]
  by (simp add: Let_def u32_def)

end
