(* ===== verification/R82xxGains.thy ===== *)
theory R82xxGains
  imports R82xxPll
begin

text \<open>
  The gain tables of the R820T: after the initialisation they always belong to the gain mode
  of the tuner, so looking a gain up never leaves a table, and asking for a gain of the table
  selects stage settings whose gains add up to exactly that value.
\<close>

definition stages_ok :: "r82xx_statics \<Rightarrow> bool" where
  "stages_ok s \<longleftrightarrow> LNA_stage s = cumulate 0 r82xx_lna_gain_steps \<and>
     Mixer_stage s = cumulate 0 r82xx_mixer_gain_steps \<and>
     IF_stage s = cumulate VGA_BASE_GAIN r82xx_vga_gain_steps"

definition r82xx_table :: "int \<Rightarrow> r82xx_statics \<Rightarrow> int list" where
  "r82xx_table mode s =
     (if mode = GAIN_MODE_LINEARITY \<or> mode = GAIN_MODE_SENSITIVITY
      then r82xx_index_table (r82xx_gain_index_table mode) s else r82xx_manual_table)"

definition gain_ok :: "rtlsdr_dev \<Rightarrow> bool" where
  "gain_ok s \<longleftrightarrow> r82_gain_mode (dev_r82p s) \<in> {0, 1, 2, 3} \<and> stages_ok (dev_r82s s) \<and>
     (let t = r82xx_table (r82_gain_mode (dev_r82p s)) (dev_r82s s)
      in r82_gain_table_len (dev_r82s s) = length t \<and>
         take (length t) (r82_gain_table (dev_r82s s)) = t)"

section \<open>The invariant\<close>

text \<open>Register access leaves the gain mode and the tables alone.\<close>

definition gain_same :: "rtlsdr_dev \<Rightarrow> rtlsdr_dev \<Rightarrow> bool" where
  "gain_same s t \<longleftrightarrow>
     r82_gain_mode (dev_r82p t) = r82_gain_mode (dev_r82p s) \<and> dev_r82s t = dev_r82s s"

interpretation gs_step: step_rel gain_same
  by unfold_locales (auto simp: gain_same_def)

lemma gs_ctrl_out: "gs_step.rel (ctrl_out v i d)"
  by (simp add: state_io_rel_def ctrl_out_def Let_def gain_same_def)

lemma gs_ctrl_in: "gs_step.rel (ctrl_in v i d)"
  by (simp add: state_io_rel_def ctrl_in_def Let_def gain_same_def)

lemma gs_fns: "gs_step.rel (rtlsdr_i2c_write_fn a d)" "gs_step.rel (rtlsdr_i2c_read_fn a d)"
  unfolding rtlsdr_i2c_write_fn_def rtlsdr_write_array_def rtlsdr_i2c_read_fn_def
    rtlsdr_read_array_def by (rule gs_ctrl_out gs_ctrl_in)+

lemma gs_chunks: "gs_step.rel (r82xx_chunks m a r v)"
proof (induction m a r v rule: r82xx_chunks.induct)
  case (1 m a r v)
  then show ?case unfolding r82xx_chunks.simps [of m a r v]
    by (intro gs_step.rel_rules gs_fns) auto
qed

lemma gs_upd: "(\<And>p. r82_gain_mode (f p) = r82_gain_mode p) \<Longrightarrow> gs_step.rel (upd_r82p f)"
  by (simp add: state_io_rel_def upd_r82p_def gain_same_def)

interpretation gs: r82_rel gain_same
proof unfold_locales
  have f: "gs_step.rel fault" by (simp add: state_io_rel_def gain_same_def)
  then show "gs_step.rel fault" .
  show "gs_step.rel (r82xx_write reg val)" for reg val
    unfolding r82xx_write_def by (intro gs_step.rel_rules gs_chunks gs_upd f) simp
  show "gs_step.rel (r82xx_read reg old)" for reg old
    unfolding r82xx_read_def by (intro gs_step.rel_rules gs_fns)
  show "gs_step.rel (upd_r82p g)"
    if "\<And>p. r82_regs (g p) = r82_regs p \<and> r82_gain_mode (g p) = r82_gain_mode p" for g
    using that by (simp add: gs_upd)
qed

lemma gain_ok_same: "gain_same s t \<Longrightarrow> gain_ok s \<Longrightarrow> gain_ok t"
  by (simp add: gain_same_def gain_ok_def)

lemma keeps_gain_ok: "gs_step.rel m \<Longrightarrow> keeps gain_ok m"
  unfolding keeps_iff state_io_rel_def imp_rel_def using gain_ok_same by blast

lemma run_compute_gain_table:
  assumes "r82_gain_mode (dev_r82p s) \<in> {0, 1, 2, 3}" and "stages_ok (dev_r82s s)"
  shows "gain_ok (snd (run_state r82xx_compute_gain_table s))"
  using assms
  by (auto simp: gain_ok_def r82xx_compute_gain_table_def r82xx_table_def set_gain_table_def
      stages_ok_def GAIN_MODE_AGC_def GAIN_MODE_MANUAL_def GAIN_MODE_LINEARITY_def
      GAIN_MODE_SENSITIVITY_def r82xx_index_table_def Let_def)

lemma keeps_gain_mode:
  assumes "m \<in> {0, 1, 2, 3}"
  shows "keeps gain_ok (do { upd_r82p (\<lambda>p. p\<lparr>r82_gain_mode := m\<rparr>); r82xx_compute_gain_table })"
  unfolding keeps_def valid_def
proof (intro allI impI)
  fix s assume "gain_ok s"
  then have "gain_ok (snd (run_state r82xx_compute_gain_table
      (s\<lparr>dev_r82p := (dev_r82p s)\<lparr>r82_gain_mode := m\<rparr>\<rparr>)))"
    using assms by (intro run_compute_gain_table) (simp_all add: gain_ok_def)
  then show "case run_state (do { upd_r82p (\<lambda>p. p\<lparr>r82_gain_mode := m\<rparr>); r82xx_compute_gain_table }) s
      of (a, s') \<Rightarrow> gain_ok s'"
    by (simp add: upd_r82p_def case_prod_unfold)
qed

interpretation gk: r82_rel "imp_rel gain_ok"
  rewrites "state_io_rel (imp_rel gain_ok) \<equiv> keeps gain_ok"
proof -
  show "r82_rel (imp_rel gain_ok)"
    by (unfold_locales, unfold keeps_iff [symmetric])
      (auto intro!: keeps_gain_ok gs.rel_write gs.rel_read gs.rel_upd gs.rel_ub)
  show "state_io_rel (imp_rel gain_ok) \<equiv> keeps gain_ok"
    by (rule eq_reflection) (simp add: fun_eq_iff keeps_iff)
qed

lemma keeps_gain_ok_mode: "keeps gain_ok (r82xx_enable_manual_gain g)"
  by (rule gk.rel_enable_manual_gain) (rule keeps_gain_mode)

lemma keeps_gain_ok_call: "keeps gain_ok (r82_call c)"
  by (cases c)
    (simp_all add: gk.rel_set_freq gk.rel_set_gain keeps_gain_ok_mode
       gk.rel_set_tuner_stage_gain gk.rel_set_bandwidth gk.rel_standby)

text \<open>A successful initialisation establishes the invariant.\<close>

lemma gs_tv_standard: "gs_step.rel (r82xx_set_tv_standard bw type delsys)"
  unfolding r82xx_set_tv_standard_def Let_def
  by (intro gs_step.rel_bind gs.rel_junk_bytes gs_upd gs.rel_tv_standard_regs) simp

lemma valid_gain_mode:
  "gs_step.rel m \<Longrightarrow> valid (\<lambda>s. r82_gain_mode (dev_r82p s) \<in> M) m
     (\<lambda>_ s. r82_gain_mode (dev_r82p s) \<in> M)"
  by (simp add: valid_def state_io_rel_def gain_same_def case_prod_unfold)

lemma r82xx_init_gain_ok:
  assumes mode: "r82_gain_mode (dev_r82p s) \<in> {0, 1, 2, 3}"
    and run: "run_state r82xx_init s = (rc, s')" and rc: "0 \<le> rc"
  shows "gain_ok s'"
proof -
  let ?M = "\<lambda>s. r82_gain_mode (dev_r82p s) \<in> {0, 1, 2, 3}"
  note gm = valid_gain_mode [where M = "{0, 1, 2, 3}"]
  have tail: "valid ?M (do {
        rc \<leftarrow> r82xx_sysfreq_sel 0 TUNER_DIGITAL_TV SYS_DVBT;
        r82xx_calculate_stage_gains;
        r82xx_compute_gain_table;
        upd_r82p (\<lambda>p. p\<lparr>r82_init_done := True\<rparr>);
        ret rc }) (\<lambda>_. gain_ok)"
  proof (rule valid_bind [OF gm [OF gs.rel_sysfreq_sel]], rule valid_bind)
    show "valid ?M r82xx_calculate_stage_gains (\<lambda>_ s. ?M s \<and> stages_ok (dev_r82s s))"
      by (simp add: valid_def r82xx_calculate_stage_gains_def stages_ok_def)
    have "valid (\<lambda>s. ?M s \<and> stages_ok (dev_r82s s)) r82xx_compute_gain_table (\<lambda>_. gain_ok)"
      using run_compute_gain_table by (auto simp: valid_def case_prod_unfold)
    then show "valid (\<lambda>s. ?M s \<and> stages_ok (dev_r82s s)) (do {
        r82xx_compute_gain_table; upd_r82p (\<lambda>p. p\<lparr>r82_init_done := True\<rparr>); ret rc }) (\<lambda>_. gain_ok)"
      for rc by (rule valid_bind) (simp add: valid_def upd_r82p_def gain_ok_def)
  qed
  have tv: "valid ?M (steps [r82xx_set_tv_standard 3 TUNER_DIGITAL_TV 0] (do {
        rc \<leftarrow> r82xx_sysfreq_sel 0 TUNER_DIGITAL_TV SYS_DVBT;
        r82xx_calculate_stage_gains;
        r82xx_compute_gain_table;
        upd_r82p (\<lambda>p. p\<lparr>r82_init_done := True\<rparr>);
        ret rc })) (\<lambda>rc s. 0 \<le> rc \<longrightarrow> gain_ok s)"
    unfolding steps.simps
    by (rule valid_bind [OF gm [OF gs_tv_standard]], rule valid_if)
      (simp add: valid_ret, rule valid_conseq [OF tail], simp_all)
  have "valid ?M r82xx_init (\<lambda>rc s. 0 \<le> rc \<longrightarrow> gain_ok s)"
    unfolding r82xx_init_def
    by (intro valid_bind [OF gm [OF gs_upd]] valid_bind [OF gm [OF gs.rel_write]] tv)
      (simp_all add: r82xx_init_array_def)
  from validD [OF this mode run] rc show ?thesis by simp
qed

section \<open>Looking a gain up\<close>

lemma manual_index_bounds:
  "r82xx_manual_index n gain t l m = (l', m') \<Longrightarrow> l' \<le> l + n \<and> m' \<le> m + n"
  by (induction n gain t l m rule: r82xx_manual_index.induct)
    (auto simp: Let_def split: if_splits)

lemma table_index_le: "r82xx_table_index t g i \<le> i"
  by (induction i) auto

lemma table_index_hit:
  assumes "sorted_wrt (<) t" and "i \<le> n" and "n < length t"
  shows "r82xx_table_index t (t ! i) n = i"
  using assms(2,3)
proof (induction n)
  case (Suc n)
  show ?case
  proof (cases "i = Suc n")
    case False
    then have "t ! i < t ! Suc n" using Suc.prems sorted_wrt_nth_less [OF assms(1), of i "Suc n"] by simp
    then show ?thesis using Suc False by simp
  qed simp
qed simp

lemma gain_index_bounds:
  assumes "k < 22"
  shows "lna_gain_index (r82xx_gain_index_table m) ! k < 16"
    and "mix_gain_index (r82xx_gain_index_table m) ! k < 16"
    and "vga_gain_index (r82xx_gain_index_table m) ! k < 16"
proof -
  have "\<forall>x\<in>set (lna_gain_index (r82xx_gain_index_table m)). x < 16"
    "\<forall>x\<in>set (mix_gain_index (r82xx_gain_index_table m)). x < 16"
    "\<forall>x\<in>set (vga_gain_index (r82xx_gain_index_table m)). x < 16"
    "length (lna_gain_index (r82xx_gain_index_table m)) = 22"
    "length (mix_gain_index (r82xx_gain_index_table m)) = 22"
    "length (vga_gain_index (r82xx_gain_index_table m)) = 22"
    by (simp_all add: r82xx_gain_index_table_def gain_index_linearity_def gain_index_sensitivity_def)
  with assms show "lna_gain_index (r82xx_gain_index_table m) ! k < 16"
    "mix_gain_index (r82xx_gain_index_table m) ! k < 16"
    "vga_gain_index (r82xx_gain_index_table m) ! k < 16" by (metis nth_mem)+
qed

lemma gain_indices_bounds:
  assumes ok: "gain_ok s2"
  shows "\<exists>l m v. r82xx_gain_indices (r82_gain_mode (dev_r82p s2)) (dev_r82s s2) gain = Some (l, m, v)
    \<and> l < 16 \<and> m < 16 \<and> v < 16"
proof -
  let ?mode = "r82_gain_mode (dev_r82p s2)"
  consider "?mode = 0" | "?mode = 1" | "?mode = 2 \<or> ?mode = 3"
    using ok by (auto simp: gain_ok_def)
  then show ?thesis
  proof cases
    case 2
    obtain l m where lm: "r82xx_manual_index 15 gain 0 0 0 = (l, m)" by fastforce
    then have "l \<le> 15 \<and> m \<le> 15" using manual_index_bounds [OF lm] by simp
    then show ?thesis
      using 2 lm by (simp add: r82xx_gain_indices_def GAIN_MODE_MANUAL_def MANUAL_GAIN_VGA_INDEX_def)
  next
    case 3
    then have "r82_gain_table_len (dev_r82s s2) = 22"
      using ok by (auto simp: gain_ok_def r82xx_table_def GAIN_MODE_LINEARITY_def
          GAIN_MODE_SENSITIVITY_def r82xx_index_table_def SIZE_GAIN_TABLE_def Let_def)
    moreover define i where "i = r82xx_table_index (r82_gain_table (dev_r82s s2)) gain 21"
    moreover have "i \<le> 21" unfolding i_def by (rule table_index_le)
    then have "\<not> 22 \<le> i" "22 - i - 1 < 22" by simp_all
    ultimately show ?thesis
      using 3 gain_index_bounds [OF \<open>22 - i - 1 < 22\<close>, of ?mode]
      by (auto simp: r82xx_gain_indices_def GAIN_MODE_MANUAL_def GAIN_MODE_LINEARITY_def
          GAIN_MODE_SENSITIVITY_def SIZE_GAIN_TABLE_def Let_def)
  qed (simp add: r82xx_gain_indices_def GAIN_MODE_MANUAL_def GAIN_MODE_LINEARITY_def
      GAIN_MODE_SENSITIVITY_def)
qed

text \<open>
  After a successful \<open>r82xx_init\<close> and any sequence of calls of the driver, a gain
  request of any value selects LNA, mixer and VGA settings inside the sixteen-entry step tables:
  the loops over the gain tables never leave an array, in any of the gain modes.
\<close>

lemma r82xx_gain_safe:
  assumes "r82_gain_mode (dev_r82p s) \<in> {0, 1, 2, 3}"
    and "run_state r82xx_init s = (rc, s1)" and "0 \<le> rc"
    and "run_state (seqs (map r82_call calls)) s1 = ((), s2)"
  shows "\<exists>l m v. r82xx_gain_indices (r82_gain_mode (dev_r82p s2)) (dev_r82s s2) gain = Some (l, m, v)
    \<and> l < 16 \<and> m < 16 \<and> v < 16"
proof -
  have "keeps gain_ok (seqs (map r82_call calls))"
    by (intro keeps_rules) (auto simp: keeps_gain_ok_call)
  from keepsD [OF this assms(4)] have ok: "gain_ok s2"
    using r82xx_init_gain_ok [OF assms(1-3)] by simp
  show ?thesis by (rule gain_indices_bounds [OF ok])
qed

lemma r82xx_gain_safe_example:
  "\<exists>l m v. r82xx_gain_indices
      (r82_gain_mode (dev_r82p (snd (run_state (seqs (map r82_call [SetGain 300])) r82_example))))
      (dev_r82s (snd (run_state (seqs (map r82_call [SetGain 300])) r82_example))) 100000 = Some (l, m, v)
    \<and> l < 16 \<and> m < 16 \<and> v < 16"
  by (rule r82xx_gain_safe [OF _ r82_example_run _ run_unit]) (simp_all add: example_dev_def)

text \<open>The tables of the two indexed modes and of the manual mode.\<close>

lemma r82xx_index_tables:
  assumes "stages_ok s"
  shows "r82xx_table 2 s = [-77, -59, -9, 36, 98, 111, 143, 174, 188, 197, 229, 251, 287, 313,
      354, 388, 439, 489, 504, 547, 632, 661]"
    and "r82xx_table 3 s = [-66, -23, 0, 41, 82, 117, 158, 209, 240, 292, 319, 324, 375, 399,
      425, 439, 471, 507, 541, 576, 624, 661]"
  using assms
  by (simp_all add: r82xx_table_def r82xx_index_table_def stages_ok_def SIZE_GAIN_TABLE_def
      GAIN_MODE_LINEARITY_def GAIN_MODE_SENSITIVITY_def r82xx_gain_index_table_def
      gain_index_linearity_def gain_index_sensitivity_def r82xx_lna_gain_steps_def
      r82xx_mixer_gain_steps_def r82xx_vga_gain_steps_def VGA_BASE_GAIN_def
      MANUAL_GAIN_VGA_INDEX_def upt_rec)

lemma r82xx_manual_table:
  "r82xx_manual_table = [0, 9, 14, 27, 37, 77, 87, 125, 144, 157, 166, 197, 207, 229, 254, 280,
     297, 328, 338, 364, 372, 386, 402, 421, 434, 439, 445, 480, 483, 496]"
  by code_simp

definition manual_exact :: "int \<Rightarrow> bool" where
  "manual_exact g = (case r82xx_manual_index 15 g 0 0 0 of (l, m) \<Rightarrow>
     cumulate 0 r82xx_lna_gain_steps ! l + cumulate 0 r82xx_mixer_gain_steps ! m = g)"

lemma manual_exact_table: "list_all manual_exact r82xx_manual_table"
  by code_simp

lemma r82xx_indices_exact:
  assumes ok: "gain_ok s" and mode: "r82_gain_mode (dev_r82p s) \<noteq> 0"
    and g: "g \<in> set (take (r82_gain_table_len (dev_r82s s)) (r82_gain_table (dev_r82s s)))"
  obtains l m v where "r82xx_gain_indices (r82_gain_mode (dev_r82p s)) (dev_r82s s) g = Some (l, m, v)"
    and "LNA_stage (dev_r82s s) ! l + Mixer_stage (dev_r82s s) ! m + IF_stage (dev_r82s s) ! v
      - IF_stage (dev_r82s s) ! MANUAL_GAIN_VGA_INDEX = g"
proof -
  let ?mode = "r82_gain_mode (dev_r82p s)" and ?st = "dev_r82s s"
  define t where "t = r82xx_table ?mode ?st"
  have st: "stages_ok ?st" and len: "r82_gain_table_len ?st = length t"
    and tab: "take (length t) (r82_gain_table ?st) = t"
    using ok by (auto simp: gain_ok_def t_def Let_def)
  have gt: "g \<in> set t" using g by (simp add: len tab)
  consider "?mode = 1" | "?mode = 2 \<or> ?mode = 3" using ok mode by (auto simp: gain_ok_def)
  then show thesis
  proof cases
    case 1
    then have "t = r82xx_manual_table"
      by (simp add: t_def r82xx_table_def GAIN_MODE_LINEARITY_def GAIN_MODE_SENSITIVITY_def)
    then have "manual_exact g" using gt manual_exact_table by (auto simp: list_all_iff)
    then show thesis
      using st 1 by (auto simp: manual_exact_def r82xx_gain_indices_def GAIN_MODE_MANUAL_def
          stages_ok_def split: prod.splits intro!: that)
  next
    case 2
    then have t22: "length t = 22" "sorted_wrt (<) t"
      using r82xx_index_tables [OF st] by (auto simp: t_def)
    obtain i where i: "i < 22" "g = t ! i" using gt t22(1) by (metis in_set_conv_nth)
    have nth: "r82_gain_table ?st ! j = t ! j" if "j < 22" for j
      using that tab t22(1) by (metis nth_take)
    have "r82xx_table_index (r82_gain_table ?st) g 21 = r82xx_table_index t g 21"
    proof -
      have "r82xx_table_index (r82_gain_table ?st) g j = r82xx_table_index t g j" if "j < 22" for j
        using that by (induction j) (auto simp: nth)
      then show ?thesis by simp
    qed
    then have hit: "r82xx_table_index (r82_gain_table ?st) g 21 = i"
      using table_index_hit [OF t22(2), of i 21] i t22(1) by simp
    have "t = r82xx_index_table (r82xx_gain_index_table ?mode) ?st"
      using 2 by (auto simp: t_def r82xx_table_def GAIN_MODE_LINEARITY_def GAIN_MODE_SENSITIVITY_def)
    then have "t ! i = LNA_stage ?st ! (lna_gain_index (r82xx_gain_index_table ?mode) ! (22 - i - 1)) +
       Mixer_stage ?st ! (mix_gain_index (r82xx_gain_index_table ?mode) ! (22 - i - 1)) +
       IF_stage ?st ! (vga_gain_index (r82xx_gain_index_table ?mode) ! (22 - i - 1)) -
       IF_stage ?st ! MANUAL_GAIN_VGA_INDEX"
      using i(1) by (simp add: r82xx_index_table_def SIZE_GAIN_TABLE_def)
    then show thesis
      using 2 i hit len t22(1)
      by (intro that) (auto simp: r82xx_gain_indices_def GAIN_MODE_MANUAL_def
          GAIN_MODE_LINEARITY_def GAIN_MODE_SENSITIVITY_def SIZE_GAIN_TABLE_def Let_def)
  qed
qed

section \<open>Setting a gain of the table\<close>

lemma rstate_mask_exact:
  assumes r: "5 \<le> unat reg" "unat reg \<le> 34"
    and P: "\<And>xs. length xs = 30 \<Longrightarrow> P xs \<Longrightarrow>
      Q (xs[unat reg - 5 := (xs ! (unat reg - 5) AND NOT m) OR (v AND m)])"
  shows "valid (rstate P c u) (r82xx_write_reg_mask reg v m) (\<lambda>rc s. rc = 0 \<and> rstate Q c u s)"
proof (rule validI)
  fix s rc s'
  assume s: "rstate P c u s" and run: "run_state (r82xx_write_reg_mask reg v m) s = (rc, s')"
  have "int 5 \<le> int (unat reg)" "int (unat reg) \<le> int 34" using r by (simp_all only: of_nat_le_iff)
  then have "0 \<le> uint reg - 5" "uint reg - 5 < 30" "nat (uint reg - 5) = unat reg - 5"
    by (simp_all add: nat_diff_distrib')
  define w where "w = (r82_regs (dev_r82p s) ! (unat reg - 5) AND NOT m) OR (v AND m)"
  have run': "run_state (r82xx_write_reg reg w) s = (rc, s')"
    using run \<open>0 \<le> uint reg - 5\<close> \<open>uint reg - 5 < 30\<close> \<open>nat (uint reg - 5) = unat reg - 5\<close>
    by (simp add: r82xx_write_reg_mask_def r82xx_read_cache_reg_def r82xx_write_reg_def
        REG_SHADOW_START_def NUM_REGS_def Let_def u8_of_int_def w_def)
  have v: "valid (rstate (\<lambda>xs. P xs \<and> xs = r82_regs (dev_r82p s)) c u) (r82xx_write_reg reg w)
      (\<lambda>rc s. rc = 0 \<and> rstate Q c u s)"
    by (rule rstate_write_reg [OF r]) (use P in \<open>auto simp: w_def\<close>)
  show "rc = 0 \<and> rstate Q c u s'"
    by (rule validD [OF v _ run']) (use s in \<open>simp add: rstate_def\<close>)
qed

text \<open>The amplifier settings in the shadow: LNA in register 5, mixer in 7, VGA in 12.\<close>

definition gain_regs :: "nat option \<Rightarrow> nat option \<Rightarrow> nat option \<Rightarrow> u8 list \<Rightarrow> bool" where
  "gain_regs l m v xs \<longleftrightarrow>
     (l = None \<or> l = Some (unat (xs ! 0 AND 0x0f))) \<and>
     (m = None \<or> m = Some (unat (xs ! 2 AND 0x0f))) \<and>
     (v = None \<or> v = Some (unat (xs ! 7 AND 0x9f)))"

lemma nibble_mask:
  assumes "n < 16"
  shows "unat (((x AND NOT 0x0f) OR (u8_of_nat n AND 0x0f)) AND 0x0f) = n"
    and "unat (((x AND NOT 0x9f) OR (u8_of_nat n AND 0x9f)) AND 0x9f) = n"
proof -
  have m: "((x AND NOT k) OR (y AND k)) AND k = y AND k" for y k :: u8
    by (simp add: bit_eq_iff bit_simps) blast
  have "n \<in> {..<16}" using assms by simp
  then have "u8_of_nat n AND 0x0f = u8_of_nat n" "u8_of_nat n AND 0x9f = u8_of_nat n"
    by (auto simp: u8_of_nat_def lessThan_nat_numeral lessThan_Suc)
  then show "unat (((x AND NOT 0x0f) OR (u8_of_nat n AND 0x0f)) AND 0x0f) = n"
    "unat (((x AND NOT 0x9f) OR (u8_of_nat n AND 0x9f)) AND 0x9f) = n"
    unfolding m using assms by (simp_all add: u8_of_nat_def unat_of_nat)
qed

lemma valid_gain_writes:
  assumes "l < 16" "m < 16" "v < 16"
  shows "valid (rstate (\<lambda>_. True) c u)
    (steps [r82xx_write_reg_mask 0x0c (u8_of_nat v) 0x9f, r82xx_write_reg_mask 0x05 (u8_of_nat l) 0x0f,
       r82xx_write_reg_mask 0x07 (u8_of_nat m) 0x0f] (ret 0))
    (\<lambda>rc s. rc = 0 \<and> rstate (gain_regs (Some l) (Some m) (Some v)) c u s)"
proof -
  have 1: "valid (rstate (gain_regs (Some l) None (Some v)) c u)
    (steps [r82xx_write_reg_mask 0x07 (u8_of_nat m) 0x0f] (ret 0))
    (\<lambda>rc s. rc = 0 \<and> rstate (gain_regs (Some l) (Some m) (Some v)) c u s)"
    by (rule rstate_then [OF rstate_mask_exact valid_ret])
      (use nibble_mask [OF assms(2)] in \<open>auto simp: gain_regs_def\<close>)
  have 2: "valid (rstate (gain_regs None None (Some v)) c u)
    (steps [r82xx_write_reg_mask 0x05 (u8_of_nat l) 0x0f, r82xx_write_reg_mask 0x07 (u8_of_nat m) 0x0f]
      (ret 0)) (\<lambda>rc s. rc = 0 \<and> rstate (gain_regs (Some l) (Some m) (Some v)) c u s)"
    unfolding steps_Cons2
    by (rule rstate_then [OF rstate_mask_exact 1])
      (use nibble_mask [OF assms(1)] in \<open>auto simp: gain_regs_def\<close>)
  show ?thesis
    unfolding steps_Cons2
    by (rule rstate_then [OF rstate_mask_exact 2 [unfolded steps_Cons2]])
      (use nibble_mask [OF assms(3)] in \<open>auto simp: gain_regs_def\<close>)
qed

text \<open>
  C6. In each of the manual gain modes, asking for a gain of the tuner's gain table
  programs the chip with LNA, mixer and VGA settings whose stage gains add up to exactly that
  gain (relative to the fixed VGA setting of the manual mode): the call returns 0 and the three
  indices stand in the chip's registers 0x05, 0x07 and 0x0c.
\<close>

theorem r82xx_set_gain_exact:
  assumes co: "coherent s" and ok: "gain_ok s" and mode: "r82_gain_mode (dev_r82p s) \<noteq> 0"
    and g: "g \<in> set (take (r82_gain_table_len (dev_r82s s)) (r82_gain_table (dev_r82s s)))"
  shows "\<exists>s' r5 r7 r12. run_state (r82xx_set_gain g) s = (0, s') \<and>
    chip_reg (cfg_i2c_addr (dev_r82c s)) (dev_xfers s') 0x05 = Some r5 \<and>
    chip_reg (cfg_i2c_addr (dev_r82c s)) (dev_xfers s') 0x07 = Some r7 \<and>
    chip_reg (cfg_i2c_addr (dev_r82c s)) (dev_xfers s') 0x0c = Some r12 \<and>
    LNA_stage (dev_r82s s) ! unat (r5 AND 0x0f) + Mixer_stage (dev_r82s s) ! unat (r7 AND 0x0f) +
      IF_stage (dev_r82s s) ! unat (r12 AND 0x9f) - IF_stage (dev_r82s s) ! MANUAL_GAIN_VGA_INDEX = g"
proof -
  obtain l m v where ind: "r82xx_gain_indices (r82_gain_mode (dev_r82p s)) (dev_r82s s) g = Some (l, m, v)"
    and tot: "LNA_stage (dev_r82s s) ! l + Mixer_stage (dev_r82s s) ! m + IF_stage (dev_r82s s) ! v
      - IF_stage (dev_r82s s) ! MANUAL_GAIN_VGA_INDEX = g"
    by (rule r82xx_indices_exact [OF ok mode g])
  have b: "l < 16" "m < 16" "v < 16" using gain_indices_bounds [OF ok, of g] ind by auto
  define d0 where "d0 = map (stack_junk (dev_usb s) (dev_xfers s)) [0..<4]"
  obtain rc d s1 where rd: "run_state (r82xx_read 0x00 d0) s = ((rc, d), s1)"
    by (metis prod.collapse)
  have r0: "rstate (\<lambda>_. True) (dev_r82c s) (dev_ub s) s" using co by (simp add: rstate_def)
  have r1: "rc = 0" "rstate (\<lambda>_. True) (dev_r82c s) (dev_ub s) s1"
    using validD [OF rstate_read r0 rd] by simp_all
  have "dev_r82s s1 = dev_r82s s" using state_io_rel_run [OF gs.rel_read rd] by (simp add: gain_same_def)
  then have run: "run_state (r82xx_set_gain g) s = run_state (steps [r82xx_write_reg_mask 0x0c (u8_of_nat v) 0x9f,
      r82xx_write_reg_mask 0x05 (u8_of_nat l) 0x0f, r82xx_write_reg_mask 0x07 (u8_of_nat m) 0x0f] (ret 0)) s1"
    using rd r1(1) mode ind
    by (simp add: r82xx_set_gain_def junk_def flip: d0_def del: steps.simps)
  obtain rc' s' where run': "run_state (steps [r82xx_write_reg_mask 0x0c (u8_of_nat v) 0x9f,
      r82xx_write_reg_mask 0x05 (u8_of_nat l) 0x0f, r82xx_write_reg_mask 0x07 (u8_of_nat m) 0x0f] (ret 0)) s1
      = (rc', s')" by fastforce
  from validD [OF valid_gain_writes [OF b] r1(2) run']
  have rc': "rc' = 0" and co': "coherent s'" and c': "dev_r82c s' = dev_r82c s"
    and regs: "gain_regs (Some l) (Some m) (Some v) (r82_regs (dev_r82p s'))"
    by (auto simp: rstate_def)
  have "chip_reg (cfg_i2c_addr (dev_r82c s)) (dev_xfers s') (5 + of_nat k) =
      Some (r82_regs (dev_r82p s') ! k)" if "k < 30" for k
    using co' that by (simp add: coherent_def shadow_ok_def c')
  from this [of 0] this [of 2] this [of 7] run run' rc' regs tot show ?thesis
    by (auto simp: gain_regs_def)
qed

text \<open>The example tuner with its tables in the mode optimised for sensitivity.\<close>

definition r82_example3 :: rtlsdr_dev where
  "r82_example3 = snd (run_state (do { r82xx_calculate_stage_gains;
     upd_r82p (\<lambda>p. p\<lparr>r82_gain_mode := 3\<rparr>); r82xx_compute_gain_table }) r82_example)"

lemma r82_example3:
  "coherent r82_example3" "gain_ok r82_example3" "r82_gain_mode (dev_r82p r82_example3) = 3"
proof -
  have "keeps coherent (do { r82xx_calculate_stage_gains;
     upd_r82p (\<lambda>p. p\<lparr>r82_gain_mode := 3\<rparr>); r82xx_compute_gain_table })"
    by (intro keeps_rules keeps_stage_gains keeps_compute_gain_table keeps_upd_r82p) simp
  from keepsD [OF this run_unit] show "coherent r82_example3"
    by (simp add: r82_example3_def r82_example(1))
  show "gain_ok r82_example3"
    unfolding r82_example3_def
    by (simp add: r82xx_calculate_stage_gains_def upd_r82p_def)
      (rule run_compute_gain_table, simp_all add: stages_ok_def)
  show "r82_gain_mode (dev_r82p r82_example3) = 3"
    by (simp add: r82_example3_def r82xx_calculate_stage_gains_def upd_r82p_def
        r82xx_compute_gain_table_def GAIN_MODE_AGC_def GAIN_MODE_MANUAL_def
        GAIN_MODE_LINEARITY_def GAIN_MODE_SENSITIVITY_def)
qed

theorem r82xx_set_gain_exact_witness:
  "\<exists>s' r5 r7 r12. run_state (r82xx_set_gain 661) r82_example3 = (0, s') \<and>
    chip_reg (cfg_i2c_addr (dev_r82c r82_example3)) (dev_xfers s') 0x05 = Some r5 \<and>
    chip_reg (cfg_i2c_addr (dev_r82c r82_example3)) (dev_xfers s') 0x07 = Some r7 \<and>
    chip_reg (cfg_i2c_addr (dev_r82c r82_example3)) (dev_xfers s') 0x0c = Some r12 \<and>
    LNA_stage (dev_r82s r82_example3) ! unat (r5 AND 0x0f) +
      Mixer_stage (dev_r82s r82_example3) ! unat (r7 AND 0x0f) +
      IF_stage (dev_r82s r82_example3) ! unat (r12 AND 0x9f) -
      IF_stage (dev_r82s r82_example3) ! MANUAL_GAIN_VGA_INDEX = 661"
proof (rule r82xx_set_gain_exact)
  show "661 \<in> set (take (r82_gain_table_len (dev_r82s r82_example3))
      (r82_gain_table (dev_r82s r82_example3)))"
    using r82_example3(2,3) r82xx_index_tables(2) [of "dev_r82s r82_example3"]
    by (simp add: gain_ok_def Let_def)
qed (simp_all add: r82_example3)

section \<open>Bandwidth and bit order\<close>

lemma r82xx_bw_index_cases:
  "r82xx_bw_index r82xx_bandwidth_table bw =
     (if bw < 350000 then 0 else if bw < 475000 then 1 else if bw < 625000 then 2
      else if bw < 850000 then 3 else if bw < 1100000 then 4 else if bw < 1250000 then 5
      else if bw < 1450000 then 6 else if bw < 1900000 then 7 else 8)"
  by (simp add: r82xx_bandwidth_table_def signed_divide_int_def)

text \<open>
  \<open>r82xx_set_bandwidth\<close> selects a filter whose bandwidth is as near to the requested
  one as any filter of the table.
\<close>

lemma r82xx_bw_nearest:
  assumes "b \<in> set r82xx_bandwidth_table"
  shows "r82xx_bw_index r82xx_bandwidth_table bw < 9 \<and>
    \<bar>r82xx_bandwidth_table ! r82xx_bw_index r82xx_bandwidth_table bw - bw\<bar> \<le> \<bar>b - bw\<bar>"
proof -
  have "b \<in> {300000, 400000, 550000, 700000, 1000000, 1200000, 1300000, 1600000, 2200000}"
    using assms by (simp add: r82xx_bandwidth_table_def)
  then show ?thesis
    unfolding r82xx_bw_index_cases
    by (auto simp: r82xx_bandwidth_table_def)
qed

lemma r82xx_bw_nearest_example:
  "r82xx_bw_index r82xx_bandwidth_table 850000 < 9 \<and>
   \<bar>r82xx_bandwidth_table ! r82xx_bw_index r82xx_bandwidth_table 850000 - 850000\<bar> \<le> \<bar>1000000 - 850000\<bar>"
  by (rule r82xx_bw_nearest) (simp add: r82xx_bandwidth_table_def)

definition bitrev_lut :: "u8 list" where
  "bitrev_lut = [0x0, 0x8, 0x4, 0xc, 0x2, 0xa, 0x6, 0xe,
                 0x1, 0x9, 0x5, 0xd, 0x3, 0xb, 0x7, 0xf]"

lemma bitrev_lut_check:
  "list_all (\<lambda>k. list_all (\<lambda>i. bit (bitrev_lut ! k) i = (i < 4 \<and> bit k (3 - i))) 
     [0, 1, 2, 3, 4, 5, 6, 7]) [0, 1, 2, 3, 4, 5, 6, 7, 8, 9, 10, 11, 12, 13, 14, 15]"
  by (simp add: bitrev_lut_def bit_Suc_0_iff)

lemma bitrev_lut_bit:
  assumes "k < 16" and "i < 8"
  shows "bit (bitrev_lut ! k) i \<longleftrightarrow> i < 4 \<and> bit k (3 - i)"
proof -
  have "k \<in> set [0, 1, 2, 3, 4, 5, 6, 7, 8, 9, 10, 11, 12, 13, 14, 15]"
    "i \<in> set [0, 1, 2, 3, 4, 5, 6, 7]" 
    using assms by (simp_all, presburger+)
  then show ?thesis using bitrev_lut_check unfolding list_all_iff by blast
qed

text \<open>
  \<open>r82xx_bitrev\<close> reverses the order of the eight bits, so that it is its own inverse.
\<close>

lemma r82xx_bitrev_reverses:
  "(bit (r82xx_bitrev b) i \<longleftrightarrow> i \<le> 7 \<and> bit b (7 - i)) \<and> r82xx_bitrev (r82xx_bitrev b) = b"
proof -
  have rev: "bit (r82xx_bitrev b) i \<longleftrightarrow> i \<le> 7 \<and> bit b (7 - i)" for b i
  proof (cases "i < 8")
    case True
    have k: "unat (b AND 0xf) < 16" "unat (drop_bit 4 b) < 16"
    proof -
      have "unat (b AND mask 4) = take_bit 4 (unat b)"
        by (simp add: take_bit_eq_mask [symmetric] unsigned_take_bit_eq)
      then show "unat (b AND 0xf) < 16" by (simp add: mask_eq_exp_minus_1 take_bit_eq_mod)
      have "unat b < 2 ^ LENGTH(8)" by (rule unsigned_less)
      then show "unat (drop_bit 4 b) < 16"
        by (simp add: unat_drop_bit_eq drop_bit_eq_div unat_div div_less_iff_less_mult)
    qed
    have m: "(0xf :: u8) = mask 4" by (simp add: mask_eq_exp_minus_1)
    have lo: "bit (unat (b AND 0xf)) j \<longleftrightarrow> j < 4 \<and> bit b j"
      and hi: "bit (unat (drop_bit 4 b)) j \<longleftrightarrow> bit b (4 + j)" for j
      by (auto simp: m bit_simps)
    have "r82xx_bitrev b = push_bit 4 (bitrev_lut ! unat (b AND 0xf)) OR bitrev_lut ! unat (drop_bit 4 b)"
      by (simp add: r82xx_bitrev_def bitrev_lut_def Let_def)
    then have "bit (r82xx_bitrev b) i \<longleftrightarrow>
        4 \<le> i \<and> bit (bitrev_lut ! unat (b AND 0xf)) (i - 4) \<or> bit (bitrev_lut ! unat (drop_bit 4 b)) i"
      using True by (simp add: bit_simps)
    moreover have "4 \<le> i \<Longrightarrow> 3 - (i - 4) = 7 - i \<and> i - 4 < 4 \<and> 7 - i < 4" "i < 4 \<Longrightarrow> 4 + (3 - i) = 7 - i"
      using True by linarith+
    ultimately show ?thesis using True k by (cases "i < 4") (simp_all add: bitrev_lut_bit lo hi)
  next
    case False
    then show ?thesis using bit_imp_le_length [of "r82xx_bitrev b" i] by auto
  qed
  have "r82xx_bitrev (r82xx_bitrev b) = b"
    by (rule bit_word_eqI) (simp add: rev)
  with rev [of b i] show ?thesis by simp
qed

end
