(* ===== verification/E4k.thy ===== *)
theory E4k
  imports Chip
begin

text \<open>
  The Elonics E4000 tuner, \<open>tuner_e4k.c\<close>: masked register updates, the RF, mixer, IF
  channel and IF RC filters, the PLL with its Z, X and R parameters, the gain stages with
  the linearity and sensitivity tables, the DC offset tables, standby and initialisation.
  The driver reaches the chip at the address kept in its own state.
\<close>

abbreviation (input) EINVAL :: int where "EINVAL \<equiv> 22"

definition s8 :: "int \<Rightarrow> int" where
  "s8 i = signed_take_bit 7 i"

section \<open>Registers\<close>

definition E4K_REG_MASTER1 :: u8 where "E4K_REG_MASTER1 = 0x00"
definition E4K_REG_CLK_INP :: u8 where "E4K_REG_CLK_INP = 0x05"
definition E4K_REG_REF_CLK :: u8 where "E4K_REG_REF_CLK = 0x06"
definition E4K_REG_SYNTH1 :: u8 where "E4K_REG_SYNTH1 = 0x07"
definition E4K_REG_SYNTH3 :: u8 where "E4K_REG_SYNTH3 = 0x09"
definition E4K_REG_SYNTH4 :: u8 where "E4K_REG_SYNTH4 = 0x0a"
definition E4K_REG_SYNTH5 :: u8 where "E4K_REG_SYNTH5 = 0x0b"
definition E4K_REG_SYNTH7 :: u8 where "E4K_REG_SYNTH7 = 0x0d"
definition E4K_REG_FILT1 :: u8 where "E4K_REG_FILT1 = 0x10"
definition E4K_REG_FILT2 :: u8 where "E4K_REG_FILT2 = 0x11"
definition E4K_REG_FILT3 :: u8 where "E4K_REG_FILT3 = 0x12"
definition E4K_REG_GAIN1 :: u8 where "E4K_REG_GAIN1 = 0x14"
definition E4K_REG_GAIN2 :: u8 where "E4K_REG_GAIN2 = 0x15"
definition E4K_REG_GAIN3 :: u8 where "E4K_REG_GAIN3 = 0x16"
definition E4K_REG_GAIN4 :: u8 where "E4K_REG_GAIN4 = 0x17"
definition E4K_REG_AGC1 :: u8 where "E4K_REG_AGC1 = 0x1a"
definition E4K_REG_AGC4 :: u8 where "E4K_REG_AGC4 = 0x1d"
definition E4K_REG_AGC5 :: u8 where "E4K_REG_AGC5 = 0x1e"
definition E4K_REG_AGC6 :: u8 where "E4K_REG_AGC6 = 0x1f"
definition E4K_REG_AGC7 :: u8 where "E4K_REG_AGC7 = 0x20"
definition E4K_REG_AGC11 :: u8 where "E4K_REG_AGC11 = 0x24"
definition E4K_REG_DC1 :: u8 where "E4K_REG_DC1 = 0x29"
definition E4K_REG_DC2 :: u8 where "E4K_REG_DC2 = 0x2a"
definition E4K_REG_DC3 :: u8 where "E4K_REG_DC3 = 0x2b"
definition E4K_REG_DC4 :: u8 where "E4K_REG_DC4 = 0x2c"
definition E4K_REG_DC5 :: u8 where "E4K_REG_DC5 = 0x2d"
definition E4K_REG_DC7 :: u8 where "E4K_REG_DC7 = 0x2f"
definition E4K_REG_DCTIME1 :: u8 where "E4K_REG_DCTIME1 = 0x70"
definition E4K_REG_DCTIME2 :: u8 where "E4K_REG_DCTIME2 = 0x71"
definition E4K_REG_BIAS :: u8 where "E4K_REG_BIAS = 0x78"
definition E4K_REG_CLKOUT_PWDN :: u8 where "E4K_REG_CLKOUT_PWDN = 0x7a"

lemmas e4k_regs = E4K_REG_MASTER1_def E4K_REG_CLK_INP_def E4K_REG_REF_CLK_def
  E4K_REG_SYNTH1_def E4K_REG_SYNTH3_def E4K_REG_SYNTH4_def E4K_REG_SYNTH5_def
  E4K_REG_SYNTH7_def E4K_REG_FILT1_def E4K_REG_FILT2_def E4K_REG_FILT3_def
  E4K_REG_GAIN1_def E4K_REG_GAIN2_def E4K_REG_GAIN3_def E4K_REG_GAIN4_def E4K_REG_AGC1_def
  E4K_REG_AGC4_def E4K_REG_AGC5_def E4K_REG_AGC6_def E4K_REG_AGC7_def E4K_REG_AGC11_def
  E4K_REG_DC1_def E4K_REG_DC2_def E4K_REG_DC3_def E4K_REG_DC4_def E4K_REG_DC5_def
  E4K_REG_DC7_def E4K_REG_DCTIME1_def E4K_REG_DCTIME2_def E4K_REG_BIAS_def
  E4K_REG_CLKOUT_PWDN_def

definition E4K_I2C_ADDR :: u8 where "E4K_I2C_ADDR = 0xc8"

section \<open>Register access\<close>

definition e4k_reg_write :: "u8 \<Rightarrow> u8 \<Rightarrow> int usb_m" where
  "e4k_reg_write reg val = do {
     e \<leftarrow> gets dev_e4k;
     rtlsdr_i2c_write_fn (e4k_i2c_addr e) [reg, val] }"

definition e4k_reg_read :: "u8 \<Rightarrow> int usb_m" where
  "e4k_reg_read reg = do {
     e \<leftarrow> gets dev_e4k;
     rc \<leftarrow> rtlsdr_i2c_write_fn (e4k_i2c_addr e) [reg];
     if rc < 1 then ret (-1)
     else do {
       (rc, d) \<leftarrow> rtlsdr_i2c_read_fn (e4k_i2c_addr e) [reg];
       if rc < 1 then ret (-1) else ret (uint (d ! 0)) } }"

text \<open>A failed read becomes the byte 0xff here, as in the assignment to \<open>uint8_t\<close>.\<close>

definition e4k_reg_set_mask :: "u8 \<Rightarrow> u8 \<Rightarrow> u8 \<Rightarrow> int usb_m" where
  "e4k_reg_set_mask reg msk val = do {
     rc \<leftarrow> e4k_reg_read reg;
     let tmp = u8_of_int rc;
     if tmp AND msk = val then ret 0
     else e4k_reg_write reg ((tmp AND NOT msk) OR (val AND msk)) }"

record reg_field =
  field_reg :: u8
  field_shift :: nat
  field_width :: nat

definition width2mask :: "u8 list" where
  "width2mask = [0, 1, 3, 7, 0xf, 0x1f, 0x3f, 0x7f, 0xff]"

definition field_mask :: "reg_field \<Rightarrow> u8" where
  "field_mask f = push_bit (field_shift f) (width2mask ! field_width f)"

definition e4k_field_write :: "reg_field \<Rightarrow> u8 \<Rightarrow> int usb_m" where
  "e4k_field_write f val = do {
     rc \<leftarrow> e4k_reg_read (field_reg f);
     if rc < 0 then ret rc
     else e4k_reg_set_mask (field_reg f) (field_mask f) (push_bit (field_shift f) val) }"

definition e4k_field_read :: "reg_field \<Rightarrow> int usb_m" where
  "e4k_field_read f = do {
     rc \<leftarrow> e4k_reg_read (field_reg f);
     if rc < 0 then ret rc
     else ret (drop_bit (field_shift f) rc AND uint (width2mask ! field_width f)) }"

section \<open>Filters\<close>

definition unsigned_delta :: "nat \<Rightarrow> nat \<Rightarrow> nat" where
  "unsigned_delta a b = (if a > b then a - b else b - a)"

definition rf_filt_center_uhf :: "nat list" where
  "rf_filt_center_uhf =
     [360000000, 380000000, 405000000, 425000000, 450000000, 475000000, 505000000, 540000000,
      575000000, 615000000, 670000000, 720000000, 760000000, 840000000, 890000000, 970000000]"

definition rf_filt_center_l :: "nat list" where
  "rf_filt_center_l =
     [1300000000, 1320000000, 1360000000, 1410000000, 1445000000, 1460000000, 1490000000,
      1530000000, 1560000000, 1590000000, 1640000000, 1660000000, 1680000000, 1700000000,
      1720000000, 1750000000]"

fun closest_loop :: "nat \<Rightarrow> nat list \<Rightarrow> nat \<Rightarrow> nat \<Rightarrow> nat \<Rightarrow> nat" where
  "closest_loop freq [] i bi best_delta = bi"
| "closest_loop freq (a # arr) i bi best_delta =
     (let delta = unsigned_delta freq a
      in if delta < best_delta then closest_loop freq arr (Suc i) i delta
         else closest_loop freq arr (Suc i) bi best_delta)"

definition closest_arr_idx :: "nat list \<Rightarrow> nat \<Rightarrow> nat" where
  "closest_arr_idx arr freq = closest_loop freq arr 0 0 0xffffffff"

definition choose_rf_filter :: "e4k_band \<Rightarrow> nat \<Rightarrow> nat" where
  "choose_rf_filter band freq = (case band of
     E4K_BAND_VHF2 \<Rightarrow> 0
   | E4K_BAND_VHF3 \<Rightarrow> 0
   | E4K_BAND_UHF \<Rightarrow> closest_arr_idx rf_filt_center_uhf freq
   | E4K_BAND_L \<Rightarrow> closest_arr_idx rf_filt_center_l freq)"

definition e4k_rf_filter_set :: "int usb_m" where
  "e4k_rf_filter_set = do {
     e \<leftarrow> gets dev_e4k;
     e4k_reg_set_mask E4K_REG_FILT1 0xF
       (u8_of_nat (choose_rf_filter (e4k_band e) (pll_flo (e4k_vco e)))) }"

datatype e4k_if_filter = E4K_IF_FILTER_MIX | E4K_IF_FILTER_CHAN | E4K_IF_FILTER_RC

definition mix_filter_bw :: "nat list" where
  "mix_filter_bw = map ((*) 1000)
     [27000, 27000, 27000, 27000, 27000, 27000, 27000, 27000,
      4600, 4200, 3800, 3400, 3300, 2700, 2300, 1900]"

definition ifrc_filter_bw :: "nat list" where
  "ifrc_filter_bw = map ((*) 1000)
     [21400, 21000, 17600, 14700, 12400, 10600, 9000, 7700,
      6400, 5300, 4400, 3400, 2600, 1800, 1200, 1000]"

definition ifch_filter_bw :: "nat list" where
  "ifch_filter_bw = map ((*) 1000)
     [5500, 5300, 5000, 4800, 4600, 4400, 4300, 4100, 3900, 3800, 3700, 3600,
      3400, 3300, 3200, 3100, 3000, 2950, 2900, 2800, 2750, 2700, 2600, 2550,
      2500, 2450, 2400, 2300, 2280, 2240, 2200, 2150]"

definition if_filter_bw :: "e4k_if_filter \<Rightarrow> nat list" where
  "if_filter_bw flt = (case flt of
     E4K_IF_FILTER_MIX \<Rightarrow> mix_filter_bw
   | E4K_IF_FILTER_CHAN \<Rightarrow> ifch_filter_bw
   | E4K_IF_FILTER_RC \<Rightarrow> ifrc_filter_bw)"

definition if_filter_fields :: "e4k_if_filter \<Rightarrow> reg_field" where
  "if_filter_fields flt = (case flt of
     E4K_IF_FILTER_MIX \<Rightarrow> \<lparr>field_reg = E4K_REG_FILT2, field_shift = 4, field_width = 4\<rparr>
   | E4K_IF_FILTER_CHAN \<Rightarrow> \<lparr>field_reg = E4K_REG_FILT3, field_shift = 0, field_width = 5\<rparr>
   | E4K_IF_FILTER_RC \<Rightarrow> \<lparr>field_reg = E4K_REG_FILT2, field_shift = 0, field_width = 4\<rparr>)"

definition find_if_bw :: "e4k_if_filter \<Rightarrow> nat \<Rightarrow> nat" where
  "find_if_bw flt bw = closest_arr_idx (if_filter_bw flt) bw"

definition e4k_if_filter_bw_set :: "e4k_if_filter \<Rightarrow> nat \<Rightarrow> int usb_m" where
  "e4k_if_filter_bw_set flt bandwidth =
     e4k_field_write (if_filter_fields flt) (u8_of_nat (find_if_bw flt bandwidth))"

definition E4K_FILT3_DISABLE :: u8 where "E4K_FILT3_DISABLE = 0x20"

definition e4k_if_filter_chan_enable :: "bool \<Rightarrow> int usb_m" where
  "e4k_if_filter_chan_enable on =
     e4k_reg_set_mask E4K_REG_FILT3 E4K_FILT3_DISABLE (if on then 0 else E4K_FILT3_DISABLE)"

definition e4k_if_filter_bw_get :: "e4k_if_filter \<Rightarrow> int usb_m" where
  "e4k_if_filter_bw_get flt = do {
     rc \<leftarrow> e4k_field_read (if_filter_fields flt);
     if rc < 0 then ret rc else ret (int (if_filter_bw flt ! nat rc)) }"

section \<open>PLL\<close>

definition E4K_PLL_Y :: nat where "E4K_PLL_Y = 65536"

record pll_settings =
  vars_freq :: nat
  reg_synth7 :: u8
  vars_mult :: nat

definition pll_vars :: "pll_settings list" where
  "pll_vars = map (\<lambda>(f, r, m). \<lparr>vars_freq = f, reg_synth7 = r, vars_mult = m\<rparr>)
     [(72400000, 15, 48), (81200000, 14, 40), (108300000, 13, 32), (162500000, 12, 24),
      (216600000, 11, 16), (325000000, 10, 12), (350000000, 9, 8), (432000000, 3, 8),
      (667000000, 2, 6), (1200000000, 1, 4)]"

definition is_fosc_valid :: "nat \<Rightarrow> bool" where
  "is_fosc_valid fosc \<longleftrightarrow> \<not> (fosc < 16000000 \<or> fosc > 30000000)"

text \<open>The products are of 64 bits and stay below \<open>2^64\<close>.\<close>

definition compute_fvco :: "nat \<Rightarrow> nat \<Rightarrow> nat \<Rightarrow> nat" where
  "compute_fvco f_osc z x = f_osc * z + (f_osc * x) div E4K_PLL_Y"

definition compute_flo :: "nat \<Rightarrow> nat \<Rightarrow> nat \<Rightarrow> nat \<Rightarrow> nat" where
  "compute_flo f_osc z x r =
     (let fvco = compute_fvco f_osc z x
      in if fvco = 0 then u32_of_int (- EINVAL) else u32 (fvco div r))"

text \<open>The multiplier, the SYNTH7 value and the mixing of the first table entry that fits.\<close>

definition pll_entry :: "nat \<Rightarrow> pll_settings option" where
  "pll_entry intended_flo = find (\<lambda>p. intended_flo < vars_freq p) pll_vars"

definition e4k_compute_pll_params :: "nat \<Rightarrow> nat \<Rightarrow> e4k_pll_params option" where
  "e4k_compute_pll_params fosc intended_flo =
     (if \<not> is_fosc_valid fosc then None
      else
        let (three_phase_mixing, r_idx, r) = (case pll_entry intended_flo of
              Some p \<Rightarrow> (reg_synth7 p AND 0x08 \<noteq> 0, reg_synth7 p, vars_mult p)
            | None \<Rightarrow> (False, 0, 2));
          intended_fvco = intended_flo * r;
          z = intended_fvco div fosc;
          remainder = intended_fvco - fosc * z;
          x = u32 ((remainder * E4K_PLL_Y) div fosc);
          flo = compute_flo fosc (z mod 256) (x mod 65536) r
        in Some \<lparr>pll_fosc = fosc, pll_intended_flo = intended_flo, pll_flo = flo,
             pll_x = x mod 65536, pll_z = z mod 256, pll_r = r, pll_r_idx = r_idx,
             pll_threephase = three_phase_mixing\<rparr>)"

fun e4k_band_num :: "e4k_band \<Rightarrow> u8" where
  "e4k_band_num E4K_BAND_VHF2 = 0"
| "e4k_band_num E4K_BAND_VHF3 = 1"
| "e4k_band_num E4K_BAND_UHF = 2"
| "e4k_band_num E4K_BAND_L = 3"

definition e4k_band_set :: "e4k_band \<Rightarrow> int usb_m" where
  "e4k_band_set band = do {
     _ \<leftarrow> e4k_reg_write E4K_REG_BIAS (if band = E4K_BAND_L then 0 else 3);
     _ \<leftarrow> e4k_reg_set_mask E4K_REG_SYNTH1 0x06 0;
     rc \<leftarrow> e4k_reg_set_mask E4K_REG_SYNTH1 0x06 (push_bit 1 (e4k_band_num band));
     (if rc \<ge> 0 then modify (\<lambda>s. s\<lparr>dev_e4k := (dev_e4k s)\<lparr>e4k_band := band\<rparr>\<rparr>) else ret ());
     ret rc }"

definition e4k_flo_band :: "nat \<Rightarrow> e4k_band" where
  "e4k_flo_band flo =
     (if flo < 140000000 then E4K_BAND_VHF2
      else if flo < 350000000 then E4K_BAND_VHF3
      else if flo < 1135000000 then E4K_BAND_UHF
      else E4K_BAND_L)"

definition e4k_tune_params :: "e4k_pll_params \<Rightarrow> int usb_m" where
  "e4k_tune_params p = do {
     _ \<leftarrow> e4k_reg_write E4K_REG_SYNTH7 (pll_r_idx p);
     _ \<leftarrow> e4k_reg_write E4K_REG_SYNTH3 (u8_of_nat (pll_z p));
     _ \<leftarrow> e4k_reg_write E4K_REG_SYNTH4 (u8_of_nat (pll_x p mod 256));
     _ \<leftarrow> e4k_reg_write E4K_REG_SYNTH5 (u8_of_nat (pll_x p div 256));
     modify (\<lambda>s. s\<lparr>dev_e4k := (dev_e4k s)\<lparr>e4k_vco := p\<rparr>\<rparr>);
     _ \<leftarrow> e4k_band_set (e4k_flo_band (pll_flo p));
     _ \<leftarrow> e4k_rf_filter_set;
     ret (s32 (int (pll_flo p))) }"

text \<open>
  \<open>rc\<close> is unsigned: the result of a failed read has its lowest bit set. A result 0 of
  \<open>e4k_compute_pll_params\<close> is an error as well.
\<close>

definition e4k_tune_freq :: "nat \<Rightarrow> int usb_m" where
  "e4k_tune_freq freq = do {
     e \<leftarrow> gets dev_e4k;
     case e4k_compute_pll_params (pll_fosc (e4k_vco e)) freq of
       None \<Rightarrow> ret (- EINVAL)
     | Some p \<Rightarrow>
         if pll_flo p = 0 then ret (- EINVAL)
         else do {
           _ \<leftarrow> e4k_tune_params p;
           rc \<leftarrow> e4k_reg_read E4K_REG_SYNTH1;
           if u32_of_int rc AND 1 = 0 then ret (-1) else ret 0 } }"

section \<open>Gain\<close>

definition if_stage_gain :: "int list list" where
  "if_stage_gain = [[], [-3, 6], [0, 3, 6, 9], [0, 3, 6, 9], [0, 1, 2, 3],
     [3, 6, 9, 12, 15, 15, 15, 15], [3, 6, 9, 12, 15, 15, 15, 15]]"

definition if_stage_gain_regs :: "reg_field list" where
  "if_stage_gain_regs = map (\<lambda>(r, s, w). \<lparr>field_reg = r, field_shift = s, field_width = w\<rparr>)
     [(0, 0, 0), (E4K_REG_GAIN3, 0, 1), (E4K_REG_GAIN3, 1, 2), (E4K_REG_GAIN3, 3, 2),
      (E4K_REG_GAIN3, 5, 2), (E4K_REG_GAIN4, 0, 3), (E4K_REG_GAIN4, 3, 3)]"

definition lnagain :: "(int \<times> u8) list" where
  "lnagain = [(-50, 0), (-25, 1), (0, 4), (25, 5), (50, 6), (75, 7), (100, 8), (125, 9),
     (150, 10), (175, 11), (200, 12), (250, 13), (300, 14)]"

definition enhgain :: "int list" where
  "enhgain = [10, 30, 50, 70]"

record gain_table_mode_struct =
  tab_gain :: int
  tab_LNA_gain :: int
  tab_mixer_gain :: int
  tab_IF_gain :: "int list"

definition gain_table :: "(int \<times> int \<times> int \<times> int list) list \<Rightarrow> gain_table_mode_struct list" where
  "gain_table = map (\<lambda>(g, l, m, i). \<lparr>tab_gain = g, tab_LNA_gain = l, tab_mixer_gain = m,
     tab_IF_gain = i\<rparr>)"

definition gain_table_mode_linearity :: "gain_table_mode_struct list" where
  "gain_table_mode_linearity = gain_table
     [(-250, -5, 4, [-3, 0, 0, 2, 9, 6]),
      (-200, -5, 4, [-3, 0, 0, 1, 12, 9]),
      (-150, -5, 4, [-3, 6, 0, 0, 12, 9]),
      (-100, -5, 12, [-3, 3, 0, 1, 12, 9]),
      (-50, -5, 12, [-3, 6, 0, 0, 12, 12]),
      (0, 0, 12, [-3, 6, 0, 0, 12, 12]),
      (50, 5, 12, [-3, 6, 0, 0, 12, 12]),
      (100, 10, 12, [-3, 6, 0, 0, 12, 12]),
      (150, 15, 12, [-3, 6, 0, 0, 12, 12]),
      (200, 20, 12, [-3, 6, 0, 0, 12, 12]),
      (250, 30, 12, [-3, 6, 0, 0, 12, 12])]"

definition gain_table_mode_sensitivity :: "gain_table_mode_struct list" where
  "gain_table_mode_sensitivity = gain_table
     [(-250, 5, 4, [-3, 0, 0, 1, 6, 3]),
      (-200, 10, 4, [-3, 0, 0, 1, 6, 3]),
      (-150, 15, 4, [-3, 0, 0, 1, 6, 3]),
      (-100, 20, 4, [-3, 0, 0, 1, 6, 3]),
      (-50, 30, 4, [-3, 0, 0, 1, 6, 3]),
      (0, 30, 12, [-3, 0, 0, 2, 3, 3]),
      (50, 30, 12, [-3, 3, 0, 1, 6, 3]),
      (100, 30, 12, [6, 0, 0, 0, 6, 3]),
      (150, 30, 12, [6, 0, 0, 2, 9, 3]),
      (200, 30, 12, [6, 3, 0, 1, 9, 6]),
      (250, 30, 12, [6, 6, 0, 0, 9, 9])]"

fun index_of :: "'a list \<Rightarrow> 'a \<Rightarrow> nat option" where
  "index_of [] v = None"
| "index_of (a # arr) v = (if a = v then Some 0 else map_option Suc (index_of arr v))"

definition find_stage_gain :: "u8 \<Rightarrow> int \<Rightarrow> int" where
  "find_stage_gain stage val =
     (if unat stage \<ge> length if_stage_gain then - EINVAL
      else case index_of (if_stage_gain ! unat stage) val of
        Some i \<Rightarrow> int i | None \<Rightarrow> - EINVAL)"

definition e4k_if_gain_set :: "u8 \<Rightarrow> int \<Rightarrow> int usb_m" where
  "e4k_if_gain_set stage value =
     (let rc = find_stage_gain stage value
      in if rc < 0 then ret rc
      else let field = if_stage_gain_regs ! unat stage
        in e4k_reg_set_mask (field_reg field) (field_mask field)
             (push_bit (field_shift field) (u8_of_int rc)))"

definition e4k_mixer_gain_set :: "int \<Rightarrow> int usb_m" where
  "e4k_mixer_gain_set value =
     (if value = 4 then e4k_reg_set_mask E4K_REG_GAIN2 1 0
      else if value = 12 then e4k_reg_set_mask E4K_REG_GAIN2 1 1
      else ret (- EINVAL))"

definition e4k_set_lna_gain :: "int \<Rightarrow> int usb_m" where
  "e4k_set_lna_gain gain = (case map_of lnagain gain of
     Some v \<Rightarrow> do { _ \<leftarrow> e4k_reg_set_mask E4K_REG_GAIN1 0xf v; ret 0 }
   | None \<Rightarrow> ret (- EINVAL))"

text \<open>The constants of \<open>enum rtl_sdr_gain_mode\<close> of the file.\<close>

definition E4K_GAIN_MODE_AGC :: int where "E4K_GAIN_MODE_AGC = 0"
definition E4K_GAIN_MODE_MANUAL :: int where "E4K_GAIN_MODE_MANUAL = 1"
definition E4K_GAIN_MODE_LINEARITY :: int where "E4K_GAIN_MODE_LINEARITY = 2"
definition E4K_GAIN_MODE_SENSITIVITY :: int where "E4K_GAIN_MODE_SENSITIVITY = 3"
definition MAX_E4K_GAIN_MODES :: int where "MAX_E4K_GAIN_MODES = 3"

lemmas e4k_modes = E4K_GAIN_MODE_AGC_def E4K_GAIN_MODE_MANUAL_def E4K_GAIN_MODE_LINEARITY_def
  E4K_GAIN_MODE_SENSITIVITY_def MAX_E4K_GAIN_MODES_def

definition e4k_set_stages :: "gain_table_mode_struct \<Rightarrow> int usb_m list" where
  "e4k_set_stages row =
     e4k_set_lna_gain (tab_LNA_gain row * 10) # e4k_mixer_gain_set (tab_mixer_gain row) #
     map (\<lambda>l. e4k_if_gain_set (u8_of_nat (l + 1)) (tab_IF_gain row ! l)) [0, 1, 2, 3, 4, 5]"

definition e4k_mode_table :: "int \<Rightarrow> gain_table_mode_struct list option" where
  "e4k_mode_table mode =
     (if mode = E4K_GAIN_MODE_LINEARITY then Some gain_table_mode_linearity
      else if mode = E4K_GAIN_MODE_SENSITIVITY then Some gain_table_mode_sensitivity
      else None)"

definition e4k_set_lna_mixer_if_gain :: "int \<Rightarrow> int usb_m" where
  "e4k_set_lna_mixer_if_gain gain = do {
     e \<leftarrow> gets dev_e4k;
     case e4k_mode_table (e4k_gain_mode e) of
       None \<Rightarrow> ret (- EINVAL)
     | Some tab \<Rightarrow>
         (case find (\<lambda>row. tab_gain row = gain) tab of
            Some row \<Rightarrow> do { seqs (e4k_set_stages row); ret gain }
          | None \<Rightarrow> ret (- EINVAL)) }"

definition e4k_set_enh_gain :: "int \<Rightarrow> int usb_m" where
  "e4k_set_enh_gain gain = (case index_of enhgain gain of
     Some i \<Rightarrow> do {
       _ \<leftarrow> e4k_reg_set_mask E4K_REG_AGC11 0x7 (1 OR push_bit 1 (u8_of_nat i));
       ret gain }
   | None \<Rightarrow> do {
       _ \<leftarrow> e4k_reg_set_mask E4K_REG_AGC11 0x7 0;
       ret (if gain = 0 then 0 else - EINVAL) })"

definition e4k_compute_gain_table :: "unit usb_m" where
  "e4k_compute_gain_table = modify (\<lambda>s. s\<lparr>dev_e4s :=
     \<lparr>tuner_gain_table_linearity = map tab_gain gain_table_mode_linearity,
      tuner_gain_table_sensitivity = map tab_gain gain_table_mode_sensitivity\<rparr>\<rparr>)"

text \<open>
  The pointer handed out by \<open>e4k_get_tuner_gains\<close>: in the manual mode it refers to an
  array of the function's own frame, which is gone when the caller reads it.
\<close>

datatype gains_ptr = Static_table "int list" | Dead_local "int list"

definition e4k_gains :: "int list" where
  "e4k_gains = [-10, 15, 40, 65, 90, 115, 140, 165, 190, 215, 240, 290, 340, 420]"

definition e4k_get_tuner_gains :: "gains_ptr option usb_m" where
  "e4k_get_tuner_gains = gets (\<lambda>s.
     let mode = e4k_gain_mode (dev_e4k s)
     in if mode = E4K_GAIN_MODE_MANUAL then Some (Dead_local e4k_gains)
        else if mode = E4K_GAIN_MODE_LINEARITY
        then Some (Static_table (tuner_gain_table_linearity (dev_e4s s)))
        else if mode = E4K_GAIN_MODE_SENSITIVITY
        then Some (Static_table (tuner_gain_table_sensitivity (dev_e4s s)))
        else None)"

definition e4k_set_mode :: "int \<Rightarrow> unit usb_m" where
  "e4k_set_mode mode = modify (\<lambda>s. s\<lparr>dev_e4k := (dev_e4k s)\<lparr>e4k_gain_mode := mode\<rparr>\<rparr>)"

definition e4k_enable_manual_gain :: "u8 \<Rightarrow> int usb_m" where
  "e4k_enable_manual_gain mode =
     (if mode \<noteq> 0 then do {
        _ \<leftarrow> e4k_reg_set_mask E4K_REG_AGC1 0xF 0;
        _ \<leftarrow> e4k_reg_set_mask E4K_REG_AGC7 1 0;
        let m = (if uint mode > MAX_E4K_GAIN_MODES then MAX_E4K_GAIN_MODES else uint mode);
        e4k_set_mode m;
        ret (if m = E4K_GAIN_MODE_MANUAL then 0 else m) }
      else do {
        e4k_set_mode E4K_GAIN_MODE_AGC;
        _ \<leftarrow> e4k_reg_set_mask E4K_REG_AGC1 0xF 9;
        _ \<leftarrow> e4k_reg_set_mask E4K_REG_AGC7 1 1;
        _ \<leftarrow> e4k_reg_set_mask E4K_REG_AGC11 0x7 0;
        ret 0 })"

definition e4k_get_tuner_stage_gains :: "u8 \<Rightarrow> (int list \<times> string) option" where
  "e4k_get_tuner_stage_gains stage =
     (if stage = 0 then Some ([-50, -25, 0, 25, 50, 75, 100, 125, 150, 175, 200, 250, 300],
        ''LNA'')
      else if stage = 1 then Some ([40, 120], ''Mixer'')
      else if stage = 2 then Some ([-30, 60], ''IF1'')
      else if stage = 3 then Some ([0, 30, 60, 90], ''IF2'')
      else if stage = 4 then Some ([0, 30, 60, 90], ''IF3'')
      else if stage = 5 then Some ([0, 10, 20, 30], ''IF4'')
      else if stage = 6 then Some ([30, 60, 90, 120, 150], ''IF5'')
      else if stage = 7 then Some ([30, 60, 90, 120, 150], ''IF6'')
      else None)"

definition e4k_set_tuner_stage_gain :: "u8 \<Rightarrow> int \<Rightarrow> int usb_m" where
  "e4k_set_tuner_stage_gain stage gain =
     (if stage = 0 then e4k_set_lna_gain gain
      else if stage = 1 then e4k_mixer_gain_set (s8 (gain sdiv 10))
      else e4k_if_gain_set (stage - 2) (s8 gain))"

section \<open>DC offset\<close>

definition e4k_commonmode_set :: "int \<Rightarrow> int usb_m" where
  "e4k_commonmode_set value =
     (if value < 0 then ret (- EINVAL)
      else if value > 7 then ret (- EINVAL)
      else e4k_reg_set_mask E4K_REG_DC7 7 (u8_of_int value))"

definition e4k_manual_dc_offset :: "int \<Rightarrow> int \<Rightarrow> int \<Rightarrow> int \<Rightarrow> int usb_m" where
  "e4k_manual_dc_offset iofs irange qofs qrange =
     (if iofs < 0x00 \<or> iofs > 0x3f then ret (- EINVAL)
      else if irange < 0x00 \<or> irange > 0x03 then ret (- EINVAL)
      else if qofs < 0x00 \<or> qofs > 0x3f then ret (- EINVAL)
      else if qrange < 0x00 \<or> qrange > 0x03 then ret (- EINVAL)
      else steps [e4k_reg_set_mask E4K_REG_DC2 0x3f (u8_of_int iofs),
                  e4k_reg_set_mask E4K_REG_DC3 0x3f (u8_of_int qofs)]
        (e4k_reg_set_mask E4K_REG_DC4 0x33 (u8_of_int (push_bit 4 qrange OR irange))))"

definition e4k_dc_offset_calibrate :: "int usb_m" where
  "e4k_dc_offset_calibrate = do {
     _ \<leftarrow> e4k_reg_set_mask E4K_REG_DC5 4 4;
     e4k_reg_write E4K_REG_DC1 0x01 }"

definition if_gains_max :: "int list" where
  "if_gains_max = [0, 6, 9, 9, 2, 15, 15]"

definition dc_gain_comb :: "(int \<times> int \<times> u8) list" where
  "dc_gain_comb = [(4, -3, 0x50), (4, 6, 0x51), (12, -3, 0x52), (12, 6, 0x53)]"

definition TO_LUT :: "u8 \<Rightarrow> u8 \<Rightarrow> u8" where
  "TO_LUT offset rng = offset OR push_bit 6 rng"

definition e4k_dc_entry :: "int \<times> int \<times> u8 \<Rightarrow> int usb_m" where
  "e4k_dc_entry = (\<lambda>(mixer_gain, if1_gain, reg). do {
     _ \<leftarrow> e4k_mixer_gain_set mixer_gain;
     _ \<leftarrow> e4k_if_gain_set 1 if1_gain;
     _ \<leftarrow> e4k_dc_offset_calibrate;
     offs_i \<leftarrow> e4k_reg_read E4K_REG_DC2;
     offs_q \<leftarrow> e4k_reg_read E4K_REG_DC3;
     rc \<leftarrow> e4k_reg_read E4K_REG_DC4;
     let rng = u8_of_int rc;
     let range_i = rng AND 0x3;
     let range_q = drop_bit 4 rng AND 0x3;
     _ \<leftarrow> e4k_reg_write reg (TO_LUT (u8_of_int offs_q AND 0x3f) range_q);
     e4k_reg_write (reg + 0x10) (TO_LUT (u8_of_int offs_i AND 0x3f) range_i) })"

definition e4k_dc_offset_gen_table :: "int usb_m" where
  "e4k_dc_offset_gen_table = do {
     seqs ([e4k_reg_set_mask E4K_REG_AGC7 1 0, e4k_reg_set_mask E4K_REG_AGC1 0xF 0] @
       map (\<lambda>i. e4k_if_gain_set (u8_of_nat i) (if_gains_max ! i)) [2, 3, 4, 5, 6] @
       map e4k_dc_entry dc_gain_comb);
     ret 0 }"

section \<open>Standby and initialisation\<close>

definition e4k_standby :: "bool \<Rightarrow> int usb_m" where
  "e4k_standby enable = do {
     _ \<leftarrow> e4k_reg_set_mask E4K_REG_MASTER1 2 (if enable then 0 else 2);
     ret 0 }"

definition magic_init :: "int usb_m list" where
  "magic_init = map (\<lambda>(r, v). e4k_reg_write r v)
     [(0x7e, 0x01), (0x7f, 0xfe), (0x82, 0x00), (0x86, 0x50), (0x87, 0x20), (0x88, 0x01),
      (0x9f, 0x7f), (0xa0, 0x07)]"

definition e4k_init :: "int usb_m" where
  "e4k_init = do {
     seqs ([e4k_reg_read 0,
        e4k_reg_write E4K_REG_MASTER1 7,
        e4k_reg_write E4K_REG_CLK_INP 0x00,
        e4k_reg_write E4K_REG_REF_CLK 0x00,
        e4k_reg_write E4K_REG_CLKOUT_PWDN 0x96] @
       magic_init @
       [e4k_reg_write E4K_REG_AGC4 0x10,
        e4k_reg_write E4K_REG_AGC5 0x04,
        e4k_reg_write E4K_REG_AGC6 0x1a,
        e4k_reg_set_mask E4K_REG_AGC1 0xF 0,
        e4k_reg_set_mask E4K_REG_AGC7 1 0,
        e4k_enable_manual_gain 0,
        e4k_if_gain_set 1 6, e4k_if_gain_set 2 0, e4k_if_gain_set 3 0,
        e4k_if_gain_set 4 0, e4k_if_gain_set 5 9, e4k_if_gain_set 6 9,
        e4k_if_filter_bw_set E4K_IF_FILTER_MIX 1900000,
        e4k_if_filter_bw_set E4K_IF_FILTER_RC 1000000,
        e4k_if_filter_bw_set E4K_IF_FILTER_CHAN 2150000,
        e4k_if_filter_chan_enable True,
        e4k_reg_set_mask E4K_REG_DC5 0x03 0,
        e4k_reg_set_mask E4K_REG_DCTIME1 0x03 0,
        e4k_reg_set_mask E4K_REG_DCTIME2 0x03 0]);
     e4k_compute_gain_table;
     ret 0 }"

end
