(* ===== verification/E4kTune.thy ===== *)
theory E4kTune
  imports E4kRules
begin

text \<open>
  Properties of the filter search and of the tuning of the E4000: the closest table entry,
  the PLL parameters as the registers of the chip hold them afterwards, and what happens
  when the tuner does not answer.
\<close>

section \<open>The closest entry of a table\<close>

lemma closest_loop_spec:
  "(closest_loop freq arr i bi best = bi \<and> (\<forall>a\<in>set arr. best \<le> unsigned_delta freq a)) \<or>
   (\<exists>k<length arr. closest_loop freq arr i bi best = i + k \<and>
      unsigned_delta freq (arr ! k) < best \<and>
      (\<forall>a\<in>set arr. unsigned_delta freq (arr ! k) \<le> unsigned_delta freq a))"
proof (induction arr arbitrary: i bi best)
  case (Cons a arr)
  show ?case
  proof (cases "unsigned_delta freq a < best")
    case True
    from Cons.IH [of "Suc i" i "unsigned_delta freq a"] show ?thesis
    proof
      assume "closest_loop freq arr (Suc i) i (unsigned_delta freq a) = i \<and>
        (\<forall>b\<in>set arr. unsigned_delta freq a \<le> unsigned_delta freq b)"
      with True show ?thesis by (intro disjI2 exI [of _ 0]) (simp add: Let_def)
    next
      assume "\<exists>k<length arr. closest_loop freq arr (Suc i) i (unsigned_delta freq a) = Suc i + k \<and>
        unsigned_delta freq (arr ! k) < unsigned_delta freq a \<and>
        (\<forall>b\<in>set arr. unsigned_delta freq (arr ! k) \<le> unsigned_delta freq b)"
      then obtain k where "k < length arr"
        "closest_loop freq arr (Suc i) i (unsigned_delta freq a) = Suc i + k"
        "unsigned_delta freq (arr ! k) < unsigned_delta freq a"
        "\<forall>b\<in>set arr. unsigned_delta freq (arr ! k) \<le> unsigned_delta freq b" by blast
      with True show ?thesis by (intro disjI2 exI [of _ "Suc k"]) (auto simp: Let_def)
    qed
  next
    case False
    from Cons.IH [of "Suc i" bi best] show ?thesis
    proof
      assume "closest_loop freq arr (Suc i) bi best = bi \<and>
        (\<forall>b\<in>set arr. best \<le> unsigned_delta freq b)"
      with False show ?thesis by (intro disjI1) (simp add: Let_def not_less)
    next
      assume "\<exists>k<length arr. closest_loop freq arr (Suc i) bi best = Suc i + k \<and>
        unsigned_delta freq (arr ! k) < best \<and>
        (\<forall>b\<in>set arr. unsigned_delta freq (arr ! k) \<le> unsigned_delta freq b)"
      then obtain k where "k < length arr" "closest_loop freq arr (Suc i) bi best = Suc i + k"
        "unsigned_delta freq (arr ! k) < best"
        "\<forall>b\<in>set arr. unsigned_delta freq (arr ! k) \<le> unsigned_delta freq b" by blast
      with False show ?thesis by (intro disjI2 exI [of _ "Suc k"]) (auto simp: Let_def)
    qed
  qed
qed simp

text \<open>
  The filter search of the E4000 driver is optimal: for every filter table and
  every 32-bit request, \<open>closest_arr_idx\<close> returns an index of the table whose entry is at
  least as close to the request as every other entry.
\<close>

lemma e4k_closest_filter:
  assumes "freq < 4294967296" and "\<forall>a\<in>set arr. 0 < a \<and> a < 4294967295" and "arr \<noteq> []"
  shows "closest_arr_idx arr freq < length arr \<and>
    (\<forall>a\<in>set arr. unsigned_delta freq (arr ! closest_arr_idx arr freq) \<le> unsigned_delta freq a)"
proof -
  obtain b where b: "b \<in> set arr" using assms(3) by fastforce
  then have "unsigned_delta freq b < 0xffffffff"
    using assms(1,2) by (auto simp: unsigned_delta_def)
  with closest_loop_spec [of freq arr 0 0 "0xffffffff"] b show ?thesis
    unfolding closest_arr_idx_def by fastforce
qed

lemma e4k_closest_filter_example:
  "closest_arr_idx ifch_filter_bw 2400000 < length ifch_filter_bw \<and>
   (\<forall>a\<in>set ifch_filter_bw.
      unsigned_delta 2400000 (ifch_filter_bw ! closest_arr_idx ifch_filter_bw 2400000)
      \<le> unsigned_delta 2400000 a)"
  by (rule e4k_closest_filter) (simp_all add: ifch_filter_bw_def)

section \<open>The PLL parameters\<close>

lemma pll_entry_cases:
  assumes "50000000 \<le> flo" and "flo \<le> 2200000000"
  defines "r \<equiv> (case pll_entry flo of Some p \<Rightarrow> vars_mult p | None \<Rightarrow> 2)"
  shows "2 \<le> r \<and> r \<le> 48 \<and> flo * r < 4800000000"
proof -
  have "r = (if flo < 72400000 then 48 else if flo < 81200000 then 40
    else if flo < 108300000 then 32 else if flo < 162500000 then 24
    else if flo < 216600000 then 16 else if flo < 325000000 then 12
    else if flo < 432000000 then 8 else if flo < 667000000 then 6
    else if flo < 1200000000 then 4 else 2)"
    by (simp add: r_def pll_entry_def pll_vars_def)
  then show ?thesis using assms(1,2) by (elim ssubst) (simp split: if_split)
qed

lemma div_split_65536:
  "(65536::nat) * (v div f) + ((v - f * (v div f)) * 65536) div f = (65536 * v) div f"
proof (cases "f = 0")
  case False
  define q m where "q = v div f" and "m = v mod f"
  have "v = q * f + m" by (simp add: q_def m_def)
  then have "65536 * v = m * 65536 + (65536 * q) * f" by simp
  then have "65536 * v = (v mod f) * 65536 + (65536 * (v div f)) * f"
    by (simp add: q_def m_def)
  then have "(65536 * v) div f = 65536 * (v div f) + ((v mod f) * 65536) div f"
    using div_mult_self1 [OF False, of "(v mod f) * 65536" "65536 * (v div f)"]
    by (simp only: add.commute)
  then show ?thesis by (simp add: minus_mult_div_eq_mod)
qed simp

text \<open>The crystals and frequencies of the datasheet, as relaxed by \<open>OUT_OF_SPEC\<close>.\<close>

definition e4k_in_range :: "nat \<Rightarrow> nat \<Rightarrow> bool" where
  "e4k_in_range fosc flo \<longleftrightarrow> 20000000 \<le> fosc \<and> fosc \<le> 30000000 \<and>
     50000000 \<le> flo \<and> flo \<le> 2200000000"

lemma e4k_params:
  assumes r: "e4k_in_range fosc flo"
  obtains p where "e4k_compute_pll_params fosc flo = Some p"
    and "pll_fosc p = fosc" and "pll_z p < 256" and "pll_x p < 65536"
    and "pll_r p = (case pll_entry flo of Some p \<Rightarrow> vars_mult p | None \<Rightarrow> 2)"
    and "pll_r_idx p = (case pll_entry flo of Some p \<Rightarrow> reg_synth7 p | None \<Rightarrow> 0)"
    and "65536 * pll_z p + pll_x p = (65536 * (flo * pll_r p)) div fosc"
    and "0 < pll_flo p" and "pll_flo p < 4294967296"
proof -
  define r where "r = (case pll_entry flo of Some p \<Rightarrow> vars_mult p | None \<Rightarrow> 2)"
  define v where "v = flo * r"
  define z where "z = v div fosc"
  define x where "x = ((v - fosc * z) * 65536) div fosc"
  have f: "20000000 \<le> fosc" "fosc \<le> 30000000" "50000000 \<le> flo" using assms
    by (auto simp: e4k_in_range_def)
  have rb: "2 \<le> r" "r \<le> 48" "v < 4800000000"
    using pll_entry_cases [of flo] assms by (simp_all add: e4k_in_range_def r_def v_def)
  have z: "z < 256" using f(1) rb(3) by (simp add: z_def div_less_iff_less_mult)
  have "(v - fosc * z) * 65536 < fosc * 65536"
    using f(1) by (simp add: z_def minus_mult_div_eq_mod)
  then have x: "x < 65536" using f(1) by (simp add: x_def div_less_iff_less_mult)
  have vz: "2 * flo \<le> v" using rb(1) by (simp add: v_def)
  have "fosc * z + fosc > v" using f(1) by (simp add: z_def) (metis add.commute dividend_less_div_times f(1) less_le_trans mult.commute zero_less_numeral)
  then have lo: "48 \<le> fosc * z" using f vz by linarith
  have hi: "fosc * z + (fosc * x) div 65536 < 30000000 * 256 + 30000000"
  proof -
    have "fosc * z \<le> v" by (simp add: z_def)
    moreover have "fosc * x div 65536 \<le> fosc"
      using x by (intro less_imp_le div_less_iff_less_mult [THEN iffD2]) (use f x in auto)
    ultimately show ?thesis using rb(3) f(2) by linarith
  qed
  define fl where "fl = compute_flo fosc z x r"
  have fv: "48 \<le> compute_fvco fosc z x"
    unfolding compute_fvco_def using lo by (rule trans_le_add1)
  then have "compute_fvco fosc z x \<noteq> 0" by simp
  then have fle: "fl = u32 (compute_fvco fosc z x div r)" by (simp add: fl_def compute_flo_def Let_def)
  have "compute_fvco fosc z x div r \<le> compute_fvco fosc z x div 2"
    using rb(1) by (rule div_le_mono2 [rotated]) simp
  also have "\<dots> < 4294967296" using hi by (simp add: compute_fvco_def E4K_PLL_Y_def)
  finally have "compute_fvco fosc z x div r < 4294967296" .
  moreover have "r \<le> compute_fvco fosc z x" using fv rb(2) by simp
  then have "0 < compute_fvco fosc z x div r" using rb(1) by (simp add: div_greater_zero_iff)
  ultimately have fl: "0 < fl" "fl < 4294967296" by (simp_all add: fle)
  have m: "z mod 256 = z" "u32 x mod 65536 = x" using z x by simp_all
  show thesis
    by (rule that [of "\<lparr>pll_fosc = fosc, pll_intended_flo = flo, pll_flo = fl,
             pll_x = x, pll_z = z, pll_r = r,
             pll_r_idx = (case pll_entry flo of Some p \<Rightarrow> reg_synth7 p | None \<Rightarrow> 0),
             pll_threephase = (case pll_entry flo of Some p \<Rightarrow> reg_synth7 p AND 8 \<noteq> 0 | None \<Rightarrow> False)\<rparr>"])
      (use f fl z x m in \<open>auto simp: e4k_compute_pll_params_def is_fosc_valid_def Let_def r_def
        v_def z_def x_def fl_def E4K_PLL_Y_def div_split_65536 split: option.splits\<close>)
qed

section \<open>What the chip holds after tuning\<close>

lemma acked_e4k_reg_write: "acked (\<lambda>a. a = 2) (e4k_reg_write r v)"
  unfolding e4k_reg_write_def
  by (rule acked_bind [OF acked_gets [where G = "\<lambda>_. True"]])
    (auto intro: acked_weaken [OF acked_write_fn])

lemma chip_reg_e4k_write:
  assumes "usb_acks (dev_usb s)" and run: "run_state (e4k_reg_write r v) s = (rc, s')"
  shows "rc = 2 \<and> chip_reg (e4k_i2c_addr (dev_e4k s)) (dev_xfers s') =
      (chip_reg (e4k_i2c_addr (dev_e4k s)) (dev_xfers s))(r \<mapsto> v)
    \<and> dev_e4k s' = dev_e4k s \<and> usb_acks (dev_usb s')"
proof -
  have x: "run_state (rtlsdr_i2c_write_fn (e4k_i2c_addr (dev_e4k s)) [r, v]) s = (rc, s')"
    using run by (simp add: e4k_reg_write_def)
  then have "dev_e4k s' = dev_e4k s"
    by (auto simp: rtlsdr_i2c_write_fn_def rtlsdr_write_array_def run_ctrl_out)
  moreover have "usb_acks (dev_usb s')"
    using ackedD [OF acked_e4k_reg_write assms] by simp
  ultimately show ?thesis using chip_reg_write_fn [OF assms(1) x] by simp
qed

text \<open>The registers of the PLL hold the parameters \<open>p\<close>.\<close>

definition e4k_pll_holds :: "u8 \<Rightarrow> usb_xfer list \<Rightarrow> e4k_pll_params \<Rightarrow> bool" where
  "e4k_pll_holds a h p \<longleftrightarrow>
     chip_reg a h E4K_REG_SYNTH7 = Some (pll_r_idx p) \<and>
     chip_reg a h E4K_REG_SYNTH3 = Some (u8_of_nat (pll_z p)) \<and>
     chip_reg a h E4K_REG_SYNTH4 = Some (u8_of_nat (pll_x p mod 256)) \<and>
     chip_reg a h E4K_REG_SYNTH5 = Some (u8_of_nat (pll_x p div 256))"

lemma e4k_pll_holds_frame:
  "e4k_pll_holds a h p \<Longrightarrow> (\<And>r. r \<notin> {E4K_REG_BIAS, E4K_REG_SYNTH1, E4K_REG_FILT1} \<Longrightarrow>
     chip_reg a h' r = chip_reg a h r) \<Longrightarrow> e4k_pll_holds a h' p"
  by (simp add: e4k_pll_holds_def e4k_regs)

lemma run_tune_params:
  assumes "usb_acks (dev_usb s)" and run: "run_state (e4k_tune_params p) s = (rc, t)"
  shows "e4k_pll_holds (e4k_i2c_addr (dev_e4k s)) (dev_xfers t) p \<and>
    e4k_i2c_addr (dev_e4k t) = e4k_i2c_addr (dev_e4k s)"
proof -
  let ?a = "e4k_i2c_addr (dev_e4k s)"
  define k where "k = (do {
     modify (\<lambda>s. s\<lparr>dev_e4k := (dev_e4k s)\<lparr>e4k_vco := p\<rparr>\<rparr>);
     _ \<leftarrow> e4k_band_set (e4k_flo_band (pll_flo p));
     _ \<leftarrow> e4k_rf_filter_set;
     ret (s32 (int (pll_flo p))) })"
  obtain r1 s1 where s1: "run_state (e4k_reg_write E4K_REG_SYNTH7 (pll_r_idx p)) s = (r1, s1)"
    by fastforce
  note c1 = chip_reg_e4k_write [OF assms(1) s1]
  obtain r2 s2 where s2: "run_state (e4k_reg_write E4K_REG_SYNTH3 (u8_of_nat (pll_z p))) s1 = (r2, s2)"
    by fastforce
  note c2 = chip_reg_e4k_write [OF _ s2]
  obtain r3 s3 where s3: "run_state (e4k_reg_write E4K_REG_SYNTH4 (u8_of_nat (pll_x p mod 256))) s2 = (r3, s3)"
    by fastforce
  note c3 = chip_reg_e4k_write [OF _ s3]
  obtain r4 s4 where s4: "run_state (e4k_reg_write E4K_REG_SYNTH5 (u8_of_nat (pll_x p div 256))) s3 = (r4, s4)"
    by fastforce
  note c4 = chip_reg_e4k_write [OF _ s4]
  have h4: "e4k_pll_holds ?a (dev_xfers s4) p" and a4: "e4k_i2c_addr (dev_e4k s4) = ?a"
    using c1 c2 c3 c4 by (simp_all add: e4k_pll_holds_def e4k_regs)
  have "state_io_rel (e4_frame {E4K_REG_BIAS, E4K_REG_SYNTH1, E4K_REG_FILT1}) k"
    unfolding k_def
    by (intro e4_cf.rel_rules e4_cf.rel_upd e4_cf.rel_band_set e4_cf.rel_rf_filter) auto
  moreover have "run_state k s4 = (rc, t)"
    using run s1 s2 s3 s4 by (simp add: e4k_tune_params_def k_def)
  ultimately have "e4_frame {E4K_REG_BIAS, E4K_REG_SYNTH1, E4K_REG_FILT1} s4 t"
    by (rule state_io_rel_run)
  then show ?thesis
    using a4 e4k_pll_holds_frame [OF h4] by (auto simp: e4_frame_def chip_frame_def)
qed

text \<open>The PLL multiplies the crystal by \<open>z + x / 65536\<close>, read from the chip's registers.\<close>

definition e4k_chip_mult :: "u8 \<Rightarrow> usb_xfer list \<Rightarrow> nat" where
  "e4k_chip_mult a h =
     (let byte = \<lambda>r. unat (the (chip_reg a h r))
      in 65536 * byte E4K_REG_SYNTH3 + 256 * byte E4K_REG_SYNTH5 + byte E4K_REG_SYNTH4)"

lemma e4k_chip_mult_holds:
  "e4k_pll_holds a h p \<Longrightarrow> pll_z p < 256 \<Longrightarrow> pll_x p < 65536 \<Longrightarrow>
     e4k_chip_mult a h = 65536 * pll_z p + pll_x p"
  by (simp add: e4k_pll_holds_def e4k_chip_mult_def Let_def unat_u8_of_nat
      div_less_iff_less_mult)

text \<open>
  The divider between the VCO and the mixer that the value of register SYNTH7 selects: the
  three lowest bits choose it, bit 3 doubles it (three-phase mixing).
\<close>

definition synth7_divider :: "u8 \<Rightarrow> nat" where
  "synth7_divider v = (if v AND 8 \<noteq> 0 then 2 else 1) * [2, 4, 6, 8, 12, 16, 20, 24] ! unat (v AND 7)"

definition synth7_three_phase :: "u8 \<Rightarrow> bool" where
  "synth7_three_phase v \<longleftrightarrow> v AND 8 \<noteq> 0"

text \<open>The multiple of the frequency that the driver's table asks for.\<close>

definition e4k_flo_mult :: "nat \<Rightarrow> nat" where
  "e4k_flo_mult flo = (case pll_entry flo of Some p \<Rightarrow> vars_mult p | None \<Rightarrow> 2)"

lemma synth7_entry:
  assumes "50000000 \<le> flo" "flo \<le> 2200000000"
  defines "v \<equiv> (case pll_entry flo of Some p \<Rightarrow> reg_synth7 p | None \<Rightarrow> 0)"
  shows "synth7_divider v = e4k_flo_mult flo" "synth7_three_phase v \<longleftrightarrow> flo < 350000000"
    and "2400000000 \<le> flo * e4k_flo_mult flo" "flo * e4k_flo_mult flo < 4800000000"
proof -
  have v: "v = (if flo < 72400000 then 15 else if flo < 81200000 then 14
    else if flo < 108300000 then 13 else if flo < 162500000 then 12
    else if flo < 216600000 then 11 else if flo < 325000000 then 10
    else if flo < 350000000 then 9 else if flo < 432000000 then 3
    else if flo < 667000000 then 2 else if flo < 1200000000 then 1 else 0)"
    by (simp add: v_def pll_entry_def pll_vars_def)
  have m: "e4k_flo_mult flo = (if flo < 72400000 then 48 else if flo < 81200000 then 40
    else if flo < 108300000 then 32 else if flo < 162500000 then 24
    else if flo < 216600000 then 16 else if flo < 325000000 then 12
    else if flo < 350000000 then 8 else if flo < 432000000 then 8
    else if flo < 667000000 then 6 else if flo < 1200000000 then 4 else 2)"
    by (simp add: e4k_flo_mult_def pll_entry_def pll_vars_def)
  show "synth7_divider v = e4k_flo_mult flo" "synth7_three_phase v \<longleftrightarrow> flo < 350000000"
    unfolding v m by (auto simp: synth7_divider_def synth7_three_phase_def)
  show "2400000000 \<le> flo * e4k_flo_mult flo" "flo * e4k_flo_mult flo < 4800000000"
    using assms(1,2) unfolding m by (simp_all split: if_split)
qed

text \<open>
  C8. \<open>e4k_tune_freq\<close> programs the best fraction and the divider that belongs to it: for every
  crystal of 20 to 30 MHz and every frequency of 50 to 2200 MHz, on a bus that completes its transfers,
  register SYNTH7 of the chip then selects the output divider of the driver's table, which puts the VCO
  between 2.4 and 4.8 GHz, and three-phase mixing below 350 MHz only; and the multiplier in the
  registers SYNTH3 to SYNTH5 is the largest one whose VCO frequency does not exceed the wanted multiple
  of the frequency. The function returns 0 or -1 after the lock bit, where its comment promises the
  frequency that was tuned.
\<close>

theorem e4k_tunes:
  assumes "usb_acks (dev_usb s)" and "e4k_in_range (pll_fosc (e4k_vco (dev_e4k s))) freq"
    and run: "run_state (e4k_tune_freq freq) s = (rc, t)"
  shows "(rc = 0 \<or> rc = -1) \<and>
    (let fosc = pll_fosc (e4k_vco (dev_e4k s)); a = e4k_i2c_addr (dev_e4k s); h = dev_xfers t;
         m = e4k_chip_mult a h
     in \<exists>synth7. chip_reg a h E4K_REG_SYNTH7 = Some synth7 \<and>
        synth7_divider synth7 = e4k_flo_mult freq \<and> (synth7_three_phase synth7 \<longleftrightarrow> freq < 350000000) \<and>
        2400000000 \<le> freq * synth7_divider synth7 \<and> freq * synth7_divider synth7 < 4800000000 \<and>
        m * fosc \<le> 65536 * (freq * synth7_divider synth7) \<and>
        65536 * (freq * synth7_divider synth7) < (m + 1) * fosc)"
proof -
  let ?a = "e4k_i2c_addr (dev_e4k s)" and ?f = "pll_fosc (e4k_vco (dev_e4k s))"
  obtain p where p: "e4k_compute_pll_params ?f freq = Some p" "pll_z p < 256" "pll_x p < 65536"
      "pll_r p = e4k_flo_mult freq" "0 < pll_flo p"
      "pll_r_idx p = (case pll_entry freq of Some p \<Rightarrow> reg_synth7 p | None \<Rightarrow> 0)"
      "65536 * pll_z p + pll_x p = (65536 * (freq * pll_r p)) div ?f"
    using e4k_params [OF assms(2)] unfolding e4k_flo_mult_def by metis
  obtain r1 s1 where s1: "run_state (e4k_tune_params p) s = (r1, s1)" by fastforce
  note c1 = run_tune_params [OF assms(1) s1]
  obtain r2 s2 where s2: "run_state (e4k_reg_read E4K_REG_SYNTH1) s1 = (r2, s2)" by fastforce
  have "e4_frame {} s1 s2" by (rule state_io_rel_run [OF e4_cf.rel_rd s2])
  then have h: "e4k_pll_holds ?a (dev_xfers s2) p"
    using c1 by (auto simp: e4_frame_def chip_frame_def e4k_pll_holds_def)
  have t: "s2 = t" "rc = 0 \<or> rc = -1"
    using run p(1,5) s1 s2 by (auto simp: e4k_tune_freq_def split: if_splits)
  have m: "e4k_chip_mult ?a (dev_xfers t) = (65536 * (freq * e4k_flo_mult freq)) div ?f"
    using h t(1) e4k_chip_mult_holds p by metis
  have "chip_reg ?a (dev_xfers t) E4K_REG_SYNTH7 = Some (pll_r_idx p)"
    using h t(1) by (simp add: e4k_pll_holds_def)
  moreover have "0 < ?f" "50000000 \<le> freq" "freq \<le> 2200000000"
    using assms(2) by (simp_all add: e4k_in_range_def)
  ultimately show ?thesis
    using t(2) synth7_entry [of freq] by (simp add: Let_def m p(6) dividend_less_div_times)
qed

definition e4k_example_dev :: rtlsdr_dev where
  "e4k_example_dev = example_dev\<lparr>dev_e4k :=
     \<lparr>e4k_i2c_addr = E4K_I2C_ADDR, e4k_band = E4K_BAND_VHF2,
      e4k_vco = \<lparr>pll_fosc = 28800000, pll_intended_flo = 0, pll_flo = 0, pll_x = 0, pll_z = 0,
        pll_r = 0, pll_r_idx = 0, pll_threephase = False\<rparr>, e4k_gain_mode = 0\<rparr>\<rparr>"

lemma e4k_example_simps [simp]:
  "dev_usb e4k_example_dev = ack_env" "e4k_i2c_addr (dev_e4k e4k_example_dev) = E4K_I2C_ADDR"
  "pll_fosc (e4k_vco (dev_e4k e4k_example_dev)) = 28800000"
  by (simp_all add: e4k_example_dev_def)

theorem e4k_tunes_witness:
  "let t = snd (run_state (e4k_tune_freq 162000000) e4k_example_dev);
       m = e4k_chip_mult E4K_I2C_ADDR (dev_xfers t)
   in chip_reg E4K_I2C_ADDR (dev_xfers t) E4K_REG_SYNTH7 \<noteq> None \<and>
      m * 28800000 \<le> 65536 * (162000000 * 24) \<and> 65536 * (162000000 * 24) < (m + 1) * 28800000"
proof -
  obtain rc t where run: "run_state (e4k_tune_freq 162000000) e4k_example_dev = (rc, t)"
    by fastforce
  have "usb_acks (dev_usb e4k_example_dev)" by simp
  moreover have "e4k_in_range (pll_fosc (e4k_vco (dev_e4k e4k_example_dev))) 162000000"
    by (simp add: e4k_in_range_def)
  moreover have "e4k_flo_mult 162000000 = 24"
    by (simp add: e4k_flo_mult_def pll_entry_def pll_vars_def)
  ultimately show ?thesis
    using e4k_tunes [OF _ _ run] by (auto simp: run Let_def)
qed

section \<open>A tuner that does not answer\<close>

text \<open>
  The lock check of \<open>e4k_tune_freq\<close> cannot see a dead bus: the result of the failed
  register read is kept in an unsigned variable whose lowest bit is then set, so that the
  driver reports success for every frequency of the tuning range although not one read was
  answered.
\<close>

lemma e4k_dead_bus_locks:
  assumes "\<And>h v i n. in_rc (dev_usb s) h v i n < 1"
    and "e4k_in_range (pll_fosc (e4k_vco (dev_e4k s))) freq"
  shows "fst (run_state (e4k_tune_freq freq) s) = 0"
proof -
  obtain p where p: "e4k_compute_pll_params (pll_fosc (e4k_vco (dev_e4k s))) freq = Some p"
      "0 < pll_flo p"
    using e4k_params [OF assms(2)] by metis
  obtain r1 s1 where s1: "run_state (e4k_tune_params p) s = (r1, s1)" by fastforce
  have "e4_frame UNIV s s1"
    by (rule state_io_rel_run [OF e4_cf.rel_tune_params s1]) simp
  then have u: "dev_usb s1 = dev_usb s" by (simp add: e4_frame_def)
  have "fst (run_state (e4k_reg_read E4K_REG_SYNTH1) s1) = -1"
    using assms(1)
    by (auto simp: e4k_reg_read_def rtlsdr_i2c_write_fn_def rtlsdr_write_array_def run_ctrl_out
        rtlsdr_i2c_read_fn_def rtlsdr_read_array_def ctrl_in_def Let_def u)
  moreover have "u32_of_int (- 1) AND 1 \<noteq> 0" by (simp add: u32_of_int_def)
  ultimately show ?thesis
    using p s1 by (auto simp: e4k_tune_freq_def split: prod.splits)
qed

lemma e4k_dead_bus_locks_example:
  "fst (run_state (e4k_tune_freq 162000000)
     (e4k_example_dev\<lparr>dev_usb := ack_env\<lparr>out_rc := \<lambda>h v i d. -1, in_rc := \<lambda>h v i n. -1\<rparr>\<rparr>)) = 0"
  by (rule e4k_dead_bus_locks) (simp_all add: e4k_in_range_def)

end
