(* ===== verification/E4kGain.thy ===== *)
theory E4kGain
  imports E4kTune
begin

text \<open>
  Masked writes and gain settings of the E4000. A chip is \<open>honest\<close> when a read returns the
  value last written; against such a chip a masked write changes exactly the bits of its
  mask, and the rows of the linearity and sensitivity tables reach the gain registers field
  by field.
\<close>

section \<open>Chips that remember\<close>

text \<open>
  What a register read returns: the register was selected by the one-byte write before it.
\<close>

definition honest_chip :: "usb_env \<Rightarrow> u8 \<Rightarrow> bool" where
  "honest_chip e a \<longleftrightarrow> usb_acks e \<and>
     (\<forall>h r v. chip_reg a h r = Some v \<longrightarrow>
        in_byte e (CtrlOut (ucast a) iic_out [r] 1 # h) (ucast a) iic_in 1 0 = v)"

definition honest_env :: usb_env where
  "honest_env = ack_env\<lparr>in_byte := \<lambda>h v i n k. (case h of
     CtrlOut v' i' [r] rc # h' \<Rightarrow> (case chip_reg (ucast v) h' r of Some x \<Rightarrow> x | None \<Rightarrow> 0)
   | _ \<Rightarrow> 0)\<rparr>"

lemma addr_ucast: "ucast (ucast a :: u16) = (a :: u8)"
  by (rule bit_word_eqI) (auto simp: bit_simps)

lemma honest_env: "honest_chip honest_env a"
  by (simp add: addr_ucast honest_chip_def honest_env_def usb_acks_def ack_env_def)

text \<open>The state \<open>s\<close> talks to an honest chip whose registers are \<open>c\<close>.\<close>

definition e4_chip :: "(u8 \<Rightarrow> u8 option) \<Rightarrow> rtlsdr_dev \<Rightarrow> bool" where
  "e4_chip c s \<longleftrightarrow> honest_chip (dev_usb s) (e4k_i2c_addr (dev_e4k s)) \<and>
     chip_reg (e4k_i2c_addr (dev_e4k s)) (dev_xfers s) = c"

lemma index_consts: "(push_bit 8 (ucast IICB) OR 0x10 :: u16) = iic_out"
    "(push_bit 8 (ucast IICB) :: u16) = iic_in" "iic_in OR 0x10 = iic_out"
  by (simp_all add: IICB_def iic_out_def iic_in_def)

lemma e4k_read_chip:
  assumes "e4_chip c s" and v: "c r = Some v" and run: "run_state (e4k_reg_read r) s = (rc, s')"
  shows "rc = uint v \<and> e4_chip c s' \<and> dev_e4k s' = dev_e4k s"
proof -
  let ?e = "dev_usb s" and ?a = "e4k_i2c_addr (dev_e4k s)"
  have h: "usb_acks ?e" "in_byte ?e (CtrlOut (ucast ?a) iic_out [r] 1 # dev_xfers s)
      (ucast ?a) iic_in 1 0 = v" and c: "chip_reg ?a (dev_xfers s) = c"
    using assms(1) v by (auto simp: e4_chip_def honest_chip_def)
  have u: "out_rc ?e x y i d = int (length d)" "in_rc ?e x y i n = int n" for x y i d n
    using h(1) by (simp_all add: usb_acks_def)
  have "rc = uint v" "dev_e4k s' = dev_e4k s" "dev_usb s' = dev_usb s"
      "chip_reg ?a (dev_xfers s') = c"
    using run h(2) c
    by (auto simp: e4k_reg_read_def rtlsdr_i2c_write_fn_def rtlsdr_write_array_def run_ctrl_out
        rtlsdr_i2c_read_fn_def rtlsdr_read_array_def ctrl_in_def Let_def u index_consts
        fill_def fun_eq_iff split: prod.splits)
  then show ?thesis using assms(1) by (simp add: e4_chip_def)
qed

lemma e4k_write_chip:
  assumes "e4_chip c s" and run: "run_state (e4k_reg_write r v) s = (rc, s')"
  shows "rc = 2 \<and> e4_chip (c(r \<mapsto> v)) s' \<and> dev_e4k s' = dev_e4k s"
proof -
  have a: "usb_acks (dev_usb s)" using assms(1) by (simp add: e4_chip_def honest_chip_def)
  have "dev_usb s' = dev_usb s"
    using state_io_rel_run [OF rel_e4k_reg_write run] by (rule same_core_usb)
  with chip_reg_e4k_write [OF a run] assms(1) show ?thesis by (simp add: e4_chip_def)
qed

definition put_mask :: "u8 \<Rightarrow> u8 \<Rightarrow> u8 \<Rightarrow> (u8 \<Rightarrow> u8 option) \<Rightarrow> (u8 \<Rightarrow> u8 option)" where
  "put_mask r m v c = c(r \<mapsto> (the (c r) AND NOT m) OR (v AND m))"

lemma masked_same:
  fixes x :: u8
  assumes "x AND m = v"
  shows "(x AND NOT m) OR (v AND m) = x"
proof (rule bit_word_eqI)
  fix n
  from assms have "bit v n = (bit x n \<and> bit m n)" by (metis bit_and_iff)
  then show "bit ((x AND NOT m) OR (v AND m)) n = bit x n"
    if "n < LENGTH(8)" using that by (auto simp: bit_simps)
qed

text \<open>
  A masked register write of the E4000 driver is exact: on a chip that reads back
  what was written, \<open>e4k_reg_set_mask\<close> gives the register the new value in the bits of the
  mask and keeps the others, changes no other register, and the write is left out only when
  it would change nothing.
\<close>

lemma e4k_mask_exact:
  assumes "e4_chip c s" and x: "c r = Some x" and run: "run_state (e4k_reg_set_mask r m v) s = (rc, t)"
  shows "e4_chip (put_mask r m v c) t \<and> 0 \<le> rc \<and> dev_e4k t = dev_e4k s"
proof -
  obtain rc1 s1 where s1: "run_state (e4k_reg_read r) s = (rc1, s1)" by fastforce
  have rd: "rc1 = uint x" "e4_chip c s1" "dev_e4k s1 = dev_e4k s"
    using e4k_read_chip [OF assms(1) x s1] by auto
  show ?thesis
  proof (cases "x AND m = v")
    case True
    have "put_mask r m v c = c"
      using x by (simp add: put_mask_def masked_same [OF True] fun_upd_idem)
    then show ?thesis
      using run s1 rd True by (auto simp: e4k_reg_set_mask_def u8_of_int_def)
  next
    case False
    then have "run_state (e4k_reg_write r ((x AND NOT m) OR (v AND m))) s1 = (rc, t)"
      using run s1 rd by (simp add: e4k_reg_set_mask_def u8_of_int_def)
    from e4k_write_chip [OF rd(2) this] show ?thesis using rd(3) x by (simp add: put_mask_def)
  qed
qed

definition e4k_honest_dev :: rtlsdr_dev where
  "e4k_honest_dev = e4k_example_dev\<lparr>dev_usb := honest_env, dev_xfers :=
     map (\<lambda>r. CtrlOut 0xc8 iic_out [r, 0xa5] 2)
       [E4K_REG_GAIN1, E4K_REG_GAIN2, E4K_REG_GAIN3, E4K_REG_GAIN4]\<rparr>"

lemma e4k_honest_simps [simp]:
  "dev_usb e4k_honest_dev = honest_env" "dev_e4k e4k_honest_dev = dev_e4k e4k_example_dev"
  by (simp_all add: e4k_honest_dev_def)

lemma e4k_honest_chip:
  "e4_chip (chip_reg E4K_I2C_ADDR (dev_xfers e4k_honest_dev)) e4k_honest_dev"
  by (simp add: e4_chip_def honest_env)

lemma e4k_honest_regs:
  "r \<in> {E4K_REG_GAIN1, E4K_REG_GAIN2, E4K_REG_GAIN3, E4K_REG_GAIN4} \<Longrightarrow>
     chip_reg E4K_I2C_ADDR (dev_xfers e4k_honest_dev) r = Some 0xa5"
  by (auto simp: e4k_honest_dev_def e4k_regs E4K_I2C_ADDR_def)

lemma e4k_mask_exact_example:
  "e4_chip (put_mask E4K_REG_GAIN1 0xf 9 (chip_reg E4K_I2C_ADDR (dev_xfers e4k_honest_dev)))
     (snd (run_state (e4k_reg_set_mask E4K_REG_GAIN1 0xf 9) e4k_honest_dev))"
proof -
  obtain rc t where run: "run_state (e4k_reg_set_mask E4K_REG_GAIN1 0xf 9) e4k_honest_dev = (rc, t)"
    by fastforce
  show ?thesis
    using e4k_mask_exact [OF e4k_honest_chip e4k_honest_regs run] by (simp add: run)
qed

section \<open>The gain tables reach the registers\<close>

text \<open>Operations that amount to one masked write.\<close>

definition does_mask :: "int usb_m \<Rightarrow> u8 \<times> u8 \<times> u8 \<Rightarrow> bool" where
  "does_mask m p \<longleftrightarrow> (\<forall>c s. e4_chip c s \<longrightarrow> c (fst p) \<noteq> None \<longrightarrow>
     e4_chip (put_mask (fst p) (fst (snd p)) (snd (snd p)) c) (snd (run_state m s)))"

lemma does_maskI: "does_mask (e4k_reg_set_mask r m v) (r, m, v)"
  unfolding does_mask_def
proof (intro allI impI)
  fix c s
  assume "e4_chip c s" and "c (fst (r, m, v)) \<noteq> None"
  then obtain x where x: "c r = Some x" by auto
  obtain rc t where "run_state (e4k_reg_set_mask r m v) s = (rc, t)" by fastforce
  with e4k_mask_exact [OF \<open>e4_chip c s\<close> x this]
  show "e4_chip (put_mask (fst (r, m, v)) (fst (snd (r, m, v))) (snd (snd (r, m, v))) c)
     (snd (run_state (e4k_reg_set_mask r m v) s))" by simp
qed

lemma does_mask_seqs:
  "list_all2 does_mask ms ps \<Longrightarrow> e4_chip c s \<Longrightarrow> (\<And>p. p \<in> set ps \<Longrightarrow> c (fst p) \<noteq> None) \<Longrightarrow>
     e4_chip (fold (\<lambda>(r, m, v). put_mask r m v) ps c) (snd (run_state (seqs ms) s))"
proof (induction ms ps arbitrary: c s rule: list_all2_induct)
  case (Cons m ms p ps)
  obtain rc s1 where s1: "run_state m s = (rc, s1)" by fastforce
  have "e4_chip (put_mask (fst p) (fst (snd p)) (snd (snd p)) c) s1"
    using Cons.hyps(1) Cons.prems(1) Cons.prems(2) [of p] s1 unfolding does_mask_def
    by (metis list.set_intros(1) snd_conv)
  from Cons.IH [OF this] Cons.prems(2) show ?case
    by (simp add: s1 case_prod_unfold put_mask_def)
qed simp

lemma put_mask_other [simp]: "r' \<noteq> r \<Longrightarrow> put_mask r m v c r' = c r'"
  by (simp add: put_mask_def)

lemma put_mask_disjoint:
  "m AND m' = 0 \<Longrightarrow> the (put_mask r m v c r) AND m' = the (c r) AND m'"
proof -
  assume d: "m AND m' = 0"
  have "\<not> (bit m n \<and> bit m' n)" for n
  proof -
    from d have "bit (m AND m') n = bit (0 :: u8) n" by simp
    then show ?thesis by (simp add: bit_and_iff)
  qed
  then show ?thesis
    by (simp add: put_mask_def) (rule bit_word_eqI, auto simp: bit_simps)
qed

lemma put_mask_same: "the (put_mask r m v c r) AND m = v AND m"
  by (simp add: put_mask_def) (rule bit_word_eqI, auto simp: bit_simps)

lemma index_of_SomeD: "index_of xs v = Some i \<Longrightarrow> i < length xs \<and> xs ! i = v"
  by (induction xs arbitrary: i) (auto split: if_splits)

text \<open>The gain registers as the data sheet reads them.\<close>

definition field_get :: "reg_field \<Rightarrow> (u8 \<Rightarrow> u8 option) \<Rightarrow> nat" where
  "field_get f c = unat (drop_bit (field_shift f) (the (c (field_reg f)) AND field_mask f))"

definition e4k_gains_set :: "(u8 \<Rightarrow> u8 option) \<Rightarrow> gain_table_mode_struct \<Rightarrow> bool" where
  "e4k_gains_set c row \<longleftrightarrow>
     map_of lnagain (tab_LNA_gain row * 10) = Some (the (c E4K_REG_GAIN1) AND 0xf) \<and>
     (the (c E4K_REG_GAIN2) AND 1 = 1) = (tab_mixer_gain row = 12) \<and>
     list_all (\<lambda>l. if_stage_gain ! (l + 1) ! field_get (if_stage_gain_regs ! (l + 1)) c =
       tab_IF_gain row ! l) [0, 1, 2, 3, 4, 5]"

text \<open>Rows whose gains the stages can produce.\<close>

definition e4k_row_ok :: "gain_table_mode_struct \<Rightarrow> bool" where
  "e4k_row_ok row \<longleftrightarrow> map_of lnagain (tab_LNA_gain row * 10) \<noteq> None \<and>
     tab_mixer_gain row \<in> {4, 12} \<and>
     list_all (\<lambda>l. index_of (if_stage_gain ! (l + 1)) (tab_IF_gain row ! l) \<noteq> None)
       [0, 1, 2, 3, 4, 5]"

lemma e4k_tables_ok:
  "list_all e4k_row_ok gain_table_mode_linearity" "list_all e4k_row_ok gain_table_mode_sensitivity"
  by code_simp+

definition if_mask :: "nat \<Rightarrow> nat \<Rightarrow> u8 \<times> u8 \<times> u8" where
  "if_mask st i = (let f = if_stage_gain_regs ! st
     in (field_reg f, field_mask f, push_bit (field_shift f) (u8_of_nat i)))"

lemma does_if_gain:
  assumes "st \<in> {1, 2, 3, 4, 5, 6}" and "index_of (if_stage_gain ! st) g = Some i"
  shows "does_mask (e4k_if_gain_set (u8_of_nat st) g) (if_mask st i)"
proof -
  have u: "unat (u8_of_nat st) = st" using assms(1) by (auto simp: unat_u8_of_nat)
  have "find_stage_gain (u8_of_nat st) g = int i"
    using assms by (auto simp: find_stage_gain_def u if_stage_gain_def)
  moreover have "u8_of_int (int i) = u8_of_nat i" by (simp add: u8_of_int_def u8_of_nat_def)
  ultimately show ?thesis by (simp add: e4k_if_gain_set_def u Let_def if_mask_def does_maskI)
qed

lemma if_field_values:
  "list_all (\<lambda>st. list_all (\<lambda>i. unat (drop_bit (field_shift (if_stage_gain_regs ! st))
       (snd (snd (if_mask st i)) AND field_mask (if_stage_gain_regs ! st))) = i)
     [0..<length (if_stage_gain ! st)]) [1, 2, 3, 4, 5, 6]"
  by code_simp

lemma if_field_lookup:
  assumes "st \<in> {1, 2, 3, 4, 5, 6}" and "i < length (if_stage_gain ! st)"
    and "the (c (field_reg (if_stage_gain_regs ! st))) AND field_mask (if_stage_gain_regs ! st) =
      snd (snd (if_mask st i)) AND field_mask (if_stage_gain_regs ! st)"
  shows "field_get (if_stage_gain_regs ! st) c = i"
  using assms(1,2) if_field_values
  unfolding field_get_def assms(3) list_all_iff by fastforce

text \<open>The masked writes of one row of a gain table.\<close>

definition row_masks :: "u8 \<Rightarrow> gain_table_mode_struct \<Rightarrow> (nat \<Rightarrow> nat) \<Rightarrow> (u8 \<times> u8 \<times> u8) list" where
  "row_masks lna row idx = (E4K_REG_GAIN1, 0xf, lna) #
     (E4K_REG_GAIN2, 1, if tab_mixer_gain row = 12 then 1 else 0) #
     map (\<lambda>l. if_mask (l + 1) (idx l)) [0, 1, 2, 3, 4, 5]"

lemma does_row:
  assumes "map_of lnagain (tab_LNA_gain row * 10) = Some lna" and "tab_mixer_gain row \<in> {4, 12}"
    and "\<And>l. l \<in> {0, 1, 2, 3, 4, 5} \<Longrightarrow>
      index_of (if_stage_gain ! (l + 1)) (tab_IF_gain row ! l) = Some (idx l)"
  shows "list_all2 does_mask (e4k_set_stages row) (row_masks lna row idx)"
proof -
  have "does_mask (e4k_set_lna_gain (tab_LNA_gain row * 10)) (E4K_REG_GAIN1, 0xf, lna)"
    using does_maskI [of E4K_REG_GAIN1 "0xf" lna] assms(1)
    by (simp add: e4k_set_lna_gain_def does_mask_def case_prod_unfold)
  moreover have "does_mask (e4k_mixer_gain_set (tab_mixer_gain row))
      (E4K_REG_GAIN2, 1, if tab_mixer_gain row = 12 then 1 else 0)"
    using assms(2) by (auto simp: e4k_mixer_gain_set_def does_maskI)
  moreover have "list_all2 does_mask
      (map (\<lambda>l. e4k_if_gain_set (u8_of_nat (l + 1)) (tab_IF_gain row ! l)) [0, 1, 2, 3, 4, 5])
      (map (\<lambda>l. if_mask (l + 1) (idx l)) [0, 1, 2, 3, 4, 5])"
    unfolding list.rel_map
    by (rule list.rel_refl_strong, rule does_if_gain, force, rule assms(3), simp)
  ultimately show ?thesis unfolding e4k_set_stages_def row_masks_def by blast
qed

lemma lna_code: "map_of lnagain g = Some v \<Longrightarrow> v AND 0xf = v"
  by (auto simp: lnagain_def split: if_splits)

lemma row_masks_fields:
  assumes "map_of lnagain (tab_LNA_gain row * 10) = Some lna"
    and idx: "\<And>l. l \<in> {0, 1, 2, 3, 4, 5} \<Longrightarrow>
      index_of (if_stage_gain ! (l + 1)) (tab_IF_gain row ! l) = Some (idx l)"
  shows "e4k_gains_set (fold (\<lambda>(r, m, v). put_mask r m v) (row_masks lna row idx) c) row"
proof -
  define c' where "c' = fold (\<lambda>(r, m, v). put_mask r m v) (row_masks lna row idx) c"
  have c': "c' = put_mask E4K_REG_GAIN4 56 (snd (snd (if_mask 6 (idx 5))))
      (put_mask E4K_REG_GAIN4 7 (snd (snd (if_mask 5 (idx 4))))
      (put_mask E4K_REG_GAIN3 96 (snd (snd (if_mask 4 (idx 3))))
      (put_mask E4K_REG_GAIN3 24 (snd (snd (if_mask 3 (idx 2))))
      (put_mask E4K_REG_GAIN3 6 (snd (snd (if_mask 2 (idx 1))))
      (put_mask E4K_REG_GAIN3 1 (snd (snd (if_mask 1 (idx 0))))
      (put_mask E4K_REG_GAIN2 1 (if tab_mixer_gain row = 12 then 1 else 0)
      (put_mask E4K_REG_GAIN1 0xf lna c)))))))"
    by (simp add: c'_def row_masks_def if_mask_def if_stage_gain_regs_def Let_def field_mask_def
        width2mask_def)
  have ne: "E4K_REG_GAIN1 \<noteq> E4K_REG_GAIN4" "E4K_REG_GAIN2 \<noteq> E4K_REG_GAIN4"
    "E4K_REG_GAIN3 \<noteq> E4K_REG_GAIN4" "E4K_REG_GAIN1 \<noteq> E4K_REG_GAIN3"
    "E4K_REG_GAIN2 \<noteq> E4K_REG_GAIN3" "E4K_REG_GAIN1 \<noteq> E4K_REG_GAIN2"
    by (simp_all add: e4k_regs)
  have g1: "the (c' E4K_REG_GAIN1) AND 0xf = lna"
    using lna_code [OF assms(1)] ne by (simp add: c' put_mask_same)
  have g2: "the (c' E4K_REG_GAIN2) AND 1 = (if tab_mixer_gain row = 12 then 1 else 0)"
    using ne by (simp add: c' put_mask_same)
  have st: "field_get (if_stage_gain_regs ! st) c' = idx (st - 1)"
    if st: "st \<in> {1, 2, 3, 4, 5, 6}" for st
  proof (rule if_field_lookup [OF st])
    have "st - 1 \<in> {0, 1, 2, 3, 4, 5}" "st - 1 + 1 = st" using st by auto
    with idx [of "st - 1"] show "idx (st - 1) < length (if_stage_gain ! st)"
      using index_of_SomeD by metis
    have "st = 1 \<or> st = 2 \<or> st = 3 \<or> st = 4 \<or> st = 5 \<or> st = 6" using st by auto
    then show "the (c' (field_reg (if_stage_gain_regs ! st))) AND
        field_mask (if_stage_gain_regs ! st) =
      snd (snd (if_mask st (idx (st - 1)))) AND field_mask (if_stage_gain_regs ! st)"
      using ne
      by (elim disjE) (simp_all add: c' if_stage_gain_regs_def field_mask_def width2mask_def
          put_mask_same put_mask_disjoint)
  qed
  have fl: "field_get (if_stage_gain_regs ! (l + 1)) c' = idx l" if "l \<in> {0, 1, 2, 3, 4, 5}" for l
    using st [of "l + 1"] that by auto
  have "if_stage_gain ! (l + 1) ! field_get (if_stage_gain_regs ! (l + 1)) c' = tab_IF_gain row ! l"
    if "l \<in> {0, 1, 2, 3, 4, 5}" for l
    using index_of_SomeD [OF idx [OF that]] fl [OF that] by simp
  then have "list_all (\<lambda>l. if_stage_gain ! (l + 1) ! field_get (if_stage_gain_regs ! (l + 1)) c' =
      tab_IF_gain row ! l) [0, 1, 2, 3, 4, 5]"
    unfolding list_all_iff by (metis list.simps(15) empty_set)
  then show ?thesis
    using assms(1) g1 g2 unfolding c'_def [symmetric] e4k_gains_set_def by simp
qed

text \<open>
  \<open>e4k_set_lna_mixer_if_gain\<close> programs the tables: in the linearity and the
  sensitivity mode, on a chip that reads back what was written, every gain of the mode's
  table is accepted and returned, and afterwards the LNA field, the mixer bit and the six IF
  fields of the gain registers decode to exactly the gains of the table's row.
\<close>

lemma e4k_gain_tables:
  assumes "e4_chip c s"
    and regs: "\<forall>r\<in>{E4K_REG_GAIN1, E4K_REG_GAIN2, E4K_REG_GAIN3, E4K_REG_GAIN4}. c r \<noteq> None"
    and tab: "e4k_mode_table (e4k_gain_mode (dev_e4k s)) = Some tab"
    and row: "find (\<lambda>row. tab_gain row = gain) tab = Some row"
    and run: "run_state (e4k_set_lna_mixer_if_gain gain) s = (rc, t)"
  shows "rc = gain \<and> (\<exists>c'. e4_chip c' t \<and> e4k_gains_set c' row)"
proof -
  have "row \<in> set tab" using row by (auto simp: find_Some_iff)
  then have ok: "e4k_row_ok row"
    using tab e4k_tables_ok by (auto simp: e4k_mode_table_def list_all_iff split: if_splits)
  then obtain lna where lna: "map_of lnagain (tab_LNA_gain row * 10) = Some lna"
    by (auto simp: e4k_row_ok_def)
  define idx where "idx = (\<lambda>l. the (index_of (if_stage_gain ! (l + 1)) (tab_IF_gain row ! l)))"
  have idx: "index_of (if_stage_gain ! (l + 1)) (tab_IF_gain row ! l) = Some (idx l)"
    if "l \<in> {0, 1, 2, 3, 4, 5}" for l
    using ok that unfolding e4k_row_ok_def idx_def list_all_iff by force
  have mix: "tab_mixer_gain row \<in> {4, 12}" using ok by (simp add: e4k_row_ok_def)
  have "c (fst p) \<noteq> None" if "p \<in> set (row_masks lna row idx)" for p
    using that regs by (auto simp: row_masks_def if_mask_def Let_def if_stage_gain_regs_def)
  note does_mask_seqs [OF does_row [OF lna mix idx] assms(1) this]
  moreover have "rc = gain" "t = snd (run_state (seqs (e4k_set_stages row)) s)"
    using run tab row by (auto simp: e4k_set_lna_mixer_if_gain_def split: prod.splits)
  ultimately show ?thesis using row_masks_fields [OF lna idx] by blast
qed

lemma e4k_gain_tables_example:
  "\<exists>c. e4_chip c (snd (run_state (e4k_set_lna_mixer_if_gain 100)
       (e4k_honest_dev\<lparr>dev_e4k := (dev_e4k e4k_honest_dev)\<lparr>e4k_gain_mode := 3\<rparr>\<rparr>))) \<and>
     e4k_gains_set c (gain_table_mode_sensitivity ! 7)"
proof -
  let ?s = "e4k_honest_dev\<lparr>dev_e4k := (dev_e4k e4k_honest_dev)\<lparr>e4k_gain_mode := 3\<rparr>\<rparr>"
  let ?c = "chip_reg E4K_I2C_ADDR (dev_xfers e4k_honest_dev)"
  obtain rc t where run: "run_state (e4k_set_lna_mixer_if_gain 100) ?s = (rc, t)" by fastforce
  have A: "e4_chip ?c ?s" using e4k_honest_chip by (simp add: e4_chip_def)
  have B: "\<forall>r\<in>{E4K_REG_GAIN1, E4K_REG_GAIN2, E4K_REG_GAIN3, E4K_REG_GAIN4}. ?c r \<noteq> None"
    using e4k_honest_regs by auto
  have C: "e4k_mode_table (e4k_gain_mode (dev_e4k ?s)) = Some gain_table_mode_sensitivity"
    by (simp add: e4k_mode_table_def e4k_modes)
  have D: "find (\<lambda>row. tab_gain row = 100) gain_table_mode_sensitivity =
      Some (gain_table_mode_sensitivity ! 7)"
    by (simp add: gain_table_mode_sensitivity_def gain_table_def)
  from e4k_gain_tables [OF A B C D run] show ?thesis unfolding run snd_conv by blast
qed

section \<open>Stage gains\<close>

lemma stage_gain_cases:
  "e4k_get_tuner_stage_gains stage = Some (gs, d) \<Longrightarrow> 2 \<le> unat stage \<Longrightarrow> g \<in> set gs \<Longrightarrow>
     (stage, g) \<in> {2} \<times> {-30, 60} \<union> {3, 4} \<times> {0, 30, 60, 90} \<union> {5} \<times> {0, 10, 20, 30} \<union>
       {6, 7} \<times> {30, 60, 90, 120, 150}"
  unfolding e4k_get_tuner_stage_gains_def by (auto split: if_splits)

lemma stage_gain_rejected:
  assumes "(stage, g) \<in> {2} \<times> {-30, 60} \<union> {3, 4} \<times> {30, 60, 90} \<union> {5} \<times> {10, 20, 30} \<union>
       {6, 7} \<times> {30, 60, 90, 120, 150}"
  shows "find_stage_gain (stage - 2) (s8 g) = - 22"
  using assms by (auto simp: find_stage_gain_def if_stage_gain_def s8_def signed_take_bit_def mask_eq_exp_minus_1)

text \<open>
  The IF stage gains that the E4000 driver advertises cannot be set: for every IF
  stage of \<open>e4k_get_tuner_stage_gains\<close> and every gain other than 0 of its list,
  \<open>e4k_set_tuner_stage_gain\<close> returns \<open>-EINVAL\<close> and sends nothing, because the lists are in
  tenths of a dB and the stages are counted from 1 where it counts from 0.
\<close>

lemma e4k_stage_gains_unsettable:
  assumes "e4k_get_tuner_stage_gains stage = Some (gs, d)" and "2 \<le> unat stage"
    and "g \<in> set gs" and "g \<noteq> 0"
  shows "run_state (e4k_set_tuner_stage_gain stage g) s = (- 22, s)"
proof -
  have "find_stage_gain (stage - 2) (s8 g) = - 22"
    using stage_gain_cases [OF assms(1,2,3)] assms(4) by (intro stage_gain_rejected) auto
  moreover have "stage \<noteq> 0" "stage \<noteq> 1" using assms(2) by auto
  ultimately show ?thesis by (simp add: e4k_set_tuner_stage_gain_def e4k_if_gain_set_def)
qed

lemma e4k_stage_gains_unsettable_example:
  "run_state (e4k_set_tuner_stage_gain 3 60) e4k_example_dev = (- 22, e4k_example_dev)"
  by (rule e4k_stage_gains_unsettable [of 3 "[0, 30, 60, 90]" "''IF2''"])
    (simp_all add: e4k_get_tuner_stage_gains_def)

end
