(* ===== verification/Tuner.thy ===== *)
theory Tuner
  imports Fc0012 Fc0013 Fc2580 R82xxRules E4kRules
begin

text \<open>
  The tuner interface of \<open>librtlsdr.c\<close>: the functions that adapt each tuner driver, the
  table \<open>tuners\<close> that dispatches to them (\<open>None\<close> is a NULL entry), and the two operations
  that the R820T's bandwidth setting calls back, \<open>rtlsdr_set_center_freq\<close> and
  \<open>rtlsdr_set_if_freq\<close>. The locale \<open>tuner_driver\<close> states what the rest of the library relies
  on: a driver never switches the I2C repeater itself and keeps the receiver's settings.
\<close>

section \<open>Adapters\<close>

definition upd_e4k :: "(e4k_state \<Rightarrow> e4k_state) \<Rightarrow> unit usb_m" where
  "upd_e4k f = modify (\<lambda>s. s\<lparr>dev_e4k := f (dev_e4k s)\<rparr>)"

definition set_fosc :: "nat \<Rightarrow> e4k_state \<Rightarrow> e4k_state" where
  "set_fosc f e = e\<lparr>e4k_vco := (e4k_vco e)\<lparr>pll_fosc := f\<rparr>\<rparr>"

definition e4000_init :: "int usb_m" where
  "e4000_init = do {
     upd_e4k (\<lambda>e. e\<lparr>e4k_i2c_addr := E4K_I2C_ADDR\<rparr>);
     fosc \<leftarrow> rtlsdr_get_tuner_clock;
     upd_e4k (set_fosc fosc);
     e4k_init }"

definition e4000_exit :: "int usb_m" where
  "e4000_exit = e4k_standby True"

definition e4000_set_freq :: "nat \<Rightarrow> int usb_m" where
  "e4000_set_freq freq = e4k_tune_freq freq"

definition e4000_set_bw :: "int \<Rightarrow> int usb_m" where
  "e4000_set_bw bw = or_steps 0
     [e4k_if_filter_bw_set E4K_IF_FILTER_MIX (u32_of_int bw),
      e4k_if_filter_bw_set E4K_IF_FILTER_RC (u32_of_int bw),
      e4k_if_filter_bw_set E4K_IF_FILTER_CHAN (u32_of_int bw)]"

definition e4000_set_gain :: "int \<Rightarrow> int usb_m" where
  "e4000_set_gain gain = (let mixgain = (if gain > 340 then 12 else 4) in do {
     r \<leftarrow> e4k_set_lna_gain (min 300 (gain - mixgain * 10));
     if r = - EINVAL then ret (-1)
     else do {
       r \<leftarrow> e4k_mixer_gain_set mixgain;
       if r = - EINVAL then ret (-1) else ret 0 } })"

definition e4000_set_if_gain :: "int \<Rightarrow> int \<Rightarrow> int usb_m" where
  "e4000_set_if_gain stage gain = e4k_if_gain_set (u8_of_int stage) (s8 (gain sdiv 10))"

definition e4000_set_gain_mode :: "int \<Rightarrow> int usb_m" where
  "e4000_set_gain_mode manual = e4k_enable_manual_gain (u8_of_int manual)"

definition fc0012_set_freq :: "nat \<Rightarrow> int usb_m" where
  "fc0012_set_freq freq = do {
     rtlsdr_set_gpio_bit 6 (freq > 300000000);
     fc0012_set_params freq 6000000 }"

definition fc0013_set_freq :: "nat \<Rightarrow> int usb_m" where
  "fc0013_set_freq freq = fc0013_set_params freq 6000000"

definition fc2580_set_bw :: "int \<Rightarrow> int usb_m" where
  "fc2580_set_bw bw = fc2580_SetBandwidthMode 1"

definition R820T_I2C_ADDR :: u8 where "R820T_I2C_ADDR = 0x34"
definition R828D_I2C_ADDR :: u8 where "R828D_I2C_ADDR = 0x74"
definition R828D_XTAL_FREQ :: nat where "R828D_XTAL_FREQ = 16000000"
definition R82XX_IF_FREQ :: nat where "R82XX_IF_FREQ = 3570000"

definition r820t_config :: "rtlsdr_tuner \<Rightarrow> nat \<Rightarrow> r82xx_config" where
  "r820t_config t xtal = \<lparr>
     cfg_i2c_addr = (if t = RTLSDR_TUNER_R828D then R828D_I2C_ADDR else R820T_I2C_ADDR),
     cfg_xtal = xtal,
     cfg_rafael_chip = (if t = RTLSDR_TUNER_R828D then CHIP_R828D else CHIP_R820T),
     cfg_max_i2c_msg_len = 8, cfg_use_predetect = False\<rparr>"

definition r820t_init :: "int usb_m" where
  "r820t_init = do {
     t \<leftarrow> gets dev_tuner_type;
     xtal \<leftarrow> rtlsdr_get_tuner_clock;
     modify (\<lambda>s. s\<lparr>dev_r82c := r820t_config t xtal\<rparr>);
     r82xx_init }"

definition r820t_exit :: "int usb_m" where
  "r820t_exit = r82xx_standby"

definition r820t_set_freq :: "nat \<Rightarrow> int usb_m" where
  "r820t_set_freq freq = r82xx_set_freq freq"

definition r820t_set_gain :: "int \<Rightarrow> int usb_m" where
  "r820t_set_gain gain = r82xx_set_gain gain"

definition r820t_set_gain_mode :: "int \<Rightarrow> int usb_m" where
  "r820t_set_gain_mode manual = r82xx_enable_manual_gain (u8_of_int manual)"

section \<open>The table of tuners\<close>

fun tuner_init :: "rtlsdr_tuner \<Rightarrow> int usb_m option" where
  "tuner_init RTLSDR_TUNER_UNKNOWN = None"
| "tuner_init RTLSDR_TUNER_E4000 = Some e4000_init"
| "tuner_init RTLSDR_TUNER_FC0012 = Some fc0012_init"
| "tuner_init RTLSDR_TUNER_FC0013 = Some fc0013_init"
| "tuner_init RTLSDR_TUNER_FC2580 = Some fc2580_Initialize"
| "tuner_init RTLSDR_TUNER_R820T = Some r820t_init"
| "tuner_init RTLSDR_TUNER_R828D = Some r820t_init"

fun tuner_exit :: "rtlsdr_tuner \<Rightarrow> int usb_m option" where
  "tuner_exit RTLSDR_TUNER_UNKNOWN = None"
| "tuner_exit RTLSDR_TUNER_E4000 = Some e4000_exit"
| "tuner_exit RTLSDR_TUNER_FC0012 = Some (ret 0)"
| "tuner_exit RTLSDR_TUNER_FC0013 = Some (ret 0)"
| "tuner_exit RTLSDR_TUNER_FC2580 = Some (ret 0)"
| "tuner_exit RTLSDR_TUNER_R820T = Some r820t_exit"
| "tuner_exit RTLSDR_TUNER_R828D = Some r820t_exit"

fun tuner_set_freq :: "rtlsdr_tuner \<Rightarrow> (nat \<Rightarrow> int usb_m) option" where
  "tuner_set_freq RTLSDR_TUNER_UNKNOWN = None"
| "tuner_set_freq RTLSDR_TUNER_E4000 = Some e4000_set_freq"
| "tuner_set_freq RTLSDR_TUNER_FC0012 = Some fc0012_set_freq"
| "tuner_set_freq RTLSDR_TUNER_FC0013 = Some fc0013_set_freq"
| "tuner_set_freq RTLSDR_TUNER_FC2580 = Some fc2580_SetRfFreqHz"
| "tuner_set_freq RTLSDR_TUNER_R820T = Some r820t_set_freq"
| "tuner_set_freq RTLSDR_TUNER_R828D = Some r820t_set_freq"

fun tuner_set_gain :: "rtlsdr_tuner \<Rightarrow> (int \<Rightarrow> int usb_m) option" where
  "tuner_set_gain RTLSDR_TUNER_UNKNOWN = None"
| "tuner_set_gain RTLSDR_TUNER_E4000 = Some e4000_set_gain"
| "tuner_set_gain RTLSDR_TUNER_FC0012 = Some fc0012_set_gain"
| "tuner_set_gain RTLSDR_TUNER_FC0013 = Some fc0013_set_lna_gain"
| "tuner_set_gain RTLSDR_TUNER_FC2580 = Some (\<lambda>gain. ret 0)"
| "tuner_set_gain RTLSDR_TUNER_R820T = Some r820t_set_gain"
| "tuner_set_gain RTLSDR_TUNER_R828D = Some r820t_set_gain"

fun tuner_set_if_gain :: "rtlsdr_tuner \<Rightarrow> (int \<Rightarrow> int \<Rightarrow> int usb_m) option" where
  "tuner_set_if_gain RTLSDR_TUNER_E4000 = Some e4000_set_if_gain"
| "tuner_set_if_gain t = None"

fun tuner_set_gain_mode :: "rtlsdr_tuner \<Rightarrow> (int \<Rightarrow> int usb_m) option" where
  "tuner_set_gain_mode RTLSDR_TUNER_UNKNOWN = None"
| "tuner_set_gain_mode RTLSDR_TUNER_E4000 = Some e4000_set_gain_mode"
| "tuner_set_gain_mode RTLSDR_TUNER_FC0012 = Some (\<lambda>manual. ret 0)"
| "tuner_set_gain_mode RTLSDR_TUNER_FC0013 = Some (\<lambda>manual. fc0013_set_gain_mode (manual \<noteq> 0))"
| "tuner_set_gain_mode RTLSDR_TUNER_FC2580 = Some (\<lambda>manual. ret 0)"
| "tuner_set_gain_mode RTLSDR_TUNER_R820T = Some r820t_set_gain_mode"
| "tuner_set_gain_mode RTLSDR_TUNER_R828D = Some r820t_set_gain_mode"

text \<open>The entry of \<open>dev->tuner\<close>, if the pointer and the entry are not NULL.\<close>

definition tuner_op :: "(rtlsdr_tuner \<Rightarrow> 'a option) \<Rightarrow> 'a option usb_m" where
  "tuner_op sel = gets (\<lambda>s. Option.bind (dev_tuner s) sel)"

text \<open>A driver call between the two switches of the repeater.\<close>

definition with_repeater :: "int usb_m \<Rightarrow> int usb_m" where
  "with_repeater m = do {
     rtlsdr_set_i2c_repeater True;
     r \<leftarrow> m;
     rtlsdr_set_i2c_repeater False;
     ret r }"

section \<open>Centre frequency and bandwidth\<close>

text \<open>\<open>freq - dev->offs_freq\<close> wraps; \<open>dev->freq\<close> becomes 0 when tuning fails.\<close>

definition rtlsdr_set_center_freq :: "nat \<Rightarrow> int usb_m" where
  "rtlsdr_set_center_freq freq = do {
     tuner \<leftarrow> gets dev_tuner;
     if tuner = None then ret (-1)
     else do {
       ds \<leftarrow> gets dev_direct_sampling;
       op \<leftarrow> tuner_op tuner_set_freq;
       offs \<leftarrow> gets dev_offs_freq;
       r \<leftarrow> (if ds \<noteq> 0 then rtlsdr_set_if_freq freq
            else case op of
              Some f \<Rightarrow> with_repeater (f (u32 (freq + 4294967296 - offs)))
            | None \<Rightarrow> ret (-1));
       modify (\<lambda>s. s\<lparr>dev_freq := (if r = 0 then freq else 0)\<rparr>);
       ret r } }"

definition r820t_set_bw :: "int \<Rightarrow> int usb_m" where
  "r820t_set_bw bw = do {
     rate \<leftarrow> gets dev_rate;
     r \<leftarrow> r82xx_set_bandwidth bw rate;
     if r < 0 then ret r
     else do {
       r \<leftarrow> rtlsdr_set_if_freq (nat r);
       if r \<noteq> 0 then ret r
       else do {
         freq \<leftarrow> gets dev_freq;
         rtlsdr_set_center_freq freq } } }"

fun tuner_set_bw :: "rtlsdr_tuner \<Rightarrow> (int \<Rightarrow> int usb_m) option" where
  "tuner_set_bw RTLSDR_TUNER_UNKNOWN = None"
| "tuner_set_bw RTLSDR_TUNER_E4000 = Some e4000_set_bw"
| "tuner_set_bw RTLSDR_TUNER_FC0012 = Some (\<lambda>bw. ret 0)"
| "tuner_set_bw RTLSDR_TUNER_FC0013 = Some (\<lambda>bw. ret 0)"
| "tuner_set_bw RTLSDR_TUNER_FC2580 = Some fc2580_set_bw"
| "tuner_set_bw RTLSDR_TUNER_R820T = Some r820t_set_bw"
| "tuner_set_bw RTLSDR_TUNER_R828D = Some r820t_set_bw"

section \<open>Traffic of the drivers\<close>

text \<open>
  The drivers' transfers: I2C, or the system registers for a GPIO pin. None is a switch of
  the repeater.
\<close>

definition tuner_traffic :: "usb_xfer \<Rightarrow> bool" where
  "tuner_traffic x \<longleftrightarrow> any_i2c x \<or> sys_xfer x"

lemma tuner_traffic_quiet: "tuner_traffic x \<Longrightarrow> \<not> repeater_write x"
  using i2c_xfer_not_repeater sys_xfer_quiet by (auto simp: tuner_traffic_def any_i2c_def)

section \<open>The repeater between two calls\<close>

text \<open>
  Between two calls of the library the repeater is off, and the tuner has only been
  addressed while it was on.
\<close>

definition tidy :: "rtlsdr_dev \<Rightarrow> bool" where
  "tidy s \<longleftrightarrow> disciplined (dev_xfers s) \<and> \<not> repeater_on (dev_xfers s)"

definition repeating :: "rtlsdr_dev \<Rightarrow> bool" where
  "repeating s \<longleftrightarrow> disciplined (dev_xfers s) \<and> repeater_on (dev_xfers s)"

lemma keeps_repeating_traffic: "bus.rel tuner_traffic m \<Longrightarrow> keeps repeating m"
  unfolding keeps_iff state_io_rel_def imp_rel_def repeating_def bus_rel_def xfers_rel_def
  using tuner_traffic_quiet repeater_on_append disciplined_append by metis

lemma demod_write_xfers:
  "\<exists>v' n rc rc' d. dev_xfers (snd (run_state (rtlsdr_demod_write_reg page addr val len) s)) =
     CtrlIn v' 0x0a n rc' d #
     CtrlOut (push_bit 8 addr OR 0x20) (0x10 OR ucast page) (reg_bytes val len) rc # dev_xfers s"
  by (auto simp: rtlsdr_demod_write_reg_def rtlsdr_demod_read_reg_def ctrl_in_def junk_def
      run_ctrl_out Let_def split: prod.splits)

lemma quiet_demod: "\<not> tuner_xfer (CtrlOut v (0x10 OR ucast (p :: u8)) d rc)"
    "\<not> tuner_xfer (CtrlIn v 0x0a n rc d)"
  using page_index [of p] by (simp_all add: iic_out_def iic_in_def)

text \<open>A write of a demodulator register, other than one that switches the repeater on.\<close>

lemma tidy_demod_write:
  assumes "repeater_write (CtrlOut (push_bit 8 addr OR 0x20) (0x10 OR ucast page) (reg_bytes val len) 0) \<Longrightarrow>
     \<not> bit (hd (reg_bytes val len)) 3"
  shows "keeps tidy (rtlsdr_demod_write_reg page addr val len)"
  unfolding keeps_def
proof (rule validI)
  fix s a s'
  assume "tidy s" and run: "run_state (rtlsdr_demod_write_reg page addr val len) s = (a, s')"
  obtain v' n rc rc' d where "dev_xfers s' = CtrlIn v' 0x0a n rc' d #
      CtrlOut (push_bit 8 addr OR 0x20) (0x10 OR ucast page) (reg_bytes val len) rc # dev_xfers s"
    using demod_write_xfers [of page addr val len s] run by auto
  then show "tidy s'"
    using \<open>tidy s\<close> assms by (simp add: tidy_def quiet_demod del: tuner_xfer.simps)
qed

lemma repeater_xfers:
  "\<exists>v' n rc rc' d. dev_xfers (snd (run_state (rtlsdr_set_i2c_repeater on) s)) =
     CtrlIn v' 0x0a n rc' d # CtrlOut 0x0120 0x11 [if on then 0x18 else 0x10] rc # dev_xfers s"
proof -
  have "\<exists>v' n rc rc' d. dev_xfers (snd (run_state (rtlsdr_set_i2c_repeater on) s)) =
     CtrlIn v' 0x0a n rc' d # CtrlOut (push_bit 8 0x01 OR 0x20) (0x10 OR ucast (1 :: u8))
       (reg_bytes (if on then 0x18 else 0x10) 1) rc # dev_xfers s"
    using demod_write_xfers [of 1 "0x01" "if on then 0x18 else 0x10" 1 s]
    by (cases on) (simp_all add: rtlsdr_set_i2c_repeater_def case_prod_unfold)
  then show ?thesis by (cases on) (simp_all add: reg_bytes_def)
qed

lemma repeater_run:
  "disciplined (dev_xfers s) \<Longrightarrow>
     disciplined (dev_xfers (snd (run_state (rtlsdr_set_i2c_repeater on) s))) \<and>
     repeater_on (dev_xfers (snd (run_state (rtlsdr_set_i2c_repeater on) s))) = on"
  using repeater_xfers [of on s]
  by (cases on) (auto simp: iic_out_def iic_in_def bit_numeral_rec)

lemma repeater_valid:
  "valid (\<lambda>s. disciplined (dev_xfers s)) (rtlsdr_set_i2c_repeater on)
     (\<lambda>_ s. disciplined (dev_xfers s) \<and> repeater_on (dev_xfers s) = on)"
  using repeater_run by (simp add: valid_def case_prod_unfold)

lemma tidy_with_repeater:
  assumes "valid repeating m (\<lambda>_ s. disciplined (dev_xfers s))"
  shows "keeps tidy (with_repeater m)"
  unfolding keeps_def with_repeater_def
proof (rule valid_bind)
  show "valid tidy (rtlsdr_set_i2c_repeater True) (\<lambda>_. repeating)"
    using repeater_valid [of True] by (rule valid_conseq) (auto simp: tidy_def repeating_def)
  show "valid repeating (m \<bind> (\<lambda>r. rtlsdr_set_i2c_repeater False \<bind> (\<lambda>_. ret r))) (\<lambda>_. tidy)" for x :: unit
  proof (rule valid_bind [OF assms])
    show "valid (\<lambda>s. disciplined (dev_xfers s)) (rtlsdr_set_i2c_repeater False \<bind> (\<lambda>_. ret r)) (\<lambda>_. tidy)" for r :: int
      by (rule valid_bind [OF repeater_valid]) (auto simp: tidy_def intro: valid_ret)
  qed
qed

lemma tidy_bracket: "bus.rel tuner_traffic m \<Longrightarrow> keeps tidy (with_repeater m)"
  by (rule tidy_with_repeater, rule valid_conseq [OF keeps_repeating_traffic [unfolded keeps_def]])
    (auto simp: repeating_def)

section \<open>What a driver promises\<close>

text \<open>
  The laws of a driver, and what follows for a call of it between the two switches of the
  repeater.
\<close>

locale tuner_driver =
  fixes exit' :: "int usb_m"
    and set_freq' :: "nat \<Rightarrow> int usb_m"
    and set_gain' :: "int \<Rightarrow> int usb_m"
    and set_gain_mode' :: "int \<Rightarrow> int usb_m"
  assumes exit_frame: "state_io_rel (bus_rel tuner_traffic) exit'"
    and set_freq_frame: "state_io_rel (bus_rel tuner_traffic) (set_freq' f)"
    and set_gain_frame: "state_io_rel (bus_rel tuner_traffic) (set_gain' g)"
    and set_gain_mode_frame: "state_io_rel (bus_rel tuner_traffic) (set_gain_mode' m)"
begin

lemma calls_tidy:
  "keeps tidy (with_repeater exit')" "keeps tidy (with_repeater (set_freq' f))"
  "keeps tidy (with_repeater (set_gain' g))" "keeps tidy (with_repeater (set_gain_mode' m))"
  by (rule tidy_bracket, rule exit_frame set_freq_frame set_gain_frame set_gain_mode_frame)+

lemma calls_core:
  "run_state (set_freq' f) s = (r, t) \<Longrightarrow> same_core s t"
  "run_state (set_gain' g) s = (r, t) \<Longrightarrow> same_core s t"
  using state_io_rel_run [OF set_freq_frame] state_io_rel_run [OF set_gain_frame]
  by (auto simp: bus_rel_def)

end

lemma rel_any_i2c: "bus.rel any_i2c m \<Longrightarrow> bus.rel tuner_traffic m"
  by (erule rel_mono_ok) (simp add: tuner_traffic_def)

lemma rel_one_i2c: "i2c_only a m \<Longrightarrow> bus.rel tuner_traffic m"
  unfolding i2c_only_def by (erule rel_mono_ok) (auto simp: tuner_traffic_def any_i2c_def)

lemma traffic_i2c: "i2c_xfer a x \<Longrightarrow> tuner_traffic x"
  by (auto simp: tuner_traffic_def any_i2c_def)

lemma traffic_sys: "sys_xfer x \<Longrightarrow> tuner_traffic x"
  by (simp add: tuner_traffic_def)

interpretation e4000: tuner_driver e4000_exit e4000_set_freq e4000_set_gain e4000_set_gain_mode
proof unfold_locales
  show "bus.rel tuner_traffic e4000_exit" unfolding e4000_exit_def
    by (intro rel_any_i2c e4_bus.rel_standby) simp
  show "bus.rel tuner_traffic (e4000_set_freq f)" for f unfolding e4000_set_freq_def
    by (intro rel_any_i2c e4_bus.rel_tune_freq) simp
  show "bus.rel tuner_traffic (e4000_set_gain g)" for g unfolding e4000_set_gain_def
    by (intro rel_any_i2c bus.rel_rules e4_bus.rel_lna e4_bus.rel_mixer) simp_all
  show "bus.rel tuner_traffic (e4000_set_gain_mode m)" for m unfolding e4000_set_gain_mode_def
    by (intro rel_any_i2c e4_bus.rel_manual_gain) simp
qed

interpretation fc0012_tuner: tuner_driver "ret 0" fc0012_set_freq fc0012_set_gain "\<lambda>m. ret 0"
proof unfold_locales
  show "bus.rel tuner_traffic (fc0012_set_freq f)" for f unfolding fc0012_set_freq_def
    by (intro bus.rel_rules rel_set_gpio_bit rel_intro traffic_sys traffic_i2c)
  show "bus.rel tuner_traffic (fc0012_set_gain g)" for g
    by (intro rel_intro traffic_i2c)
qed (rule bus.rel_ret)+

interpretation fc0013_tuner: tuner_driver "ret 0" fc0013_set_freq fc0013_set_lna_gain
    "\<lambda>m. fc0013_set_gain_mode (m \<noteq> 0)"
proof unfold_locales
  show "bus.rel tuner_traffic (fc0013_set_freq f)" for f unfolding fc0013_set_freq_def
    by (intro rel_intro traffic_i2c)
  show "bus.rel tuner_traffic (fc0013_set_lna_gain g)" for g
    by (intro rel_intro traffic_i2c)
  show "bus.rel tuner_traffic (fc0013_set_gain_mode (m \<noteq> 0))" for m :: int
    by (intro rel_intro traffic_i2c)
qed (rule bus.rel_ret)+

interpretation fc2580_tuner: tuner_driver "ret 0" fc2580_SetRfFreqHz "\<lambda>g. ret 0" "\<lambda>m. ret 0"
proof unfold_locales
  show "bus.rel tuner_traffic (fc2580_SetRfFreqHz f)" for f
    by (intro rel_intro traffic_i2c)
qed (rule bus.rel_ret)+

interpretation r820t: tuner_driver r820t_exit r820t_set_freq r820t_set_gain r820t_set_gain_mode
proof unfold_locales
  show "bus.rel tuner_traffic r820t_exit" unfolding r820t_exit_def
    by (rule rel_any_i2c, rule r82_bus.rel_standby)
  show "bus.rel tuner_traffic (r820t_set_freq f)" for f unfolding r820t_set_freq_def
    by (rule rel_any_i2c, rule r82_bus.rel_set_freq)
  show "bus.rel tuner_traffic (r820t_set_gain g)" for g unfolding r820t_set_gain_def
    by (rule rel_any_i2c, rule r82_bus.rel_set_gain)
  show "bus.rel tuner_traffic (r820t_set_gain_mode m)" for m unfolding r820t_set_gain_mode_def
    by (rule rel_any_i2c, rule rel_r82xx_enable_manual_gain)
qed

section \<open>The operations of the table\<close>

lemma tidy_exit: "tuner_exit t = Some m \<Longrightarrow> keeps tidy (with_repeater m)"
  by (cases t) (auto intro: e4000.calls_tidy fc0012_tuner.calls_tidy fc0013_tuner.calls_tidy
      fc2580_tuner.calls_tidy r820t.calls_tidy)

lemma tidy_set_freq: "tuner_set_freq t = Some m \<Longrightarrow> keeps tidy (with_repeater (m f))"
  by (cases t) (auto intro: e4000.calls_tidy fc0012_tuner.calls_tidy fc0013_tuner.calls_tidy
      fc2580_tuner.calls_tidy r820t.calls_tidy)

lemma tidy_set_gain: "tuner_set_gain t = Some m \<Longrightarrow> keeps tidy (with_repeater (m g))"
  by (cases t) (auto intro: e4000.calls_tidy fc0012_tuner.calls_tidy fc0013_tuner.calls_tidy
      fc2580_tuner.calls_tidy r820t.calls_tidy)

lemma tidy_set_gain_mode: "tuner_set_gain_mode t = Some m \<Longrightarrow> keeps tidy (with_repeater (m g))"
  by (cases t) (auto intro: e4000.calls_tidy fc0012_tuner.calls_tidy fc0013_tuner.calls_tidy
      fc2580_tuner.calls_tidy r820t.calls_tidy)

lemma tidy_set_if_gain: "tuner_set_if_gain t = Some m \<Longrightarrow> keeps tidy (with_repeater (m i g))"
  by (cases t)
    (auto simp: e4000_set_if_gain_def intro!: tidy_bracket rel_any_i2c e4_bus.rel_if_gain)

lemma set_freq_core: "tuner_set_freq t = Some m \<Longrightarrow> run_state (m f) s = (r, s') \<Longrightarrow> same_core s s'"
  by (cases t) (auto dest: e4000.calls_core fc0012_tuner.calls_core fc0013_tuner.calls_core
      fc2580_tuner.calls_core r820t.calls_core)

text \<open>Initialisation also sets the configuration of the R820T.\<close>

lemma quiet_modify:
  "(\<And>s. dev_xfers (f s) = dev_xfers s) \<Longrightarrow> keeps repeating (modify f)"
  by (simp add: keeps_def valid_def repeating_def)

lemma repeating_r820t_init: "keeps repeating r820t_init"
proof -
  have "keeps repeating rtlsdr_get_tuner_clock" "keeps repeating r82xx_init"
    by (rule keeps_repeating_traffic, rule rel_tuner_clock)
      (rule keeps_repeating_traffic, rule rel_any_i2c, rule rel_r82xx_init)
  moreover have "keeps repeating (modify (\<lambda>s. s\<lparr>dev_r82c := c\<rparr>))" for c
    by (rule quiet_modify) simp
  ultimately show ?thesis unfolding r820t_init_def by (intro keeps_rules)
qed

lemma rel_e4000_init: "bus.rel tuner_traffic e4000_init"
  unfolding e4000_init_def upd_e4k_def
  by (intro bus.rel_rules rel_modify_e4k rel_tuner_clock rel_any_i2c e4_bus.rel_init refl)

lemma repeating_init: "tuner_init t = Some m \<Longrightarrow> keeps repeating m"
  by (cases t)
    (auto intro: repeating_r820t_init keeps_repeating_traffic rel_e4000_init
      rel_fc0012_init rel_fc0013_init rel_fc2580_Initialize traffic_i2c)

end
