(* ===== verification/Rtlsdr.thy ===== *)
theory Rtlsdr
  imports Tuner
begin

text \<open>
  The operations of \<open>librtlsdr.c\<close> on an open device: clocks and correction, sample rate,
  frequency, bandwidth, gains, test mode, AGC, direct sampling, offset tuning, the EEPROM and
  the shutdown. They are sequences of register writes and of driver calls between two
  switches of the I2C repeater.
\<close>

definition DEF_RTL_XTAL_FREQ :: nat where "DEF_RTL_XTAL_FREQ = 28800000"
definition MIN_RTL_XTAL_FREQ :: nat where "MIN_RTL_XTAL_FREQ = DEF_RTL_XTAL_FREQ - 1000"
definition MAX_RTL_XTAL_FREQ :: nat where "MAX_RTL_XTAL_FREQ = DEF_RTL_XTAL_FREQ + 1000"

section \<open>Bandwidth and offset tuning\<close>

text \<open>\<open>set_bw\<close> takes an \<open>int\<close>.\<close>

definition tuner_bw :: "nat \<Rightarrow> int usb_m option usb_m" where
  "tuner_bw bw = do {
     op \<leftarrow> tuner_op tuner_set_bw;
     ret (map_option (\<lambda>f. with_repeater (f (s32 (int bw)))) op) }"

definition rtlsdr_set_tuner_bandwidth :: "nat \<Rightarrow> int usb_m" where
  "rtlsdr_set_tuner_bandwidth bw = do {
     tuner \<leftarrow> gets dev_tuner;
     if tuner = None then ret (-1)
     else do {
       rate \<leftarrow> gets dev_rate;
       call \<leftarrow> tuner_bw (if bw > 0 then bw else rate);
       case call of
         None \<Rightarrow> ret 0
       | Some m \<Rightarrow> do {
           r \<leftarrow> m;
           if r \<noteq> 0 then ret r
           else do {
             modify (\<lambda>s. s\<lparr>dev_bw := bw\<rparr>);
             ret r } } } }"

definition ignore_call :: "int usb_m option \<Rightarrow> unit usb_m" where
  "ignore_call c = (case c of None \<Rightarrow> ret () | Some m \<Rightarrow> do { _ \<leftarrow> m; ret () })"

definition rtlsdr_set_offset_tuning :: "bool \<Rightarrow> int usb_m" where
  "rtlsdr_set_offset_tuning on = do {
     t \<leftarrow> gets dev_tuner_type;
     ds \<leftarrow> gets dev_direct_sampling;
     if t = RTLSDR_TUNER_R820T \<or> t = RTLSDR_TUNER_R828D then ret (-2)
     else if ds \<noteq> 0 then ret (-3)
     else do {
       rate \<leftarrow> gets dev_rate;
       let offs = (if on then u32 ((rate div 2) * 170) div 100 else 0);
       modify (\<lambda>s. s\<lparr>dev_offs_freq := offs\<rparr>);
       r \<leftarrow> rtlsdr_set_if_freq offs;
       bw \<leftarrow> gets dev_bw;
       call \<leftarrow> tuner_bw (if on then u32 (2 * offs) else if bw > 0 then bw else rate);
       ignore_call call;
       freq \<leftarrow> gets dev_freq;
       if freq > offs then or_steps r [rtlsdr_set_center_freq freq] else ret r } }"

definition rtlsdr_get_offset_tuning :: "int usb_m" where
  "rtlsdr_get_offset_tuning = gets (\<lambda>s. if dev_offs_freq s \<noteq> 0 then 1 else 0)"

section \<open>Sample rate\<close>

definition rate_supported :: "nat \<Rightarrow> bool" where
  "rate_supported samp_rate \<longleftrightarrow> \<not> (samp_rate \<le> 225000 \<or> samp_rate > 3200000 \<or>
     (samp_rate > 300000 \<and> samp_rate \<le> 900000))"

definition rsamp_ratio_raw :: "nat \<Rightarrow> nat \<Rightarrow> int" where
  "rsamp_ratio_raw rtl_xtal samp_rate =
     dtrunc (ddiv (dmul (of_nat rtl_xtal) 4194304) (of_nat samp_rate))"

definition real_ratio :: "nat \<Rightarrow> nat" where
  "real_ratio rsamp_ratio = rsamp_ratio OR push_bit 1 (rsamp_ratio AND 0x08000000)"

definition real_rate :: "nat \<Rightarrow> nat \<Rightarrow> rat" where
  "real_rate rtl_xtal ratio = ddiv (dmul (of_nat rtl_xtal) 4194304) (of_nat ratio)"

text \<open>From the bandwidth on: the ratio goes to two registers, and the demodulator is reset.\<close>

definition program_rate :: "nat \<Rightarrow> int usb_m" where
  "program_rate rsamp_ratio = do {
     bw \<leftarrow> gets dev_bw;
     rate \<leftarrow> gets dev_rate;
     call \<leftarrow> tuner_bw (if bw > 0 then bw else rate);
     ignore_call call;
     corr \<leftarrow> gets dev_corr;
     r \<leftarrow> or_steps 0
       [rtlsdr_demod_write_reg 1 0x9f (of_nat (drop_bit 16 rsamp_ratio)) 2,
        rtlsdr_demod_write_reg 1 0xa1 (of_nat (rsamp_ratio AND 0xffff)) 2,
        rtlsdr_set_sample_freq_correction corr,
        rtlsdr_demod_write_reg 1 0x01 0x14 1,
        rtlsdr_demod_write_reg 1 0x01 0x10 1];
     offs \<leftarrow> gets dev_offs_freq;
     (if offs \<noteq> 0 then do { _ \<leftarrow> rtlsdr_set_offset_tuning True; ret () } else ret ());
     ret r }"

definition rtlsdr_set_sample_rate :: "nat \<Rightarrow> int usb_m" where
  "rtlsdr_set_sample_rate samp_rate =
     (if \<not> rate_supported samp_rate then ret (- EINVAL)
      else do {
        xtal \<leftarrow> gets dev_rtl_xtal;
        let raw = rsamp_ratio_raw xtal samp_rate;
        let rsamp_ratio = u32_of_int raw AND 0x0ffffffc;
        let rr = real_rate xtal (real_ratio rsamp_ratio);
        (if raw > 4294967295 \<or> real_ratio rsamp_ratio = 0 \<or> dtrunc rr > 4294967295
         then fault else ret ());
        modify (\<lambda>s. s\<lparr>dev_rate := u32_of_int (dtrunc rr)\<rparr>);
        program_rate rsamp_ratio })"

definition rtlsdr_get_sample_rate :: "nat usb_m" where
  "rtlsdr_get_sample_rate = gets dev_rate"

section \<open>Clocks and correction\<close>

text \<open>The corrected clock goes to the E4000 and R820T states.\<close>

definition push_clocks :: "unit usb_m" where
  "push_clocks = do {
     fosc \<leftarrow> rtlsdr_get_tuner_clock;
     upd_e4k (set_fosc fosc);
     xtal \<leftarrow> rtlsdr_get_tuner_clock;
     modify (\<lambda>s. s\<lparr>dev_r82c := (dev_r82c s)\<lparr>cfg_xtal := xtal\<rparr>\<rparr>) }"

definition rtlsdr_set_xtal_freq :: "nat \<Rightarrow> nat \<Rightarrow> int usb_m" where
  "rtlsdr_set_xtal_freq rtl_freq tuner_freq =
     (if rtl_freq > 0 \<and> (rtl_freq < MIN_RTL_XTAL_FREQ \<or> rtl_freq > MAX_RTL_XTAL_FREQ)
      then ret (-2)
      else do {
        old \<leftarrow> gets dev_rtl_xtal;
        rate \<leftarrow> gets dev_rate;
        r \<leftarrow> (if rtl_freq > 0 \<and> old \<noteq> rtl_freq then do {
               modify (\<lambda>s. s\<lparr>dev_rtl_xtal := rtl_freq\<rparr>);
               if rate \<noteq> 0 then rtlsdr_set_sample_rate rate else ret 0 }
             else ret 0);
        tun \<leftarrow> gets dev_tun_xtal;
        if tun \<noteq> tuner_freq then do {
          modify (\<lambda>s. s\<lparr>dev_tun_xtal := (if tuner_freq = 0 then dev_rtl_xtal s else tuner_freq)\<rparr>);
          push_clocks;
          freq \<leftarrow> gets dev_freq;
          if freq \<noteq> 0 then rtlsdr_set_center_freq freq else ret r }
        else ret r })"

definition rtlsdr_set_freq_correction :: "int \<Rightarrow> int usb_m" where
  "rtlsdr_set_freq_correction ppm = do {
     corr \<leftarrow> gets dev_corr;
     if corr = ppm then ret (-2)
     else do {
       modify (\<lambda>s. s\<lparr>dev_corr := ppm\<rparr>);
       r \<leftarrow> rtlsdr_set_sample_freq_correction ppm;
       push_clocks;
       freq \<leftarrow> gets dev_freq;
       if freq \<noteq> 0 then or_steps r [rtlsdr_set_center_freq freq] else ret r } }"

definition rtlsdr_get_freq_correction :: "int usb_m" where
  "rtlsdr_get_freq_correction = gets dev_corr"

definition rtlsdr_get_center_freq :: "nat usb_m" where
  "rtlsdr_get_center_freq = gets dev_freq"

definition rtlsdr_get_tuner_type :: "rtlsdr_tuner usb_m" where
  "rtlsdr_get_tuner_type = gets dev_tuner_type"

section \<open>Gains\<close>

definition rtlsdr_set_tuner_gain :: "int \<Rightarrow> int usb_m" where
  "rtlsdr_set_tuner_gain gain = do {
     tuner \<leftarrow> gets dev_tuner;
     if tuner = None then ret (-1)
     else do {
       op \<leftarrow> tuner_op tuner_set_gain;
       r \<leftarrow> (case op of Some f \<Rightarrow> with_repeater (f gain) | None \<Rightarrow> ret 0);
       modify (\<lambda>s. s\<lparr>dev_gain := (if r = 0 then gain else 0)\<rparr>);
       ret r } }"

definition rtlsdr_get_tuner_gain :: "int usb_m" where
  "rtlsdr_get_tuner_gain = gets dev_gain"

definition rtlsdr_set_tuner_if_gain :: "int \<Rightarrow> int \<Rightarrow> int usb_m" where
  "rtlsdr_set_tuner_if_gain stage gain = do {
     tuner \<leftarrow> gets dev_tuner;
     if tuner = None then ret (-1)
     else do {
       op \<leftarrow> tuner_op tuner_set_if_gain;
       case op of Some f \<Rightarrow> with_repeater (f stage gain) | None \<Rightarrow> ret 0 } }"

definition rtlsdr_set_tuner_gain_mode :: "int \<Rightarrow> int usb_m" where
  "rtlsdr_set_tuner_gain_mode mode = do {
     tuner \<leftarrow> gets dev_tuner;
     if tuner = None then ret (-1)
     else do {
       op \<leftarrow> tuner_op tuner_set_gain_mode;
       case op of Some f \<Rightarrow> with_repeater (f mode) | None \<Rightarrow> ret 0 } }"

definition rtlsdr_set_tuner_stage_gain :: "u8 \<Rightarrow> int \<Rightarrow> int usb_m" where
  "rtlsdr_set_tuner_stage_gain stage gain = do {
     t \<leftarrow> gets dev_tuner_type;
     with_repeater (case t of
         RTLSDR_TUNER_E4000 \<Rightarrow> e4k_set_tuner_stage_gain stage gain
       | RTLSDR_TUNER_R820T \<Rightarrow> r82xx_set_tuner_stage_gain stage gain
       | RTLSDR_TUNER_R828D \<Rightarrow> r82xx_set_tuner_stage_gain stage gain
       | _ \<Rightarrow> ret (-1)) }"

definition fc0012_gains :: "int list" where
  "fc0012_gains = [-99, -40, 71, 179, 192]"

definition fc0013_gains :: "int list" where
  "fc0013_gains = [-99, -73, -65, -63, -60, -58, -54, 58, 61, 63, 65, 67, 68, 70, 71, 179,
     181, 182, 184, 186, 188, 191, 197]"

text \<open>
  The values copied to the caller's buffer (if there is one) and the count. Reading the
  E4000's manual table through the pointer to a dead array is undefined.
\<close>

definition rtlsdr_get_tuner_gains :: "bool \<Rightarrow> (int \<times> int list) usb_m" where
  "rtlsdr_get_tuner_gains buffer = do {
     t \<leftarrow> gets dev_tuner_type;
     gains \<leftarrow> (case t of
         RTLSDR_TUNER_E4000 \<Rightarrow> do {
           p \<leftarrow> e4k_get_tuner_gains;
           case p of
             None \<Rightarrow> ret []
           | Some (Static_table g) \<Rightarrow> ret g
           | Some (Dead_local g) \<Rightarrow> do { (if buffer then fault else ret ()); ret g } }
       | RTLSDR_TUNER_FC0012 \<Rightarrow> ret fc0012_gains
       | RTLSDR_TUNER_FC0013 \<Rightarrow> ret fc0013_gains
       | RTLSDR_TUNER_FC2580 \<Rightarrow> ret [0]
       | RTLSDR_TUNER_R820T \<Rightarrow> do { (g, len) \<leftarrow> r82xx_get_tuner_gains; ret (take (len div 4) g) }
       | RTLSDR_TUNER_R828D \<Rightarrow> do { (g, len) \<leftarrow> r82xx_get_tuner_gains; ret (take (len div 4) g) }
       | RTLSDR_TUNER_UNKNOWN \<Rightarrow> ret [0]);
     ret (int (length gains), if buffer then gains else []) }"

text \<open>For an unknown stage the description pointer is never set; copying from it is undefined.\<close>

definition stage_gains_result :: "bool \<Rightarrow> (int list \<times> string) option \<Rightarrow>
    (int \<times> (int list \<times> string) option) usb_m" where
  "stage_gains_result description g = (case g of
     None \<Rightarrow> do { (if description then fault else ret ()); ret (0, None) }
   | Some (g, d) \<Rightarrow> ret (int (length g), Some (g, d)))"

definition rtlsdr_get_tuner_stage_gains :: "u8 \<Rightarrow> bool \<Rightarrow> (int \<times> (int list \<times> string) option) usb_m" where
  "rtlsdr_get_tuner_stage_gains stage description = do {
     t \<leftarrow> gets dev_tuner_type;
     case t of
       RTLSDR_TUNER_E4000 \<Rightarrow> stage_gains_result description (e4k_get_tuner_stage_gains stage)
     | RTLSDR_TUNER_R820T \<Rightarrow> r82xx_get_tuner_stage_gains stage \<bind> stage_gains_result description
     | RTLSDR_TUNER_R828D \<Rightarrow> r82xx_get_tuner_stage_gains stage \<bind> stage_gains_result description
     | _ \<Rightarrow> ret (-1, None) }"

definition rtlsdr_get_tuner_bandwidths :: "int list usb_m" where
  "rtlsdr_get_tuner_bandwidths = gets (\<lambda>s.
     if dev_tuner_type s \<in> {RTLSDR_TUNER_R820T, RTLSDR_TUNER_R828D}
     then (case r82xx_get_tuner_bandwidths of (b, len) \<Rightarrow> take (len div 4) b) else [0])"

section \<open>Modes\<close>

definition rtlsdr_set_testmode :: "bool \<Rightarrow> int usb_m" where
  "rtlsdr_set_testmode on = rtlsdr_demod_write_reg 0 0x19 (if on then 0x03 else 0x05) 1"

definition rtlsdr_set_agc_mode :: "bool \<Rightarrow> int usb_m" where
  "rtlsdr_set_agc_mode on = rtlsdr_demod_write_reg 0 0x19 (if on then 0x25 else 0x05) 1"

definition rtlsdr_set_direct_sampling :: "int \<Rightarrow> int usb_m" where
  "rtlsdr_set_direct_sampling on = do {
     t \<leftarrow> gets dev_tuner_type;
     r \<leftarrow> (if on \<noteq> 0 then do {
         op \<leftarrow> tuner_op tuner_exit;
         r \<leftarrow> (case op of Some m \<Rightarrow> with_repeater m | None \<Rightarrow> ret 0);
         r \<leftarrow> or_steps r
           [rtlsdr_demod_write_reg 1 0xb1 0x1a 1,
            rtlsdr_demod_write_reg 1 0x15 0x00 1,
            rtlsdr_demod_write_reg 0 0x08 0x4d 1,
            rtlsdr_demod_write_reg 0 0x06 (if on > 1 then 0x90 else 0x80) 1];
         modify (\<lambda>s. s\<lparr>dev_direct_sampling := on\<rparr>);
         ret r }
       else do {
         op \<leftarrow> tuner_op tuner_init;
         r \<leftarrow> (case op of Some m \<Rightarrow> with_repeater m | None \<Rightarrow> ret 0);
         r \<leftarrow> or_steps r (
           (if t = RTLSDR_TUNER_R820T \<or> t = RTLSDR_TUNER_R828D
            then [rtlsdr_set_if_freq R82XX_IF_FREQ, rtlsdr_demod_write_reg 1 0x15 0x01 1]
            else [rtlsdr_set_if_freq 0, rtlsdr_demod_write_reg 0 0x08 0xcd 1,
                  rtlsdr_demod_write_reg 1 0xb1 0x1b 1]) @
           [rtlsdr_demod_write_reg 0 0x06 0x80 1]);
         modify (\<lambda>s. s\<lparr>dev_direct_sampling := 0\<rparr>);
         ret r });
     freq \<leftarrow> gets dev_freq;
     or_steps r [rtlsdr_set_center_freq freq] }"

definition rtlsdr_get_direct_sampling :: "int usb_m" where
  "rtlsdr_get_direct_sampling = gets dev_direct_sampling"

definition rtlsdr_reset_buffer :: "int usb_m" where
  "rtlsdr_reset_buffer = do {
     seqs [rtlsdr_write_reg USBB USB_EPA_CTL 0x1002 2, rtlsdr_write_reg USBB USB_EPA_CTL 0x0000 2];
     ret 0 }"

definition rtlsdr_deinit_baseband :: "int usb_m" where
  "rtlsdr_deinit_baseband = do {
     op \<leftarrow> tuner_op tuner_exit;
     r \<leftarrow> (case op of Some m \<Rightarrow> with_repeater m | None \<Rightarrow> ret 0);
     _ \<leftarrow> rtlsdr_write_reg SYSB DEMOD_CTL 0x20 1;
     ret r }"

section \<open>EEPROM\<close>

text \<open>\<open>c\<close> is \<open>cmd[1]\<close>: a read that fails leaves the last byte there.\<close>

fun eeprom_write_bytes :: "u8 list \<Rightarrow> u8 \<Rightarrow> u8 \<Rightarrow> int usb_m" where
  "eeprom_write_bytes [] a c = ret 0"
| "eeprom_write_bytes (b # data) a c = do {
     _ \<leftarrow> rtlsdr_write_array IICB EEPROM_ADDR [a];
     (_, d) \<leftarrow> rtlsdr_read_array IICB EEPROM_ADDR [c];
     if d ! 0 = b then eeprom_write_bytes data (a + 1) (d ! 0)
     else do {
       r \<leftarrow> rtlsdr_write_array IICB EEPROM_ADDR [a, b];
       if r \<noteq> 2 then ret (-3) else eeprom_write_bytes data (a + 1) b } }"

definition rtlsdr_write_eeprom :: "u8 list \<Rightarrow> u8 \<Rightarrow> int usb_m" where
  "rtlsdr_write_eeprom data offset =
     (if length data + unat offset > 256 then ret (-2)
      else do { j \<leftarrow> junk 2; eeprom_write_bytes data offset (j ! 1) })"

text \<open>The bytes read so far, the last result, and the caller's buffer for the rest.\<close>

fun eeprom_read_bytes :: "u8 list \<Rightarrow> int \<Rightarrow> u8 list \<Rightarrow> (int \<times> u8 list) usb_m" where
  "eeprom_read_bytes done r [] = ret (r, done)"
| "eeprom_read_bytes done r (b # buf) = do {
     (r, d) \<leftarrow> rtlsdr_read_array IICB EEPROM_ADDR [b];
     if r < 0 then ret (-3, done @ d @ buf) else eeprom_read_bytes (done @ d) r buf }"

definition rtlsdr_read_eeprom :: "u8 list \<Rightarrow> u8 \<Rightarrow> (int \<times> u8 list) usb_m" where
  "rtlsdr_read_eeprom buf offset =
     (if length buf + unat offset > 256 then ret (-2, buf)
      else do {
        r \<leftarrow> rtlsdr_write_array IICB EEPROM_ADDR [offset];
        if r < 0 then ret (-3, buf) else eeprom_read_bytes [] r buf })"

end
