(* ===== verification/RtlsdrEeprom.thy ===== *)
theory RtlsdrEeprom
  imports Rtlsdr
begin

text \<open>
  The configuration EEPROM: what \<open>rtlsdr_write_eeprom\<close> and \<open>rtlsdr_read_eeprom\<close> do to an
  I2C EEPROM with an address pointer (the 24C02 of the dongles), and what the writer does when
  the EEPROM cannot be read.
\<close>

section \<open>The memory behind the bus\<close>

fun put_bytes :: "(u8 \<Rightarrow> u8) \<Rightarrow> u8 \<Rightarrow> u8 list \<Rightarrow> u8 \<Rightarrow> u8" where
  "put_bytes m a [] = m"
| "put_bytes m a (b # bs) = put_bytes (m(a := b)) (a + 1) bs"

text \<open>
  Pointer and memory after a history of transfers: a write to the EEPROM sets the pointer by its
  first byte and stores the others from there, a read advances the pointer.
\<close>

fun ee_state :: "(u8 \<Rightarrow> u8) \<Rightarrow> usb_xfer list \<Rightarrow> u8 \<times> (u8 \<Rightarrow> u8)" where
  "ee_state m0 [] = (0, m0)"
| "ee_state m0 (CtrlOut v i d rc # xs) = (case ee_state m0 xs of (p, m) \<Rightarrow>
     if v = eeprom_addr \<and> i = iic_out \<and> rc = int (length d) \<and> d \<noteq> []
     then (hd d + of_nat (length (tl d)), put_bytes m (hd d) (tl d)) else (p, m))"
| "ee_state m0 (CtrlIn v i n rc d # xs) = (case ee_state m0 xs of (p, m) \<Rightarrow>
     (if v = eeprom_addr \<and> i = iic_in \<and> rc = int n then p + of_nat n else p, m))"

definition ee_ptr :: "(u8 \<Rightarrow> u8) \<Rightarrow> usb_xfer list \<Rightarrow> u8" where
  "ee_ptr m0 h = fst (ee_state m0 h)"

definition ee_mem :: "(u8 \<Rightarrow> u8) \<Rightarrow> usb_xfer list \<Rightarrow> u8 \<Rightarrow> u8" where
  "ee_mem m0 h = snd (ee_state m0 h)"

text \<open>An EEPROM that acknowledges everything and reads from its pointer.\<close>

definition ee_acks :: "usb_env \<Rightarrow> bool" where
  "ee_acks e \<longleftrightarrow> (\<forall>h d. out_rc e h eeprom_addr iic_out d = int (length d))"

definition ee_honest :: "(u8 \<Rightarrow> u8) \<Rightarrow> usb_env \<Rightarrow> bool" where
  "ee_honest m0 e \<longleftrightarrow> ee_acks e \<and>
     (\<forall>h n. in_rc e h eeprom_addr iic_in n = int n) \<and>
     (\<forall>h n k. in_byte e h eeprom_addr iic_in n k = ee_mem m0 h (ee_ptr m0 h + of_nat k))"

text \<open>The bytes stored, newest first.\<close>

fun stores :: "usb_xfer list \<Rightarrow> (u8 \<times> u8) list" where
  "stores [] = []"
| "stores (CtrlOut v i d rc # xs) =
     (if v = eeprom_addr \<and> i = iic_out \<and> length d = 2 then [(d ! 0, d ! 1)] else []) @ stores xs"
| "stores (CtrlIn v i n rc d # xs) = stores xs"

lemma ee_out: "rtlsdr_write_array IICB EEPROM_ADDR d = ctrl_out eeprom_addr iic_out d"
  by (simp add: rtlsdr_write_array_def reg_defs eeprom_addr_def iic_out_def push_bit_eq_mult)

lemma ee_in: "rtlsdr_read_array IICB EEPROM_ADDR d = ctrl_in eeprom_addr iic_in d"
  by (simp add: rtlsdr_read_array_def reg_defs eeprom_addr_def iic_in_def push_bit_eq_mult)

lemma ee_mem_simps [simp]:
  "ee_mem m0 (CtrlIn v i n rc d # xs) = ee_mem m0 xs"
  "ee_mem m0 (CtrlOut eeprom_addr iic_out [a] 1 # xs) = ee_mem m0 xs"
  "ee_mem m0 (CtrlOut eeprom_addr iic_out [a, b] 2 # xs) = (ee_mem m0 xs)(a := b)"
  by (auto simp: ee_mem_def split: prod.splits)

lemma ee_ptr_simps [simp]:
  "ee_ptr m0 (CtrlIn eeprom_addr iic_in 1 1 d # xs) = ee_ptr m0 xs + 1"
  "ee_ptr m0 (CtrlIn eeprom_addr iic_in (Suc 0) 1 d # xs) = ee_ptr m0 xs + 1"
  "ee_ptr m0 (CtrlOut eeprom_addr iic_out [a] 1 # xs) = a"
  by (auto simp: ee_ptr_def split: prod.splits)

lemma ee_one_out:
  "ee_acks (dev_usb s) \<Longrightarrow> run_state (ctrl_out eeprom_addr iic_out d) s =
     (int (length d), s\<lparr>dev_xfers := CtrlOut eeprom_addr iic_out d (int (length d)) # dev_xfers s\<rparr>)"
  by (simp add: run_ctrl_out ee_acks_def)

lemma ee_one_in:
  assumes "ee_honest m0 (dev_usb s)"
  defines "b \<equiv> ee_mem m0 (dev_xfers s) (ee_ptr m0 (dev_xfers s))"
  shows "run_state (ctrl_in eeprom_addr iic_in [c]) s =
     ((1, [b]), s\<lparr>dev_xfers := CtrlIn eeprom_addr iic_in 1 1 [b] # dev_xfers s\<rparr>)"
  using assms by (simp add: ctrl_in_def Let_def fill_def ee_honest_def)

section \<open>Writing\<close>

text \<open>The bytes that differ, with their addresses.\<close>

fun diffs :: "(u8 \<Rightarrow> u8) \<Rightarrow> u8 \<Rightarrow> u8 list \<Rightarrow> (u8 \<times> u8) list" where
  "diffs m a [] = []"
| "diffs m a (b # bs) = (if m a = b then [] else [(a, b)]) @ diffs m (a + 1) bs"

lemma diffs_cong:
  "(\<And>k. k < length bs \<Longrightarrow> m (a + of_nat k) = m' (a + of_nat k)) \<Longrightarrow> diffs m a bs = diffs m' a bs"
proof (induction bs arbitrary: a)
  case (Cons b bs)
  have "diffs m (a + 1) bs = diffs m' (a + 1) bs"
  proof (rule Cons.IH)
    fix k assume "k < length bs"
    then show "m (a + 1 + of_nat k) = m' (a + 1 + of_nat k)"
      using Cons.prems [of "Suc k"] by (simp add: ac_simps)
  qed
  then show ?case using Cons.prems [of 0] by simp
qed simp

lemma diffs_upd:
  assumes "length bs < 256"
  shows "diffs (m(a := b)) (a + 1) bs = diffs m (a + 1) bs"
proof (rule diffs_cong)
  fix k assume k: "k < length bs"
  have "1 + (of_nat k :: u8) \<noteq> 0"
  proof
    assume "1 + (of_nat k :: u8) = 0"
    then have "(of_nat (Suc k) :: u8) = 0" by simp
    then have "256 dvd Suc k" by (simp only: word_of_nat_eq_0_iff) simp
    then show False using k assms by (auto dest: dvd_imp_le)
  qed
  then have "a + 1 + of_nat k \<noteq> a" by (simp add: add.assoc)
  then show "(m(a := b)) (a + 1 + of_nat k) = m (a + 1 + of_nat k)" by simp
qed

lemma eeprom_write_run:
  assumes "ee_honest m0 (dev_usb s)" and "length data \<le> 256"
    and "run_state (eeprom_write_bytes data a c) s = (r, t)"
  shows "r = 0 \<and> dev_usb t = dev_usb s \<and>
    ee_mem m0 (dev_xfers t) = put_bytes (ee_mem m0 (dev_xfers s)) a data \<and>
    stores (dev_xfers t) = rev (diffs (ee_mem m0 (dev_xfers s)) a data) @ stores (dev_xfers s)"
  using assms
proof (induction data arbitrary: a c s)
  case (Cons b data)
  let ?m = "ee_mem m0 (dev_xfers s)"
  define s1 where "s1 = s\<lparr>dev_xfers := CtrlIn eeprom_addr iic_in 1 1 [?m a] #
      CtrlOut eeprom_addr iic_out [a] 1 # dev_xfers s\<rparr>"
  have acks: "ee_acks (dev_usb s)" using Cons.prems(1) by (simp add: ee_honest_def)
  have run1: "run_state (eeprom_write_bytes (b # data) a c) s =
      run_state (if ?m a = b then eeprom_write_bytes data (a + 1) (?m a)
       else do {
         r \<leftarrow> ctrl_out eeprom_addr iic_out [a, b];
         if r \<noteq> 2 then ret (-3) else eeprom_write_bytes data (a + 1) b }) s1"
    using Cons.prems(1) acks by (simp add: ee_out ee_in run_state_bind ee_one_out ee_one_in s1_def)
  have len: "length data \<le> 256" "length data < 256" using Cons.prems(2) by auto
  have s1: "ee_honest m0 (dev_usb s1)" "ee_acks (dev_usb s1)" "ee_mem m0 (dev_xfers s1) = ?m"
      "stores (dev_xfers s1) = stores (dev_xfers s)" "dev_usb s1 = dev_usb s"
    using Cons.prems(1) acks by (simp_all add: s1_def)
  show ?case
  proof (cases "?m a = b")
    case True
    then have "?m(a := b) = ?m" by auto
    moreover have "run_state (eeprom_write_bytes data (a + 1) (?m a)) s1 = (r, t)"
      using Cons.prems(3) True unfolding run1 by (simp del: eeprom_write_bytes.simps)
    note Cons.IH [OF s1(1) len(1) this]
    ultimately show ?thesis using True s1 by (simp del: eeprom_write_bytes.simps)
  next
    case False
    define s2 where "s2 = s1\<lparr>dev_xfers := CtrlOut eeprom_addr iic_out [a, b] 2 # dev_xfers s1\<rparr>"
    have s2: "ee_honest m0 (dev_usb s2)" "ee_mem m0 (dev_xfers s2) = ?m(a := b)"
        "stores (dev_xfers s2) = (a, b) # stores (dev_xfers s)" "dev_usb s2 = dev_usb s"
      using s1 by (simp_all add: s2_def)
    have "run_state (eeprom_write_bytes data (a + 1) b) s2 = (r, t)"
      using Cons.prems(3) False unfolding run1
      by (simp del: eeprom_write_bytes.simps add: run_state_bind ee_one_out [OF s1(2)] s2_def)
    from Cons.IH [OF s2(1) len(1) this] show ?thesis
      using False s2 diffs_upd [OF len(2)] by (simp del: eeprom_write_bytes.simps fun_upd_apply)
  qed
qed simp

lemma put_bytes_nth:
  "length bs + unat a \<le> 256 \<Longrightarrow> put_bytes m a bs x =
     (if unat a \<le> unat x \<and> unat x < unat a + length bs then bs ! (unat x - unat a) else m x)"
proof (induction bs arbitrary: a m)
  case (Cons b bs)
  show ?case
  proof (cases "bs = []")
    case True
    then show ?thesis by (auto simp: word_unat_eq_iff)
  next
    case False
    then have "unat (a + 1) = unat a + 1"
      using Cons.prems by (cases bs) (auto simp: unat_word_ariths)
    moreover have "put_bytes (m(a := b)) (a + 1) bs x =
       (if unat (a + 1) \<le> unat x \<and> unat x < unat (a + 1) + length bs then bs ! (unat x - unat (a + 1))
        else (m(a := b)) x)"
      using Cons.prems calculation by (intro Cons.IH) simp
    ultimately show ?thesis by (auto simp: nth_Cons' word_unat_eq_iff)
  qed
qed auto

section \<open>Reading\<close>

definition mem_range :: "(u8 \<Rightarrow> u8) \<Rightarrow> u8 \<Rightarrow> nat \<Rightarrow> u8 list" where
  "mem_range m p n = map (\<lambda>k. m (p + of_nat k)) [0..<n]"

lemma mem_range_Suc: "mem_range m p (Suc n) = m p # mem_range m (p + 1) n"
  by (simp add: mem_range_def upt_conv_Cons map_Suc_upt [symmetric] ac_simps del: upt_Suc)

lemma eeprom_read_run:
  assumes "ee_honest m0 (dev_usb s)"
  shows "fst (run_state (eeprom_read_bytes done r buf) s) =
    (if buf = [] then r else 1,
     done @ mem_range (ee_mem m0 (dev_xfers s)) (ee_ptr m0 (dev_xfers s)) (length buf))"
  using assms
proof (induction buf arbitrary: "done" r s)
  case (Cons b buf)
  show ?case
    using Cons.prems Cons.IH [of "s\<lparr>dev_xfers := CtrlIn eeprom_addr iic_in 1 1
        [ee_mem m0 (dev_xfers s) (ee_ptr m0 (dev_xfers s))] # dev_xfers s\<rparr>"]
    by (simp add: ee_in run_state_bind ee_one_in mem_range_Suc)
qed (simp add: mem_range_def)

section \<open>Properties\<close>

lemma ee_honest_eq: "ee_honest m0 e \<Longrightarrow> dev_usb t = e \<Longrightarrow> ee_honest m0 (dev_usb t)"
  by simp

lemma rtlsdr_write_eeprom_run:
  "length data + unat offset \<le> 256 \<Longrightarrow> run_state (rtlsdr_write_eeprom data offset) s =
     run_state (eeprom_write_bytes data offset (stack_junk (dev_usb s) (dev_xfers s) 1)) s"
  by (simp add: rtlsdr_write_eeprom_def junk_def run_state_bind upt_rec)

text \<open>
  C37. The EEPROM round trip: on an I2C EEPROM with an address pointer, writing data that
  fits returns 0, leaves exactly those bytes in the memory and all others as they were, and a read
  of the same range returns them (with the result 1 of its last transfer, not the documented 0).
\<close>

theorem rtlsdr_eeprom_roundtrip:
  assumes ee: "ee_honest m0 (dev_usb s)"
    and fits: "length data + unat offset \<le> 256"
    and run: "run_state (rtlsdr_write_eeprom data offset) s = (r, t)"
    and len: "length buf = length data"
  shows "r = 0 \<and>
    ee_mem m0 (dev_xfers t) x =
      (if unat offset \<le> unat x \<and> unat x < unat offset + length data
       then data ! (unat x - unat offset) else ee_mem m0 (dev_xfers s) x) \<and>
    fst (run_state (rtlsdr_read_eeprom buf offset) t) = (1, data)"
proof -
  note w = eeprom_write_run [OF ee _ run [unfolded rtlsdr_write_eeprom_run [OF fits]]]
  have t: "r = 0" "ee_honest m0 (dev_usb t)"
    "ee_mem m0 (dev_xfers t) = put_bytes (ee_mem m0 (dev_xfers s)) offset data"
    using w fits ee by auto
  define u where "u = t\<lparr>dev_xfers := CtrlOut eeprom_addr iic_out [offset] 1 # dev_xfers t\<rparr>"
  have u: "ee_honest m0 (dev_usb u)" "ee_ptr m0 (dev_xfers u) = offset"
      "ee_mem m0 (dev_xfers u) = ee_mem m0 (dev_xfers t)"
    using t(2) by (simp_all add: u_def)
  have "data ! k = put_bytes (ee_mem m0 (dev_xfers s)) offset data (offset + of_nat k)"
    if "k < length data" for k
  proof -
    have "unat (offset + of_nat k) = unat offset + k"
      using that fits by (simp add: unat_word_ariths unat_of_nat)
    then show ?thesis using that fits by (simp add: put_bytes_nth)
  qed
  then have "mem_range (ee_mem m0 (dev_xfers u)) offset (length data) = data"
    by (intro nth_equalityI) (simp_all add: mem_range_def u(3) t(3))
  moreover have "run_state (rtlsdr_read_eeprom buf offset) t =
      run_state (eeprom_read_bytes [] 1 buf) u"
    using fits len t(2)
    by (simp add: rtlsdr_read_eeprom_def ee_out run_state_bind ee_one_out ee_honest_def u_def)
  ultimately have "fst (run_state (rtlsdr_read_eeprom buf offset) t) = (1, data)"
    using eeprom_read_run [OF u(1), of "[]" 1 buf] len u(2) by simp
  then show ?thesis using t fits by (simp add: put_bytes_nth)
qed

text \<open>The EEPROM of the examples: every byte holds its own address.\<close>

definition ee_env :: usb_env where
  "ee_env = ack_env\<lparr>in_byte := (\<lambda>h v i n k. ee_mem id h (ee_ptr id h + of_nat k))\<rparr>"

definition ee_dev :: rtlsdr_dev where
  "ee_dev = example_dev\<lparr>dev_usb := ee_env\<rparr>"

lemma ee_dev_honest: "ee_honest id (dev_usb ee_dev)"
  by (simp add: ee_dev_def ee_env_def ack_env_def ee_honest_def ee_acks_def)

theorem rtlsdr_eeprom_roundtrip_witness:
  "fst (run_state (rtlsdr_read_eeprom [0, 0, 0] 253)
     (snd (run_state (rtlsdr_write_eeprom [7, 254, 9] 253) ee_dev))) = (1, [7, 254, 9])"
proof -
  obtain r t where run: "run_state (rtlsdr_write_eeprom [7, 254, 9] 253) ee_dev = (r, t)" by fastforce
  have "length [7, 254, 9 :: u8] + unat (253 :: u8) \<le> 256" by simp
  from rtlsdr_eeprom_roundtrip [OF ee_dev_honest this run, of "[0, 0, 0]" 0]
  show ?thesis unfolding run snd_conv by simp
qed

text \<open>
  The writer spares the EEPROM: on an I2C EEPROM with an address pointer the bytes
  that \<open>rtlsdr_write_eeprom\<close> stores are exactly those that differ from the memory, each once, in
  the order of their addresses.
\<close>

lemma rtlsdr_eeprom_differing:
  assumes "ee_honest m0 (dev_usb s)" and "length data + unat offset \<le> 256"
    and "run_state (rtlsdr_write_eeprom data offset) s = (r, t)"
  shows "stores (dev_xfers t) =
    rev (List.filter (\<lambda>(a, b). ee_mem m0 (dev_xfers s) a \<noteq> b)
      (zip (map (\<lambda>k. offset + of_nat k) [0..<length data]) data)) @ stores (dev_xfers s)"
proof -
  have "diffs m a bs = List.filter (\<lambda>(a, b). m a \<noteq> b) (zip (map (\<lambda>k. a + of_nat k) [0..<length bs]) bs)"
    for m :: "u8 \<Rightarrow> u8" and a bs
    by (induction bs arbitrary: a) (auto simp: upt_conv_Cons map_Suc_upt [symmetric] ac_simps comp_def simp del: upt_Suc)
  then show ?thesis
    using eeprom_write_run [OF assms(1) _ assms(3) [unfolded rtlsdr_write_eeprom_run [OF assms(2)]]]
      assms(2) by simp
qed

lemma rtlsdr_eeprom_differing_example:
  "stores (dev_xfers (snd (run_state (rtlsdr_write_eeprom [7, 254, 9] 253) ee_dev))) =
     [(255, 9), (253, 7)]"
proof -
  obtain r t where run: "run_state (rtlsdr_write_eeprom [7, 254, 9] 253) ee_dev = (r, t)" by fastforce
  have "length [7, 254, 9 :: u8] + unat (253 :: u8) \<le> 256" by simp
  from rtlsdr_eeprom_differing [OF ee_dev_honest this run] show ?thesis unfolding run snd_conv
    by (simp add: ee_dev_def ee_mem_def upt_rec)
qed

section \<open>An EEPROM that cannot be read\<close>

definition ee_unread :: "usb_env \<Rightarrow> bool" where
  "ee_unread e \<longleftrightarrow> ee_acks e \<and> (\<forall>h n. in_rc e h eeprom_addr iic_in n < 0)"

text \<open>The byte of the data that differ from the one before them (from \<open>c\<close> for the first).\<close>

fun changes :: "u8 \<Rightarrow> u8 \<Rightarrow> u8 list \<Rightarrow> (u8 \<times> u8) list" where
  "changes c a [] = []"
| "changes c a (b # bs) = (if c = b then [] else [(a, b)]) @ changes b (a + 1) bs"

lemma ee_unread_in:
  assumes "ee_unread (dev_usb s)"
  obtains rc where "run_state (ctrl_in eeprom_addr iic_in [c]) s =
     ((rc, [c]), s\<lparr>dev_xfers := CtrlIn eeprom_addr iic_in 1 rc [c] # dev_xfers s\<rparr>)"
proof -
  have "in_rc (dev_usb s) (dev_xfers s) eeprom_addr iic_in (Suc 0) < 0"
    using assms by (simp add: ee_unread_def)
  then show ?thesis using that by (simp add: ctrl_in_def Let_def fill_def)
qed

lemma eeprom_unread_run:
  assumes "ee_unread (dev_usb s)" and "run_state (eeprom_write_bytes data a c) s = (r, t)"
  shows "r = 0 \<and> stores (dev_xfers t) = rev (changes c a data) @ stores (dev_xfers s)"
  using assms
proof (induction data arbitrary: a c s)
  case (Cons b data)
  let ?s0 = "s\<lparr>dev_xfers := CtrlOut eeprom_addr iic_out [a] 1 # dev_xfers s\<rparr>"
  have acks: "ee_acks (dev_usb s)" and u0: "ee_unread (dev_usb ?s0)"
    using Cons.prems(1) by (simp_all add: ee_unread_def)
  obtain rc where rc: "run_state (ctrl_in eeprom_addr iic_in [c]) ?s0 =
     ((rc, [c]), ?s0\<lparr>dev_xfers := CtrlIn eeprom_addr iic_in 1 rc [c] # dev_xfers ?s0\<rparr>)"
    using ee_unread_in [OF u0] by blast
  define s1 where "s1 = ?s0\<lparr>dev_xfers := CtrlIn eeprom_addr iic_in 1 rc [c] # dev_xfers ?s0\<rparr>"
  have run1: "run_state (eeprom_write_bytes (b # data) a c) s =
      run_state (if c = b then eeprom_write_bytes data (a + 1) c
       else do {
         r \<leftarrow> ctrl_out eeprom_addr iic_out [a, b];
         if r \<noteq> 2 then ret (-3) else eeprom_write_bytes data (a + 1) b }) s1"
    using acks rc by (simp add: ee_out ee_in run_state_bind ee_one_out s1_def)
  have s1: "ee_unread (dev_usb s1)" "ee_acks (dev_usb s1)" "stores (dev_xfers s1) = stores (dev_xfers s)"
    using Cons.prems(1) acks by (simp_all add: s1_def)
  show ?case
  proof (cases "c = b")
    case True
    then show ?thesis using Cons.IH [OF s1(1)] Cons.prems(2) s1(3) unfolding run1
      by (simp del: eeprom_write_bytes.simps)
  next
    case False
    define s2 where "s2 = s1\<lparr>dev_xfers := CtrlOut eeprom_addr iic_out [a, b] 2 # dev_xfers s1\<rparr>"
    have "ee_unread (dev_usb s2)" "stores (dev_xfers s2) = (a, b) # stores (dev_xfers s)"
      using s1 by (simp_all add: s2_def)
    then show ?thesis using Cons.IH [of s2 "a + 1" b] Cons.prems(2) False unfolding run1
      by (simp del: eeprom_write_bytes.simps add: run_state_bind ee_one_out [OF s1(2)] s2_def)
  qed
qed simp

text \<open>
  When the EEPROM acknowledges writes but no read of it succeeds, \<open>rtlsdr_write_eeprom\<close>
  still returns 0 but skips bytes: the failed read leaves in the buffer the byte written last,
  so a byte that equals its predecessor counts as unchanged and is not stored.
\<close>

lemma rtlsdr_eeprom_stale_byte:
  assumes "ee_unread (dev_usb s)" and "length data + unat offset \<le> 256"
    and "run_state (rtlsdr_write_eeprom data offset) s = (r, t)"
  shows "r = 0 \<and> stores (dev_xfers t) =
    rev (changes (stack_junk (dev_usb s) (dev_xfers s) 1) offset data) @ stores (dev_xfers s)"
  using eeprom_unread_run [OF assms(1) assms(3) [unfolded rtlsdr_write_eeprom_run [OF assms(2)]]] .

lemma rtlsdr_eeprom_stale_byte_example:
  "stores (dev_xfers (snd (run_state (rtlsdr_write_eeprom [5, 5, 0, 0] 0)
     (example_dev\<lparr>dev_usb := ack_env\<lparr>in_rc := (\<lambda>h v i n. -9)\<rparr>\<rparr>)))) = [(2, 0), (0, 5)]"
proof -
  let ?s = "example_dev\<lparr>dev_usb := ack_env\<lparr>in_rc := (\<lambda>h v i n. -9)\<rparr>\<rparr>"
  obtain r t where run: "run_state (rtlsdr_write_eeprom [5, 5, 0, 0] 0) ?s = (r, t)" by fastforce
  have "ee_unread (dev_usb ?s)" by (simp add: ee_unread_def ee_acks_def ack_env_def)
  moreover have "length [5, 5, 0, 0 :: u8] + unat (0 :: u8) \<le> 256" by simp
  ultimately show ?thesis
    using rtlsdr_eeprom_stale_byte [OF _ _ run] unfolding run snd_conv
    by (simp add: ack_env_def)
qed

end
