(* ===== verification/RtlsdrOpen.thy ===== *)
theory RtlsdrOpen
  imports Rtlsdr
begin

text \<open>
  Finding and opening a dongle: the table of known devices, the search by index, the
  probing of the tuners and the set-up of \<open>rtlsdr_open\<close> and of its Android variant
  \<open>rtlsdr_open2\<close>. What libusb answers on the host side is a parameter.
\<close>

section \<open>Known devices\<close>

definition known_devices :: "(u16 \<times> u16 \<times> string) list" where
  "known_devices =
     [(0x0bda, 0x2832, ''Generic RTL2832U''),
      (0x0bda, 0x2838, ''Generic RTL2832U OEM''),
      (0x0413, 0x6680, ''DigitalNow Quad DVB-T PCI-E card''),
      (0x0413, 0x6f0f, ''Leadtek WinFast DTV Dongle mini D''),
      (0x0458, 0x707f, ''Genius TVGo DVB-T03 USB dongle (Ver. B)''),
      (0x0ccd, 0x00a9, ''Terratec Cinergy T Stick Black (rev 1)''),
      (0x0ccd, 0x00b3, ''Terratec NOXON DAB/DAB+ USB dongle (rev 1)''),
      (0x0ccd, 0x00b4, ''Terratec Deutschlandradio DAB Stick''),
      (0x0ccd, 0x00b5, ''Terratec NOXON DAB Stick - Radio Energy''),
      (0x0ccd, 0x00b7, ''Terratec Media Broadcast DAB Stick''),
      (0x0ccd, 0x00b8, ''Terratec BR DAB Stick''),
      (0x0ccd, 0x00b9, ''Terratec WDR DAB Stick''),
      (0x0ccd, 0x00c0, ''Terratec MuellerVerlag DAB Stick''),
      (0x0ccd, 0x00c6, ''Terratec Fraunhofer DAB Stick''),
      (0x0ccd, 0x00d3, ''Terratec Cinergy T Stick RC (Rev.3)''),
      (0x0ccd, 0x00d7, ''Terratec T Stick PLUS''),
      (0x0ccd, 0x00e0, ''Terratec NOXON DAB/DAB+ USB dongle (rev 2)''),
      (0x1554, 0x5020, ''PixelView PV-DT235U(RN)''),
      (0x15f4, 0x0131, ''Astrometa DVB-T/DVB-T2''),
      (0x185b, 0x0620, ''Compro Videomate U620F''),
      (0x185b, 0x0650, ''Compro Videomate U650F''),
      (0x185b, 0x0680, ''Compro Videomate U680F''),
      (0x1b80, 0xd393, ''GIGABYTE GT-U7300''),
      (0x1b80, 0xd394, ''DIKOM USB-DVBT HD''),
      (0x1b80, 0xd395, ''Peak 102569AGPK''),
      (0x1b80, 0xd397, ''KWorld KW-UB450-T USB DVB-T Pico TV''),
      (0x1b80, 0xd398, ''Zaapa ZT-MINDVBZP''),
      (0x1b80, 0xd39d, ''SVEON STV20 DVB-T USB & FM''),
      (0x1b80, 0xd3a4, ''Twintech UT-40''),
      (0x1b80, 0xd3a8, ''ASUS U3100MINI_PLUS_V2''),
      (0x1b80, 0xd3af, ''SVEON STV27 DVB-T USB & FM''),
      (0x1b80, 0xd3b0, ''SVEON STV21 DVB-T USB & FM''),
      (0x1d19, 0x1101, ''Dexatek DK DVB-T Dongle (Logilink VG0002A)''),
      (0x1d19, 0x1102, ''Dexatek DK DVB-T Dongle (MSI DigiVox mini II V3.0)''),
      (0x1d19, 0x1103, ''Dexatek Technology Ltd. DK 5217 DVB-T Dongle''),
      (0x1d19, 0x1104, ''MSI DigiVox Micro HD''),
      (0x1f4d, 0xa803, ''Sweex DVB-T USB''),
      (0x1f4d, 0xb803, ''GTek T803''),
      (0x1f4d, 0xc803, ''Lifeview LV5TDeluxe''),
      (0x1f4d, 0xd286, ''MyGica TD312''),
      (0x1f4d, 0xd803, ''PROlectrix DV107669'')]"

text \<open>A USB device as the search sees it: vendor and product.\<close>

type_synonym usb_id = "u16 \<times> u16"

definition find_known_device :: "usb_id \<Rightarrow> string option" where
  "find_known_device = (\<lambda>(vid, pid).
     map_option (\<lambda>(v, p, name). name)
       (find (\<lambda>(v, p, name). v = vid \<and> p = pid) known_devices))"

definition known :: "usb_id \<Rightarrow> bool" where
  "known d \<longleftrightarrow> find_known_device d \<noteq> None"

section \<open>Search by index\<close>

text \<open>The devices of the host, or the error code of \<open>libusb_init\<close>.\<close>

definition rtlsdr_get_device_count :: "int + usb_id list \<Rightarrow> nat" where
  "rtlsdr_get_device_count usb = (case usb of Inl r \<Rightarrow> 0
     | Inr devs \<Rightarrow> length (List.filter known devs))"

text \<open>\<open>device\<close> is the result of the last lookup; \<open>index == device_count - 1\<close> in 32 bits.\<close>

fun device_name_loop :: "usb_id list \<Rightarrow> nat \<Rightarrow> nat \<Rightarrow> string option \<Rightarrow> string option" where
  "device_name_loop [] index count device = device"
| "device_name_loop (d # devs) index count device = (case find_known_device d of
     None \<Rightarrow> device_name_loop devs index count None
   | Some name \<Rightarrow>
       (if index = count then Some name else device_name_loop devs index (count + 1) (Some name)))"

definition rtlsdr_get_device_name :: "int + usb_id list \<Rightarrow> nat \<Rightarrow> string" where
  "rtlsdr_get_device_name usb index = (case usb of Inl r \<Rightarrow> ''''
     | Inr devs \<Rightarrow> (case device_name_loop devs index 0 None of None \<Rightarrow> '''' | Some name \<Rightarrow> name))"

text \<open>
  What a device answers to the search: the result of \<open>libusb_open\<close>, that of
  \<open>libusb_get_device_descriptor\<close>, and the three strings (all zero when the descriptor of a
  string cannot be read).
\<close>

type_synonym usb_strings = "string \<times> string \<times> string"
type_synonym usb_query = "nat \<Rightarrow> int \<times> int \<times> usb_strings"

definition rtlsdr_get_usb_strings :: "int \<Rightarrow> usb_strings \<Rightarrow> int \<times> usb_strings option" where
  "rtlsdr_get_usb_strings descr strings = (if descr < 0 then (-1, None) else (0, Some strings))"

text \<open>
  The position in the list of the device that is asked for its strings. When there is none the
  result is still that of \<open>libusb_init\<close>, 0, and the caller's buffers are left alone.
\<close>

fun usb_strings_loop :: "usb_id list \<Rightarrow> nat \<Rightarrow> nat \<Rightarrow> nat \<Rightarrow> nat option" where
  "usb_strings_loop [] index count i = None"
| "usb_strings_loop (d # devs) index count i =
     (if known d then (if index = count then Some i else usb_strings_loop devs index (count + 1) (i + 1))
      else usb_strings_loop devs index count (i + 1))"

definition rtlsdr_get_device_usb_strings ::
    "int + usb_id list \<Rightarrow> usb_query \<Rightarrow> nat \<Rightarrow> int \<times> usb_strings option" where
  "rtlsdr_get_device_usb_strings usb query index = (case usb of Inl r \<Rightarrow> (r, None)
     | Inr devs \<Rightarrow> (case usb_strings_loop devs index 0 0 of
         None \<Rightarrow> (0, None)
       | Some i \<Rightarrow> (case query i of (r, descr, strings) \<Rightarrow>
           if r \<noteq> 0 then (r, None) else rtlsdr_get_usb_strings descr strings)))"

text \<open>\<open>str\<close> is the local buffer that every call writes over.\<close>

fun serial_loop :: "int + usb_id list \<Rightarrow> usb_query \<Rightarrow> string \<Rightarrow> nat list \<Rightarrow> string \<Rightarrow> int" where
  "serial_loop usb query serial [] str = -3"
| "serial_loop usb query serial (i # is) str =
     (case rtlsdr_get_device_usb_strings usb query i of
        (r, strings) \<Rightarrow>
          (let str = (case strings of Some (_, _, s) \<Rightarrow> s | None \<Rightarrow> str)
           in if r = 0 \<and> serial = str then int i else serial_loop usb query serial is str))"

text \<open>The loop runs with the same answers of the host as the count.\<close>

definition rtlsdr_get_index_by_serial ::
    "int + usb_id list \<Rightarrow> usb_query \<Rightarrow> string \<Rightarrow> string \<Rightarrow> int" where
  "rtlsdr_get_index_by_serial usb query serial str =
     (let cnt = rtlsdr_get_device_count usb
      in if cnt = 0 then -2 else serial_loop usb query serial [0..<cnt] str)"

text \<open>The loop of \<open>rtlsdr_open\<close>; the comparison is made for every device of the list.\<close>

fun open_loop :: "usb_id list \<Rightarrow> nat \<Rightarrow> nat \<Rightarrow> nat \<Rightarrow> nat option" where
  "open_loop [] index count i = None"
| "open_loop (d # devs) index count i =
     (let count = (if known d then count + 1 else count)
      in if index = u32 (count + 4294967295) then Some i else open_loop devs index count (i + 1))"

section \<open>Probing the tuners\<close>

definition E4K_CHECK_ADDR :: u8 where "E4K_CHECK_ADDR = 0x02"
definition E4K_CHECK_VAL :: u8 where "E4K_CHECK_VAL = 0x40"
definition FC0013_CHECK_ADDR :: u8 where "FC0013_CHECK_ADDR = 0x00"
definition FC0013_CHECK_VAL :: u8 where "FC0013_CHECK_VAL = 0xa3"
definition R82XX_CHECK_ADDR :: u8 where "R82XX_CHECK_ADDR = 0x00"
definition R82XX_CHECK_VAL :: u8 where "R82XX_CHECK_VAL = 0x69"
definition FC2580_CHECK_ADDR :: u8 where "FC2580_CHECK_ADDR = 0x01"
definition FC2580_CHECK_VAL :: u8 where "FC2580_CHECK_VAL = 0x56"
definition FC0012_CHECK_ADDR :: u8 where "FC0012_CHECK_ADDR = 0x00"
definition FC0012_CHECK_VAL :: u8 where "FC0012_CHECK_VAL = 0xa1"

fun probe_chips :: "(u8 \<times> u8 \<times> u8 \<times> rtlsdr_tuner) list \<Rightarrow> rtlsdr_tuner usb_m \<Rightarrow> rtlsdr_tuner usb_m" where
  "probe_chips [] k = k"
| "probe_chips ((addr, check, val, t) # ps) k = do {
     reg \<leftarrow> rtlsdr_i2c_read_reg addr check;
     if reg = val then ret t else probe_chips ps k }"

definition probe_tuner :: "rtlsdr_tuner usb_m" where
  "probe_tuner = probe_chips
     [(E4K_I2C_ADDR, E4K_CHECK_ADDR, E4K_CHECK_VAL, RTLSDR_TUNER_E4000),
      (FC0013_I2C_ADDR, FC0013_CHECK_ADDR, FC0013_CHECK_VAL, RTLSDR_TUNER_FC0013),
      (R820T_I2C_ADDR, R82XX_CHECK_ADDR, R82XX_CHECK_VAL, RTLSDR_TUNER_R820T),
      (R828D_I2C_ADDR, R82XX_CHECK_ADDR, R82XX_CHECK_VAL, RTLSDR_TUNER_R828D)]
     (do {
        rtlsdr_set_gpio_output 5;
        rtlsdr_set_gpio_bit 5 True;
        rtlsdr_set_gpio_bit 5 False;
        reg \<leftarrow> rtlsdr_i2c_read_reg FC2580_I2C_ADDR FC2580_CHECK_ADDR;
        if reg AND 0x7f = FC2580_CHECK_VAL then ret RTLSDR_TUNER_FC2580
        else do {
          reg \<leftarrow> rtlsdr_i2c_read_reg FC0012_I2C_ADDR FC0012_CHECK_ADDR;
          if reg = FC0012_CHECK_VAL then do { rtlsdr_set_gpio_output 6; ret RTLSDR_TUNER_FC0012 }
          else ret RTLSDR_TUNER_UNKNOWN } })"

section \<open>Opening\<close>

text \<open>The structure after \<open>malloc\<close> and \<open>memset\<close>; the statics are those of the process.\<close>

definition blank_dev :: "usb_env \<Rightarrow> r82xx_statics \<Rightarrow> e4k_statics \<Rightarrow> rtlsdr_dev" where
  "blank_dev env r82s e4s = \<lparr>
     dev_usb = env, dev_xfers = [], dev_ub = False,
     dev_xfer_buf_num = 0, dev_xfer_buf_len = 0,
     dev_async_status = RTLSDR_INACTIVE, dev_async_cancel = False,
     dev_rate = 0, dev_rtl_xtal = 0, dev_fir = fir_default,
     dev_direct_sampling = 0, dev_tuner_type = RTLSDR_TUNER_UNKNOWN, dev_tuner = None,
     dev_tun_xtal = 0, dev_freq = 0, dev_bw = 0, dev_offs_freq = 0, dev_corr = 0, dev_gain = 0,
     dev_e4k = \<lparr>e4k_i2c_addr = 0, e4k_band = E4K_BAND_VHF2,
       e4k_vco = \<lparr>pll_fosc = 0, pll_intended_flo = 0, pll_flo = 0, pll_x = 0, pll_z = 0,
         pll_r = 0, pll_r_idx = 0, pll_threephase = False\<rparr>, e4k_gain_mode = 0\<rparr>,
     dev_r82c = \<lparr>cfg_i2c_addr = 0, cfg_xtal = 0, cfg_rafael_chip = CHIP_R820T,
       cfg_max_i2c_msg_len = 0, cfg_use_predetect = False\<rparr>,
     dev_r82p = \<lparr>r82_regs = replicate 30 0, r82_xtal_cap_sel = XTAL_LOW_CAP_30P,
       r82_int_freq = 0, r82_fil_cal_code = 0, r82_input = 0, r82_has_lock = False,
       r82_init_done = False, r82_delsys = 0, r82_type = 0, r82_bw = 0, r82_gain_mode = 0\<rparr>,
     dev_r82s = r82s, dev_e4s = e4s,
     dev_lost = True, dev_driver_active = False, dev_xfer_errors = 0\<rparr>"

definition open_settings :: "rtlsdr_tuner \<Rightarrow> unit usb_m" where
  "open_settings t =
     (if t = RTLSDR_TUNER_R828D \<or> t = RTLSDR_TUNER_R820T then do {
        (if t = RTLSDR_TUNER_R828D then modify (\<lambda>s. s\<lparr>dev_tun_xtal := R828D_XTAL_FREQ\<rparr>)
         else ret ());
        seqs [rtlsdr_demod_write_reg 1 0xb1 0x1a 1,
              rtlsdr_demod_write_reg 0 0x08 0x4d 1,
              rtlsdr_set_if_freq R82XX_IF_FREQ,
              rtlsdr_demod_write_reg 1 0x15 0x01 1] }
      else if t = RTLSDR_TUNER_UNKNOWN then seqs [rtlsdr_set_direct_sampling 1]
      else ret ())"

text \<open>From the dummy write on; a failure of it resets the device. The result of the driver's
  initialisation is not used.\<close>

definition open_device :: "unit usb_m" where
  "open_device = do {
     modify (\<lambda>s. s\<lparr>dev_rtl_xtal := DEF_RTL_XTAL_FREQ\<rparr>);
     _ \<leftarrow> rtlsdr_write_reg USBB USB_SYSCTL 0x09 1;
     rtlsdr_init_baseband;
     modify (\<lambda>s. s\<lparr>dev_lost := False\<rparr>);
     rtlsdr_set_i2c_repeater True;
     t \<leftarrow> probe_tuner;
     modify (\<lambda>s. s\<lparr>dev_tuner_type := t, dev_tun_xtal := dev_rtl_xtal s, dev_tuner := Some t\<rparr>);
     open_settings t;
     op \<leftarrow> tuner_op tuner_init;
     (case op of Some m \<Rightarrow> do { _ \<leftarrow> m; ret () } | None \<Rightarrow> ret ());
     rtlsdr_set_i2c_repeater False }"

text \<open>What libusb answers: initialisation, whether the context is not NULL, the devices,
  opening, the kernel driver, the claim.\<close>

record usb_host =
  host_init :: int
  host_ctx :: bool
  host_devices :: "usb_id list"
  host_open :: "nat \<Rightarrow> int"
  host_driver_active :: bool
  host_claim :: int

definition open_with :: "usb_host \<Rightarrow> nat \<Rightarrow> rtlsdr_dev \<Rightarrow> int \<times> rtlsdr_dev option" where
  "open_with host index dev = (case open_loop (host_devices host) index 0 0 of
     None \<Rightarrow> (-1, None)
   | Some i \<Rightarrow>
       if host_open host i < 0 then (host_open host i, None)
       else if host_claim host < 0 then (host_claim host, None)
       else (0, Some (snd (run_state open_device
               (dev\<lparr>dev_driver_active := host_driver_active host\<rparr>)))))"

definition rtlsdr_open :: "usb_host \<Rightarrow> nat \<Rightarrow> rtlsdr_dev \<Rightarrow> int \<times> rtlsdr_dev option" where
  "rtlsdr_open host index dev =
     (if host_init host < 0 then (-1, None) else open_with host index dev)"

definition rtlsdr_open2 :: "usb_host \<Rightarrow> nat \<Rightarrow> rtlsdr_dev \<Rightarrow> int \<times> rtlsdr_dev option" where
  "rtlsdr_open2 host index dev =
     (if host_init host \<noteq> 0 then (host_init host, None)
      else if \<not> host_ctx host then (-99, None)
      else open_with host index dev)"

text \<open>Closing: the wait for the end of the streaming is in the model of the streaming.\<close>

definition rtlsdr_close :: "int usb_m" where
  "rtlsdr_close = do {
     lost \<leftarrow> gets dev_lost;
     (if lost then ret () else do { _ \<leftarrow> rtlsdr_deinit_baseband; ret () });
     ret 0 }"

end
