(* ===== verification/RtlsdrSearch.thy ===== *)
theory RtlsdrSearch
  imports RtlsdrOpen
begin

text \<open>
  The search for a dongle by index, by name and by serial number, against the list of the
  positions of the known devices.
\<close>

definition known_positions :: "usb_id list \<Rightarrow> nat list" where
  "known_positions devs = List.filter (\<lambda>i. known (devs ! i)) [0..<length devs]"

fun known_from :: "usb_id list \<Rightarrow> nat \<Rightarrow> nat list" where
  "known_from [] i = []"
| "known_from (d # devs) i = (if known d then [i] else []) @ known_from devs (i + 1)"

lemma known_from_filter:
  "known_from devs i = List.filter (\<lambda>k. known (devs ! (k - i))) [i..<i + length devs]"
proof (induction devs arbitrary: i)
  case (Cons d devs)
  have "List.filter (\<lambda>k. known ((d # devs) ! (k - i))) [Suc i..<Suc i + length devs] =
      List.filter (\<lambda>k. known (devs ! (k - Suc i))) [Suc i..<Suc i + length devs]"
    by (rule filter_cong) (auto simp: nth_Cons' )
  then show ?case
    by (simp add: Cons.IH upt_conv_Cons del: upt_Suc)
qed simp

lemma known_from_positions: "known_from devs 0 = known_positions devs"
  by (simp add: known_from_filter known_positions_def)

lemma nth_shift: "m < n \<Longrightarrow> (x # xs) ! (n - m) = xs ! (n - (m + 1))"
  by (simp add: nth_Cons')

lemma usb_strings_loop_known:
  "count \<le> index \<Longrightarrow> usb_strings_loop devs index count i =
     (if index - count < length (known_from devs i) then Some (known_from devs i ! (index - count))
      else None)"
proof (induction devs arbitrary: count i)
  case (Cons d devs)
  show ?case
  proof (cases "known d")
    case True
    then show ?thesis using Cons.IH [of "count + 1" "i + 1"] Cons.prems
      by (cases "index = count") (auto simp: nth_Cons')
  qed (use Cons in simp)
qed simp

lemma u32_pred: "count + 1 < 4294967296 \<Longrightarrow> u32 (count + 1 + 4294967295) = count"
  by (simp add: u32_def)

lemma open_loop_known:
  "count \<le> index \<Longrightarrow> index < 4294967295 \<Longrightarrow> count + length devs < 4294967296 \<Longrightarrow>
     open_loop devs index count i =
     (if index - count < length (known_from devs i) then Some (known_from devs i ! (index - count))
      else None)"
proof (induction devs arbitrary: count i)
  case (Cons d devs)
  show ?case
  proof (cases "known d")
    case True
    have u: "u32 (count + 1 + 4294967295) = count" using Cons.prems by (intro u32_pred) simp
    show ?thesis
    proof (cases "index = count")
      case False
      have "open_loop devs index (count + 1) (i + 1) =
          (if index - (count + 1) < length (known_from devs (i + 1))
           then Some (known_from devs (i + 1) ! (index - (count + 1))) else None)"
        using Cons.prems False by (intro Cons.IH) auto
      then show ?thesis using True False Cons.prems(1) u by (auto simp: Let_def nth_Cons')
    qed (use True u in \<open>simp add: Let_def\<close>)
  next
    case False
    have "index \<noteq> u32 (count + 4294967295)"
    proof (cases count)
      case 0
      then show ?thesis using Cons.prems(2) by (simp add: u32_def)
    next
      case (Suc c)
      then have "u32 (count + 4294967295) = c" using Cons.prems u32_pred [of c] by simp
      then show ?thesis using Cons.prems(1) Suc by simp
    qed
    moreover have "open_loop devs index count (i + 1) =
          (if index - count < length (known_from devs (i + 1))
           then Some (known_from devs (i + 1) ! (index - count)) else None)"
      using Cons.prems by (intro Cons.IH) auto
    ultimately show ?thesis using False by (simp add: Let_def)
  qed
qed simp

text \<open>
  C39. \<open>rtlsdr_open\<close> and the search for the USB strings select the same dongle: for every
  index below \<open>2^32 - 1\<close> both take the device at the position that the index has among the known
  devices of the list, and none when there are not so many.
\<close>

theorem rtlsdr_index_selects:
  assumes "index < 4294967295" and "length devs < 4294967296"
  shows "open_loop devs index 0 0 = usb_strings_loop devs index 0 0 \<and>
    open_loop devs index 0 0 =
      (if index < length (known_positions devs) then Some (known_positions devs ! index) else None)"
  using open_loop_known [of 0 index devs 0] usb_strings_loop_known [of 0 index devs 0] assms
  by (simp add: known_from_positions)

theorem rtlsdr_index_selects_witness:
  "open_loop [(0x1234, 0x5678), (0x0bda, 0x2838), (0x0bda, 0x2832)] 1 0 0 = Some 2"
proof -
  let ?l = "[(0x1234, 0x5678), (0x0bda, 0x2838), (0x0bda, 0x2832)] :: usb_id list"
  have "known_positions ?l = [1, 2]"
    by (simp add: known_positions_def known_def find_known_device_def known_devices_def)
  moreover have "open_loop ?l 1 0 0 =
      (if 1 < length (known_positions ?l) then Some (known_positions ?l ! 1) else None)"
    by (rule conjunct2 [OF rtlsdr_index_selects]) simp_all
  ultimately show ?thesis by (simp del: open_loop.simps)
qed

text \<open>
  The comparison of \<open>rtlsdr_open\<close> wraps: with the index \<open>2^32 - 1\<close> (a negative index
  given by the caller) it opens the first device of the bus whenever that is not a known dongle,
  since the count of known devices less one is then the same value.
\<close>

lemma rtlsdr_open_wraps:
  assumes "\<not> known d"
  shows "open_loop (d # devs) 4294967295 0 0 = Some 0 \<and>
    usb_strings_loop [d] 4294967295 0 0 = None"
  using assms by (simp add: u32_def)

lemma rtlsdr_open_wraps_example: "open_loop [(0x1234, 0x5678)] 4294967295 0 0 = Some 0"
  using rtlsdr_open_wraps [of "(0x1234, 0x5678)" "[]"]
  by (simp add: known_def find_known_device_def known_devices_def)

lemma device_name_loop_last:
  "count + length (List.filter known devs) \<le> index \<Longrightarrow> device_name_loop (devs @ [d]) index count r =
     find_known_device d"
  by (induction devs arbitrary: count r)
    (auto simp: known_def split: option.splits)

text \<open>
  \<open>rtlsdr_get_device_name\<close> answers for an index that no dongle has: when the last device
  of the bus is a known dongle, every index from its own on gives that dongle's name instead of
  the empty string, although \<open>rtlsdr_open\<close> finds no device for a larger index.
\<close>

lemma rtlsdr_name_out_of_range:
  assumes "find_known_device d = Some name"
    and "rtlsdr_get_device_count (Inr (devs @ [d])) \<le> index" and "index < 4294967295"
    and "length devs < 4294967295"
  shows "rtlsdr_get_device_name (Inr (devs @ [d])) index = name \<and>
    open_loop (devs @ [d]) index 0 0 = None"
proof -
  have k: "known d" using assms(1) by (simp add: known_def)
  have "length (known_from l i) = length (List.filter known l)" for l i
    by (induction l arbitrary: i) auto
  then have "length (known_from (devs @ [d]) 0) \<le> index"
    using assms(2) by (simp add: rtlsdr_get_device_count_def)
  then have "open_loop (devs @ [d]) index 0 0 = None"
    using open_loop_known [of 0 index "devs @ [d]" 0] assms(3,4) by simp
  moreover have "device_name_loop (devs @ [d]) index 0 None = find_known_device d"
    using assms(2) k by (intro device_name_loop_last) (simp add: rtlsdr_get_device_count_def)
  ultimately show ?thesis using assms(1) by (simp add: rtlsdr_get_device_name_def)
qed

lemma rtlsdr_name_out_of_range_example:
  "rtlsdr_get_device_name (Inr [(0x0bda, 0x2838)]) 7 = ''Generic RTL2832U OEM''"
  using rtlsdr_name_out_of_range [of "(0x0bda, 0x2838)" "''Generic RTL2832U OEM''" "[]" 7]
  by (simp add: known_def find_known_device_def known_devices_def rtlsdr_get_device_count_def)

section \<open>By serial number\<close>

definition readable :: "usb_query \<Rightarrow> nat \<Rightarrow> bool" where
  "readable query i \<longleftrightarrow> (case query i of (r, descr, _) \<Rightarrow> r = 0 \<and> 0 \<le> descr)"

definition serial_of :: "usb_query \<Rightarrow> nat \<Rightarrow> string" where
  "serial_of query i = (case query i of (_, _, _, _, s) \<Rightarrow> s)"

definition has_serial :: "usb_id list \<Rightarrow> usb_query \<Rightarrow> string \<Rightarrow> nat \<Rightarrow> bool" where
  "has_serial devs query serial k \<longleftrightarrow>
     readable query (known_positions devs ! k) \<and> serial_of query (known_positions devs ! k) = serial"

lemma count_positions: "rtlsdr_get_device_count (Inr devs) = length (known_positions devs)"
proof -
  have "length (known_from l i) = length (List.filter known l)" for l i
    by (induction l arbitrary: i) auto
  from this [of devs 0] show ?thesis by (simp add: known_from_positions rtlsdr_get_device_count_def)
qed

lemma usb_strings_positions:
  "k < length (known_positions devs) \<Longrightarrow>
   usb_strings_loop devs k 0 0 = Some (known_positions devs ! k)"
  using usb_strings_loop_known [of 0 k devs 0] by (simp add: known_from_positions)

lemma serial_loop_first:
  assumes "\<forall>k\<in>set is. k < length (known_positions devs)"
  shows "serial_loop (Inr devs) query serial is str =
    (case find (has_serial devs query serial) is of None \<Rightarrow> -3 | Some k \<Rightarrow> int k)"
  using assms
proof (induction "is" arbitrary: str)
  case (Cons k ks)
  obtain r descr a b s where q: "query (known_positions devs ! k) = (r, descr, a, b, s)"
    by (metis prod_cases5)
  have "\<forall>k\<in>set ks. k < length (known_positions devs)" using Cons.prems by simp
  note IH = Cons.IH [OF this]
  show ?case using Cons.prems q
    by (auto simp: rtlsdr_get_device_usb_strings_def usb_strings_positions
      rtlsdr_get_usb_strings_def IH has_serial_def readable_def serial_of_def)
qed simp

text \<open>
  \<open>rtlsdr_get_index_by_serial\<close> returns an index exactly when a dongle can be opened and
  described and has that serial number; the index it returns is the first such one, in the numbering
  of \<open>rtlsdr_open\<close>, and a dongle that cannot be read is passed over.
\<close>

lemma rtlsdr_serial_first:
  "let n = length (known_positions devs);
       r = rtlsdr_get_index_by_serial (Inr devs) query serial str
   in (r = -2 \<longleftrightarrow> n = 0) \<and>
      (\<forall>k. r = int k \<longleftrightarrow> k < n \<and> has_serial devs query serial k \<and>
         \<not> (\<exists>j<k. has_serial devs query serial j)) \<and>
      (r = -3 \<longleftrightarrow> n \<noteq> 0 \<and> \<not> (\<exists>k<n. has_serial devs query serial k))"
proof -
  let ?n = "length (known_positions devs)"
  let ?r = "rtlsdr_get_index_by_serial (Inr devs) query serial str"
  have r: "?r = (if ?n = 0 then -2 else case find (has_serial devs query serial) [0..<?n] of
      None \<Rightarrow> -3 | Some k \<Rightarrow> int k)"
    using serial_loop_first [of "[0..<?n]" devs query serial str]
    by (simp add: rtlsdr_get_index_by_serial_def count_positions Let_def)
  show ?thesis
  proof (cases "find (has_serial devs query serial) [0..<?n]")
    case None
    then have "\<not> (\<exists>k<?n. has_serial devs query serial k)" by (auto simp: find_None_iff)
    then show ?thesis using r None by (auto simp: Let_def)
  next
    case (Some k)
    then have k: "k < ?n" "has_serial devs query serial k" "\<And>j. j < k \<Longrightarrow> \<not> has_serial devs query serial j"
      by (auto simp: find_Some_iff)
    then have rk: "?r = int k" using r Some by auto
    have "(int k = int k' \<longleftrightarrow> k' < ?n \<and> has_serial devs query serial k' \<and>
         \<not> (\<exists>j<k'. has_serial devs query serial j))" for k'
      using k by (metis linorder_neqE_nat of_nat_eq_iff)
    then show ?thesis using k rk by (auto simp: Let_def)
  qed
qed

lemma rtlsdr_serial_example:
  "rtlsdr_get_index_by_serial (Inr [(0x0bda, 0x2838), (1, 2), (0x0bda, 0x2832)])
     (\<lambda>i. (if i = 0 then -3 else 0, 18, '''', '''', ''42'')) ''42'' '''' = 1"
  by (simp add: rtlsdr_get_index_by_serial_def rtlsdr_get_device_count_def known_def find_known_device_def
    known_devices_def rtlsdr_get_device_usb_strings_def rtlsdr_get_usb_strings_def upt_rec Let_def)

text \<open>An index without a dongle gives 0 as well, with the strings of the caller left alone.\<close>

lemma usb_strings_no_device:
  "rtlsdr_get_device_count (Inr devs) \<le> index \<Longrightarrow>
   rtlsdr_get_device_usb_strings (Inr devs) query index = (0, None)"
  using usb_strings_loop_known [of 0 index devs 0]
  by (simp add: count_positions known_from_positions rtlsdr_get_device_usb_strings_def)

end
