(* ===== verification/RtlsdrTidy.thy ===== *)
theory RtlsdrTidy
  imports RtlsdrOpen
begin

text \<open>
  The I2C repeater across the whole interface: opening leaves it off, and so does every
  call, and no transfer for the tuner is made while it is off.
\<close>

section \<open>Rules\<close>

named_theorems tidy_intro

lemma tidy_modify: "(\<And>s. dev_xfers (f s) = dev_xfers s) \<Longrightarrow> keeps tidy (modify f)"
  by (simp add: keeps_def valid_def tidy_def)

text \<open>Traffic that is not for the tuner.\<close>

definition local_xfer :: "usb_xfer \<Rightarrow> bool" where
  "local_xfer x \<longleftrightarrow> \<not> repeater_write x \<and> \<not> tuner_xfer x"

lemma tidy_local: "bus.rel local_xfer m \<Longrightarrow> keeps tidy m"
  unfolding keeps_iff state_io_rel_def imp_rel_def tidy_def bus_rel_def xfers_rel_def
    local_xfer_def
  using repeater_on_append disciplined_append_quiet by metis

lemma local_sys: "sys_xfer x \<Longrightarrow> local_xfer x"
  by (simp add: local_xfer_def sys_xfer_quiet)

lemma tidy_write_reg [tidy_intro]:
  "block = USBB \<or> block = SYSB \<Longrightarrow> keeps tidy (rtlsdr_write_reg block addr val len)"
  by (rule tidy_local, rule rel_block_write_reg) (auto intro: local_sys)

lemma tidy_fault [tidy_intro]: "keeps tidy fault"
  by (rule tidy_local, rule rel_fault)

lemma tidy_clocks [tidy_intro]: "keeps tidy rtlsdr_get_tuner_clock" "keeps tidy rtlsdr_get_rtl_xtal"
  by (rule tidy_local, rule rel_tuner_clock rel_rtl_xtal)+

lemma tidy_demod [tidy_intro]:
  "page = 0 \<or> push_bit 8 addr OR 0x20 \<noteq> (0x0120 :: u16) \<or> (val = 0x14 \<or> val = 0x10) \<and> len = 1 \<Longrightarrow>
     keeps tidy (rtlsdr_demod_write_reg page addr val len)"
  by (rule tidy_demod_write) (auto simp: reg_bytes_def bit_numeral_rec)

lemma tidy_if_freq [tidy_intro]: "keeps tidy (rtlsdr_set_if_freq f)"
  unfolding rtlsdr_set_if_freq_def
  by (intro keeps_rules tidy_intro) (auto intro!: tidy_intro)

lemma tidy_ppm [tidy_intro]: "keeps tidy (rtlsdr_set_sample_freq_correction ppm)"
  unfolding rtlsdr_set_sample_freq_correction_def
  by (intro keeps_rules tidy_intro) (auto intro!: tidy_intro)

section \<open>The calls\<close>

text \<open>What \<open>tuner_op\<close> returns is an entry of the table.\<close>

lemma keeps_tuner_op:
  "(\<And>op. (\<And>m. op = Some m \<Longrightarrow> \<exists>t. sel t = Some m) \<Longrightarrow> keeps I (f op)) \<Longrightarrow>
     keeps I (tuner_op sel \<bind> f)"
  unfolding tuner_op_def keeps_def valid_def
  by (simp add: bind_eq_Some_conv) (metis bind_eq_Some_conv)

lemma tidy_center_freq [tidy_intro]: "keeps tidy (rtlsdr_set_center_freq f)"
  unfolding rtlsdr_set_center_freq_def
  by (intro keeps_tuner_op keeps_rules tidy_if_freq tidy_modify) (auto dest: tidy_set_freq)

text \<open>Inside a driver call only the discipline has to survive: the R820T retunes from there.\<close>

definition disc :: "rtlsdr_dev \<Rightarrow> bool" where
  "disc s \<longleftrightarrow> disciplined (dev_xfers s)"

lemma disc_local: "bus.rel local_xfer m \<Longrightarrow> keeps disc m"
  unfolding keeps_iff state_io_rel_def imp_rel_def disc_def bus_rel_def xfers_rel_def local_xfer_def
  using disciplined_append_quiet by metis

lemma repeating_local: "bus.rel local_xfer m \<Longrightarrow> keeps repeating m"
  unfolding keeps_iff state_io_rel_def imp_rel_def repeating_def bus_rel_def xfers_rel_def
    local_xfer_def
  using repeater_on_append disciplined_append by metis

lemma disc_bracket:
  assumes "bus.rel tuner_traffic m"
  shows "keeps disc (with_repeater m)"
  unfolding keeps_def with_repeater_def disc_def
proof (rule valid_bind [OF repeater_valid])
  show "valid (\<lambda>s. disciplined (dev_xfers s) \<and> repeater_on (dev_xfers s) = True)
     (m \<bind> (\<lambda>r. rtlsdr_set_i2c_repeater False \<bind> (\<lambda>_. ret r))) (\<lambda>_ s. disciplined (dev_xfers s))" for x :: unit
  proof (rule valid_bind)
    show "valid (\<lambda>s. disciplined (dev_xfers s) \<and> repeater_on (dev_xfers s) = True) m (\<lambda>_. disc)"
      using keeps_repeating_traffic [OF assms] unfolding keeps_def
      by (rule valid_conseq) (auto simp: repeating_def disc_def)
    show "valid disc (rtlsdr_set_i2c_repeater False \<bind> (\<lambda>_. ret r)) (\<lambda>_ s. disciplined (dev_xfers s))" for r :: int
      unfolding disc_def by (rule valid_bind [OF repeater_valid]) (auto intro: valid_ret)
  qed
qed

lemma local_demod:
  "push_bit 8 addr OR 0x20 \<noteq> (0x0120 :: u16) \<Longrightarrow> bus.rel local_xfer (rtlsdr_demod_write_reg page addr val len)"
  by (rule rel_demod_write_reg)
    (auto simp: local_xfer_def demod_xfer_quiet demod_xfer_def split: usb_xfer.splits)

lemma local_if_freq: "bus.rel local_xfer (rtlsdr_set_if_freq f)"
  unfolding rtlsdr_set_if_freq_def
  by (intro bus.rel_rules rel_rtl_xtal rel_fault) (auto intro!: local_demod)

lemma set_freq_traffic: "tuner_set_freq t = Some m \<Longrightarrow> bus.rel tuner_traffic (m f)"
  by (cases t) (auto intro: e4000.set_freq_frame fc0012_tuner.set_freq_frame
      fc0013_tuner.set_freq_frame fc2580_tuner.set_freq_frame r820t.set_freq_frame)

lemma disc_center_freq: "keeps disc (rtlsdr_set_center_freq f)"
proof -
  have "keeps disc (modify (\<lambda>s. s\<lparr>dev_freq := g s\<rparr>))" for g
    by (simp add: keeps_def valid_def disc_def)
  then show ?thesis
    unfolding rtlsdr_set_center_freq_def
    by (intro keeps_tuner_op keeps_rules disc_local [OF local_if_freq] disc_bracket)
      (auto dest: set_freq_traffic)
qed

lemma r820t_set_bw_disciplined: "valid repeating (r820t_set_bw b) (\<lambda>_. disc)"
proof -
  have rd: "repeating s \<Longrightarrow> disc s" for s by (simp add: repeating_def disc_def)
  have bw: "valid repeating (r82xx_set_bandwidth b rate) (\<lambda>_. repeating)" for rate
    using keeps_repeating_traffic [OF rel_any_i2c [OF r82_bus.rel_set_bandwidth]]
    by (simp add: keeps_def)
  have ifq: "valid repeating (rtlsdr_set_if_freq f) (\<lambda>_. repeating)" for f
    using repeating_local [OF local_if_freq] by (simp add: keeps_def)
  have cf: "valid repeating (rtlsdr_set_center_freq f) (\<lambda>_. disc)" for f
    using disc_center_freq unfolding keeps_def by (rule valid_pre) (rule rd)
  have g: "valid repeating (gets h) (\<lambda>_. repeating)" for h :: "rtlsdr_dev \<Rightarrow> nat"
    by (rule valid_gets)
  show ?thesis
    unfolding r820t_set_bw_def
    by (rule valid_bind [OF g], rule valid_bind [OF bw], rule valid_if, rule valid_ret, erule rd,
        rule valid_bind [OF ifq], rule valid_if, rule valid_ret, erule rd,
        rule valid_bind [OF g], rule cf)
qed

lemma e4000_set_bw_traffic: "bus.rel tuner_traffic (e4000_set_bw b)"
  unfolding e4000_set_bw_def
  by (rule rel_any_i2c, rule bus.rel_or_steps) (auto intro!: e4_bus.rel_if_filter)

lemma fc2580_set_bw_traffic: "bus.rel tuner_traffic (fc2580_set_bw b)"
  unfolding fc2580_set_bw_def by (rule rel_fc2580_SetBandwidthMode) (rule traffic_i2c)

lemma tidy_set_bw: "tuner_set_bw t = Some m \<Longrightarrow> keeps tidy (with_repeater (m b))"
  by (cases t)
    (auto intro!: tidy_bracket [OF bus.rel_ret] tidy_bracket [OF e4000_set_bw_traffic]
      tidy_bracket [OF fc2580_set_bw_traffic]
      tidy_with_repeater [OF r820t_set_bw_disciplined [unfolded disc_def [abs_def]]])

lemma tidy_tuner_bw:
  assumes "\<And>c. (\<And>m. c = Some m \<Longrightarrow> keeps tidy m) \<Longrightarrow> keeps tidy (f c)"
  shows "keeps tidy (tuner_bw bw \<bind> f)"
proof -
  have eq: "tuner_bw bw \<bind> f = tuner_op tuner_set_bw \<bind>
      (\<lambda>op. f (map_option (\<lambda>g. with_repeater (g (s32 (int bw)))) op))"
    by (simp add: tuner_bw_def)
  show ?thesis unfolding eq
    by (rule keeps_tuner_op, rule assms) (auto dest: tidy_set_bw)
qed

lemma tidy_ignore [tidy_intro]: "(\<And>m. c = Some m \<Longrightarrow> keeps tidy m) \<Longrightarrow> keeps tidy (ignore_call c)"
  unfolding ignore_call_def by (intro keeps_rules)

lemma tidy_offset [tidy_intro]: "keeps tidy (rtlsdr_set_offset_tuning on)"
  unfolding rtlsdr_set_offset_tuning_def
  by (intro tidy_tuner_bw keeps_rules tidy_intro tidy_modify) (auto intro: tidy_center_freq)

lemma tidy_rate [tidy_intro]: "keeps tidy (rtlsdr_set_sample_rate r)"
  unfolding rtlsdr_set_sample_rate_def program_rate_def
  by (intro tidy_tuner_bw keeps_rules tidy_intro tidy_modify) (auto intro!: tidy_intro)

lemma tidy_push_clocks [tidy_intro]: "keeps tidy push_clocks"
  unfolding push_clocks_def upd_e4k_def by (intro keeps_rules tidy_intro tidy_modify) auto

lemma tidy_xtal [tidy_intro]: "keeps tidy (rtlsdr_set_xtal_freq r t)"
  unfolding rtlsdr_set_xtal_freq_def by (intro keeps_rules tidy_intro tidy_modify) auto

lemma tidy_correction [tidy_intro]: "keeps tidy (rtlsdr_set_freq_correction p)"
  unfolding rtlsdr_set_freq_correction_def
  by (intro keeps_rules tidy_intro tidy_modify) (auto intro: tidy_center_freq)

lemma tidy_bandwidth [tidy_intro]: "keeps tidy (rtlsdr_set_tuner_bandwidth b)"
  unfolding rtlsdr_set_tuner_bandwidth_def
  by (intro tidy_tuner_bw keeps_rules tidy_modify) auto

lemma tidy_gain [tidy_intro]: "keeps tidy (rtlsdr_set_tuner_gain g)"
  unfolding rtlsdr_set_tuner_gain_def
  by (intro keeps_tuner_op keeps_rules tidy_modify) (auto dest: tidy_set_gain)

lemma tidy_if_gain [tidy_intro]: "keeps tidy (rtlsdr_set_tuner_if_gain i g)"
  unfolding rtlsdr_set_tuner_if_gain_def
  by (intro keeps_tuner_op keeps_rules) (auto dest: tidy_set_if_gain)

lemma tidy_gain_mode [tidy_intro]: "keeps tidy (rtlsdr_set_tuner_gain_mode m)"
  unfolding rtlsdr_set_tuner_gain_mode_def
  by (intro keeps_tuner_op keeps_rules) (auto dest: tidy_set_gain_mode)

lemma tidy_stage_gain [tidy_intro]: "keeps tidy (rtlsdr_set_tuner_stage_gain i g)"
  unfolding rtlsdr_set_tuner_stage_gain_def
  by (intro keeps_rules tidy_bracket)
    (auto intro!: rel_any_i2c e4_bus.rel_stage_gain r82_bus.rel_set_tuner_stage_gain bus.rel_ret
      split: rtlsdr_tuner.splits)

lemma tidy_modes [tidy_intro]:
  "keeps tidy (rtlsdr_set_testmode b)" "keeps tidy (rtlsdr_set_agc_mode b)"
  "keeps tidy rtlsdr_reset_buffer"
  unfolding rtlsdr_set_testmode_def rtlsdr_set_agc_mode_def rtlsdr_reset_buffer_def
  by (intro tidy_intro; simp)+ (intro keeps_rules; auto intro: tidy_write_reg)

lemma tidy_op_init: "tuner_init t = Some m \<Longrightarrow> keeps tidy (with_repeater m)"
  by (rule tidy_with_repeater)
    (rule valid_conseq [OF repeating_init [unfolded keeps_def]], auto simp: repeating_def)

lemma tidy_direct_sampling [tidy_intro]: "keeps tidy (rtlsdr_set_direct_sampling on)"
  unfolding rtlsdr_set_direct_sampling_def
  by (intro keeps_tuner_op keeps_rules tidy_modify)
    (auto dest: tidy_exit tidy_op_init intro!: tidy_intro split: if_splits)

lemma tidy_deinit [tidy_intro]: "keeps tidy rtlsdr_deinit_baseband"
  unfolding rtlsdr_deinit_baseband_def
  by (intro keeps_tuner_op keeps_rules tidy_write_reg) (auto dest: tidy_exit)

section \<open>Opening\<close>

text \<open>The baseband is initialised from the sixteen filter coefficients.\<close>

definition tidy_fir :: "rtlsdr_dev \<Rightarrow> bool" where
  "tidy_fir s \<longleftrightarrow> tidy s \<and> length (dev_fir s) = 16"

lemma same_fir: "bus.rel ok m \<Longrightarrow> run_state m s = (a, t) \<Longrightarrow> dev_fir t = dev_fir s"
  by (drule state_io_rel_run) (auto simp: bus_rel_def same_core_def)

lemma tidy_firI:
  assumes "bus.rel ok m" and "keeps tidy m"
  shows "keeps tidy_fir m"
  unfolding keeps_def
proof (rule validI)
  fix s a t assume "tidy_fir s" and run: "run_state m s = (a, t)"
  then show "tidy_fir t"
    using keepsD [OF assms(2) run] same_fir [OF assms(1) run] by (simp add: tidy_fir_def)
qed

lemma demod_any: "bus.rel (\<lambda>_. True) (rtlsdr_demod_write_reg page addr val len)"
  by (rule rel_demod_write_reg) simp

lemma tidy_fir_demod:
  "page = 0 \<or> push_bit 8 addr OR 0x20 \<noteq> (0x0120 :: u16) \<or> (val = 0x14 \<or> val = 0x10) \<and> len = 1 \<Longrightarrow>
     keeps tidy_fir (rtlsdr_demod_write_reg page addr val len)"
  by (rule tidy_firI [OF demod_any tidy_demod])

lemma tidy_fir_write_reg:
  "block = USBB \<or> block = SYSB \<Longrightarrow> keeps tidy_fir (rtlsdr_write_reg block addr val len)"
  by (rule tidy_firI [OF rel_block_write_reg [where ok = "\<lambda>_. True"] tidy_write_reg]) auto

lemma addr_not_repeater: "1 < unat a \<Longrightarrow> unat a < 256 \<Longrightarrow> push_bit 8 a OR 0x20 \<noteq> (0x0120 :: u16)"
proof
  assume r: "1 < unat a" "unat a < 256" and e: "push_bit 8 a OR 0x20 = (0x0120 :: u16)"
  have "drop_bit 8 (push_bit 8 a OR 0x20 :: u16) = drop_bit 8 0x0120" by (simp only: e)
  moreover have "drop_bit 8 (push_bit 8 a OR 0x20 :: u16) = a AND mask 8"
    by (rule bit_word_eqI) (auto simp: bit_simps bit_numeral_rec)
  moreover have "a AND mask 8 = a"
    using r(2) unfolding take_bit_eq_mask [symmetric]
    by (simp add: word_unat_eq_iff unsigned_take_bit_eq take_bit_nat_eq_self)
  ultimately have "a = 1" by simp
  with r(1) show False by simp
qed

lemma local_fir_writes:
  "1 < unat a \<Longrightarrow> unat a + length bs \<le> 256 \<Longrightarrow> bus.rel local_xfer (fir_writes a bs)"
proof (induction bs arbitrary: a)
  case (Cons b bs)
  have a: "unat (a + 1) = unat a + 1" using Cons.prems by (simp add: unat_word_ariths)
  show ?case unfolding fir_writes.simps
    by (intro bus.rel_rules local_demod addr_not_repeater Cons.IH)
      (use Cons.prems a in simp_all)
qed (simp add: bus.rel_ret)

lemma tidy_fir_set_fir: "keeps tidy_fir rtlsdr_set_fir"
  unfolding keeps_def
proof (rule validI)
  fix s a t assume tf: "tidy_fir s" and run: "run_state rtlsdr_set_fir s = (a, t)"
  show "tidy_fir t"
  proof (cases "fir_encode (dev_fir s)")
    case None
    with run tf show ?thesis by (simp add: rtlsdr_set_fir_def)
  next
    case (Some bs)
    have "length bs = 20" using Some tf
      by (auto simp: tidy_fir_def fir_encode_def split: if_splits dest!: fir_pack12_decode)
    then have "bus.rel local_xfer (fir_writes 0x1c bs)" by (intro local_fir_writes) simp_all
    from tidy_firI [OF this tidy_local [OF this]] have "keeps tidy_fir (fir_writes 0x1c bs)" .
    moreover have "run_state (fir_writes 0x1c bs) s = (a, t)"
      using run Some by (simp add: rtlsdr_set_fir_def)
    ultimately show ?thesis using tf keepsD by metis
  qed
qed

lemma tidy_fir_init_baseband: "keeps tidy_fir rtlsdr_init_baseband"
  unfolding rtlsdr_init_baseband_def
  by (rule keeps_rules)
    (auto intro!: tidy_fir_demod tidy_fir_write_reg tidy_fir_set_fir)

lemma repeating_probe: "keeps repeating probe_tuner"
proof -
  have c: "bus.rel tuner_traffic k \<Longrightarrow> bus.rel tuner_traffic (probe_chips ps k)" for ps k
    by (induction ps) (auto intro!: bus.rel_rules rel_i2c_read_reg traffic_i2c)
  show ?thesis unfolding probe_tuner_def
    by (intro keeps_repeating_traffic c bus.rel_rules rel_i2c_read_reg rel_set_gpio_bit
        rel_set_gpio_output traffic_i2c traffic_sys)
qed

lemma repeating_settings: "t \<noteq> RTLSDR_TUNER_UNKNOWN \<Longrightarrow> keeps repeating (open_settings t)"
  unfolding open_settings_def
  by (intro keeps_rules quiet_modify)
    (auto intro!: repeating_local local_demod local_if_freq)

text \<open>Without a tuner there is no driver to call.\<close>

definition no_tuner :: "rtlsdr_dev \<Rightarrow> bool" where
  "no_tuner s \<longleftrightarrow> disc s \<and> dev_tuner s = Some RTLSDR_TUNER_UNKNOWN"

lemma no_tuner_op:
  "keeps no_tuner (f (sel RTLSDR_TUNER_UNKNOWN)) \<Longrightarrow> keeps no_tuner (tuner_op sel \<bind> f)"
  by (auto simp: keeps_def valid_def tuner_op_def no_tuner_def)

lemma no_tuner_local: "bus.rel local_xfer m \<Longrightarrow> keeps no_tuner m"
  using disc_local [of m]
  by (auto simp: keeps_def valid_def no_tuner_def bus_rel_def same_core_def state_io_rel_def
      split: prod.splits)
    (metis snd_conv)+

lemma no_tuner_modify:
  "(\<And>s. dev_xfers (f s) = dev_xfers s \<and> dev_tuner (f s) = dev_tuner s) \<Longrightarrow> keeps no_tuner (modify f)"
  by (simp add: keeps_def valid_def no_tuner_def disc_def)

lemma no_tuner_center_freq: "keeps no_tuner (rtlsdr_set_center_freq f)"
  unfolding rtlsdr_set_center_freq_def
  by (intro no_tuner_op keeps_rules no_tuner_modify no_tuner_local [OF local_if_freq]) auto

lemma local_demod0: "bus.rel local_xfer (rtlsdr_demod_write_reg 0 addr val len)"
  by (rule rel_demod_write_reg)
    (auto simp: local_xfer_def demod_xfer_quiet demod_xfer_def split: usb_xfer.splits)

lemma no_tuner_direct: "keeps no_tuner (rtlsdr_set_direct_sampling on)"
  unfolding rtlsdr_set_direct_sampling_def
  by (intro no_tuner_op keeps_rules no_tuner_modify)
    (auto intro!: no_tuner_local local_demod local_demod0 local_if_freq no_tuner_center_freq
      split: if_splits)

lemma repeater_off: "valid disc (rtlsdr_set_i2c_repeater False) (\<lambda>_. tidy)"
  using repeater_valid [of False] by (rule valid_conseq) (auto simp: disc_def tidy_def)

lemma tidy_open_device: "valid tidy_fir open_device (\<lambda>_. tidy)"
proof -
  have rd: "repeating s \<Longrightarrow> disc s" for s by (simp add: repeating_def disc_def)
  have m: "valid tidy_fir (modify f) (\<lambda>_. tidy_fir)"
    if "\<And>s. dev_xfers (f s) = dev_xfers s \<and> dev_fir (f s) = dev_fir s" for f
    using that by (simp add: valid_def tidy_fir_def tidy_def)
  have w: "valid tidy_fir (rtlsdr_write_reg USBB a v n) (\<lambda>_. tidy_fir)" for a v n
    using tidy_fir_write_reg by (simp add: keeps_def)
  have on: "valid tidy_fir (rtlsdr_set_i2c_repeater True) (\<lambda>_. repeating)"
    using repeater_valid [of True]
    by (rule valid_conseq) (auto simp: tidy_fir_def tidy_def repeating_def)
  have found: "valid repeating
       (modify (\<lambda>s. s\<lparr>dev_tuner_type := t, dev_tun_xtal := dev_rtl_xtal s, dev_tuner := Some t\<rparr>))
       (\<lambda>_ s. repeating s \<and> dev_tuner s = Some t)" for t
    by (simp add: valid_def repeating_def)
  define init where "init = tuner_op tuner_init \<bind> (\<lambda>op.
      (case op of None \<Rightarrow> ret () | Some m \<Rightarrow> do { _ \<leftarrow> m; ret () }) \<bind>
      (\<lambda>_. rtlsdr_set_i2c_repeater False))"
  have tail: "valid (\<lambda>s. repeating s \<and> dev_tuner s = Some t) (open_settings t \<bind> (\<lambda>_. init))
      (\<lambda>_. tidy)" for t
  proof (cases "t = RTLSDR_TUNER_UNKNOWN")
    case True
    have "keeps no_tuner (open_settings t)" unfolding open_settings_def
      using True by (auto intro!: keeps_rules no_tuner_direct)
    moreover have "valid no_tuner init (\<lambda>_. tidy)"
      using repeater_off by (simp add: init_def tuner_op_def valid_def no_tuner_def)
    ultimately have "valid no_tuner (open_settings t \<bind> (\<lambda>_. init)) (\<lambda>_. tidy)"
      unfolding keeps_def by (rule valid_bind)
    then show ?thesis by (rule valid_pre) (simp add: True no_tuner_def rd)
  next
    case False
    have "keeps repeating (tuner_op tuner_init \<bind>
        (\<lambda>op. case op of None \<Rightarrow> ret () | Some m \<Rightarrow> do { _ \<leftarrow> m; ret () }))"
      by (intro keeps_tuner_op keeps_rules) (auto dest: repeating_init)
    then have "valid repeating init (\<lambda>_. tidy)"
      unfolding init_def keeps_def State_Monad.bind_assoc [symmetric]
      by (rule valid_bind) (rule valid_pre [OF repeater_off rd])
    with repeating_settings [OF False] have "valid repeating (open_settings t \<bind> (\<lambda>_. init)) (\<lambda>_. tidy)"
      unfolding keeps_def by (rule valid_bind)
    then show ?thesis by (rule valid_pre) simp
  qed
  have b: "valid tidy_fir rtlsdr_init_baseband (\<lambda>_. tidy_fir)"
    using tidy_fir_init_baseband by (simp add: keeps_def)
  have p: "valid repeating probe_tuner (\<lambda>_. repeating)"
    using repeating_probe by (simp add: keeps_def)
  show ?thesis
    unfolding open_device_def init_def [symmetric]
    by (rule valid_bind [OF m], simp, rule valid_bind [OF w], rule valid_bind [OF b],
        rule valid_bind [OF m], simp, rule valid_bind [OF on], rule valid_bind [OF p],
        rule valid_bind [OF found], rule tail)
qed

section \<open>Sequences of calls\<close>

datatype rtlsdr_call =
    Set_xtal_freq nat nat | Set_center_freq nat | Set_freq_correction int
  | Set_tuner_bandwidth nat | Set_tuner_gain int | Set_tuner_if_gain int int
  | Set_tuner_stage_gain u8 int | Set_tuner_gain_mode int | Set_sample_rate nat
  | Set_testmode bool | Set_agc_mode bool | Set_direct_sampling int | Set_offset_tuning bool
  | Reset_buffer | Write_eeprom "u8 list" u8 | Read_eeprom "u8 list" u8 | Deinit_baseband

fun run_call :: "rtlsdr_call \<Rightarrow> int usb_m" where
  "run_call (Set_xtal_freq r t) = rtlsdr_set_xtal_freq r t"
| "run_call (Set_center_freq f) = rtlsdr_set_center_freq f"
| "run_call (Set_freq_correction p) = rtlsdr_set_freq_correction p"
| "run_call (Set_tuner_bandwidth b) = rtlsdr_set_tuner_bandwidth b"
| "run_call (Set_tuner_gain g) = rtlsdr_set_tuner_gain g"
| "run_call (Set_tuner_if_gain i g) = rtlsdr_set_tuner_if_gain i g"
| "run_call (Set_tuner_stage_gain i g) = rtlsdr_set_tuner_stage_gain i g"
| "run_call (Set_tuner_gain_mode m) = rtlsdr_set_tuner_gain_mode m"
| "run_call (Set_sample_rate r) = rtlsdr_set_sample_rate r"
| "run_call (Set_testmode b) = rtlsdr_set_testmode b"
| "run_call (Set_agc_mode b) = rtlsdr_set_agc_mode b"
| "run_call (Set_direct_sampling on) = rtlsdr_set_direct_sampling on"
| "run_call (Set_offset_tuning b) = rtlsdr_set_offset_tuning b"
| "run_call Reset_buffer = rtlsdr_reset_buffer"
| "run_call (Write_eeprom d a) = rtlsdr_write_eeprom d a"
| "run_call (Read_eeprom d a) = do { (r, _) \<leftarrow> rtlsdr_read_eeprom d a; ret r }"
| "run_call Deinit_baseband = rtlsdr_deinit_baseband"

lemma local_eeprom: "bus.rel local_xfer (rtlsdr_write_array IICB EEPROM_ADDR d)"
    "bus.rel local_xfer (rtlsdr_read_array IICB EEPROM_ADDR b)"
  unfolding rtlsdr_write_array_def rtlsdr_read_array_def
  by (rule rel_ctrl_out rel_ctrl_in,
      simp add: local_xfer_def eeprom_addr_def EEPROM_ADDR_def IICB_def)+

lemma tidy_eeprom:
  "keeps tidy (rtlsdr_write_eeprom d a)" "keeps tidy (rtlsdr_read_eeprom b a)"
proof -
  have w: "bus.rel local_xfer (eeprom_write_bytes d a c)" for a c
    by (induction d arbitrary: a c)
      (auto intro!: bus.rel_rules local_eeprom)
  have r: "bus.rel local_xfer (eeprom_read_bytes x r b)" for x r
    by (induction b arbitrary: x r)
      (auto intro!: bus.rel_rules local_eeprom)
  show "keeps tidy (rtlsdr_write_eeprom d a)"
    unfolding rtlsdr_write_eeprom_def by (intro tidy_local bus.rel_rules rel_junk w)
  show "keeps tidy (rtlsdr_read_eeprom b a)"
    unfolding rtlsdr_read_eeprom_def by (intro tidy_local bus.rel_rules local_eeprom r)
qed

lemma tidy_call: "keeps tidy (run_call c)"
  by (cases c) (auto intro!: tidy_intro tidy_eeprom keeps_rules)

lemma tidy_opened:
  assumes "rtlsdr_open host index (blank_dev env r82s e4s) = (0, Some s)"
  shows "tidy s"
proof -
  obtain d where s: "s = snd (run_state open_device
      ((blank_dev env r82s e4s)\<lparr>dev_driver_active := d\<rparr>))"
    using assms by (auto simp: rtlsdr_open_def open_with_def split: if_splits option.splits)
  have "tidy_fir ((blank_dev env r82s e4s)\<lparr>dev_driver_active := d\<rparr>)"
    by (simp add: tidy_fir_def tidy_def blank_dev_def fir_default_def)
  then show ?thesis
    using validD [OF tidy_open_device] unfolding s by (metis prod.collapse)
qed

text \<open>
  C1. The repeater discipline of the library: on any bus, whatever the transfers return
  and whichever tuner answers, once \<open>rtlsdr_open\<close> has opened a device and after every
  sequence of calls the last command to the I2C repeater was to switch it off, and no transfer for the tuner has ever been
  made but after a command to switch it on. (A command whose transfer failed counts; the library ignores its result.)
\<close>

theorem rtlsdr_repeater_discipline:
  assumes "rtlsdr_open host index (blank_dev env r82s e4s) = (0, Some s)"
  shows "let t = snd (run_state (seqs (map run_call calls)) s)
    in disciplined (dev_xfers t) \<and> \<not> repeater_on (dev_xfers t)"
proof -
  have "keeps tidy (seqs (map run_call calls))"
    by (rule keeps_rules) (auto intro: tidy_call)
  then have "tidy (snd (run_state (seqs (map run_call calls)) s))"
    using keepsD tidy_opened [OF assms] by (metis prod.collapse)
  then show ?thesis by (simp add: tidy_def)
qed

definition example_host :: usb_host where
  "example_host = \<lparr>host_init = 0, host_ctx = True, host_devices = [(0x1234, 0x5678), (0x0bda, 0x2838)],
     host_open = (\<lambda>i. 0), host_driver_active = False, host_claim = 0\<rparr>"

lemma example_host_open:
  "rtlsdr_open example_host 0 dev = (0, Some (snd (run_state open_device
     (dev\<lparr>dev_driver_active := False\<rparr>))))"
  by (simp add: rtlsdr_open_def open_with_def example_host_def known_def find_known_device_def
      known_devices_def u32_def)

theorem rtlsdr_repeater_discipline_witness:
  "let s = snd (run_state open_device ((blank_dev ack_env (dev_r82s example_dev)
         (dev_e4s example_dev))\<lparr>dev_driver_active := False\<rparr>));
       t = snd (run_state (seqs (map run_call [Set_sample_rate 1024000, Set_center_freq 162000000])) s)
   in disciplined (dev_xfers t) \<and> \<not> repeater_on (dev_xfers t)"
  using rtlsdr_repeater_discipline [OF example_host_open] by (simp only: Let_def) blast

end
