(* ===== verification/RtlsdrRate.thy ===== *)
theory RtlsdrRate
  imports RtlsdrTidy
begin

text \<open>
  The sample rate: the resampler ratio as the demodulator reads it, the rate that is stored,
  and the rates for which the truncation of the ratio to 28 bits goes wrong.
\<close>

section \<open>The ratio\<close>

lemma and_ratio: "(x :: nat) AND 0x0ffffffc = 4 * ((x div 4) mod 2 ^ 26)"
proof -
  have c: "(0x0ffffffc :: nat) = push_bit 2 (mask 26)" by (simp add: push_bit_eq_mult mask_eq_exp_minus_1)
  have "x AND 0x0ffffffc = push_bit 2 (take_bit 26 (drop_bit 2 x))"
    unfolding c
    by (rule bit_eqI) (auto simp: bit_simps, (metis add_2_eq_Suc le_add_diff_inverse)+)
  then show ?thesis by (simp add: push_bit_eq_mult take_bit_eq_mod drop_bit_eq_div)
qed

lemma or_exp_nat:
  assumes "(y :: nat) < 2 ^ k"
  shows "y OR 2 ^ k = y + 2 ^ k"
proof (rule disjunctive_add [symmetric])
  fix n
  have "take_bit k y = y" using assms by (simp add: take_bit_nat_eq_self)
  then have "bit y n \<Longrightarrow> n < k" by (metis bit_take_bit_iff)
  then show "\<not> bit y n \<or> \<not> bit (2 ^ k :: nat) n" by (auto simp: bit_exp_iff)
qed

lemma and_exp_nat: "(y :: nat) AND 2 ^ k = (if bit y k then 2 ^ k else 0)"
  by (rule bit_eqI) (auto simp: bit_simps)

text \<open>The two ranges in which the sign bit of the ratio restores what the mask removes.\<close>

lemma real_ratio_masked:
  assumes "x < 2 ^ 27 \<or> 2 ^ 28 + 2 ^ 27 \<le> x \<and> x < 2 ^ 29"
  shows "real_ratio (x AND 0x0ffffffc) = 4 * (x div 4)"
proof -
  define y where "y = x AND 0x0ffffffc"
  have y: "y = 4 * ((x div 4) mod 2 ^ 26)" by (simp add: y_def and_ratio)
  then have y28: "y < 2 ^ 28" using mod_less_divisor [of "2 ^ 26" "x div 4"] by simp
  have rr: "real_ratio y = y OR push_bit 1 (y AND 2 ^ 27)" by (simp add: real_ratio_def)
  from assms show ?thesis
  proof
    assume x: "x < 2 ^ 27"
    then have y2: "y = 4 * (x div 4)" by (simp add: y)
    then have "y < 2 ^ 27" using x by linarith
    then have "\<not> bit y 27" by (simp add: bit_nat_def)
    then show ?thesis unfolding y_def [symmetric] rr and_exp_nat by (simp add: y2)
  next
    assume x: "2 ^ 28 + 2 ^ 27 \<le> x \<and> x < 2 ^ 29"
    then have "x div 4 = 2 ^ 26 + (x div 4 - 2 ^ 26)" "x div 4 - 2 ^ 26 < 2 ^ 26" by auto
    then have "(x div 4) mod 2 ^ 26 = x div 4 - 2 ^ 26" by (metis mod_add_self1 mod_less)
    then have y2: "y = 4 * (x div 4 - 2 ^ 26)" by (simp add: y)
    moreover have x4: "100663296 \<le> x div 4" using x by auto
    ultimately have "2 ^ 27 \<le> y" by simp
    then have "y div 2 ^ 27 = 1" using y28 by simp
    then have "bit y 27" by (simp add: bit_nat_def)
    then have "real_ratio y = y OR 2 ^ 28" unfolding rr and_exp_nat by (simp add: push_bit_eq_mult)
    also have "\<dots> = y + 2 ^ 28" by (rule or_exp_nat [OF y28])
    also have "\<dots> = 4 * (x div 4)" using y2 x4 by simp
    finally show ?thesis by (simp add: y_def)
  qed
qed

text \<open>The rates for which the ratio of this crystal stays inside one of the ranges.\<close>

definition rate_representable :: "nat \<Rightarrow> nat \<Rightarrow> bool" where
  "rate_representable xtal rate \<longleftrightarrow> rate_supported rate \<and>
     (if rate \<le> 300000 then 96 * rate \<le> xtal \<and> xtal < 128 * rate else xtal < 32 * rate) \<and>
     28799000 \<le> xtal \<and> xtal \<le> 28801000"

definition ratio_of :: "nat \<Rightarrow> nat \<Rightarrow> nat" where
  "ratio_of xtal rate = (xtal * 4194304) div rate"

lemma dmul_xtal: "xtal \<le> 28801000 \<Longrightarrow> dmul (of_nat xtal) 4194304 = of_nat (xtal * 4194304)"
  using rnd_of_nat [of "xtal * 4194304"] by (simp add: dmul_def)

lemma raw_ratio:
  "xtal \<le> 28801000 \<Longrightarrow> 0 < rate \<Longrightarrow> rsamp_ratio_raw xtal rate = int (ratio_of xtal rate)"
  by (simp add: rsamp_ratio_raw_def ratio_of_def dmul_xtal dtrunc_of_nat_div del: of_nat_mult)

lemma real_rate_div:
  "xtal \<le> 28801000 \<Longrightarrow> 0 < d \<Longrightarrow> dtrunc (real_rate xtal d) = int ((xtal * 4194304) div d)"
  by (simp add: real_rate_def dmul_xtal dtrunc_of_nat_div del: of_nat_mult)

lemma ratio_range:
  assumes "rate_representable xtal rate"
  shows "ratio_of xtal rate < 2 ^ 27 \<or>
    2 ^ 28 + 2 ^ 27 \<le> ratio_of xtal rate \<and> ratio_of xtal rate < 2 ^ 29"
proof -
  have r: "0 < rate" using assms by (auto simp: rate_representable_def rate_supported_def)
  show ?thesis
  proof (cases "rate \<le> 300000")
    case True
    then have "96 * rate \<le> xtal" "xtal < 128 * rate"
      using assms by (auto simp: rate_representable_def)
    then have "(2 ^ 28 + 2 ^ 27) * rate \<le> xtal * 4194304" "xtal * 4194304 < 2 ^ 29 * rate" by auto
    then show ?thesis
      using r by (simp add: ratio_of_def div_less_iff_less_mult less_eq_div_iff_mult_less_eq)
  next
    case False
    then have "xtal < 32 * rate" using assms by (auto simp: rate_representable_def)
    then have "xtal * 4194304 < 2 ^ 27 * rate" by auto
    then show ?thesis using r by (simp add: ratio_of_def div_less_iff_less_mult)
  qed
qed

lemma rate_bounds: "rate_representable xtal rate \<Longrightarrow> 225000 < rate \<and> rate \<le> 3200000 \<and>
    28799000 \<le> xtal \<and> xtal \<le> 28801000"
  by (auto simp: rate_representable_def rate_supported_def)

text \<open>Dividing by the ratio without its two lowest bits gives the rate back.\<close>

lemma rate_from_ratio:
  assumes "rate_representable xtal rate"
  shows "(xtal * 4194304) div (4 * (ratio_of xtal rate div 4)) = rate"
proof -
  define n q p where "n = xtal * 4194304" and "q = n div rate" and "p = 4 * (q div 4)"
  have b: "225000 < rate" "rate \<le> 3200000" "28799000 \<le> xtal" using rate_bounds [OF assms] by auto
  have n: "120791760896000 \<le> n" using b(3) by (simp add: n_def)
  have q1: "q * rate \<le> n" by (simp add: q_def)
  have q2: "n < q * rate + rate" 
    using dividend_less_div_times [of rate n] b(1) by (simp add: q_def add.commute)
  have p: "p \<le> q" "q < p + 4" by (simp_all add: p_def)
  have "4 * rate * rate + 4 * rate \<le> 12800000 * 3200000 + 12800000"
    using b(2) by (intro add_mono mult_mono) auto
  then have "4 * rate * rate + 4 * rate \<le> n" using n by linarith
  then have "(4 * rate + 4) * rate \<le> n" by (simp add: algebra_simps)
  then have "4 * rate + 4 \<le> q" using b(1) by (simp add: q_def less_eq_div_iff_mult_less_eq)
  then have p4: "4 * rate \<le> p" using p by linarith
  have "n < (q + 1) * rate" using q2 by simp
  also have "\<dots> \<le> (p + 4) * rate" using p(2) by (intro mult_right_mono) auto
  also have "\<dots> = p * rate + 4 * rate" by (simp add: algebra_simps)
  also have "\<dots> \<le> p * rate + p" using p4 by simp
  finally have "n < p * (rate + 1)" by (simp add: algebra_simps)
  moreover have "p * rate \<le> n" using q1 p(1) by (metis le_trans mult_le_mono1)
  ultimately have "n div p = rate" using div_nat_eqI [of p rate n] by simp
  then show ?thesis by (simp add: n_def q_def p_def ratio_of_def)
qed

section \<open>The registers of the demodulator\<close>

text \<open>
  The register file of a demodulator page: the last byte written to register \<open>r\<close> by a
  transfer that was acknowledged in full (the high byte of \<open>wValue\<close> is the first register, further
  bytes go to consecutive registers).
\<close>

definition demod_covers :: "u16 \<Rightarrow> u8 list \<Rightarrow> nat \<Rightarrow> bool" where
  "demod_covers v d r \<longleftrightarrow> v AND 0xff = 0x20 \<and> unat (drop_bit 8 v) \<le> r \<and> r < unat (drop_bit 8 v) + length d"

fun demod_reg :: "u8 \<Rightarrow> usb_xfer list \<Rightarrow> nat \<Rightarrow> u8 option" where
  "demod_reg page [] r = None"
| "demod_reg page (CtrlOut v i d rc # xs) r =
     (if i = (0x10 OR ucast page) \<and> rc = int (length d) \<and> demod_covers v d r
      then Some (d ! (r - unat (drop_bit 8 v))) else demod_reg page xs r)"
| "demod_reg page (CtrlIn v i n rc d # xs) r = demod_reg page xs r"

text \<open>The ratio that the resampler reads: four registers of page 1 from 0x9f on, the highest byte first.\<close>

definition demod_ratio :: "usb_xfer list \<Rightarrow> nat option" where
  "demod_ratio h =
     (case (demod_reg 1 h 0x9f, demod_reg 1 h 0xa0, demod_reg 1 h 0xa1, demod_reg 1 h 0xa2) of
        (Some a, Some b, Some c, Some d) \<Rightarrow> Some (((unat a * 256 + unat b) * 256 + unat c) * 256 + unat d)
      | _ \<Rightarrow> None)"

text \<open>A transfer that does not reach these registers.\<close>

fun ratio_quiet :: "usb_xfer \<Rightarrow> bool" where
  "ratio_quiet (CtrlOut v i d rc) \<longleftrightarrow> i \<noteq> 0x11 \<or>
     (\<forall>r\<in>{0x9f, 0xa0, 0xa1, 0xa2}. \<not> demod_covers v d r)"
| "ratio_quiet (CtrlIn v i n rc d) \<longleftrightarrow> True"

lemma demod_reg_quiet:
  "(\<forall>x\<in>set ys. ratio_quiet x) \<Longrightarrow> r \<in> {0x9f, 0xa0, 0xa1, 0xa2} \<Longrightarrow>
     demod_reg 1 (ys @ h) r = demod_reg 1 h r"
proof (induction ys)
  case (Cons y ys)
  then show ?case by (cases y) auto
qed simp

lemma demod_ratio_quiet:
  "(\<forall>x\<in>set ys. ratio_quiet x) \<Longrightarrow> demod_ratio (ys @ h) = demod_ratio h"
  by (simp add: demod_ratio_def demod_reg_quiet)

lemma unat_halves:
  fixes n :: nat
  assumes "n < 65536"
  shows "unat (ucast (drop_bit 8 (of_nat n :: u16)) :: u8) * 256 +
    unat (ucast ((of_nat n :: u16) AND 0xff) :: u8) = n"
proof -
  have m: "(of_nat n :: u16) AND 0xff = take_bit 8 (of_nat n)"
    by (simp add: take_bit_eq_mask mask_eq_exp_minus_1)
  have "unat (of_nat n :: u16) = n" using assms by (simp add: unat_of_nat)
  then have "unat (ucast (drop_bit 8 (of_nat n :: u16)) :: u8) = n div 256"
    and "unat (ucast (take_bit 8 (of_nat n :: u16)) :: u8) = n mod 256"
    using assms by (simp_all add: unsigned_ucast_eq unsigned_drop_bit_eq
        unsigned_take_bit_eq drop_bit_eq_div take_bit_eq_mod unat_div_distrib unat_mod_distrib
        div_less_iff_less_mult)
  then show ?thesis unfolding m by simp
qed

lemma low_half: "(w :: nat) AND 0xffff = w mod 65536"
  using take_bit_eq_mask [of 16 w] by (simp add: take_bit_eq_mod mask_eq_exp_minus_1)

section \<open>The stored rate\<close>

text \<open>The transfers between the two states satisfy \<open>Q\<close>, the rate is kept.\<close>

definition rate_rel :: "(usb_xfer \<Rightarrow> bool) \<Rightarrow> rtlsdr_dev \<Rightarrow> rtlsdr_dev \<Rightarrow> bool" where
  "rate_rel Q s t \<longleftrightarrow> dev_rate t = dev_rate s \<and> dev_usb t = dev_usb s \<and> xfers_rel Q s t"

interpretation rr: step_rel "rate_rel Q" for Q
  by unfold_locales (auto simp: rate_rel_def intro: xfers_rel_trans)

lemma rate_bus: "bus.rel Q m \<Longrightarrow> rr.rel Q m"
  by (auto simp: state_io_rel_def bus_rel_def same_core_def rate_rel_def)

lemma rate_modify:
  "(\<And>s. dev_rate (f s) = dev_rate s \<and> dev_usb (f s) = dev_usb s \<and> dev_xfers (f s) = dev_xfers s) \<Longrightarrow>
     rr.rel Q (modify f)"
  by (rule rr.rel_modify) (simp add: rate_rel_def xfers_rel_def)

lemma rate_tuner_op:
  "(\<And>op. (\<And>m. op = Some m \<Longrightarrow> \<exists>t. sel t = Some m) \<Longrightarrow> rr.rel Q (f op)) \<Longrightarrow>
     rr.rel Q (tuner_op sel \<bind> f)"
  unfolding tuner_op_def state_io_rel_def
  by (simp add: bind_eq_Some_conv) (metis bind_eq_Some_conv)

lemma rel_demod_bytes:
  "(\<And>rc. ok (CtrlOut (push_bit 8 addr OR 0x20) (0x10 OR ucast page) (reg_bytes val len) rc)) \<Longrightarrow>
     (\<And>v i n rc d. ok (CtrlIn v i n rc d)) \<Longrightarrow> bus.rel ok (rtlsdr_demod_write_reg page addr val len)"
  unfolding rtlsdr_demod_write_reg_def
  by (intro bus.rel_rules rel_ctrl_out rel_demod_read_reg)

text \<open>Every other write to the demodulator starts below the ratio.\<close>

lemma quiet_low:
  "unat (drop_bit 8 v) < 0x9d \<Longrightarrow> length d \<le> 2 \<Longrightarrow> ratio_quiet (CtrlOut v i d rc)"
  by (auto simp: demod_covers_def)

lemma length_reg_bytes: "length (reg_bytes val len) \<le> 2"
  by (simp add: reg_bytes_def)

lemma rate_demod:
  "unat (drop_bit 8 (push_bit 8 addr OR 0x20 :: u16)) < 0x9d \<Longrightarrow>
     rr.rel ratio_quiet (rtlsdr_demod_write_reg page addr val len)"
  by (rule rate_bus, rule rel_demod_bytes, rule quiet_low) (simp_all add: length_reg_bytes)

lemma quiet_traffic: "tuner_traffic x \<Longrightarrow> ratio_quiet x"
  by (cases x) (auto simp: tuner_traffic_def any_i2c_def i2c_xfer_def sys_xfer_def iic_out_def)

lemma rate_traffic: "bus.rel tuner_traffic m \<Longrightarrow> rr.rel ratio_quiet m"
  by (rule rate_bus, erule rel_mono_ok, rule quiet_traffic)

lemma rate_fault: "rr.rel Q fault"
  by (rule rate_bus [OF rel_fault])

lemma rate_if_freq: "rr.rel ratio_quiet (rtlsdr_set_if_freq f)"
  unfolding rtlsdr_set_if_freq_def
  by (intro rr.rel_rules rate_fault rate_bus [OF rel_rtl_xtal]) (auto intro!: rate_demod)

lemma rate_repeater: "rr.rel ratio_quiet m \<Longrightarrow> rr.rel ratio_quiet (with_repeater m)"
  unfolding with_repeater_def rtlsdr_set_i2c_repeater_def
  by (intro rr.rel_rules rate_demod) simp_all

lemma rate_center_freq: "rr.rel ratio_quiet (rtlsdr_set_center_freq f)"
  unfolding rtlsdr_set_center_freq_def
  by (intro rate_tuner_op rr.rel_rules rate_modify rate_if_freq rate_repeater)
    (auto dest: set_freq_traffic rate_traffic)

lemma rate_set_bw: "tuner_set_bw t = Some m \<Longrightarrow> rr.rel ratio_quiet (m b)"
proof -
  have "rr.rel ratio_quiet (r820t_set_bw b)" unfolding r820t_set_bw_def
    by (intro rr.rel_rules rate_traffic [OF rel_any_i2c [OF r82_bus.rel_set_bandwidth]]
        rate_if_freq rate_center_freq)
  then show "tuner_set_bw t = Some m \<Longrightarrow> rr.rel ratio_quiet (m b)"
    by (cases t) (auto intro: rr.rel_ret rate_traffic [OF e4000_set_bw_traffic]
        rate_traffic [OF fc2580_set_bw_traffic])
qed

lemma rate_tuner_bw:
  assumes "\<And>c. rr.rel ratio_quiet (ignore_call c) \<Longrightarrow> rr.rel ratio_quiet (f c)"
  shows "rr.rel ratio_quiet (tuner_bw bw \<bind> f)"
proof -
  have eq: "tuner_bw bw \<bind> f = tuner_op tuner_set_bw \<bind>
      (\<lambda>op. f (map_option (\<lambda>g. with_repeater (g (s32 (int bw)))) op))"
    by (simp add: tuner_bw_def)
  show ?thesis unfolding eq
    by (rule rate_tuner_op, rule assms)
      (auto simp: ignore_call_def intro!: rr.rel_rules rate_repeater split: option.splits
        dest: rate_set_bw)
qed

lemma rate_offset: "rr.rel ratio_quiet (rtlsdr_set_offset_tuning on)"
  unfolding rtlsdr_set_offset_tuning_def
  by (intro rate_tuner_bw rr.rel_rules rate_modify rate_if_freq)
    (auto intro: rate_center_freq)

lemma rate_ppm: "rr.rel ratio_quiet (rtlsdr_set_sample_freq_correction p)"
  unfolding rtlsdr_set_sample_freq_correction_def
  by (intro rr.rel_rules rate_fault) (auto intro!: rate_demod rr.rel_ret)

section \<open>Programming the ratio\<close>

text \<open>What follows the two writes of the ratio, which no later transfer touches.\<close>

definition after_ratio :: "int \<Rightarrow> int \<Rightarrow> int usb_m" where
  "after_ratio r0 corr = do {
     r \<leftarrow> or_steps r0
       [rtlsdr_set_sample_freq_correction corr,
        rtlsdr_demod_write_reg 1 0x01 0x14 1,
        rtlsdr_demod_write_reg 1 0x01 0x10 1];
     offs \<leftarrow> gets dev_offs_freq;
     (if offs \<noteq> 0 then do { _ \<leftarrow> rtlsdr_set_offset_tuning True; ret () } else ret ());
     ret r }"

lemma rate_after: "rr.rel ratio_quiet (after_ratio r0 corr)"
  unfolding after_ratio_def
  by (intro rr.rel_rules) (auto intro: rate_demod rate_ppm rate_offset)

text \<open>A transfer of two bytes to the demodulator, and the state it leaves.\<close>

lemma run_demod_word:
  assumes "usb_acks (dev_usb s)"
  obtains rc x s' where "run_state (rtlsdr_demod_write_reg 1 addr val 2) s = (rc, s')"
    and "dev_rate s' = dev_rate s" and "dev_usb s' = dev_usb s" and "ratio_quiet x"
    and "dev_xfers s' = x # CtrlOut (push_bit 8 addr OR 0x20) 0x11 (reg_bytes val 2) 2 # dev_xfers s"
proof -
  obtain rc s' where run: "run_state (rtlsdr_demod_write_reg 1 addr val 2) s = (rc, s')" by fastforce
  have l: "length (reg_bytes val 2) = 2" by (simp add: reg_bytes_def)
  from run assms have "dev_rate s' = dev_rate s \<and> dev_usb s' = dev_usb s \<and>
    (\<exists>x. ratio_quiet x \<and>
      dev_xfers s' = x # CtrlOut (push_bit 8 addr OR 0x20) 0x11 (reg_bytes val 2) 2 # dev_xfers s)"
    by (auto simp: rtlsdr_demod_write_reg_def rtlsdr_demod_read_reg_def run_ctrl_out ctrl_in_def junk_def
        Let_def usb_acks_def l)
  with run that show thesis by blast
qed

lemma demod_reg_word:
  "demod_reg 1 (CtrlOut 0x9f20 0x11 [p, q] 2 # h) r =
     (if r = 0x9f then Some p else if r = 0xa0 then Some q else demod_reg 1 h r)"
  "demod_reg 1 (CtrlOut 0xa120 0x11 [p, q] 2 # h) r =
     (if r = 0xa1 then Some p else if r = 0xa2 then Some q else demod_reg 1 h r)"
  by (auto simp: demod_covers_def less_Suc_eq le_less)

lemma ratio_written:
  assumes "w < 4294967296" "ratio_quiet x" "ratio_quiet y"
  shows "demod_ratio (y # CtrlOut (push_bit 8 0xa1 OR 0x20) 0x11 (reg_bytes (of_nat (w AND 0xffff)) 2) 2 #
    x # CtrlOut (push_bit 8 0x9f OR 0x20) 0x11 (reg_bytes (of_nat (drop_bit 16 w)) 2) 2 # h) = Some w"
proof -
  define a b where "a = drop_bit 16 w" and "b = w AND 0xffff"
  have ab: "w = a * 65536 + b" "b < 65536" "a < 65536"
    using assms(1) by (simp_all add: a_def b_def low_half drop_bit_eq_div div_less_iff_less_mult)
  have bytes: "reg_bytes v 2 = [ucast (drop_bit 8 v), ucast (v AND 0xff)]" for v
    by (simp add: reg_bytes_def)
  have regs: "demod_ratio (y # CtrlOut 0xa120 0x11 [p, q] 2 # x # CtrlOut 0x9f20 0x11 [p', q'] 2 # h) =
      Some ((unat p' * 256 + unat q') * 65536 + (unat p * 256 + unat q))" for p q p' q'
  proof -
    have y: "demod_ratio (y # h) = demod_ratio h" for h using demod_ratio_quiet [of "[y]" h] assms(3) by simp
    have "demod_reg 1 (x # h) r = demod_reg 1 h r" if "r \<in> {0x9f, 0xa0, 0xa1, 0xa2}" for h r
      using demod_reg_quiet [of "[x]" r h] assms(2) that by simp
    then have x: "demod_reg 1 (x # h) 0x9f = demod_reg 1 h 0x9f" "demod_reg 1 (x # h) 0xa0 = demod_reg 1 h 0xa0"
      for h by simp_all
    show ?thesis
      unfolding y unfolding demod_ratio_def demod_reg_word by (simp add: x demod_reg_word del: demod_reg.simps)
  qed
  have "(push_bit 8 0xa1 OR 0x20 :: u16) = 0xa120" "(push_bit 8 0x9f OR 0x20 :: u16) = 0x9f20" by simp_all
  then show ?thesis
    unfolding a_def [symmetric] b_def [symmetric] bytes
    using regs unat_halves [OF ab(2)] unat_halves [OF ab(3)] ab(1) by (simp only:)
qed

definition before_ratio :: "int usb_m" where
  "before_ratio = do {
     bw \<leftarrow> gets dev_bw;
     rate \<leftarrow> gets dev_rate;
     call \<leftarrow> tuner_bw (if bw > 0 then bw else rate);
     ignore_call call;
     gets dev_corr }"

lemma program_rate_parts:
  "program_rate w = do {
     corr \<leftarrow> before_ratio;
     r1 \<leftarrow> rtlsdr_demod_write_reg 1 0x9f (of_nat (drop_bit 16 w)) 2;
     r2 \<leftarrow> rtlsdr_demod_write_reg 1 0xa1 (of_nat (w AND 0xffff)) 2;
     after_ratio (0 OR r1 OR r2) corr }"
  unfolding program_rate_def after_ratio_def before_ratio_def by simp

lemma rate_before: "rr.rel ratio_quiet before_ratio"
  unfolding before_ratio_def by (intro rate_tuner_bw rr.rel_rules)

lemma rate_mono: "rr.rel Q m \<Longrightarrow> rr.rel (\<lambda>_. True) m"
  by (auto simp: state_io_rel_def rate_rel_def xfers_rel_def)

lemma program_rate_keeps: "run_state (program_rate w) s = (r, t) \<Longrightarrow> dev_rate t = dev_rate s"
proof -
  have "rr.rel (\<lambda>_. True) (program_rate w)"
    unfolding program_rate_parts
    by (intro rr.rel_rules rate_mono [OF rate_before] rate_mono [OF rate_after] rate_bus demod_any)
  then show "run_state (program_rate w) s = (r, t) \<Longrightarrow> dev_rate t = dev_rate s"
    by (auto dest: state_io_rel_run simp: rate_rel_def)
qed

lemma program_rate_writes:
  assumes w: "w < 4294967296" and ack: "usb_acks (dev_usb s)"
    and run: "run_state (program_rate w) s = (r, t)"
  shows "demod_ratio (dev_xfers t) = Some w"
proof -
  obtain corr s1 where s1: "run_state before_ratio s = (corr, s1)" by fastforce
  have "usb_acks (dev_usb s1)"
    using state_io_rel_run [OF rate_before s1] ack by (simp add: rate_rel_def)
  then obtain r1 x s2 where s2: "run_state (rtlsdr_demod_write_reg 1 0x9f (of_nat (drop_bit 16 w)) 2) s1 = (r1, s2)"
    "dev_usb s2 = dev_usb s1" "ratio_quiet x" "usb_acks (dev_usb s2)"
    "dev_xfers s2 = x # CtrlOut (push_bit 8 0x9f OR 0x20) 0x11 (reg_bytes (of_nat (drop_bit 16 w)) 2) 2 # dev_xfers s1"
    using run_demod_word [where s = s1 and addr = "0x9f" and val = "of_nat (drop_bit 16 w)"] by metis
  obtain r2 y s3 where s3: "run_state (rtlsdr_demod_write_reg 1 0xa1 (of_nat (w AND 0xffff)) 2) s2 = (r2, s3)"
    "ratio_quiet y"
    "dev_xfers s3 = y # CtrlOut (push_bit 8 0xa1 OR 0x20) 0x11 (reg_bytes (of_nat (w AND 0xffff)) 2) 2 # dev_xfers s2"
    by (rule run_demod_word [OF s2(4)])
  have "run_state (after_ratio (0 OR r1 OR r2) corr) s3 = (r, t)"
    using run s1 s2(1) s3(1) by (simp add: program_rate_parts)
  then have "rate_rel ratio_quiet s3 t" by (rule state_io_rel_run [OF rate_after])
  then obtain ys where "dev_xfers t = ys @ dev_xfers s3" "\<forall>z\<in>set ys. ratio_quiet z"
    by (auto simp: rate_rel_def xfers_rel_def)
  then have "demod_ratio (dev_xfers t) = demod_ratio (dev_xfers s3)" by (simp add: demod_ratio_quiet)
  also have "\<dots> = Some w" unfolding s3(3) s2(5) by (rule ratio_written [OF w s2(3) s3(2)])
  finally show ?thesis .
qed

text \<open>What follows the store in \<open>rtlsdr_set_sample_rate\<close> keeps it.\<close>

lemma stored_rate:
  assumes "rate_supported rate" and run: "run_state (rtlsdr_set_sample_rate rate) s = (r, t)"
  defines "w \<equiv> u32_of_int (rsamp_ratio_raw (dev_rtl_xtal s) rate) AND 0x0ffffffc"
  shows "dev_rate t = u32_of_int (dtrunc (real_rate (dev_rtl_xtal s) (real_ratio w)))"
    and "usb_acks (dev_usb s) \<Longrightarrow> demod_ratio (dev_xfers t) = Some w"
proof -
  let ?v = "u32_of_int (dtrunc (real_rate (dev_rtl_xtal s) (real_ratio w)))"
  have w: "w < 4294967296" unfolding w_def and_ratio
    using mod_less_divisor [of "2 ^ 26" "u32_of_int (rsamp_ratio_raw (dev_rtl_xtal s) rate) div 4"] by simp
  obtain u where u: "run_state (program_rate w) (u\<lparr>dev_rate := ?v\<rparr>) = (r, t)" "dev_usb u = dev_usb s"
    using run assms(1) unfolding w_def by (auto simp: rtlsdr_set_sample_rate_def Let_def split: if_splits)
  show "dev_rate t = ?v" using program_rate_keeps [OF u(1)] by simp
  show "usb_acks (dev_usb s) \<Longrightarrow> demod_ratio (dev_xfers t) = Some w"
    using program_rate_writes [OF w _ u(1)] u(2) by simp
qed

text \<open>
  C38. A supported rate is programmed exactly: for every rate whose ratio lies in a range that
  the 28 bits of the register represent, \<open>rtlsdr_set_sample_rate\<close> stores that very rate; the
  ratio (with its sign bit restored) is the exact ratio without its two
  lowest bits; and on a bus that completes its transfers the four registers from 0x9f on of page 1 of the
  demodulator hold that ratio when the call returns, whatever the tuner and the offset tuning do in
  it. With the standard crystal of 28.8 MHz this covers every supported rate.
\<close>

theorem rtlsdr_rate_exact:
  assumes "rate_representable (dev_rtl_xtal s) rate \<or>
      rate_supported rate \<and> dev_rtl_xtal s = DEF_RTL_XTAL_FREQ"
    and run: "run_state (rtlsdr_set_sample_rate rate) s = (r, t)"
  shows "dev_rate t = rate \<and>
    (let raw = rsamp_ratio_raw (dev_rtl_xtal s) rate; w = u32_of_int raw AND 0x0ffffffc
     in int (real_ratio w) = raw - raw mod 4 \<and>
        (usb_acks (dev_usb s) \<longrightarrow> demod_ratio (dev_xfers t) = Some w))"
proof -
  let ?x = "dev_rtl_xtal s"
  have rep: "rate_representable ?x rate"
    using assms(1) by (auto simp: rate_representable_def rate_supported_def DEF_RTL_XTAL_FREQ_def)
  note b = rate_bounds [OF rep]
  let ?q = "ratio_of ?x rate"
  have raw: "rsamp_ratio_raw ?x rate = int ?q" using b by (intro raw_ratio) auto
  have q: "?q < 2 ^ 29" using ratio_range [OF rep] by auto
  then have m: "real_ratio (u32_of_int (int ?q) AND 0x0ffffffc) = 4 * (?q div 4)"
    using real_ratio_masked [OF ratio_range [OF rep]] by (simp add: u32_of_int_def nat_mod_as_int)
  have rt: "(?x * 4194304) div (4 * (?q div 4)) = rate" by (rule rate_from_ratio [OF rep])
  then have "0 < 4 * (?q div 4)" using b by (cases "4 * (?q div 4) = 0") auto
  then have d: "dtrunc (real_rate ?x (4 * (?q div 4))) = int rate"
    using b rt by (subst real_rate_div) auto
  have sup: "rate_supported rate" using rep by (simp add: rate_representable_def)
  have "dev_rate t = rate"
    using stored_rate(1) [OF sup run] b m d by (simp add: raw u32_of_int_def)
  moreover have "int (4 * (?q div 4)) = int ?q - int ?q mod 4"
    by (simp add: zdiv_int minus_mod_eq_mult_div)
  ultimately show ?thesis using m stored_rate(2) [OF sup run] by (simp add: raw Let_def)
qed

theorem rtlsdr_rate_exact_witness:
  "dev_rate (snd (run_state (rtlsdr_set_sample_rate 240000) example_dev)) = 240000 \<and>
   demod_ratio (dev_xfers (snd (run_state (rtlsdr_set_sample_rate 240000) example_dev))) \<noteq> None"
proof -
  obtain r t where run: "run_state (rtlsdr_set_sample_rate 240000) example_dev = (r, t)" by fastforce
  have "rate_supported 240000 \<and> dev_rtl_xtal example_dev = DEF_RTL_XTAL_FREQ"
    by (simp add: rate_supported_def DEF_RTL_XTAL_FREQ_def)
  moreover have "usb_acks (dev_usb example_dev)" by simp
  ultimately show ?thesis
    using rtlsdr_rate_exact [OF _ run] by (simp add: run Let_def)
qed

text \<open>
  With a crystal at the lower limit of \<open>rtlsdr_set_xtal_freq\<close> the highest rate of the
  low range is taken for another: the ratio for 300 kHz and 28.799 MHz needs bit 28 but not bit 27,
  the mask drops it, and the library stores (and the tuner's bandwidth is set for) 900062 samples
  per second, without an error.
\<close>

lemma rtlsdr_rate_misread:
  assumes "dev_rtl_xtal s = MIN_RTL_XTAL_FREQ"
  shows "dev_rate (snd (run_state (rtlsdr_set_sample_rate 300000) s)) = 900062"
proof -
  let ?x = "28799000"
  have x: "dev_rtl_xtal s = ?x"
    using assms by (simp add: MIN_RTL_XTAL_FREQ_def DEF_RTL_XTAL_FREQ_def)
  obtain r t where run: "run_state (rtlsdr_set_sample_rate 300000) s = (r, t)" by fastforce
  have raw: "rsamp_ratio_raw ?x 300000 = 402639202" by (simp add: raw_ratio ratio_of_def)
  have y: "u32_of_int 402639202 AND 0x0ffffffc = 134203744"
    unfolding and_ratio by (simp add: u32_of_int_def)
  have "real_ratio 134203744 = 134203744 OR push_bit 1 (134203744 AND 2 ^ 27)"
    by (simp add: real_ratio_def)
  also have "\<dots> = 134203744" unfolding and_exp_nat by (simp add: bit_nat_def)
  finally have rr: "real_ratio 134203744 = 134203744" .
  have "dtrunc (real_rate ?x 134203744) = 900062" by (simp add: real_rate_div)
  then have "dev_rate t = 900062"
    using stored_rate(1) [OF _ run] by (simp add: rate_supported_def x raw y rr u32_of_int_def)
  then show ?thesis by (simp add: run)
qed

lemma rtlsdr_rate_misread_example:
  "dev_rate (snd (run_state (rtlsdr_set_sample_rate 300000)
     (example_dev\<lparr>dev_rtl_xtal := 28799000\<rparr>))) = 900062"
  by (rule rtlsdr_rate_misread) (simp add: MIN_RTL_XTAL_FREQ_def DEF_RTL_XTAL_FREQ_def)

end
