(* ===== verification/UsbTypes.thy ===== *)
theory UsbTypes
  imports Prelude
begin

text \<open>
  The types that the parts of the bundled libusb share (\<open>libusb.h\<close>, \<open>libusbi.h\<close>, \<open>os/linux_usbfs.h\<close> and the private
  data of \<open>os/linux_usbfs.c\<close>): error codes, states of a transfer, and a transfer with the data that \<open>io.c\<close> and the
  Linux backend keep behind it.
\<close>

section \<open>Errors and states\<close>

definition LIBUSB_ERROR_IO :: int where "LIBUSB_ERROR_IO = -1"
definition LIBUSB_ERROR_INVALID_PARAM :: int where "LIBUSB_ERROR_INVALID_PARAM = -2"
definition LIBUSB_ERROR_NO_DEVICE :: int where "LIBUSB_ERROR_NO_DEVICE = -4"
definition LIBUSB_ERROR_NOT_FOUND :: int where "LIBUSB_ERROR_NOT_FOUND = -5"
definition LIBUSB_ERROR_BUSY :: int where "LIBUSB_ERROR_BUSY = -6"
definition LIBUSB_ERROR_TIMEOUT :: int where "LIBUSB_ERROR_TIMEOUT = -7"
definition LIBUSB_ERROR_OVERFLOW :: int where "LIBUSB_ERROR_OVERFLOW = -8"
definition LIBUSB_ERROR_PIPE :: int where "LIBUSB_ERROR_PIPE = -9"
definition LIBUSB_ERROR_INTERRUPTED :: int where "LIBUSB_ERROR_INTERRUPTED = -10"
definition LIBUSB_ERROR_NOT_SUPPORTED :: int where "LIBUSB_ERROR_NOT_SUPPORTED = -12"
definition LIBUSB_ERROR_OTHER :: int where "LIBUSB_ERROR_OTHER = -99"

lemmas usb_errors = LIBUSB_ERROR_IO_def LIBUSB_ERROR_INVALID_PARAM_def LIBUSB_ERROR_NO_DEVICE_def
  LIBUSB_ERROR_NOT_FOUND_def LIBUSB_ERROR_BUSY_def LIBUSB_ERROR_TIMEOUT_def LIBUSB_ERROR_OVERFLOW_def
  LIBUSB_ERROR_PIPE_def LIBUSB_ERROR_INTERRUPTED_def LIBUSB_ERROR_NOT_SUPPORTED_def LIBUSB_ERROR_OTHER_def

datatype xfer_status = TRANSFER_COMPLETED | TRANSFER_ERROR | TRANSFER_TIMED_OUT
  | TRANSFER_CANCELLED | TRANSFER_STALL | TRANSFER_NO_DEVICE | TRANSFER_OVERFLOW

text \<open>The values of \<open>flags\<close>: of a transfer, and of its internal part.\<close>

datatype xfer_flag = SHORT_NOT_OK | FREE_BUFFER | FREE_TRANSFER | ADD_ZERO_PACKET

datatype flight_flag = TIMED_OUT | OS_HANDLES_TIMEOUT | CANCELLING | DEVICE_DISAPPEARED | SUBMITTING
  | IN_FLIGHT | COMPLETED

definition TYPE_CONTROL :: nat where "TYPE_CONTROL = 0"
definition TYPE_ISOCHRONOUS :: nat where "TYPE_ISOCHRONOUS = 1"
definition TYPE_BULK :: nat where "TYPE_BULK = 2"
definition TYPE_INTERRUPT :: nat where "TYPE_INTERRUPT = 3"
definition TYPE_BULK_STREAM :: nat where "TYPE_BULK_STREAM = 4"

lemmas transfer_types = TYPE_CONTROL_def TYPE_ISOCHRONOUS_def TYPE_BULK_def TYPE_INTERRUPT_def TYPE_BULK_STREAM_def

section \<open>URBs\<close>

text \<open>
  A request block of usbfs. \<open>u_offset\<close> is the distance of \<open>buffer\<close> from the buffer of the transfer; \<open>u_packets\<close>
  are the lengths of its isochronous packets.
\<close>

datatype urb_flag = URB_SHORT_NOT_OK | URB_ISO_ASAP | URB_BULK_CONTINUATION | URB_ZERO_PACKET

datatype urb_type = URB_ISO | URB_INTERRUPT | URB_CONTROL | URB_BULK

record urb =
  u_type :: urb_type
  u_endpoint :: u8
  u_flags :: "urb_flag set"
  u_offset :: nat
  u_length :: nat
  u_stream_id :: "32 word"
  u_packets :: "nat list"

datatype reap_action = NORMAL | SUBMIT_FAILED | CANCELLED | COMPLETED_EARLY | ERROR

section \<open>Transfers\<close>

record iso_packet =
  iso_length :: nat
  iso_actual_length :: nat
  iso_status :: xfer_status

text \<open>
  \<open>libusb_transfer\<close> (\<open>x_\<close>), \<open>usbi_transfer\<close> (\<open>it_\<close>) and \<open>linux_transfer_priv\<close> (\<open>tp_\<close>, where \<open>urbs\<close> is \<open>None\<close> for
  NULL). A time is a pair of seconds and microseconds. \<open>x_ub\<close> is set when the code reads freed URBs, or copies outside the buffer.
\<close>

record xfer =
  x_dev_handle :: nat
  x_flags :: "xfer_flag set"
  x_endpoint :: u8
  x_type :: nat
  x_timeout :: nat
  x_status :: xfer_status
  x_length :: nat
  x_actual_length :: nat
  x_buffer :: "u8 list"
  x_iso :: "iso_packet list"
  it_timeout :: "nat \<times> nat"
  it_transferred :: nat
  it_stream_id :: "32 word"
  it_flags :: "flight_flag set"
  tp_urbs :: "urb list option"
  tp_urbs_id :: nat \<comment> \<open>which of the arrays allocated for the transfer \<open>urbs\<close> is\<close>
  tp_reap_action :: reap_action
  tp_num_urbs :: nat
  tp_num_retired :: nat
  tp_reap_status :: xfer_status
  tp_iso_packet_offset :: nat
  x_ub :: bool

text \<open>\<open>libusb_alloc_transfer\<close>: everything is zero, with so many packet descriptors.\<close>

definition libusb_alloc_transfer :: "nat \<Rightarrow> xfer" where
  "libusb_alloc_transfer iso_packets = \<lparr>x_dev_handle = 0, x_flags = {}, x_endpoint = 0, x_type = 0, x_timeout = 0,
     x_status = TRANSFER_COMPLETED, x_length = 0, x_actual_length = 0, x_buffer = [],
     x_iso = replicate iso_packets \<lparr>iso_length = 0, iso_actual_length = 0, iso_status = TRANSFER_COMPLETED\<rparr>,
     it_timeout = (0, 0), it_transferred = 0, it_stream_id = 0, it_flags = {}, tp_urbs = None, tp_urbs_id = 0,
     tp_reap_action = NORMAL, tp_num_urbs = 0, tp_num_retired = 0, tp_reap_status = TRANSFER_COMPLETED,
     tp_iso_packet_offset = 0, x_ub = False\<rparr>"

definition libusb_transfer_set_stream_id :: "32 word \<Rightarrow> xfer \<Rightarrow> xfer" where
  "libusb_transfer_set_stream_id stream_id x = x\<lparr>it_stream_id := stream_id\<rparr>"

definition libusb_transfer_get_stream_id :: "xfer \<Rightarrow> 32 word" where
  "libusb_transfer_get_stream_id x = it_stream_id x"

end
