(* ===== verification/Streaming.thy ===== *)
theory Streaming
  imports RtlsdrOpen UsbTypes
begin

text \<open>
  Asynchronous streaming of \<open>librtlsdr.c\<close>: \<open>rtlsdr_read_async\<close> with its transfers and
  buffers, \<open>_libusb_callback\<close>, \<open>rtlsdr_cancel_async\<close> and the wait of \<open>rtlsdr_close\<close>. The state
  is the device with its array of transfers; a location says where the reading thread is. What
  libusb answers to each call, the transfers it completes meanwhile and the cancellations of other
  threads are given by an \<open>answer\<close> per call, so a run is a list of answers.
\<close>

section \<open>Transfers and buffers\<close>

text \<open>What libusb knows of a transfer: not submitted, in flight, in flight and cancelled.\<close>

datatype flight = Idle | In_flight | Cancelling

text \<open>
  The device with \<open>dev->xfer\<close> (\<open>None\<close> is NULL), the lengths of \<open>dev->xfer_buf\<close>, and what
  the client's callback was given, newest first.
\<close>

record streaming =
  st_dev :: rtlsdr_dev
  st_xfer :: "(xfer_status \<times> flight) list option"
  st_buf :: "nat list option"
  st_delivered :: "u8 list list"

abbreviation async_status :: "streaming \<Rightarrow> rtlsdr_async_status" where
  "async_status s \<equiv> dev_async_status (st_dev s)"

definition upd_dev :: "(rtlsdr_dev \<Rightarrow> rtlsdr_dev) \<Rightarrow> streaming \<Rightarrow> streaming" where
  "upd_dev f s = s\<lparr>st_dev := f (st_dev s)\<rparr>"

lemma upd_dev_simps [simp]:
  "st_dev (upd_dev f s) = f (st_dev s)" "st_xfer (upd_dev f s) = st_xfer s"
  "st_buf (upd_dev f s) = st_buf s" "st_delivered (upd_dev f s) = st_delivered s"
  by (simp_all add: upd_dev_def)

definition xfers :: "streaming \<Rightarrow> (xfer_status \<times> flight) list" where
  "xfers s = (case st_xfer s of None \<Rightarrow> [] | Some l \<Rightarrow> l)"

definition set_xfer :: "nat \<Rightarrow> xfer_status \<times> flight \<Rightarrow> streaming \<Rightarrow> streaming" where
  "set_xfer i x s = s\<lparr>st_xfer := map_option (\<lambda>l. l[i := x]) (st_xfer s)\<rparr>"

lemma set_xfer_simps [simp]:
  "st_dev (set_xfer i x s) = st_dev s" "xfers (set_xfer i x s) = (xfers s)[i := x]"
  "st_buf (set_xfer i x s) = st_buf s" "st_delivered (set_xfer i x s) = st_delivered s"
  "st_xfer (set_xfer i x s) = map_option (\<lambda>l. l[i := x]) (st_xfer s)"
  by (simp_all add: set_xfer_def xfers_def split: option.splits)

lemma xfers_upd_dev [simp]: "xfers (upd_dev f s) = xfers s"
  by (simp add: xfers_def)

definition DEFAULT_BUF_NUMBER :: nat where "DEFAULT_BUF_NUMBER = 15"
definition DEFAULT_BUF_LENGTH :: nat where "DEFAULT_BUF_LENGTH = 16 * 32 * 512"

text \<open>A transfer is allocated zeroed: its status reads as completed.\<close>

definition rtlsdr_alloc_async_buffers :: "streaming \<Rightarrow> streaming" where
  "rtlsdr_alloc_async_buffers s = s\<lparr>
     st_xfer := (case st_xfer s of None \<Rightarrow>
         Some (replicate (dev_xfer_buf_num (st_dev s)) (TRANSFER_COMPLETED, Idle)) | Some l \<Rightarrow> Some l),
     st_buf := (case st_buf s of None \<Rightarrow>
         Some (replicate (dev_xfer_buf_num (st_dev s)) (dev_xfer_buf_len (st_dev s))) | Some l \<Rightarrow> Some l)\<rparr>"

text \<open>Freeing a transfer that libusb still has in flight is undefined.\<close>

definition rtlsdr_free_async_buffers :: "streaming \<Rightarrow> streaming" where
  "rtlsdr_free_async_buffers s = upd_dev (\<lambda>d. if \<exists>x\<in>set (xfers s). snd x \<noteq> Idle
       then d\<lparr>dev_ub := True\<rparr> else d) (s\<lparr>st_xfer := None, st_buf := None\<rparr>)"

section \<open>Cancellation and the callback\<close>

definition rtlsdr_cancel_async :: "streaming \<Rightarrow> int \<times> streaming" where
  "rtlsdr_cancel_async s =
     (if async_status s = RTLSDR_RUNNING
      then (0, upd_dev (\<lambda>d. d\<lparr>dev_async_status := RTLSDR_CANCELING, dev_async_cancel := True\<rparr>) s)
      else (-2, s))"

text \<open>\<open>libusb_submit_transfer\<close> with the result \<open>rc\<close>.\<close>

definition submit :: "int \<Rightarrow> nat \<Rightarrow> streaming \<Rightarrow> streaming" where
  "submit rc i s = (if rc < 0 then s else set_xfer i (fst (xfers s ! i), In_flight) s)"

definition libusb_callback :: "nat \<Rightarrow> xfer_status \<Rightarrow> u8 list \<Rightarrow> int \<Rightarrow> streaming \<Rightarrow> streaming" where
  "libusb_callback i status buffer rc s =
     (if status = TRANSFER_COMPLETED then
        upd_dev (\<lambda>d. d\<lparr>dev_xfer_errors := 0\<rparr>)
          (submit rc i (s\<lparr>st_delivered := buffer # st_delivered s\<rparr>))
      else if status \<noteq> TRANSFER_CANCELLED then
        (let s1 = (if status = TRANSFER_ERROR
               then upd_dev (\<lambda>d. d\<lparr>dev_xfer_errors := u32 (dev_xfer_errors d + 1)\<rparr>) s else s)
         in if dev_xfer_buf_num (st_dev s1) \<le> dev_xfer_errors (st_dev s1) \<or>
               status = TRANSFER_NO_DEVICE
            then snd (rtlsdr_cancel_async (upd_dev (\<lambda>d. d\<lparr>dev_lost := True\<rparr>) s1))
            else s1)
      else s)"

section \<open>The answers of libusb\<close>

text \<open>
  While events are handled libusb completes transfers in flight (with a status, the data, and
  the result of the resubmission), and other threads or the client's callback call
  \<open>rtlsdr_cancel_async\<close>.
\<close>

datatype event = Done nat xfer_status "u8 list" int | Cancel_call

fun libusb_event :: "event \<Rightarrow> streaming \<Rightarrow> streaming" where
  "libusb_event (Done i status buffer rc) s =
     (if i < length (xfers s) \<and> snd (xfers s ! i) \<noteq> Idle
      then libusb_callback i status buffer rc (set_xfer i (status, Idle) s) else s)"
| "libusb_event Cancel_call s = snd (rtlsdr_cancel_async s)"

text \<open>
  \<open>libusb_cancel_transfer\<close> answers \<open>LIBUSB_ERROR_NOT_FOUND\<close> for a transfer that is not in
  flight or that was cancelled before.
\<close>

definition libusb_cancel :: "int \<Rightarrow> nat \<Rightarrow> streaming \<Rightarrow> int \<times> streaming" where
  "libusb_cancel rc i s = (case xfers s ! i of (st, f) \<Rightarrow>
     if f = In_flight then (rc, set_xfer i (st, Cancelling) s) else (-5, s))"

record answer =
  ans_rc :: int
  ans_events :: "event list"
  ans_cancel :: int

definition handle :: "answer \<Rightarrow> streaming \<Rightarrow> streaming" where
  "handle a s = fold libusb_event (ans_events a) s"

section \<open>The reading loop\<close>

text \<open>
  Where \<open>rtlsdr_read_async\<close> is: at the head of its loop, at transfer \<open>k\<close> of the
  cancellation, or returned; with its locals \<open>r\<close> and \<open>next_status\<close>.
\<close>

datatype loc = L_events int rtlsdr_async_status | L_cancel nat int rtlsdr_async_status | L_done int

text \<open>The submissions, with the results that libusb gives; the first failure ends them.\<close>

fun submit_all :: "int list \<Rightarrow> nat \<Rightarrow> int \<Rightarrow> streaming \<Rightarrow> int \<times> streaming" where
  "submit_all [] i r s = (r, s)"
| "submit_all (rc # rcs) i r s =
     (if rc < 0 then (rc, upd_dev (\<lambda>d. d\<lparr>dev_async_status := RTLSDR_CANCELING\<rparr>) s)
      else submit_all rcs (i + 1) rc (submit rc i s))"

definition async_setup :: "nat \<Rightarrow> nat \<Rightarrow> rtlsdr_dev \<Rightarrow> rtlsdr_dev" where
  "async_setup buf_num buf_len d = d\<lparr>
     dev_async_status := RTLSDR_RUNNING, dev_async_cancel := False,
     dev_xfer_buf_num := (if buf_num > 0 then buf_num else DEFAULT_BUF_NUMBER),
     dev_xfer_buf_len := (if buf_len > 0 \<and> buf_len mod 512 = 0 then buf_len else DEFAULT_BUF_LENGTH)\<rparr>"

definition async_finish :: "int \<Rightarrow> rtlsdr_async_status \<Rightarrow> streaming \<Rightarrow> loc \<times> streaming" where
  "async_finish r next_status s = (L_done r,
     upd_dev (\<lambda>d. d\<lparr>dev_async_status := next_status\<rparr>) (rtlsdr_free_async_buffers s))"

definition loop_head :: "int \<Rightarrow> rtlsdr_async_status \<Rightarrow> streaming \<Rightarrow> loc \<times> streaming" where
  "loop_head r next_status s = (if async_status s \<noteq> RTLSDR_INACTIVE then (L_events r next_status, s)
     else async_finish r next_status s)"

definition rtlsdr_read_async :: "nat \<Rightarrow> nat \<Rightarrow> (nat \<Rightarrow> int) \<Rightarrow> streaming \<Rightarrow> loc \<times> streaming" where
  "rtlsdr_read_async buf_num buf_len rcs s =
     (if async_status s \<noteq> RTLSDR_INACTIVE then (L_done (-2), s)
      else
        let s1 = rtlsdr_alloc_async_buffers (upd_dev (async_setup buf_num buf_len) s);
            (r, s2) = submit_all (map rcs [0..<dev_xfer_buf_num (st_dev s1)]) 0 0 s1
        in loop_head r RTLSDR_INACTIVE s2)"

definition rtlsdr_wait_async :: "(nat \<Rightarrow> int) \<Rightarrow> streaming \<Rightarrow> loc \<times> streaming" where
  "rtlsdr_wait_async rcs s = rtlsdr_read_async 0 0 rcs s"


fun async_next :: "answer \<Rightarrow> loc \<times> streaming \<Rightarrow> loc \<times> streaming" where
  "async_next a (L_done r, s) = (L_done r, s)"
| "async_next a (L_events r next_status, s) =
     (let t = handle a s; r = ans_rc a
      in if r < 0 then
           (if r = LIBUSB_ERROR_INTERRUPTED then loop_head r next_status t
            else async_finish r next_status t)
         else if async_status t = RTLSDR_CANCELING then
           (if st_xfer t = None then async_finish r RTLSDR_INACTIVE t
            else (L_cancel 0 r RTLSDR_INACTIVE, t))
         else loop_head r next_status t)"
| "async_next a (L_cancel k r next_status, s) =
     (if k < dev_xfer_buf_num (st_dev s) then
        (if fst (xfers s ! k) \<noteq> TRANSFER_CANCELLED then
           (case libusb_cancel (ans_cancel a) k s of (r, t) \<Rightarrow>
              (L_cancel (k + 1) r (if r < 0 then next_status else RTLSDR_CANCELING), handle a t))
         else (L_cancel (k + 1) r next_status, s))
      else if dev_lost (st_dev s) \<or> next_status = RTLSDR_INACTIVE
        then async_finish r next_status (handle a s)
        else loop_head r next_status s)"

definition run_async :: "answer list \<Rightarrow> loc \<times> streaming \<Rightarrow> loc \<times> streaming" where
  "run_async as c = fold async_next as c"

text \<open>The wait of \<open>rtlsdr_close\<close>: it polls as long as this holds, then shuts the device down.\<close>

definition rtlsdr_close_waits :: "streaming \<Rightarrow> bool" where
  "rtlsdr_close_waits s \<longleftrightarrow> \<not> dev_lost (st_dev s) \<and> async_status s \<noteq> RTLSDR_INACTIVE"

end
