(* ===== verification/StreamingInv.thy ===== *)
theory StreamingInv
  imports Streaming
begin

text \<open>
  What holds of the streaming in every reachable state, and that a cancelled stream ends.
\<close>

section \<open>What handling events changes\<close>

definition all_idle :: "streaming \<Rightarrow> bool" where
  "all_idle s \<longleftrightarrow> (\<forall>i<length (xfers s). snd (xfers s ! i) = Idle)"

definition none_cancelling :: "streaming \<Rightarrow> bool" where
  "none_cancelling s \<longleftrightarrow> (\<forall>i<length (xfers s). snd (xfers s ! i) \<noteq> Cancelling)"

definition cancelled_idle :: "streaming \<Rightarrow> bool" where
  "cancelled_idle s \<longleftrightarrow> (\<forall>i<length (xfers s). fst (xfers s ! i) = TRANSFER_CANCELLED \<longrightarrow> snd (xfers s ! i) = Idle)"

text \<open>Events keep the buffers, never start an idle transfer, and only ever begin a cancellation.\<close>

definition frame_rel :: "streaming \<Rightarrow> streaming \<Rightarrow> bool" where
  "frame_rel s t \<longleftrightarrow> (st_xfer t = None \<longleftrightarrow> st_xfer s = None) \<and> length (xfers t) = length (xfers s) \<and>
     st_buf t = st_buf s \<and> dev_xfer_buf_num (st_dev t) = dev_xfer_buf_num (st_dev s) \<and>
     dev_xfer_buf_len (st_dev t) = dev_xfer_buf_len (st_dev s) \<and>
     dev_ub (st_dev t) = dev_ub (st_dev s) \<and> (dev_lost (st_dev s) \<longrightarrow> dev_lost (st_dev t))"

definition status_rel :: "streaming \<Rightarrow> streaming \<Rightarrow> bool" where
  "status_rel s t \<longleftrightarrow> async_status t = async_status s \<or>
     async_status s = RTLSDR_RUNNING \<and> async_status t = RTLSDR_CANCELING"

definition xfer_rel :: "streaming \<Rightarrow> streaming \<Rightarrow> bool" where
  "xfer_rel s t \<longleftrightarrow> (\<forall>i<length (xfers s).
     (snd (xfers s ! i) = Idle \<longrightarrow> xfers t ! i = xfers s ! i) \<and>
     (snd (xfers s ! i) \<noteq> Cancelling \<longrightarrow> snd (xfers t ! i) \<noteq> Cancelling)) \<and>
     (cancelled_idle s \<longrightarrow> cancelled_idle t)"

definition ev_rel :: "streaming \<Rightarrow> streaming \<Rightarrow> bool" where
  "ev_rel s t \<longleftrightarrow> frame_rel s t \<and> status_rel s t \<and> xfer_rel s t"

lemma ev_rel_refl: "ev_rel s s"
  by (simp add: ev_rel_def frame_rel_def status_rel_def xfer_rel_def)

lemma frame_rel_trans: "frame_rel s t \<Longrightarrow> frame_rel t u \<Longrightarrow> frame_rel s u"
  by (simp add: frame_rel_def)

lemma ev_rel_trans:
  assumes "ev_rel s t" "ev_rel t u" shows "ev_rel s u"
proof -
  have len: "length (xfers t) = length (xfers s)" using assms by (simp add: ev_rel_def frame_rel_def)
  have "frame_rel s u" using assms frame_rel_trans by (auto simp: ev_rel_def)
  moreover have "status_rel s u" using assms by (auto simp: ev_rel_def status_rel_def)
  moreover have "xfer_rel s u" using assms len by (simp add: ev_rel_def xfer_rel_def)
  ultimately show ?thesis by (simp add: ev_rel_def)
qed

lemma frame_upd_dev:
  "(\<And>d. dev_xfer_buf_num (f d) = dev_xfer_buf_num d \<and> dev_xfer_buf_len (f d) = dev_xfer_buf_len d \<and>
     dev_ub (f d) = dev_ub d \<and> (dev_lost d \<longrightarrow> dev_lost (f d))) \<Longrightarrow> frame_rel s (upd_dev f s)"
  by (simp add: frame_rel_def)

lemma xfer_upd_dev: "xfer_rel s (upd_dev f s)"
  by (simp add: xfer_rel_def cancelled_idle_def)

lemma ev_cancel: "ev_rel s (snd (rtlsdr_cancel_async s))"
proof (cases "async_status s = RTLSDR_RUNNING")
  case True
  then show ?thesis
    by (auto simp: rtlsdr_cancel_async_def ev_rel_def status_rel_def intro!: frame_upd_dev xfer_upd_dev)
qed (simp add: rtlsdr_cancel_async_def ev_rel_refl)

lemma ev_upd_dev:
  "(\<And>d. dev_xfer_buf_num (f d) = dev_xfer_buf_num d \<and> dev_xfer_buf_len (f d) = dev_xfer_buf_len d \<and>
     dev_ub (f d) = dev_ub d \<and> (dev_lost d \<longrightarrow> dev_lost (f d)) \<and>
     dev_async_status (f d) = dev_async_status d) \<Longrightarrow> ev_rel s (upd_dev f s)"
  by (simp add: ev_rel_def status_rel_def frame_upd_dev xfer_upd_dev)

lemma ev_upd_step: "ev_rel s t \<Longrightarrow> (\<And>d. dev_xfer_buf_num (f d) = dev_xfer_buf_num d \<and>
     dev_xfer_buf_len (f d) = dev_xfer_buf_len d \<and> dev_ub (f d) = dev_ub d \<and>
     (dev_lost d \<longrightarrow> dev_lost (f d)) \<and> dev_async_status (f d) = dev_async_status d) \<Longrightarrow>
   ev_rel s (upd_dev f t)"
  by (rule ev_rel_trans [OF _ ev_upd_dev]) auto

text \<open>Completing a transfer, with and without resubmission.\<close>

lemma ev_complete:
  assumes "i < length (xfers s)" "snd (xfers s ! i) \<noteq> Idle"
  shows "ev_rel s (set_xfer i (st, Idle) s)"
  using assms by (auto simp: ev_rel_def frame_rel_def status_rel_def xfer_rel_def cancelled_idle_def nth_list_update)

lemma ev_resubmit:
  assumes "i < length (xfers s)" "snd (xfers s ! i) \<noteq> Idle"
  shows "ev_rel s (submit rc i ((set_xfer i (TRANSFER_COMPLETED, Idle) s)\<lparr>st_delivered := b\<rparr>))"
proof -
  have [simp]: "xfers (u\<lparr>st_delivered := b\<rparr>) = xfers u" for u
    by (simp add: xfers_def)
  have [simp]: "(st_xfer (set_xfer i x u) = None) = (st_xfer u = None)" for i x u
    by (simp add: set_xfer_def)
  show ?thesis using assms
    by (auto simp: submit_def ev_rel_def frame_rel_def status_rel_def xfer_rel_def
      cancelled_idle_def nth_list_update)
qed

lemma ev_event: "ev_rel s (libusb_event e s)"
proof (cases e)
  case (Done i st buffer rc)
  show ?thesis
  proof (cases "i < length (xfers s) \<and> snd (xfers s ! i) \<noteq> Idle")
    case True
    note c = ev_complete [OF True [THEN conjunct1] True [THEN conjunct2], of st]
    note r = ev_resubmit [OF True [THEN conjunct1] True [THEN conjunct2], of rc]
    show ?thesis
    proof (cases "st = TRANSFER_COMPLETED")
      case C: True
      then show ?thesis using True Done r
        by (auto simp: libusb_callback_def intro!: ev_upd_step)
    next
      case False
      then show ?thesis using True Done c
        by (auto simp: libusb_callback_def Let_def
          intro!: ev_upd_step ev_rel_trans [OF _ ev_cancel])
    qed
  qed (use Done in \<open>auto simp: ev_rel_refl\<close>)
qed (simp add: ev_cancel)

lemma ev_fold: "ev_rel s (fold libusb_event es s)"
proof (induction es arbitrary: s)
  case (Cons e es)
  show ?case using ev_rel_trans [OF ev_event Cons.IH] by simp
qed (simp add: ev_rel_refl)

lemma ev_handle: "ev_rel s (handle a s)"
  by (simp add: handle_def ev_fold)

section \<open>The invariant\<close>

definition buffers_ok :: "streaming \<Rightarrow> bool" where
  "buffers_ok s \<longleftrightarrow> st_xfer s \<noteq> None \<and> length (xfers s) = dev_xfer_buf_num (st_dev s) \<and>
     0 < dev_xfer_buf_num (st_dev s) \<and>
     st_buf s = Some (replicate (dev_xfer_buf_num (st_dev s)) (dev_xfer_buf_len (st_dev s))) \<and>
     0 < dev_xfer_buf_len (st_dev s) \<and> dev_xfer_buf_len (st_dev s) mod 512 = 0 \<and>
     cancelled_idle s"

fun async_inv :: "loc \<times> streaming \<Rightarrow> bool" where
  "async_inv (L_events r next_status, s) \<longleftrightarrow> buffers_ok s \<and>
     (async_status s = RTLSDR_RUNNING \<and> next_status = RTLSDR_INACTIVE \<and> none_cancelling s \<or>
      async_status s = RTLSDR_CANCELING \<and> next_status \<noteq> RTLSDR_RUNNING)"
| "async_inv (L_cancel k r next_status, s) \<longleftrightarrow> buffers_ok s \<and> k \<le> dev_xfer_buf_num (st_dev s) \<and>
     async_status s = RTLSDR_CANCELING \<and> next_status \<noteq> RTLSDR_RUNNING"
| "async_inv (L_done r, s) \<longleftrightarrow> st_xfer s = None \<and> st_buf s = None \<and>
     (async_status s = RTLSDR_INACTIVE \<or>
      async_status s = RTLSDR_CANCELING \<and>
        (dev_lost (st_dev s) \<or> r < 0 \<and> r \<noteq> LIBUSB_ERROR_INTERRUPTED))"

definition async_idle :: "streaming \<Rightarrow> bool" where
  "async_idle s \<longleftrightarrow> async_status s = RTLSDR_INACTIVE \<and> st_xfer s = None \<and> st_buf s = None"

lemma buffers_rel: "ev_rel s t \<Longrightarrow> buffers_ok s \<Longrightarrow> buffers_ok t"
  by (auto simp: ev_rel_def frame_rel_def xfer_rel_def buffers_ok_def)

lemma none_cancelling_rel: "ev_rel s t \<Longrightarrow> none_cancelling s \<Longrightarrow> none_cancelling t"
  by (auto simp: ev_rel_def frame_rel_def xfer_rel_def none_cancelling_def)

lemma all_idle_rel: "ev_rel s t \<Longrightarrow> all_idle s \<Longrightarrow> all_idle t"
  by (auto simp: ev_rel_def frame_rel_def xfer_rel_def all_idle_def)

lemma status_relD:
  "ev_rel s t \<Longrightarrow> async_status s = RTLSDR_CANCELING \<Longrightarrow> async_status t = RTLSDR_CANCELING"
  "ev_rel s t \<Longrightarrow> async_status s = RTLSDR_RUNNING \<Longrightarrow> async_status t \<noteq> RTLSDR_INACTIVE"
  by (auto simp: ev_rel_def status_rel_def)

lemma all_idle_set: "all_idle s \<longleftrightarrow> \<not> (\<exists>x\<in>set (xfers s). snd x \<noteq> Idle)"
  by (simp add: all_idle_def all_set_conv_all_nth)

lemma async_finish_simps:
  "async_finish r n s = (L_done r, snd (async_finish r n s))"
  "async_status (snd (async_finish r n s)) = n"
  "st_xfer (snd (async_finish r n s)) = None" "st_buf (snd (async_finish r n s)) = None"
  "dev_lost (st_dev (snd (async_finish r n s))) = dev_lost (st_dev s)"
  "dev_ub (st_dev (snd (async_finish r n s))) = (dev_ub (st_dev s) \<or> \<not> all_idle s)"
  by (simp_all add: async_finish_def rtlsdr_free_async_buffers_def all_idle_set)

lemma async_inv_finish:
  "n = RTLSDR_INACTIVE \<or> n = RTLSDR_CANCELING \<and> (dev_lost (st_dev s) \<or> r < 0 \<and> r \<noteq> LIBUSB_ERROR_INTERRUPTED) \<Longrightarrow>
   async_inv (async_finish r n s)"
  by (subst async_finish_simps(1)) (auto simp: async_finish_simps(2-))

text \<open>At the head of the loop the status is never \<open>RTLSDR_INACTIVE\<close>.\<close>

lemma loop_head_on: "async_status s \<noteq> RTLSDR_INACTIVE \<Longrightarrow> loop_head r n s = (L_events r n, s)"
  by (simp add: loop_head_def)

lemma libusb_cancel_ok:
  assumes "libusb_cancel rc k s = (r, t)" "buffers_ok s" "k < length (xfers s)"
    "fst (xfers s ! k) \<noteq> TRANSFER_CANCELLED"
  shows "buffers_ok t \<and> st_dev t = st_dev s"
  using assms
  by (auto simp: libusb_cancel_def buffers_ok_def cancelled_idle_def nth_list_update
    split: prod.splits if_splits)

lemma async_inv_events:
  assumes "async_inv (L_events r n, s)" shows "async_inv (async_next a (L_events r n, s))"
proof -
  let ?t = "handle a s"
  have t: "buffers_ok ?t" "async_status ?t \<noteq> RTLSDR_INACTIVE"
    using assms buffers_rel [OF ev_handle] status_relD [OF ev_handle, of s a] by auto
  have inv: "async_inv (L_events r' n, ?t)" for r'
  proof (cases "async_status s = RTLSDR_RUNNING")
    case True
    then show ?thesis using assms t none_cancelling_rel [OF ev_handle [of s a]]
      by (cases "async_status ?t") auto
  qed (use assms t status_relD(1) [OF ev_handle, of s a] in auto)
  have "n \<noteq> RTLSDR_RUNNING" using assms by auto
  then have fin: "async_inv (async_finish (ans_rc a) n ?t)"
    if "ans_rc a < 0" "ans_rc a \<noteq> LIBUSB_ERROR_INTERRUPTED"
    using that by (intro async_inv_finish) (cases n; simp)
  have "st_xfer ?t \<noteq> None" using t by (simp add: buffers_ok_def)
  then show ?thesis using inv fin t by (auto simp: Let_def loop_head_on)
qed

lemma async_inv_cancel:
  assumes "async_inv (L_cancel k r n, s)" shows "async_inv (async_next a (L_cancel k r n, s))"
proof (cases "k < dev_xfer_buf_num (st_dev s)")
  case True
  show ?thesis
  proof (cases "fst (xfers s ! k) = TRANSFER_CANCELLED")
    case False
    obtain rc t where c: "libusb_cancel (ans_cancel a) k s = (rc, t)" by fastforce
    have t: "buffers_ok t" "st_dev t = st_dev s"
      using libusb_cancel_ok [OF c _ _ False] assms True by (auto simp: buffers_ok_def)
    have "dev_xfer_buf_num (st_dev (handle a t)) = dev_xfer_buf_num (st_dev t)"
      using ev_handle [of t a] by (simp add: ev_rel_def frame_rel_def)
    then show ?thesis using True False c t assms buffers_rel [OF ev_handle t(1)]
        status_relD(1) [OF ev_handle, of t a] by simp
  qed (use assms True in auto)
next
  case False
  have "dev_lost (st_dev (handle a s))" if "dev_lost (st_dev s)"
    using ev_handle [of s a] that by (simp add: ev_rel_def frame_rel_def)
  then show ?thesis using False assms
    by (cases n) (auto simp: loop_head_on intro!: async_inv_finish)
qed

lemma async_inv_next: "async_inv c \<Longrightarrow> async_inv (async_next a c)"
proof (cases c)
  case (Pair l s)
  then show "async_inv c \<Longrightarrow> async_inv (async_next a c)"
    by (cases l) (auto intro: async_inv_events async_inv_cancel simp del: async_next.simps(2,3) async_inv.simps(1,2))
qed

lemma async_inv_run: "async_inv c \<Longrightarrow> async_inv (run_async as c)"
  unfolding run_async_def by (induction as arbitrary: c) (simp_all add: async_inv_next)

section \<open>The start\<close>

lemma submit_all_inv:
  assumes "buffers_ok s" "none_cancelling s" "async_status s = RTLSDR_RUNNING"
    "\<forall>j<length (xfers s). fst (xfers s ! j) = TRANSFER_COMPLETED"
    "i + length rcs \<le> length (xfers s)" "submit_all rcs i r s = (r', t)"
  shows "buffers_ok t \<and> none_cancelling t \<and> async_status t \<noteq> RTLSDR_INACTIVE"
  using assms
proof (induction rcs arbitrary: i r s)
  case (Cons rc rcs)
  show ?case
  proof (cases "rc < 0")
    case True
    then show ?thesis using Cons.prems by (auto simp: buffers_ok_def none_cancelling_def cancelled_idle_def)
  next
    case False
    have "buffers_ok (submit rc i s)" "none_cancelling (submit rc i s)"
      "async_status (submit rc i s) = RTLSDR_RUNNING"
      "\<forall>j<length (xfers (submit rc i s)). fst (xfers (submit rc i s) ! j) = TRANSFER_COMPLETED"
      "i + 1 + length rcs \<le> length (xfers (submit rc i s))"
      using Cons.prems False
      by (auto simp: buffers_ok_def none_cancelling_def cancelled_idle_def submit_def nth_list_update)
    then show ?thesis using Cons.IH [of "submit rc i s" "i + 1" rc] Cons.prems(6) False by simp
  qed
qed auto

lemma async_inv_start:
  assumes "async_idle s" shows "async_inv (rtlsdr_read_async n l rcs s)"
proof -
  define s1 where "s1 = rtlsdr_alloc_async_buffers (upd_dev (async_setup n l) s)"
  have x1: "xfers s1 = replicate (dev_xfer_buf_num (st_dev s1)) (TRANSFER_COMPLETED, Idle)"
    using assms by (simp add: s1_def async_idle_def rtlsdr_alloc_async_buffers_def xfers_def)
  have "dev_xfer_buf_num (st_dev s1) > 0" "dev_xfer_buf_len (st_dev s1) > 0"
      "dev_xfer_buf_len (st_dev s1) mod 512 = 0" "st_xfer s1 \<noteq> None"
      "st_buf s1 = Some (replicate (dev_xfer_buf_num (st_dev s1)) (dev_xfer_buf_len (st_dev s1)))"
    using assms by (auto simp: s1_def async_idle_def rtlsdr_alloc_async_buffers_def async_setup_def
      DEFAULT_BUF_NUMBER_def DEFAULT_BUF_LENGTH_def)
  then have s1: "buffers_ok s1" "none_cancelling s1"
    by (simp_all add: buffers_ok_def none_cancelling_def cancelled_idle_def x1)
  have run: "async_status s1 = RTLSDR_RUNNING"
    by (simp add: s1_def rtlsdr_alloc_async_buffers_def async_setup_def)
  obtain r t where sub: "submit_all (map rcs [0..<dev_xfer_buf_num (st_dev s1)]) 0 0 s1 = (r, t)"
    by fastforce
  have "buffers_ok t \<and> none_cancelling t \<and> async_status t \<noteq> RTLSDR_INACTIVE"
    using x1 by (intro submit_all_inv [OF s1 run _ _ sub]) auto
  then show ?thesis using assms sub
    by (cases "async_status t") (auto simp: rtlsdr_read_async_def async_idle_def s1_def Let_def loop_head_def)
qed

text \<open>
  C2. The invariant of the streaming: from an idle device, whatever libusb answers and
  whenever other threads cancel, the transfers and buffers are allocated in the number and length of
  the settings exactly while \<open>rtlsdr_read_async\<close> runs; it runs with the status
  \<open>RTLSDR_RUNNING\<close> or \<open>RTLSDR_CANCELING\<close>, no transfer is being cancelled before the status says so;
  and it returns with \<open>RTLSDR_INACTIVE\<close>, or with \<open>RTLSDR_CANCELING\<close> only when the device is lost or
  the event handling failed.
\<close>

theorem async_invariant:
  assumes "async_idle s"
  shows "async_inv (run_async as (rtlsdr_read_async buf_num buf_len rcs s))"
  by (rule async_inv_run [OF async_inv_start [OF assms]])

section \<open>A cancelled stream ends\<close>

text \<open>
  The behaviour that the comment in the loop expects of libusb: handling events does not fail, and
  a transfer cancelled in flight is reported as cancelled by the handling of events that follows.
\<close>

fun obeys :: "answer \<Rightarrow> loc \<times> streaming \<Rightarrow> bool" where
  "obeys a (L_events r n, s) \<longleftrightarrow> 0 \<le> ans_rc a"
| "obeys a (L_cancel k r n, s) \<longleftrightarrow>
     (k < dev_xfer_buf_num (st_dev s) \<and> snd (xfers s ! k) = In_flight \<longrightarrow> 0 \<le> ans_cancel a \<and>
        xfers (handle a (snd (libusb_cancel (ans_cancel a) k s))) ! k = (TRANSFER_CANCELLED, Idle))"
| "obeys a (L_done r, s) \<longleftrightarrow> True"

fun obedient :: "answer list \<Rightarrow> loc \<times> streaming \<Rightarrow> bool" where
  "obedient [] c = True"
| "obedient (a # as) c \<longleftrightarrow> obeys a c \<and> obedient as (async_next a c)"

text \<open>In such a run the transfers before \<open>k\<close> are idle, so that a second pass finds all idle.\<close>

fun pass_inv :: "loc \<times> streaming \<Rightarrow> bool" where
  "pass_inv (L_events r n, s) \<longleftrightarrow> buffers_ok s \<and> async_status s = RTLSDR_CANCELING \<and> none_cancelling s"
| "pass_inv (L_cancel k r n, s) \<longleftrightarrow> buffers_ok s \<and> async_status s = RTLSDR_CANCELING \<and>
     none_cancelling s \<and> k \<le> dev_xfer_buf_num (st_dev s) \<and> (\<forall>j<k. snd (xfers s ! j) = Idle) \<and>
     n \<noteq> RTLSDR_RUNNING"
| "pass_inv (L_done r, s) \<longleftrightarrow> st_xfer s = None \<and> st_buf s = None \<and>
     (async_status s = RTLSDR_INACTIVE \<or> dev_lost (st_dev s))"

fun steps_left :: "loc \<times> streaming \<Rightarrow> nat" where
  "steps_left (L_done r, s) = 0"
| "steps_left (L_events r n, s) =
     (if all_idle s then dev_xfer_buf_num (st_dev s) + 2 else 2 * dev_xfer_buf_num (st_dev s) + 4)"
| "steps_left (L_cancel k r n, s) = dev_xfer_buf_num (st_dev s) - k + 1 +
     (if n = RTLSDR_INACTIVE \<and> all_idle s then 0 else dev_xfer_buf_num (st_dev s) + 2)"

definition advances :: "loc \<times> streaming \<Rightarrow> loc \<times> streaming \<Rightarrow> bool" where
  "advances c d \<longleftrightarrow> pass_inv d \<and> dev_ub (st_dev (snd d)) = dev_ub (st_dev (snd c)) \<and>
     (steps_left d < steps_left c \<or> (\<exists>r. fst d = L_done r))"

lemma frame_handle:
  "dev_xfer_buf_num (st_dev (handle a s)) = dev_xfer_buf_num (st_dev s)"
  "dev_ub (st_dev (handle a s)) = dev_ub (st_dev s)"
  "dev_lost (st_dev s) \<Longrightarrow> dev_lost (st_dev (handle a s))"
  "length (xfers (handle a s)) = length (xfers s)"
  using ev_handle [of s a] by (auto simp: ev_rel_def frame_rel_def)

lemma idle_stays:
  "j < length (xfers s) \<Longrightarrow> snd (xfers s ! j) = Idle \<Longrightarrow> snd (xfers (handle a s) ! j) = Idle"
  using ev_handle [of s a] by (auto simp: ev_rel_def xfer_rel_def)

lemma advances_events:
  assumes "pass_inv (L_events r n, s)" "obeys a (L_events r n, s)"
  shows "advances (L_events r n, s) (async_next a (L_events r n, s))"
proof -
  have t: "buffers_ok (handle a s)" "none_cancelling (handle a s)"
    "async_status (handle a s) = RTLSDR_CANCELING"
    using assms buffers_rel [OF ev_handle] none_cancelling_rel [OF ev_handle]
      status_relD(1) [OF ev_handle] by auto
  moreover have "st_xfer (handle a s) \<noteq> None" using t(1) by (simp add: buffers_ok_def)
  moreover have "all_idle s \<Longrightarrow> all_idle (handle a s)" using all_idle_rel [OF ev_handle] .
  ultimately show ?thesis using assms(2)
    by (auto simp: advances_def Let_def frame_handle)
qed

lemma advances_cancel:
  assumes p: "pass_inv (L_cancel k r n, s)" and o: "obeys a (L_cancel k r n, s)"
    and k: "k < dev_xfer_buf_num (st_dev s)"
  shows "advances (L_cancel k r n, s) (async_next a (L_cancel k r n, s))"
proof -
  have len: "length (xfers s) = dev_xfer_buf_num (st_dev s)" using p by (simp add: buffers_ok_def)
  obtain st f where x: "xfers s ! k = (st, f)" by fastforce
  show ?thesis
  proof (cases "st = TRANSFER_CANCELLED")
    case True
    then have "f = Idle" using p k x len by (auto simp: buffers_ok_def cancelled_idle_def)
    then show ?thesis using True x k p by (auto simp: advances_def less_Suc_eq)
  next
    case False
    show ?thesis
    proof (cases "f = In_flight")
      case True
      define t where "t = set_xfer k (st, Cancelling) s"
      have c: "libusb_cancel (ans_cancel a) k s = (ans_cancel a, t)"
        using x True by (simp add: libusb_cancel_def t_def)
      have tb: "buffers_ok t" "st_dev t = st_dev s"
        using libusb_cancel_ok [OF c] p False x k len by auto
      have ok: "0 \<le> ans_cancel a" "xfers (handle a t) ! k = (TRANSFER_CANCELLED, Idle)"
        using o k x True c by auto
      have idle: "snd (xfers (handle a t) ! j) = Idle" if "j \<le> k" for j
        using that ok(2) p k len by (cases "j = k") (auto intro!: idle_stays simp: t_def)
      have "snd (xfers (handle a t) ! j) \<noteq> Cancelling" if "j < length (xfers s)" for j
      proof (cases "j = k")
        case False
        then show ?thesis using that p ev_handle [of t a]
          by (auto simp: ev_rel_def xfer_rel_def none_cancelling_def t_def)
      qed (use ok in simp)
      then have "none_cancelling (handle a t)" by (simp add: none_cancelling_def frame_handle t_def)
      moreover have "buffers_ok (handle a t)" "async_status (handle a t) = RTLSDR_CANCELING"
        using buffers_rel [OF ev_handle tb(1)] status_relD(1) [OF ev_handle] p tb(2) by auto
      moreover have "\<not> all_idle s" using x True k len by (auto simp: all_idle_def)
      ultimately show ?thesis using False x k c ok(1) idle tb(2)
        by (auto simp: advances_def frame_handle less_Suc_eq_le)
    next
      case nf: False
      then have f: "f = Idle" using p x k len by (cases f) (auto simp: none_cancelling_def)
      have c: "libusb_cancel (ans_cancel a) k s = (-5, s)"
        using x f by (simp add: libusb_cancel_def)
      have "snd (xfers (handle a s) ! j) = Idle" if "j \<le> k" for j
        using that p f x k len by (intro idle_stays) (auto simp: le_less)
      moreover have "buffers_ok (handle a s)" "none_cancelling (handle a s)"
        "async_status (handle a s) = RTLSDR_CANCELING"
        using p buffers_rel [OF ev_handle] none_cancelling_rel [OF ev_handle]
          status_relD(1) [OF ev_handle] by auto
      moreover have "all_idle s \<Longrightarrow> all_idle (handle a s)" using all_idle_rel [OF ev_handle] .
      ultimately show ?thesis using False x k c p
        by (auto simp: advances_def frame_handle less_Suc_eq_le)
    qed
  qed
qed

lemma advances_end:
  assumes p: "pass_inv (L_cancel k r n, s)" and k: "\<not> k < dev_xfer_buf_num (st_dev s)"
  shows "advances (L_cancel k r n, s) (async_next a (L_cancel k r n, s))"
proof -
  have idle: "all_idle s" using p k by (auto simp: all_idle_def buffers_ok_def)
  then have "all_idle (handle a s)" using all_idle_rel [OF ev_handle] by blast
  then have fin: "advances (L_cancel k r n, s) (async_finish r n (handle a s))"
    if "dev_lost (st_dev s) \<or> n = RTLSDR_INACTIVE"
    using that frame_handle [where s = s and a = a]
    by (subst async_finish_simps(1)) (auto simp: advances_def async_finish_simps(2-))
  then show ?thesis using p k idle
    by (auto simp: advances_def loop_head_on)
qed

lemma advances_next:
  assumes "pass_inv c" and "obeys a c"
  shows "advances c (async_next a c)"
proof -
  obtain l s where c: "c = (l, s)" by fastforce
  show ?thesis
  proof (cases l)
    case (L_events r n)
    show ?thesis using advances_events assms unfolding c L_events .
  next
    case (L_cancel k r n)
    show ?thesis using advances_cancel advances_end assms unfolding c L_cancel by blast
  next
    case (L_done r)
    then show ?thesis using assms by (auto simp: c advances_def)
  qed
qed

lemma run_async_Done: "run_async as (L_done r, s) = (L_done r, s)"
  unfolding run_async_def by (induction as) simp_all

lemma obedient_returns:
  "pass_inv c \<Longrightarrow> obedient as c \<Longrightarrow> steps_left c \<le> length as \<Longrightarrow>
   \<exists>r t. run_async as c = (L_done r, t) \<and> pass_inv (L_done r, t) \<and>
     dev_ub (st_dev t) = dev_ub (st_dev (snd c))"
proof (induction as arbitrary: c)
  case Nil
  then show ?case by (cases c; cases "fst c") (auto simp: run_async_def split: if_splits)
next
  case (Cons a as)
  have adv: "advances c (async_next a c)" using Cons.prems by (intro advances_next) auto
  show ?case
  proof (cases "\<exists>r. fst (async_next a c) = L_done r")
    case True
    then show ?thesis using adv run_async_Done
      by (cases "async_next a c") (auto simp: advances_def run_async_def)
  next
    case False
    then show ?thesis using Cons.IH [of "async_next a c"] Cons.prems adv
      by (auto simp: advances_def run_async_def)
  qed
qed

text \<open>
  C3. A cancelled stream ends: whenever a running stream is cancelled by
  \<open>rtlsdr_cancel_async\<close>, and libusb from then on handles events without failing and reports each
  transfer it was asked to cancel, \<open>rtlsdr_read_async\<close> returns after at most two passes over the
  transfers (\<open>2 * xfer_buf_num + 4\<close> calls of libusb), with everything freed, no transfer
  freed in flight, and the status \<open>RTLSDR_INACTIVE\<close> unless the device was lost.
\<close>

theorem async_cancel_returns:
  assumes "async_idle s0"
    and "run_async as (rtlsdr_read_async buf_num buf_len rcs s0) = (L_events r n, s)"
    and "rtlsdr_cancel_async s = (0, s')"
    and "obedient bs (L_events r n, s')"
    and "2 * dev_xfer_buf_num (st_dev s) + 4 \<le> length bs"
  shows "\<exists>r' t. run_async bs (L_events r n, s') = (L_done r', t) \<and>
    st_xfer t = None \<and> st_buf t = None \<and> dev_ub (st_dev t) = dev_ub (st_dev s) \<and>
    (async_status t = RTLSDR_INACTIVE \<or> dev_lost (st_dev t))"
proof -
  have run: "async_status s = RTLSDR_RUNNING"
    and s': "s' = upd_dev (\<lambda>d. d\<lparr>dev_async_status := RTLSDR_CANCELING, dev_async_cancel := True\<rparr>) s"
    using assms(3) by (auto simp: rtlsdr_cancel_async_def split: if_splits)
  have "async_inv (L_events r n, s)" using async_inv_run [OF async_inv_start [OF assms(1)]] assms(2) by metis
  then have "buffers_ok s" "none_cancelling s" using run by auto
  then have p: "pass_inv (L_events r n, s')"
    by (simp add: s' buffers_ok_def none_cancelling_def cancelled_idle_def)
  have "steps_left (L_events r n, s') \<le> length bs" using assms(5) by (simp add: s')
  from obedient_returns [OF p assms(4) this] obtain r' t where "run_async bs (L_events r n, s') = (L_done r', t)"
      "pass_inv (L_done r', t)" "dev_ub (st_dev t) = dev_ub (st_dev s')"
    by auto
  then show ?thesis by (auto simp: s')
qed

section \<open>Examples\<close>

definition example_stream :: streaming where
  "example_stream = \<lparr>st_dev = example_dev, st_xfer = None, st_buf = None, st_delivered = []\<rparr>"

definition quiet :: answer where
  "quiet = \<lparr>ans_rc = 0, ans_events = [], ans_cancel = 0\<rparr>"

definition events :: "event list \<Rightarrow> answer" where
  "events es = quiet\<lparr>ans_events := es\<rparr>"

lemma example_idle: "async_idle example_stream"
  by (simp add: async_idle_def example_stream_def)

lemma handle_quiet [simp]: "handle quiet s = s" "ans_rc quiet = 0" "ans_cancel quiet = 0"
  by (simp_all add: handle_def quiet_def)

lemma handle_events [simp]:
  "handle (events es) s = fold libusb_event es s" "ans_rc (events es) = 0" "ans_cancel (events es) = 0"
  by (simp_all add: handle_def events_def quiet_def)

text \<open>A stream of two buffers of 512 bytes, running.\<close>

definition example_running :: streaming where
  "example_running = snd (rtlsdr_read_async 2 512 (\<lambda>i. 0) example_stream)"

lemma example_running:
  "rtlsdr_read_async 2 512 (\<lambda>i. 0) example_stream = (L_events 0 RTLSDR_INACTIVE, example_running)"
  "async_status example_running = RTLSDR_RUNNING"
  "st_xfer example_running = Some [(TRANSFER_COMPLETED, In_flight), (TRANSFER_COMPLETED, In_flight)]"
  "xfers example_running = [(TRANSFER_COMPLETED, In_flight), (TRANSFER_COMPLETED, In_flight)]"
  "dev_xfer_buf_num (st_dev example_running) = 2" "dev_lost (st_dev example_running) = False"
  "dev_xfer_errors (st_dev example_running) = 0" "dev_ub (st_dev example_running) = False"
  "st_delivered example_running = []"
  by (simp_all add: example_running_def rtlsdr_read_async_def example_stream_def
      rtlsdr_alloc_async_buffers_def async_setup_def loop_head_def upt_rec
      submit_def set_xfer_def xfers_def upd_dev_def replicate_Suc numeral_2_eq_2 example_dev_def)

definition example_canceling :: streaming where
  "example_canceling = snd (rtlsdr_cancel_async example_running)"

lemma example_canceling:
  "rtlsdr_cancel_async example_running = (0, example_canceling)"
  "async_status example_canceling = RTLSDR_CANCELING"
  "st_xfer example_canceling = Some [(TRANSFER_COMPLETED, In_flight), (TRANSFER_COMPLETED, In_flight)]"
  "xfers example_canceling = [(TRANSFER_COMPLETED, In_flight), (TRANSFER_COMPLETED, In_flight)]"
  "dev_xfer_buf_num (st_dev example_canceling) = 2" "dev_lost (st_dev example_canceling) = False"
  by (simp_all add: example_canceling_def rtlsdr_cancel_async_def example_running)

theorem async_invariant_witness:
  "async_inv (run_async [events [Done 0 TRANSFER_COMPLETED [1, 2] 0, Cancel_call]]
     (rtlsdr_read_async 2 512 (\<lambda>i. 0) example_stream))"
  by (rule async_invariant [OF example_idle])

theorem async_cancel_returns_witness:
  "\<exists>r t. run_async ([quiet, events [Done 0 TRANSFER_CANCELLED [] 0],
        events [Done 1 TRANSFER_CANCELLED [] 0]] @ replicate 5 quiet)
      (L_events 0 RTLSDR_INACTIVE, example_canceling) = (L_done r, t) \<and> st_xfer t = None"
proof -
  let ?bs = "[quiet, events [Done 0 TRANSFER_CANCELLED [] 0],
        events [Done 1 TRANSFER_CANCELLED [] 0]] @ replicate 5 quiet"
  have start: "run_async [] (rtlsdr_read_async 2 512 (\<lambda>i. 0) example_stream) =
      (L_events 0 RTLSDR_INACTIVE, example_running)"
    by (simp add: run_async_def example_running)
  have len: "2 * dev_xfer_buf_num (st_dev example_running) + 4 \<le> length ?bs"
    by (simp add: example_running)
  have ob: "obedient ?bs (L_events 0 RTLSDR_INACTIVE, example_canceling)"
    by (simp add: example_canceling libusb_cancel_def libusb_callback_def Let_def loop_head_def
      numeral_eq_Suc replicate_Suc)
  show ?thesis
    using async_cancel_returns [OF example_idle start example_canceling(1) ob len] by blast
qed

end
