(* ===== verification/StreamingFail.thy ===== *)
theory StreamingFail
  imports StreamingInv
begin

text \<open>
  The ways in which a stream ends badly: transfers freed while libusb still has them, a status
  that stays at \<open>RTLSDR_CANCELING\<close> for ever, and a stream that keeps running without any transfer.
\<close>

section \<open>Freeing transfers in flight\<close>

text \<open>One pass of cancellations during which nothing is reported, from transfer \<open>k\<close>.\<close>

definition cancelled_from :: "nat \<Rightarrow> streaming \<Rightarrow> streaming \<Rightarrow> bool" where
  "cancelled_from k s t \<longleftrightarrow> st_dev t = st_dev s \<and> (st_xfer t = None \<longleftrightarrow> st_xfer s = None) \<and>
     length (xfers t) = length (xfers s) \<and>
     (\<forall>j<length (xfers s). fst (xfers t ! j) = fst (xfers s ! j) \<and>
        snd (xfers t ! j) = (if k \<le> j \<and> fst (xfers s ! j) \<noteq> TRANSFER_CANCELLED \<and>
          snd (xfers s ! j) = In_flight then Cancelling else snd (xfers s ! j)))"

definition some_cancelled :: "nat \<Rightarrow> streaming \<Rightarrow> bool" where
  "some_cancelled k s \<longleftrightarrow> (\<exists>j<length (xfers s). k \<le> j \<and> fst (xfers s ! j) \<noteq> TRANSFER_CANCELLED \<and>
     snd (xfers s ! j) = In_flight)"

lemma run_async_Cons: "run_async (a # as) c = run_async as (async_next a c)"
  by (simp add: run_async_def)

lemma run_async_append: "run_async (as @ bs) c = run_async bs (run_async as c)"
  by (simp add: run_async_def)

lemma quiet_pass:
  assumes "k + m = dev_xfer_buf_num (st_dev s)" "length (xfers s) = dev_xfer_buf_num (st_dev s)"
  shows "\<exists>r' t. run_async (replicate m quiet) (L_cancel k r n, s) =
      (L_cancel (k + m) r' (if some_cancelled k s then RTLSDR_CANCELING else n), t) \<and>
    cancelled_from k s t"
  using assms
proof (induction m arbitrary: k r n s)
  case 0
  have "\<not> some_cancelled k s" using 0 by (auto simp: some_cancelled_def)
  moreover have "cancelled_from k s s" using 0 by (auto simp: cancelled_from_def)
  ultimately show ?case by (auto simp: run_async_def)
next
  case (Suc m)
  obtain st f where x: "xfers s ! k = (st, f)" by fastforce
  have k: "k < length (xfers s)" using Suc.prems by simp
  define hit where "hit \<longleftrightarrow> st \<noteq> TRANSFER_CANCELLED \<and> f = In_flight"
  define u where "u = (if hit then set_xfer k (st, Cancelling) s else s)"
  have "\<exists>r1. async_next quiet (L_cancel k r n, s) =
      (L_cancel (k + 1) r1 (if hit then RTLSDR_CANCELING else n), u)"
    using k Suc.prems x by (cases "st = TRANSFER_CANCELLED"; cases "f = In_flight")
      (simp_all add: libusb_cancel_def u_def hit_def)
  then obtain r1 where n1: "async_next quiet (L_cancel k r n, s) =
      (L_cancel (k + 1) r1 (if hit then RTLSDR_CANCELING else n), u)" by blast
  have u: "st_dev u = st_dev s" "length (xfers u) = length (xfers s)" "(st_xfer u = None) = (st_xfer s = None)"
    by (auto simp: u_def)
  have uj: "xfers u ! j = (if hit \<and> j = k then (st, Cancelling) else xfers s ! j)" if "j < length (xfers s)" for j
    using that by (auto simp: u_def)
  have pu: "k + 1 + m = dev_xfer_buf_num (st_dev u)" "length (xfers u) = dev_xfer_buf_num (st_dev u)"
    using Suc.prems u by simp_all
  obtain r' t where t: "run_async (replicate m quiet)
        (L_cancel (k + 1) r1 (if hit then RTLSDR_CANCELING else n), u) =
      (L_cancel (k + 1 + m) r' (if some_cancelled (k + 1) u then RTLSDR_CANCELING
         else if hit then RTLSDR_CANCELING else n), t)" "cancelled_from (k + 1) u t"
    using Suc.IH [OF pu, of r1 "if hit then RTLSDR_CANCELING else n"] by blast
  have "some_cancelled (k + 1) u = some_cancelled (k + 1) s"
    unfolding some_cancelled_def using u(2) uj by (auto 0 3)
  moreover have "some_cancelled k s \<longleftrightarrow> hit \<or> some_cancelled (k + 1) s"
    using k x by (auto simp: some_cancelled_def hit_def le_less Suc_le_eq)
  ultimately have "some_cancelled k s \<longleftrightarrow> hit \<or> some_cancelled (k + 1) u" by simp
  moreover have "cancelled_from k s t"
    using t(2) k x u uj by (auto simp: cancelled_from_def hit_def le_less Suc_le_eq)
  ultimately show ?case using t(1) n1
    by (auto simp: replicate_Suc run_async_Cons simp del: async_next.simps)
qed

text \<open>
  C40. Transfers can be freed in flight: when libusb reports nothing while a running stream is
  cancelled, the second pass finds every transfer already cancelled
  (\<open>LIBUSB_ERROR_NOT_FOUND\<close>), takes that for the end, and \<open>rtlsdr_read_async\<close> frees the transfers
  and buffers that libusb still has.
\<close>

theorem async_frees_in_flight:
  assumes "async_idle s0"
    and "run_async as (rtlsdr_read_async buf_num buf_len rcs s0) = (L_events r n, s)"
    and "rtlsdr_cancel_async s = (0, s')" and "\<not> dev_lost (st_dev s)" and "\<not> all_idle s"
    and "m = dev_xfer_buf_num (st_dev s)"
  shows "\<exists>r' t. run_async (replicate (2 * m + 4) quiet) (L_events r n, s') = (L_done r', t) \<and>
    dev_ub (st_dev t) \<and> st_xfer t = None \<and> async_status t = RTLSDR_INACTIVE"
proof -
  have run: "async_status s = RTLSDR_RUNNING"
    and s': "s' = upd_dev (\<lambda>d. d\<lparr>dev_async_status := RTLSDR_CANCELING, dev_async_cancel := True\<rparr>) s"
    using assms(3) by (auto simp: rtlsdr_cancel_async_def split: if_splits)
  have "async_inv (L_events r n, s)" using async_inv_run [OF async_inv_start [OF assms(1)]] assms(2) by metis
  then have ok: "buffers_ok s'" "none_cancelling s'" "\<not> all_idle s'"
    using run assms(5)
    by (auto simp: s' buffers_ok_def none_cancelling_def cancelled_idle_def all_idle_def)
  have m: "dev_xfer_buf_num (st_dev s') = m" "length (xfers s') = m" "\<not> dev_lost (st_dev s')"
    "async_status s' = RTLSDR_CANCELING"
    using ok(1) assms(4,6) by (auto simp: s' buffers_ok_def)
  obtain i where i0: "i < m" "snd (xfers s' ! i) \<noteq> Idle"
    using ok(3) m(2) by (auto simp: all_idle_def)
  then have i: "i < m" "snd (xfers s' ! i) = In_flight" "fst (xfers s' ! i) \<noteq> TRANSFER_CANCELLED"
    using ok(1,2) m(2) by (cases "snd (xfers s' ! i)";
      auto simp: buffers_ok_def cancelled_idle_def none_cancelling_def)+
  then have sc: "some_cancelled 0 s'" using m by (auto simp: some_cancelled_def)
  obtain r1 t1 where p1: "run_async (replicate m quiet) (L_cancel 0 0 RTLSDR_INACTIVE, s') =
      (L_cancel m r1 RTLSDR_CANCELING, t1)" "cancelled_from 0 s' t1"
    using quiet_pass [of 0 m s' 0 RTLSDR_INACTIVE] m sc by auto
  have t1: "st_dev t1 = st_dev s'" "length (xfers t1) = m" "st_xfer t1 \<noteq> None"
    "\<not> some_cancelled 0 t1" "snd (xfers t1 ! i) = Cancelling"
    using p1(2) m i ok(1) by (auto simp: cancelled_from_def some_cancelled_def buffers_ok_def)
  obtain r2 t2 where p2: "run_async (replicate m quiet) (L_cancel 0 0 RTLSDR_INACTIVE, t1) =
      (L_cancel m r2 RTLSDR_INACTIVE, t2)" "cancelled_from 0 t1 t2"
    using quiet_pass [of 0 m t1 0 RTLSDR_INACTIVE] m t1 by auto
  have t2: "st_dev t2 = st_dev s'" "\<not> all_idle t2" "async_status t2 = RTLSDR_CANCELING"
    using p2(2) t1 i m by (auto simp: cancelled_from_def all_idle_def intro!: exI [of _ i])
  have step: "run_async (quiet # as) c = run_async as (async_next quiet c)" for as c
    by (rule run_async_Cons)
  have start: "async_next quiet (L_events r n, s') = (L_cancel 0 0 RTLSDR_INACTIVE, s')"
    using m(4) ok(1) by (auto simp: buffers_ok_def)
  have mid: "run_async (replicate 2 quiet) (L_cancel m r1 RTLSDR_CANCELING, t1) =
      (L_cancel 0 0 RTLSDR_INACTIVE, t1)"
    using t1(1,3) m(1,3,4) by (auto simp: numeral_2_eq_2 step run_async_def loop_head_on)
  have "replicate (2 * m + 4) quiet =
      quiet # replicate m quiet @ replicate 2 quiet @ replicate m quiet @ replicate 1 quiet"
    by (rule sym, rule replicate_eqI) auto
  moreover have "run_async (replicate 1 quiet) (L_cancel m r2 RTLSDR_INACTIVE, t2) =
      async_finish r2 RTLSDR_INACTIVE t2"
    using t2(1) m(1) by (simp add: run_async_def)
  ultimately have "run_async (replicate (2 * m + 4) quiet) (L_events r n, s') =
      async_finish r2 RTLSDR_INACTIVE t2"
    using start p1(1) mid p2(1)
    by (simp add: step run_async_append del: async_next.simps replicate.simps)
  then show ?thesis using t2(2) async_finish_simps [of r2 RTLSDR_INACTIVE t2] by metis
qed

theorem async_frees_in_flight_witness:
  "\<exists>r t. run_async (replicate 8 quiet) (L_events 0 RTLSDR_INACTIVE, example_canceling) =
     (L_done r, t) \<and> dev_ub (st_dev t)"
proof -
  have start: "run_async [] (rtlsdr_read_async 2 512 (\<lambda>i. 0) example_stream) =
      (L_events 0 RTLSDR_INACTIVE, example_running)"
    by (simp add: run_async_def example_running)
  have A: "\<not> dev_lost (st_dev example_running)" "\<not> all_idle example_running"
    "2 = dev_xfer_buf_num (st_dev example_running)"
    by (simp_all add: example_running all_idle_set)
  from async_frees_in_flight [OF example_idle start example_canceling(1) A] show ?thesis by auto
qed

section \<open>A status that stays\<close>

text \<open>
  After a pass of cancellations that is not finished, a failure of the event handling
  leaves the status at \<open>RTLSDR_CANCELING\<close> with the device not marked as lost: from then on
  \<open>rtlsdr_cancel_async\<close> and \<open>rtlsdr_read_async\<close> answer -2 and change nothing, so the status never
  becomes \<open>RTLSDR_INACTIVE\<close> and \<open>rtlsdr_close\<close> waits for ever.
\<close>

lemma async_stuck_canceling:
  assumes "async_inv (L_events r RTLSDR_CANCELING, s)"
    and "ans_rc a < 0" and "ans_rc a \<noteq> LIBUSB_ERROR_INTERRUPTED"
    and "\<not> dev_lost (st_dev (handle a s))"
    and "async_next a (L_events r RTLSDR_CANCELING, s) = (l, t)"
  shows "l = L_done (ans_rc a) \<and> rtlsdr_close_waits t \<and>
    rtlsdr_cancel_async t = (-2, t) \<and> rtlsdr_read_async buf_num buf_len rcs t = (L_done (-2), t)"
proof -
  have "(l, t) = async_finish (ans_rc a) RTLSDR_CANCELING (handle a s)"
    using assms(2,3,5) by (simp add: Let_def)
  then have "l = L_done (ans_rc a)" "async_status t = RTLSDR_CANCELING" "\<not> dev_lost (st_dev t)"
    using async_finish_simps [of "ans_rc a" RTLSDR_CANCELING "handle a s"] assms(4)
    by (metis prod.inject snd_conv)+
  then show ?thesis
    by (simp add: rtlsdr_close_waits_def rtlsdr_cancel_async_def rtlsdr_read_async_def)
qed

lemma async_stuck_canceling_example:
  "\<exists>t. run_async (replicate 4 quiet @ [quiet\<lparr>ans_rc := -1\<rparr>])
      (L_events 0 RTLSDR_INACTIVE, example_canceling) = (L_done (-1), t) \<and> rtlsdr_close_waits t"
proof -
  obtain s where s: "run_async (replicate 4 quiet) (L_events 0 RTLSDR_INACTIVE, example_canceling) =
      (L_events 0 RTLSDR_CANCELING, s)" "\<not> dev_lost (st_dev s)"
    by (simp add: run_async_def numeral_eq_Suc replicate_Suc example_canceling libusb_cancel_def
      loop_head_def)
  have "async_inv (L_events 0 RTLSDR_INACTIVE, example_running)"
    using async_inv_start [OF example_idle, of 2 512 "\<lambda>i. 0"] by (simp only: example_running(1))
  then have "async_inv (L_events 0 RTLSDR_INACTIVE, example_canceling)"
    by (simp add: example_canceling_def rtlsdr_cancel_async_def example_running buffers_ok_def cancelled_idle_def)
  then have inv: "async_inv (L_events 0 RTLSDR_CANCELING, s)"
    using async_inv_run [of _ "replicate 4 quiet"] s(1) by metis
  let ?a = "quiet\<lparr>ans_rc := -1\<rparr>"
  obtain l t where n: "async_next ?a (L_events 0 RTLSDR_CANCELING, s) = (l, t)" by fastforce
  have a: "handle ?a s = s" "ans_rc ?a = -1" by (simp_all add: handle_def quiet_def)
  have A: "ans_rc ?a < 0" "ans_rc ?a \<noteq> LIBUSB_ERROR_INTERRUPTED" "\<not> dev_lost (st_dev (handle ?a s))"
    using a s(2) by (simp_all add: LIBUSB_ERROR_INTERRUPTED_def)
  have "l = L_done (-1)" "rtlsdr_close_waits t"
    using async_stuck_canceling [OF inv A n] a by simp_all
  moreover have "run_async (replicate 4 quiet @ [?a]) (L_events 0 RTLSDR_INACTIVE, example_canceling) = (l, t)"
    by (simp only: run_async_append s(1) run_async_Cons n) (simp add: run_async_def)
  ultimately show ?thesis by blast
qed

section \<open>Transfers that are not resubmitted\<close>

text \<open>Errors count towards the limit only while nothing is received; other failures do not count.\<close>

lemma error_event:
  assumes "i < length (xfers s)" "snd (xfers s ! i) \<noteq> Idle" "dev_xfer_errors (st_dev s) + 1 < 4294967296"
  shows "libusb_event (Done i TRANSFER_ERROR b rc) s =
    (let t = upd_dev (\<lambda>d. d\<lparr>dev_xfer_errors := dev_xfer_errors d + 1\<rparr>) (set_xfer i (TRANSFER_ERROR, Idle) s)
     in if dev_xfer_buf_num (st_dev s) \<le> dev_xfer_errors (st_dev s) + 1
        then snd (rtlsdr_cancel_async (upd_dev (\<lambda>d. d\<lparr>dev_lost := True\<rparr>) t)) else t)"
  using assms by (simp add: libusb_callback_def Let_def upd_dev_def)

definition uncounted :: "xfer_status \<Rightarrow> bool" where
  "uncounted st \<longleftrightarrow> st \<in> {TRANSFER_TIMED_OUT, TRANSFER_STALL, TRANSFER_OVERFLOW}"

lemma uncounted_event:
  assumes "uncounted st" "dev_xfer_errors (st_dev s) < dev_xfer_buf_num (st_dev s)"
  shows "libusb_event (Done i st b rc) s =
    (if i < length (xfers s) \<and> snd (xfers s ! i) \<noteq> Idle then set_xfer i (st, Idle) s else s)"
  using assms by (auto simp: libusb_callback_def uncounted_def)

lemma uncounted_fold:
  assumes "\<forall>i<n. uncounted (f i)" "dev_xfer_errors (st_dev s) < dev_xfer_buf_num (st_dev s)"
    "n \<le> length (xfers s)"
  shows "let t = fold libusb_event (map (\<lambda>i. Done i (f i) [] 0) [0..<n]) s in
    st_dev t = st_dev s \<and> st_delivered t = st_delivered s \<and> length (xfers t) = length (xfers s) \<and>
    (\<forall>i<n. snd (xfers t ! i) = Idle)"
  using assms
proof (induction n)
  case (Suc n)
  define t where "t = fold libusb_event (map (\<lambda>i. Done i (f i) [] 0) [0..<n]) s"
  have t: "st_dev t = st_dev s" "st_delivered t = st_delivered s" "length (xfers t) = length (xfers s)"
    "\<forall>i<n. snd (xfers t ! i) = Idle"
    using Suc by (auto simp: t_def Let_def)
  have "libusb_event (Done n (f n) [] 0) t =
      (if snd (xfers t ! n) \<noteq> Idle then set_xfer n (f n, Idle) t else t)"
    using uncounted_event [of "f n" t n "[]" 0] Suc.prems t by simp
  then show ?case using t Suc.prems by (auto simp: Let_def t_def [symmetric] nth_list_update less_Suc_eq)
qed simp

lemma idle_event: "all_idle s \<Longrightarrow> e \<noteq> Cancel_call \<Longrightarrow> libusb_event e s = s"
  by (cases e) (auto simp: all_idle_def)

lemma idle_handle: "all_idle s \<Longrightarrow> Cancel_call \<notin> set (ans_events a) \<Longrightarrow> handle a s = s"
proof -
  have "all_idle s \<Longrightarrow> Cancel_call \<notin> set es \<Longrightarrow> fold libusb_event es s = s" for es
    by (induction es) (auto simp: idle_event)
  then show "all_idle s \<Longrightarrow> Cancel_call \<notin> set (ans_events a) \<Longrightarrow> handle a s = s"
    by (simp add: handle_def)
qed

text \<open>
  A stream can run on without any transfer: when every transfer ends once by a timeout,
  a stall or an overflow, the callback neither resubmits it nor counts it, so the device is not
  given up; \<open>rtlsdr_read_async\<close> keeps handling events with the status \<open>RTLSDR_RUNNING\<close>, nothing is
  ever delivered again, and only another thread's cancellation ends it.
\<close>

lemma async_starves:
  assumes "buffers_ok s" and "async_status s = RTLSDR_RUNNING"
    and "dev_xfer_errors (st_dev s) < dev_xfer_buf_num (st_dev s)"
    and "ans_events a = map (\<lambda>i. Done i (f i) [] 0) [0..<dev_xfer_buf_num (st_dev s)]"
    and "\<forall>i<dev_xfer_buf_num (st_dev s). uncounted (f i)" and "0 \<le> ans_rc a"
    and "\<forall>b\<in>set as. 0 \<le> ans_rc b \<and> Cancel_call \<notin> set (ans_events b)"
  shows "\<exists>r' t. run_async (a # as) (L_events r n, s) = (L_events r' n, t) \<and>
    all_idle t \<and> async_status t = RTLSDR_RUNNING \<and> st_dev t = st_dev s \<and> st_delivered t = st_delivered s"
proof -
  define t where "t = handle a s"
  have t: "st_dev t = st_dev s" "st_delivered t = st_delivered s" "all_idle t"
    using uncounted_fold [OF assms(5,3)] assms(1,4)
    by (auto simp: t_def handle_def Let_def buffers_ok_def all_idle_def)
  have "async_next a (L_events r n, s) = (L_events (ans_rc a) n, t)"
    using assms(2,6) t(1) by (simp add: t_def [symmetric] Let_def loop_head_def)
  moreover have "\<exists>r'. run_async as (L_events r n, t) = (L_events r' n, t)" for r
    using assms(7)
  proof (induction as arbitrary: r)
    case (Cons b as)
    have "handle b t = t" using idle_handle [OF t(3)] Cons.prems by simp
    then have "async_next b (L_events r n, t) = (L_events (ans_rc b) n, t)"
      using Cons.prems assms(2) t(1) by (simp add: Let_def loop_head_def)
    then show ?case using Cons by (simp add: run_async_Cons del: async_next.simps)
  qed (simp add: run_async_def)
  ultimately obtain r' where "run_async (a # as) (L_events r n, s) = (L_events r' n, t)"
    by (metis run_async_Cons)
  then show ?thesis using t assms(2) by auto
qed

lemma async_starves_example:
  "\<exists>r t. run_async (events [Done 0 TRANSFER_OVERFLOW [] 0, Done 1 TRANSFER_STALL [] 0] # replicate 100 quiet)
      (L_events 0 RTLSDR_INACTIVE, example_running) = (L_events r RTLSDR_INACTIVE, t) \<and>
    async_status t = RTLSDR_RUNNING \<and> st_delivered t = []"
proof -
  let ?f = "\<lambda>i::nat. if i = 0 then TRANSFER_OVERFLOW else TRANSFER_STALL"
  let ?a = "events [Done 0 TRANSFER_OVERFLOW [] 0, Done 1 TRANSFER_STALL [] 0]"
  have "async_inv (L_events 0 RTLSDR_INACTIVE, example_running)"
    using async_inv_start [OF example_idle, of 2 512 "\<lambda>i. 0"] by (simp only: example_running(1))
  then have ok: "buffers_ok example_running" by simp
  have ev: "ans_events ?a = map (\<lambda>i. Done i (?f i) [] 0) [0..<dev_xfer_buf_num (st_dev example_running)]"
    by (simp add: events_def example_running upt_rec)
  have "\<exists>r' t. run_async (?a # replicate 100 quiet) (L_events 0 RTLSDR_INACTIVE, example_running) =
      (L_events r' RTLSDR_INACTIVE, t) \<and> all_idle t \<and> async_status t = RTLSDR_RUNNING \<and>
      st_dev t = st_dev example_running \<and> st_delivered t = st_delivered example_running"
    by (rule async_starves [OF ok _ _ ev])
      (simp_all add: example_running uncounted_def events_def quiet_def)
  then show ?thesis by (simp only: example_running) blast
qed

end
