(* ===== verification/Fir.thy ===== *)
theory Fir
  imports Float64
begin

text \<open>
  The FIR filter of the AIS decoder (\<open>aisdecoder/lib/filter.c\<close>): a buffer of 1024 samples that
  is written from the front and whose last \<open>length\<close> samples are copied back to the front when it
  is full. The theorems compare it with the plain specification: the taps against the last samples.
\<close>

section \<open>Single precision\<close>

text \<open>The C type \<open>float\<close>: as \<open>rnd\<close>, with 24 significant bits.\<close>

definition frnd :: "rat \<Rightarrow> rat" where
  "frnd x = (if x = 0 then 0 else
     let e = bin_exp \<bar>x\<bar> - 23 in of_int (rne (x / pow2 e)) * pow2 e)"

section \<open>The filter\<close>

definition BufferLen :: nat where "BufferLen = 1024"

record fir_filter =
  f_length :: nat
  f_taps :: "rat list"
  f_buffer :: "rat list"
  f_pointer :: nat
  f_ub :: bool \<comment> \<open>an access outside the buffer, or an overlapping \<open>memcpy\<close>\<close>

fun filter_mac :: "rat \<Rightarrow> rat list \<Rightarrow> rat list \<Rightarrow> rat" where
  "filter_mac acc (a # as) (b # bs) = filter_mac (frnd (acc + frnd (a * b))) as bs"
| "filter_mac acc as bs = acc"

definition filter_init :: "nat \<Rightarrow> rat list \<Rightarrow> fir_filter" where
  "filter_init len taps = \<lparr>f_length = len, f_taps = take len taps,
     f_buffer = replicate BufferLen 0, f_pointer = len, f_ub = length taps < len\<rparr>"

text \<open>Both \<open>filter_run\<close> and the loop of \<open>filter_run_buf\<close> do this for each sample.\<close>

definition filter_run :: "fir_filter \<Rightarrow> rat \<Rightarrow> rat \<times> fir_filter" where
  "filter_run f inp =
     (let p = f_pointer f; len = f_length f;
          buf = (f_buffer f)[p := inp];
          ub = f_ub f \<or> BufferLen \<le> p \<or> p < len;
          out = filter_mac 0 (take len (drop (p - len) buf)) (f_taps f)
      in if p + 1 = BufferLen
         then (out, f\<lparr>f_buffer := take len (drop (BufferLen - len) buf) @ drop len buf,
                f_pointer := len, f_ub := (ub \<or> BufferLen < 2 * len)\<rparr>)
         else (out, f\<lparr>f_buffer := buf, f_pointer := p + 1, f_ub := ub\<rparr>))"

text \<open>
  \<open>filter_run_buf\<close>: every \<open>step\<close>-th sample of \<open>inp\<close> from \<open>idx\<close> on; the outputs so far, the peak and
  the filter. A read behind the end of the input is undefined.
\<close>

fun run_buf_loop :: "nat \<Rightarrow> nat \<Rightarrow> int list \<Rightarrow> nat \<Rightarrow> int \<Rightarrow> fir_filter \<Rightarrow> rat list \<times> int \<times> fir_filter" where
  "run_buf_loop 0 step inp idx maxval f = ([], maxval, f)"
| "run_buf_loop (Suc len) step inp idx maxval f =
     (let x = (if idx < length inp then inp ! idx else 0);
          f = (if idx < length inp then f else f\<lparr>f_ub := True\<rparr>);
          maxval = (if x > maxval then x else maxval);
          (out, f) = filter_run f (of_int x)
      in case run_buf_loop len step inp (idx + step) maxval f of
           (outs, maxval, f) \<Rightarrow> (out # outs, maxval, f))"

definition filter_run_buf :: "fir_filter \<Rightarrow> int list \<Rightarrow> nat \<Rightarrow> nat \<Rightarrow> rat list \<times> int \<times> fir_filter" where
  "filter_run_buf f inp step len = run_buf_loop len step inp 0 0 f"

section \<open>Specification\<close>

text \<open>The last \<open>len\<close> samples of a history that starts with silence, and the filter over a stream.\<close>

definition fir_window :: "nat \<Rightarrow> rat list \<Rightarrow> rat list" where
  "fir_window len xs = drop (length xs) (replicate len 0 @ xs)"

definition fir_spec :: "rat list \<Rightarrow> rat list \<Rightarrow> rat list \<Rightarrow> rat list" where
  "fir_spec taps hist xs =
     map (\<lambda>n. filter_mac 0 (fir_window (length taps) (hist @ take n xs)) taps) [0..<length xs]"

text \<open>The abstraction: the buffer holds the window of the history just before the pointer.\<close>

definition fir_abs :: "rat list \<Rightarrow> rat list \<Rightarrow> fir_filter \<Rightarrow> bool" where
  "fir_abs taps hist f \<longleftrightarrow> f_taps f = taps \<and> f_length f = length taps \<and> 2 * length taps \<le> BufferLen \<and>
     length (f_buffer f) = BufferLen \<and> length taps \<le> f_pointer f \<and> f_pointer f < BufferLen \<and>
     \<not> f_ub f \<and>
     take (length taps) (drop (f_pointer f - length taps) (f_buffer f)) = fir_window (length taps) hist"

lemma length_fir_window [simp]: "length (fir_window len xs) = len"
  by (simp add: fir_window_def)

lemma fir_window_snoc: "fir_window len (xs @ [x]) = drop 1 (fir_window len xs @ [x])"
proof -
  have "fir_window len xs @ [x] = drop (length xs) ((replicate len 0 @ xs) @ [x])"
    by (simp add: fir_window_def)
  then show ?thesis by (simp add: fir_window_def del: drop_append)
qed

lemma slice_shift:
  assumes "len \<le> p" "p < length buf"
  shows "take len (drop (p + 1 - len) (buf[p := x])) = drop 1 (take len (drop (p - len) buf) @ [x])"
proof (rule nth_equalityI)
  show "length (take len (drop (p + 1 - len) (buf[p := x]))) = length (drop 1 (take len (drop (p - len) buf) @ [x]))"
    using assms by simp
  fix i assume "i < length (take len (drop (p + 1 - len) (buf[p := x])))"
  then have i: "i < len" by simp
  have "p + 1 - len + i = p - len + (i + 1)" using assms(1) by simp
  then show "take len (drop (p + 1 - len) (buf[p := x])) ! i = drop 1 (take len (drop (p - len) buf) @ [x]) ! i"
    using assms i by (cases "i + 1 = len") (auto simp: nth_append nth_list_update)
qed

lemma slice_before: "len \<le> p \<Longrightarrow> take len (drop (p - len) (buf[p := x])) = take len (drop (p - len) buf)"
  by (rule nth_equalityI) auto

lemma filter_run_refines:
  assumes "fir_abs taps hist f"
  shows "fst (filter_run f x) = filter_mac 0 (fir_window (length taps) hist) taps \<and>
    fir_abs taps (hist @ [x]) (snd (filter_run f x))"
proof -
  note a = assms [unfolded fir_abs_def]
  let ?p = "f_pointer f" and ?len = "length taps"
  let ?buf = "(f_buffer f)[?p := x]"
  have out: "fst (filter_run f x) = filter_mac 0 (fir_window ?len hist) taps"
    using a slice_before [of ?len ?p "f_buffer f" x] by (simp add: filter_run_def Let_def)
  have win: "take ?len (drop (?p + 1 - ?len) ?buf) = fir_window ?len (hist @ [x])"
    using a slice_shift [of ?len ?p "f_buffer f" x] by (simp add: fir_window_snoc)
  show ?thesis
  proof (cases "?p + 1 = BufferLen")
    case True
    then have "take ?len (drop (BufferLen - ?len) ?buf) = fir_window ?len (hist @ [x])"
      using win by simp
    then have "fir_abs taps (hist @ [x]) (snd (filter_run f x))"
      using a True by (auto simp: filter_run_def fir_abs_def Let_def BufferLen_def)
    then show ?thesis using out by simp
  next
    case False
    then have "fir_abs taps (hist @ [x]) (snd (filter_run f x))"
      using a win by (auto simp: filter_run_def fir_abs_def Let_def)
    then show ?thesis using out by simp
  qed
qed

lemma filter_init_abs:
  "2 * length taps \<le> BufferLen \<Longrightarrow> fir_abs taps [] (filter_init (length taps) taps)"
  by (simp add: fir_abs_def filter_init_def fir_window_def BufferLen_def)

fun filter_stream :: "fir_filter \<Rightarrow> rat list \<Rightarrow> rat list \<times> fir_filter" where
  "filter_stream f [] = ([], f)"
| "filter_stream f (x # xs) = (case filter_run f x of (y, f) \<Rightarrow>
     case filter_stream f xs of (ys, f) \<Rightarrow> (y # ys, f))"

lemma fir_spec_Cons:
  "fir_spec taps hist (x # xs) =
     filter_mac 0 (fir_window (length taps) hist) taps # fir_spec taps (hist @ [x]) xs"
  by (simp add: fir_spec_def upt_conv_Cons map_Suc_upt [symmetric] comp_def del: upt_Suc)

lemma filter_stream_refines:
  "fir_abs taps hist f \<Longrightarrow> fst (filter_stream f xs) = fir_spec taps hist xs \<and>
     fir_abs taps (hist @ xs) (snd (filter_stream f xs))"
proof (induction xs arbitrary: f hist)
  case (Cons x xs)
  obtain y g where g: "filter_run f x = (y, g)" by fastforce
  have "y = filter_mac 0 (fir_window (length taps) hist) taps" "fir_abs taps (hist @ [x]) g"
    using filter_run_refines [OF Cons.prems, of x] g by auto
  then show ?case using Cons.IH [of "hist @ [x]" g] g
    by (auto simp: fir_spec_Cons split: prod.splits)
qed (simp add: fir_spec_def)

text \<open>
  C29. The buffered filter refines the sliding window: a filter of at most 512 taps fed with any
  number of samples gives, for each, the taps applied to the samples before it (silence first),
  never leaves its buffer, and its state still represents the whole history.
\<close>

theorem filter_refines_window:
  assumes "2 * length taps \<le> BufferLen"
    and "filter_stream (filter_init (length taps) taps) xs = (ys, f)"
  shows "ys = fir_spec taps [] xs \<and> fir_abs taps xs f \<and> \<not> f_ub f"
  using filter_stream_refines [OF filter_init_abs [OF assms(1)], of xs] assms(2)
  by (simp add: fir_abs_def)

theorem filter_refines_window_witness:
  "fst (filter_stream (filter_init 2 [1, 2]) [10, 20, 30]) = [0, 20, 50]"
proof -
  obtain ys f where run: "filter_stream (filter_init (length [1, 2 :: rat]) [1, 2]) [10, 20, 30] = (ys, f)"
    by fastforce
  have "2 * length [1, 2 :: rat] \<le> BufferLen" by (simp add: BufferLen_def)
  then have "ys = fir_spec [1, 2] [] [10, 20, 30]" using filter_refines_window [OF _ run] by simp
  also have "\<dots> = [0, 20, 50]" by code_simp
  finally show ?thesis using run by (simp add: numeral_2_eq_2)
qed

section \<open>Blocks of samples\<close>

text \<open>The samples that \<open>filter_run_buf\<close> takes.\<close>

definition strided :: "int list \<Rightarrow> nat \<Rightarrow> nat \<Rightarrow> nat \<Rightarrow> int list" where
  "strided inp step idx len = map (\<lambda>k. inp ! (idx + k * step)) [0..<len]"

lemma strided_Suc: "strided inp step idx (Suc len) = inp ! idx # strided inp step (idx + step) len"
  by (simp add: strided_def upt_conv_Cons map_Suc_upt [symmetric] comp_def ac_simps del: upt_Suc)

lemma run_buf_loop_stream:
  assumes "len = 0 \<or> idx + (len - 1) * step < length inp"
  shows "run_buf_loop len step inp idx m f =
    (case filter_stream f (map of_int (strided inp step idx len)) of
       (ys, g) \<Rightarrow> (ys, fold max (strided inp step idx len) m, g))"
  using assms
proof (induction len arbitrary: idx m f)
  case (Suc len)
  have "idx < length inp" using Suc.prems by (cases len) auto
  moreover have "len = 0 \<or> idx + step + (len - 1) * step < length inp"
    using Suc.prems by (cases len) (auto simp: ac_simps)
  ultimately show ?case using Suc.IH [of "idx + step"]
    by (auto simp: strided_Suc Let_def max_def split: prod.splits)
qed (simp add: strided_def)

text \<open>
  The block routine does what the single-sample routine does: \<open>filter_run_buf\<close> over
  a block that is long enough gives the outputs and the filter state of \<open>filter_run\<close> applied to
  every \<open>step\<close>-th sample, and returns the largest of those samples, or 0 if none is positive.
\<close>

lemma filter_run_buf_equiv:
  assumes "len = 0 \<or> (len - 1) * step < length inp"
  shows "filter_run_buf f inp step len =
    (case filter_stream f (map of_int (strided inp step 0 len)) of
       (ys, g) \<Rightarrow> (ys, Max (insert 0 (set (strided inp step 0 len))), g))"
proof -
  have "fold max xs m = Max (insert m (set xs))" for xs and m :: int
    by (simp flip: Max.set_eq_fold)
  then show ?thesis using run_buf_loop_stream [of len 0 step inp 0 f] assms
    by (simp add: filter_run_buf_def)
qed

lemma filter_run_buf_equiv_example:
  "fst (snd (filter_run_buf (filter_init 2 [1, 2]) [5, -7, 9, 1] 2 2)) = 9"
  using filter_run_buf_equiv [of 2 2 "[5, -7, 9, 1]" "filter_init 2 [1, 2]"]
  by (simp add: strided_def upt_rec split: prod.splits)

end
