(* ===== verification/NmeaOut.thy ===== *)
theory NmeaOut
  imports Prelude
begin

text \<open>
  The output of \<open>aisdecoder.c\<close>: NMEA sentences go to a UDP socket, the parts of a message
  that is split are collected in a static buffer of 2048 bytes and sent as one datagram. The
  decoder that produces the sentences (\<open>sounddecoder.c\<close>, \<open>receiver.c\<close>, \<open>protodec.c\<close>) is not part of
  the repository; its callback is the interface. What is printed for debugging is left out.
\<close>

definition MAX_BUFFER_LENGTH :: nat where "MAX_BUFFER_LENGTH = 2048"

text \<open>
  The contents of the static buffer up to \<open>buffer_count\<close>, the datagrams sent, newest first, and
  whether \<open>abort\<close> was called after a failed \<open>sendto\<close>. A sentence is given by its bytes, so its length is
  the argument \<open>length\<close>.
\<close>

record nmea_out =
  no_buffer :: "u8 list"
  no_sent :: "u8 list list"
  no_aborted :: bool

definition send :: "bool \<Rightarrow> u8 list \<Rightarrow> nmea_out \<Rightarrow> nmea_out" where
  "send ok data s = (if ok then s\<lparr>no_sent := data # no_sent s\<rparr> else s\<lparr>no_aborted := True\<rparr>)"

text \<open>\<open>ok\<close> is what \<open>sendto\<close> answers.\<close>

definition nmea_sentence_received :: "bool \<Rightarrow> u8 list \<Rightarrow> u8 \<Rightarrow> u8 \<Rightarrow> nmea_out \<Rightarrow> nmea_out" where
  "nmea_sentence_received ok sentence sentences sentencenum s =
     (if no_aborted s then s
      else if sentences = 1 then send ok sentence s
      else
        let count = u32 (length (no_buffer s) + length sentence);
            s = (if count < MAX_BUFFER_LENGTH then s\<lparr>no_buffer := no_buffer s @ sentence\<rparr>
                 else s\<lparr>no_buffer := []\<rparr>)
        in if sentences = sentencenum \<and> no_buffer s \<noteq> []
           then (let t = send ok (no_buffer s) s in if ok then t\<lparr>no_buffer := []\<rparr> else t)
           else s)"

definition nmea_init :: nmea_out where
  "nmea_init = \<lparr>no_buffer = [], no_sent = [], no_aborted = False\<rparr>"

text \<open>A message: its parts in order, numbered from 1.\<close>

definition receive_message :: "u8 list list \<Rightarrow> nmea_out \<Rightarrow> nmea_out" where
  "receive_message parts s =
     fold (\<lambda>(k, p). nmea_sentence_received True p (of_nat (length parts)) (of_nat k))
       (zip [1..<length parts + 1] parts) s"

section \<open>Properties\<close>

lemma no_buffer_bound:
  "length (no_buffer s) < MAX_BUFFER_LENGTH \<Longrightarrow> length sentence < 4294965248 \<Longrightarrow>
   length (no_buffer (nmea_sentence_received ok sentence n k s)) < MAX_BUFFER_LENGTH"
  by (auto simp: nmea_sentence_received_def send_def Let_def u32_def MAX_BUFFER_LENGTH_def)

lemma receive_part:
  assumes "\<not> no_aborted s" "n \<noteq> 1" "length (no_buffer s) + length p < MAX_BUFFER_LENGTH"
  shows "nmea_sentence_received True p n k s =
    (if n = k \<and> no_buffer s @ p \<noteq> [] then s\<lparr>no_buffer := [], no_sent := (no_buffer s @ p) # no_sent s\<rparr>
     else s\<lparr>no_buffer := no_buffer s @ p\<rparr>)"
  using assms by (simp add: nmea_sentence_received_def send_def Let_def MAX_BUFFER_LENGTH_def u32_id)

lemma receive_parts:
  assumes "\<not> no_aborted s" "length ps + j = n" "2 \<le> n" "n < 256" "ps \<noteq> []"
    "length (no_buffer s @ concat ps) < MAX_BUFFER_LENGTH" "\<forall>p\<in>set ps. p \<noteq> []"
  shows "fold (\<lambda>(k, p). nmea_sentence_received True p (of_nat n) (of_nat k)) (zip [j + 1..<n + 1] ps) s =
    s\<lparr>no_buffer := [], no_sent := (no_buffer s @ concat ps) # no_sent s\<rparr>"
  using assms
proof (induction ps arbitrary: j s)
  case (Cons p ps)
  have n1: "(of_nat n :: u8) \<noteq> 1"
    using Cons.prems(3,4) word_of_nat_eq_iff [where 'a = 8, of n 1]
    by (simp add: take_bit_nat_eq_self)
  have step: "nmea_sentence_received True p (of_nat n) (of_nat (j + 1)) s =
    (if (of_nat n :: u8) = of_nat (j + 1) \<and> no_buffer s @ p \<noteq> []
     then s\<lparr>no_buffer := [], no_sent := (no_buffer s @ p) # no_sent s\<rparr>
     else s\<lparr>no_buffer := no_buffer s @ p\<rparr>)"
    using Cons.prems n1 by (intro receive_part) auto
  have jn: "j + 1 \<le> n" using Cons.prems(2) by simp
  have eq: "(of_nat n :: u8) = of_nat (j + 1) \<longleftrightarrow> n = j + 1"
    using jn Cons.prems(4) by (simp add: word_of_nat_eq_iff take_bit_nat_eq_self del: of_nat_add of_nat_Suc)
  have z: "zip [j + 1..<n + 1] (p # ps) = (j + 1, p) # zip [j + 1 + 1..<n + 1] ps"
    using jn by (simp add: upt_conv_Cons del: upt_Suc)
  show ?case
  proof (cases ps)
    case Nil
    then have "n = j + 1" using Cons.prems(2) by simp
    then show ?thesis using step eq z Nil Cons.prems(7) by simp
  next
    case (Cons q qs)
    then have "n \<noteq> j + 1" using Cons.prems(2) by simp
    then show ?thesis
      using Cons.IH [of "s\<lparr>no_buffer := no_buffer s @ p\<rparr>" "j + 1"] Cons.prems step eq z Cons
      by (simp del: upt_Suc)
  qed
qed simp

text \<open>
  C33. A split message is sent whole: from an empty buffer, the parts of a message in
  order, less than 2048 bytes together, give exactly one datagram that is their concatenation, and
  leave the buffer empty for the next message; a message of one part is sent as it is.
\<close>

theorem nmea_message_sent:
  assumes "no_buffer s = []" and "\<not> no_aborted s" and "parts \<noteq> []" and "length parts < 256"
    and "\<forall>p\<in>set parts. p \<noteq> []" and "length (concat parts) < MAX_BUFFER_LENGTH"
  shows "receive_message parts s = s\<lparr>no_sent := concat parts # no_sent s\<rparr>"
proof (cases "length parts = 1")
  case True
  then obtain p where "parts = [p]" by (auto simp: length_Suc_conv)
  then show ?thesis using assms(2)
    by (simp add: receive_message_def nmea_sentence_received_def send_def)
next
  case False
  then have "2 \<le> length parts" using assms(3) by (cases parts) (auto simp: Suc_le_eq)
  then have "receive_message parts s = s\<lparr>no_buffer := [], no_sent := (no_buffer s @ concat parts) # no_sent s\<rparr>"
    unfolding receive_message_def using assms receive_parts [of s parts 0 "length parts"] by simp
  then show ?thesis using assms(1) by simp
qed

theorem nmea_message_sent_witness:
  "no_sent (receive_message [[1, 2], [3]] nmea_init) = [[1, 2, 3]]"
  using nmea_message_sent [of nmea_init "[[1, 2], [3]]"]
  by (simp add: nmea_init_def MAX_BUFFER_LENGTH_def)

text \<open>
  What is left of a message whose last part never came is sent in front of the next one.
\<close>

lemma nmea_stale_parts:
  assumes "\<not> no_aborted s" and "length (no_buffer s) + length a + length b < MAX_BUFFER_LENGTH"
    and "a \<noteq> []" and "b \<noteq> []"
  shows "no_sent (receive_message [a, b] s) = (no_buffer s @ a @ b) # no_sent s"
  using assms receive_parts [of s "[a, b]" 0 2] by (simp add: receive_message_def numeral_2_eq_2)

end
