(* ===== verification/Dsp.thy ===== *)
theory Dsp
  imports Float64
begin

text \<open>
  The signal path of \<open>rtl_ais_andro.c\<close>: the shift of the two channels by a quarter of the
  sample rate, the decimation by repeated halving with droop compensation, the FM demodulator with
  its integer arctangent, the DC filter, the upsampler and the interleaving of the two channels.
  Buffers of \<open>int16_t\<close> are lists of integers, interleaved real and imaginary parts; every store
  truncates with \<open>s16\<close>. Signed overflow (where the operands do not exclude it) and accesses outside a buffer
  set a flag.
\<close>

definition fits32 :: "int \<Rightarrow> bool" where
  "fits32 i \<longleftrightarrow> - 2147483648 \<le> i \<and> i \<le> 2147483647"

section \<open>Rotation\<close>

text \<open>Eight entries at a time; a rest would be accessed outside the buffer.\<close>

fun rotate_90 :: "int list \<Rightarrow> int list option" where
  "rotate_90 [] = Some []"
| "rotate_90 (a # b # c # d # e # f # g # h # buf) =
     map_option (\<lambda>r. a # b # s16 (- d) # c # s16 (- e) # s16 (- f) # h # s16 (- g) # r) (rotate_90 buf)"
| "rotate_90 _ = None"

fun rotate_m90 :: "int list \<Rightarrow> int list option" where
  "rotate_m90 [] = Some []"
| "rotate_m90 (a # b # c # d # e # f # g # h # buf) =
     map_option (\<lambda>r. a # b # d # s16 (- c) # s16 (- e) # s16 (- f) # s16 (- h) # g # r) (rotate_m90 buf)"
| "rotate_m90 _ = None"

section \<open>Decimation\<close>

definition fifth_out :: "int \<times> int \<times> int \<times> int \<times> int \<times> int \<Rightarrow> int" where
  "fifth_out = (\<lambda>(a, b, c, d, e, f). s16 (drop_bit 4 (a + (b + e) * 5 + (c + d) * 10 + f)))"

text \<open>\<open>off\<close> is the start of the array \<open>data\<close> in the interleaved buffer, 0 or 1.\<close>

function fifth_loop :: "nat \<Rightarrow> int list \<Rightarrow> nat \<Rightarrow> nat \<Rightarrow> int \<times> int \<times> int \<times> int \<times> int \<times> int \<Rightarrow>
    int list \<times> int list" where
  "fifth_loop off data len i (a, b, c, d, e, f) =
     (if i < len then
        let w = (c, d, e, f, data ! (off + i - 2), data ! (off + i))
        in fifth_loop off (data[off + i div 2 := fifth_out w]) len (i + 4) w
      else (data, [a, b, c, d, e, f]))"
  by pat_completeness auto
termination by (relation "measure (\<lambda>(off, data, len, i, w). len - i)") auto

declare fifth_loop.simps [simp del]

definition fifth_order :: "nat \<Rightarrow> int list \<Rightarrow> nat \<Rightarrow> int list \<Rightarrow> int list \<times> int list" where
  "fifth_order off data len hist =
     (let w = (hist ! 1, hist ! 2, hist ! 3, hist ! 4, hist ! 5, data ! off)
      in fifth_loop off (data[off := fifth_out w]) len 4 w)"

definition cic_9_tables :: "int list list" where
  "cic_9_tables = [
     [0, 0, 0, 0, 0, 0, 0, 0, 0, 0],
     [9, -156, -97, 2798, -15489, 61019, -15489, 2798, -97, -156],
     [9, -128, -568, 5593, -24125, 74126, -24125, 5593, -568, -128],
     [9, -129, -639, 6187, -26281, 77511, -26281, 6187, -639, -129],
     [9, -122, -612, 6082, -26353, 77818, -26353, 6082, -612, -122],
     [9, -120, -602, 6015, -26269, 77757, -26269, 6015, -602, -120],
     [9, -120, -582, 5951, -26128, 77542, -26128, 5951, -582, -120],
     [9, -119, -580, 5931, -26094, 77505, -26094, 5931, -580, -119],
     [9, -119, -578, 5921, -26077, 77484, -26077, 5921, -578, -119],
     [9, -119, -577, 5917, -26067, 77473, -26067, 5917, -577, -119],
     [9, -199, -362, 5303, -25505, 77489, -25505, 5303, -362, -199]]"

text \<open>The sum of the nine samples, with a flag: whether all products and partial sums fitted into an \<open>int\<close>.\<close>

definition fir_sum :: "int list \<Rightarrow> int list \<Rightarrow> int \<times> bool" where
  "fir_sum fir hist =
     (let p1 = (hist ! 0 + hist ! 8) * fir ! 1; p2 = (hist ! 1 + hist ! 7) * fir ! 2;
          p3 = (hist ! 2 + hist ! 6) * fir ! 3; p4 = (hist ! 3 + hist ! 5) * fir ! 4;
          p5 = hist ! 4 * fir ! 5
      in (s32 (p1 + p2 + p3 + p4 + p5),
          fits32 p1 \<and> fits32 p2 \<and> fits32 p3 \<and> fits32 p4 \<and> fits32 p5 \<and>
          fits32 (p1 + p2) \<and> fits32 (p1 + p2 + p3) \<and> fits32 (p1 + p2 + p3 + p4) \<and>
          fits32 (p1 + p2 + p3 + p4 + p5)))"

text \<open>The loop from entry \<open>d\<close> on; the output is made of the nine samples before the current one.\<close>

function generic_fir :: "nat \<Rightarrow> int list \<Rightarrow> nat \<Rightarrow> int list \<Rightarrow> nat \<Rightarrow> int list \<Rightarrow>
    int list \<times> int list \<times> bool" where
  "generic_fir off data len fir d hist =
     (if d < len
      then case generic_fir off (data[off + d := s16 (drop_bit 15 (fst (fir_sum fir hist)))]) len fir (d + 2)
             (tl hist @ [data ! (off + d)]) of
           (data, h, ok) \<Rightarrow> (data, h, snd (fir_sum fir hist) \<and> ok)
      else (data, hist, True))"
  by pat_completeness auto
termination by (relation "measure (\<lambda>(off, data, len, fir, d, hist). len - d)") auto

declare generic_fir.simps [simp del]

record downsample_state =
  ds_buf :: "int list"
  ds_len_in :: nat
  ds_len_out :: nat
  ds_rate_in :: int
  ds_rate_out :: int
  ds_downsample :: nat
  ds_passes :: nat
  lp_i_hist :: "int list list"
  lp_q_hist :: "int list list"
  droop_i_hist :: "int list"
  droop_q_hist :: "int list"

definition downsample_pass :: "nat \<Rightarrow> downsample_state \<Rightarrow> downsample_state" where
  "downsample_pass i d =
     (let len = drop_bit i (ds_len_in d);
          (buf, hi) = fifth_order 0 (ds_buf d) len (lp_i_hist d ! i);
          (buf, hq) = fifth_order 1 buf (len - 1) (lp_q_hist d ! i)
      in d\<lparr>ds_buf := buf, lp_i_hist := (lp_i_hist d)[i := hi], lp_q_hist := (lp_q_hist d)[i := hq]\<rparr>)"

text \<open>The flag says that nothing overflowed.\<close>

definition downsample :: "downsample_state \<Rightarrow> downsample_state \<times> bool" where
  "downsample d =
     (let d = fold downsample_pass [0..<ds_passes d] d;
          len = drop_bit (ds_passes d) (ds_len_in d);
          fir = cic_9_tables ! ds_passes d;
          (buf, hi, ok1) = generic_fir 0 (ds_buf d) len fir 0 (droop_i_hist d);
          (buf, hq, ok2) = generic_fir 1 buf (len - 1) fir 0 (droop_q_hist d)
      in (d\<lparr>ds_buf := buf, droop_i_hist := hi, droop_q_hist := hq\<rparr>, ok1 \<and> ok2))"

text \<open>All accesses are inside \<open>lp_i_hist[10]\<close>, \<open>cic_9_tables[11]\<close> and the buffer.\<close>

definition downsample_in_bounds :: "downsample_state \<Rightarrow> bool" where
  "downsample_in_bounds d \<longleftrightarrow> ds_passes d \<le> 10 \<and> ds_len_in d \<le> length (ds_buf d) \<and> 2 \<le> length (ds_buf d)"

section \<open>Demodulation\<close>

text \<open>Values with a flag: whether all results so far fitted into an \<open>int\<close>.\<close>

definition multiply :: "int \<Rightarrow> int \<Rightarrow> int \<Rightarrow> int \<Rightarrow> (int \<times> int) \<times> bool" where
  "multiply ar aj br bj =
     (let cr = ar * br - aj * bj; cj = aj * br + ar * bj
      in ((s32 cr, s32 cj), fits32 cr \<and> fits32 cj))"

definition fast_atan2 :: "int \<Rightarrow> int \<Rightarrow> int \<times> bool" where
  "fast_atan2 y x =
     (if x = 0 \<and> y = 0 then (0, True)
      else
        let pi4 = 4096; pi34 = 3 * 4096; yabs = s32 \<bar>y\<bar>;
            (num, den, base) = (if x \<ge> 0 then (x - yabs, x + yabs, pi4) else (x + yabs, yabs - x, pi34));
            angle = base - s32 (pi4 * num) sdiv s32 den
        in ((if y < 0 then - angle else angle),
            fits32 \<bar>y\<bar> \<and> fits32 num \<and> fits32 den \<and> fits32 (pi4 * num)))"

definition polar_disc_fast :: "int \<Rightarrow> int \<Rightarrow> int \<Rightarrow> int \<Rightarrow> int \<times> bool" where
  "polar_disc_fast ar aj br bj =
     (case multiply ar aj br (- bj) of ((cr, cj), ok1) \<Rightarrow>
        case fast_atan2 cj cr of (angle, ok2) \<Rightarrow> (angle, ok1 \<and> ok2))"

record demod_state =
  dm_buf :: "int list"
  dm_result :: "int list"
  pre_r :: int
  pre_j :: int
  dc_avg :: int

text \<open>Each complex sample against the one before it.\<close>

fun demod_pairs :: "int \<Rightarrow> int \<Rightarrow> int list \<Rightarrow> int list \<times> bool" where
  "demod_pairs pr pj (r # j # buf) =
     (case polar_disc_fast r j pr pj of (pcm, ok1) \<Rightarrow>
        case demod_pairs r j buf of (res, ok2) \<Rightarrow> (s16 pcm # res, ok1 \<and> ok2))"
| "demod_pairs pr pj buf = ([], True)"

text \<open>The flags: no overflow, and no access outside the buffers.\<close>

definition demodulate :: "demod_state \<Rightarrow> demod_state \<times> bool \<times> bool" where
  "demodulate d =
     (let buf = dm_buf d; n = length buf;
          (res, ok) = demod_pairs (pre_r d) (pre_j d) buf
      in (d\<lparr>dm_result := res @ drop (length res) (dm_result d),
            pre_r := buf ! (n - 2), pre_j := buf ! (n - 1)\<rparr>,
          ok, 2 \<le> n \<and> length res \<le> length (dm_result d)))"

definition dc_block_filter :: "demod_state \<Rightarrow> demod_state" where
  "dc_block_filter d =
     (let avg = s32 (sum_list (dm_result d) sdiv int (length (dm_result d)));
          avg = (avg + dc_avg d * 9) sdiv 10
      in d\<lparr>dm_result := map (\<lambda>x. s16 (x - avg)) (dm_result d), dc_avg := avg\<rparr>)"

section \<open>Upsampling and output\<close>

text \<open>
  The remaining \<open>n\<close> outputs at input position \<open>i\<close>; the flag says that all reads were inside
  \<open>buf1\<close>.
\<close>

fun upsample_loop :: "nat \<Rightarrow> int list \<Rightarrow> nat \<Rightarrow> nat \<Rightarrow> nat \<Rightarrow> nat \<Rightarrow> int list \<times> bool" where
  "upsample_loop 0 buf1 len1 len2 i tick = ([], True)"
| "upsample_loop (Suc n) buf1 len1 len2 i tick =
     (let frac = ddiv (of_nat tick) (of_nat len2);
          y = dtrunc (dadd (dmul (of_int (buf1 ! (i - 1))) (dsub 1 frac)) (dmul (of_int (buf1 ! i)) frac));
          ok = (1 \<le> i \<and> i < length buf1);
          tick = tick + len1;
          (tick, i) = (if tick > len2 then (tick - len2, i + 1) else (tick, i));
          (tick, i) = (if i \<ge> len1 then (len2, len1 - 1) else (tick, i))
      in case upsample_loop n buf1 len1 len2 i tick of (ys, oks) \<Rightarrow> (s16 y # ys, ok \<and> oks))"

definition arbitrary_upsample :: "int list \<Rightarrow> nat \<Rightarrow> nat \<Rightarrow> int list \<times> bool" where
  "arbitrary_upsample buf1 len1 len2 = upsample_loop len2 buf1 len1 len2 1 0"

text \<open>The samples of the dongle, unsigned bytes, centred.\<close>

definition convert_samples :: "8 word list \<Rightarrow> int list" where
  "convert_samples buf = map (\<lambda>b. s16 (int (unat b) - 127)) buf"

fun pre_output :: "int list \<Rightarrow> int list \<Rightarrow> int list" where
  "pre_output (l # ls) (r # rs) = l # r # pre_output ls rs"
| "pre_output _ _ = []"

section \<open>One block\<close>

record receiver =
  rx_both :: downsample_state
  rx_left :: downsample_state
  rx_right :: downsample_state
  rx_left_demod :: demod_state
  rx_right_demod :: demod_state
  rx_bl_len :: nat
  rx_dc_filter :: bool

text \<open>\<open>memcpy\<close> of \<open>n\<close> entries, which both buffers must have.\<close>

definition copy_in :: "nat \<Rightarrow> int list \<Rightarrow> int list \<Rightarrow> int list" where
  "copy_in n src dst = take n src @ drop n dst"

definition copy_fits :: "nat \<Rightarrow> int list \<Rightarrow> int list \<Rightarrow> bool" where
  "copy_fits n src dst \<longleftrightarrow> n \<le> length src \<and> n \<le> length dst"

text \<open>
  One channel: copy \<open>n\<close> entries of \<open>both.buf\<close>, rotate the first \<open>len_in\<close>, decimate, copy to the
  demodulator, demodulate, filter, upsample. The flags: no overflow, and no access outside a buffer.
\<close>

definition channel :: "(int list \<Rightarrow> int list option) \<Rightarrow> bool \<Rightarrow> nat \<Rightarrow> nat \<Rightarrow> int list \<Rightarrow>
    downsample_state \<Rightarrow> demod_state \<Rightarrow>
    (int list \<times> downsample_state \<times> demod_state \<times> bool \<times> bool) option" where
  "channel rot dc bl_len n src ds dm =
     (let buf = copy_in n src (ds_buf ds); m0 = copy_fits n src (ds_buf ds)
      in case rot (take (ds_len_in ds) buf) of
        None \<Rightarrow> None
      | Some rotated \<Rightarrow>
          (let ds0 = ds\<lparr>ds_buf := rotated @ drop (ds_len_in ds) buf\<rparr>;
               (ds, ok0) = downsample ds0;
               m1 = copy_fits (ds_len_out ds) (ds_buf ds) (dm_buf dm);
               (dm, ok, m2) = demodulate (dm\<lparr>dm_buf := copy_in (ds_len_out ds) (ds_buf ds) (dm_buf dm)\<rparr>);
               dm = (if dc then dc_block_filter dm else dm);
               (up, m3) = arbitrary_upsample (dm_result dm) (length (dm_result dm)) bl_len
           in Some (up, ds, dm, ok0 \<and> ok,
                m0 \<and> ds_len_in ds0 \<le> length buf \<and> downsample_in_bounds ds0 \<and> m1 \<and> m2 \<and> dm_result dm \<noteq> [] \<and> m3)))"

definition demod_block :: "receiver \<Rightarrow> (int list \<times> receiver \<times> bool \<times> bool) option" where
  "demod_block rx =
     (let (both, ok0) = downsample (rx_both rx); n = ds_len_out both
      in case channel rotate_90 (rx_dc_filter rx) (rx_bl_len rx) n (ds_buf both) (rx_left rx) (rx_left_demod rx) of
           None \<Rightarrow> None
         | Some (up_l, left, left_dm, ok1, m1) \<Rightarrow>
             (case channel rotate_m90 (rx_dc_filter rx) (rx_bl_len rx) n (ds_buf both) (rx_right rx) (rx_right_demod rx) of
                None \<Rightarrow> None
              | Some (up_r, right, right_dm, ok2, m2) \<Rightarrow>
                  Some (pre_output up_l up_r,
                    rx\<lparr>rx_both := both, rx_left := left, rx_right := right,
                       rx_left_demod := left_dm, rx_right_demod := right_dm\<rparr>,
                    ok0 \<and> ok1 \<and> ok2, downsample_in_bounds (rx_both rx) \<and> m1 \<and> m2)))"

section \<open>The two threads\<close>

text \<open>
  The callback of the streaming, with the value of \<open>do_exit\<close>: it writes the block over the first
  entries of \<open>both.buf\<close>; \<open>None\<close> when the block is longer than the buffer.
\<close>

definition rtlsdr_callback :: "bool \<Rightarrow> 8 word list \<Rightarrow> receiver \<Rightarrow> receiver option" where
  "rtlsdr_callback do_exit buf rx =
     (if do_exit then Some rx
      else if length (ds_buf (rx_both rx)) < length buf then None
      else Some (rx\<lparr>rx_both := (rx_both rx)\<lparr>ds_buf := convert_samples buf @ drop (length buf) (ds_buf (rx_both rx))\<rparr>\<rparr>))"

text \<open>
  The callback and the demodulator thread share only \<open>both\<close>, and each holds its lock for all its
  accesses, so every interleaving is a sequence of callbacks and rounds of the demodulator. The condition
  variable does not restrict it: a signal is lost when nobody waits, and a thread that waits may be woken without one.
  A round that leaves its buffers makes the run undefined.
\<close>

datatype rx_event = Usb_block bool "8 word list" | Demod_round

fun receiver_run :: "rx_event list \<Rightarrow> receiver \<Rightarrow> (int list list \<times> receiver) option" where
  "receiver_run [] rx = Some ([], rx)"
| "receiver_run (Usb_block do_exit buf # es) rx = (case rtlsdr_callback do_exit buf rx of
     None \<Rightarrow> None | Some rx \<Rightarrow> receiver_run es rx)"
| "receiver_run (Demod_round # es) rx = (case demod_block rx of
     None \<Rightarrow> None
   | Some (out, rx, ok, inside) \<Rightarrow>
       if inside then map_option (\<lambda>(outs, rx). (out # outs, rx)) (receiver_run es rx) else None)"

end
