(* ===== verification/DspBlock.thy ===== *)
theory DspBlock
  imports DspProps
begin

text \<open>
  The demodulator's arctangent, the silent setting of the decimator, and the shape of a block: the
  buffers of the receiver keep their sizes and no access leaves them.
\<close>

section \<open>The integer arctangent\<close>

lemma sdiv_pos: "0 < (d :: int) \<Longrightarrow> 0 \<le> n \<Longrightarrow> n sdiv d = n div d"
  by (auto simp: signed_divide_int_def sgn_if)

lemma sdiv_neg: "0 < (d :: int) \<Longrightarrow> n \<le> 0 \<Longrightarrow> n sdiv d = - (- n div d)"
  by (auto simp: signed_divide_int_def sgn_if)

lemma slope_bounds:
  assumes "0 < (d :: int)" "\<bar>n\<bar> \<le> d"
  shows "0 \<le> n \<Longrightarrow> 0 \<le> 4096 * n sdiv d \<and> 4096 * n sdiv d \<le> 4096"
    and "n \<le> 0 \<Longrightarrow> - 4096 \<le> 4096 * n sdiv d \<and> 4096 * n sdiv d \<le> 0"
proof -
  have le: "4096 * m div d \<le> 4096" if "m \<le> d" for m
    using zdiv_mono1 [of "4096 * m" "4096 * d" d] that assms(1) by simp
  show "0 \<le> n \<Longrightarrow> 0 \<le> 4096 * n sdiv d \<and> 4096 * n sdiv d \<le> 4096"
    using le [of n] assms by (simp add: sdiv_pos pos_imp_zdiv_nonneg_iff)
  show "n \<le> 0 \<Longrightarrow> - 4096 \<le> 4096 * n sdiv d \<and> 4096 * n sdiv d \<le> 0"
    using le [of "- n"] assms by (simp add: sdiv_neg pos_imp_zdiv_nonneg_iff)
qed

text \<open>
  The integer arctangent is right to the octant: for arguments below \<open>2^18\<close> no operation
  overflows, the result keeps the sign of \<open>y\<close> and lies in the octant of the angle, on the scale
  where \<open>2^14\<close> stands for a half turn.
\<close>

lemma fast_atan2_octant:
  assumes "\<bar>x\<bar> < 262144" and "\<bar>y\<bar> < 262144" and "x \<noteq> 0 \<or> y \<noteq> 0"
    and "fast_atan2 y x = (angle, ok)"
  shows "ok \<and> (if y < 0 then angle \<le> 0 else 0 \<le> angle) \<and>
    (\<bar>angle\<bar> \<in> (if \<bar>y\<bar> \<le> x then {0..4096} else if 0 \<le> x then {4096..8192}
       else if - x \<le> \<bar>y\<bar> then {8192..12288} else {12288..16384}))"
proof -
  have fits: "fits32 i" "s32 i = i" if "\<bar>i\<bar> \<le> 2147483647" for i
    using that by (auto simp: fits32_def s32_id)
  have yabs: "s32 \<bar>y\<bar> = \<bar>y\<bar>" "fits32 \<bar>y\<bar>" using assms(2) by (simp_all add: fits)
  show ?thesis
  proof (cases "0 \<le> x")
    case True
    let ?n = "x - \<bar>y\<bar>" and ?d = "x + \<bar>y\<bar>"
    have d: "0 < ?d" "\<bar>?n\<bar> \<le> ?d" using True assms(3) by auto
    have s: "s32 (4096 * ?n) = 4096 * ?n" "s32 ?d = ?d" "fits32 ?n" "fits32 ?d" "fits32 (4096 * ?n)"
      using True assms(1,2) by (intro fits; simp)+
    have "ok" "angle = (let a = 4096 - 4096 * ?n sdiv ?d in if y < 0 then - a else a)"
      using assms(3,4) True s yabs by (auto simp: fast_atan2_def Let_def)
    then show ?thesis using slope_bounds [OF d] True by (auto simp: Let_def)
  next
    case False
    let ?n = "x + \<bar>y\<bar>" and ?d = "\<bar>y\<bar> - x"
    have d: "0 < ?d" "\<bar>?n\<bar> \<le> ?d" using False by auto
    have s: "s32 (4096 * ?n) = 4096 * ?n" "s32 ?d = ?d" "fits32 ?n" "fits32 ?d" "fits32 (4096 * ?n)"
      using False assms(1,2) by (intro fits; simp)+
    have "ok" "angle = (let a = 12288 - 4096 * ?n sdiv ?d in if y < 0 then - a else a)"
      using assms(4) False s yabs by (auto simp: fast_atan2_def Let_def)
    then show ?thesis using slope_bounds [OF d] False by (auto simp: Let_def)
  qed
qed

lemma fast_atan2_octant_example: "\<bar>fst (fast_atan2 (- 3) 5)\<bar> \<le> 4096"
proof -
  obtain angle ok where run: "fast_atan2 (- 3) 5 = (angle, ok)" by fastforce
  from fast_atan2_octant [OF _ _ _ run] show ?thesis unfolding run fst_conv by (auto simp: abs_le_iff)
qed

text \<open>
  The demodulator overflows on strong signals: for two equal samples of amplitude \<open>a\<close> the
  phase difference is computed as 0 for \<open>a\<close> up to 724, but from 725 on (the decimator can reach 8192)
  the product \<open>4096 a^2\<close> leaves the 32-bit range, and for a power of two from 1024 on the wrapped
  result is an eighth of a turn instead of 0.
\<close>

lemma polar_disc_overflows:
  assumes "0 < a" and "a \<le> 32767"
  shows "if a \<le> 724 then polar_disc_fast a 0 a 0 = (0, True)
    else \<not> snd (polar_disc_fast a 0 a 0) \<and>
      (\<forall>k. a = 2 ^ k \<longrightarrow> polar_disc_fast a 0 a 0 = (4096, False))"
proof -
  have "a * a \<le> 32767 * 32767" using assms by (intro mult_mono) auto
  moreover have "- 2147483648 \<le> a * a" by (rule order_trans [OF _ zero_le_square]) simp
  ultimately have "s32 (a * a) = a * a" "fits32 (a * a)" by (simp_all add: s32_id fits32_def)
  then have m: "multiply a 0 a (- 0) = ((a * a, 0), True)"
    using assms by (simp add: multiply_def Let_def s32_id fits32_def)
  have p: "polar_disc_fast a 0 a 0 = (4096 - s32 (4096 * (a * a)) sdiv (a * a), fits32 (4096 * (a * a)))"
    using m assms \<open>s32 (a * a) = a * a\<close> \<open>fits32 (a * a)\<close>
    by (simp add: polar_disc_fast_def fast_atan2_def Let_def s32_id) (simp add: fits32_def)
  show ?thesis
  proof (cases "a \<le> 724")
    case True
    then have "a * a \<le> 724 * 724" using assms by (intro mult_mono) auto
    moreover have "- 524288 \<le> a * a" by (rule order_trans [OF _ zero_le_square]) simp
    ultimately have "s32 (4096 * (a * a)) = 4096 * (a * a)" "fits32 (4096 * (a * a))"
      by (simp_all add: s32_id fits32_def)
    then show ?thesis using p True assms by (simp add: sdiv_pos)
  next
    case False
    then have "725 * 725 \<le> a * a" by (intro mult_mono) auto
    then have nf: "\<not> fits32 (4096 * (a * a))" by (simp add: fits32_def)
    have "polar_disc_fast a 0 a 0 = (4096, False)" if k: "a = 2 ^ k" for k
    proof -
      have "10 \<le> k"
      proof (rule ccontr)
        assume "\<not> 10 \<le> k"
        then have "(2 :: int) ^ k \<le> 2 ^ 9" by (intro power_increasing) auto
        then show False using k False by simp
      qed
      then have "4096 * (a * a) = 4294967296 * (2 ^ (2 * k - 20))"
      proof -
        have "4096 * (a * a) = (2 :: int) ^ (12 + (k + k))" by (simp only: k power_add) simp
        also have "\<dots> = 2 ^ (32 + (2 * k - 20))" using \<open>10 \<le> k\<close> by (intro arg_cong [where f = "(^) 2"]) simp
        finally show ?thesis by (simp only: power_add) simp
      qed
      then have "s32 (4096 * (a * a)) = 0"
        by (simp add: s32_def signed_take_bit_eq_take_bit_shift take_bit_eq_mod)
      then show ?thesis using p nf by simp
    qed
    then show ?thesis using p nf False by simp
  qed
qed

lemma polar_disc_overflows_example: "polar_disc_fast 8192 0 8192 0 = (4096, False)"
proof -
  have "\<forall>k. (8192 :: int) = 2 ^ k \<longrightarrow> polar_disc_fast 8192 0 8192 0 = (4096, False)"
    using polar_disc_overflows [of 8192] by (simp del: ex_simps all_simps)
  moreover have "(8192 :: int) = 2 ^ 13" by simp
  ultimately show ?thesis by blast
qed

section \<open>The silent setting\<close>

lemma fir_sum_zero: "fst (fir_sum (cic_9_tables ! 0) hist) = 0"
  by (simp add: fir_sum_def cic_9_tables_def s32_def)

lemma length_generic_fir: "length (fst (generic_fir off data len fir d hist)) = length data"
  "hist \<noteq> [] \<Longrightarrow> length (fst (snd (generic_fir off data len fir d hist))) = length hist"
  by (induction off data len fir d hist rule: generic_fir.induct)
    (subst generic_fir.simps, auto split: prod.splits)+

lemma generic_fir_silent:
  "off + len \<le> length data \<Longrightarrow> k < length data \<Longrightarrow>
   fst (generic_fir off data len (cic_9_tables ! 0) d hist) ! k =
     (if off + d \<le> k \<and> even (k - (off + d)) \<and> k < off + len then 0 else data ! k)"
proof (induction off data len "cic_9_tables ! 0" d hist rule: generic_fir.induct)
  case (1 off data len d hist)
  show ?case
  proof (cases "d < len")
    case True
    let ?data = "data[off + d := s16 (drop_bit 15 (fst (fir_sum (cic_9_tables ! 0) hist)))]"
    have z: "?data = data[off + d := 0]" by (simp add: fir_sum_zero s16_def)
    have "fst (generic_fir off ?data len (cic_9_tables ! 0) (d + 2) (tl hist @ [data ! (off + d)])) ! k =
       (if off + (d + 2) \<le> k \<and> even (k - (off + (d + 2))) \<and> k < off + len then 0 else ?data ! k)"
      using "1.prems" by (intro "1.hyps" [OF True]) auto
    moreover have "(off + d \<le> k \<and> even (k - (off + d)) \<and> k < off + len) \<longleftrightarrow>
        (k = off + d \<or> off + (d + 2) \<le> k \<and> even (k - (off + (d + 2))) \<and> k < off + len)"
      using True by presburger
    ultimately show ?thesis using True "1.prems" unfolding z
      by (subst generic_fir.simps) (auto simp: z nth_list_update split: prod.splits)
  next
    case False
    then show ?thesis using "1.prems" by (subst generic_fir.simps) auto
  qed
qed

lemma fold_passes_0: "ds_passes d = 0 \<Longrightarrow> fold downsample_pass [0..<ds_passes d] d = d"
  by simp

text \<open>
  Without a decimation step nothing is left of the signal: the row of the compensation
  table for zero passes is all zeros, so \<open>downsample\<close> with \<open>downsample_passes = 0\<close> (channels more
  than 600 kHz apart, or a sample rate above the channel spacing) overwrites every sample with 0.
\<close>

lemma downsample_silent:
  assumes "ds_passes d = 0" and "length (ds_buf d) = ds_len_in d" and "0 < ds_len_in d"
  shows "ds_buf (fst (downsample d)) = replicate (ds_len_in d) 0"
proof (rule nth_equalityI)
  obtain b1 h1 k1 where g1: "generic_fir 0 (ds_buf d) (ds_len_in d) (cic_9_tables ! 0) 0 (droop_i_hist d) = (b1, h1, k1)"
    using prod_cases3 by blast
  obtain b2 h2 k2 where g2: "generic_fir 1 b1 (ds_len_in d - 1) (cic_9_tables ! 0) 0 (droop_q_hist d) = (b2, h2, k2)"
    using prod_cases3 by blast
  have b: "ds_buf (fst (downsample d)) = b2" using assms(1) g1 g2 by (simp add: downsample_def Let_def)
  have len: "length b1 = ds_len_in d" "length b2 = ds_len_in d"
    using length_generic_fir(1) [of 0 "ds_buf d" "ds_len_in d" "cic_9_tables ! 0" 0 "droop_i_hist d"]
      length_generic_fir(1) [of 1 b1 "ds_len_in d - 1" "cic_9_tables ! 0" 0 "droop_q_hist d"] g1 g2 assms(2)
    by simp_all
  show "length (ds_buf (fst (downsample d))) = length (replicate (ds_len_in d) 0)" by (simp add: b len)
  fix k assume "k < length (ds_buf (fst (downsample d)))"
  then have k: "k < ds_len_in d" by (simp add: b len)
  have "b1 ! k = (if even k then 0 else ds_buf d ! k)"
    using generic_fir_silent [of 0 "ds_len_in d" "ds_buf d" k 0 "droop_i_hist d"] g1 assms(2) k by simp
  moreover have "b2 ! k = (if 1 \<le> k \<and> even (k - 1) then 0 else b1 ! k)"
    using generic_fir_silent [of 1 "ds_len_in d - 1" b1 k 0 "droop_q_hist d"] g2 len k assms(3) by auto
  ultimately show "ds_buf (fst (downsample d)) ! k = replicate (ds_len_in d) 0 ! k"
    using k by (cases k) (auto simp: b)
qed

definition example_stage :: "nat \<Rightarrow> nat \<Rightarrow> int list \<Rightarrow> downsample_state" where
  "example_stage passes n buf = \<lparr>ds_buf = buf, ds_len_in = n, ds_len_out = n div 2 ^ passes,
     ds_rate_in = 0, ds_rate_out = 0, ds_downsample = 2 ^ passes, ds_passes = passes,
     lp_i_hist = replicate 10 (replicate 6 0), lp_q_hist = replicate 10 (replicate 6 0),
     droop_i_hist = replicate 9 0, droop_q_hist = replicate 9 0\<rparr>"

lemma downsample_silent_example:
  "ds_buf (fst (downsample (example_stage 0 4 [100, -3, 90, 25]))) = [0, 0, 0, 0]"
  using downsample_silent [of "example_stage 0 4 [100, -3, 90, 25]"]
  by (simp add: example_stage_def numeral_eq_Suc)

section \<open>The shape of a block\<close>

definition stage_ok :: "downsample_state \<Rightarrow> bool" where
  "stage_ok d \<longleftrightarrow> ds_passes d \<le> 10 \<and> ds_len_out d * 2 ^ ds_passes d = ds_len_in d \<and> 4 \<le> ds_len_out d \<and>
     even (ds_len_out d) \<and>
     length (lp_i_hist d) = 10 \<and> length (lp_q_hist d) = 10 \<and>
     list_all (\<lambda>h. length h = 6) (lp_i_hist d @ lp_q_hist d) \<and>
     length (droop_i_hist d) = 9 \<and> length (droop_q_hist d) = 9"

definition rx_ok :: "receiver \<Rightarrow> bool" where
  "rx_ok rx \<longleftrightarrow> stage_ok (rx_both rx) \<and> stage_ok (rx_left rx) \<and> stage_ok (rx_right rx) \<and>
     length (ds_buf (rx_both rx)) = ds_len_in (rx_both rx) \<and>
     length (ds_buf (rx_left rx)) = ds_len_in (rx_left rx) \<and>
     length (ds_buf (rx_right rx)) = ds_len_in (rx_right rx) \<and> 8 dvd ds_len_out (rx_both rx) \<and>
     ds_len_in (rx_left rx) = ds_len_out (rx_both rx) \<and> ds_len_in (rx_right rx) = ds_len_out (rx_both rx) \<and>
     length (dm_buf (rx_left_demod rx)) = ds_len_out (rx_left rx) \<and>
     length (dm_buf (rx_right_demod rx)) = ds_len_out (rx_right rx) \<and>
     2 * length (dm_result (rx_left_demod rx)) = ds_len_out (rx_left rx) \<and>
     2 * length (dm_result (rx_right_demod rx)) = ds_len_out (rx_right rx) \<and>
     length (dm_result (rx_left_demod rx)) \<le> rx_bl_len rx \<and>
     length (dm_result (rx_right_demod rx)) \<le> rx_bl_len rx"

lemma length_fifth_loop:
  "length (fst (fifth_loop off data len i w)) = length data \<and> length (snd (fifth_loop off data len i w)) = 6"
  by (induction off data len i w rule: fifth_loop.induct) (subst (1 2) fifth_loop.simps, auto simp: Let_def)

lemma length_fifth_order:
  "length (fst (fifth_order off data len hist)) = length data"
  "length (snd (fifth_order off data len hist)) = 6"
  by (simp_all add: fifth_order_def Let_def length_fifth_loop)

text \<open>What a stage keeps.\<close>

definition same_stage :: "downsample_state \<Rightarrow> downsample_state \<Rightarrow> bool" where
  "same_stage d e \<longleftrightarrow> ds_len_in e = ds_len_in d \<and> ds_len_out e = ds_len_out d \<and> ds_passes e = ds_passes d \<and>
     length (ds_buf e) = length (ds_buf d) \<and> (stage_ok d \<longrightarrow> stage_ok e)"

lemma same_stage_refl: "same_stage d d"
  by (simp add: same_stage_def)

lemma stage_le: "stage_ok d \<Longrightarrow> ds_len_out d \<le> ds_len_in d \<and> 4 \<le> ds_len_out d"
proof -
  assume ok: "stage_ok d"
  have "ds_len_out d \<le> ds_len_out d * 2 ^ ds_passes d" by simp
  also have "\<dots> = ds_len_in d" using ok by (simp add: stage_ok_def)
  finally show ?thesis using ok by (simp add: stage_ok_def)
qed

lemma same_stage_trans: "same_stage d e \<Longrightarrow> same_stage e g \<Longrightarrow> same_stage d g"
  by (simp add: same_stage_def)

lemma same_stage_pass: "same_stage d (downsample_pass i d)"
proof -
  let ?len = "drop_bit i (ds_len_in d)"
  obtain b1 h1 where 1: "fifth_order 0 (ds_buf d) ?len (lp_i_hist d ! i) = (b1, h1)" by fastforce
  obtain b2 h2 where 2: "fifth_order 1 b1 (?len - 1) (lp_q_hist d ! i) = (b2, h2)" by fastforce
  have "length b1 = length (ds_buf d)" "length h1 = 6" "length b2 = length b1" "length h2 = 6"
    using length_fifth_order [of 0 "ds_buf d" ?len "lp_i_hist d ! i"]
      length_fifth_order [of 1 b1 "?len - 1" "lp_q_hist d ! i"] 1 2 by simp_all
  then show ?thesis using 1 2
    by (auto simp: same_stage_def downsample_pass_def Let_def stage_ok_def list_all_iff
      dest!: set_update_subset_insert [THEN subsetD])
qed

lemma same_stage_downsample: "same_stage d (fst (downsample d))"
proof -
  define e where "e = fold downsample_pass [0..<ds_passes d] d"
  have "same_stage d (fold downsample_pass is d)" for "is"
    by (induction "is" arbitrary: d)
      (auto intro: same_stage_refl same_stage_trans [OF same_stage_pass])
  then have e: "same_stage d e" by (simp add: e_def)
  let ?len = "drop_bit (ds_passes e) (ds_len_in e)" and ?fir = "cic_9_tables ! ds_passes e"
  obtain b1 h1 k1 where 1: "generic_fir 0 (ds_buf e) ?len ?fir 0 (droop_i_hist e) = (b1, h1, k1)"
    using prod_cases3 by blast
  obtain b2 h2 k2 where 2: "generic_fir 1 b1 (?len - 1) ?fir 0 (droop_q_hist e) = (b2, h2, k2)"
    using prod_cases3 by blast
  have len: "length b2 = length (ds_buf e)"
    using length_generic_fir(1) [of 0 "ds_buf e" ?len ?fir 0 "droop_i_hist e"]
      length_generic_fir(1) [of 1 b1 "?len - 1" ?fir 0 "droop_q_hist e"] 1 2 by simp
  have hist: "length h1 = 9" "length h2 = 9" if "stage_ok e"
    using that [unfolded stage_ok_def, THEN conjunct2, THEN conjunct2, THEN conjunct2, THEN conjunct2,
      THEN conjunct2, THEN conjunct2, THEN conjunct2] length_generic_fir(2) [of "droop_i_hist e" 0 "ds_buf e" ?len ?fir 0]
      length_generic_fir(2) [of "droop_q_hist e" 1 b1 "?len - 1" ?fir 0] 1 2
    by (cases "droop_i_hist e"; cases "droop_q_hist e"; simp)+
  have "fst (downsample d) = e\<lparr>ds_buf := b2, droop_i_hist := h1, droop_q_hist := h2\<rparr>"
    using 1 2 by (simp add: downsample_def e_def [symmetric] Let_def)
  then show ?thesis using e len hist by (auto simp: same_stage_def stage_ok_def)
qed

lemma length_demod_pairs: "length (fst (demod_pairs pr pj buf)) = length buf div 2"
  by (induction pr pj buf rule: demod_pairs.induct) (auto split: prod.splits)

lemma upsample_loop_ok:
  "1 \<le> i \<Longrightarrow> i < len1 \<Longrightarrow> len1 \<le> len2 \<Longrightarrow> 2 \<le> len1 \<Longrightarrow> length buf1 = len1 \<Longrightarrow> tick \<le> len2 \<Longrightarrow>
   snd (upsample_loop n buf1 len1 len2 i tick) \<and> length (fst (upsample_loop n buf1 len1 len2 i tick)) = n \<and>
   list_all int16 (fst (upsample_loop n buf1 len1 len2 i tick))"
proof (induction n arbitrary: i tick)
  case (Suc n)
  define t1 i1 where "t1 = (if tick + len1 > len2 then tick + len1 - len2 else tick + len1)"
    and "i1 = (if tick + len1 > len2 then i + 1 else i)"
  define t2 i2 where "t2 = (if i1 \<ge> len1 then len2 else t1)" and "i2 = (if i1 \<ge> len1 then len1 - 1 else i1)"
  have "1 \<le> i2" "i2 < len1" "t2 \<le> len2"
    using Suc.prems by (auto simp: t1_def i1_def t2_def i2_def)
  note IH = Suc.IH [OF this(1,2) Suc.prems(3,4,5) this(3)]
  have "fst (upsample_loop (Suc n) buf1 len1 len2 i tick) =
      s16 (dtrunc (dadd (dmul (of_int (buf1 ! (i - 1))) (dsub 1 (ddiv (of_nat tick) (of_nat len2))))
        (dmul (of_int (buf1 ! i)) (ddiv (of_nat tick) (of_nat len2))))) # fst (upsample_loop n buf1 len1 len2 i2 t2)"
    "snd (upsample_loop (Suc n) buf1 len1 len2 i tick) \<longleftrightarrow> 1 \<le> i \<and> i < length buf1 \<and> snd (upsample_loop n buf1 len1 len2 i2 t2)"
    by (auto simp: Let_def t1_def i1_def t2_def i2_def split: prod.splits)
  then show ?case using IH Suc.prems by simp
qed simp

lemma pre_output_length:
  "length ls = length rs \<Longrightarrow> length (pre_output ls rs) = 2 * length ls \<and>
   (list_all int16 ls \<longrightarrow> list_all int16 rs \<longrightarrow> list_all int16 (pre_output ls rs))"
  by (induction ls rs rule: list_induct2) auto

lemma copy_all: "length dst = n \<Longrightarrow> copy_in n src dst = take n src"
  by (simp add: copy_in_def)

lemma channel_ok:
  assumes "stage_ok ds" "length (ds_buf ds) = ds_len_in ds" "ds_len_in ds \<le> length src"
    "rot (take (ds_len_in ds) src) = Some r" "length r = ds_len_in ds"
    "length (dm_buf dm) = ds_len_out ds" "2 * length (dm_result dm) = ds_len_out ds" "length (dm_result dm) \<le> bl"
  shows "\<exists>up ds' dm' ok. channel rot dc bl (ds_len_in ds) src ds dm = Some (up, ds', dm', ok, True) \<and>
    same_stage (ds\<lparr>ds_buf := r\<rparr>) ds' \<and> length (dm_buf dm') = length (dm_buf dm) \<and>
    length (dm_result dm') = length (dm_result dm) \<and> length up = bl \<and> list_all int16 up"
proof -
  define ds0 where "ds0 = ds\<lparr>ds_buf := r\<rparr>"
  obtain ds1 ok0 where ds1: "downsample ds0 = (ds1, ok0)" by fastforce
  have ss: "same_stage ds0 ds1" using same_stage_downsample [of ds0] ds1 by simp
  have out: "ds_len_out ds1 = ds_len_out ds" "length (ds_buf ds1) = ds_len_in ds"
    using ss assms by (simp_all add: same_stage_def ds0_def)
  have le: "ds_len_out ds \<le> ds_len_in ds" "4 \<le> ds_len_out ds"
    using stage_le [OF assms(1)] by simp_all
  define dm0 where "dm0 = dm\<lparr>dm_buf := copy_in (ds_len_out ds1) (ds_buf ds1) (dm_buf dm)\<rparr>"
  obtain dm1 ok m1 where d: "demodulate dm0 = (dm1, ok, m1)" using prod_cases3 by blast
  have lb: "length (dm_buf dm0) = ds_len_out ds" using out le assms(6) by (simp add: dm0_def copy_all)
  then have d1: "m1" "length (dm_result dm1) = length (dm_result dm)" "dm_buf dm1 = dm_buf dm0"
    using d assms(7) le length_demod_pairs [of "pre_r dm0" "pre_j dm0" "dm_buf dm0"]
    by (auto simp: demodulate_def Let_def dm0_def split: prod.splits)
  define dm2 where "dm2 = (if dc then dc_block_filter dm1 else dm1)"
  have d2: "length (dm_result dm2) = length (dm_result dm)" "dm_buf dm2 = dm_buf dm0"
    using d1 by (simp_all add: dm2_def dc_block_filter_def Let_def)
  obtain up m2 where u: "arbitrary_upsample (dm_result dm2) (length (dm_result dm2)) bl = (up, m2)" by fastforce
  have "2 \<le> length (dm_result dm2)" using d2 le assms(7) by simp
  then have up: "m2" "length up = bl" "list_all int16 up" "dm_result dm2 \<noteq> []"
    using upsample_loop_ok [of 1 "length (dm_result dm2)" bl "dm_result dm2" 0 bl] u d2 assms(8)
    by (auto simp: arbitrary_upsample_def)
  have "downsample_in_bounds ds0" using assms le
    by (simp add: downsample_in_bounds_def ds0_def stage_ok_def)
  moreover have "copy_fits (ds_len_out ds1) (ds_buf ds1) (dm_buf dm)" "copy_fits (ds_len_in ds) src (ds_buf ds)"
    using out le assms by (simp_all add: copy_fits_def)
  moreover have "ds_len_in ds0 = ds_len_in ds" by (simp add: ds0_def)
  ultimately have "channel rot dc bl (ds_len_in ds) src ds dm = Some (up, ds1, dm2, ok0 \<and> ok, True)"
    using assms(2-5) d d1 u ds1 up
    by (simp add: channel_def Let_def copy_all flip: ds0_def dm0_def dm2_def)
  then show ?thesis using ss d2 up lb assms(6) by (auto simp: ds0_def)
qed

text \<open>One round of the demodulator thread.\<close>

lemma demod_block_shape:
  assumes "rx_ok rx"
  shows "\<exists>out rx' ok. demod_block rx = Some (out, rx', ok, True) \<and> rx_ok rx' \<and>
    length out = 2 * rx_bl_len rx \<and> list_all int16 out \<and>
    rx_bl_len rx' = rx_bl_len rx \<and> ds_len_in (rx_both rx') = ds_len_in (rx_both rx)"
proof -
  note o = assms [unfolded rx_ok_def]
  obtain both ok0 where both: "downsample (rx_both rx) = (both, ok0)" by fastforce
  have sb: "same_stage (rx_both rx) both" using same_stage_downsample [of "rx_both rx"] both by simp
  let ?src = "ds_buf both" and ?n = "ds_len_out (rx_both rx)"
  have n: "ds_len_out both = ?n" "?n \<le> length ?src"
    using sb o stage_le [of "rx_both rx"] by (simp_all add: same_stage_def)
  have lb: "length (take ?n ?src) = ?n" using n by simp
  obtain r1 where r1: "rotate_90 (take ?n ?src) = Some r1" using rotate_shape [of "take ?n ?src"] lb o by auto
  obtain r2 where r2: "rotate_m90 (take ?n ?src) = Some r2" using rotate_shape [of "take ?n ?src"] lb o by auto
  have lr: "length r1 = ?n" "length r2 = ?n" using rotate_pairs [OF r1] rotate_m_pairs [OF r2] lb by simp_all
  have len: "ds_len_in (rx_left rx) = ?n" "ds_len_in (rx_right rx) = ?n" using o by simp_all
  obtain up1 ds1 dm1 ok1 where c1: "channel rotate_90 (rx_dc_filter rx) (rx_bl_len rx) ?n ?src (rx_left rx) (rx_left_demod rx) =
      Some (up1, ds1, dm1, ok1, True)" "same_stage ((rx_left rx)\<lparr>ds_buf := r1\<rparr>) ds1"
      "length (dm_buf dm1) = length (dm_buf (rx_left_demod rx))"
      "length (dm_result dm1) = length (dm_result (rx_left_demod rx))" "length up1 = rx_bl_len rx" "list_all int16 up1"
    using channel_ok [where rot = rotate_90 and src = ?src and r = r1 and ds = "rx_left rx", of "rx_left_demod rx" "rx_bl_len rx" "rx_dc_filter rx"]
      r1 lr len n o by auto
  obtain up2 ds2 dm2 ok2 where c2: "channel rotate_m90 (rx_dc_filter rx) (rx_bl_len rx) ?n ?src (rx_right rx) (rx_right_demod rx) =
      Some (up2, ds2, dm2, ok2, True)" "same_stage ((rx_right rx)\<lparr>ds_buf := r2\<rparr>) ds2"
      "length (dm_buf dm2) = length (dm_buf (rx_right_demod rx))"
      "length (dm_result dm2) = length (dm_result (rx_right_demod rx))" "length up2 = rx_bl_len rx" "list_all int16 up2"
    using channel_ok [where rot = rotate_m90 and src = ?src and r = r2 and ds = "rx_right rx", of "rx_right_demod rx" "rx_bl_len rx" "rx_dc_filter rx"]
      r2 lr len n o by auto
  define rx' where "rx' = rx\<lparr>rx_both := both, rx_left := ds1, rx_right := ds2,
      rx_left_demod := dm1, rx_right_demod := dm2\<rparr>"
  have "downsample_in_bounds (rx_both rx)" using o stage_le [of "rx_both rx"]
    by (simp add: downsample_in_bounds_def stage_ok_def)
  then have "demod_block rx = Some (pre_output up1 up2, rx', ok0 \<and> ok1 \<and> ok2, True)"
    using c1(1) c2(1) by (simp add: demod_block_def Let_def rx'_def both n)
  moreover have "rx_ok rx'" using o sb c1(2-4) c2(2-4) lr len
    by (simp add: rx_ok_def rx'_def same_stage_def stage_ok_def)
  moreover have "rx_bl_len rx' = rx_bl_len rx" "ds_len_in (rx_both rx') = ds_len_in (rx_both rx)"
    using sb by (simp_all add: rx'_def same_stage_def)
  ultimately show ?thesis using pre_output_length [of up1 up2] c1 c2 by auto
qed

lemma rtlsdr_callback_ok:
  assumes "rx_ok rx" "length buf \<le> ds_len_in (rx_both rx)"
  shows "\<exists>rx'. rtlsdr_callback ex buf rx = Some rx' \<and> rx_ok rx' \<and>
    rx_bl_len rx' = rx_bl_len rx \<and> ds_len_in (rx_both rx') = ds_len_in (rx_both rx)"
  using assms by (auto simp: rtlsdr_callback_def rx_ok_def stage_ok_def convert_samples_def)

definition example_demod :: demod_state where
  "example_demod = \<lparr>dm_buf = replicate 8 0, dm_result = replicate 4 0, pre_r = 0, pre_j = 0, dc_avg = 0\<rparr>"

definition example_rx :: receiver where
  "example_rx = \<lparr>rx_both = example_stage 1 32 (replicate 32 5), rx_left = example_stage 1 16 (replicate 16 0),
     rx_right = example_stage 1 16 (replicate 16 0), rx_left_demod = example_demod, rx_right_demod = example_demod,
     rx_bl_len = 6, rx_dc_filter = True\<rparr>"

definition rounds :: "rx_event list \<Rightarrow> nat" where
  "rounds es = length (List.filter (\<lambda>e. e = Demod_round) es)"

definition blocks_fit :: "nat \<Rightarrow> rx_event list \<Rightarrow> bool" where
  "blocks_fit n es = list_all (\<lambda>e. case e of Usb_block ex buf \<Rightarrow> length buf \<le> n | Demod_round \<Rightarrow> True) es"

text \<open>
  C30. The receiver stays inside its buffers: from a receiver with at most ten passes per stage,
  lengths that divide, and no fewer outputs than demodulated samples, in every interleaving of the callback, with
  blocks that are no longer than the first buffer, and the demodulator thread, each round of that thread gives
  exactly two times \<open>bl_len\<close> samples of 16 bits, no access is outside a buffer, and every buffer and
  history keeps its size.
\<close>

theorem receiver_run_inside:
  assumes "rx_ok rx" "blocks_fit (ds_len_in (rx_both rx)) es"
  shows "\<exists>outs rx'. receiver_run es rx = Some (outs, rx') \<and> rx_ok rx' \<and> length outs = rounds es \<and>
    list_all (\<lambda>out. length out = 2 * rx_bl_len rx \<and> list_all int16 out) outs"
  using assms
proof (induction es arbitrary: rx)
  case (Cons e es)
  show ?case
  proof (cases e)
    case (Usb_block ex buf)
    then have "length buf \<le> ds_len_in (rx_both rx)" using Cons.prems by (simp add: blocks_fit_def)
    from rtlsdr_callback_ok [OF Cons.prems(1) this, of ex] obtain rx'
      where "rtlsdr_callback ex buf rx = Some rx'" "rx_ok rx'" "rx_bl_len rx' = rx_bl_len rx"
        "ds_len_in (rx_both rx') = ds_len_in (rx_both rx)" by blast
    then show ?thesis using Cons.IH [of rx'] Cons.prems Usb_block by (simp add: blocks_fit_def rounds_def)
  next
    case Demod_round
    from demod_block_shape [OF Cons.prems(1)] obtain out rx' ok
      where d: "demod_block rx = Some (out, rx', ok, True)" "rx_ok rx'" "rx_bl_len rx' = rx_bl_len rx"
        "ds_len_in (rx_both rx') = ds_len_in (rx_both rx)" "length out = 2 * rx_bl_len rx" "list_all int16 out" by blast
    then obtain outs rx'' where "receiver_run es rx' = Some (outs, rx'')" "rx_ok rx''" "length outs = rounds es"
        "list_all (\<lambda>out. length out = 2 * rx_bl_len rx \<and> list_all int16 out) outs"
      using Cons.IH [of rx'] Cons.prems by (auto simp: blocks_fit_def)
    then show ?thesis using d Demod_round by (simp add: rounds_def)
  qed
qed (simp add: rounds_def)

theorem receiver_run_inside_witness:
  "\<exists>outs rx'. receiver_run [Usb_block False (replicate 32 200), Demod_round, Demod_round] example_rx = Some (outs, rx') \<and>
     length outs = 2"
proof -
  have "rx_ok example_rx"
    by (simp add: rx_ok_def example_rx_def example_stage_def example_demod_def stage_ok_def list_all_iff)
  from receiver_run_inside [OF this, of "[Usb_block False (replicate 32 200), Demod_round, Demod_round]"]
  show ?thesis by (auto simp: blocks_fit_def rounds_def example_rx_def example_stage_def)
qed

end
