(* ===== verification/Convenience.thy ===== *)
theory Convenience
  imports RtlsdrSearch
begin

text \<open>
  \<open>convenience.c\<close>: numbers with suffixes, the choice of the nearest gain and bandwidth, the
  calls with a message (the messages are not modelled), the ppm value in the serial number, and the search for a
  device by number or serial.
\<close>

section \<open>Numbers in strings\<close>

text \<open>What the functions use of \<open>atoi\<close>, \<open>strtol\<close> and \<open>atof\<close>: no locale, hexadecimal floats or infinities.\<close>

definition is_space :: "char \<Rightarrow> bool" where
  "is_space c \<longleftrightarrow> c = CHR '' '' \<or> of_char c \<in> {9 :: nat..13}"

definition digit_val :: "char \<Rightarrow> nat" where
  "digit_val c = (let n = of_char c :: nat in
     if 48 \<le> n \<and> n \<le> 57 then n - 48
     else if 97 \<le> n \<and> n \<le> 122 then n - 87 else if 65 \<le> n \<and> n \<le> 90 then n - 55 else 99)"

definition digits :: "nat \<Rightarrow> string \<Rightarrow> string" where
  "digits b s = takeWhile (\<lambda>c. digit_val c < b) s"

definition digits_val :: "nat \<Rightarrow> string \<Rightarrow> nat" where
  "digits_val b ds = foldl (\<lambda>n c. n * b + digit_val c) 0 ds"

definition split_sign :: "string \<Rightarrow> bool \<times> string" where
  "split_sign s = (let s = dropWhile is_space s in
     if s \<noteq> [] \<and> hd s = CHR ''-'' then (True, tl s)
     else if s \<noteq> [] \<and> hd s = CHR ''+'' then (False, tl s) else (False, s))"

definition atoi :: "string \<Rightarrow> int" where
  "atoi s = (case split_sign s of (neg, s) \<Rightarrow>
     let v = int (digits_val 10 (digits 10 s)) in s32 (if neg then - v else v))"

definition atof :: "string \<Rightarrow> rat" where
  "atof s = (case split_sign s of (neg, s) \<Rightarrow>
     let ip = digits 10 s; s1 = drop (length ip) s;
         fp = (if s1 \<noteq> [] \<and> hd s1 = CHR ''.'' then digits 10 (tl s1) else []);
         s2 = (if s1 \<noteq> [] \<and> hd s1 = CHR ''.'' then drop (length fp) (tl s1) else s1);
         v = of_nat (digits_val 10 (ip @ fp)) / 10 ^ length fp :: rat;
         w = (if s2 \<noteq> [] \<and> hd s2 \<in> {CHR ''e'', CHR ''E''} \<and> ip @ fp \<noteq> [] then
                (case split_sign (tl s2) of (eneg, s3) \<Rightarrow>
                   let e = digits_val 10 (digits 10 s3)
                   in if eneg then v / 10 ^ e else v * 10 ^ e)
              else v)
     in rnd (if neg then - w else w))"

text \<open>\<open>None\<close>: the access \<open>s[len-1]\<close> of the empty string.\<close>

definition suffixed :: "(char \<Rightarrow> rat option) \<Rightarrow> string \<Rightarrow> rat option" where
  "suffixed suff s = (if s = [] then None else
     case suff (last s) of Some f \<Rightarrow> Some (dmul f (atof (butlast s))) | None \<Rightarrow> Some (atof s))"

definition atofs :: "string \<Rightarrow> rat option" where
  "atofs = suffixed (\<lambda>c.
     if c \<in> {CHR ''g'', CHR ''G''} then Some 1000000000
     else if c \<in> {CHR ''m'', CHR ''M''} then Some 1000000
     else if c \<in> {CHR ''k'', CHR ''K''} then Some 1000 else None)"

definition atoft :: "string \<Rightarrow> rat option" where
  "atoft = suffixed (\<lambda>c.
     if c \<in> {CHR ''h'', CHR ''H''} then Some 3600
     else if c \<in> {CHR ''m'', CHR ''M''} then Some 60
     else if c \<in> {CHR ''s'', CHR ''S''} then Some 1 else None)"

definition atofp :: "string \<Rightarrow> rat option" where
  "atofp = suffixed (\<lambda>c. if c = CHR ''%'' then Some (rnd (1 / 100)) else None)"

section \<open>Nearest values\<close>

text \<open>The loop of both functions, from the first value.\<close>

definition nearest_of :: "int \<Rightarrow> int list \<Rightarrow> int" where
  "nearest_of target vals =
     fold (\<lambda>v nearest. if \<bar>target - v\<bar> < \<bar>target - nearest\<bar> then v else nearest) vals (hd vals)"

text \<open>The distances are 32-bit differences; their overflow is undefined.\<close>

definition check_distances :: "int \<Rightarrow> int list \<Rightarrow> unit usb_m" where
  "check_distances target vals =
     (if \<exists>v\<in>set vals. \<bar>target - v\<bar> > 2147483647 then fault else ret ())"

definition nearest_gain :: "int \<Rightarrow> int usb_m" where
  "nearest_gain target_gain = do {
     r \<leftarrow> rtlsdr_set_tuner_gain_mode 1;
     if r < 0 then ret r
     else do {
       (count, _) \<leftarrow> rtlsdr_get_tuner_gains False;
       if count \<le> 0 then ret 0
       else do {
         (_, gains) \<leftarrow> rtlsdr_get_tuner_gains True;
         check_distances target_gain gains;
         ret (nearest_of target_gain gains) } } }"

definition nearest_bandwidth :: "int \<Rightarrow> int usb_m" where
  "nearest_bandwidth target_bandwidth = do {
     widths \<leftarrow> rtlsdr_get_tuner_bandwidths;
     check_distances target_bandwidth widths;
     ret (nearest_of target_bandwidth widths) }"

section \<open>Calls with a message\<close>

definition verbose_set_bandwidth :: "nat \<Rightarrow> int usb_m" where
  "verbose_set_bandwidth bandwidth = rtlsdr_set_tuner_bandwidth bandwidth"

definition verbose_set_frequency :: "nat \<Rightarrow> int usb_m" where
  "verbose_set_frequency frequency = rtlsdr_set_center_freq frequency"

definition verbose_set_sample_rate :: "nat \<Rightarrow> int usb_m" where
  "verbose_set_sample_rate samp_rate = rtlsdr_set_sample_rate samp_rate"

definition verbose_direct_sampling :: "int \<Rightarrow> int usb_m" where
  "verbose_direct_sampling on = rtlsdr_set_direct_sampling on"

definition verbose_offset_tuning :: "int usb_m" where
  "verbose_offset_tuning = rtlsdr_set_offset_tuning True"

definition verbose_auto_gain :: "int usb_m" where
  "verbose_auto_gain = rtlsdr_set_tuner_gain_mode 0"

definition verbose_gain_set :: "int \<Rightarrow> int usb_m" where
  "verbose_gain_set gain = do {
     r \<leftarrow> rtlsdr_set_tuner_gain_mode 1;
     if r < 0 then ret r else rtlsdr_set_tuner_gain gain }"

definition verbose_ppm_set :: "int \<Rightarrow> int usb_m" where
  "verbose_ppm_set ppm_error = (if ppm_error = 0 then ret 0 else rtlsdr_set_freq_correction ppm_error)"

definition verbose_reset_buffer :: "int usb_m" where
  "verbose_reset_buffer = rtlsdr_reset_buffer"

text \<open>
  The ppm value of a serial number like \<open>''00000001 -12p''\<close>: the status, and the value when one
  is found, after the last blank up to the third character from the end.
\<close>

definition verbose_ppm_eeprom :: "int \<times> usb_strings option \<Rightarrow> int \<times> int option" where
  "verbose_ppm_eeprom strs = (case strs of
     (r, Some (_, _, serial)) \<Rightarrow>
       if r \<noteq> 0 then (r, None)
       else let len = length serial in
         if len \<le> 3 then (-1, None)
         else if serial ! (len - 1) \<noteq> CHR ''p'' then (-1, None)
         else (case find (\<lambda>i. serial ! i = CHR '' '') (rev [0..<len - 2]) of
             None \<Rightarrow> (-1, None)
           | Some i \<Rightarrow> (0, Some (atoi (drop (i + 1) (butlast serial)))))
   | (r, None) \<Rightarrow> (r, None))"

section \<open>Device search\<close>

text \<open>\<open>strtol(s, &s2, 0)\<close>: the value and the rest.\<close>

definition strtol0 :: "string \<Rightarrow> int \<times> string" where
  "strtol0 s = (case split_sign s of (neg, t) \<Rightarrow>
     let (b, ds) = (if 2 \<le> length t \<and> take 1 t = ''0'' \<and> t ! 1 \<in> {CHR ''x'', CHR ''X''} \<and>
                        digits 16 (drop 2 t) \<noteq> [] then (16, drop 2 t)
                    else if take 1 t = ''0'' then (8, t) else (10, t));
         n = digits b ds; v = int (digits_val b n)
     in if n = [] then (0, s) else ((if neg then - v else v), drop (length n) ds))"

text \<open>
  The serial number that a loop sees for device \<open>i\<close>. The strings are local arrays, and a device that cannot
  be read leaves them alone: so it is the one of the last device that could be read, in the loop that
  printed the list (the loops after it ran to the end) or in this one; \<open>stale\<close> before the first.
\<close>

definition serials :: "int + usb_id list \<Rightarrow> usb_query \<Rightarrow> string \<Rightarrow> nat \<Rightarrow> string" where
  "serials usb query stale i =
     foldl (\<lambda>old j. case rtlsdr_get_device_usb_strings usb query j of
         (_, Some (_, _, serial)) \<Rightarrow> serial | (_, None) \<Rightarrow> old)
       stale ([0..<rtlsdr_get_device_count usb] @ [0..<i + 1])"

text \<open>Number, exact serial, prefix, suffix.\<close>

definition verbose_device_search :: "int + usb_id list \<Rightarrow> usb_query \<Rightarrow> string \<Rightarrow> string \<Rightarrow> int" where
  "verbose_device_search usb query stale s =
     (let count = rtlsdr_get_device_count usb; serial = serials usb query stale;
          first = (\<lambda>p. find (\<lambda>i. p (serial i)) [0..<count])
      in if count = 0 then -1
         else case strtol0 s of (device, s2) \<Rightarrow>
           if s2 = [] \<and> 0 \<le> device \<and> device < int count then device
           else case first (\<lambda>t. t = s) of Some i \<Rightarrow> int i | None \<Rightarrow>
             (case first (\<lambda>t. take (length s) t = s) of Some i \<Rightarrow> int i | None \<Rightarrow>
               (case first (\<lambda>t. length s \<le> length t \<and> drop (length t - length s) t = s) of
                  Some i \<Rightarrow> int i | None \<Rightarrow> -1)))"

section \<open>Properties\<close>

lemma nearest_fold:
  fixes d :: "int \<Rightarrow> int"
  defines "pick \<equiv> \<lambda>v n. if d v < d n then v else n"
  shows "(\<forall>v\<in>set vals. d (fold pick vals n0) \<le> d v) \<and> d (fold pick vals n0) \<le> d n0 \<and>
    fold pick vals n0 \<in> insert n0 (set vals)"
proof (induction vals arbitrary: n0)
  case (Cons v vals)
  have p: "d (pick v n0) \<le> d n0" "d (pick v n0) \<le> d v" "pick v n0 \<in> {v, n0}"
    by (auto simp: pick_def)
  have "fold pick (v # vals) n0 = fold pick vals (pick v n0)" by simp
  moreover have "d (fold pick vals (pick v n0)) \<le> d n0" "d (fold pick vals (pick v n0)) \<le> d v"
    using Cons.IH [of "pick v n0"] p order_trans by blast+
  moreover have "fold pick vals (pick v n0) \<in> insert n0 (set (v # vals))"
    using Cons.IH [of "pick v n0"] p(3) by auto
  ultimately show ?case using Cons.IH [of "pick v n0"] by (simp del: fold_simps)
qed simp

text \<open>
  \<open>nearest_gain\<close> and \<open>nearest_bandwidth\<close> choose a value of the tuner's list and none of
  the list is closer to the request.
\<close>

lemma nearest_is_nearest:
  assumes "vals \<noteq> []"
  shows "nearest_of target vals \<in> set vals \<and> (\<forall>v\<in>set vals. \<bar>target - nearest_of target vals\<bar> \<le> \<bar>target - v\<bar>)"
  using nearest_fold [of vals "\<lambda>v. \<bar>target - v\<bar>" "hd vals"] assms
  by (auto simp: nearest_of_def)

lemma nearest_is_nearest_example: "\<bar>80 - nearest_of 80 fc0012_gains\<bar> \<le> \<bar>80 - 71\<bar>"
  using nearest_is_nearest [of fc0012_gains 80] by (simp add: fc0012_gains_def)

end
