(* ===== verification/Command.thy ===== *)
theory Command
  imports Convenience
begin

text \<open>
  The command thread of \<open>rtl_ais_andro.c\<close>: five bytes per command from a socket, a command byte
  and a parameter in network byte order, dispatched to the driver.
\<close>

section \<open>Gains by index and percentage\<close>

definition set_gain_by_index :: "nat \<Rightarrow> int usb_m" where
  "set_gain_by_index index = do {
     (count, _) \<leftarrow> rtlsdr_get_tuner_gains False;
     if count > 0 \<and> nat count > index then do {
       (_, gains) \<leftarrow> rtlsdr_get_tuner_gains True;
       rtlsdr_set_tuner_gain (gains ! index) }
     else ret 0 }"

text \<open>For an empty list the index becomes \<open>2^32 - 1\<close> and the read is undefined.\<close>

definition set_gain_by_perc :: "nat \<Rightarrow> int usb_m" where
  "set_gain_by_perc percent = do {
     (count, _) \<leftarrow> rtlsdr_get_tuner_gains False;
     let index = u32 (percent * u32_of_int count) div 100;
     let index = (if index \<ge> u32_of_int count then u32_of_int (count - 1) else index);
     (_, gains) \<leftarrow> rtlsdr_get_tuner_gains True;
     (if index < length gains then ret () else fault);
     rtlsdr_set_tuner_gain (gains ! index) }"

section \<open>Dispatch\<close>

text \<open>The four bytes of the parameter as \<open>ntohl\<close> reads them, and as they are on a little-endian host.\<close>

definition be32 :: "u8 list \<Rightarrow> nat" where
  "be32 bs = foldl (\<lambda>n b. n * 256 + unat b) 0 bs"

definition le32 :: "u8 list \<Rightarrow> nat" where
  "le32 bs = be32 (rev bs)"

definition ignore :: "int usb_m \<Rightarrow> bool usb_m" where
  "ignore m = do { _ \<leftarrow> m; ret False }"

text \<open>The result says whether the client asked to close (\<open>sighandler(0)\<close>).\<close>

definition process_command :: "u8 \<Rightarrow> u8 list \<Rightarrow> bool usb_m" where
  "process_command cmd bytes =
     (let param = be32 bytes; iparam = s32 (int param)
      in if cmd = 0x01 then ignore (rtlsdr_set_center_freq param)
         else if cmd = 0x02 then ignore (rtlsdr_set_sample_rate param)
         else if cmd = 0x03 then ignore (rtlsdr_set_tuner_gain_mode iparam)
         else if cmd = 0x04 then ignore (rtlsdr_set_tuner_gain iparam)
         else if cmd = 0x05 then ignore (rtlsdr_set_freq_correction iparam)
         else if cmd = 0x06 then ignore (rtlsdr_set_tuner_if_gain (int (drop_bit 16 param))
                (s16 (int (take_bit 16 param))))
         else if cmd = 0x07 then ignore (rtlsdr_set_testmode (param \<noteq> 0))
         else if cmd = 0x08 then ignore (rtlsdr_set_agc_mode (param \<noteq> 0))
         else if cmd = 0x09 then ignore (rtlsdr_set_direct_sampling iparam)
         else if cmd = 0x0a then ignore (rtlsdr_set_offset_tuning (param \<noteq> 0))
         else if cmd = 0x0b then ignore (rtlsdr_set_xtal_freq param 0)
         else if cmd = 0x0c then ignore (rtlsdr_set_xtal_freq 0 param)
         else if cmd = 0x0d then ignore (set_gain_by_index param)
         else if cmd = 0x0e then ignore (do {
                nearest \<leftarrow> nearest_bandwidth (s32 (int (le32 bytes)));
                rtlsdr_set_tuner_bandwidth (u32_of_int nearest) })
         else if cmd = 0x7e then ret True
         else if cmd = 0x7f then ignore (set_gain_by_perc param)
         else ret False)"

section \<open>Receiving\<close>

text \<open>
  One round of \<open>select\<close> and \<open>recv\<close>: nothing ready, an error, or at most so many bytes of what
  the client sent (0 when it has closed the connection); and whether \<open>do_exit\<close> is set after it.
\<close>

datatype recv_answer = Not_ready bool | Recv_error bool | Received nat bool

datatype recv_result = Command "u8 list" | Bye | Waiting

fun recv_command :: "recv_answer list \<Rightarrow> u8 list \<Rightarrow> u8 list \<Rightarrow> recv_result \<times> recv_answer list \<times> u8 list" where
  "recv_command answers got stream =
     (if length got \<ge> 5 then (Command got, answers, stream)
      else case answers of
        [] \<Rightarrow> (Waiting, [], stream)
      | Not_ready ex # as \<Rightarrow> (if ex then (Bye, as, stream) else recv_command as got stream)
      | Recv_error ex # as \<Rightarrow> (Bye, as, stream)
      | Received n ex # as \<Rightarrow>
          (let n = min n (5 - length got)
           in if ex then (Bye, as, drop n stream)
              else recv_command as (got @ take n stream) (drop n stream)))"

text \<open>The thread: the commands it executes until it leaves or the answers end.\<close>

function command_worker :: "recv_answer list \<Rightarrow> u8 list \<Rightarrow> (u8 \<times> u8 list) list \<times> recv_result" where
  "command_worker answers stream = (case recv_command answers [] stream of
     (Command c, as, stream') \<Rightarrow>
       if length as < length answers
       then (case command_worker as stream' of (cs, r) \<Rightarrow> ((hd c, tl c) # cs, r)) else ([], Waiting)
   | (r, as, stream') \<Rightarrow> ([], r))"
  by pat_completeness auto
termination by (relation "measure (\<lambda>(answers, stream). length answers)") auto

fun execute :: "(u8 \<times> u8 list) list \<Rightarrow> bool usb_m" where
  "execute [] = ret False"
| "execute ((cmd, bytes) # cs) = do {
     quit \<leftarrow> process_command cmd bytes;
     more \<leftarrow> execute cs;
     ret (quit \<or> more) }"

section \<open>Properties\<close>

declare recv_command.simps [simp del]

lemma recv_command_frame:
  "recv_command answers got stream = (r, as, stream') \<Longrightarrow> length got \<le> 5 \<Longrightarrow>
   (case r of Command c \<Rightarrow> length c = 5 \<and> got @ stream = c @ stream' | _ \<Rightarrow> True) \<and> length as \<le> length answers"
proof (induction answers got stream rule: recv_command.induct)
  case (1 answers got stream)
  note IH = "1.IH" and run = "1.prems" [unfolded recv_command.simps [of answers got stream]]
  show ?case
  proof (cases "5 \<le> length got")
    case False
    show ?thesis
    proof (cases answers)
      case (Cons a as')
      show ?thesis
      proof (cases a)
        case (Not_ready ex)
        then show ?thesis using IH(1) [OF False Cons Not_ready] run False Cons by (auto split: if_splits)
      next
        case (Recv_error ex)
        then show ?thesis using run False Cons by auto
      next
        case (Received n ex)
        let ?m = "min n (5 - length got)"
        have le: "length (got @ take ?m stream) \<le> 5" using False by simp
        show ?thesis
        proof (cases ex)
          case F: False
          then have "recv_command as' (got @ take ?m stream) (drop ?m stream) = (r, as, stream')"
            using run False Cons Received by (simp add: Let_def)
          from IH(2) [OF False Cons Received refl F this le] show ?thesis
            using Cons by (auto split: recv_result.splits)
        qed (use run False Cons Received in \<open>auto simp: Let_def\<close>)
      qed
    qed (use run False in auto)
  qed (use run in auto)
qed

text \<open>A client that closed the connection: every \<open>recv\<close> gives 0 bytes and the loop goes on.\<close>

lemma recv_command_closed:
  "length got < 5 \<Longrightarrow> recv_command (replicate n (Received 0 False)) got stream = (Waiting, [], stream)"
  by (induction n) (subst recv_command.simps, simp)+

text \<open>
  C32. Commands are the consecutive five-byte groups of the stream: however the bytes arrive
  and whenever the thread leaves, the commands it executes are exactly the first groups of five of what
  the client sent, in order, and a partial group is never executed.
\<close>

theorem command_framing:
  assumes "command_worker answers stream = (cs, r)"
  shows "concat (map (\<lambda>(cmd, bytes). cmd # bytes) cs) = take (5 * length cs) stream \<and>
    5 * length cs \<le> length stream \<and> (\<forall>(cmd, bytes)\<in>set cs. length bytes = 4)"
  using assms
proof (induction answers stream arbitrary: cs r rule: command_worker.induct)
  case (1 answers stream)
  obtain q as stream' where q: "recv_command answers [] stream = (q, as, stream')" by (metis prod_cases3)
  note f = recv_command_frame [OF q]
  show ?case
  proof (cases q)
    case (Command c)
    show ?thesis
    proof (cases "length as < length answers")
      case True
      obtain cs' r' where w: "command_worker as stream' = (cs', r')" by fastforce
      have cs: "cs = (hd c, tl c) # cs'" using "1.prems" q Command True w by simp
      have c: "length c = 5" "stream = c @ stream'" using f Command by auto
      have "c \<noteq> []" using c by auto
      then show ?thesis using "1.IH" [OF q [symmetric] Command refl True w] cs c by auto
    next
      case False
      then show ?thesis using "1.prems" q Command by simp
    qed
  qed (use "1.prems" q in auto)
qed

theorem command_framing_witness:
  "fst (command_worker [Received 3 False, Not_ready False, Received 9 False, Received 2 False]
     [1, 0, 0, 0, 9, 2, 0]) = [(1, [0, 0, 0, 9])]"
proof -
  obtain cs r where run: "command_worker [Received 3 False, Not_ready False, Received 9 False, Received 2 False]
     [1, 0, 0, 0, 9, 2, 0] = (cs, r)" by fastforce
  then have "length cs = 1" by (simp add: recv_command.simps) (metis One_nat_def length_Cons list.size(3))
  then obtain cmd bytes where cs: "cs = [(cmd, bytes)]" by (cases cs) auto
  show ?thesis using command_framing [OF run] unfolding run fst_conv by (simp add: cs)
qed

text \<open>The bandwidth command uses the parameter without \<open>ntohl\<close>: 300 kHz is taken for a negative value.\<close>

lemma command_bandwidth_swapped:
  "be32 [0x00, 0x04, 0x93, 0xe0] = 300000" "s32 (int (le32 [0x00, 0x04, 0x93, 0xe0])) = - 527236096"
  by code_simp+

end
