(* ===== verification/AisConfig.thy ===== *)
theory AisConfig
  imports Command Dsp
begin

text \<open>
  \<open>rtl_ais_main\<close>: the options, the rates and lengths computed from them, and the
  configuration of the opened device before the streaming starts.
\<close>

section \<open>Options\<close>

record settings =
  opt_left_freq :: int
  opt_right_freq :: int
  opt_sample_rate :: int
  opt_output_rate :: int
  opt_dev_index :: int
  opt_dev_given :: bool
  opt_gain :: int
  opt_ppm_error :: int
  opt_custom_ppm :: bool
  opt_port :: string
  opt_bandwidth :: int
  opt_custom_bandwidth :: bool
  opt_host :: string
  opt_stats :: int
  opt_edge :: bool
  opt_oversample :: bool
  opt_dc_filter :: bool
  opt_rtl_agc :: bool
  opt_internal :: bool
  opt_debug_nmea :: bool
  opt_show_levels :: bool
  opt_autotune :: bool
  opt_without_tcp :: bool
  opt_ub :: bool

definition AUTO_GAIN :: int where "AUTO_GAIN = -100"

text \<open>The locals at their initial values. (\<open>oversample\<close>, \<open>dc_filter\<close>, \<open>use_internal_aisdecoder\<close> and
  \<open>seconds_for_decoder_stats\<close> are globals, here as in a fresh process.)\<close>

definition default_settings :: settings where
  "default_settings = \<lparr>opt_left_freq = 161975000, opt_right_freq = 162025000, opt_sample_rate = 24000,
     opt_output_rate = 48000, opt_dev_index = 0, opt_dev_given = False, opt_gain = AUTO_GAIN,
     opt_ppm_error = 0, opt_custom_ppm = False, opt_port = '''', opt_bandwidth = 300000,
     opt_custom_bandwidth = False, opt_host = '''', opt_stats = 0, opt_edge = False,
     opt_oversample = False, opt_dc_filter = True, opt_rtl_agc = False, opt_internal = True,
     opt_debug_nmea = False, opt_show_levels = False, opt_autotune = False, opt_without_tcp = False,
     opt_ub = False\<rparr>"

text \<open>A floating value converted to \<open>int\<close>: undefined out of range, and for an empty argument.\<close>

definition to_int :: "rat option \<Rightarrow> int \<times> bool" where
  "to_int r = (case r of None \<Rightarrow> (0, True) | Some q \<Rightarrow> (s32 (dtrunc q), \<not> fits32 (dtrunc q)))"

definition set_freq :: "(int \<Rightarrow> settings \<Rightarrow> settings) \<Rightarrow> rat option \<Rightarrow> settings \<Rightarrow> settings" where
  "set_freq upd r o' = (case to_int r of (v, ub) \<Rightarrow> (upd v o')\<lparr>opt_ub := opt_ub o' \<or> ub\<rparr>)"

text \<open>\<open>strncpy\<close> into 50 bytes, cut at the first line feed; without a terminator \<open>strchr\<close> runs on.\<close>

definition copy50 :: "string \<Rightarrow> string \<times> bool" where
  "copy50 s = (takeWhile (\<lambda>c. c \<noteq> CHR 0x0A) (take 50 s), CHR 0x0A \<notin> set (take 50 s) \<and> length s \<ge> 50)"

text \<open>One option as \<open>getopt\<close> returns it; \<open>search\<close> is \<open>verbose_device_search\<close> on the host.\<close>

definition parse_option :: "(string \<Rightarrow> int) \<Rightarrow> char \<times> string \<Rightarrow> settings \<Rightarrow> settings option" where
  "parse_option search = (\<lambda>(opt, arg) o'.
     if opt = CHR ''l'' then Some (set_freq (\<lambda>v. opt_left_freq_update (\<lambda>_. v)) (atofs arg) o')
     else if opt = CHR ''r'' then Some (set_freq (\<lambda>v. opt_right_freq_update (\<lambda>_. v)) (atofs arg) o')
     else if opt = CHR ''s'' then Some (set_freq (\<lambda>v. opt_sample_rate_update (\<lambda>_. v)) (atofs arg) o')
     else if opt = CHR ''o'' then Some (set_freq (\<lambda>v. opt_output_rate_update (\<lambda>_. v)) (atofs arg) o')
     else if opt = CHR ''d'' then Some (o'\<lparr>opt_dev_index := search arg, opt_dev_given := True\<rparr>)
     else if opt = CHR ''g'' then Some (set_freq (\<lambda>v. opt_gain_update (\<lambda>_. v)) (Some (dmul (atof arg) 10)) o')
     else if opt = CHR ''p'' then Some (o'\<lparr>opt_ppm_error := atoi arg, opt_custom_ppm := True\<rparr>)
     else if opt = CHR ''P'' then Some (case copy50 arg of (s, ub) \<Rightarrow> o'\<lparr>opt_port := s, opt_ub := opt_ub o' \<or> ub\<rparr>)
     else if opt = CHR ''w'' then Some (o'\<lparr>opt_bandwidth := atoi arg, opt_custom_bandwidth := True\<rparr>)
     else if opt = CHR ''h'' then Some (case copy50 arg of (s, ub) \<Rightarrow> o'\<lparr>opt_host := s, opt_ub := opt_ub o' \<or> ub\<rparr>)
     else if opt = CHR ''S'' then Some (o'\<lparr>opt_stats := atoi arg\<rparr>)
     else if opt = CHR ''E'' then Some (o'\<lparr>opt_edge := \<not> opt_edge o'\<rparr>)
     else if opt = CHR ''O'' then Some (o'\<lparr>opt_oversample := \<not> opt_oversample o'\<rparr>)
     else if opt = CHR ''D'' then Some (o'\<lparr>opt_dc_filter := \<not> opt_dc_filter o'\<rparr>)
     else if opt = CHR ''R'' then Some (o'\<lparr>opt_rtl_agc := True\<rparr>)
     else if opt = CHR ''A'' then Some (o'\<lparr>opt_internal := False\<rparr>)
     else if opt = CHR ''n'' then Some (o'\<lparr>opt_debug_nmea := True\<rparr>)
     else if opt = CHR ''L'' then Some (o'\<lparr>opt_show_levels := True\<rparr>)
     else if opt = CHR ''a'' then Some (o'\<lparr>opt_autotune := True\<rparr>)
     else if opt = CHR ''x'' then Some (o'\<lparr>opt_without_tcp := True\<rparr>)
     else None)"

text \<open>All options, then the defaults of host and port.\<close>

definition finish_options :: "settings \<Rightarrow> settings" where
  "finish_options o' = o'\<lparr>opt_host := (if opt_host o' = '''' then ''127.0.0.1'' else opt_host o'),
     opt_port := (if opt_port o' = '''' then ''127.0.0.1'' else opt_port o')\<rparr>"

fun parse_options :: "(string \<Rightarrow> int) \<Rightarrow> (char \<times> string) list \<Rightarrow> settings \<Rightarrow> settings option" where
  "parse_options search [] o' =
     (if opt_left_freq o' > opt_right_freq o' then None else Some (finish_options o'))"
| "parse_options search (a # as) o' = (case parse_option search a o' of
     None \<Rightarrow> None | Some o' \<Rightarrow> parse_options search as o')"

section \<open>Rates and lengths\<close>

definition DEFAULT_LEN :: nat where "DEFAULT_LEN = 16 * 16384"

record rates =
  rt_dongle_freq :: int
  rt_dongle_rate :: int
  rt_both_rate_out :: int
  rt_both_passes :: nat
  rt_left_passes :: nat
  rt_left_rate_out :: int
  rt_bl_len :: nat

datatype rate_result = Undefined | Wrong_args | Exit_1 | Rates rates

text \<open>
  \<open>lg\<close> is \<open>(int)log2(x)\<close>, with \<open>log2\<close> of the program computed by the C library's \<open>log\<close>. Undefined: the divisions by
  zero, shifts outside \<open>0..30\<close>, overflow of the products, and conversions that do not fit.
\<close>

definition compute_rates :: "(rat \<Rightarrow> int) \<Rightarrow> settings \<Rightarrow> rate_result" where
  "compute_rates lg o' =
     (let left = opt_left_freq o'; right = opt_right_freq o'; sample_rate = opt_sample_rate o';
          freq = left sdiv 2 + right sdiv 2;
          dongle_freq = (if opt_edge o' then freq - sample_rate sdiv 2 else freq);
          delta = right - left
      in if \<not> fits32 delta \<or> \<not> fits32 dongle_freq then Undefined
         else if delta > 1200000 \<or> delta < 0 then Wrong_args
         else if delta = 0 then Undefined
         else
           let i = lg (ddiv 2400000 (of_int delta)) in
           if i < 0 \<or> 30 < i \<or> \<not> fits32 (delta * 2 ^ nat i) then Undefined
           else
             let dongle_rate = delta * 2 ^ nat i; both_rate_out = delta * 2;
                 p = lg (of_int (dongle_rate sdiv both_rate_out))
             in if dongle_rate sdiv both_rate_out \<le> 0 \<or> p < 0 \<or> 30 < p \<or> sample_rate = 0 then Undefined
                else
                  let q = lg (of_int (both_rate_out sdiv sample_rate)) in
                  if both_rate_out sdiv sample_rate \<le> 0 \<or> q < 0 \<or> 30 < q then Undefined
                  else
                    let left_rate_out = both_rate_out sdiv 2 ^ nat q in
                    if left_rate_out > opt_output_rate o' then Exit_1
                    else Rates \<lparr>rt_dongle_freq = dongle_freq, rt_dongle_rate = dongle_rate,
                      rt_both_rate_out = both_rate_out, rt_both_passes = nat p, rt_left_passes = nat q,
                      rt_left_rate_out = left_rate_out,
                      rt_bl_len = nat (dtrunc (ddiv (dmul (of_nat (DEFAULT_LEN div 2)) (of_int (opt_output_rate o')))
                        (of_int dongle_rate)))\<rparr>)"

definition zero_hist :: "int list list" where
  "zero_hist = replicate 10 (replicate 6 0)"

definition downsample_init :: "nat \<Rightarrow> nat \<Rightarrow> int \<Rightarrow> downsample_state" where
  "downsample_init len_in passes rate_in = \<lparr>ds_buf = replicate len_in 0, ds_len_in = len_in,
     ds_len_out = len_in div 2 ^ passes, ds_rate_in = rate_in, ds_rate_out = rate_in sdiv 2 ^ passes,
     ds_downsample = 2 ^ passes, ds_passes = passes, lp_i_hist = zero_hist, lp_q_hist = zero_hist,
     droop_i_hist = replicate 9 0, droop_q_hist = replicate 9 0\<rparr>"

definition demod_init :: "nat \<Rightarrow> demod_state" where
  "demod_init buf_len = \<lparr>dm_buf = replicate buf_len 0, dm_result = replicate (buf_len div 2) 0,
     pre_r = 0, pre_j = 0, dc_avg = 0\<rparr>"

definition init_receiver :: "settings \<Rightarrow> rates \<Rightarrow> receiver" where
  "init_receiver o' r =
     (let both = downsample_init DEFAULT_LEN (rt_both_passes r) (rt_dongle_rate r);
          left = downsample_init (ds_len_out both) (rt_left_passes r) (rt_both_rate_out r)
      in \<lparr>rx_both = both, rx_left = left, rx_right = left,
          rx_left_demod = demod_init (ds_len_out left), rx_right_demod = demod_init (ds_len_out left),
          rx_bl_len = rt_bl_len r, rx_dc_filter = opt_dc_filter o'\<rparr>)"

section \<open>The device\<close>

definition GAIN_MODE_SENSITIVITY :: int where "GAIN_MODE_SENSITIVITY = 3"

text \<open>
  The calls from \<open>init_ais_decoder\<close> on; \<open>strs\<close> is the result of \<open>rtlsdr_get_usb_strings\<close>. The gain
  list is read into an array of 100 entries.
\<close>

definition setup_gain :: "settings \<Rightarrow> unit usb_m" where
  "setup_gain o' = do {
     _ \<leftarrow> rtlsdr_set_tuner_gain_mode GAIN_MODE_SENSITIVITY;
     _ \<leftarrow> rtlsdr_get_tuner_gains False;
     (count, _) \<leftarrow> rtlsdr_get_tuner_gains True;
     (if count > 100 then fault else ret ());
     (if opt_gain o' = AUTO_GAIN then do { _ \<leftarrow> verbose_auto_gain; ret () }
      else do { gain \<leftarrow> nearest_gain (opt_gain o'); _ \<leftarrow> verbose_gain_set gain; ret () });
     (if opt_rtl_agc o' then do { _ \<leftarrow> rtlsdr_set_agc_mode True; ret () } else ret ()) }"

definition setup_device :: "settings \<Rightarrow> rates \<Rightarrow> int \<times> usb_strings option \<Rightarrow> int usb_m" where
  "setup_device o' r strs = do {
     setup_gain o';
     let ppm = (if opt_custom_ppm o' then opt_ppm_error o'
                else case verbose_ppm_eeprom strs of (_, Some p) \<Rightarrow> p | (_, None) \<Rightarrow> opt_ppm_error o');
     bw \<leftarrow> nearest_bandwidth (opt_bandwidth o');
     _ \<leftarrow> verbose_set_bandwidth (u32_of_int bw);
     _ \<leftarrow> verbose_ppm_set ppm;
     _ \<leftarrow> verbose_set_frequency (u32_of_int (rt_dongle_freq r));
     _ \<leftarrow> verbose_set_sample_rate (u32_of_int (rt_dongle_rate r));
     verbose_reset_buffer }"

end
