(* ===== verification/AisConfigProps.thy ===== *)
theory AisConfigProps
  imports AisConfig DspBlock RtlsdrTidy
begin

text \<open>
  The settings that \<open>rtl_ais_main\<close> accepts give a receiver that stays inside its buffers and a
  sample rate that the dongle supports; and the whole session of the program, the configuration and every
  command of a client, keeps the discipline of the I2C repeater.
\<close>

section \<open>Rates\<close>

text \<open>
  What the program expects of \<open>(int)log2(x)\<close>: on the quotients of integers up to 2400000 it is the exponent of
  the greatest power of two below the exact quotient. Such a quotient that is below a power of two is so
  by a factor of at least \<open>1 - 1/2400000\<close>, far more than the error of a logarithm in double precision.
\<close>

definition lg_ok :: "(rat \<Rightarrow> int) \<Rightarrow> bool" where
  "lg_ok lg \<longleftrightarrow> (\<forall>n\<le>2400000. \<forall>d. 0 < d \<longrightarrow> d \<le> n \<longrightarrow>
     (let k = lg (ddiv (of_nat n) (of_nat d)) in
        0 \<le> k \<and> d * 2 ^ nat k \<le> n \<and> n < d * 2 ^ (nat k + 1)))"

definition floor_lg :: "rat \<Rightarrow> int" where
  "floor_lg x = int (floorlog 2 (nat \<lfloor>x\<rfloor>)) - 1"

lemma floor_lg_exact:
  assumes x: "1 \<le> x"
  shows "0 \<le> floor_lg x \<and> 2 ^ nat (floor_lg x) \<le> x \<and> x < 2 ^ (nat (floor_lg x) + 1)"
proof -
  define n where "n = nat \<lfloor>x\<rfloor>"
  have "1 \<le> \<lfloor>x\<rfloor>" using x by (simp add: le_floor_iff)
  then have nf: "\<lfloor>x\<rfloor> = int n" "0 < n" by (simp_all add: n_def)
  have n: "0 < n" "rat_of_nat n \<le> x" "x < rat_of_nat n + 1"
    using nf(2) floor_correct [of x] unfolding nf(1) by (simp_all only: of_int_of_nat_eq of_int_add of_int_1)
  have f: "0 < floorlog 2 n" "2 ^ (floorlog 2 n - 1) \<le> n" "n < 2 ^ floorlog 2 n"
    using n(1) floorlog2_bounds [of n] by (auto simp: floorlog_def)
  have "rat_of_nat (2 ^ (floorlog 2 n - 1)) \<le> x" using f(2) n(2) by (meson of_nat_mono order_trans)
  moreover have "rat_of_nat (n + 1) \<le> of_nat (2 ^ floorlog 2 n)" using f(3) by (intro of_nat_mono) simp
  then have "x < rat_of_nat (2 ^ floorlog 2 n)" using n(3) by (simp only: of_nat_add of_nat_1)
  moreover have "nat (floor_lg x) = floorlog 2 n - 1" "0 \<le> floor_lg x"
    using f(1) by (simp_all add: floor_lg_def n_def [symmetric])
  moreover have "floorlog 2 n - 1 + 1 = floorlog 2 n" using f(1) by simp
  ultimately show "0 \<le> floor_lg x \<and> 2 ^ nat (floor_lg x) \<le> x \<and> x < 2 ^ (nat (floor_lg x) + 1)"
    by (simp only: of_nat_power of_nat_numeral)
qed

lemma floor_lg_quotient:
  assumes "0 < d" "d \<le> n" "n < 2 ^ 53"
  defines "x \<equiv> ddiv (of_nat n) (of_nat d)"
  shows "0 \<le> floor_lg x" "d * 2 ^ nat (floor_lg x) \<le> n" "n < d * 2 ^ (nat (floor_lg x) + 1)"
proof -
  have t: "dtrunc x = int (n div d)" unfolding x_def using assms by (intro dtrunc_of_nat_div) simp_all
  have "1 \<le> n div d" using assms(1,2) by (simp add: div_greater_zero_iff Suc_le_eq)
  have pos: "0 \<le> x" by (simp add: x_def ddiv_def rnd_nonneg)
  have fl: "\<lfloor>x\<rfloor> = int (n div d)" using t pos by (simp add: dtrunc_def)
  have "1 \<le> x" using \<open>1 \<le> n div d\<close> fl by (metis le_floor_iff of_int_1 of_nat_1 of_nat_le_iff)
  then have lg: "0 \<le> floor_lg x" "2 ^ nat (floor_lg x) \<le> x" "x < 2 ^ (nat (floor_lg x) + 1)"
    using floor_lg_exact by blast+
  have "(2 :: int) ^ nat (floor_lg x) \<le> \<lfloor>x\<rfloor>" using lg(2) by (simp add: le_floor_iff)
  then have lo: "2 ^ nat (floor_lg x) \<le> n div d" 
    unfolding fl by (metis of_nat_le_iff of_nat_numeral of_nat_power)
  have "\<lfloor>x\<rfloor> < (2 :: int) ^ (nat (floor_lg x) + 1)" using lg(3) by (simp add: floor_less_iff)
  then have hi: "n div d < 2 ^ (nat (floor_lg x) + 1)" 
    unfolding fl by (metis of_nat_less_iff of_nat_numeral of_nat_power)
  show "0 \<le> floor_lg x" by (rule lg)
  show "d * 2 ^ nat (floor_lg x) \<le> n" using lo assms(1) by (simp add: less_eq_div_iff_mult_less_eq mult.commute)
  show "n < d * 2 ^ (nat (floor_lg x) + 1)" using hi assms(1) by (simp add: div_less_iff_less_mult mult.commute)
qed

lemma floor_lg_ok: "lg_ok floor_lg"
  using floor_lg_quotient unfolding lg_ok_def Let_def by simp

lemma lg_quotient:
  assumes "lg_ok lg" "0 < d" "d \<le> n" "n \<le> 2400000"
  shows "0 \<le> lg (ddiv (of_nat n) (of_nat d))" "d * 2 ^ nat (lg (ddiv (of_nat n) (of_nat d))) \<le> n"
    "n < d * 2 ^ (nat (lg (ddiv (of_nat n) (of_nat d))) + 1)"
  using assms unfolding lg_ok_def Let_def by auto

lemma lg_nat:
  assumes "lg_ok lg" "0 < m" "m \<le> 2400000"
  shows "0 \<le> lg (of_nat m)" "2 ^ nat (lg (of_nat m)) \<le> m" "m < 2 ^ (nat (lg (of_nat m)) + 1)"
  using lg_quotient [OF assms(1), of 1 m] assms(2,3) rnd_of_nat [of m] by (simp_all add: ddiv_def)

lemma pow2_le_exp: "(2 :: nat) ^ a < 2 ^ b \<Longrightarrow> a < b"
  by (rule power_less_imp_less_exp [of 2]) auto

text \<open>The choices of the exponents, in natural numbers.\<close>

lemma rate_exponents:
  fixes d sr i q :: nat
  assumes d: "586 \<le> d" "d \<le> 1200000" and sr: "1172 \<le> sr" "sr \<le> 2 * d"
    and i: "d * 2 ^ i \<le> 2400000" "2400000 < d * 2 ^ (i + 1)"
    and q: "2 ^ q \<le> 2 * d div sr" "2 * d div sr < 2 ^ (q + 1)"
  shows "1 \<le> i \<and> i + q \<le> 11 \<and> sr * 2 ^ q \<le> 2 * d \<and> 2 * d < 2 * sr * 2 ^ q"
proof -
  have srpos: "0 < sr" using sr(1) by simp
  have lo: "sr * 2 ^ q \<le> 2 * d" using q(1) srpos by (simp add: less_eq_div_iff_mult_less_eq mult.commute)
  have hi: "2 * d < 2 * sr * 2 ^ q" using q(2) srpos by (simp add: div_less_iff_less_mult mult.commute)
  have i1: "1 \<le> i"
  proof (rule ccontr)
    assume "\<not> 1 \<le> i"
    then have "i = 0" by simp
    then show False using i(2) d(2) by simp
  qed
  have "d * (sr * 2 ^ (i + q)) = d * 2 ^ i * (sr * 2 ^ q)" by (simp only: power_add ac_simps)
  also have "\<dots> \<le> 2400000 * (2 * d)" by (rule mult_le_mono [OF i(1) lo])
  finally have "sr * 2 ^ (i + q) \<le> 4800000" using d(1) by simp
  moreover have "1172 * 2 ^ (i + q) \<le> sr * 2 ^ (i + q)" using sr(1) by (intro mult_le_mono1)
  ultimately have "1172 * (2 :: nat) ^ (i + q) \<le> 4800000" by (rule order_trans [rotated])
  then have "(2 :: nat) ^ (i + q) < 2 ^ 12" by simp
  then have "i + q < 12" by (rule pow2_le_exp)
  then show ?thesis using i1 lo hi by simp
qed

lemma pow2_div: "b \<le> a \<Longrightarrow> (2 :: nat) ^ a div 2 ^ b = 2 ^ (a - b)"
  by (simp add: power_diff)

lemma init_receiver_ok:
  fixes p q :: nat
  assumes pq: "p + q \<le> 10" and o: "rt_both_passes r = p" "rt_left_passes r = q"
    and bl: "2 ^ (17 - p - q) \<le> rt_bl_len r"
  shows "rx_ok (init_receiver o' r)"
proof -
  have len: "DEFAULT_LEN = 2 ^ 18" by (simp add: DEFAULT_LEN_def)
  have e1: "DEFAULT_LEN div 2 ^ p = 2 ^ (18 - p)" unfolding len using pq by (intro pow2_div) simp
  have e2: "(2 :: nat) ^ (18 - p) div 2 ^ q = 2 ^ (18 - p - q)" using pq by (intro pow2_div) simp
  have k: "18 - p - q = Suc (17 - p - q)" "18 - p + p = 18" "18 - p - q + q = 18 - p" using pq by simp_all
  have m1: "(2 :: nat) ^ (18 - p) * 2 ^ p = DEFAULT_LEN" unfolding len power_add [symmetric] k ..
  have m2: "(2 :: nat) ^ (18 - p - q) * 2 ^ q = 2 ^ (18 - p)" unfolding power_add [symmetric] k(3) ..
  have e3: "(2 :: nat) ^ (18 - p - q) div 2 = 2 ^ (17 - p - q)" unfolding k by simp
  have k4: "2 * (2 :: nat) ^ (17 - p - q) = 2 ^ (18 - p - q)" unfolding k(1) by simp
  have big: "(2 :: nat) ^ 3 dvd 2 ^ (18 - p - q)" "(2 :: nat) ^ 3 dvd 2 ^ (18 - p)"
    using pq by (auto intro!: le_imp_power_dvd simp del: power_numeral)
  then have eight: "8 dvd (2 :: nat) ^ (18 - p - q)" "8 dvd (2 :: nat) ^ (18 - p)" by simp_all
  have four: "4 \<le> (2 :: nat) ^ (18 - p - q)" "4 \<le> (2 :: nat) ^ (18 - p)"
    using eight by (auto dest!: dvd_imp_le)
  have evn: "even ((2 :: nat) ^ (18 - p - q))" "even ((2 :: nat) ^ (18 - p))"
    using k(1) pq by (simp, simp)
  show ?thesis
    unfolding rx_ok_def init_receiver_def Let_def downsample_init_def downsample_state.simps o e1 e2
    using pq bl e3 k4 m1 m2 eight four evn
    by (simp add: demod_init_def stage_ok_def zero_hist_def list_all_iff e1 e2 del: power_Suc)
qed

lemma lg_pow2:
  assumes lg: "lg_ok lg" and k: "k \<le> 10"
  shows "lg (of_int (int (2 ^ k))) = int k"
proof -
  have "(2 :: nat) ^ k \<le> 2 ^ 10" using k by (intro power_increasing) simp_all
  then have "0 < (2 :: nat) ^ k" "(2 :: nat) ^ k \<le> 2400000" by simp_all
  note two = lg_nat [OF lg this]
  then have "nat (lg (of_nat (2 ^ k))) = k"
    by (metis Suc_eq_plus1 le_antisym less_Suc_eq_le linorder_not_less one_less_numeral_iff
      power_strict_increasing_iff semiring_norm(76))
  then show ?thesis using two(1) by simp
qed

text \<open>The upsampled block is at least as long as the demodulated one.\<close>

lemma bl_len_enough:
  fixes d i q s u :: nat
  assumes e: "1 \<le> i" "i + q \<le> 11" "2 * d < 2 * s * 2 ^ q" and d: "0 < d" and u: "2 * s \<le> u" "u \<le> 2147483647"
  shows "2 ^ (17 - (i - 1) - q) \<le>
    nat (dtrunc (ddiv (dmul (of_nat (DEFAULT_LEN div 2)) (of_int (int u))) (of_int (int d * 2 ^ i))))"
proof -
  have "rat_of_nat (131072 * u) = dmul (of_nat (DEFAULT_LEN div 2)) (of_int (int u))"
    using u(2) rnd_of_nat [of "131072 * u"] by (simp add: dmul_def DEFAULT_LEN_def)
  then have bl: "nat (dtrunc (ddiv (dmul (of_nat (DEFAULT_LEN div 2)) (of_int (int u))) (of_int (int d * 2 ^ i)))) =
      131072 * u div (d * 2 ^ i)"
    using dtrunc_of_nat_div [of "131072 * u" "d * 2 ^ i"] d u(2) by simp
  have k: "17 - (i - 1) - q + i + q = 18" using e(1,2) by simp
  have "(2 :: nat) ^ (17 - (i - 1) - q) * 2 ^ i * 2 ^ q = 2 ^ 18" unfolding power_add [symmetric] k ..
  then have "2 ^ (17 - (i - 1) - q) * (d * 2 ^ i) * 2 ^ q = 2 ^ 18 * d" by (metis mult.assoc mult.commute)
  also have "\<dots> \<le> 131072 * (2 * s * 2 ^ q)" using e(3) by simp
  also have "\<dots> \<le> 131072 * u * 2 ^ q" using u(1) by simp
  finally have "2 ^ (17 - (i - 1) - q) * (d * 2 ^ i) \<le> 131072 * u" by simp
  then show ?thesis unfolding bl using d by (simp add: less_eq_div_iff_mult_less_eq)
qed

text \<open>The rates in terms of the distance, the sample rate and the two exponents.\<close>

definition rates_of :: "settings \<Rightarrow> nat \<Rightarrow> nat \<Rightarrow> nat \<Rightarrow> nat \<Rightarrow> rates" where
  "rates_of o' d s i q = \<lparr>rt_dongle_freq = (let f = opt_left_freq o' sdiv 2 + opt_right_freq o' sdiv 2
        in if opt_edge o' then f - int s sdiv 2 else f), rt_dongle_rate = int d * 2 ^ i,
      rt_both_rate_out = int d * 2, rt_both_passes = i - 1, rt_left_passes = q,
      rt_left_rate_out = (int d * 2) sdiv 2 ^ q,
      rt_bl_len = nat (dtrunc (ddiv (dmul (of_nat (DEFAULT_LEN div 2)) (of_int (opt_output_rate o')))
        (of_int (int d * 2 ^ i))))\<rparr>"

lemma compute_rates_eq:
  assumes D: "opt_right_freq o' - opt_left_freq o' = int d" "opt_sample_rate o' = int s"
    and lg: "lg_ok lg" "lg (ddiv 2400000 (of_int (int d))) = int i" "lg (of_int (int (2 * d div s))) = int q"
    and e: "1 \<le> i" "i + q \<le> 11" and d: "0 < d" "d \<le> 1200000" "0 < s" "s \<le> 2 * d"
    and fits: "fits32 (rt_dongle_freq (rates_of o' d s i q))" "fits32 (int d * 2 ^ i)"
    and out: "(int d * 2) sdiv 2 ^ q \<le> opt_output_rate o'"
  shows "compute_rates lg o' = Rates (rates_of o' d s i q)"
proof -
  define c where "c = int d * 2 ^ i"
  define lo where "lo = (int d * 2) sdiv 2 ^ q"
  have "(2 :: int) ^ i = 2 * 2 ^ (i - 1)" using e(1) by (simp flip: power_Suc)
  then have "c = int d * 2 * 2 ^ (i - 1)" unfolding c_def by (simp only: ac_simps)
  then have quot: "c sdiv (int d * 2) = int (2 ^ (i - 1))" using d(1) by (simp add: sdiv_pos)
  define m where "m = 2 * d div s"
  have quot2: "(int d * 2) sdiv int s = int m"
    using d(3) by (simp add: sdiv_pos m_def zdiv_int mult.commute)
  have m: "0 < m" using d(3,4) by (simp add: m_def div_greater_zero_iff)
  have p: "lg (of_int (int (2 ^ (i - 1)))) = int (i - 1)" using lg_pow2 [OF lg(1)] e by simp
  have "fits32 (int d)" using d by (simp add: fits32_def)
  then show ?thesis
    using fits e d m out
    unfolding compute_rates_def Let_def D lg(2) nat_int c_def [symmetric] lo_def [symmetric] quot p quot2
      lg(3) [folded m_def] rates_of_def
    by (simp add: Let_def)
qed

text \<open>
  C10. A sound configuration: for channels 586 Hz to 1.2 MHz apart, a sample rate of at least
  1172 Hz and at most twice that distance, and an output rate of at least twice the sample rate,
  \<open>rtl_ais_main\<close> computes its rates without undefined behaviour; the dongle's rate is one that
  \<open>rtlsdr_set_sample_rate\<close> supports, the low-pass rate is at least the sample rate and less than
  twice it, and the receiver it sets up satisfies the invariant under which every block stays inside its buffers.
  So the option \<open>-s\<close> is a lower bound for the rate of the channels, where the usage comment calls it the
  maximum; the defaults give 25000 for 24000.
\<close>

theorem ais_configuration_sound:
  assumes lg: "lg_ok lg"
    and left: "0 \<le> opt_left_freq o'" "opt_right_freq o' \<le> 2147483647"
    and delta: "586 \<le> opt_right_freq o' - opt_left_freq o'" "opt_right_freq o' - opt_left_freq o' \<le> 1200000"
    and sr: "1172 \<le> opt_sample_rate o'" "opt_sample_rate o' \<le> 2 * (opt_right_freq o' - opt_left_freq o')"
    and out: "2 * opt_sample_rate o' \<le> opt_output_rate o'" "opt_output_rate o' \<le> 2147483647"
  shows "\<exists>r. compute_rates lg o' = Rates r \<and> rate_supported (nat (rt_dongle_rate r)) \<and>
    opt_sample_rate o' \<le> rt_left_rate_out r \<and> rt_left_rate_out r < 2 * opt_sample_rate o' \<and>
    rx_ok (init_receiver o' r)"
proof -
  define d s u where "d = nat (opt_right_freq o' - opt_left_freq o')"
    and "s = nat (opt_sample_rate o')" and "u = nat (opt_output_rate o')"
  have D: "opt_right_freq o' - opt_left_freq o' = int d" "opt_sample_rate o' = int s" "opt_output_rate o' = int u"
    using delta sr out by (simp_all add: d_def s_def u_def)
  have dn: "586 \<le> d" "d \<le> 1200000" "1172 \<le> s" "s \<le> 2 * d" "2 * s \<le> u" "u \<le> 2147483647"
    using delta sr out unfolding D by simp_all
  define i q where "i = nat (lg (ddiv (of_nat 2400000) (of_nat d)))" and "q = nat (lg (of_nat (2 * d div s)))"
  have i: "lg (ddiv (of_nat 2400000) (of_nat d)) = int i" "d * 2 ^ i \<le> 2400000" "2400000 < d * 2 ^ (i + 1)"
    using lg_quotient [OF lg, of d 2400000] dn unfolding i_def by auto
  have m: "0 < 2 * d div s" "2 * d div s \<le> 2400000"
    using dn div_le_dividend [of "2 * d" s] by (simp_all add: div_greater_zero_iff del: div_le_dividend)
  have q: "lg (of_nat (2 * d div s)) = int q" "2 ^ q \<le> 2 * d div s" "2 * d div s < 2 ^ (q + 1)"
    using lg_nat [OF lg m] by (simp_all add: q_def)
  have e: "1 \<le> i" "i + q \<le> 11" "s * 2 ^ q \<le> 2 * d" "2 * d < 2 * s * 2 ^ q"
    using rate_exponents [OF dn(1,2,3,4) i(2,3) q(2,3)] by auto
  have "1200000 < d * 2 ^ i" using i(3) by simp
  then have "int 1200000 < int (d * 2 ^ i)" "int (d * 2 ^ i) \<le> int 2400000"
    using i(2) by (simp_all only: of_nat_less_iff of_nat_le_iff)
  then have c: "1200000 < int d * 2 ^ i" "int d * 2 ^ i \<le> 2400000" by simp_all
  have lo: "(int d * 2) sdiv 2 ^ q = int (2 * d div 2 ^ q)" by (simp add: sdiv_pos zdiv_int mult.commute)
  have "s \<le> 2 * d div 2 ^ q" "2 * d div 2 ^ q < 2 * s"
    using e(3,4) by (simp_all add: less_eq_div_iff_mult_less_eq div_less_iff_less_mult)
  then have lob: "int s \<le> (int d * 2) sdiv 2 ^ q" "(int d * 2) sdiv 2 ^ q < 2 * int s" unfolding lo by linarith+
  let ?r = "rates_of o' d s i q"
  have "0 \<le> opt_right_freq o'" "opt_left_freq o' \<le> 2147483647" using left delta by linarith+
  then have "fits32 (rt_dongle_freq ?r)" "fits32 (int d * 2 ^ i)"
    using dn left delta c sr unfolding D by (auto simp: fits32_def rates_of_def Let_def sdiv_pos D)
  then have "compute_rates lg o' = Rates ?r"
    using i(1) q(1) e dn lob by (intro compute_rates_eq D lg) (simp_all add: D)
  moreover have "rate_supported (nat (rt_dongle_rate ?r))"
    using c by (simp add: rates_of_def rate_supported_def nat_le_iff zless_nat_eq_int_zless)
  moreover have "rx_ok (init_receiver o' ?r)"
  proof (rule init_receiver_ok)
    show "i - 1 + q \<le> 10" using e(1,2) by simp
    have "0 < d" using dn(1) by simp
    from bl_len_enough [OF e(1,2,4) this dn(5,6)] show "2 ^ (17 - (i - 1) - q) \<le> rt_bl_len ?r"
      unfolding rates_of_def rates.simps D .
  qed (simp_all add: rates_of_def)
  ultimately show ?thesis using lob by (intro exI [of _ ?r]) (simp add: rates_of_def D)
qed

theorem ais_configuration_sound_witness:
  "\<exists>r. compute_rates floor_lg default_settings = Rates r \<and> rx_ok (init_receiver default_settings r)"
  using ais_configuration_sound [OF floor_lg_ok, of default_settings]
  by (auto simp: default_settings_def)

text \<open>The program's defaults: a low-pass rate above the sample rate asked for.\<close>

lemma default_low_pass_rate:
  "\<exists>r. compute_rates floor_lg default_settings = Rates r \<and>
     rt_left_rate_out r = 25000 \<and> opt_sample_rate default_settings = 24000"
proof -
  have "floorlog 2 48 = 6" "floorlog 2 4 = 3" by (simp_all add: compute_floorlog)
  then have "floor_lg 48 = 5" "floor_lg 4 = 2" by (simp_all add: floor_lg_def)
  moreover have "ddiv 2400000 (of_int (int 50000)) = 48"
    using rnd_of_nat [of 48] by (simp add: ddiv_def)
  ultimately have "compute_rates floor_lg default_settings = Rates (rates_of default_settings 50000 24000 5 2)"
    by (intro compute_rates_eq floor_lg_ok)
      (simp_all add: default_settings_def fits32_def rates_of_def sdiv_pos)
  then show ?thesis by (simp add: rates_of_def default_settings_def sdiv_pos)
qed

end
