(* ===== verification/AisSession.thy ===== *)
theory AisSession
  imports AisConfig RtlsdrTidy
begin

text \<open>
  The whole session of the program on the dongle, from \<open>rtlsdr_open\<close> over the configuration of
  \<open>rtl_ais_main\<close> to the commands of a client, and the discipline of the I2C repeater across it.
\<close>

section \<open>The calls of the program\<close>

lemma tidy_tuner_gains [tidy_intro]: "keeps tidy (rtlsdr_get_tuner_gains b)"
  unfolding rtlsdr_get_tuner_gains_def e4k_get_tuner_gains_def r82xx_get_tuner_gains_def
  by (intro keeps_rules tidy_intro)
    (auto intro!: keeps_rules tidy_intro split: rtlsdr_tuner.splits gains_ptr.splits option.splits)

lemma tidy_tuner_bandwidths [tidy_intro]: "keeps tidy rtlsdr_get_tuner_bandwidths"
  unfolding rtlsdr_get_tuner_bandwidths_def by (intro keeps_rules)

lemma tidy_nearest [tidy_intro]: "keeps tidy (nearest_gain g)" "keeps tidy (nearest_bandwidth b)"
  unfolding nearest_gain_def nearest_bandwidth_def check_distances_def
  by (intro keeps_rules tidy_intro; auto intro!: keeps_rules tidy_intro)+

lemma tidy_verbose [tidy_intro]:
  "keeps tidy (verbose_set_bandwidth bw)" "keeps tidy (verbose_set_frequency f)"
  "keeps tidy (verbose_set_sample_rate rate)" "keeps tidy verbose_auto_gain"
  "keeps tidy (verbose_gain_set g)" "keeps tidy (verbose_ppm_set ppm)" "keeps tidy verbose_reset_buffer"
  unfolding verbose_set_bandwidth_def verbose_set_frequency_def verbose_set_sample_rate_def
    verbose_auto_gain_def verbose_gain_set_def verbose_ppm_set_def verbose_reset_buffer_def
  by (intro keeps_rules tidy_intro)+

lemma tidy_by_gain [tidy_intro]: "keeps tidy (set_gain_by_index i)" "keeps tidy (set_gain_by_perc p)"
  unfolding set_gain_by_index_def set_gain_by_perc_def
  by (intro keeps_rules tidy_intro; auto intro!: keeps_rules tidy_intro)+

lemma tidy_ignored [tidy_intro]: "keeps tidy m \<Longrightarrow> keeps tidy (ignore m)"
  unfolding ignore_def by (intro keeps_rules)

lemma tidy_command [tidy_intro]: "keeps tidy (process_command cmd bytes)"
  unfolding process_command_def Let_def by (intro keeps_rules tidy_intro)

lemma tidy_execute: "keeps tidy (execute cs)"
  by (induction cs rule: execute.induct) (auto intro!: keeps_rules tidy_intro)

lemma tidy_setup: "keeps tidy (setup_device o' r strs)"
  unfolding setup_device_def setup_gain_def Let_def
  by (intro keeps_rules tidy_intro)

section \<open>The session\<close>

text \<open>
  C9. The repeater over a session of the program: on any bus, after \<open>rtlsdr_open\<close> has succeeded, the
  configuration of the device by \<open>rtl_ais_main\<close> and any commands of a client, whatever bytes they
  carry, the I2C repeater is off, and no transfer for the tuner has been made while it was off, in the sense of C1: as
  last commanded.
\<close>

theorem ais_session_discipline:
  assumes "rtlsdr_open host index (blank_dev env r82s e4s) = (0, Some s)"
  shows "let t = snd (run_state (setup_device o' r strs) s);
      u = snd (run_state (execute (fst (command_worker answers stream))) t)
    in disciplined (dev_xfers u) \<and> \<not> repeater_on (dev_xfers u)"
proof -
  have "tidy (snd (run_state (setup_device o' r strs) s))"
    using keepsD [OF tidy_setup] tidy_opened [OF assms] by (metis prod.collapse)
  then have "tidy (snd (run_state (execute cs) (snd (run_state (setup_device o' r strs) s))))" for cs
    using keepsD [OF tidy_execute] by (metis prod.collapse)
  then show ?thesis by (simp add: tidy_def Let_def)
qed

definition example_rates :: rates where
  "example_rates = \<lparr>rt_dongle_freq = 162000000, rt_dongle_rate = 1600000, rt_both_rate_out = 100000,
     rt_both_passes = 4, rt_left_passes = 2, rt_left_rate_out = 25000, rt_bl_len = 3932\<rparr>"

theorem ais_session_discipline_witness:
  "let s = snd (run_state open_device ((blank_dev ack_env (dev_r82s example_dev)
         (dev_e4s example_dev))\<lparr>dev_driver_active := False\<rparr>));
       t = snd (run_state (setup_device default_settings example_rates (-1, None)) s);
       u = snd (run_state (execute (fst (command_worker [Received 5 False] [0x01, 0x09, 0xa7, 0xec, 0x80]))) t)
   in disciplined (dev_xfers u) \<and> \<not> repeater_on (dev_xfers u)"
  using ais_session_discipline [OF example_host_open] by (simp only: Let_def) blast

end
