(* ===== verification/AisLife.thy ===== *)
theory AisLife
  imports Prelude
begin

text \<open>
  The life of the native process in \<open>rtl_ais_andro.c\<close>: \<open>rtl_ais_main\<close> with its ways out, the threads it starts, and
  what they share with \<open>rtl_ais_close\<close>, which Java calls from its own thread at any time: the
  globals \<open>do_exit\<close>, \<open>is_running\<close>, \<open>dev\<close>, \<open>file\<close> and \<open>use_internal_aisdecoder\<close>, the condition variable \<open>ready\<close>
  with its mutex, the lock of the sample buffer, and the address of \<open>aisdecoder.c\<close> that the sentences are
  sent to. What happens between two accesses to these is one step; what the options,
  the dongle, the network and the client decide is a choice between steps. \<open>rtl_ais_main\<close> is not called while it
  runs. A use of one of these objects outside its life is recorded as a fault and the run goes on. The
  sound decoder between the samples and the sentences is not part of the sources; \<open>abort\<close> after a failed
  \<open>sendto\<close> ends the process and with it the run.
\<close>

section \<open>State\<close>

text \<open>Where \<open>rtl_ais_main\<close> is; \<open>Gone\<close> is the end of the process.\<close>

datatype main_pc = Idle | Entry | Setup | Decoder | Configure | Listen | Reading | Join | Destroy | Leaving | Gone

text \<open>The globals \<open>dev\<close> and \<open>addr\<close>: NULL, a live object, or the pointer to one that was freed.\<close>

datatype dev_ptr = Null | Live | Freed

text \<open>The global \<open>file\<close>, and the condition variable \<open>ready\<close> with its mutex.\<close>

datatype out_file = No_file | Stdout | Open_file | Closed_file

datatype sync_state = Uninit | Ready | Destroyed_sync

datatype life_fault =
    Dev_freed \<comment> \<open>a call of librtlsdr with the closed device\<close>
  | Join_unstarted \<comment> \<open>\<open>pthread_join\<close> of a thread that does not run\<close>
  | Addr_freed_twice | Addr_used \<comment> \<open>\<open>freeaddrinfo\<close>, \<open>sendto\<close> with an address that is freed or NULL\<close>
  | File_closed_twice | File_used \<comment> \<open>\<open>fclose\<close>, \<open>fwrite\<close> with a file that is closed or NULL\<close>
  | Sync_waited \<comment> \<open>\<open>ready\<close> is destroyed while a thread waits on it\<close>
  | Sync_used \<comment> \<open>\<open>ready\<close> or its mutex is used when not initialised\<close>
  | Sync_again | Lock_again \<comment> \<open>\<open>ready\<close>, the lock of a buffer is initialised when it is already\<close>

record life =
  lf_pc :: main_pc
  lf_tcp :: bool
  lf_internal :: bool
  lf_do_exit :: bool
  lf_running :: bool
  lf_dev :: dev_ptr
  lf_addr :: dev_ptr
  lf_file :: out_file
  lf_sync :: sync_state
  lf_lock :: bool \<comment> \<open>the lock of the sample buffer is initialised\<close>
  lf_command :: bool \<comment> \<open>the command thread exists\<close>
  lf_head :: nat \<comment> \<open>demodulator threads before the test of \<open>do_exit\<close>\<close>
  lf_enter :: nat \<comment> \<open>after it\<close>
  lf_blocked :: nat \<comment> \<open>in \<open>pthread_cond_wait\<close>\<close>
  lf_woken :: nat \<comment> \<open>before they have the mutex again\<close>
  lf_work :: nat \<comment> \<open>with a block of samples\<close>
  lf_announced :: "int list" \<comment> \<open>the codes given to Java, newest first\<close>
  lf_faults :: "life_fault list" \<comment> \<open>newest first\<close>

definition life_init :: life where
  "life_init = \<lparr>lf_pc = Idle, lf_tcp = False, lf_internal = True, lf_do_exit = False, lf_running = False,
     lf_dev = Null, lf_addr = Null, lf_file = No_file, lf_sync = Uninit, lf_lock = False, lf_command = False,
     lf_head = 0, lf_enter = 0, lf_blocked = 0, lf_woken = 0, lf_work = 0, lf_announced = [], lf_faults = []\<rparr>"

section \<open>Operations\<close>

definition report :: "life_fault \<Rightarrow> bool \<Rightarrow> life \<Rightarrow> life" where
  "report f b s = s\<lparr>lf_faults := (if b then f # lf_faults s else lf_faults s)\<rparr>"

text \<open>A call of the library with \<open>dev\<close>, which must not have been freed.\<close>

definition use_dev :: "life \<Rightarrow> life" where
  "use_dev s = report Dev_freed (lf_dev s = Freed) s"

definition sighandler :: "life \<Rightarrow> life" where
  "sighandler s = (use_dev s)\<lparr>lf_do_exit := True\<rparr>"

definition rtl_ais_close :: "life \<Rightarrow> life" where
  "rtl_ais_close s = sighandler s"

definition rtl_ais_isrunning :: "life \<Rightarrow> bool" where
  "rtl_ais_isrunning s = lf_running s"

definition set_isrunning :: "bool \<Rightarrow> life \<Rightarrow> life" where
  "set_isrunning status s = s\<lparr>lf_running := status\<rparr>"

text \<open>Every return of \<open>rtl_ais_main\<close>: the code is announced, then \<open>is_running\<close> is reset.\<close>

definition main_returns :: "int \<Rightarrow> main_pc \<Rightarrow> life \<Rightarrow> life" where
  "main_returns code pc s = set_isrunning False (s\<lparr>lf_announced := code # lf_announced s, lf_pc := pc\<rparr>)"

definition close_dev :: "life \<Rightarrow> life" where
  "close_dev s = (use_dev s)\<lparr>lf_dev := Freed\<rparr>"

text \<open>\<open>pthread_cond_init\<close> and \<open>pthread_mutex_init\<close>; a lock and a signal or unlock; the signal wakes a waiting thread.\<close>

definition init_ready :: "life \<Rightarrow> life" where
  "init_ready s = (report Sync_again (lf_sync s = Ready) s)\<lparr>lf_sync := Ready\<rparr>"

definition use_ready :: "life \<Rightarrow> life" where
  "use_ready s = report Sync_used (lf_sync s \<noteq> Ready) s"

definition safe_cond_signal :: "life \<Rightarrow> life" where
  "safe_cond_signal s = (use_ready s)\<lparr>lf_blocked := lf_blocked s - 1, lf_woken := lf_woken s + min 1 (lf_blocked s)\<rparr>"

definition destroy_ready :: "life \<Rightarrow> life" where
  "destroy_ready s = (report Sync_waited (0 < lf_blocked s) s)\<lparr>lf_sync := Destroyed_sync\<rparr>"

definition downsample_init_lock :: "life \<Rightarrow> life" where
  "downsample_init_lock s = (report Lock_again (lf_lock s) s)\<lparr>lf_lock := True\<rparr>"

text \<open>\<open>freeaddrinfo\<close>, which leaves the pointer, and does nothing for NULL.\<close>

definition free_addr :: "life \<Rightarrow> life" where
  "free_addr s = (report Addr_freed_twice (lf_addr s = Freed) s)
     \<lparr>lf_addr := (if lf_addr s = Null then Null else Freed)\<rparr>"

definition close_file :: "life \<Rightarrow> life" where
  "close_file s = (report File_closed_twice (lf_file s = Closed_file) s)
     \<lparr>lf_file := (if lf_file s = Open_file then Closed_file else lf_file s)\<rparr>"

text \<open>What a demodulator thread does with a block: it sends the sentence that ends in it, or writes the samples.\<close>

definition deliver :: "bool \<Rightarrow> life \<Rightarrow> life" where
  "deliver sentence s = report (if lf_internal s then Addr_used else File_used)
     (if lf_internal s then sentence \<and> lf_addr s \<noteq> Live else lf_file s = No_file \<or> lf_file s = Closed_file) s"

definition EXIT_OK :: int where "EXIT_OK = 0"
definition EXIT_WRONG_ARGS :: int where "EXIT_WRONG_ARGS = 1"
definition EXIT_INVALID_FD :: int where "EXIT_INVALID_FD = 2"
definition EXIT_NO_DEVICES :: int where "EXIT_NO_DEVICES = 3"
definition EXIT_FAILED_TO_OPEN_DEVICE :: int where "EXIT_FAILED_TO_OPEN_DEVICE = 4"
definition EXIT_AIS_DECODERR :: int where "EXIT_AIS_DECODERR = 10"

definition refusal :: "int \<Rightarrow> bool" where
  "refusal code \<longleftrightarrow> code < 0 \<or> code \<in> {EXIT_WRONG_ARGS, EXIT_NO_DEVICES, EXIT_FAILED_TO_OPEN_DEVICE}"

section \<open>Steps\<close>

datatype life_label = Open_call bool | Fd_invalid | Fd_valid | Option_A | Refused int | Exit_1 | Opened
  | File_fails | File_opens bool | Decoder_fails dev_ptr | Decoder_starts | Reset_fails | Configured
  | Listen_ends | Client | Block | Read_returns | Joined | Destroyed | Left
  | Command_ends | Client_quits | Close_call
  | Demod_enters | Demod_waits | Demod_wakes | Demod_resumes | Demod_block bool | Demod_ends

text \<open>
  Where a step stands for a choice outside the program: which codes the options and the dongle lead
  to, whether the file is the standard output, what a failed \<open>getaddrinfo\<close> leaves in \<open>addr\<close> (or a live
  address, when \<open>socket\<close> fails), when \<open>pthread_cond_wait\<close> returns without a signal, and whether a sentence ends in a block.
\<close>

inductive life_step :: "life_label \<Rightarrow> life \<Rightarrow> life \<Rightarrow> bool" where
  open_call: "lf_pc s = Idle \<Longrightarrow>
     life_step (Open_call tcp) s (set_isrunning True (s\<lparr>lf_pc := Entry, lf_tcp := tcp\<rparr>))"
| fd_invalid: "lf_pc s = Entry \<Longrightarrow> life_step Fd_invalid s (main_returns EXIT_INVALID_FD Idle s)"
| fd_valid: "lf_pc s = Entry \<Longrightarrow> life_step Fd_valid s (init_ready (s\<lparr>lf_pc := Setup\<rparr>))"
| option_A: "lf_pc s = Setup \<Longrightarrow> life_step Option_A s (s\<lparr>lf_internal := False\<rparr>)"
| refused: "lf_pc s = Setup \<Longrightarrow> refusal code \<Longrightarrow> life_step (Refused code) s (main_returns code Idle s)"
| exit_1: "lf_pc s = Setup \<Longrightarrow> life_step Exit_1 s (main_returns EXIT_WRONG_ARGS Gone s)"
| opened: "lf_pc s = Setup \<Longrightarrow>
     life_step Opened s (downsample_init_lock (s\<lparr>lf_pc := Decoder, lf_dev := Live\<rparr>))"
| file_fails: "lf_pc s = Decoder \<Longrightarrow> \<not> lf_internal s \<Longrightarrow>
     life_step File_fails s (main_returns EXIT_FAILED_TO_OPEN_DEVICE Idle (s\<lparr>lf_file := No_file\<rparr>))"
| file_opens: "lf_pc s = Decoder \<Longrightarrow> \<not> lf_internal s \<Longrightarrow>
     life_step (File_opens std) s (s\<lparr>lf_pc := Configure, lf_file := (if std then Stdout else Open_file)\<rparr>)"
| decoder_fails: "lf_pc s = Decoder \<Longrightarrow> lf_internal s \<Longrightarrow> p = Null \<or> p = Live \<or> p = lf_addr (free_addr s) \<Longrightarrow>
     life_step (Decoder_fails p) s
       (main_returns EXIT_AIS_DECODERR Idle (close_dev (use_dev ((free_addr s)\<lparr>lf_addr := p\<rparr>))))"
| decoder_starts: "lf_pc s = Decoder \<Longrightarrow> lf_internal s \<Longrightarrow>
     life_step Decoder_starts s ((free_addr s)\<lparr>lf_addr := Live, lf_pc := Configure\<rparr>)"
| reset_fails: "lf_pc s = Configure \<Longrightarrow> life_step Reset_fails s (main_returns EXIT_FAILED_TO_OPEN_DEVICE Idle s)"
| configured: "lf_pc s = Configure \<Longrightarrow> life_step Configured s
     (if lf_tcp s then s\<lparr>lf_pc := Listen\<rparr> else s\<lparr>lf_pc := Reading, lf_head := lf_head s + 1\<rparr>)"
| listen_ends: "lf_pc s = Listen \<Longrightarrow> lf_do_exit s \<Longrightarrow> life_step Listen_ends s (s\<lparr>lf_pc := Leaving\<rparr>)"
| client: "lf_pc s = Listen \<Longrightarrow> \<not> lf_do_exit s \<Longrightarrow>
     life_step Client s (s\<lparr>lf_pc := Reading, lf_command := True, lf_head := lf_head s + 1\<rparr>)"
| block: "lf_pc s = Reading \<Longrightarrow> \<not> lf_do_exit s \<Longrightarrow> life_step Block s (safe_cond_signal s)"
| read_returns: "lf_pc s = Reading \<Longrightarrow> life_step Read_returns s (s\<lparr>lf_pc := Join\<rparr>)"
| joined: "lf_pc s = Join \<Longrightarrow> \<not> lf_command s \<Longrightarrow>
     life_step Joined s (safe_cond_signal (use_dev (report Join_unstarted (\<not> lf_tcp s) (s\<lparr>lf_pc := Destroy\<rparr>))))"
| destroyed: "lf_pc s = Destroy \<Longrightarrow> life_step Destroyed s (close_file (destroy_ready (s\<lparr>lf_pc := Leaving\<rparr>)))"
| left: "lf_pc s = Leaving \<Longrightarrow> life_step Left s (main_returns EXIT_OK Idle (free_addr (close_dev s)))"
| command_ends: "lf_command s \<Longrightarrow> life_step Command_ends s ((sighandler s)\<lparr>lf_command := False\<rparr>)"
| client_quits: "lf_command s \<Longrightarrow> life_step Client_quits s (sighandler s)"
| close_call: "life_step Close_call s (rtl_ais_close s)" if "lf_pc s \<noteq> Gone"
| demod_enters: "0 < lf_head s \<Longrightarrow> \<not> lf_do_exit s \<Longrightarrow> lf_pc s \<noteq> Gone \<Longrightarrow>
     life_step Demod_enters s (s\<lparr>lf_head := lf_head s - 1, lf_enter := lf_enter s + 1\<rparr>)"
| demod_waits: "0 < lf_enter s \<Longrightarrow> lf_pc s \<noteq> Gone \<Longrightarrow>
     life_step Demod_waits s ((use_ready s)\<lparr>lf_enter := lf_enter s - 1, lf_blocked := lf_blocked s + 1\<rparr>)"
| demod_wakes: "0 < lf_blocked s \<Longrightarrow> lf_pc s \<noteq> Gone \<Longrightarrow>
     life_step Demod_wakes s (s\<lparr>lf_blocked := lf_blocked s - 1, lf_woken := lf_woken s + 1\<rparr>)"
| demod_resumes: "0 < lf_woken s \<Longrightarrow> lf_pc s \<noteq> Gone \<Longrightarrow>
     life_step Demod_resumes s ((use_ready s)\<lparr>lf_woken := lf_woken s - 1, lf_work := lf_work s + 1\<rparr>)"
| demod_block: "0 < lf_work s \<Longrightarrow> lf_pc s \<noteq> Gone \<Longrightarrow>
     life_step (Demod_block sentence) s ((deliver sentence s)\<lparr>lf_work := lf_work s - 1, lf_head := lf_head s + 1\<rparr>)"
| demod_ends: "0 < lf_head s \<Longrightarrow> lf_do_exit s \<Longrightarrow> lf_pc s \<noteq> Gone \<Longrightarrow>
     life_step Demod_ends s ((use_dev s)\<lparr>lf_head := lf_head s - 1\<rparr>)"

inductive life_run :: "life \<Rightarrow> life_label list \<Rightarrow> life \<Rightarrow> bool" where
  run_nil: "life_run s [] s"
| run_snoc: "life_run s ls t \<Longrightarrow> life_step l t u \<Longrightarrow> life_run s (ls @ [l]) u"

code_pred (modes: i \<Rightarrow> i \<Rightarrow> o \<Rightarrow> bool as next_life) life_step .

lemmas life_ops = report_def use_dev_def sighandler_def rtl_ais_close_def set_isrunning_def main_returns_def
  close_dev_def init_ready_def use_ready_def safe_cond_signal_def destroy_ready_def downsample_init_lock_def
  free_addr_def close_file_def deliver_def

section \<open>Invariant\<close>

text \<open>Where the device is open, and where samples may be read.\<close>

fun has_dev :: "main_pc \<Rightarrow> bool" where
  "has_dev Idle = False" | "has_dev Entry = False" | "has_dev Setup = False" | "has_dev Gone = False"
| "has_dev Decoder = True" | "has_dev Configure = True" | "has_dev Listen = True" | "has_dev Reading = True"
| "has_dev Join = True" | "has_dev Destroy = True" | "has_dev Leaving = True"

fun may_read :: "main_pc \<Rightarrow> bool" where
  "may_read Reading = True" | "may_read Join = True" | "may_read Idle = False" | "may_read Entry = False"
| "may_read Setup = False" | "may_read Decoder = False" | "may_read Configure = False" | "may_read Listen = False"
| "may_read Destroy = False" | "may_read Leaving = False" | "may_read Gone = False"

fun active :: "main_pc \<Rightarrow> bool" where
  "active Idle = False" | "active Gone = False" | "active Entry = True" | "active Setup = True"
| "active Decoder = True" | "active Configure = True" | "active Listen = True" | "active Reading = True"
| "active Join = True" | "active Destroy = True" | "active Leaving = True"

text \<open>Where \<open>ready\<close> is initialised, and where the sentences or samples have somewhere to go.\<close>

definition has_ready :: "main_pc \<Rightarrow> bool" where
  "has_ready pc \<longleftrightarrow> active pc \<and> pc \<noteq> Entry \<and> pc \<noteq> Leaving"

definition has_output :: "main_pc \<Rightarrow> bool" where
  "has_output pc \<longleftrightarrow> has_dev pc \<and> pc \<noteq> Decoder \<and> pc \<noteq> Leaving"

lemmas pc_defs = has_ready_def has_output_def

lemma reading_has_dev: "may_read pc \<Longrightarrow> has_dev pc"
  by (cases pc) simp_all

definition life_inv :: "life \<Rightarrow> bool" where
  "life_inv s \<longleftrightarrow>
     (rtl_ais_isrunning s \<longleftrightarrow> active (lf_pc s)) \<and> (has_dev (lf_pc s) \<longrightarrow> lf_dev s = Live) \<and>
     (lf_command s \<longrightarrow> may_read (lf_pc s)) \<and> (has_ready (lf_pc s) \<longrightarrow> lf_sync s = Ready) \<and>
     (lf_internal s \<longrightarrow> lf_file s = No_file \<and> (has_output (lf_pc s) \<longrightarrow> lf_addr s = Live)) \<and>
     (\<not> lf_internal s \<and> has_output (lf_pc s) \<longrightarrow> lf_file s = Stdout \<or> lf_file s = Open_file)"

lemma life_inv_step: "life_step l s t \<Longrightarrow> life_inv s \<Longrightarrow> life_inv t"
  by (erule life_step.cases;
      auto simp: life_inv_def rtl_ais_isrunning_def life_ops pc_defs dest: reading_has_dev split: if_splits)

lemma life_inv_run: "life_run s ls t \<Longrightarrow> life_inv s \<Longrightarrow> life_inv t"
  by (induction rule: life_run.induct) (auto intro: life_inv_step)

lemma life_inv_init: "life_inv life_init"
  by (simp add: life_inv_def life_init_def rtl_ais_isrunning_def pc_defs)

definition open_calls :: "life_label list \<Rightarrow> nat" where
  "open_calls ls = length (List.filter (\<lambda>l. \<exists>tcp. l = Open_call tcp) ls)"

lemma announced_step:
  "life_step l s t \<Longrightarrow> life_inv s \<Longrightarrow>
   length (lf_announced t) + (if rtl_ais_isrunning t then 1 else 0) =
     length (lf_announced s) + (if rtl_ais_isrunning s then 1 else 0) + open_calls [l]"
  by (erule life_step.cases) (simp_all add: life_inv_def rtl_ais_isrunning_def life_ops open_calls_def)

lemma announced_run:
  "life_run s ls t \<Longrightarrow> life_inv s \<Longrightarrow>
   length (lf_announced t) + (if rtl_ais_isrunning t then 1 else 0) =
     length (lf_announced s) + (if rtl_ais_isrunning s then 1 else 0) + open_calls ls"
proof (induction rule: life_run.induct)
  case (run_snoc s ls t l u)
  then show ?case using announced_step [OF run_snoc.hyps(2) life_inv_run [OF run_snoc.hyps(1)]]
    by (simp add: open_calls_def split: if_splits)
qed (simp add: open_calls_def)

text \<open>
  C27. The life of the process: after any interleaving of calls from Java, the client and the
  threads, \<open>rtl_ais_isrunning\<close> is true exactly while \<open>rtl_ais_main\<close> is active, every call of it but a running one
  has announced exactly one code, the device is open from its configuration until \<open>rtl_ais_main\<close> leaves,
  and the command thread exists only while samples are read or it is joined.
\<close>

theorem ais_life_invariant:
  assumes "life_run life_init ls s"
  shows "(rtl_ais_isrunning s \<longleftrightarrow> active (lf_pc s)) \<and>
    open_calls ls = length (lf_announced s) + (if rtl_ais_isrunning s then 1 else 0) \<and>
    (has_dev (lf_pc s) \<longrightarrow> lf_dev s = Live) \<and> (lf_command s \<longrightarrow> may_read (lf_pc s))"
  using life_inv_run [OF assms life_inv_init] announced_run [OF assms life_inv_init]
  by (auto simp: life_inv_def life_init_def rtl_ais_isrunning_def)


section \<open>Faults\<close>

definition no_demod :: "life \<Rightarrow> bool" where
  "no_demod s \<longleftrightarrow>
     lf_head s = 0 \<and> lf_enter s = 0 \<and> lf_blocked s = 0 \<and> lf_woken s = 0 \<and> lf_work s = 0"

text \<open>
  \<open>ready\<close> is initialised before any thread uses it; and what holds as long as no code has been announced,
  that is in the first session of the process.
\<close>

definition sync_inv :: "life \<Rightarrow> bool" where
  "sync_inv s \<longleftrightarrow> (lf_sync s = Uninit \<longrightarrow> no_demod s \<and> lf_pc s \<noteq> Leaving)"

lemma sync_inv_step: "life_step l s t \<Longrightarrow> life_inv s \<Longrightarrow> sync_inv s \<Longrightarrow> sync_inv t"
  by (erule life_step.cases)
    (auto simp: sync_inv_def life_inv_def no_demod_def life_ops pc_defs split: if_splits)

definition first_inv :: "life \<Rightarrow> bool" where
  "first_inv s \<longleftrightarrow> lf_dev s \<noteq> Freed \<and> lf_addr s \<noteq> Freed \<and>
     (lf_pc s = Idle \<or> lf_pc s = Entry \<longrightarrow> lf_sync s = Uninit) \<and>
     (\<not> has_dev (lf_pc s) \<longrightarrow> \<not> lf_lock s) \<and>
     (\<not> may_read (lf_pc s) \<and> lf_pc s \<noteq> Destroy \<and> lf_pc s \<noteq> Leaving \<longrightarrow> no_demod s) \<and>
     (lf_pc s \<noteq> Leaving \<and> (lf_tcp s \<or> lf_pc s \<noteq> Destroy) \<longrightarrow> lf_faults s = [])"

lemma announced_mono: "life_step l s t \<Longrightarrow> lf_announced t = [] \<Longrightarrow> lf_announced s = []"
  by (erule life_step.cases) (auto simp: life_ops split: if_splits)

lemma first_inv_threads:
  assumes "first_inv s" "\<not> no_demod s" "lf_dev t = lf_dev s" "lf_addr t = lf_addr s" "lf_pc t = lf_pc s"
    "lf_sync t = lf_sync s" "lf_lock t = lf_lock s" "lf_tcp t = lf_tcp s"
    "lf_pc s \<noteq> Leaving \<Longrightarrow> lf_faults t = lf_faults s"
  shows "first_inv t"
  using assms by (auto simp: first_inv_def)

lemma demod_at:
  assumes "life_inv s" "first_inv s" "\<not> no_demod s" "lf_pc s \<noteq> Leaving"
  shows "lf_sync s = Ready" "lf_internal s \<Longrightarrow> lf_addr s = Live"
    "\<not> lf_internal s \<Longrightarrow> lf_file s = Stdout \<or> lf_file s = Open_file"
proof -
  have "may_read (lf_pc s) \<or> lf_pc s = Destroy"
    using assms(2-4) unfolding first_inv_def by blast
  then have "has_ready (lf_pc s)" "has_output (lf_pc s)" by (cases "lf_pc s"; simp add: pc_defs)+
  then show "lf_sync s = Ready" "lf_internal s \<Longrightarrow> lf_addr s = Live"
    "\<not> lf_internal s \<Longrightarrow> lf_file s = Stdout \<or> lf_file s = Open_file"
    using assms(1) by (simp_all add: life_inv_def)
qed

lemma first_inv_step:
  assumes "life_step l s t" "life_inv s" "first_inv s" "lf_announced t = []"
  shows "first_inv t"
proof (cases "l \<in> {Demod_enters, Demod_waits, Demod_wakes, Demod_resumes, Demod_block True,
    Demod_block False, Demod_ends}")
  case True
  then have n: "\<not> no_demod s" using assms(1) by (auto simp: no_demod_def elim: life_step.cases)
  have d: "lf_dev s \<noteq> Freed" using assms(3) by (simp add: first_inv_def)
  note at = demod_at [OF assms(2,3) n]
  show ?thesis
    by (rule first_inv_threads [OF assms(3) n]; use assms(1) True at d in
      \<open>auto simp: life_ops elim!: life_step.cases split: if_splits\<close>)
next
  case False
  from assms(1) show ?thesis
    by cases (use assms(2-4) False in
      \<open>simp_all add: first_inv_def life_inv_def no_demod_def life_ops pc_defs split del: if_split\<close>, simp split: if_split)
qed

lemma run_invs:
  assumes "life_run life_init ls s"
  shows "life_inv s \<and> sync_inv s \<and> (lf_announced s = [] \<longrightarrow> first_inv s)"
  using assms
proof (induction life_init ls s rule: life_run.induct)
  case run_nil
  show ?case
    using life_inv_init by (simp add: sync_inv_def first_inv_def no_demod_def life_init_def)
next
  case (run_snoc ls t l u)
  then show ?case
    using life_inv_step sync_inv_step first_inv_step announced_mono by blast
qed

text \<open>When a step is a fault.\<close>

definition fault_at :: "life_fault \<Rightarrow> life_label \<Rightarrow> life \<Rightarrow> bool" where
  "fault_at f l s \<longleftrightarrow>
     f = Dev_freed \<and> lf_dev s = Freed \<and> (l = Close_call \<or> l = Demod_ends) \<or>
     f = Join_unstarted \<and> \<not> lf_tcp s \<and> l = Joined \<or>
     f = Addr_freed_twice \<and> lf_addr s = Freed \<and> (l = Decoder_starts \<or> (\<exists>p. l = Decoder_fails p) \<or> l = Left) \<or>
     f = Addr_used \<and> lf_internal s \<and> lf_addr s \<noteq> Live \<and> l = Demod_block True \<or>
     f = File_used \<and> \<not> lf_internal s \<and> (lf_file s = No_file \<or> lf_file s = Closed_file) \<and>
       (\<exists>b. l = Demod_block b) \<or>
     f = Sync_waited \<and> 0 < lf_blocked s \<and> l = Destroyed \<or>
     f = Sync_used \<and> lf_sync s = Destroyed_sync \<and> (l = Demod_waits \<or> l = Demod_resumes) \<or>
     f = Sync_again \<and> lf_sync s = Ready \<and> l = Fd_valid \<or>
     f = Lock_again \<and> lf_lock s \<and> l = Opened"

lemma fault_step:
  assumes "life_step l s t" "life_inv s" "sync_inv s"
  shows "f \<in> set (lf_faults t) \<longleftrightarrow> f \<in> set (lf_faults s) \<or> fault_at f l s"
proof -
  have sync: "lf_sync s \<noteq> Ready \<longleftrightarrow> lf_sync s = Destroyed_sync"
      if "0 < lf_enter s \<or> 0 < lf_woken s"
    using assms(3) that by (cases "lf_sync s") (auto simp: sync_inv_def no_demod_def)
  have dev: "has_dev (lf_pc s) \<Longrightarrow> lf_dev s \<noteq> Freed" "lf_command s \<Longrightarrow> lf_dev s \<noteq> Freed"
    using assms(2) by (auto simp: life_inv_def dest: reading_has_dev)
  have ready: "has_ready (lf_pc s) \<Longrightarrow> lf_sync s = Ready" using assms(2) by (simp add: life_inv_def)
  have closed: "lf_pc s = Destroy \<Longrightarrow> lf_file s \<noteq> Closed_file"
    using assms(2) by (cases "lf_internal s") (auto simp: life_inv_def pc_defs)
  from assms(1) show ?thesis
    by cases (simp_all add: fault_at_def sync dev ready closed life_ops has_ready_def split del: if_split, auto split: if_splits)
qed

text \<open>
  C28. Uses of the objects that the parts of the process share (the device, the address, the file, \<open>ready\<close> with its mutex, the lock of the
  sample buffer, the command thread) outside their life, over any interleaving and any number of
  sessions. A step is such a fault exactly when: Java calls \<open>rtl_ais_close\<close> or a demodulator thread
  ends while \<open>dev\<close> still points to the device that \<open>rtl_ais_main\<close> has closed; the command thread is joined that
  the option \<open>-x\<close> leaves out; the decoder is set up, or \<open>rtl_ais_main\<close> leaves, while \<open>addr\<close> still points to
  the address that an earlier session freed; a late demodulator thread sends a sentence to an address that is freed or missing, or
  writes samples to a file that is closed or missing; \<open>ready\<close> is destroyed while such a thread waits on it,
  or the thread uses it or its mutex afterwards; or a second call of \<open>rtl_ais_main\<close> initialises \<open>ready\<close> or the
  lock of the buffers again. The file is never closed twice. In the first session there is no fault before \<open>rtl_ais_main\<close>
  destroys \<open>ready\<close> (with \<open>-x\<close>: before it joins).
\<close>

theorem ais_life_faults:
  assumes "life_run life_init ls s" "life_step l s t"
  shows "(f \<in> set (lf_faults t) \<longleftrightarrow> f \<in> set (lf_faults s) \<or> fault_at f l s) \<and>
    (lf_announced s = [] \<and> lf_pc s \<noteq> Leaving \<and> (lf_tcp s \<or> lf_pc s \<noteq> Destroy) \<longrightarrow> lf_faults s = [])"
  using run_invs [OF assms(1)] fault_step [OF assms(2)] by (auto simp: first_inv_def)

section \<open>A session\<close>

text \<open>An ordinary session: a client, the user closes, and the demodulator thread is the last to end.\<close>

definition session :: "life_label list" where
  "session = [Open_call True, Fd_valid, Opened, Decoder_starts, Configured, Client, Close_call, Read_returns,
     Command_ends, Joined, Destroyed, Left]"

definition after_session :: life where
  "after_session = \<lparr>lf_pc = Idle, lf_tcp = True, lf_internal = True, lf_do_exit = True, lf_running = False,
     lf_dev = Freed, lf_addr = Freed, lf_file = No_file, lf_sync = Destroyed_sync, lf_lock = True,
     lf_command = False, lf_head = 1, lf_enter = 0, lf_blocked = 0, lf_woken = 0, lf_work = 0,
     lf_announced = [EXIT_OK], lf_faults = []\<rparr>"

lemma run_from: "life_step l s t \<Longrightarrow> life_run t ls u \<Longrightarrow> life_run s (l # ls) u"
proof (rotate_tac, induction rule: life_run.induct)
  case (run_nil t)
  then show ?case using life_run.run_snoc [OF life_run.run_nil] by fastforce
next
  case (run_snoc t ls u l' v)
  then show ?case using life_run.run_snoc [of s "l # ls" u l' v] by simp
qed

lemma session_run: "life_run life_init session after_session"
  unfolding session_def life_init_def after_session_def
  by (rule run_from, rule open_call, simp, rule run_from, rule fd_valid, simp add: life_ops,
      rule run_from, rule opened, simp add: life_ops, rule run_from, rule decoder_starts, simp add: life_ops,
      simp add: life_ops, rule run_from, rule configured, simp add: life_ops, rule run_from, rule client,
      simp add: life_ops, simp add: life_ops, rule run_from, rule close_call, simp add: life_ops,
      rule run_from, rule read_returns, simp add: life_ops, rule run_from, rule command_ends,
      simp add: life_ops, rule run_from, rule joined, simp add: life_ops, simp add: life_ops,
      rule run_from, rule destroyed, simp add: life_ops, rule run_from, rule left, simp add: life_ops)
    (simp add: life_ops run_nil)

theorem ais_life_invariant_witness:
  "open_calls session = length (lf_announced after_session)"
  using ais_life_invariant [OF session_run] by (simp add: after_session_def rtl_ais_isrunning_def)

text \<open>The session after it: setting up the decoder frees the address a second time.\<close>

definition second_session :: "life_label list" where
  "second_session = [Open_call True, Fd_valid, Opened]"

definition in_second_session :: life where
  "in_second_session = after_session\<lparr>lf_pc := Decoder, lf_running := True, lf_dev := Live, lf_sync := Ready,
     lf_faults := [Lock_again]\<rparr>"

lemma run_append: "life_run t ls u \<Longrightarrow> life_run s ks t \<Longrightarrow> life_run s (ks @ ls) u"
  by (induction rule: life_run.induct) (auto simp flip: append_assoc intro: run_snoc)

lemma second_session_run: "life_run life_init (session @ second_session) in_second_session"
proof (rule run_append [OF _ session_run])
  show "life_run after_session second_session in_second_session"
    unfolding second_session_def in_second_session_def after_session_def
    by (rule run_from, rule open_call, simp, rule run_from, rule fd_valid, simp add: life_ops,
        rule run_from, rule opened, simp add: life_ops) (simp add: life_ops run_nil)
qed

theorem ais_life_faults_witness:
  "\<exists>t. life_step Decoder_starts in_second_session t \<and>
     Addr_freed_twice \<in> set (lf_faults t) \<and> Addr_freed_twice \<notin> set (lf_faults in_second_session)"
proof -
  have pc: "lf_pc in_second_session = Decoder" "lf_internal in_second_session"
      "lf_addr in_second_session = Freed" "lf_faults in_second_session = [Lock_again]"
    by (simp_all add: in_second_session_def after_session_def)
  let ?t = "(free_addr in_second_session)\<lparr>lf_addr := Live, lf_pc := Configure\<rparr>"
  have "life_step Decoder_starts in_second_session ?t" by (rule decoder_starts) (rule pc)+
  with ais_life_faults [OF second_session_run this, of Addr_freed_twice] pc show ?thesis
    by (auto simp: fault_at_def)
qed

text \<open>
  Nothing resets \<open>do_exit\<close>: once it is set, no session with a command socket gets past the wait for a
  client.
\<close>

lemma no_second_session:
  assumes "life_run s ls t" "lf_do_exit s" "lf_pc s = Idle" "Open_call False \<notin> set ls"
  shows "lf_do_exit t \<and> \<not> may_read (lf_pc t) \<and> lf_pc t \<noteq> Destroy \<and>
    (active (lf_pc t) \<and> lf_pc t \<noteq> Leaving \<longrightarrow> lf_tcp t)"
  using assms
proof (induction rule: life_run.induct)
  case (run_snoc s ls t l u)
  then have IH: "lf_do_exit t \<and> \<not> may_read (lf_pc t) \<and> lf_pc t \<noteq> Destroy \<and>
      (active (lf_pc t) \<and> lf_pc t \<noteq> Leaving \<longrightarrow> lf_tcp t)"
    and l: "l \<noteq> Open_call False" by auto
  from run_snoc.hyps(2) show ?case
    by cases (use IH l in \<open>simp_all add: life_ops\<close>)
qed simp

end
