(* ===== verification/Args.thy ===== *)
theory Args
  imports Prelude
begin

text \<open>
  The argument vector that \<open>RtlAisJava.c\<close> makes of the option string of the Java side:
  \<open>strcpytrimmed\<close> and \<open>allocate_args_from_string\<close>. A string of allocated memory is a list of
  bytes in which \<open>None\<close> is a byte that nothing was written to. The option string is ASCII, so
  its length in UTF-16 units is its length in bytes.
\<close>

section \<open>Copying\<close>

abbreviation blank :: char where "blank \<equiv> CHR '' ''"

definition strcpytrimmed :: "string \<Rightarrow> nat \<Rightarrow> char option list" where
  "strcpytrimmed src dest_malloced_size =
     (let charstocopy = dest_malloced_size - 1;
          body = dropWhile (\<lambda>c. c = blank) (take charstocopy src);
          body = rev (dropWhile (\<lambda>c. c = blank) (rev body))
      in map Some body @ replicate (charstocopy - length body) None @ [Some (CHR 0x00)])"

section \<open>Splitting\<close>

text \<open>The loop with its remaining rounds, \<open>i\<close>, the offset of \<open>laststart\<close>, and \<open>lastlength\<close>; then the last argument.\<close>

fun args_loop :: "string \<Rightarrow> nat \<Rightarrow> nat \<Rightarrow> nat \<Rightarrow> nat \<Rightarrow> char option list list" where
  "args_loop s 0 i laststart lastlength =
     [strcpytrimmed (drop laststart s) (lastlength + 1 + 1)]"
| "args_loop s (Suc k) i laststart lastlength =
     (let lastlength = lastlength + 1
      in if s ! i = blank \<and> s ! (i + 1) \<noteq> blank
         then strcpytrimmed (drop laststart s) lastlength # args_loop s k (i + 1) (i + 1) 0
         else args_loop s k (i + 1) laststart lastlength)"

text \<open>
  \<open>argv[1]\<close> and the following (\<open>argv[0]\<close> is NULL, \<open>argc\<close> one more than their number). \<open>None\<close>: the string
  is empty or blank, \<open>argc\<close> is 0 and \<open>argv\<close> is not written, although the caller frees it.
\<close>

definition allocate_args_from_string :: "string \<Rightarrow> char option list list option" where
  "allocate_args_from_string s =
     (if length (List.filter (\<lambda>c. c = blank) s) + 1 = length s + 1 then None
      else Some (args_loop s (length s - 1) 0 0 0))"

section \<open>Properties\<close>

definition word :: "string \<Rightarrow> bool" where
  "word w \<longleftrightarrow> w \<noteq> [] \<and> blank \<notin> set w"

fun join :: "string list \<Rightarrow> string" where
  "join [] = []"
| "join [w] = w"
| "join (w # v # ws) = w @ blank # join (v # ws)"

definition c_string :: "string \<Rightarrow> char option list" where
  "c_string w = map Some w @ [Some (CHR 0x00)]"

lemma drop_blanks_word: "blank \<notin> set w \<Longrightarrow> dropWhile (\<lambda>c. c = blank) w = w"
  by (cases w) auto

lemma strcpytrimmed_word:
  "blank \<notin> set w \<Longrightarrow> strcpytrimmed (w @ t) (length w + 1) = c_string w"
  by (simp add: strcpytrimmed_def c_string_def drop_blanks_word)

lemma args_loop_scan:
  "(\<And>m. m < j \<Longrightarrow> s ! (i + m) \<noteq> blank) \<Longrightarrow>
   args_loop s (j + k) i start len = args_loop s k (i + j) start (len + j)"
proof (induction j arbitrary: i len)
  case (Suc j)
  have "s ! i \<noteq> blank" using Suc.prems [of 0] by simp
  moreover have "s ! (i + 1 + m) \<noteq> blank" if "m < j" for m using Suc.prems [of "Suc m"] that by simp
  ultimately show ?case using Suc.IH [of "i + 1" "len + 1"] by simp
qed simp

lemma nth_in_word: "blank \<notin> set w \<Longrightarrow> m < length w \<Longrightarrow> w ! m \<noteq> blank"
  by (metis nth_mem)

lemma join_Cons: "ws \<noteq> [] \<Longrightarrow> join (w # ws) = w @ blank # join ws"
  by (cases ws) auto

lemma join_first: "ws \<noteq> [] \<Longrightarrow> word (hd ws) \<Longrightarrow> join ws \<noteq> [] \<and> hd (join ws) \<noteq> blank"
  by (cases ws rule: join.cases) (auto simp: word_def dest: hd_in_set)

lemma args_loop_join:
  "ws \<noteq> [] \<Longrightarrow> \<forall>w\<in>set ws. word w \<Longrightarrow>
   args_loop (p @ join ws) (length (join ws) - 1) (length p) (length p) 0 = map c_string ws"
proof (induction ws arbitrary: p)
  case (Cons w ws)
  have w: "w \<noteq> []" "blank \<notin> set w" using Cons.prems(2) by (auto simp: word_def)
  show ?case
  proof (cases "ws = []")
    case True
    have "args_loop (p @ w) (length w - 1 + 0) (length p) (length p) 0 =
        args_loop (p @ w) 0 (length p + (length w - 1)) (length p) (0 + (length w - 1))"
      using w by (intro args_loop_scan) (simp add: nth_append nth_in_word)
    then show ?thesis using True w strcpytrimmed_word [of w "[]"] by simp
  next
    case False
    let ?s = "p @ join (w # ws)" and ?q = "p @ w @ [blank]"
    have s: "?s = ?q @ join ws" using False by (simp add: join_Cons)
    have rest: "join ws \<noteq> []" "hd (join ws) \<noteq> blank"
      using join_first [OF False] Cons.prems(2) False by auto
    have k: "length (join (w # ws)) - 1 = length w + Suc (length (join ws) - 1)"
      using rest(1) False by (cases "join ws") (simp_all add: join_Cons)
    have "args_loop ?s (length (join (w # ws)) - 1) (length p) (length p) 0 =
        args_loop ?s (Suc (length (join ws) - 1)) (length p + length w) (length p) (0 + length w)"
      unfolding k using w by (intro args_loop_scan) (simp add: s nth_append nth_in_word)
    also have "\<dots> = c_string w # args_loop ?s (length (join ws) - 1) (length ?q) (length ?q) 0"
    proof -
      have "?s ! (length p + length w) = blank" "?s ! (length p + length w + 1) \<noteq> blank"
        using rest by (simp_all add: s nth_append hd_conv_nth)
      moreover have "strcpytrimmed (drop (length p) ?s) (length w + 1) = c_string w"
        using strcpytrimmed_word [OF w(2), of "blank # join ws"] by (simp add: s)
      ultimately show ?thesis by simp
    qed
    also have "\<dots> = c_string w # map c_string ws"
      using Cons.IH [OF False, of ?q] Cons.prems(2) unfolding s by simp
    finally show ?thesis by simp
  qed
qed simp

lemma join_blanks: "ws \<noteq> [] \<Longrightarrow> \<forall>w\<in>set ws. word w \<Longrightarrow>
    length (List.filter (\<lambda>c. c = blank) (join ws)) < length (join ws)"
  using length_filter_less [of "hd (join ws)" "join ws" "\<lambda>c. c = blank"] join_first [of ws] by auto

text \<open>
  C34. The options arrive: for words separated by single blanks the argument vector is the words, each a
  terminated string.
\<close>

theorem args_split_words:
  assumes "ws \<noteq> []" "\<forall>w\<in>set ws. word w"
  shows "allocate_args_from_string (join ws) = Some (map c_string ws)"
  using args_loop_join [OF assms, of "[]"] join_blanks [OF assms]
  by (simp add: allocate_args_from_string_def)

theorem args_split_words_witness:
  "allocate_args_from_string ''-l 161.975M -x'' = Some (map c_string [''-l'', ''161.975M'', ''-x''])"
  using args_split_words [of "[''-l'', ''161.975M'', ''-x'']"] by (simp add: word_def)

text \<open>A second blank between two words leaves a byte of the first unset; a blank string has no vector.\<close>

lemma args_double_blank:
  "allocate_args_from_string ''-g  40'' =
     Some [[Some (CHR ''-''), Some (CHR ''g''), None, Some (CHR 0x00)], c_string ''40'']"
  "allocate_args_from_string '' '' = None"
  by (simp_all add: allocate_args_from_string_def strcpytrimmed_def c_string_def numeral_eq_Suc)

end
