(* ===== verification/UsbUrb.thy ===== *)
theory UsbUrb
  imports UsbTypes
begin

text \<open>
  The transfers of the Linux backend (\<open>os/linux_usbfs.c\<close>): how a transfer is split into URBs and submitted, discarded, and
  put together again when the kernel returns them. The answers of the kernel to \<open>IOCTL_USBFS_SUBMITURB\<close> and
  \<open>IOCTL_USBFS_DISCARDURB\<close> are parameters, an errno for each URB of the transfer (0 is success); what is asked of the kernel
  is a list of requests. \<open>calloc\<close> succeeds.
\<close>

section \<open>Kernel\<close>

definition ENOENT :: int where "ENOENT = 2"
definition EAGAIN :: int where "EAGAIN = 11"
definition EXDEV :: int where "EXDEV = 18"
definition ENODEV :: int where "ENODEV = 19"
definition usbfs_EINVAL :: int where "usbfs_EINVAL = 22"
definition EPIPE :: int where "EPIPE = 32"
definition ETIME :: int where "ETIME = 62"
definition ENOSR :: int where "ENOSR = 63"
definition ECOMM :: int where "ECOMM = 70"
definition EPROTO :: int where "EPROTO = 71"
definition EOVERFLOW :: int where "EOVERFLOW = 75"
definition EILSEQ :: int where "EILSEQ = 84"
definition ECONNRESET :: int where "ECONNRESET = 104"
definition ESHUTDOWN :: int where "ESHUTDOWN = 108"
definition EREMOTEIO :: int where "EREMOTEIO = 121"

lemmas errnos = ENOENT_def EAGAIN_def EXDEV_def ENODEV_def usbfs_EINVAL_def EPIPE_def ETIME_def ENOSR_def ECOMM_def
  EPROTO_def EOVERFLOW_def EILSEQ_def ECONNRESET_def ESHUTDOWN_def EREMOTEIO_def

datatype cap = CAP_ZERO_PACKET | CAP_BULK_CONTINUATION | CAP_NO_PACKET_SIZE_LIM | CAP_BULK_SCATTER_GATHER

record kernel =
  k_caps :: "cap set"
  k_submit :: "nat \<Rightarrow> int"
  k_discard :: "nat \<Rightarrow> int"

datatype request = SUBMITURB nat urb | DISCARDURB nat

definition MAX_BULK_BUFFER_LENGTH :: nat where "MAX_BULK_BUFFER_LENGTH = 16384"
definition MAX_ISO_BUFFER_LENGTH :: nat where "MAX_ISO_BUFFER_LENGTH = 49152 * 128"
definition MAX_CTRL_BUFFER_LENGTH :: nat where "MAX_CTRL_BUFFER_LENGTH = 4096"
definition CONTROL_SETUP_SIZE :: nat where "CONTROL_SETUP_SIZE = 8"

definition is_out :: "xfer \<Rightarrow> bool" where
  "is_out x \<longleftrightarrow> \<not> bit (x_endpoint x) 7"

section \<open>Discarding\<close>

text \<open>From the last URB to the first; the result of \<open>discard_urbs\<close> with the requests.\<close>

fun discard_loop :: "kernel \<Rightarrow> nat \<Rightarrow> nat list \<Rightarrow> int \<Rightarrow> int" where
  "discard_loop k last_plus_one [] r = r"
| "discard_loop k last_plus_one (i # is) r = discard_loop k last_plus_one is
     (if k_discard k i = 0 then r
      else if k_discard k i = usbfs_EINVAL then (if i = last_plus_one - 1 then LIBUSB_ERROR_NOT_FOUND else r)
      else if k_discard k i = ENODEV then LIBUSB_ERROR_NO_DEVICE
      else LIBUSB_ERROR_OTHER)"

definition discard_urbs :: "kernel \<Rightarrow> nat \<Rightarrow> nat \<Rightarrow> int \<times> request list" where
  "discard_urbs k first last_plus_one =
     (let is = rev [first..<last_plus_one] in (discard_loop k last_plus_one is 0, map DISCARDURB is))"

section \<open>Submitting\<close>

text \<open>The length of the blocks a bulk transfer is split into, and whether they are chained.\<close>

definition bulk_split :: "cap set \<Rightarrow> xfer \<Rightarrow> nat \<times> bool" where
  "bulk_split caps x =
     (if CAP_BULK_SCATTER_GATHER \<in> caps then (if x_length x \<noteq> 0 then x_length x else 1, False)
      else if CAP_BULK_CONTINUATION \<in> caps then (MAX_BULK_BUFFER_LENGTH, True)
      else if CAP_NO_PACKET_SIZE_LIM \<in> caps then (if x_length x \<noteq> 0 then x_length x else 1, False)
      else (MAX_BULK_BUFFER_LENGTH, False))"

definition bulk_num_urbs :: "nat \<Rightarrow> xfer \<Rightarrow> nat" where
  "bulk_num_urbs bulk_buffer_len x =
     (if x_length x = 0 then 1
      else if x_length x mod bulk_buffer_len > 0 then x_length x div bulk_buffer_len + 1
      else x_length x div bulk_buffer_len)"

definition bulk_urb :: "cap set \<Rightarrow> xfer \<Rightarrow> nat \<Rightarrow> urb" where
  "bulk_urb caps x i =
     (let (len, use_bulk_continuation) = bulk_split caps x; num_urbs = bulk_num_urbs len x;
          last_urb_partial = (x_length x \<noteq> 0 \<and> x_length x mod len > 0) in
      \<lparr>u_type = (if x_type x = TYPE_INTERRUPT then URB_INTERRUPT else URB_BULK),
       u_endpoint = x_endpoint x,
       u_flags = (if use_bulk_continuation \<and> \<not> is_out x \<and> i < num_urbs - 1 then {URB_SHORT_NOT_OK} else {}) \<union>
         (if i > 0 \<and> use_bulk_continuation then {URB_BULK_CONTINUATION} else {}) \<union>
         (if is_out x \<and> i = num_urbs - 1 \<and> ADD_ZERO_PACKET \<in> x_flags x then {URB_ZERO_PACKET} else {}),
       u_offset = i * len,
       u_length = (if i = num_urbs - 1 \<and> last_urb_partial then x_length x mod len
         else if x_length x = 0 then 0 else len),
       u_stream_id = (if x_type x = TYPE_BULK_STREAM then it_stream_id x else 0),
       u_packets = []\<rparr>)"

definition bulk_urbs :: "cap set \<Rightarrow> xfer \<Rightarrow> urb list" where
  "bulk_urbs caps x = map (bulk_urb caps x) [0..<bulk_num_urbs (fst (bulk_split caps x)) x]"

text \<open>The loop over the URBs: the requests, and the URB that was refused with its errno.\<close>

fun submit_loop :: "kernel \<Rightarrow> nat \<Rightarrow> urb list \<Rightarrow> request list \<times> (nat \<times> int) option" where
  "submit_loop k i [] = ([], None)"
| "submit_loop k i (u # us) =
     (if k_submit k i \<noteq> 0 then ([SUBMITURB i u], Some (i, k_submit k i))
      else let (reqs, failed) = submit_loop k (i + 1) us in (SUBMITURB i u # reqs, failed))"

definition submit_bulk_transfer :: "kernel \<Rightarrow> xfer \<Rightarrow> int \<times> request list \<times> xfer" where
  "submit_bulk_transfer k x =
     (if is_out x \<and> ADD_ZERO_PACKET \<in> x_flags x \<and> CAP_ZERO_PACKET \<notin> k_caps k
      then (LIBUSB_ERROR_NOT_SUPPORTED, [], x)
      else
        let urbs = bulk_urbs (k_caps k) x; num_urbs = length urbs;
            x = x\<lparr>tp_urbs := Some urbs, tp_urbs_id := tp_urbs_id x + 1, tp_num_urbs := num_urbs, tp_num_retired := 0, tp_reap_action := NORMAL,
              tp_reap_status := TRANSFER_COMPLETED\<rparr> in
        case submit_loop k 0 urbs of
          (reqs, None) \<Rightarrow> (0, reqs, x)
        | (reqs, Some (i, errno)) \<Rightarrow>
            if i = 0 then (if errno = ENODEV then LIBUSB_ERROR_NO_DEVICE else LIBUSB_ERROR_IO, reqs, x\<lparr>tp_urbs := None\<rparr>)
            else
              let x = x\<lparr>tp_reap_action := (if errno = EREMOTEIO then COMPLETED_EARLY else SUBMIT_FAILED),
                    tp_num_retired := tp_num_retired x + (num_urbs - i)\<rparr> in
              if tp_reap_action x = COMPLETED_EARLY then (0, reqs, x)
              else (0, reqs @ snd (discard_urbs k 0 i), x))"

text \<open>The isochronous packets are put into as few URBs as they need, in order.\<close>

fun iso_count :: "nat list \<Rightarrow> nat \<Rightarrow> nat \<Rightarrow> nat option" where
  "iso_count [] num_urbs this_urb_len = Some num_urbs"
| "iso_count (packet_len # packets) num_urbs this_urb_len =
     (if packet_len > MAX_ISO_BUFFER_LENGTH - this_urb_len then
        (if packet_len > MAX_ISO_BUFFER_LENGTH then None else iso_count packets (num_urbs + 1) packet_len)
      else iso_count packets num_urbs (this_urb_len + packet_len))"

fun iso_swallow :: "nat list \<Rightarrow> nat \<Rightarrow> nat list \<times> nat list" where
  "iso_swallow [] space_remaining = ([], [])"
| "iso_swallow (packet_len # packets) space_remaining =
     (if packet_len \<le> space_remaining then
        let (inside, rest) = iso_swallow packets (space_remaining - packet_len) in (packet_len # inside, rest)
      else ([], packet_len # packets))"

fun iso_urbs :: "nat \<Rightarrow> xfer \<Rightarrow> nat \<Rightarrow> nat list \<Rightarrow> urb list" where
  "iso_urbs 0 x offset packets = []"
| "iso_urbs (Suc n) x offset packets =
     (let (inside, rest) = iso_swallow packets MAX_ISO_BUFFER_LENGTH in
      \<lparr>u_type = URB_ISO, u_endpoint = x_endpoint x, u_flags = {URB_ISO_ASAP}, u_offset = offset, u_length = 0,
       u_stream_id = 0, u_packets = inside\<rparr> # iso_urbs n x (offset + sum_list inside) rest)"

definition submit_iso_transfer :: "kernel \<Rightarrow> xfer \<Rightarrow> int \<times> request list \<times> xfer" where
  "submit_iso_transfer k x =
     (let packets = map iso_length (x_iso x) in
      case iso_count packets 1 0 of
        None \<Rightarrow> (LIBUSB_ERROR_INVALID_PARAM, [], x)
      | Some num_urbs \<Rightarrow>
          let urbs = iso_urbs num_urbs x 0 packets;
              x = x\<lparr>tp_urbs := Some urbs, tp_urbs_id := tp_urbs_id x + 1, tp_num_urbs := num_urbs, tp_num_retired := 0, tp_reap_action := NORMAL,
                tp_iso_packet_offset := 0\<rparr> in
          case submit_loop k 0 urbs of
            (reqs, None) \<Rightarrow> (0, reqs, x)
          | (reqs, Some (i, errno)) \<Rightarrow>
              if i = 0 then (if errno = ENODEV then LIBUSB_ERROR_NO_DEVICE else if errno = usbfs_EINVAL
                then LIBUSB_ERROR_INVALID_PARAM else LIBUSB_ERROR_IO, reqs, x\<lparr>tp_urbs := None\<rparr>)
              else (0, reqs @ snd (discard_urbs k 0 i),
                x\<lparr>tp_reap_action := SUBMIT_FAILED, tp_num_retired := num_urbs - i\<rparr>))"

text \<open>
  The buffer of a control transfer starts with the setup packet. The comparison in the source is one of unsigned numbers, so
  that a length below 8 is refused, too.
\<close>

definition submit_control_transfer :: "kernel \<Rightarrow> xfer \<Rightarrow> int \<times> request list \<times> xfer" where
  "submit_control_transfer k x =
     (if x_length x < CONTROL_SETUP_SIZE \<or> x_length x - CONTROL_SETUP_SIZE > MAX_CTRL_BUFFER_LENGTH
      then (LIBUSB_ERROR_INVALID_PARAM, [], x)
      else
        let urb = \<lparr>u_type = URB_CONTROL, u_endpoint = x_endpoint x, u_flags = {}, u_offset = 0, u_length = x_length x,
              u_stream_id = 0, u_packets = []\<rparr>;
            x = x\<lparr>tp_urbs := Some [urb], tp_urbs_id := tp_urbs_id x + 1, tp_num_urbs := 1, tp_reap_action := NORMAL\<rparr>; reqs = [SUBMITURB 0 urb] in
        if k_submit k 0 \<noteq> 0 then
          (if k_submit k 0 = ENODEV then LIBUSB_ERROR_NO_DEVICE else LIBUSB_ERROR_IO, reqs, x\<lparr>tp_urbs := None\<rparr>)
        else (0, reqs, x))"

definition op_submit_transfer :: "kernel \<Rightarrow> xfer \<Rightarrow> int \<times> request list \<times> xfer" where
  "op_submit_transfer k x =
     (if x_type x = TYPE_CONTROL then submit_control_transfer k x
      else if x_type x = TYPE_BULK \<or> x_type x = TYPE_BULK_STREAM then submit_bulk_transfer k x
      else if x_type x = TYPE_INTERRUPT then submit_bulk_transfer k x
      else if x_type x = TYPE_ISOCHRONOUS then submit_iso_transfer k x
      else (LIBUSB_ERROR_INVALID_PARAM, [], x))"

section \<open>Cancelling\<close>

definition op_cancel_transfer :: "kernel \<Rightarrow> xfer \<Rightarrow> int \<times> request list \<times> xfer" where
  "op_cancel_transfer k x =
     (if tp_urbs x = None then (LIBUSB_ERROR_NOT_FOUND, [], x)
      else let (r, reqs) = discard_urbs k 0 (tp_num_urbs x) in
        if r \<noteq> 0 then (r, reqs, x)
        else if (x_type x = TYPE_BULK \<or> x_type x = TYPE_BULK_STREAM) \<and> tp_reap_action x = ERROR then (0, reqs, x)
        else (0, reqs, x\<lparr>tp_reap_action := CANCELLED\<rparr>))"

definition op_clear_transfer_priv :: "xfer \<Rightarrow> xfer" where
  "op_clear_transfer_priv x = (if x_type x \<le> TYPE_BULK_STREAM then x\<lparr>tp_urbs := None\<rparr> else x)"

end
