(* ===== verification/UsbReap.thy ===== *)
theory UsbReap
  imports UsbUrb
begin

text \<open>
  What the Linux backend does with the URBs that the kernel returns (\<open>reap_for_handle\<close> and the completion functions of
  \<open>os/linux_usbfs.c\<close>). The kernel has written the data of a URB into its part of the buffer before. A completion function
  returns 0, or ends the transfer through \<open>usbi_handle_transfer_completion\<close> or \<open>usbi_handle_transfer_cancellation\<close>.
\<close>

datatype outcome = Cancellation | Completion xfer_status

type_synonym reaped = "xfer \<times> request list \<times> outcome option"

section \<open>Bulk and interrupt transfers\<close>

text \<open>What a status says: nothing wrong, or one of the cases of the switch.\<close>

datatype verdict = V_ok | V_no_device | V_stall | V_overflow | V_error

definition bulk_verdict :: "int \<Rightarrow> verdict" where
  "bulk_verdict status =
     (if status = 0 then V_ok
      else if status = - EREMOTEIO then V_ok
      else if status = - ENOENT \<or> status = - ECONNRESET then V_ok
      else if status = - ENODEV \<or> status = - ESHUTDOWN then V_no_device
      else if status = - EPIPE then V_stall
      else if status = - EOVERFLOW then V_overflow
      else V_error)"

definition memmove :: "u8 list \<Rightarrow> nat \<Rightarrow> nat \<Rightarrow> nat \<Rightarrow> u8 list" where
  "memmove buf target source n = take target buf @ take n (drop source buf) @ drop (target + n) buf"

text \<open>Data of a URB that is reaped when the transfer is being ended: closed up with the data before it.\<close>

definition surplus :: "urb \<Rightarrow> nat \<Rightarrow> xfer \<Rightarrow> xfer" where
  "surplus urb actual_length x =
     (if actual_length > 0 then
        let target = it_transferred x;
            x = (if u_offset urb \<noteq> target then
                   if target + actual_length \<le> length (x_buffer x) \<and> u_offset urb + actual_length \<le> length (x_buffer x)
                   then x\<lparr>x_buffer := memmove (x_buffer x) target (u_offset urb) actual_length\<rparr>
                   else x\<lparr>x_ub := True\<rparr>
                 else x) in
        x\<lparr>it_transferred := it_transferred x + actual_length\<rparr>
      else x)"

definition completed :: "xfer \<Rightarrow> reaped" where
  "completed x = (x\<lparr>tp_urbs := None\<rparr>, [],
     Some (if tp_reap_action x = CANCELLED then Cancellation else Completion (tp_reap_status x)))"

definition cancel_remaining :: "kernel \<Rightarrow> nat \<Rightarrow> xfer \<Rightarrow> reaped" where
  "cancel_remaining k urb_idx x =
     (let x = (if tp_reap_action x = ERROR \<and> tp_reap_status x = TRANSFER_COMPLETED
               then x\<lparr>tp_reap_status := TRANSFER_ERROR\<rparr> else x) in
      if tp_num_retired x = tp_num_urbs x then completed x
      else (x, snd (discard_urbs k (urb_idx + 1) (tp_num_urbs x)), None))"

definition set_reap_status :: "xfer_status \<Rightarrow> xfer \<Rightarrow> xfer" where
  "set_reap_status status x = (if tp_reap_status x = TRANSFER_COMPLETED then x\<lparr>tp_reap_status := status\<rparr> else x)"

text \<open>A URB of a transfer whose URBs were freed is read after it was freed.\<close>

definition handle_bulk_completion :: "kernel \<Rightarrow> xfer \<Rightarrow> nat \<Rightarrow> int \<Rightarrow> nat \<Rightarrow> reaped" where
  "handle_bulk_completion k x urb_idx status actual_length = (case tp_urbs x of
     None \<Rightarrow> (x\<lparr>x_ub := True\<rparr>, [], None)
   | Some urbs \<Rightarrow>
       let urb = urbs ! urb_idx; x = x\<lparr>tp_num_retired := tp_num_retired x + 1\<rparr> in
       if tp_reap_action x \<noteq> NORMAL then
         let x = surplus urb actual_length x in
         if tp_num_retired x = tp_num_urbs x then
           completed (if tp_reap_action x \<noteq> COMPLETED_EARLY then set_reap_status TRANSFER_ERROR x else x)
         else (x, [], None)
       else
         let x = x\<lparr>it_transferred := it_transferred x + actual_length\<rparr> in
         case bulk_verdict status of
           V_ok \<Rightarrow>
             if urb_idx = tp_num_urbs x - 1 then completed x
             else if actual_length < u_length urb then cancel_remaining k urb_idx (x\<lparr>tp_reap_action := COMPLETED_EARLY\<rparr>)
             else (x, [], None)
         | V_no_device \<Rightarrow> cancel_remaining k urb_idx (x\<lparr>tp_reap_status := TRANSFER_NO_DEVICE\<rparr>)
         | V_stall \<Rightarrow> cancel_remaining k urb_idx (set_reap_status TRANSFER_STALL x)
         | V_overflow \<Rightarrow> completed (set_reap_status TRANSFER_OVERFLOW x)
         | V_error \<Rightarrow> cancel_remaining k urb_idx (x\<lparr>tp_reap_action := ERROR\<rparr>))"

section \<open>Isochronous transfers\<close>

definition iso_packet_status :: "int \<Rightarrow> xfer_status" where
  "iso_packet_status status =
     (if status = 0 then TRANSFER_COMPLETED
      else if status = - ENOENT \<or> status = - ECONNRESET then TRANSFER_COMPLETED
      else if status = - ENODEV \<or> status = - ESHUTDOWN then TRANSFER_NO_DEVICE
      else if status = - EPIPE then TRANSFER_STALL
      else if status = - EOVERFLOW then TRANSFER_OVERFLOW
      else TRANSFER_ERROR)"

text \<open>The results of the packets of a URB, each a status and a length, go to the next descriptors of the transfer.\<close>

fun copy_iso_results :: "(int \<times> nat) list \<Rightarrow> xfer \<Rightarrow> xfer" where
  "copy_iso_results [] x = x"
| "copy_iso_results ((status, actual_length) # ps) x =
     (let i = tp_iso_packet_offset x; x = x\<lparr>tp_iso_packet_offset := i + 1\<rparr> in
      copy_iso_results ps
        (if i < length (x_iso x)
         then x\<lparr>x_iso := (x_iso x)[i := (x_iso x ! i)\<lparr>iso_status := iso_packet_status status,
           iso_actual_length := actual_length\<rparr>]\<rparr>
         else x\<lparr>x_ub := True\<rparr>))"

definition handle_iso_completion :: "xfer \<Rightarrow> nat \<Rightarrow> int \<Rightarrow> (int \<times> nat) list \<Rightarrow> reaped" where
  "handle_iso_completion x urb_idx status packets = (case tp_urbs x of
     None \<Rightarrow> (x\<lparr>x_ub := True\<rparr>, [], None)
   | Some urbs \<Rightarrow>
       let x = copy_iso_results packets x; x = x\<lparr>tp_num_retired := tp_num_retired x + 1\<rparr> in
       if tp_reap_action x \<noteq> NORMAL then
         if tp_num_retired x = tp_num_urbs x then
           (x\<lparr>tp_urbs := None\<rparr>, [],
            Some (if tp_reap_action x = CANCELLED then Cancellation else Completion TRANSFER_ERROR))
         else (x, [], None)
       else
         let result = (if status = 0 \<or> status = - ENOENT \<or> status = - ECONNRESET then TRANSFER_COMPLETED
                       else if status = - ESHUTDOWN then TRANSFER_NO_DEVICE else TRANSFER_ERROR) in
         if urb_idx + 1 = tp_num_urbs x then (x\<lparr>tp_urbs := None\<rparr>, [], Some (Completion result))
         else (x, [], None))"

section \<open>Control transfers\<close>

definition control_status :: "int \<Rightarrow> xfer_status" where
  "control_status status =
     (if status = 0 then TRANSFER_COMPLETED
      else if status = - ENOENT then TRANSFER_CANCELLED
      else if status = - ENODEV \<or> status = - ESHUTDOWN then TRANSFER_NO_DEVICE
      else if status = - EPIPE then TRANSFER_STALL
      else if status = - EOVERFLOW then TRANSFER_OVERFLOW
      else TRANSFER_ERROR)"

definition handle_control_completion :: "xfer \<Rightarrow> int \<Rightarrow> nat \<Rightarrow> reaped" where
  "handle_control_completion x status actual_length = (case tp_urbs x of
     None \<Rightarrow> (x\<lparr>x_ub := True\<rparr>, [], None)
   | Some urbs \<Rightarrow>
       let x = x\<lparr>it_transferred := it_transferred x + actual_length, tp_urbs := None\<rparr> in
       (x, [], Some (if tp_reap_action x = CANCELLED then Cancellation else Completion (control_status status))))"

section \<open>Reaping\<close>

text \<open>
  What \<open>IOCTL_USBFS_REAPURBNDELAY\<close> answers: an errno, or a pointer to a URB with its result; the URB is named by its
  transfer, the array it was allocated in, and its place there.
\<close>

record urb_result =
  ur_transfer :: nat
  ur_urbs_id :: nat
  ur_index :: nat
  ur_status :: int
  ur_actual_length :: nat
  ur_packets :: "(int \<times> nat) list"

definition reap_error :: "int \<Rightarrow> int" where
  "reap_error errno = (if errno = EAGAIN then 1 else if errno = ENODEV then LIBUSB_ERROR_NO_DEVICE else LIBUSB_ERROR_IO)"

text \<open>
  A type that is unknown is an error. The first access to a URB of an array that was freed, which reads the transfer
  from it, is undefined.
\<close>

definition reap_urb :: "kernel \<Rightarrow> urb_result \<Rightarrow> xfer \<Rightarrow> int + reaped" where
  "reap_urb k u x =
     (if tp_urbs x = None \<or> ur_urbs_id u \<noteq> tp_urbs_id x then Inr (x\<lparr>x_ub := True\<rparr>, [], None)
      else if x_type x = TYPE_ISOCHRONOUS then Inr (handle_iso_completion x (ur_index u) (ur_status u) (ur_packets u))
      else if x_type x = TYPE_BULK \<or> x_type x = TYPE_BULK_STREAM \<or> x_type x = TYPE_INTERRUPT
      then Inr (handle_bulk_completion k x (ur_index u) (ur_status u) (ur_actual_length u))
      else if x_type x = TYPE_CONTROL then Inr (handle_control_completion x (ur_status u) (ur_actual_length u))
      else Inl LIBUSB_ERROR_OTHER)"

end
