(* ===== verification/UsbBulk.thy ===== *)
theory UsbBulk
  imports UsbReap
begin

text \<open>
  The life of a bulk or interrupt transfer in the Linux backend, from its submission to the last URB: the URBs are a partition
  of the buffer, whatever the kernel accepts of them; and however they come back, with cancellations in between, the transfer ends
  exactly once, when the last accepted URB has come back, with all data gathered at the start of the buffer, unless a URB that the
  code takes for the last one comes back before others, as it does after a stall.
\<close>

section \<open>The URBs of a transfer\<close>

abbreviation block :: "cap set \<Rightarrow> xfer \<Rightarrow> nat" where
  "block caps x \<equiv> fst (bulk_split caps x)"

lemma block_pos: "0 < block caps x"
  by (simp add: bulk_split_def MAX_BULK_BUFFER_LENGTH_def)

lemma length_bulk_urbs: "length (bulk_urbs caps x) = bulk_num_urbs (block caps x) x"
  by (simp add: bulk_urbs_def)

lemma bulk_num_urbs_bounds:
  assumes "0 < len" "n = bulk_num_urbs len x"
  shows "0 < n" "(n - 1) * len \<le> x_length x" "x_length x \<le> n * len"
proof -
  define q r where "q = x_length x div len" and "r = x_length x mod len"
  have d: "x_length x = q * len + r" and r: "r < len" using assms(1) by (simp_all add: q_def r_def)
  have n: "n = (if x_length x = 0 then 1 else if r > 0 then q + 1 else q)"
    by (simp add: assms(2) bulk_num_urbs_def q_def r_def)
  show "0 < n" "x_length x \<le> n * len" "(n - 1) * len \<le> x_length x"
    using d r by (auto simp: n algebra_simps intro: gr0I diff_mult_distrib)
qed

lemma bulk_urb_offset: "i < length (bulk_urbs caps x) \<Longrightarrow> u_offset (bulk_urbs caps x ! i) = i * block caps x"
  by (simp add: bulk_urbs_def bulk_urb_def Let_def split: prod.split)

lemma bulk_urb_length:
  assumes "i < length (bulk_urbs caps x)"
  shows "u_length (bulk_urbs caps x ! i) = min (block caps x) (x_length x - i * block caps x)"
proof -
  define len where "len = block caps x"
  define n where "n = bulk_num_urbs len x"
  have len: "0 < len" by (simp add: len_def block_pos)
  have i: "i < n" using assms by (simp add: length_bulk_urbs n_def len_def)
  have u: "u_length (bulk_urbs caps x ! i) =
      (if i = n - 1 \<and> x_length x \<noteq> 0 \<and> x_length x mod len > 0 then x_length x mod len
       else if x_length x = 0 then 0 else len)"
    using assms by (simp add: bulk_urbs_def bulk_urb_def Let_def n_def len_def split: prod.split)
  show ?thesis
  proof (cases "x_length x = 0")
    case False
    have "x_length x - i * len = x_length x mod len" if "i = n - 1" "x_length x mod len > 0"
      using that False by (simp add: n_def bulk_num_urbs_def minus_div_mult_eq_mod)
    moreover have "(i + 1) * len \<le> x_length x" if "\<not> (i = n - 1 \<and> x_length x mod len > 0)"
    proof -
      have "i + 1 \<le> x_length x div len"
        using that i False by (auto simp: n_def bulk_num_urbs_def split: if_splits)
      then show ?thesis by (meson div_times_less_eq_dividend le_trans mult_le_mono1)
    qed
    ultimately show ?thesis using False mod_less_divisor [OF len, of "x_length x"]
      by (auto simp: u len_def [symmetric] algebra_simps)
  qed (simp add: u)
qed

lemma concat_blocks:
  "concat (map (\<lambda>i. take len (drop (i * len) xs)) [0..<n]) = take (n * len) xs"
proof (induction n)
  case (Suc n)
  have "take (Suc n * len) xs = take (n * len) xs @ take len (drop (n * len) xs)"
    by (metis add.commute mult_Suc take_add)
  then show ?case using Suc by simp
qed simp

text \<open>
  The URBs of a bulk transfer cover its buffer exactly: read in order, the parts of the buffer they point to are
  the whole buffer, whatever the kernel's capabilities and the length.\<close>

lemma usb_bulk_partition:
  assumes "length buf = x_length x"
  shows "concat (map (\<lambda>u. take (u_length u) (drop (u_offset u) buf)) (bulk_urbs caps x)) = buf"
proof -
  let ?len = "block caps x" and ?n = "length (bulk_urbs caps x)"
  have "map (\<lambda>u. take (u_length u) (drop (u_offset u) buf)) (bulk_urbs caps x) =
      map (\<lambda>i. take ?len (drop (i * ?len) buf)) [0..<?n]"
  proof (rule nth_equalityI)
    fix i assume "i < length (map (\<lambda>u. take (u_length u) (drop (u_offset u) buf)) (bulk_urbs caps x))"
    then have "i < ?n" by simp
    then show "map (\<lambda>u. take (u_length u) (drop (u_offset u) buf)) (bulk_urbs caps x) ! i =
        map (\<lambda>i. take ?len (drop (i * ?len) buf)) [0..<?n] ! i"
      using assms by (simp add: bulk_urb_offset bulk_urb_length min_def)
  qed simp
  then show ?thesis
    using bulk_num_urbs_bounds(3) [OF block_pos [of caps x] refl, of x] assms
    by (simp add: concat_blocks length_bulk_urbs)
qed

text \<open>Forty thousand bytes in blocks of 16 KiB.\<close>

lemma usb_bulk_partition_example:
  "concat (map (\<lambda>u. take (u_length u) (drop (u_offset u) (replicate 40000 0)))
     (bulk_urbs {} (libusb_alloc_transfer 0\<lparr>x_length := 40000\<rparr>))) = replicate 40000 0"
  by (rule usb_bulk_partition) simp

section \<open>Runs\<close>

text \<open>
  What happens to a submitted transfer: the kernel returns one of its URBs with a status and data, or it is cancelled.
\<close>

datatype bulk_event = Reaped kernel nat int "u8 list" | Cancelled kernel

fun bulk_run :: "bulk_event list \<Rightarrow> xfer \<Rightarrow> xfer \<times> outcome list" where
  "bulk_run [] x = (x, [])"
| "bulk_run (Reaped k i status bytes # es) x =
     (let (x, reqs, result) = handle_bulk_completion k x i status (length bytes); (y, results) = bulk_run es x in
      (y, (case result of None \<Rightarrow> [] | Some r \<Rightarrow> [r]) @ results))"
| "bulk_run (Cancelled k # es) x = bulk_run es (snd (snd (op_cancel_transfer k x)))"

fun reaped_data :: "bulk_event list \<Rightarrow> u8 list list" where
  "reaped_data [] = []"
| "reaped_data (Reaped k i status bytes # es) = bytes # reaped_data es"
| "reaped_data (Cancelled k # es) = reaped_data es"

text \<open>
  What the history so far tells: the URBs that are back, the first one behind all data, whether the transfer still goes on
  normally, and whether no URB was discarded yet, so that the kernel completes them in their order. A transfer stops being normal with
  a short URB, an error, or a cancellation; a stall discards the other URBs, but leaves it normal. (A cancellation that fails has
  found the last URB complete, or the device gone.)
\<close>

record bulk_view =
  bv_back :: "nat set"
  bv_next :: nat
  bv_normal :: bool
  bv_ordered :: bool

definition in_full :: "urb list \<Rightarrow> nat \<Rightarrow> int \<Rightarrow> u8 list \<Rightarrow> bool" where
  "in_full urbs i status bytes \<longleftrightarrow> bulk_verdict status = V_ok \<and> u_length (urbs ! i) \<le> length bytes"

definition dead :: "int \<Rightarrow> bool" where
  "dead status \<longleftrightarrow> bulk_verdict status = V_stall \<or> bulk_verdict status = V_no_device"

fun see :: "urb list \<Rightarrow> bulk_event \<Rightarrow> bulk_view \<Rightarrow> bulk_view" where
  "see urbs (Reaped k i status bytes) v =
     \<lparr>bv_back = insert i (bv_back v), bv_next = (if bytes = [] then bv_next v else i + 1),
      bv_normal = (bv_normal v \<and> (dead status \<or> in_full urbs i status bytes)),
      bv_ordered = (bv_ordered v \<and> in_full urbs i status bytes)\<rparr>"
| "see urbs (Cancelled k) v =
     (if fst (discard_urbs k 0 (length urbs)) = 0 then v\<lparr>bv_normal := False, bv_ordered := False\<rparr> else v)"

definition seen_nothing :: "urb list \<Rightarrow> nat \<Rightarrow> bulk_view" where
  "seen_nothing urbs m = \<lparr>bv_back = {}, bv_next = 0, bv_normal = (m = length urbs), bv_ordered = (m = length urbs)\<rparr>"

text \<open>
  What the kernel promises: a URB it accepted comes back once, and in order while none was discarded; the data fits
  the URB and is in its part of the buffer, and the parts fill from the start of the buffer; nothing is sent after a stall, or by
  a device that went away.
\<close>

fun kernel_ok :: "urb list \<Rightarrow> u8 list \<Rightarrow> nat \<Rightarrow> bulk_view \<Rightarrow> bulk_event list \<Rightarrow> bool" where
  "kernel_ok urbs buf m v [] \<longleftrightarrow> True"
| "kernel_ok urbs buf m v (Reaped k i status bytes # es) \<longleftrightarrow>
     i < m \<and> i \<notin> bv_back v \<and> (bv_ordered v \<longrightarrow> bv_back v = set [0..<i]) \<and>
     length bytes \<le> u_length (urbs ! i) \<and> take (length bytes) (drop (u_offset (urbs ! i)) buf) = bytes \<and>
     (bytes \<noteq> [] \<longrightarrow> bv_next v \<le> i) \<and>
     (dead status \<longrightarrow> concat (reaped_data es) = []) \<and>
     kernel_ok urbs buf m (see urbs (Reaped k i status bytes) v) es"
| "kernel_ok urbs buf m v (Cancelled k # es) \<longleftrightarrow> kernel_ok urbs buf m (see urbs (Cancelled k) v) es"

text \<open>
  What the code relies on beyond that: while the transfer is normal, the last URB of the array, and a URB with an overflow, are the
  last to come back.
\<close>

fun ends_last :: "urb list \<Rightarrow> nat \<Rightarrow> bulk_view \<Rightarrow> bulk_event list \<Rightarrow> bool" where
  "ends_last urbs m v [] \<longleftrightarrow> True"
| "ends_last urbs m v (Reaped k i status bytes # es) \<longleftrightarrow>
     (bv_normal v \<and> (bulk_verdict status = V_overflow \<or> bulk_verdict status = V_ok \<and> i + 1 = length urbs) \<longrightarrow>
        card (bv_back v) + 1 = m) \<and>
     ends_last urbs m (see urbs (Reaped k i status bytes) v) es"
| "ends_last urbs m v (Cancelled k # es) \<longleftrightarrow> ends_last urbs m (see urbs (Cancelled k) v) es"

text \<open>The number of URBs that the kernel accepts.\<close>

definition accepted :: "kernel \<Rightarrow> nat \<Rightarrow> nat" where
  "accepted k n = length (takeWhile (\<lambda>i. k_submit k i = 0) [0..<n])"

section \<open>The invariant\<close>

text \<open>The part of the invariant that speaks of the data.\<close>

definition data_ok :: "nat \<Rightarrow> u8 list \<Rightarrow> nat \<Rightarrow> u8 list \<Rightarrow> xfer \<Rightarrow> bool" where
  "data_ok len buf i got x \<longleftrightarrow>
     \<not> x_ub x \<and> length (x_buffer x) = length buf \<and> it_transferred x = length got \<and> length got \<le> i * len \<and>
     take (length got) (x_buffer x) = got \<and> drop (i * len) (x_buffer x) = drop (i * len) buf"

text \<open>
  With \<open>c\<close> of \<open>m\<close> accepted URBs back the transfer waits for the others, and with all of them back its URBs are freed. While
  it goes on normally, either all data that came is in place and the next URB is the next to come, or no more data will come.
\<close>

definition counted :: "urb list \<Rightarrow> nat \<Rightarrow> nat \<Rightarrow> xfer \<Rightarrow> bool" where
  "counted urbs m c x \<longleftrightarrow>
     (if c < m then tp_urbs x = Some urbs \<and> tp_num_urbs x = length urbs \<and> tp_num_retired x + m = length urbs + c \<and>
        (tp_reap_action x = NORMAL \<longrightarrow> m = length urbs)
      else tp_urbs x = None)"

definition in_place :: "nat \<Rightarrow> bulk_view \<Rightarrow> u8 list \<Rightarrow> bool" where
  "in_place len v got \<longleftrightarrow> bv_ordered v \<and> bv_back v = set [0..<bv_next v] \<and> length got = bv_next v * len"

definition gathered :: "urb list \<Rightarrow> nat \<Rightarrow> nat \<Rightarrow> u8 list \<Rightarrow> bulk_view \<Rightarrow> u8 list \<Rightarrow> bulk_event list \<Rightarrow> xfer \<Rightarrow> bool" where
  "gathered urbs len m buf v got es x \<longleftrightarrow>
     counted urbs m (card (bv_back v)) x \<and> finite (bv_back v) \<and> bv_back v \<subseteq> {..<m} \<and> data_ok len buf (bv_next v) got x \<and>
     (tp_urbs x \<noteq> None \<and> tp_reap_action x = NORMAL \<longrightarrow> bv_normal v \<and> (in_place len v got \<or> concat (reaped_data es) = []))"

lemma memmove_gather:
  assumes "t \<le> off" "off + n \<le> length b" "off + n \<le> off'"
  shows "length (memmove b t off n) = length b" "take t (memmove b t off n) = take t b"
    "take (t + n) (memmove b t off n) = take t b @ take n (drop off b)" "drop off' (memmove b t off n) = drop off' b"
  using assms by (auto simp: memmove_def drop_append)

lemma take_drop_le: "take n (drop off b) = d \<Longrightarrow> n = length d \<Longrightarrow> 0 < n \<Longrightarrow> off + n \<le> length b"
  by (metis add_leE leI length_drop length_take less_diff_conv min.absorb1 min.absorb4 nat_less_le not_add_less1 add.commute le_diff_conv2 length_greater_0_conv drop_all take_Nil nless_le)

lemma surplus_fields [simp]:
  "tp_urbs (surplus u n x) = tp_urbs x" "tp_num_urbs (surplus u n x) = tp_num_urbs x"
  "tp_num_retired (surplus u n x) = tp_num_retired x" "tp_reap_action (surplus u n x) = tp_reap_action x"
  by (simp_all add: surplus_def Let_def)

lemma set_reap_status_fields [simp]:
  "tp_urbs (set_reap_status st x) = tp_urbs x" "tp_num_urbs (set_reap_status st x) = tp_num_urbs x"
  "tp_num_retired (set_reap_status st x) = tp_num_retired x" "tp_reap_action (set_reap_status st x) = tp_reap_action x"
  "x_ub (set_reap_status st x) = x_ub x" "x_buffer (set_reap_status st x) = x_buffer x"
  "it_transferred (set_reap_status st x) = it_transferred x"
  by (simp_all add: set_reap_status_def)

lemma data_ok_surplus:
  assumes "data_ok len buf i got x" "u_offset u = i * len" "length bytes \<le> len"
    "take (length bytes) (drop (i * len) buf) = bytes"
  shows "data_ok len buf (i + 1) (got @ bytes) (surplus u (length bytes) x)"
proof -
  let ?t = "length got" and ?n = "length bytes" and ?off = "i * len" and ?stop = "(i + 1) * len" and ?b = "x_buffer x"
  have le: "?t \<le> ?off" and t: "it_transferred x = ?t" "\<not> x_ub x" "length ?b = length buf"
    and got: "take ?t ?b = got" and rest: "drop ?off ?b = drop ?off buf"
    using assms(1) unfolding data_ok_def by blast+
  have fits: "?off + ?n \<le> ?stop" using assms(3) by simp
  have "drop ?stop ys = drop len (drop ?off ys)" for ys :: "u8 list" by (simp add: add.commute)
  then have later: "drop ?stop ?b = drop ?stop buf" by (simp only: rest)
  have le': "length (got @ bytes) \<le> ?stop" using le fits by simp
  show ?thesis
  proof (cases "bytes = []")
    case True
    then show ?thesis using later le' t got unfolding data_ok_def by (simp add: surplus_def)
  next
    case False
    have b: "take ?n (drop ?off ?b) = bytes" "?off + ?n \<le> length ?b"
      using assms(4) False take_drop_le [of ?n ?off ?b bytes] by (simp_all add: rest)
    note m = memmove_gather [OF le b(2) fits]
    show ?thesis
    proof (cases "?off = ?t")
      case True
      then have "take (?t + ?n) ?b = got @ bytes" using got b by (simp add: take_add)
      moreover have "surplus u ?n x = x\<lparr>it_transferred := ?t + ?n\<rparr>"
        using True False assms(2) t by (simp add: surplus_def)
      ultimately show ?thesis using later le' t unfolding data_ok_def by simp
    next
      case gap: False
      have "?t + ?n \<le> length ?b" using le b by simp
      then have s: "surplus u ?n x = x\<lparr>x_buffer := memmove ?b ?t ?off ?n, it_transferred := ?t + ?n\<rparr>"
        using gap False assms(2) t b by (simp add: surplus_def Let_def)
      have "take (?t + ?n) (memmove ?b ?t ?off ?n) = got @ bytes" using m(3) got b by simp
      then show ?thesis using m(1) m(4) later le' t unfolding data_ok_def s by simp
    qed
  qed
qed

text \<open>While there is no gap, the data is where it belongs.\<close>

lemma data_ok_in_place:
  assumes "data_ok len buf i got x" "length got = i * len \<or> bytes = []" "length bytes \<le> len"
    "take (length bytes) (drop (i * len) buf) = bytes"
  shows "data_ok len buf (i + 1) (got @ bytes) (x\<lparr>it_transferred := it_transferred x + length bytes\<rparr>)"
proof -
  have "data_ok len buf (i + 1) (got @ bytes) (surplus \<lparr>u_type = URB_BULK, u_endpoint = 0, u_flags = {}, u_offset = i * len,
      u_length = 0, u_stream_id = 0, u_packets = []\<rparr> (length bytes) x)"
    using assms by (intro data_ok_surplus) simp_all
  moreover have "it_transferred x = length got" using assms(1) by (simp add: data_ok_def)
  ultimately show ?thesis using assms(2) by (cases "bytes = []") (simp add: surplus_def data_ok_def, simp add: surplus_def)
qed

lemma data_ok_cong:
  "data_ok len buf i got x \<Longrightarrow> x_ub y = x_ub x \<Longrightarrow> x_buffer y = x_buffer x \<Longrightarrow> it_transferred y = it_transferred x \<Longrightarrow>
   data_ok len buf i got y"
  by (simp add: data_ok_def)

section \<open>Steps\<close>

lemma completed_simps [simp]:
  "completed x = (x\<lparr>tp_urbs := None\<rparr>, [], Some (if tp_reap_action x = CANCELLED then Cancellation else Completion (tp_reap_status x)))"
  by (simp add: completed_def)

text \<open>Ending a transfer with URBs outstanding: it waits for them, or is complete when there are none.\<close>

lemma cancel_remaining_cases:
  assumes "cancel_remaining k i x = (y, reqs, result)"
  shows "(if tp_num_retired x = tp_num_urbs x then tp_urbs y = None \<and> result \<noteq> None
          else tp_urbs y = tp_urbs x \<and> result = None) \<and>
         tp_num_urbs y = tp_num_urbs x \<and> tp_num_retired y = tp_num_retired x \<and> tp_reap_action y = tp_reap_action x \<and>
         x_ub y = x_ub x \<and> x_buffer y = x_buffer x \<and> it_transferred y = it_transferred x"
  using assms by (auto simp: cancel_remaining_def Let_def split: if_splits)

lemma data_ok_later:
  assumes "data_ok len buf i got x" "i \<le> j"
  shows "data_ok len buf j got x"
proof -
  have le: "i * len \<le> j * len" using assms(2) by simp
  have "drop (j * len) ys = drop (j * len - i * len) (drop (i * len) ys)" for ys :: "u8 list" using le by simp
  then have "drop (j * len) (x_buffer x) = drop (j * len) buf" using assms(1) unfolding data_ok_def by metis
  then show ?thesis using assms(1) le unfolding data_ok_def by (meson le_trans)
qed

text \<open>A URB that comes back while its transfer is being ended.\<close>

lemma abnormal_step:
  assumes "counted urbs m c x" "c < m" "m \<le> length urbs" "tp_reap_action x \<noteq> NORMAL" "data_ok len buf j got x"
    "bytes \<noteq> [] \<longrightarrow> j \<le> i" "u_offset (urbs ! i) = i * len" "length bytes \<le> len"
    "take (length bytes) (drop (i * len) buf) = bytes" "handle_bulk_completion k x i status (length bytes) = (y, reqs, result)"
  shows "counted urbs m (c + 1) y" "data_ok len buf (if bytes = [] then j else i + 1) (got @ bytes) y"
    "tp_reap_action y \<noteq> NORMAL" "result \<noteq> None \<longleftrightarrow> c + 1 = m"
proof -
  let ?x = "x\<lparr>tp_num_retired := tp_num_retired x + 1\<rparr>"
  let ?s = "surplus (urbs ! i) (length bytes) ?x"
  have x: "data_ok len buf j got ?x" using assms(5) by (rule data_ok_cong) simp_all
  have d: "data_ok len buf (if bytes = [] then j else i + 1) (got @ bytes) ?s"
  proof (cases "bytes = []")
    case False
    then show ?thesis using data_ok_surplus [OF data_ok_later [OF x] assms(7-9)] assms(6) by simp
  qed (use x in \<open>simp add: surplus_def\<close>)
  have u: "tp_urbs x = Some urbs" "tp_num_urbs x = length urbs" "tp_num_retired x + m = length urbs + c"
    using assms(1,2) by (auto simp: counted_def)
  have last: "tp_num_retired ?s = tp_num_urbs ?s \<longleftrightarrow> c + 1 = m" using u assms(2) by auto
  have h: "(y, reqs, result) = (if c + 1 = m then
      completed (if tp_reap_action ?s \<noteq> COMPLETED_EARLY then set_reap_status TRANSFER_ERROR ?s else ?s) else (?s, [], None))"
    using assms(4,10) u last by (simp add: handle_bulk_completion_def Let_def split: if_splits)
  show "tp_reap_action y \<noteq> NORMAL" "result \<noteq> None \<longleftrightarrow> c + 1 = m" using h assms(4) by (auto split: if_splits)
  show "data_ok len buf (if bytes = [] then j else i + 1) (got @ bytes) y"
    using h by (intro data_ok_cong [OF d]) (auto split: if_splits)
  show "counted urbs m (c + 1) y" using h u assms(2,4) by (auto simp: counted_def split: if_splits)
qed

text \<open>A URB that comes back while its transfer goes on normally.\<close>

lemma normal_completion:
  assumes "counted urbs m c x" "c < m" "tp_reap_action x = NORMAL"
    "x' = x\<lparr>tp_num_retired := tp_num_retired x + 1, it_transferred := it_transferred x + n\<rparr>"
  shows "handle_bulk_completion k x i status n = (case bulk_verdict status of
      V_ok \<Rightarrow> if i = length urbs - 1 then completed x'
        else if n < u_length (urbs ! i) then cancel_remaining k i (x'\<lparr>tp_reap_action := COMPLETED_EARLY\<rparr>) else (x', [], None)
    | V_no_device \<Rightarrow> cancel_remaining k i (x'\<lparr>tp_reap_status := TRANSFER_NO_DEVICE\<rparr>)
    | V_stall \<Rightarrow> cancel_remaining k i (set_reap_status TRANSFER_STALL x')
    | V_overflow \<Rightarrow> completed (set_reap_status TRANSFER_OVERFLOW x')
    | V_error \<Rightarrow> cancel_remaining k i (x'\<lparr>tp_reap_action := ERROR\<rparr>))"
proof -
  have "tp_urbs x = Some urbs" "tp_num_urbs x = length urbs" using assms(1,2) by (auto simp: counted_def)
  then show ?thesis using assms(3) unfolding assms(4)
    by (cases "bulk_verdict status") (simp_all add: handle_bulk_completion_def Let_def)
qed

lemma normal_step:
  assumes "counted urbs m c x" "c < m" "tp_reap_action x = NORMAL"
    and "bulk_verdict status = V_overflow \<or> bulk_verdict status = V_ok \<and> i + 1 = length urbs \<longrightarrow> c + 1 = m"
    and "bulk_verdict status = V_ok \<and> c + 1 = m \<longrightarrow> i + 1 = length urbs \<or> n < u_length (urbs ! i)"
    and "handle_bulk_completion k x i status n = (y, reqs, result)"
  shows "counted urbs m (c + 1) y" "result \<noteq> None \<longleftrightarrow> c + 1 = m"
    "x_ub y = x_ub x \<and> x_buffer y = x_buffer x \<and> it_transferred y = it_transferred x + n"
    "tp_urbs y \<noteq> None \<and> tp_reap_action y = NORMAL \<longrightarrow> dead status \<or> bulk_verdict status = V_ok \<and> u_length (urbs ! i) \<le> n"
proof -
  define x' where "x' = x\<lparr>tp_num_retired := tp_num_retired x + 1, it_transferred := it_transferred x + n\<rparr>"
  note h = normal_completion [OF assms(1-3) x'_def, of k i status, unfolded assms(6)]
  have u: "tp_urbs x' = Some urbs" "tp_num_urbs x' = length urbs" "tp_num_retired x' = c + 1" "m = length urbs"
      "tp_reap_action x' = NORMAL"
    using assms(1-3) by (auto simp: counted_def x'_def)
  have last: "i = length urbs - 1 \<longleftrightarrow> i + 1 = length urbs" using u(4) assms(2) by auto
  have "x_ub y = x_ub x' \<and> x_buffer y = x_buffer x' \<and> it_transferred y = it_transferred x'"
    using h by (auto split: verdict.splits if_splits dest!: cancel_remaining_cases [OF sym])
  then show "x_ub y = x_ub x \<and> x_buffer y = x_buffer x \<and> it_transferred y = it_transferred x + n" by (simp add: x'_def)
  show "tp_urbs y \<noteq> None \<and> tp_reap_action y = NORMAL \<longrightarrow> dead status \<or> bulk_verdict status = V_ok \<and> u_length (urbs ! i) \<le> n"
    using h by (auto simp: dead_def split: verdict.splits if_splits dest!: cancel_remaining_cases [OF sym])
  show "counted urbs m (c + 1) y" "result \<noteq> None \<longleftrightarrow> c + 1 = m"
    using h u assms(2,4,5) unfolding last counted_def
    by (auto split: verdict.splits if_splits dest!: cancel_remaining_cases [OF sym])
qed

section \<open>Runs gather the data\<close>

definition blocks :: "urb list \<Rightarrow> nat \<Rightarrow> bool" where
  "blocks urbs len \<longleftrightarrow> 0 < len \<and> (\<forall>j < length urbs. u_offset (urbs ! j) = j * len \<and> u_length (urbs ! j) \<le> len \<and>
     (j + 1 < length urbs \<longrightarrow> u_length (urbs ! j) = len))"

lemma blocks_bulk_urbs: "blocks (bulk_urbs caps x) (block caps x)"
proof -
  let ?len = "block caps x" and ?n = "length (bulk_urbs caps x)"
  have n: "(?n - 1) * ?len \<le> x_length x"
    using bulk_num_urbs_bounds(2) [OF block_pos [of caps x] refl, of x] by (simp add: length_bulk_urbs)
  have "u_length (bulk_urbs caps x ! j) = ?len" if "j + 1 < ?n" for j
  proof -
    have "(j + 1) * ?len \<le> (?n - 1) * ?len" using that by (intro mult_le_mono1) simp
    then show ?thesis using n that by (simp add: bulk_urb_length algebra_simps)
  qed
  then show ?thesis by (simp add: blocks_def block_pos bulk_urb_offset bulk_urb_length)
qed

lemma reaped_abnormal:
  assumes "gathered urbs len m buf v got (Reaped k i status bytes # es) x" "tp_reap_action x \<noteq> NORMAL"
    "kernel_ok urbs buf m v (Reaped k i status bytes # es)" "c = card (bv_back v)" "c < m" "m \<le> length urbs"
    "u_offset (urbs ! i) = i * len" "length bytes \<le> len" "take (length bytes) (drop (i * len) buf) = bytes"
    "handle_bulk_completion k x i status (length bytes) = (y, reqs, result)"
    "v' = see urbs (Reaped k i status bytes) v" "card (bv_back v') = c + 1"
  shows "gathered urbs len m buf v' (got @ bytes) es y \<and> (result \<noteq> None \<longleftrightarrow> c + 1 = m)"
proof -
  have g: "counted urbs m c x" "data_ok len buf (bv_next v) got x" "finite (bv_back v)" "bv_back v \<subseteq> {..<m}"
    and ok: "bytes \<noteq> [] \<longrightarrow> bv_next v \<le> i" "i < m"
    using assms(1,3,4) by (auto simp: gathered_def)
  show ?thesis
    using abnormal_step [OF g(1) assms(5,6,2) g(2) ok(1) assms(7-10)] g(3,4) ok(2) assms(11,12) by (simp add: gathered_def)
qed

lemma reaped_normal:
  assumes "gathered urbs len m buf v got (Reaped k i status bytes # es) x" "tp_reap_action x = NORMAL" "blocks urbs len"
    "kernel_ok urbs buf m v (Reaped k i status bytes # es)" "ends_last urbs m v (Reaped k i status bytes # es)"
    "c = card (bv_back v)" "c < m" "length bytes \<le> len" "take (length bytes) (drop (i * len) buf) = bytes"
    "handle_bulk_completion k x i status (length bytes) = (y, reqs, result)"
    "v' = see urbs (Reaped k i status bytes) v" "card (bv_back v') = c + 1"
  shows "gathered urbs len m buf v' (got @ bytes) es y \<and> (result \<noteq> None \<longleftrightarrow> c + 1 = m)"
proof -
  have g: "counted urbs m c x" "data_ok len buf (bv_next v) got x" "finite (bv_back v)" "bv_back v \<subseteq> {..<m}"
    and n: "bv_normal v" "in_place len v got \<or> concat (bytes # reaped_data es) = []"
    using assms(1,2,6,7) by (auto simp: gathered_def counted_def)
  have ok: "bv_ordered v \<longrightarrow> bv_back v = set [0..<i]" "i < m" "dead status \<longrightarrow> concat (reaped_data es) = []"
    "bulk_verdict status = V_overflow \<or> bulk_verdict status = V_ok \<and> i + 1 = length urbs \<longrightarrow> c + 1 = m"
    using assms(4-6) n(1) by (auto simp: numeral_eq_Suc)
  have m: "m = length urbs" using g(1) assms(2,7) by (auto simp: counted_def)
  have len: "0 < len" "i + 1 < length urbs \<longrightarrow> u_length (urbs ! i) = len" using assms(3) ok(2) m by (auto simp: blocks_def)
  have here: "c = i \<and> bv_next v = i \<and> length got = i * len" if "in_place len v got"
  proof -
    have b: "bv_back v = {0..<i}" "bv_back v = {0..<bv_next v}" using that ok(1) by (auto simp: in_place_def)
    then have "card {0..<i} = card {0..<bv_next v}" by metis
    then show ?thesis using that b assms(6) by (simp add: in_place_def)
  qed
  have "bulk_verdict status = V_ok \<and> c + 1 = m \<longrightarrow> i + 1 = length urbs \<or> length bytes < u_length (urbs ! i)"
    using here n(2) len m ok(2) by auto
  note step = normal_step [OF g(1) assms(7,2) ok(4) this assms(10)]
  have d: "data_ok len buf (bv_next v') (got @ bytes) y"
  proof (cases "bytes = []")
    case False
    then have "data_ok len buf i got x" "length got = i * len \<or> bytes = []" using here n(2) g(2) by auto
    from data_ok_in_place [OF this assms(8,9)] have "data_ok len buf (i + 1) (got @ bytes) y"
      by (rule data_ok_cong) (use step(3) in simp_all)
    then show ?thesis using False assms(11) by simp
  next
    case True
    from g(2) have "data_ok len buf (bv_next v) got y" by (rule data_ok_cong) (use True step(3) in simp_all)
    then show ?thesis using True assms(11) by simp
  qed
  have g': "bv_normal v' \<and> (in_place len v' (got @ bytes) \<or> concat (reaped_data es) = [])" if "tp_urbs y \<noteq> None" "tp_reap_action y = NORMAL"
  proof -
    have y: "dead status \<or> in_full urbs i status bytes" using step(4) that by (auto simp: in_full_def)
    have more: "c + 1 < length urbs" using step(1) that(1) m by (auto simp: counted_def split: if_splits)
    have "in_place len v' (got @ bytes)" if "in_full urbs i status bytes" "in_place len v got"
    proof -
      have "length bytes = len" using that here more len assms(8) by (auto simp: in_full_def)
      then have "bytes \<noteq> []" using len(1) by auto
      then have "bv_back v' = insert i (set [0..<i])" "bv_ordered v'" "bv_next v' = i + 1"
        using that ok(1) assms(11) by (simp_all add: in_place_def)
      then show ?thesis using here [OF that(2)] \<open>length bytes = len\<close> by (simp add: in_place_def atLeast0_lessThan_Suc)
    qed
    moreover have "bv_normal v'" using n(1) y assms(11) by simp
    moreover have "concat (bytes # reaped_data es) = [] \<Longrightarrow> concat (reaped_data es) = []" by simp
    ultimately show ?thesis using y n(2) ok(3) by blast
  qed
  have "finite (bv_back v') \<and> bv_back v' \<subseteq> {..<m}" using g(3,4) ok(2) assms(11) by simp
  then show ?thesis using step(1,2) d g' unfolding gathered_def assms(12) by blast
qed

lemma reaped_step:
  assumes "gathered urbs len m buf v got (Reaped k i status bytes # es) x" "blocks urbs len" "m \<le> length urbs"
    "kernel_ok urbs buf m v (Reaped k i status bytes # es)" "ends_last urbs m v (Reaped k i status bytes # es)"
    "handle_bulk_completion k x i status (length bytes) = (y, reqs, result)"
    "v' = see urbs (Reaped k i status bytes) v"
  shows "card (bv_back v') = card (bv_back v) + 1 \<and> card (bv_back v') \<le> m" "gathered urbs len m buf v' (got @ bytes) es y"
    "result \<noteq> None \<longleftrightarrow> card (bv_back v') = m"
proof -
  have b: "finite (bv_back v)" "insert i (bv_back v) \<subseteq> {..<m}" "i \<notin> bv_back v" using assms(1,4) by (auto simp: gathered_def)
  then have c: "card (bv_back v') = card (bv_back v) + 1" and le: "card (bv_back v') \<le> m"
    using card_mono [OF _ b(2)] assms(7) by auto
  have i: "i < length urbs" "length bytes \<le> u_length (urbs ! i)"
      "take (length bytes) (drop (u_offset (urbs ! i)) buf) = bytes"
    using assms(3,4) by simp_all
  then have u: "u_offset (urbs ! i) = i * len" "length bytes \<le> len" "take (length bytes) (drop (i * len) buf) = bytes"
    using assms(2) unfolding blocks_def by (metis le_trans)+
  have "card (bv_back v) < m" using c le by simp
  then show "gathered urbs len m buf v' (got @ bytes) es y" "result \<noteq> None \<longleftrightarrow> card (bv_back v') = m"
    using reaped_abnormal [OF assms(1) _ assms(4) refl _ assms(3) u assms(6,7) c]
      reaped_normal [OF assms(1) _ assms(2,4,5) refl _ u(2,3) assms(6,7) c] c
    by (cases "tp_reap_action x = NORMAL"; simp)+
  show "card (bv_back v') = card (bv_back v) + 1 \<and> card (bv_back v') \<le> m" using c le by simp
qed

lemma cancelled_step:
  assumes "gathered urbs len m buf v got (Cancelled k # es) x" "card (bv_back v) \<le> m"
  shows "gathered urbs len m buf (see urbs (Cancelled k) v) got es (snd (snd (op_cancel_transfer k x)))"
  using assms
  by (auto simp: op_cancel_transfer_def gathered_def counted_def data_ok_def in_place_def split: prod.split if_splits)

lemma bulk_run_gathered:
  assumes "blocks urbs len" "m \<le> length urbs"
  shows "gathered urbs len m buf v got es x \<Longrightarrow> kernel_ok urbs buf m v es \<Longrightarrow> ends_last urbs m v es \<Longrightarrow>
    card (bv_back v) \<le> m \<Longrightarrow> bulk_run es x = (y, results) \<Longrightarrow>
    (\<exists>v'. gathered urbs len m buf v' (got @ concat (reaped_data es)) [] y \<and>
       card (bv_back v') = card (bv_back v) + length (reaped_data es) \<and> card (bv_back v') \<le> m \<and>
       length results = (if card (bv_back v) < m \<and> card (bv_back v') = m then 1 else 0))"
proof (induction es arbitrary: v x got results)
  case Nil
  then show ?case by (intro exI [of _ v]) auto
next
  case (Cons e es)
  show ?case
  proof (cases e)
    case (Reaped k i status bytes)
    obtain z reqs result where h: "handle_bulk_completion k x i status (length bytes) = (z, reqs, result)"
      by (metis prod_cases3)
    obtain outs where r: "bulk_run es z = (y, outs)" "results = (case result of None \<Rightarrow> [] | Some o1 \<Rightarrow> [o1]) @ outs"
      using Cons.prems(5) h by (auto simp: Reaped split: prod.splits)
    define w where "w = see urbs (Reaped k i status bytes) v"
    note step = reaped_step [OF Cons.prems(1) [unfolded Reaped] assms Cons.prems(2,3) [unfolded Reaped] h w_def]
    have "kernel_ok urbs buf m w es" "ends_last urbs m w es" using Cons.prems(2,3) by (simp_all add: Reaped w_def del: see.simps)
    then obtain v' where v': "gathered urbs len m buf v' ((got @ bytes) @ concat (reaped_data es)) [] y"
        "card (bv_back v') = card (bv_back w) + length (reaped_data es)" "card (bv_back v') \<le> m"
        "length outs = (if card (bv_back w) < m \<and> card (bv_back v') = m then 1 else 0)"
      using Cons.IH [OF step(2) _ _ _ r(1)] step(1) by blast
    then show ?thesis using step(1,3) r(2) by (intro exI [of _ v']) (auto simp: Reaped split: option.splits)
  next
    case (Cancelled k)
    let ?x = "snd (snd (op_cancel_transfer k x))" and ?w = "see urbs (Cancelled k) v"
    have "gathered urbs len m buf ?w got es ?x"
      using cancelled_step Cons.prems(1,4) by (simp add: Cancelled del: see.simps)
    moreover have "bv_back ?w = bv_back v" by simp
    ultimately show ?thesis using Cons.IH [of ?w got ?x results] Cons.prems(2-5) by (simp add: Cancelled del: see.simps)
  qed
qed

lemma submit_loop_accepted:
  "snd (submit_loop k i us) =
     (let n = length (takeWhile (\<lambda>j. k_submit k j = 0) [i..<i + length us]) in
      if n = length us then None else Some (i + n, k_submit k (i + n)))"
proof (induction us arbitrary: i)
  case (Cons u us)
  have "[i..<i + length (u # us)] = i # [i + 1..<i + 1 + length us]"
    by (subst upt_conv_Cons) simp_all
  then show ?case using Cons.IH [of "i + 1"] by (auto simp: Let_def split: prod.split)
qed simp

lemma accepted_le: "accepted k n \<le> n"
  using length_takeWhile_le [of "\<lambda>i. k_submit k i = 0" "[0..<n]"] by (simp add: accepted_def)

lemma submit_bulk_accepted:
  assumes "submit_bulk_transfer k x = (0, reqs, y)" "urbs = bulk_urbs (k_caps k) x"
  shows "0 < accepted k (length urbs) \<and> counted urbs (accepted k (length urbs)) 0 y \<and>
    x_buffer y = x_buffer x \<and> it_transferred y = it_transferred x \<and> x_ub y = x_ub x"
proof -
  let ?m = "accepted k (length urbs)"
  have n: "0 < length urbs"
    using bulk_num_urbs_bounds(1) [OF block_pos refl] assms(2) by (simp add: length_bulk_urbs)
  obtain r failed where l: "submit_loop k 0 urbs = (r, failed)" by fastforce
  have failed: "failed = (if ?m = length urbs then None else Some (?m, k_submit k ?m))"
    using submit_loop_accepted [of k 0 urbs] l by (simp add: accepted_def Let_def)
  show ?thesis
  proof (cases "?m = length urbs")
    case True
    then show ?thesis using assms n l failed
      by (auto simp: submit_bulk_transfer_def counted_def Let_def usb_errors split: if_splits)
  next
    case False
    then have "?m < length urbs" using accepted_le [of k "length urbs"] by simp
    then show ?thesis using assms n l failed False
      by (auto simp: submit_bulk_transfer_def counted_def Let_def usb_errors split: if_splits)
  qed
qed

text \<open>
  C12. A bulk or interrupt transfer that was submitted, with the kernel refusing any of its URBs, cancelled at any time, and
  with any status for its URBs, which come back in order until they are discarded, and in any order then: unless a URB that ends a
  normal transfer (its last one, or one with an overflow) comes back before others, the transfer ends exactly once, when every URB
  that the kernel accepted is back, and then its URBs are freed; and the bytes reported as transferred are the data of all URBs,
  without gaps, at the start of the buffer. (A URB that ends a normal transfer can come back before others only after a stall, a
  device that went away, or with an overflow: \<open>ends_last_unless\<close>. After a stall it does, and the code then reads freed memory:
  \<open>stall_reverse_order\<close>.)\<close>

theorem usb_bulk_gathers:
  assumes "submit_bulk_transfer k x = (0, reqs, x')" "urbs = bulk_urbs (k_caps k) x" "it_transferred x = 0" "\<not> x_ub x"
    and "m = accepted k (length urbs)" "kernel_ok urbs (x_buffer x) m (seen_nothing urbs m) es"
    and "ends_last urbs m (seen_nothing urbs m) es" "bulk_run es x' = (y, results)"
  shows "length results = (if length (reaped_data es) = m then 1 else 0) \<and> (tp_urbs y = None \<longleftrightarrow> length (reaped_data es) = m) \<and>
    \<not> x_ub y \<and> take (it_transferred y) (x_buffer y) = concat (reaped_data es)"
proof -
  let ?len = "block (k_caps k) x" and ?v = "seen_nothing urbs m"
  have m: "0 < m" "counted urbs m 0 x'" "x_buffer x' = x_buffer x" "it_transferred x' = 0" "\<not> x_ub x'" "m \<le> length urbs"
    using submit_bulk_accepted [OF assms(1,2)] assms(3-5) accepted_le by auto
  have b: "blocks urbs ?len" using blocks_bulk_urbs assms(2) by simp
  have g: "gathered urbs ?len m (x_buffer x) ?v [] es x'"
    using m by (auto simp: gathered_def data_ok_def seen_nothing_def in_place_def counted_def)
  obtain v' where "gathered urbs ?len m (x_buffer x) v' (concat (reaped_data es)) [] y" "card (bv_back v') = length (reaped_data es)"
      "card (bv_back v') \<le> m" "length results = (if card (bv_back v') = m then 1 else 0)"
    using bulk_run_gathered [OF b m(6) g assms(6,7) _ assms(8)] m(1) by (auto simp: seen_nothing_def)
  then show ?thesis by (auto simp: gathered_def counted_def data_ok_def split: if_splits)
qed

text \<open>Without a stall, a device that goes away, or an overflow, the order of the kernel is all that the code relies on.\<close>

definition harmless :: "bulk_event \<Rightarrow> bool" where
  "harmless e \<longleftrightarrow> (case e of Reaped k i status bytes \<Rightarrow> \<not> dead status \<and> bulk_verdict status \<noteq> V_overflow | Cancelled k \<Rightarrow> True)"

lemma ends_last_unless:
  "list_all harmless es \<Longrightarrow> kernel_ok urbs buf m v es \<Longrightarrow> bv_normal v \<longrightarrow> bv_ordered v \<and> m = length urbs \<Longrightarrow> ends_last urbs m v es"
proof (induction es arbitrary: v)
  case (Cons e es)
  then show ?case by (cases e) (auto simp: harmless_def simp del: see.simps, auto)
qed simp

lemma submit_bulk_ok:
  assumes "\<And>i. k_submit k i = 0" "ADD_ZERO_PACKET \<notin> x_flags x"
  shows "fst (submit_bulk_transfer k x) = 0"
proof -
  have "snd (submit_loop k i us) = None" for i us
    using assms(1) by (induction us arbitrary: i) (auto split: prod.split, metis snd_conv)
  then show ?thesis using assms(2)
    by (cases "submit_loop k 0 (bulk_urbs (k_caps k) x)")
      (metis (no_types, lifting) fst_conv option.case(1) prod.case snd_conv submit_bulk_transfer_def)
qed

text \<open>
  Three URBs of 16 KiB, the first one short: the others are discarded and come back in reverse order; the data of the second one, which
  came meanwhile, is moved behind that of the first.
\<close>

definition long_read :: xfer where
  "long_read = libusb_alloc_transfer 0\<lparr>x_type := TYPE_BULK, x_endpoint := 0x81, x_length := 40000,
     x_buffer := [1, 2] @ replicate 16382 0 @ [3] @ replicate 23615 0\<rparr>"

definition patient :: kernel where
  "patient = \<lparr>k_caps = {}, k_submit = (\<lambda>i. 0), k_discard = (\<lambda>i. 0)\<rparr>"

definition out_of_order :: "bulk_event list" where
  "out_of_order = [Reaped patient 0 0 [1, 2], Reaped patient 2 (- ENOENT) [], Reaped patient 1 (- ENOENT) [3]]"

theorem usb_bulk_gathers_witness:
  "let (r, reqs, x) = submit_bulk_transfer patient long_read; (y, results) = bulk_run out_of_order x in
   length results = 1 \<and> take (it_transferred y) (x_buffer y) = [1, 2, 3]"
proof -
  define urbs where "urbs = bulk_urbs (k_caps patient) long_read"
  obtain r reqs x where s: "submit_bulk_transfer patient long_read = (r, reqs, x)" by (metis prod_cases3)
  obtain y results where run: "bulk_run out_of_order x = (y, results)" by fastforce
  have u: "length urbs = 3" "u_offset (urbs ! 0) = 0" "u_length (urbs ! 0) = 16384" "u_offset (urbs ! 1) = 16384"
      "u_length (urbs ! 1) = 16384" "u_offset (urbs ! 2) = 32768" "u_length (urbs ! 2) = 7232"
    by (simp_all add: urbs_def bulk_urbs_def bulk_urb_def bulk_num_urbs_def bulk_split_def MAX_BULK_BUFFER_LENGTH_def
      patient_def long_read_def Let_def upt_rec)
  have m: "3 = accepted patient (length urbs)" by (simp add: accepted_def patient_def u takeWhile_eq_all_conv [THEN iffD2])
  have ok: "r = 0" using submit_bulk_ok [of patient long_read] s by (simp add: patient_def long_read_def libusb_alloc_transfer_def)
  have "kernel_ok urbs (x_buffer long_read) 3 (seen_nothing urbs 3) out_of_order"
    by (simp add: u u [simplified] long_read_def out_of_order_def bulk_verdict_def errnos dead_def in_full_def seen_nothing_def)
  moreover have "ends_last urbs 3 (seen_nothing urbs 3) out_of_order"
    by (simp add: u u [simplified] out_of_order_def bulk_verdict_def errnos dead_def in_full_def seen_nothing_def)
  moreover have "it_transferred long_read = 0" "\<not> x_ub long_read" by (simp_all add: long_read_def libusb_alloc_transfer_def)
  ultimately have "length results = (if length (reaped_data out_of_order) = 3 then 1 else 0) \<and>
      take (it_transferred y) (x_buffer y) = concat (reaped_data out_of_order)"
    using usb_bulk_gathers [OF s [unfolded ok] urbs_def _ _ m _ _ run] by blast
  then show ?thesis using s run by (simp add: out_of_order_def)
qed

section \<open>Out of order\<close>

text \<open>
  \<open>discard_urbs\<close> cancels the last URB first, so the URBs of a transfer that stalled come back in reverse order. But a stall does
  not change \<open>reap_action\<close>, and the last URB of a normal transfer ends it: its URBs are freed while others are outstanding, and
  the next one to come back is read after it was freed.
\<close>

lemma stall_reverse_order:
  assumes "tp_urbs x = Some urbs" "tp_num_urbs x = 3" "tp_num_retired x = 0" "tp_reap_action x = NORMAL"
    "handle_bulk_completion k x 0 (- EPIPE) 0 = (y, reqs, result)"
    "handle_bulk_completion k y 2 (- ENOENT) 0 = (z, reqs', result')"
  shows "reqs = [DISCARDURB 2, DISCARDURB 1] \<and> result = None \<and> result' \<noteq> None \<and> tp_urbs z = None \<and>
    x_ub (fst (handle_bulk_completion k z 1 (- ENOENT) 0))"
  using assms
  by (auto simp: handle_bulk_completion_def bulk_verdict_def errnos cancel_remaining_def set_reap_status_def discard_urbs_def
    upt_rec Let_def split: if_splits)

text \<open>An overflow ends a transfer at once, in the belief that it can only occur in its last URB.\<close>

lemma overflow_ends:
  assumes "tp_urbs x = Some urbs" "tp_reap_action x = NORMAL" "handle_bulk_completion k x i (- EOVERFLOW) n = (y, reqs, result)"
  shows "result \<noteq> None \<and> tp_urbs y = None \<and> x_ub (fst (handle_bulk_completion k y (i + 1) status n'))"
  using assms by (auto simp: handle_bulk_completion_def bulk_verdict_def errnos Let_def)

section \<open>Isochronous transfers\<close>

text \<open>
  The loop that counts the URBs and the one that fills them agree: the URBs hold all packets in order, and none is
  longer than the kernel's limit.
\<close>

lemma iso_swallow_split:
  "iso_swallow ps space = (inside, rest) \<Longrightarrow> inside @ rest = ps \<and> sum_list inside \<le> space"
proof (induction ps space arbitrary: inside rest rule: iso_swallow.induct)
  case (2 p ps space)
  then show ?case by (cases "iso_swallow ps (space - p)") (auto split: if_splits)
qed simp

lemma iso_count_swallow:
  "iso_count ps c len = Some n \<Longrightarrow> len \<le> MAX_ISO_BUFFER_LENGTH \<Longrightarrow> iso_swallow ps (MAX_ISO_BUFFER_LENGTH - len) = (inside, rest) \<Longrightarrow>
   c \<le> n \<and> inside @ concat (map u_packets (iso_urbs (n - c) x offset rest)) = ps"
proof (induction ps c len arbitrary: inside rest offset rule: iso_count.induct)
  case (2 p ps c len)
  show ?case
  proof (cases "p > MAX_ISO_BUFFER_LENGTH - len")
    case True
    then have p: "p \<le> MAX_ISO_BUFFER_LENGTH" "iso_count ps (c + 1) p = Some n" and r: "inside = []" "rest = p # ps"
      using "2.prems" by (auto split: if_splits)
    obtain inner rest' where s: "iso_swallow ps (MAX_ISO_BUFFER_LENGTH - p) = (inner, rest')" by fastforce
    have ih: "c + 1 \<le> n"
        "inner @ concat (map u_packets (iso_urbs (n - (c + 1)) x (offset + sum_list (p # inner)) rest')) = ps"
      using "2.IH"(1) [OF True _ p(2,1) s] p by auto
    then have "n - c = Suc (n - (c + 1))" by simp
    then show ?thesis using ih p s by (simp add: r)
  next
    case False
    obtain inner where s: "iso_swallow ps (MAX_ISO_BUFFER_LENGTH - (len + p)) = (inner, rest)" "inside = p # inner"
      using "2.prems"(3) False by (auto simp: diff_diff_left split: prod.splits)
    have "c \<le> n \<and> inner @ concat (map u_packets (iso_urbs (n - c) x offset rest)) = ps"
      using "2.IH"(2) [OF False _ _ s(1)] "2.prems"(1,2) False by auto
    then show ?thesis by (simp add: s(2))
  qed
qed simp

lemma iso_urbs_partition:
  assumes "iso_count packets 1 0 = Some n"
  shows "concat (map u_packets (iso_urbs n x 0 packets)) = packets"
proof -
  obtain inside rest where s: "iso_swallow packets MAX_ISO_BUFFER_LENGTH = (inside, rest)" by fastforce
  have "1 \<le> n \<and> inside @ concat (map u_packets (iso_urbs (n - 1) x (sum_list inside) rest)) = packets"
    using iso_count_swallow [OF assms] s by simp
  then show ?thesis using s by (cases n) auto
qed

lemma iso_urbs_bounded: "\<forall>u \<in> set (iso_urbs n x offset packets). sum_list (u_packets u) \<le> MAX_ISO_BUFFER_LENGTH"
  by (induction n x offset packets rule: iso_urbs.induct) (auto dest: iso_swallow_split [OF sym] split: prod.splits)

end
