(* ===== verification/UsbTransfer.thy ===== *)
theory UsbTransfer
  imports UsbReap
begin

text \<open>
  Asynchronous transfers and their timeouts (\<open>libusb/io.c\<close>) over the Linux backend, as configured for Android, where
  \<open>USBI_TIMERFD_AVAILABLE\<close> is not defined. A context has the transfers by number, the list of flying transfers, the number of
  references to each device, logs of the successful submissions, of the results that were reported, of the transfers
  that were freed and of the requests to the kernel, and the transfers whose \<open>completed\<close> variable is set, for those a caller waits for
  (\<open>libusb/sync.c\<close>). What a callback does is the parameter \<open>cb\<close>.
\<close>

record usb_ctx =
  transfer :: "nat \<Rightarrow> xfer"
  flying :: "nat list"
  handle_dev :: "nat \<Rightarrow> nat"
  refcnt :: "nat \<Rightarrow> int"
  submitted :: "nat list"
  reported :: "(nat \<times> xfer_status \<times> nat) list"
  freed :: "nat list"
  requests :: "(nat \<times> request) list"
  sync_completed :: "nat set"

type_synonym timeval = "nat \<times> nat"

definition upd :: "nat \<Rightarrow> (xfer \<Rightarrow> xfer) \<Rightarrow> usb_ctx \<Rightarrow> usb_ctx" where
  "upd i f ctx = ctx\<lparr>transfer := (transfer ctx)(i := f (transfer ctx i))\<rparr>"

abbreviation flags_of :: "usb_ctx \<Rightarrow> nat \<Rightarrow> flight_flag set" where
  "flags_of ctx i \<equiv> it_flags (transfer ctx i)"

definition asked :: "nat \<Rightarrow> request list \<Rightarrow> usb_ctx \<Rightarrow> usb_ctx" where
  "asked i reqs ctx = ctx\<lparr>requests := requests ctx @ map (Pair i) reqs\<rparr>"

definition ref_device :: "int \<Rightarrow> nat \<Rightarrow> usb_ctx \<Rightarrow> usb_ctx" where
  "ref_device d i ctx = (let dev = handle_dev ctx (x_dev_handle (transfer ctx i)) in
     ctx\<lparr>refcnt := (refcnt ctx)(dev := refcnt ctx dev + d)\<rparr>)"

section \<open>Times\<close>

definition timerisset :: "timeval \<Rightarrow> bool" where
  "timerisset tv \<longleftrightarrow> fst tv \<noteq> 0 \<or> snd tv \<noteq> 0"

text \<open>The comparison that the code writes out: \<open>a\<close> is later than \<open>b\<close>.\<close>

definition later :: "timeval \<Rightarrow> timeval \<Rightarrow> bool" where
  "later a b \<longleftrightarrow> fst a > fst b \<or> fst a = fst b \<and> snd a > snd b"

text \<open>The loop over \<open>tv_nsec\<close>, and the conversion to microseconds.\<close>

function carry_seconds :: "nat \<times> nat \<Rightarrow> nat \<times> nat" where
  "carry_seconds (tv_sec, tv_nsec) =
     (if tv_nsec \<ge> 1000000000 then carry_seconds (tv_sec + 1, tv_nsec - 1000000000) else (tv_sec, tv_nsec))"
  by pat_completeness auto
termination by (relation "measure snd") auto

definition to_timeval :: "nat \<times> nat \<Rightarrow> timeval" where
  "to_timeval ts = (fst ts, snd ts div 1000)"

text \<open>The clock in seconds and nanoseconds, \<open>None\<close> when it cannot be read.\<close>

definition calculate_timeout :: "(nat \<times> nat) option \<Rightarrow> xfer \<Rightarrow> int \<times> xfer" where
  "calculate_timeout clock x =
     (let timeout = x_timeout x in
      if timeout = 0 then (0, x)
      else case clock of
        None \<Rightarrow> (-1, x)
      | Some (tv_sec, tv_nsec) \<Rightarrow>
          (0, x\<lparr>it_timeout := to_timeval (carry_seconds (tv_sec + timeout div 1000, tv_nsec + timeout mod 1000 * 1000000))\<rparr>))"

section \<open>Flying transfers\<close>

fun insert_before :: "(nat \<Rightarrow> timeval) \<Rightarrow> nat \<Rightarrow> nat list \<Rightarrow> nat list" where
  "insert_before time i [] = [i]"
| "insert_before time i (cur # l) =
     (if \<not> timerisset (time cur) \<or> later (time cur) (time i) then i # cur # l else cur # insert_before time i l)"

definition add_to_flying_list :: "nat \<Rightarrow> usb_ctx \<Rightarrow> usb_ctx" where
  "add_to_flying_list i ctx =
     (let time = (\<lambda>j. it_timeout (transfer ctx j)) in
      ctx\<lparr>flying := (if flying ctx = [] then [i]
        else if \<not> timerisset (time i) then flying ctx @ [i]
        else insert_before time i (flying ctx))\<rparr>)"

text \<open>Taking a transfer off the list twice follows stale pointers.\<close>

definition remove_from_flying_list :: "nat \<Rightarrow> usb_ctx \<Rightarrow> usb_ctx" where
  "remove_from_flying_list i ctx =
     (if i \<in> set (flying ctx) then ctx\<lparr>flying := remove1 i (flying ctx)\<rparr> else upd i (\<lambda>x. x\<lparr>x_ub := True\<rparr>) ctx)"

section \<open>Submitting and cancelling\<close>

text \<open>\<open>gone\<close>: another thread found the device disconnected while the backend submitted.\<close>

definition libusb_submit_transfer :: "(nat \<times> nat) option \<Rightarrow> kernel \<Rightarrow> bool \<Rightarrow> nat \<Rightarrow> usb_ctx \<Rightarrow> int \<times> usb_ctx" where
  "libusb_submit_transfer clock k gone i ctx =
     (if IN_FLIGHT \<in> flags_of ctx i then (LIBUSB_ERROR_BUSY, ctx)
      else
        let (r, x) = calculate_timeout clock ((transfer ctx i)\<lparr>it_transferred := 0, it_flags := {}\<rparr>) in
        if r < 0 then (LIBUSB_ERROR_OTHER, upd i (\<lambda>_. x) ctx)
        else
          let ctx = upd i (\<lambda>_. x\<lparr>it_flags := insert SUBMITTING (it_flags x)\<rparr>) ctx;
              ctx = ref_device 1 i (add_to_flying_list i ctx);
              (r, reqs, x) = op_submit_transfer k (transfer ctx i);
              flags = (if gone then insert DEVICE_DISAPPEARED (it_flags x) else it_flags x) - {SUBMITTING};
              ctx = asked i reqs (upd i (\<lambda>_. x\<lparr>it_flags := flags\<rparr>) ctx) in
          if r = 0 then
            if DEVICE_DISAPPEARED \<in> flags then
              (LIBUSB_ERROR_NO_DEVICE,
               remove_from_flying_list i (ref_device (-1) i (upd i op_clear_transfer_priv ctx)))
            else
              (0, (if COMPLETED \<notin> flags then upd i (\<lambda>x. x\<lparr>it_flags := insert IN_FLIGHT flags\<rparr>) ctx else ctx)
                 \<lparr>submitted := i # submitted ctx\<rparr>)
          else (r, remove_from_flying_list i (ref_device (-1) i ctx)))"

definition libusb_cancel_transfer :: "kernel \<Rightarrow> nat \<Rightarrow> usb_ctx \<Rightarrow> int \<times> usb_ctx" where
  "libusb_cancel_transfer k i ctx =
     (if IN_FLIGHT \<notin> flags_of ctx i \<or> CANCELLING \<in> flags_of ctx i then (LIBUSB_ERROR_NOT_FOUND, ctx)
      else
        let (r, reqs, x) = op_cancel_transfer k (transfer ctx i);
            flags = (if r = LIBUSB_ERROR_NO_DEVICE then insert DEVICE_DISAPPEARED (it_flags x) else it_flags x) in
        (r, asked i reqs (upd i (\<lambda>_. x\<lparr>it_flags := insert CANCELLING flags\<rparr>) ctx)))"

section \<open>Completion\<close>

definition libusb_free_transfer :: "nat \<Rightarrow> usb_ctx \<Rightarrow> usb_ctx" where
  "libusb_free_transfer i ctx = ctx\<lparr>freed := i # freed ctx\<rparr>"

text \<open>A short transfer is an error where the client says so; of a control transfer the setup packet does not count.\<close>

definition final_status :: "xfer \<Rightarrow> xfer_status \<Rightarrow> xfer_status" where
  "final_status x status =
     (if status = TRANSFER_COMPLETED \<and> SHORT_NOT_OK \<in> x_flags x \<and>
         int (x_length x) - (if x_type x = TYPE_CONTROL then int CONTROL_SETUP_SIZE else 0) \<noteq> int (it_transferred x)
      then TRANSFER_ERROR else status)"

definition usbi_handle_transfer_completion ::
    "(nat \<Rightarrow> usb_ctx \<Rightarrow> usb_ctx) \<Rightarrow> nat \<Rightarrow> xfer_status \<Rightarrow> usb_ctx \<Rightarrow> usb_ctx" where
  "usbi_handle_transfer_completion cb i status ctx =
     (let ctx = remove_from_flying_list i ctx;
          ctx = upd i (\<lambda>x. x\<lparr>it_flags := insert COMPLETED (it_flags x - {IN_FLIGHT})\<rparr>) ctx;
          x = transfer ctx i; status = final_status x status; dev = handle_dev ctx (x_dev_handle x);
          ctx = upd i (\<lambda>x. x\<lparr>x_status := status, x_actual_length := it_transferred x\<rparr>) ctx;
          ctx = cb i (ctx\<lparr>reported := (i, status, it_transferred x) # reported ctx\<rparr>);
          ctx = (if FREE_TRANSFER \<in> x_flags x then libusb_free_transfer i ctx else ctx) in
      ctx\<lparr>refcnt := (refcnt ctx)(dev := refcnt ctx dev - 1)\<rparr>)"

definition usbi_handle_transfer_cancellation :: "(nat \<Rightarrow> usb_ctx \<Rightarrow> usb_ctx) \<Rightarrow> nat \<Rightarrow> usb_ctx \<Rightarrow> usb_ctx" where
  "usbi_handle_transfer_cancellation cb i ctx =
     (if TIMED_OUT \<in> flags_of ctx i then usbi_handle_transfer_completion cb i TRANSFER_TIMED_OUT ctx
      else usbi_handle_transfer_completion cb i TRANSFER_CANCELLED ctx)"

section \<open>Timeouts\<close>

definition handle_timeout :: "kernel \<Rightarrow> nat \<Rightarrow> usb_ctx \<Rightarrow> usb_ctx" where
  "handle_timeout k i ctx =
     (let (r, ctx) = libusb_cancel_transfer k i ctx in
      if r = 0 then upd i (\<lambda>x. x\<lparr>it_flags := insert TIMED_OUT (it_flags x)\<rparr>) ctx else ctx)"

definition handled :: "xfer \<Rightarrow> bool" where
  "handled x \<longleftrightarrow> TIMED_OUT \<in> it_flags x \<or> OS_HANDLES_TIMEOUT \<in> it_flags x"

fun timeouts_loop :: "(nat \<Rightarrow> kernel) \<Rightarrow> timeval \<Rightarrow> nat list \<Rightarrow> usb_ctx \<Rightarrow> usb_ctx" where
  "timeouts_loop ks systime [] ctx = ctx"
| "timeouts_loop ks systime (i # is) ctx =
     (if \<not> timerisset (it_timeout (transfer ctx i)) then ctx
      else if handled (transfer ctx i) then timeouts_loop ks systime is ctx
      else if later (it_timeout (transfer ctx i)) systime then ctx
      else timeouts_loop ks systime is (handle_timeout (ks i) i ctx))"

definition handle_timeouts :: "(nat \<Rightarrow> kernel) \<Rightarrow> (nat \<times> nat) option \<Rightarrow> usb_ctx \<Rightarrow> int \<times> usb_ctx" where
  "handle_timeouts ks clock ctx =
     (if flying ctx = [] then (0, ctx)
      else case clock of
        None \<Rightarrow> (-1, ctx)
      | Some ts \<Rightarrow> (0, timeouts_loop ks (to_timeval ts) (flying ctx) ctx))"

text \<open>The first timeout that is not handled, of the flying transfers; \<open>(0, 0)\<close> is none.\<close>

fun next_timeout :: "usb_ctx \<Rightarrow> nat list \<Rightarrow> timeval" where
  "next_timeout ctx [] = (0, 0)"
| "next_timeout ctx (i # is) = (if handled (transfer ctx i) then next_timeout ctx is else it_timeout (transfer ctx i))"

definition timersub :: "timeval \<Rightarrow> timeval \<Rightarrow> timeval" where
  "timersub a b = (if snd a < snd b then (fst a - fst b - 1, snd a + 1000000 - snd b) else (fst a - fst b, snd a - snd b))"

text \<open>The result is 0, or 1 with the time to wait.\<close>

definition libusb_get_next_timeout :: "(nat \<times> nat) option \<Rightarrow> usb_ctx \<Rightarrow> timeval option" where
  "libusb_get_next_timeout clock ctx =
     (if flying ctx = [] then None
      else let next = next_timeout ctx (flying ctx) in
        if \<not> timerisset next then None
        else case clock of
          None \<Rightarrow> None
        | Some ts \<Rightarrow> if \<not> later next (to_timeval ts) then Some (0, 0) else Some (timersub next (to_timeval ts)))"

text \<open>\<open>None\<close>: a timeout has expired already.\<close>

definition get_next_timeout :: "(nat \<times> nat) option \<Rightarrow> timeval \<Rightarrow> usb_ctx \<Rightarrow> timeval option" where
  "get_next_timeout clock tv ctx = (case libusb_get_next_timeout clock ctx of
     Some timeout \<Rightarrow>
       if \<not> timerisset timeout then None
       else if later tv timeout then Some timeout else Some tv
   | None \<Rightarrow> Some tv)"

section \<open>Events\<close>

text \<open>\<open>reap_for_handle\<close>, until the kernel answers with an errno; its result with the context.\<close>

fun reap_loop ::
    "(nat \<Rightarrow> usb_ctx \<Rightarrow> usb_ctx) \<Rightarrow> (kernel \<times> urb_result) list \<Rightarrow> int \<Rightarrow> usb_ctx \<Rightarrow> int \<times> usb_ctx" where
  "reap_loop cb [] errno ctx = (reap_error errno, ctx)"
| "reap_loop cb ((k, u) # us) errno ctx =
     (let i = ur_transfer u in
      case reap_urb k u (transfer ctx i) of
        Inl r \<Rightarrow> (r, ctx)
      | Inr (x, reqs, result) \<Rightarrow>
          let ctx = asked i reqs (upd i (\<lambda>_. x) ctx) in
          reap_loop cb us errno (case result of
              None \<Rightarrow> ctx
            | Some Cancellation \<Rightarrow> usbi_handle_transfer_cancellation cb i ctx
            | Some (Completion status) \<Rightarrow> usbi_handle_transfer_completion cb i status ctx))"

text \<open>
  \<open>usbi_handle_disconnect\<close>: one round takes the first transfer of the handle that is in flight, and marks those before it; there
  are at most as many rounds as flying transfers when a callback does not submit again.
\<close>

fun mark_until_flying :: "nat \<Rightarrow> nat list \<Rightarrow> usb_ctx \<Rightarrow> nat option \<times> usb_ctx" where
  "mark_until_flying handle [] ctx = (None, ctx)"
| "mark_until_flying handle (i # is) ctx =
     (if x_dev_handle (transfer ctx i) = handle then
        if IN_FLIGHT \<in> flags_of ctx i then (Some i, ctx)
        else mark_until_flying handle is (upd i (\<lambda>x. x\<lparr>it_flags := insert DEVICE_DISAPPEARED (it_flags x)\<rparr>) ctx)
      else mark_until_flying handle is ctx)"

fun usbi_handle_disconnect :: "(nat \<Rightarrow> usb_ctx \<Rightarrow> usb_ctx) \<Rightarrow> nat \<Rightarrow> nat \<Rightarrow> usb_ctx \<Rightarrow> usb_ctx option" where
  "usbi_handle_disconnect cb handle 0 ctx = None"
| "usbi_handle_disconnect cb handle (Suc fuel) ctx = (case mark_until_flying handle (flying ctx) ctx of
     (None, ctx) \<Rightarrow> Some ctx
   | (Some i, ctx) \<Rightarrow> usbi_handle_disconnect cb handle fuel
       (usbi_handle_transfer_completion cb i TRANSFER_NO_DEVICE (upd i op_clear_transfer_priv ctx)))"

text \<open>What is ready on a descriptor: an error of a handle, or URBs.\<close>

datatype fd_event = Fd_error nat | Fd_urbs "(kernel \<times> urb_result) list" int

fun op_handle_events :: "(nat \<Rightarrow> usb_ctx \<Rightarrow> usb_ctx) \<Rightarrow> nat \<Rightarrow> fd_event list \<Rightarrow> usb_ctx \<Rightarrow> (int \<times> usb_ctx) option" where
  "op_handle_events cb fuel [] ctx = Some (0, ctx)"
| "op_handle_events cb fuel (Fd_error handle # es) ctx = (case usbi_handle_disconnect cb handle fuel ctx of
     None \<Rightarrow> None
   | Some ctx \<Rightarrow> op_handle_events cb fuel es ctx)"
| "op_handle_events cb fuel (Fd_urbs us errno # es) ctx =
     (let (r, ctx) = reap_loop cb us errno ctx in
      if r = 1 \<or> r = LIBUSB_ERROR_NO_DEVICE then op_handle_events cb fuel es ctx
      else if r < 0 then Some (r, ctx)
      else op_handle_events cb fuel es ctx)"

text \<open>What \<open>poll\<close> answers: nothing in time, a signal, an error, or the descriptors that are ready (none internal).\<close>

datatype poll_answer = Poll_timeout | Poll_eintr | Poll_error | Poll_ready "fd_event list"

definition handle_events ::
    "(nat \<Rightarrow> usb_ctx \<Rightarrow> usb_ctx) \<Rightarrow> nat \<Rightarrow> (nat \<Rightarrow> kernel) \<Rightarrow> (nat \<times> nat) option \<Rightarrow> poll_answer \<Rightarrow> usb_ctx \<Rightarrow> (int \<times> usb_ctx) option" where
  "handle_events cb fuel ks clock poll ctx = (case poll of
     Poll_timeout \<Rightarrow> Some (handle_timeouts ks clock ctx)
   | Poll_eintr \<Rightarrow> Some (LIBUSB_ERROR_INTERRUPTED, ctx)
   | Poll_error \<Rightarrow> Some (LIBUSB_ERROR_IO, ctx)
   | Poll_ready es \<Rightarrow> op_handle_events cb fuel es ctx)"

text \<open>
  For the thread that gets the event lock. The \<open>completed\<close> flag is false; \<open>poll\<close> is given the time to wait.
\<close>

definition libusb_handle_events_timeout_completed ::
    "(nat \<Rightarrow> usb_ctx \<Rightarrow> usb_ctx) \<Rightarrow> nat \<Rightarrow> (nat \<Rightarrow> kernel) \<Rightarrow> (nat \<times> nat) option \<Rightarrow> (nat \<times> nat) option \<Rightarrow> timeval \<Rightarrow>
     (timeval \<Rightarrow> poll_answer) \<Rightarrow> usb_ctx \<Rightarrow> (int \<times> usb_ctx) option" where
  "libusb_handle_events_timeout_completed cb fuel ks clock clock' tv poll ctx = (case get_next_timeout clock tv ctx of
     None \<Rightarrow> Some (handle_timeouts ks clock' ctx)
   | Some poll_timeout \<Rightarrow> handle_events cb fuel ks clock' (poll poll_timeout) ctx)"

end
