(* ===== verification/UsbTransferInv.thy ===== *)
theory UsbTransferInv
  imports UsbTransfer
begin

text \<open>
  The invariant of asynchronous transfers: the flying list is sorted by timeout without duplicates and holds exactly the
  transfers in flight, only they have URBs, and every successful submission is reported once. A callback is a parameter; the
  locale states what it must keep, and is interpreted for a callback that does nothing and for one that submits again.
\<close>

section \<open>The invariant\<close>

definition earlier :: "timeval \<Rightarrow> timeval \<Rightarrow> bool" where
  "earlier a b \<longleftrightarrow> \<not> timerisset b \<or> timerisset a \<and> \<not> later a b"

definition flying_sorted :: "usb_ctx \<Rightarrow> bool" where
  "flying_sorted ctx \<longleftrightarrow> sorted_wrt (\<lambda>i j. earlier (it_timeout (transfer ctx i)) (it_timeout (transfer ctx j))) (flying ctx)"

definition usb_inv :: "usb_ctx \<Rightarrow> bool" where
  "usb_inv ctx \<longleftrightarrow> flying_sorted ctx \<and> distinct (flying ctx) \<and>
     (\<forall>i. i \<in> set (flying ctx) \<longleftrightarrow> IN_FLIGHT \<in> flags_of ctx i) \<and>
     (\<forall>i. tp_urbs (transfer ctx i) \<noteq> None \<longrightarrow> i \<in> set (flying ctx) \<and> x_type (transfer ctx i) \<le> TYPE_BULK_STREAM) \<and>
     (\<forall>i. count_list (submitted ctx) i = count_list (map fst (reported ctx)) i + of_bool (i \<in> set (flying ctx)))"

lemma earlier_trans: "earlier a b \<Longrightarrow> earlier b c \<Longrightarrow> earlier a c"
  by (auto simp: earlier_def later_def)

lemma earlier_refl: "earlier a a"
  by (auto simp: earlier_def later_def)

text \<open>Simplification of updates.\<close>

lemma upd_simps [simp]:
  "flying (upd i f ctx) = flying ctx" "submitted (upd i f ctx) = submitted ctx" "reported (upd i f ctx) = reported ctx"
  "handle_dev (upd i f ctx) = handle_dev ctx" "refcnt (upd i f ctx) = refcnt ctx"
  "transfer (upd i f ctx) = (transfer ctx)(i := f (transfer ctx i))"
  by (simp_all add: upd_def)

lemma asked_simps [simp]:
  "flying (asked i r ctx) = flying ctx" "submitted (asked i r ctx) = submitted ctx" "reported (asked i r ctx) = reported ctx"
  "transfer (asked i r ctx) = transfer ctx"
  by (simp_all add: asked_def)

lemma ref_device_simps [simp]:
  "flying (ref_device d i ctx) = flying ctx" "submitted (ref_device d i ctx) = submitted ctx"
  "reported (ref_device d i ctx) = reported ctx" "transfer (ref_device d i ctx) = transfer ctx"
  by (simp_all add: ref_device_def Let_def)

lemma add_to_flying_simps [simp]:
  "submitted (add_to_flying_list i ctx) = submitted ctx" "reported (add_to_flying_list i ctx) = reported ctx"
  "transfer (add_to_flying_list i ctx) = transfer ctx"
  by (simp_all add: add_to_flying_list_def Let_def)

lemma remove_from_flying_present:
  "i \<in> set (flying ctx) \<Longrightarrow> remove_from_flying_list i ctx = ctx\<lparr>flying := remove1 i (flying ctx)\<rparr>"
  by (simp add: remove_from_flying_list_def)

section \<open>The list\<close>

lemma set_insert_before [simp]: "set (insert_before time i l) = insert i (set l)"
  by (induction l) auto

lemma distinct_insert_before: "distinct l \<Longrightarrow> i \<notin> set l \<Longrightarrow> distinct (insert_before time i l)"
  by (induction l) auto

lemma remove1_insert_before: "i \<notin> set l \<Longrightarrow> remove1 i (insert_before time i l) = l"
  by (induction l) auto

lemma sorted_insert_before:
  assumes "timerisset (time i)"
  shows "sorted_wrt (\<lambda>i j. earlier (time i) (time j)) l \<Longrightarrow>
    sorted_wrt (\<lambda>i j. earlier (time i) (time j)) (insert_before time i l)"
proof (induction l)
  case (Cons j l)
  show ?case
  proof (cases "\<not> timerisset (time j) \<or> later (time j) (time i)")
    case True
    then have "earlier (time i) (time j)" using assms by (auto simp: earlier_def later_def)
    then show ?thesis using True Cons.prems by (auto intro: earlier_trans)
  next
    case False
    then have "earlier (time j) (time i)" by (simp add: earlier_def)
    then show ?thesis using False Cons by auto
  qed
qed simp

lemma add_to_flying_set: "set (flying (add_to_flying_list i ctx)) = insert i (set (flying ctx))"
  by (auto simp: add_to_flying_list_def Let_def)

lemma add_to_flying_distinct:
  "distinct (flying ctx) \<Longrightarrow> i \<notin> set (flying ctx) \<Longrightarrow> distinct (flying (add_to_flying_list i ctx))"
  by (simp add: add_to_flying_list_def Let_def distinct_insert_before)

lemma remove_added: "i \<notin> set (flying ctx) \<Longrightarrow> remove1 i (flying (add_to_flying_list i ctx)) = flying ctx"
  by (simp add: add_to_flying_list_def Let_def remove1_insert_before remove1_append)

lemma add_to_flying_sorted:
  assumes "flying_sorted ctx"
  shows "flying_sorted (add_to_flying_list i ctx)"
proof (cases "timerisset (it_timeout (transfer ctx i))")
  case True
  then show ?thesis
    using assms sorted_insert_before [of "\<lambda>j. it_timeout (transfer ctx j)" i "flying ctx"]
    by (simp add: flying_sorted_def add_to_flying_list_def Let_def)
next
  case False
  then show ?thesis
    using assms by (auto simp: flying_sorted_def add_to_flying_list_def Let_def sorted_wrt_append earlier_def)
qed

text \<open>The order of the list depends only on the timeouts of its members.\<close>

lemma flying_sorted_cong:
  assumes "flying_sorted ctx" "flying ctx' = flying ctx"
    "\<And>j. j \<in> set (flying ctx) \<Longrightarrow> it_timeout (transfer ctx' j) = it_timeout (transfer ctx j)"
  shows "flying_sorted ctx'"
  using assms by (auto simp: flying_sorted_def elim!: sorted_wrt_mono_rel [rotated])

lemma sorted_wrt_remove: "sorted_wrt P l \<Longrightarrow> sorted_wrt P (remove1 i l)"
  by (induction l) (auto dest: notin_set_remove1 [rotated])

lemma flying_sorted_remove: "flying_sorted ctx \<Longrightarrow> flying_sorted (ctx\<lparr>flying := remove1 i (flying ctx)\<rparr>)"
  by (simp add: flying_sorted_def sorted_wrt_remove)

section \<open>The backend\<close>

text \<open>What the backend does not touch.\<close>

definition same_flight :: "xfer \<Rightarrow> xfer \<Rightarrow> bool" where
  "same_flight x y \<longleftrightarrow> it_flags y = it_flags x \<and> it_timeout y = it_timeout x \<and> x_type y = x_type x \<and>
     x_dev_handle y = x_dev_handle x"

lemma same_flight_refl [simp]: "same_flight x x"
  by (simp add: same_flight_def)

lemma submit_bulk_same: "submit_bulk_transfer k x = (r, reqs, y) \<Longrightarrow> same_flight x y \<and> (r \<noteq> 0 \<longrightarrow> tp_urbs y = None \<or> y = x)"
  by (auto simp: submit_bulk_transfer_def same_flight_def Let_def split: if_splits prod.splits option.splits)

lemma submit_iso_same: "submit_iso_transfer k x = (r, reqs, y) \<Longrightarrow> same_flight x y \<and> (r \<noteq> 0 \<longrightarrow> tp_urbs y = None \<or> y = x)"
  by (auto simp: submit_iso_transfer_def same_flight_def Let_def split: if_splits prod.splits option.splits)

lemma submit_control_same:
  "submit_control_transfer k x = (r, reqs, y) \<Longrightarrow> same_flight x y \<and> (r \<noteq> 0 \<longrightarrow> tp_urbs y = None \<or> y = x)"
  by (auto simp: submit_control_transfer_def same_flight_def Let_def split: if_splits)

lemma op_submit_same:
  assumes "op_submit_transfer k x = (r, reqs, y)"
  shows "same_flight x y" "r \<noteq> 0 \<Longrightarrow> tp_urbs y = None \<or> y = x" "r = 0 \<Longrightarrow> x_type y \<le> TYPE_BULK_STREAM"
proof -
  have "same_flight x y \<and> (r \<noteq> 0 \<longrightarrow> tp_urbs y = None \<or> y = x) \<and> (r = 0 \<longrightarrow> x_type x \<le> TYPE_BULK_STREAM)"
    using assms submit_bulk_same submit_iso_same submit_control_same
    by (auto simp: op_submit_transfer_def transfer_types usb_errors split: if_splits)
  then show "same_flight x y" "r \<noteq> 0 \<Longrightarrow> tp_urbs y = None \<or> y = x" "r = 0 \<Longrightarrow> x_type y \<le> TYPE_BULK_STREAM"
    by (auto simp: same_flight_def)
qed

lemma op_cancel_same:
  "op_cancel_transfer k x = (r, reqs, y) \<Longrightarrow> same_flight x y \<and> tp_urbs y = tp_urbs x"
  by (auto simp: op_cancel_transfer_def same_flight_def Let_def split: if_splits prod.splits)

lemma cancel_remaining_same: "cancel_remaining k i x = (y, reqs, result) \<Longrightarrow>
    same_flight x y \<and> (result \<noteq> None \<longrightarrow> tp_urbs y = None) \<and> (tp_urbs y \<noteq> None \<longrightarrow> tp_urbs x \<noteq> None)"
  by (auto simp: cancel_remaining_def completed_def same_flight_def Let_def split: if_splits)

lemma surplus_same: "same_flight x (surplus u n x)" and surplus_urbs: "tp_urbs (surplus u n x) = tp_urbs x"
  by (simp_all add: surplus_def same_flight_def Let_def)

lemma set_reap_status_same: "same_flight x (set_reap_status st x)"
  and set_reap_status_urbs: "tp_urbs (set_reap_status st x) = tp_urbs x"
  by (simp_all add: set_reap_status_def same_flight_def)

lemma bulk_completion_same:
  assumes "handle_bulk_completion k x i st n = (y, reqs, result)"
  shows "same_flight x y \<and> (result \<noteq> None \<longrightarrow> tp_urbs x \<noteq> None \<and> tp_urbs y = None) \<and> (tp_urbs y \<noteq> None \<longrightarrow> tp_urbs x \<noteq> None)"
proof (cases "tp_urbs x")
  case None
  then show ?thesis using assms by (auto simp: handle_bulk_completion_def same_flight_def)
next
  case (Some urbs)
  let ?x = "x\<lparr>tp_num_retired := tp_num_retired x + 1\<rparr>"
  show ?thesis
  proof (cases "tp_reap_action x = NORMAL")
    case True
    then show ?thesis using assms Some
      by (cases "bulk_verdict st")
        (auto simp: handle_bulk_completion_def Let_def same_flight_def completed_def set_reap_status_def
          split: if_splits dest!: cancel_remaining_same)
  next
    case False
    have "same_flight x (surplus (urbs ! i) n ?x)" using surplus_same [of ?x "urbs ! i" n] by (simp add: same_flight_def)
    then show ?thesis using assms Some False set_reap_status_same [of "surplus (urbs ! i) n ?x" TRANSFER_ERROR]
      by (auto simp: handle_bulk_completion_def Let_def same_flight_def completed_def surplus_urbs split: if_splits)
  qed
qed

lemma copy_iso_same: "same_flight x (copy_iso_results ps x) \<and> tp_urbs (copy_iso_results ps x) = tp_urbs x"
  by (induction ps x rule: copy_iso_results.induct) (auto simp: same_flight_def Let_def)

lemma reap_urb_same:
  assumes "reap_urb k u x = Inr (y, reqs, result)"
  shows "same_flight x y \<and> (result \<noteq> None \<longrightarrow> tp_urbs x \<noteq> None \<and> tp_urbs y = None) \<and> (tp_urbs y \<noteq> None \<longrightarrow> tp_urbs x \<noteq> None)"
  using assms bulk_completion_same copy_iso_same [of x "ur_packets u"]
  by (auto simp: reap_urb_def handle_iso_completion_def handle_control_completion_def same_flight_def Let_def
    split: if_splits option.splits)

lemma usb_invI:
  assumes "flying_sorted ctx" "distinct (flying ctx)" "\<And>i. i \<in> set (flying ctx) \<longleftrightarrow> IN_FLIGHT \<in> flags_of ctx i"
    "\<And>i. tp_urbs (transfer ctx i) \<noteq> None \<Longrightarrow> i \<in> set (flying ctx) \<and> x_type (transfer ctx i) \<le> TYPE_BULK_STREAM"
    "\<And>i. count_list (submitted ctx) i = count_list (map fst (reported ctx)) i + of_bool (i \<in> set (flying ctx))"
  shows "usb_inv ctx"
  using assms unfolding usb_inv_def by blast

lemma usb_invD:
  assumes "usb_inv ctx"
  shows "flying_sorted ctx" "distinct (flying ctx)" "i \<in> set (flying ctx) \<longleftrightarrow> IN_FLIGHT \<in> flags_of ctx i"
    "tp_urbs (transfer ctx i) \<noteq> None \<Longrightarrow> i \<in> set (flying ctx) \<and> x_type (transfer ctx i) \<le> TYPE_BULK_STREAM"
    "count_list (submitted ctx) i = count_list (map fst (reported ctx)) i + of_bool (i \<in> set (flying ctx))"
  using assms unfolding usb_inv_def by blast+

section \<open>Client operations\<close>

text \<open>Changes that the invariant does not see.\<close>

definition unseen :: "xfer \<Rightarrow> xfer \<Rightarrow> bool" where
  "unseen x y \<longleftrightarrow> (IN_FLIGHT \<in> it_flags y \<longleftrightarrow> IN_FLIGHT \<in> it_flags x) \<and> it_timeout y = it_timeout x \<and>
     x_type y = x_type x \<and> (tp_urbs y \<noteq> None \<longrightarrow> tp_urbs x \<noteq> None)"

lemma inv_unseen:
  assumes "usb_inv ctx" "flying ctx' = flying ctx" "submitted ctx' = submitted ctx" "reported ctx' = reported ctx"
    "\<And>j. unseen (transfer ctx j) (transfer ctx' j)"
  shows "usb_inv ctx'"
  using assms flying_sorted_cong [of ctx ctx'] unfolding usb_inv_def unseen_def by (metis (no_types, lifting))

lemma inv_upd: "usb_inv ctx \<Longrightarrow> unseen (transfer ctx i) (f (transfer ctx i)) \<Longrightarrow> usb_inv (upd i f ctx)"
  by (erule inv_unseen) (auto simp: unseen_def)

lemma inv_asked: "usb_inv ctx \<Longrightarrow> usb_inv (asked i reqs ctx)"
  by (erule inv_unseen) (auto simp: unseen_def)

text \<open>An idle transfer may change in any way that leaves it idle.\<close>

lemma inv_idle:
  assumes "usb_inv ctx" "i \<notin> set (flying ctx)" "IN_FLIGHT \<notin> it_flags x" "tp_urbs x = None"
  shows "usb_inv (upd i (\<lambda>_. x) ctx)"
proof -
  have "flying_sorted (upd i (\<lambda>_. x) ctx)"
    by (rule flying_sorted_cong [OF usb_invD(1) [OF assms(1)]]) (use assms(2) in auto)
  then show ?thesis using usb_invD [OF assms(1)] assms(2-4) by (intro usb_invI) (auto split: if_splits)
qed

text \<open>An idle transfer starts.\<close>

lemma inv_start:
  assumes "usb_inv ctx" "i \<notin> set (flying ctx)" "it_timeout y = it_timeout x" "IN_FLIGHT \<in> it_flags y" "x_type y \<le> TYPE_BULK_STREAM"
    "flying ctx' = flying (add_to_flying_list i (upd i (\<lambda>_. x) ctx))" "submitted ctx' = i # submitted ctx"
    "reported ctx' = reported ctx" "transfer ctx' = (transfer ctx)(i := y)"
  shows "usb_inv ctx'"
proof -
  let ?c = "upd i (\<lambda>_. x) ctx"
  have "flying_sorted ?c"
    by (rule flying_sorted_cong [OF usb_invD(1) [OF assms(1)]]) (use assms(2) in auto)
  then have "flying_sorted (add_to_flying_list i ?c)" by (rule add_to_flying_sorted)
  then have "flying_sorted ctx'" by (rule flying_sorted_cong) (use assms in auto)
  moreover have "distinct (flying ctx')"
    using usb_invD(2) [OF assms(1)] assms(2) add_to_flying_distinct [of ?c i] by (simp add: assms(6))
  moreover have f: "set (flying ctx') = insert i (set (flying ctx))" using assms(6) by (simp add: add_to_flying_set)
  moreover have "count_list (submitted ctx') j = count_list (map fst (reported ctx')) j + of_bool (j \<in> set (flying ctx'))" for j
    using usb_invD(5) [OF assms(1), of j] assms(2,7,8) f by (cases "i = j") simp_all
  moreover have "j \<in> set (flying ctx') \<longleftrightarrow> IN_FLIGHT \<in> flags_of ctx' j" for j
    using usb_invD(3) [OF assms(1), of j] f assms(4,9) by simp
  moreover have "j \<in> set (flying ctx') \<and> x_type (transfer ctx' j) \<le> TYPE_BULK_STREAM" if "tp_urbs (transfer ctx' j) \<noteq> None" for j
    using usb_invD(4) [OF assms(1), of j] that f assms(5,9) by (simp split: if_splits)
  ultimately show ?thesis by (intro usb_invI)
qed

lemma calculate_timeout_simps:
  "calculate_timeout clock x = (r, y) \<Longrightarrow> it_flags y = it_flags x \<and> tp_urbs y = tp_urbs x \<and> x_type y = x_type x"
  by (auto simp: calculate_timeout_def Let_def split: if_splits option.splits)

lemma inv_submit:
  assumes "usb_inv ctx"
  shows "usb_inv (snd (libusb_submit_transfer clock k gone i ctx))"
proof (cases "IN_FLIGHT \<in> flags_of ctx i")
  case True
  then show ?thesis using assms by (simp add: libusb_submit_transfer_def)
next
  case False
  then have idle: "i \<notin> set (flying ctx)" "tp_urbs (transfer ctx i) = None"
    using assms unfolding usb_inv_def by blast+
  obtain r x where c: "calculate_timeout clock ((transfer ctx i)\<lparr>it_transferred := 0, it_flags := {}\<rparr>) = (r, x)" by fastforce
  then have x: "it_flags x = {}" "tp_urbs x = None" using calculate_timeout_simps [OF c] idle by auto
  show ?thesis
  proof (cases "r < 0")
    case True
    then show ?thesis using False c inv_idle [OF assms idle(1), of x] x by (simp add: libusb_submit_transfer_def)
  next
    case ok: False
    let ?x = "x\<lparr>it_flags := {SUBMITTING}\<rparr>"
    let ?c = "upd i (\<lambda>_. ?x) ctx"
    obtain r' reqs y where s: "op_submit_transfer k ?x = (r', reqs, y)" by (metis prod_cases3)
    define flags where "flags = (if gone then insert DEVICE_DISAPPEARED (it_flags y) else it_flags y) - {SUBMITTING}"
    have y: "it_flags y = {SUBMITTING}" "it_timeout y = it_timeout x" using op_submit_same(1) [OF s] by (auto simp: same_flight_def)
    then have flags: "flags = (if gone then {DEVICE_DISAPPEARED} else {})" by (auto simp: flags_def)
    define t where "t = ref_device 1 i (add_to_flying_list i ?c)"
    define ctx2 where "ctx2 = asked i reqs (upd i (\<lambda>_. y\<lparr>it_flags := flags\<rparr>) t)"
    have t: "flying t = flying (add_to_flying_list i ?c)" "transfer t = (transfer ctx)(i := ?x)"
        "submitted t = submitted ctx" "reported t = reported ctx"
      by (simp_all add: t_def)
    have e: "snd (libusb_submit_transfer clock k gone i ctx) =
        (if r' = 0 then if DEVICE_DISAPPEARED \<in> flags
           then remove_from_flying_list i (ref_device (-1) i (upd i op_clear_transfer_priv ctx2))
           else upd i (\<lambda>x. x\<lparr>it_flags := insert IN_FLIGHT flags\<rparr>) ctx2\<lparr>submitted := i # submitted ctx2\<rparr>
         else remove_from_flying_list i (ref_device (-1) i ctx2))"
      using False ok c s by (simp add: libusb_submit_transfer_def Let_def x(1) y(1) ctx2_def flags_def t_def)
    have dropped: "usb_inv (remove_from_flying_list i (ref_device (-1) i z))"
      if z: "flying z = flying (add_to_flying_list i ?c)" "transfer z = (transfer ctx)(i := w)"
        "submitted z = submitted ctx" "reported z = reported ctx" "IN_FLIGHT \<notin> it_flags w" "tp_urbs w = None" for z w
    proof -
      have "usb_inv (upd i (\<lambda>_. w) ctx)" using assms idle(1) z(5,6) by (rule inv_idle)
      then show ?thesis
        by (rule inv_unseen)
          (use idle(1) z in \<open>auto simp: remove_from_flying_present add_to_flying_set remove_added unseen_def\<close>)
    qed
    consider "r' \<noteq> 0" | "r' = 0" "gone" | "r' = 0" "\<not> gone" by blast
    then show ?thesis
    proof cases
      case 1
      then have "tp_urbs y = None" using op_submit_same(2) [OF s] x by auto
      then have "usb_inv (remove_from_flying_list i (ref_device (-1) i ctx2))"
        by (intro dropped [where w = "y\<lparr>it_flags := flags\<rparr>"]) (auto simp: ctx2_def t flags)
      then show ?thesis unfolding e using 1 by simp
    next
      case 2
      then have "tp_urbs (op_clear_transfer_priv (y\<lparr>it_flags := flags\<rparr>)) = None"
        using op_submit_same(3) [OF s] by (simp add: op_clear_transfer_priv_def)
      then have "usb_inv (remove_from_flying_list i (ref_device (-1) i (upd i op_clear_transfer_priv ctx2)))"
        by (intro dropped [where w = "op_clear_transfer_priv (y\<lparr>it_flags := flags\<rparr>)"])
          (auto simp: ctx2_def t flags op_clear_transfer_priv_def)
      then show ?thesis unfolding e using 2 flags by simp
    next
      case 3
      have "usb_inv (upd i (\<lambda>x. x\<lparr>it_flags := insert IN_FLIGHT flags\<rparr>) ctx2\<lparr>submitted := i # submitted ctx2\<rparr>)"
        by (rule inv_start [OF assms idle(1), where x = ?x and y = "y\<lparr>it_flags := insert IN_FLIGHT flags\<rparr>"])
          (use 3 op_submit_same(3) [OF s] in \<open>simp_all add: y ctx2_def t\<close>)
      then show ?thesis unfolding e using 3 flags by simp
    qed
  qed
qed

lemma inv_cancel:
  assumes "usb_inv ctx"
  shows "usb_inv (snd (libusb_cancel_transfer k i ctx))"
proof -
  obtain r reqs x where c: "op_cancel_transfer k (transfer ctx i) = (r, reqs, x)" by (metis prod_cases3)
  show ?thesis using assms op_cancel_same [OF c]
    by (auto simp: libusb_cancel_transfer_def c Let_def same_flight_def unseen_def intro!: inv_asked inv_upd)
qed

lemma inv_handle_timeout: "usb_inv ctx \<Longrightarrow> usb_inv (handle_timeout k i ctx)"
  using inv_cancel [of ctx k i]
  by (auto simp: handle_timeout_def unseen_def intro!: inv_upd split: prod.split)

lemma inv_timeouts_loop: "usb_inv ctx \<Longrightarrow> usb_inv (timeouts_loop ks systime is ctx)"
  by (induction ks systime "is" ctx rule: timeouts_loop.induct) (auto simp: inv_handle_timeout)

lemma inv_handle_timeouts: "usb_inv ctx \<Longrightarrow> usb_inv (snd (handle_timeouts ks clock ctx))"
  by (auto simp: handle_timeouts_def inv_timeouts_loop split: option.split)

section \<open>Completion\<close>

text \<open>A transfer in flight whose URBs are gone ends: it is off the list, and its result reported.\<close>

lemma inv_ended:
  assumes "usb_inv ctx" "i \<in> set (flying ctx)" "tp_urbs (transfer ctx i) = None" "IN_FLIGHT \<notin> it_flags x" "tp_urbs x = None"
    "flying ctx' = remove1 i (flying ctx)" "submitted ctx' = submitted ctx" "map fst (reported ctx') = i # map fst (reported ctx)"
    "transfer ctx' = (transfer ctx)(i := x)"
  shows "usb_inv ctx'"
proof (rule usb_invI)
  note inv = usb_invD [OF assms(1)]
  have f: "set (flying ctx') = set (flying ctx) - {i}" using inv(2) assms(6) by simp
  have "flying_sorted (ctx\<lparr>flying := remove1 i (flying ctx)\<rparr>)" using inv(1) by (rule flying_sorted_remove)
  then show "flying_sorted ctx'"
    by (rule flying_sorted_cong) (use assms f inv(2) in auto)
  show "distinct (flying ctx')" using inv(2) assms(6) by simp
  fix j
  show "j \<in> set (flying ctx') \<longleftrightarrow> IN_FLIGHT \<in> flags_of ctx' j" using inv(3) [of j] f assms(4,9) by simp
  show "j \<in> set (flying ctx') \<and> x_type (transfer ctx' j) \<le> TYPE_BULK_STREAM" if "tp_urbs (transfer ctx' j) \<noteq> None"
    using inv(4) [of j] that f assms(5,9) by (simp split: if_splits)
  show "count_list (submitted ctx') j = count_list (map fst (reported ctx')) j + of_bool (j \<in> set (flying ctx'))"
    using inv(5) [of j] assms(2,7,8) f by (cases "j = i") auto
qed

lemma mark_until_flying_inv:
  "usb_inv ctx \<Longrightarrow> mark_until_flying handle is ctx = (r, c) \<Longrightarrow>
   usb_inv c \<and> flying c = flying ctx \<and> (\<forall>i. r = Some i \<longrightarrow> IN_FLIGHT \<in> flags_of c i \<and> x_dev_handle (transfer c i) = handle)"
proof (induction handle "is" ctx rule: mark_until_flying.induct)
  case (2 handle i "is" ctx)
  have "usb_inv (upd i (\<lambda>x. x\<lparr>it_flags := insert DEVICE_DISAPPEARED (it_flags x)\<rparr>) ctx)"
    using "2.prems"(1) by (rule inv_upd) (simp add: unseen_def)
  then show ?case using 2 by (auto split: if_splits)
qed simp

locale transfer_callback =
  fixes cb :: "nat \<Rightarrow> usb_ctx \<Rightarrow> usb_ctx"
  assumes cb_inv: "usb_inv ctx \<Longrightarrow> usb_inv (cb i ctx)"
begin

lemma inv_completion:
  assumes "usb_inv ctx" "i \<in> set (flying ctx)" "tp_urbs (transfer ctx i) = None"
  shows "usb_inv (usbi_handle_transfer_completion cb i status ctx)"
proof -
  let ?x = "(transfer ctx i)\<lparr>it_flags := insert COMPLETED (flags_of ctx i - {IN_FLIGHT})\<rparr>"
  let ?s = "final_status ?x status"
  let ?ended = "upd i (\<lambda>_. ?x\<lparr>x_status := ?s, x_actual_length := it_transferred ?x\<rparr>) (ctx\<lparr>flying := remove1 i (flying ctx)\<rparr>)
      \<lparr>reported := (i, ?s, it_transferred ?x) # reported ctx\<rparr>"
  have "usb_inv ?ended" by (rule inv_ended [OF assms]) (use assms(3) in simp_all)
  then have "usb_inv (cb i ?ended)" by (rule cb_inv)
  moreover have "flying (usbi_handle_transfer_completion cb i status ctx) = flying (cb i ?ended) \<and>
      submitted (usbi_handle_transfer_completion cb i status ctx) = submitted (cb i ?ended) \<and>
      reported (usbi_handle_transfer_completion cb i status ctx) = reported (cb i ?ended) \<and>
      transfer (usbi_handle_transfer_completion cb i status ctx) = transfer (cb i ?ended)"
    using assms(2)
    by (simp add: usbi_handle_transfer_completion_def Let_def remove_from_flying_present upd_def libusb_free_transfer_def)
  ultimately show ?thesis by (auto intro: inv_unseen simp: unseen_def)
qed

lemma inv_cancellation:
  "usb_inv ctx \<Longrightarrow> i \<in> set (flying ctx) \<Longrightarrow> tp_urbs (transfer ctx i) = None \<Longrightarrow>
   usb_inv (usbi_handle_transfer_cancellation cb i ctx)"
  by (simp add: usbi_handle_transfer_cancellation_def inv_completion)

lemma inv_reap_loop: "usb_inv ctx \<Longrightarrow> usb_inv (snd (reap_loop cb us errno ctx))"
proof (induction us arbitrary: ctx)
  case (Cons ku us)
  obtain k u where ku: "ku = (k, u)" by fastforce
  let ?i = "ur_transfer u"
  show ?case
  proof (cases "reap_urb k u (transfer ctx ?i)")
    case (Inl r)
    then show ?thesis using Cons.prems by (simp add: ku Let_def)
  next
    case (Inr y)
    obtain x reqs result where y: "y = (x, reqs, result)" by (metis prod_cases3)
    note same = reap_urb_same [OF Inr [unfolded y]]
    let ?c = "asked ?i reqs (upd ?i (\<lambda>_. x) ctx)"
    have c: "usb_inv ?c" using same Cons.prems
      by (intro inv_asked inv_upd) (auto simp: same_flight_def unseen_def)
    have "?i \<in> set (flying ?c) \<and> tp_urbs (transfer ?c ?i) = None" if "result \<noteq> None"
      using same usb_invD(4) [OF Cons.prems, of ?i] that by auto
    then have "usb_inv (case result of None \<Rightarrow> ?c
        | Some Cancellation \<Rightarrow> usbi_handle_transfer_cancellation cb ?i ?c
        | Some (Completion status) \<Rightarrow> usbi_handle_transfer_completion cb ?i status ?c)"
      using c by (auto split: option.split outcome.split intro: inv_completion inv_cancellation)
    then show ?thesis using Cons.IH Inr y by (simp add: ku Let_def)
  qed
qed simp

lemma inv_disconnect:
  "usb_inv ctx \<Longrightarrow> usbi_handle_disconnect cb handle fuel ctx = Some ctx' \<Longrightarrow> usb_inv ctx'"
proof (induction fuel arbitrary: ctx)
  case (Suc fuel)
  obtain r c where m: "mark_until_flying handle (flying ctx) ctx = (r, c)" by fastforce
  note c = mark_until_flying_inv [OF Suc.prems(1) m]
  show ?case
  proof (cases r)
    case None
    then show ?thesis using Suc.prems m c by simp
  next
    case (Some i)
    let ?c = "upd i op_clear_transfer_priv c"
    have i: "i \<in> set (flying c)" using c Some usb_invD(3) by blast
    have "tp_urbs (op_clear_transfer_priv (transfer c i)) = None"
      using usb_invD(4) [of c i] c by (cases "tp_urbs (transfer c i) = None") (simp_all add: op_clear_transfer_priv_def)
    moreover have "usb_inv ?c" using c by (intro inv_upd) (auto simp: unseen_def op_clear_transfer_priv_def)
    ultimately have "usb_inv (usbi_handle_transfer_completion cb i TRANSFER_NO_DEVICE ?c)"
      using i by (intro inv_completion) simp_all
    then show ?thesis using Suc.IH Suc.prems(2) m Some by simp
  qed
qed simp

lemma inv_op_handle_events:
  "usb_inv ctx \<Longrightarrow> op_handle_events cb fuel es ctx = Some (r, ctx') \<Longrightarrow> usb_inv ctx'"
proof (induction es arbitrary: ctx)
  case (Cons e es)
  show ?case
  proof (cases e)
    case (Fd_error handle)
    then obtain c where "usbi_handle_disconnect cb handle fuel ctx = Some c" "op_handle_events cb fuel es c = Some (r, ctx')"
      using Cons.prems(2) by (auto split: option.splits)
    then show ?thesis using Cons.IH inv_disconnect [OF Cons.prems(1)] by blast
  next
    case (Fd_urbs us errno)
    obtain r' c where l: "reap_loop cb us errno ctx = (r', c)" by fastforce
    then have "usb_inv c" using inv_reap_loop [OF Cons.prems(1), of us errno] by simp
    then show ?thesis using Cons.prems(2) Cons.IH by (auto simp: Fd_urbs l split: if_splits)
  qed
qed simp

lemma inv_libusb_handle_events:
  "usb_inv ctx \<Longrightarrow> libusb_handle_events_timeout_completed cb fuel ks clock clock' tv poll ctx = Some (r, ctx') \<Longrightarrow> usb_inv ctx'"
  using inv_handle_timeouts [of ctx ks clock'] inv_op_handle_events
  by (auto simp: libusb_handle_events_timeout_completed_def handle_events_def split: option.splits poll_answer.splits)

end

text \<open>The callbacks of the program: the one that does nothing, and one that submits a completed transfer again.\<close>

definition idle_callback :: "nat \<Rightarrow> usb_ctx \<Rightarrow> usb_ctx" where
  "idle_callback i ctx = ctx"

definition resubmitting :: "(nat \<times> nat) option \<Rightarrow> kernel \<Rightarrow> nat \<Rightarrow> usb_ctx \<Rightarrow> usb_ctx" where
  "resubmitting clock k i ctx =
     (if x_status (transfer ctx i) = TRANSFER_COMPLETED then snd (libusb_submit_transfer clock k False i ctx) else ctx)"

interpretation idle: transfer_callback idle_callback
  by unfold_locales (simp add: idle_callback_def)

interpretation streaming: transfer_callback "resubmitting clock k" for clock k
  by unfold_locales (simp add: resubmitting_def inv_submit)

section \<open>Runs\<close>

datatype usb_op =
    Submit_transfer "(nat \<times> nat) option" kernel bool nat
  | Cancel_transfer kernel nat
  | Handle_events nat "nat \<Rightarrow> kernel" "(nat \<times> nat) option" "(nat \<times> nat) option" timeval "timeval \<Rightarrow> poll_answer"

text \<open>
  Whether a step of the code so far was undefined: a URB read after its array was freed, a copy outside the buffer, or a
  transfer taken off a list it is not on. A run that gets there has no result.
\<close>

definition usb_ub :: "usb_ctx \<Rightarrow> bool" where
  "usb_ub ctx \<longleftrightarrow> list_ex (\<lambda>i. x_ub (transfer ctx i)) (submitted ctx)"

definition usb_step :: "(nat \<Rightarrow> usb_ctx \<Rightarrow> usb_ctx) \<Rightarrow> usb_op \<Rightarrow> usb_ctx \<Rightarrow> usb_ctx option" where
  "usb_step cb op ctx = (case op of
     Submit_transfer clock k gone i \<Rightarrow> Some (snd (libusb_submit_transfer clock k gone i ctx))
   | Cancel_transfer k i \<Rightarrow> Some (snd (libusb_cancel_transfer k i ctx))
   | Handle_events fuel ks clock clock' tv poll \<Rightarrow>
       map_option snd (libusb_handle_events_timeout_completed cb fuel ks clock clock' tv poll ctx))"

fun usb_run :: "(nat \<Rightarrow> usb_ctx \<Rightarrow> usb_ctx) \<Rightarrow> usb_op list \<Rightarrow> usb_ctx \<Rightarrow> usb_ctx option" where
  "usb_run cb [] ctx = Some ctx"
| "usb_run cb (op # ops) ctx = (case usb_step cb op ctx of
     None \<Rightarrow> None
   | Some ctx' \<Rightarrow> if usb_ub ctx' then None else usb_run cb ops ctx')"

lemma usb_step_inv:
  "usb_step (resubmitting clock k) op ctx = Some ctx' \<Longrightarrow> usb_inv ctx \<Longrightarrow> usb_inv ctx'"
  by (cases op) (auto simp: usb_step_def inv_submit inv_cancel streaming.inv_libusb_handle_events)

lemma usb_run_inv:
  "usb_run (resubmitting clock k) ops ctx = Some ctx' \<Longrightarrow> usb_inv ctx \<Longrightarrow> usb_inv ctx'"
  by (induction "resubmitting clock k" ops ctx rule: usb_run.induct)
    (auto dest: usb_step_inv split: option.splits if_splits)

text \<open>A context in which nothing was submitted yet.\<close>

definition usb_start :: "(nat \<Rightarrow> xfer) \<Rightarrow> usb_ctx" where
  "usb_start xs = \<lparr>transfer = (\<lambda>i. (xs i)\<lparr>it_flags := {}, tp_urbs := None, it_timeout := (0, 0), x_ub := False\<rparr>), flying = [],
     handle_dev = (\<lambda>h. h), refcnt = (\<lambda>d. 1), submitted = [], reported = [], freed = [], requests = [], sync_completed = {}\<rparr>"

lemma usb_start_inv: "usb_inv (usb_start xs)"
  by (simp add: usb_inv_def usb_start_def flying_sorted_def)

text \<open>
  For the examples: two bulk transfers of four bytes, the second with a timeout of 50 ms. Both are submitted; the first
  completes with two bytes and is submitted again; the second times out and its URB comes back cancelled.
\<close>

definition willing :: kernel where
  "willing = \<lparr>k_caps = {}, k_submit = (\<lambda>i. 0), k_discard = (\<lambda>i. 0)\<rparr>"

definition two_transfers :: "nat \<Rightarrow> xfer" where
  "two_transfers i = libusb_alloc_transfer 0\<lparr>x_type := 2, x_endpoint := 0x81, x_length := 4, x_buffer := [0, 0, 0, 0],
     x_timeout := (if i = 1 then 50 else 0)\<rparr>"

definition urb_back :: "nat \<Rightarrow> int \<Rightarrow> nat \<Rightarrow> kernel \<times> urb_result" where
  "urb_back i status n = (willing, \<lparr>ur_transfer = i, ur_urbs_id = 1, ur_index = 0, ur_status = status, ur_actual_length = n, ur_packets = []\<rparr>)"

definition example_ops :: "usb_op list" where
  "example_ops = [Submit_transfer (Some (7, 0)) willing False 0, Submit_transfer (Some (7, 0)) willing False 1,
     Handle_events 3 (\<lambda>i. willing) (Some (7, 0)) (Some (7, 0)) (60, 0) (\<lambda>tv. Poll_ready [Fd_urbs [urb_back 0 0 2] 11]),
     Handle_events 3 (\<lambda>i. willing) (Some (7, 60000000)) (Some (7, 60000000)) (60, 0) (\<lambda>tv. Poll_timeout),
     Handle_events 3 (\<lambda>i. willing) (Some (7, 70000000)) (Some (7, 70000000)) (60, 0)
       (\<lambda>tv. Poll_ready [Fd_urbs [urb_back 1 (-2) 0] 11])]"

lemma example_run:
  "map_option (\<lambda>ctx. (submitted ctx, reported ctx, flying ctx))
     (usb_run (resubmitting (Some (7, 0)) willing) example_ops (usb_start two_transfers)) =
   Some ([0, 1, 0], [(1, TRANSFER_TIMED_OUT, 0), (0, TRANSFER_COMPLETED, 2)], [0])"
  by code_simp

text \<open>
  Not every run has a result. A transfer of three URBs whose first one stalls: \<open>discard_urbs\<close> cancels the last URB first, it comes
  back first, and its completion frees the array; the second URB, which is still out, is then read after it was freed. (A
  stall does not change \<open>reap_action\<close>, so that the completion of the last URB takes the transfer to be a normal one.)
\<close>

definition three_urbs :: "nat \<Rightarrow> xfer" where
  "three_urbs i = libusb_alloc_transfer 0\<lparr>x_type := 2, x_endpoint := 0x81, x_length := 40000\<rparr>"

definition urb_of :: "nat \<Rightarrow> int \<Rightarrow> kernel \<times> urb_result" where
  "urb_of j status = (willing, \<lparr>ur_transfer = 0, ur_urbs_id = 1, ur_index = j, ur_status = status, ur_actual_length = 0, ur_packets = []\<rparr>)"

definition stall_ops :: "usb_op list" where
  "stall_ops = [Submit_transfer (Some (7, 0)) willing False 0,
     Handle_events 3 (\<lambda>i. willing) (Some (7, 0)) (Some (7, 0)) (60, 0) (\<lambda>tv. Poll_ready [Fd_urbs [urb_of 0 (-32)] 11]),
     Handle_events 3 (\<lambda>i. willing) (Some (7, 0)) (Some (7, 0)) (60, 0) (\<lambda>tv. Poll_ready [Fd_urbs [urb_of 2 (-2)] 11])]"

lemma stall_is_undefined:
  "map_option (\<lambda>ctx. (drop 3 (requests ctx), reported ctx)) (usb_run idle_callback stall_ops (usb_start three_urbs)) =
     Some ([(0, DISCARDURB 2), (0, DISCARDURB 1)], [(0, TRANSFER_STALL, 0)])"
  "usb_run idle_callback (stall_ops @ [Handle_events 3 (\<lambda>i. willing) (Some (7, 0)) (Some (7, 0)) (60, 0)
     (\<lambda>tv. Poll_ready [Fd_urbs [urb_of 1 (-2)] 11])]) (usb_start three_urbs) = None"
  by code_simp+

text \<open>
  C13. Whatever transfers are submitted, cancelled, timed out, completed and submitted again by their callback, whatever
  the kernel answers and however the device goes away: as long as no step was undefined, the result of every submission that
  succeeded is reported exactly once, and the transfers that are still owed a report are those in flight. (A run in which
  the code touches a URB it has freed has no result; \<open>stall_is_undefined\<close> is one. A transfer that ends in the order of C12 does not
  get there.)\<close>

theorem usb_reports_once:
  assumes "usb_run (resubmitting clock k) ops (usb_start xs) = Some ctx"
  shows "count_list (submitted ctx) i = count_list (map fst (reported ctx)) i + of_bool (IN_FLIGHT \<in> flags_of ctx i)"
  using usb_invD(3,5) [OF usb_run_inv [OF assms usb_start_inv], of i] by simp

theorem usb_reports_once_witness:
  "\<exists>ctx. usb_run (resubmitting (Some (7, 0)) willing) example_ops (usb_start two_transfers) = Some ctx \<and>
     (2::nat) = 1 + of_bool (IN_FLIGHT \<in> flags_of ctx 0)"
proof -
  obtain ctx where r: "usb_run (resubmitting (Some (7, 0)) willing) example_ops (usb_start two_transfers) = Some ctx"
      and s: "submitted ctx = [0, 1, 0]" "reported ctx = [(1, TRANSFER_TIMED_OUT, 0), (0, TRANSFER_COMPLETED, 2)]"
    using example_run by auto
  have "count_list [0, 1, 0] (0::nat) = count_list (map fst (reported ctx)) 0 + of_bool (IN_FLIGHT \<in> flags_of ctx 0)"
    using usb_reports_once [OF r, of 0] by (simp only: s(1))
  then have "(2::nat) = 1 + of_bool (IN_FLIGHT \<in> flags_of ctx 0)" unfolding s(2) by simp
  then show ?thesis using r by blast
qed

text \<open>
  The list of flying transfers is always sorted by timeout, those without a timeout last, and has no duplicates.\<close>

lemma usb_flying_sorted:
  assumes "usb_run (resubmitting clock k) ops (usb_start xs) = Some ctx"
  shows "flying_sorted ctx \<and> distinct (flying ctx) \<and> set (flying ctx) = {i. IN_FLIGHT \<in> flags_of ctx i}"
  using usb_run_inv [OF assms usb_start_inv] usb_invD(1,2,3) [of ctx] by blast

lemma usb_flying_sorted_example:
  "\<exists>ctx. usb_run (resubmitting (Some (7, 0)) willing) example_ops (usb_start two_transfers) = Some ctx \<and>
     {i. IN_FLIGHT \<in> flags_of ctx i} = {0}"
proof -
  obtain ctx where r: "usb_run (resubmitting (Some (7, 0)) willing) example_ops (usb_start two_transfers) = Some ctx"
      and s: "flying ctx = [0]"
    using example_run by auto
  show ?thesis using usb_flying_sorted [OF r] r s by simp
qed

end
