(* ===== verification/UsbTimeouts.thy ===== *)
theory UsbTimeouts
  imports UsbTransferInv
begin

text \<open>
  Timeouts and disconnection of \<open>libusb/io.c\<close>: expired transfers are cancelled, and only they; the next timeout is the
  first one; a disconnected device ends all its transfers. And two defects: a timeout that passes after a transfer was
  cancelled stops all event handling, and a transfer without a timeout keeps the one it had before.
\<close>

section \<open>Times\<close>

declare carry_seconds.simps [simp del]

lemma carry_seconds_eq: "carry_seconds (s, n) = (s + n div 1000000000, n mod 1000000000)"
proof (induction "(s, n)" arbitrary: s n rule: carry_seconds.induct)
  case (1 s n)
  show ?case
  proof (cases "n \<ge> 1000000000")
    case True
    then have "n div 1000000000 = Suc ((n - 1000000000) div 1000000000)" "n mod 1000000000 = (n - 1000000000) mod 1000000000"
      by (simp_all add: le_div_geq le_mod_geq)
    then show ?thesis using 1 True by (subst carry_seconds.simps) simp
  qed (subst carry_seconds.simps, simp)
qed

text \<open>The timeout of a transfer in microseconds: the clock and the timeout of the client, rounded down.\<close>

lemma calculate_timeout_time:
  assumes "x_timeout x \<noteq> 0" "calculate_timeout (Some (s, n)) x = (r, y)"
  shows "r = 0 \<and> snd (it_timeout y) < 1000000 \<and>
    fst (it_timeout y) * 1000000 + snd (it_timeout y) = (s * 1000000000 + n + x_timeout x * 1000000) div 1000"
proof -
  define t where "t = x_timeout x"
  define N where "N = n + t mod 1000 * 1000000"
  have y: "r = 0" "it_timeout y = (s + t div 1000 + N div 1000000000, N mod 1000000000 div 1000)"
    using assms by (auto simp: calculate_timeout_def Let_def carry_seconds_eq to_timeval_def t_def N_def)
  have "s * 1000000000 + n + t * 1000000 = (s + t div 1000) * 1000000000 + N"
    using arg_cong [OF div_mult_mod_eq [of t 1000], of "\<lambda>t. t * 1000000"]
    by (simp only: N_def add_mult_distrib mult.assoc)
  also have "\<dots> = (s + t div 1000 + N div 1000000000) * 1000000000 + N mod 1000000000"
    by (metis add.assoc add_mult_distrib div_mult_mod_eq)
  finally have e: "s * 1000000000 + n + t * 1000000 =
      (s + t div 1000 + N div 1000000000) * 1000000000 + N mod 1000000000" .
  have "(q * 1000000000 + m) div 1000 = q * 1000000 + m div 1000" for q m :: nat
    using div_mult_self3 [of 1000 "q * 1000000" m] by simp
  then have "(s * 1000000000 + n + t * 1000000) div 1000 =
      (s + t div 1000 + N div 1000000000) * 1000000 + N mod 1000000000 div 1000"
    by (simp only: e)
  moreover have "N mod 1000000000 div 1000 < 1000000" by (simp add: less_mult_imp_div_less)
  ultimately show ?thesis using y by (simp add: t_def)
qed

section \<open>Expired transfers\<close>

definition expired :: "timeval \<Rightarrow> xfer \<Rightarrow> bool" where
  "expired now x \<longleftrightarrow> timerisset (it_timeout x) \<and> \<not> handled x \<and> \<not> later (it_timeout x) now"

lemma handle_timeout_simps:
  assumes "IN_FLIGHT \<in> flags_of ctx i"
  shows "CANCELLING \<in> flags_of (handle_timeout k i ctx) i" "j \<noteq> i \<Longrightarrow> transfer (handle_timeout k i ctx) j = transfer ctx j"
  using assms by (auto simp: handle_timeout_def libusb_cancel_transfer_def Let_def split: prod.split)

lemma timeouts_loop_other: "j \<notin> set is \<Longrightarrow> transfer (timeouts_loop ks now is ctx) j = transfer ctx j"
proof (induction "is" arbitrary: ctx)
  case (Cons i "is")
  have "transfer (handle_timeout (ks i) i ctx) j = transfer ctx j"
    using Cons.prems by (auto simp: handle_timeout_def libusb_cancel_transfer_def Let_def split: prod.split)
  then show ?case using Cons by simp
qed simp

lemma timeouts_loop_exact:
  assumes "distinct is" "sorted_wrt (\<lambda>i j. earlier (it_timeout (transfer ctx i)) (it_timeout (transfer ctx j))) is"
    "\<forall>i \<in> set is. IN_FLIGHT \<in> flags_of ctx i" "j \<in> set is"
  shows "if expired now (transfer ctx j) then CANCELLING \<in> flags_of (timeouts_loop ks now is ctx) j
    else transfer (timeouts_loop ks now is ctx) j = transfer ctx j"
  using assms
proof (induction "is" arbitrary: ctx)
  case (Cons i "is")
  let ?t = "\<lambda>j. it_timeout (transfer ctx j)"
  have le: "earlier (?t i) (?t j)" using Cons.prems(2,4) earlier_refl [of "?t i"] by auto
  show ?case
  proof (cases "timerisset (?t i) \<and> (handled (transfer ctx i) \<or> \<not> later (?t i) now)")
    case False
    then have "\<not> expired now (transfer ctx j)" using le by (auto simp: expired_def earlier_def later_def)
    then show ?thesis using False by auto
  next
    case True
    define c where "c = (if handled (transfer ctx i) then ctx else handle_timeout (ks i) i ctx)"
    have loop: "timeouts_loop ks now (i # is) ctx = timeouts_loop ks now is c" using True by (auto simp: c_def)
    have same: "transfer c l = transfer ctx l" if "l \<noteq> i" for l
      using that handle_timeout_simps(2) Cons.prems(3) by (simp add: c_def)
    have i: "i \<notin> set is" using Cons.prems(1) by simp
    then have inside: "transfer c l = transfer ctx l" if "l \<in> set is" for l using that same by metis
    show ?thesis
    proof (cases "j = i")
      case True
      have "CANCELLING \<in> flags_of (handle_timeout (ks i) i ctx) i"
        using handle_timeout_simps(1) Cons.prems(3) by simp
      then show ?thesis
        using True i \<open>timerisset (?t i) \<and> _\<close> unfolding loop
        by (auto simp: timeouts_loop_other c_def expired_def)
    next
      case False
      have "if expired now (transfer c j) then CANCELLING \<in> flags_of (timeouts_loop ks now is c) j
          else transfer (timeouts_loop ks now is c) j = transfer c j"
      proof (rule Cons.IH)
        show "sorted_wrt (\<lambda>i j. earlier (it_timeout (transfer c i)) (it_timeout (transfer c j))) is"
          using Cons.prems(2) i by (auto simp: inside elim!: sorted_wrt_mono_rel [rotated])
        show "\<forall>i \<in> set is. IN_FLIGHT \<in> flags_of c i" using Cons.prems(3) i same by (metis list.set_intros(2))
      qed (use Cons.prems False in auto)
      then show ?thesis unfolding loop using same [OF False] by simp
    qed
  qed
qed simp

text \<open>
  C25. When timeouts are handled, every flying transfer whose time has passed is cancelled, and no other transfer is touched.\<close>

theorem usb_timeouts_exact:
  assumes "usb_inv ctx" "handle_timeouts ks (Some now) ctx = (r, ctx')"
  shows "if i \<in> set (flying ctx) \<and> expired (to_timeval now) (transfer ctx i) then CANCELLING \<in> flags_of ctx' i
    else transfer ctx' i = transfer ctx i"
proof -
  have e: "ctx' = timeouts_loop ks (to_timeval now) (flying ctx) ctx"
    using assms(2) by (auto simp: handle_timeouts_def split: if_splits)
  show ?thesis
  proof (cases "i \<in> set (flying ctx)")
    case True
    then show ?thesis unfolding e
      using timeouts_loop_exact [OF usb_invD(2) [OF assms(1)] _ _ True, where now = "to_timeval now" and ks = ks]
        usb_invD(1,3) [OF assms(1)]
      by (simp add: flying_sorted_def)
  qed (simp add: e timeouts_loop_other)
qed

theorem usb_timeouts_exact_witness:
  "\<exists>ctx ctx'. handle_timeouts (\<lambda>i. willing) (Some (7, 60000000)) ctx = (0, ctx') \<and> IN_FLIGHT \<in> flags_of ctx 1 \<and>
     CANCELLING \<notin> flags_of ctx 1 \<and> CANCELLING \<in> flags_of ctx' 1"
proof -
  let ?run = "usb_run (resubmitting None willing) [Submit_transfer (Some (7, 0)) willing False 1] (usb_start two_transfers)"
  have "map_option (\<lambda>c. (flying c, flags_of c 1, it_timeout (transfer c 1))) ?run = Some ([1], {IN_FLIGHT}, (7, 50000))"
    by code_simp
  then obtain ctx where r: "?run = Some ctx" and c: "flying ctx = [1]" "flags_of ctx 1 = {IN_FLIGHT}"
      "it_timeout (transfer ctx 1) = (7, 50000)"
    by auto
  obtain ctx' where h: "handle_timeouts (\<lambda>i. willing) (Some (7, 60000000)) ctx = (0, ctx')"
    using c by (auto simp: handle_timeouts_def)
  have "1 \<in> set (flying ctx) \<and> expired (to_timeval (7, 60000000)) (transfer ctx 1)"
    using c by (simp add: expired_def timerisset_def handled_def later_def to_timeval_def)
  then have "CANCELLING \<in> flags_of ctx' 1"
    using usb_timeouts_exact [OF usb_run_inv [OF r usb_start_inv] h, of 1] by simp
  then show ?thesis using h c by auto
qed

section \<open>The next timeout\<close>

lemma next_timeout_first:
  "sorted_wrt (\<lambda>i j. earlier (it_timeout (transfer ctx i)) (it_timeout (transfer ctx j))) is \<Longrightarrow>
   j \<in> set is \<Longrightarrow> \<not> handled (transfer ctx j) \<Longrightarrow> earlier (next_timeout ctx is) (it_timeout (transfer ctx j))"
  by (induction "is") (auto simp: earlier_refl simp del: split_paired_All)

text \<open>A thread that waits for the time that \<open>libusb_get_next_timeout\<close> gives, or without limit when it gives none, does not
  wait longer than to the timeout of any flying transfer that was not handled.\<close>

lemma usb_next_timeout_bound:
  assumes "usb_inv ctx" "i \<in> set (flying ctx)" "timerisset (it_timeout (transfer ctx i))" "\<not> handled (transfer ctx i)"
    "later (it_timeout (transfer ctx i)) (to_timeval now)"
  shows "\<exists>t. libusb_get_next_timeout (Some now) ctx = Some t \<and>
    (t = (0, 0) \<or> (\<exists>first. timersub first (to_timeval now) = t \<and> later first (to_timeval now) \<and>
       \<not> later first (it_timeout (transfer ctx i))))"
proof -
  let ?first = "next_timeout ctx (flying ctx)"
  have "earlier ?first (it_timeout (transfer ctx i))"
    using usb_invD(1) [OF assms(1)] assms(2,4) by (auto simp: flying_sorted_def intro: next_timeout_first)
  then have "timerisset ?first" "\<not> later ?first (it_timeout (transfer ctx i))" using assms(3) by (auto simp: earlier_def)
  moreover have "flying ctx \<noteq> []" using assms(2) by auto
  ultimately have e: "libusb_get_next_timeout (Some now) ctx =
      Some (if \<not> later ?first (to_timeval now) then (0, 0) else timersub ?first (to_timeval now))"
    by (simp add: libusb_get_next_timeout_def Let_def)
  show ?thesis
  proof (cases "later ?first (to_timeval now)")
    case True
    then show ?thesis unfolding e using \<open>\<not> later ?first _\<close>
      by (intro exI [of _ "timersub ?first (to_timeval now)"]) (simp only: simp_thms if_True if_False, blast)
  qed (unfold e, simp)
qed

lemma usb_next_timeout_bound_example:
  "\<exists>ctx t. IN_FLIGHT \<in> flags_of ctx 1 \<and> libusb_get_next_timeout (Some (7, 20000000)) ctx = Some t"
proof -
  let ?run = "usb_run (resubmitting None willing) [Submit_transfer (Some (7, 0)) willing False 1] (usb_start two_transfers)"
  have "map_option (\<lambda>c. (flying c, flags_of c 1, it_timeout (transfer c 1))) ?run = Some ([1], {IN_FLIGHT}, (7, 50000))"
    by code_simp
  then obtain ctx where r: "?run = Some ctx" and c: "flying ctx = [1]" "flags_of ctx 1 = {IN_FLIGHT}"
      "it_timeout (transfer ctx 1) = (7, 50000)"
    by auto
  have "\<exists>t. libusb_get_next_timeout (Some (7, 20000000)) ctx = Some t"
    using usb_next_timeout_bound [OF usb_run_inv [OF r usb_start_inv], of 1 "(7, 20000000)"] c
    by (auto simp: timerisset_def handled_def later_def to_timeval_def)
  then show ?thesis using c by auto
qed

section \<open>A timeout after a cancellation\<close>

definition late_call :: "timeval \<Rightarrow> usb_op \<Rightarrow> bool" where
  "late_call t op = (case op of
     Handle_events fuel ks clock clock' tv poll \<Rightarrow>
       (case (clock, clock') of (Some a, Some b) \<Rightarrow> \<not> later t (to_timeval a) \<and> \<not> later t (to_timeval b) | _ \<Rightarrow> False)
   | _ \<Rightarrow> False)"

text \<open>
  A transfer is cancelled, and its timeout passes before its URBs came back: \<open>libusb_cancel_transfer\<close> fails for the
  timeout, which is therefore never marked as handled, and every later call to handle events returns at once, without a look
  at the descriptors. Whatever the kernel has to return, the transfer never completes.\<close>

lemma usb_timeout_livelock:
  assumes "flying ctx = [i]" "timerisset (it_timeout (transfer ctx i))" "CANCELLING \<in> flags_of ctx i" "\<not> handled (transfer ctx i)"
    and "list_all (late_call (it_timeout (transfer ctx i))) ops" "\<not> usb_ub ctx"
  shows "usb_run cb ops ctx = Some ctx"
  using assms(5)
proof (induction ops)
  case (Cons op ops)
  obtain fuel ks clock clock' tv poll where op: "op = Handle_events fuel ks clock clock' tv poll"
    using Cons.prems by (cases op) (auto simp: late_call_def)
  then obtain a b where c: "clock = Some a" "clock' = Some b" "\<not> later (it_timeout (transfer ctx i)) (to_timeval a)"
      "\<not> later (it_timeout (transfer ctx i)) (to_timeval b)"
    using Cons.prems by (auto simp: late_call_def split: option.splits)
  have "get_next_timeout clock tv ctx = None"
    using assms c by (simp add: get_next_timeout_def libusb_get_next_timeout_def Let_def timerisset_def)
  moreover have "handle_timeouts ks clock' ctx = (0, ctx)"
    using assms c by (simp add: handle_timeouts_def handle_timeout_def libusb_cancel_transfer_def LIBUSB_ERROR_NOT_FOUND_def)
  ultimately have "libusb_handle_events_timeout_completed cb fuel ks clock clock' tv poll ctx = Some (0, ctx)"
    by (simp add: libusb_handle_events_timeout_completed_def)
  then show ?case using Cons assms(6) by (simp add: op usb_step_def)
qed simp

text \<open>A transfer with a timeout of 50 ms is cancelled after 10 ms; after 60 ms its URB is there, but is not taken.\<close>

lemma usb_timeout_livelock_example:
  "\<exists>ctx. usb_run idle_callback [Submit_transfer (Some (7, 0)) willing False 1, Cancel_transfer willing 1] (usb_start two_transfers) =
       Some ctx \<and>
     usb_run idle_callback (replicate 100 (Handle_events 3 (\<lambda>i. willing) (Some (7, 60000000)) (Some (7, 60000000)) (60, 0)
       (\<lambda>tv. Poll_ready [Fd_urbs [urb_back 1 (-2) 0] 11]))) ctx = Some ctx"
proof -
  let ?run = "usb_run idle_callback [Submit_transfer (Some (7, 0)) willing False 1, Cancel_transfer willing 1] (usb_start two_transfers)"
  have "map_option (\<lambda>c. (flying c, flags_of c 1, it_timeout (transfer c 1), usb_ub c)) ?run =
      Some ([1], {CANCELLING, IN_FLIGHT}, (7, 50000), False)"
    by code_simp
  then obtain ctx where r: "?run = Some ctx" and c: "flying ctx = [1]" "flags_of ctx 1 = {CANCELLING, IN_FLIGHT}"
      "it_timeout (transfer ctx 1) = (7, 50000)" "\<not> usb_ub ctx"
    by auto
  have "usb_run idle_callback (replicate 100 (Handle_events 3 (\<lambda>i. willing) (Some (7, 60000000)) (Some (7, 60000000)) (60, 0)
       (\<lambda>tv. Poll_ready [Fd_urbs [urb_back 1 (-2) 0] 11]))) ctx = Some ctx"
    by (rule usb_timeout_livelock [OF c(1)])
      (simp_all add: c c [simplified] timerisset_def handled_def late_call_def later_def to_timeval_def list_all_iff)
  then show ?thesis using r by blast
qed

section \<open>A timeout that stays\<close>

text \<open>
  \<open>calculate_timeout\<close> leaves the old time when a transfer is submitted again without a timeout: it is cancelled when that time
  has passed.
\<close>

lemma timeout_kept: "x_timeout x = 0 \<Longrightarrow> calculate_timeout clock x = (0, x)"
  by (simp add: calculate_timeout_def)

lemma timeout_kept_example:
  "(let c = snd (libusb_submit_transfer (Some (7, 0)) willing False 1 (usb_start two_transfers));
        c = snd (reap_loop idle_callback [urb_back 1 0 4] 11 c);
        c = upd 1 (\<lambda>x. x\<lparr>x_timeout := 0\<rparr>) c;
        c = snd (libusb_submit_transfer (Some (8, 0)) willing False 1 c) in
    flags_of (snd (handle_timeouts (\<lambda>i. willing) (Some (8, 1)) c)) 1) = {TIMED_OUT, CANCELLING, IN_FLIGHT}"
  by code_simp

section \<open>Disconnection\<close>

text \<open>What a callback does with a transfer whose device is gone: nothing to the flying list or to the transfers.\<close>

lemma resubmitting_gone: "x_status (transfer ctx i) = TRANSFER_NO_DEVICE \<Longrightarrow> resubmitting clock k i ctx = ctx"
  by (simp add: resubmitting_def)

lemma completion_no_device:
  assumes "i \<in> set (flying ctx)"
  shows "flying (usbi_handle_transfer_completion (resubmitting clock k) i TRANSFER_NO_DEVICE ctx) = remove1 i (flying ctx) \<and>
    (\<forall>j. j \<noteq> i \<longrightarrow> transfer (usbi_handle_transfer_completion (resubmitting clock k) i TRANSFER_NO_DEVICE ctx) j = transfer ctx j)"
  using assms
  by (simp add: usbi_handle_transfer_completion_def Let_def remove_from_flying_present final_status_def resubmitting_gone
    libusb_free_transfer_def)

lemma mark_in_flight:
  assumes "\<And>i. i \<in> set is \<Longrightarrow> IN_FLIGHT \<in> flags_of ctx i"
  shows "mark_until_flying handle is ctx = (List.find (\<lambda>i. x_dev_handle (transfer ctx i) = handle) is, ctx)"
  using assms by (induction "is") auto

text \<open>
  C26. When a device goes away, one round for each flying transfer is enough to end all the transfers of its handle, with a
  callback that submits completed transfers again; the transfers of other handles stay in flight.\<close>

theorem usb_disconnect_ends:
  assumes "usb_inv ctx"
  shows "\<exists>ctx'. usbi_handle_disconnect (resubmitting clock k) handle (Suc (length (flying ctx))) ctx = Some ctx' \<and>
    flying ctx' = filter (\<lambda>i. x_dev_handle (transfer ctx i) \<noteq> handle) (flying ctx)"
  using assms
proof (induction "length (flying ctx)" arbitrary: ctx)
  case 0
  then show ?case by simp
next
  case (Suc n)
  note inv = usb_invD [OF Suc.prems]
  let ?mine = "\<lambda>i. x_dev_handle (transfer ctx i) = handle"
  have m: "mark_until_flying handle (flying ctx) ctx = (List.find ?mine (flying ctx), ctx)"
    using inv(3) by (intro mark_in_flight) blast
  show ?case
  proof (cases "List.find ?mine (flying ctx)")
    case None
    then have "filter (\<lambda>i. \<not> ?mine i) (flying ctx) = flying ctx" by (auto simp: find_None_iff intro!: filter_True)
    then show ?thesis using m None by simp
  next
    case (Some i)
    then have i: "i \<in> set (flying ctx)" "?mine i" by (auto simp: find_Some_iff)
    let ?c = "upd i op_clear_transfer_priv ctx"
    let ?d = "usbi_handle_transfer_completion (resubmitting clock k) i TRANSFER_NO_DEVICE ?c"
    have "tp_urbs (op_clear_transfer_priv (transfer ctx i)) = None"
      using inv(4) [of i] by (cases "tp_urbs (transfer ctx i) = None") (simp_all add: op_clear_transfer_priv_def)
    moreover have "usb_inv ?c" using Suc.prems by (intro inv_upd) (auto simp: unseen_def op_clear_transfer_priv_def)
    ultimately have d: "usb_inv ?d" using i by (intro streaming.inv_completion) simp_all
    have f: "flying ?d = remove1 i (flying ctx)" "\<And>j. j \<noteq> i \<Longrightarrow> transfer ?d j = transfer ctx j"
      using completion_no_device [of i ?c clock k] i by auto
    have n: "n = length (flying ?d)" using f(1) i(1) Suc.hyps(2) by (simp add: length_remove1)
    obtain c where c: "usbi_handle_disconnect (resubmitting clock k) handle (Suc n) ?d = Some c"
        "flying c = filter (\<lambda>j. x_dev_handle (transfer ?d j) \<noteq> handle) (flying ?d)"
      using Suc.hyps(1) [OF n d] n by auto
    have "filter (\<lambda>j. x_dev_handle (transfer ?d j) \<noteq> handle) (flying ?d) = filter (\<lambda>j. \<not> ?mine j) (remove1 i (flying ctx))"
      unfolding f(1) using f(2) inv(2) by (intro filter_cong) auto
    also have "\<dots> = filter (\<lambda>j. \<not> ?mine j) (flying ctx)"
      using i(2) inv(2) by (simp add: distinct_remove1_removeAll removeAll_filter_not_eq filter_id_conv) (metis (mono_tags, lifting) filter_cong)
    finally show ?thesis using c m Some Suc.hyps(2) by simp
  qed
qed

theorem usb_disconnect_ends_witness:
  "\<exists>ctx ctx'. flying ctx = [1, 0] \<and> usbi_handle_disconnect (resubmitting None willing) 0 3 ctx = Some ctx' \<and> flying ctx' = []"
proof -
  let ?run = "usb_run (resubmitting None willing) [Submit_transfer (Some (7, 0)) willing False 0,
    Submit_transfer (Some (7, 0)) willing False 1] (usb_start two_transfers)"
  have "map_option (\<lambda>c. (flying c, x_dev_handle (transfer c 0), x_dev_handle (transfer c 1))) ?run = Some ([1, 0], 0, 0)"
    by code_simp
  then obtain ctx where r: "?run = Some ctx" and c: "flying ctx = [1, 0]" "x_dev_handle (transfer ctx 0) = 0"
      "x_dev_handle (transfer ctx 1) = 0"
    by auto
  have "\<exists>ctx'. usbi_handle_disconnect (resubmitting None willing) 0 (Suc (length (flying ctx))) ctx = Some ctx' \<and>
      flying ctx' = filter (\<lambda>i. x_dev_handle (transfer ctx i) \<noteq> 0) (flying ctx)"
    by (rule usb_disconnect_ends [OF usb_run_inv [OF r usb_start_inv]])
  then show ?thesis using c c(3) [simplified] by (auto simp: numeral_eq_Suc)
qed

end
