(* ===== verification/UsbSync.thy ===== *)
theory UsbSync
  imports UsbTransferInv
begin

text \<open>
  Synchronous transfers (\<open>libusb/sync.c\<close>): a new transfer is submitted, and the caller handles events until its callback has
  set \<open>completed\<close>. Meanwhile the events of other transfers are handled, too, by the callback \<open>client\<close>. What a call of
  \<open>libusb_handle_events_completed\<close> meets is a round: the kernel and the clock, what the kernel wrote to the buffers of
  transfers, and the answer of \<open>poll\<close>.
\<close>

section \<open>Waiting\<close>

record sync_round =
  sr_kernel :: "nat \<Rightarrow> kernel"
  sr_clock :: "(nat \<times> nat) option"
  sr_clock' :: "(nat \<times> nat) option"
  sr_written :: "(nat \<times> nat \<times> u8 list) list"
  sr_poll :: "timeval \<Rightarrow> poll_answer"

text \<open>The kernel writes to an offset in the buffer of a transfer, never past its end.\<close>

definition kernel_wrote :: "nat \<times> nat \<times> u8 list \<Rightarrow> usb_ctx \<Rightarrow> usb_ctx" where
  "kernel_wrote w ctx = (case w of (i, offset, bytes) \<Rightarrow>
     upd i (\<lambda>x. x\<lparr>x_buffer := take (length (x_buffer x))
       (take offset (x_buffer x) @ bytes @ drop (offset + length bytes) (x_buffer x))\<rparr>) ctx)"

definition sync_transfer_cb :: "nat \<Rightarrow> usb_ctx \<Rightarrow> usb_ctx" where
  "sync_transfer_cb i ctx = ctx\<lparr>sync_completed := insert i (sync_completed ctx)\<rparr>"

text \<open>The callback of every transfer, while transfer \<open>i\<close> is waited for.\<close>

definition sync_callbacks :: "(nat \<Rightarrow> usb_ctx \<Rightarrow> usb_ctx) \<Rightarrow> nat \<Rightarrow> nat \<Rightarrow> usb_ctx \<Rightarrow> usb_ctx" where
  "sync_callbacks client i j ctx = (if j = i then sync_transfer_cb i ctx else client j ctx)"

definition libusb_handle_events_completed ::
    "(nat \<Rightarrow> usb_ctx \<Rightarrow> usb_ctx) \<Rightarrow> nat \<Rightarrow> sync_round \<Rightarrow> usb_ctx \<Rightarrow> (int \<times> usb_ctx) option" where
  "libusb_handle_events_completed cb fuel ev ctx =
     libusb_handle_events_timeout_completed cb fuel (sr_kernel ev) (sr_clock ev) (sr_clock' ev) (60, 0)
       (sr_poll ev) (fold kernel_wrote (sr_written ev) ctx)"

text \<open>\<open>None\<close>: the rounds are used up and the transfer is still waited for.\<close>

fun sync_transfer_wait_for_completion ::
    "(nat \<Rightarrow> usb_ctx \<Rightarrow> usb_ctx) \<Rightarrow> nat \<Rightarrow> nat \<Rightarrow> sync_round list \<Rightarrow> usb_ctx \<Rightarrow> usb_ctx option" where
  "sync_transfer_wait_for_completion cb fuel i [] ctx = (if i \<in> sync_completed ctx then Some ctx else None)"
| "sync_transfer_wait_for_completion cb fuel i (ev # rounds) ctx =
     (if i \<in> sync_completed ctx then Some ctx
      else case libusb_handle_events_completed cb fuel ev ctx of
        None \<Rightarrow> None
      | Some (r, ctx) \<Rightarrow>
          if r < 0 then
            if r = LIBUSB_ERROR_INTERRUPTED then sync_transfer_wait_for_completion cb fuel i rounds ctx
            else sync_transfer_wait_for_completion cb fuel i rounds (snd (libusb_cancel_transfer (sr_kernel ev i) i ctx))
          else sync_transfer_wait_for_completion cb fuel i rounds ctx)"

section \<open>Transfers\<close>

definition libusb_fill_control_setup :: "u8 \<Rightarrow> u8 \<Rightarrow> u16 \<Rightarrow> u16 \<Rightarrow> u16 \<Rightarrow> u8 list" where
  "libusb_fill_control_setup bmRequestType bRequest wValue wIndex wLength =
     [bmRequestType, bRequest, ucast wValue, ucast (drop_bit 8 wValue), ucast wIndex, ucast (drop_bit 8 wIndex),
      ucast wLength, ucast (drop_bit 8 wLength)]"

definition setup_wLength :: "u8 list \<Rightarrow> u16" where
  "setup_wLength buffer = ucast (buffer ! 6) OR push_bit 8 (ucast (buffer ! 7))"

definition libusb_fill_control_transfer :: "nat \<Rightarrow> u8 list \<Rightarrow> nat \<Rightarrow> xfer \<Rightarrow> xfer" where
  "libusb_fill_control_transfer dev_handle buffer timeout x =
     x\<lparr>x_dev_handle := dev_handle, x_endpoint := 0, x_type := TYPE_CONTROL, x_timeout := timeout, x_buffer := buffer,
       x_length := CONTROL_SETUP_SIZE + unat (setup_wLength buffer)\<rparr>"

definition libusb_fill_bulk_transfer :: "nat \<Rightarrow> u8 \<Rightarrow> u8 list \<Rightarrow> nat \<Rightarrow> nat \<Rightarrow> xfer \<Rightarrow> xfer" where
  "libusb_fill_bulk_transfer dev_handle endpoint buffer len timeout x =
     x\<lparr>x_dev_handle := dev_handle, x_endpoint := endpoint, x_type := TYPE_BULK, x_timeout := timeout, x_buffer := buffer,
       x_length := len\<rparr>"

text \<open>The switches of both functions agree but for the transfers that completed.\<close>

definition status_error :: "xfer_status \<Rightarrow> int" where
  "status_error status = (case status of
     TRANSFER_COMPLETED \<Rightarrow> 0
   | TRANSFER_TIMED_OUT \<Rightarrow> LIBUSB_ERROR_TIMEOUT
   | TRANSFER_STALL \<Rightarrow> LIBUSB_ERROR_PIPE
   | TRANSFER_NO_DEVICE \<Rightarrow> LIBUSB_ERROR_NO_DEVICE
   | TRANSFER_OVERFLOW \<Rightarrow> LIBUSB_ERROR_OVERFLOW
   | TRANSFER_ERROR \<Rightarrow> LIBUSB_ERROR_IO
   | TRANSFER_CANCELLED \<Rightarrow> LIBUSB_ERROR_IO)"

text \<open>Copying more than the buffers hold is undefined, and recorded in the transfer.\<close>

definition copy_answer :: "nat \<Rightarrow> u8 list \<Rightarrow> usb_ctx \<Rightarrow> u8 list \<times> usb_ctx" where
  "copy_answer i data ctx =
     (let x = transfer ctx i; n = x_actual_length x in
      if CONTROL_SETUP_SIZE + n \<le> length (x_buffer x) \<and> n \<le> length data
      then (take n (drop CONTROL_SETUP_SIZE (x_buffer x)) @ drop n data, ctx)
      else (data, upd i (\<lambda>x. x\<lparr>x_ub := True\<rparr>) ctx))"

text \<open>
  The new transfer has number \<open>i\<close>; the allocated buffer is zero. The result is the returned number, the caller's data and the
  context.
\<close>

definition libusb_control_transfer ::
    "(nat \<Rightarrow> usb_ctx \<Rightarrow> usb_ctx) \<Rightarrow> nat \<Rightarrow> (nat \<times> nat) option \<Rightarrow> kernel \<Rightarrow> bool \<Rightarrow> sync_round list \<Rightarrow> nat \<Rightarrow>
     nat \<Rightarrow> u8 \<Rightarrow> u8 \<Rightarrow> u16 \<Rightarrow> u16 \<Rightarrow> u8 list \<Rightarrow> u16 \<Rightarrow> nat \<Rightarrow> usb_ctx \<Rightarrow> (int \<times> u8 list \<times> usb_ctx) option" where
  "libusb_control_transfer client fuel clock k gone rounds i dev_handle bmRequestType bRequest wValue wIndex data wLength timeout ctx =
     (let buffer = libusb_fill_control_setup bmRequestType bRequest wValue wIndex wLength @
            (if \<not> bit bmRequestType 7 then take (unat wLength) data else replicate (unat wLength) 0);
          x = (libusb_fill_control_transfer dev_handle buffer timeout (libusb_alloc_transfer 0))\<lparr>x_flags := {FREE_BUFFER}\<rparr>;
          (r, ctx) = libusb_submit_transfer clock k gone i (upd i (\<lambda>_. x) ctx) in
      if r < 0 then Some (r, data, libusb_free_transfer i ctx)
      else case sync_transfer_wait_for_completion (sync_callbacks client i) fuel i rounds ctx of
        None \<Rightarrow> None
      | Some ctx \<Rightarrow>
          let (data, ctx) = (if bit bmRequestType 7 then copy_answer i data ctx else (data, ctx)); x = transfer ctx i in
          Some (if x_status x = TRANSFER_COMPLETED then int (x_actual_length x) else status_error (x_status x),
            data, libusb_free_transfer i ctx))"

text \<open>The bulk transfer works on the caller's buffer; \<open>transferred\<close> is set unless the submission fails.\<close>

definition do_sync_bulk_transfer ::
    "(nat \<Rightarrow> usb_ctx \<Rightarrow> usb_ctx) \<Rightarrow> nat \<Rightarrow> (nat \<times> nat) option \<Rightarrow> kernel \<Rightarrow> bool \<Rightarrow> sync_round list \<Rightarrow> nat \<Rightarrow>
     nat \<Rightarrow> u8 \<Rightarrow> u8 list \<Rightarrow> nat \<Rightarrow> nat \<Rightarrow> nat \<Rightarrow> usb_ctx \<Rightarrow> (int \<times> nat option \<times> u8 list \<times> usb_ctx) option" where
  "do_sync_bulk_transfer client fuel clock k gone rounds i dev_handle endpoint buffer len timeout type ctx =
     (let x = (libusb_fill_bulk_transfer dev_handle endpoint buffer len timeout (libusb_alloc_transfer 0))\<lparr>x_type := type\<rparr>;
          (r, ctx) = libusb_submit_transfer clock k gone i (upd i (\<lambda>_. x) ctx) in
      if r < 0 then Some (r, None, buffer, libusb_free_transfer i ctx)
      else case sync_transfer_wait_for_completion (sync_callbacks client i) fuel i rounds ctx of
        None \<Rightarrow> None
      | Some ctx \<Rightarrow>
          let x = transfer ctx i in
          Some (status_error (x_status x), Some (x_actual_length x), x_buffer x, libusb_free_transfer i ctx))"

definition libusb_bulk_transfer where
  "libusb_bulk_transfer client fuel clock k gone rounds i dev_handle endpoint data len timeout ctx =
     do_sync_bulk_transfer client fuel clock k gone rounds i dev_handle endpoint data len timeout TYPE_BULK ctx"

definition libusb_interrupt_transfer where
  "libusb_interrupt_transfer client fuel clock k gone rounds i dev_handle endpoint data len timeout ctx =
     do_sync_bulk_transfer client fuel clock k gone rounds i dev_handle endpoint data len timeout TYPE_INTERRUPT ctx"

end
