(* ===== verification/UsbSyncProps.thy ===== *)
theory UsbSyncProps
  imports UsbSync
begin

text \<open>
  What a synchronous transfer returns. A locale carries a statement about results through the handling of events: it holds
  after all steps when no step but the completion of a transfer and its callback can change it. The statement here is
  that the awaited transfer was submitted once, and that its state is the result that was reported.
\<close>

section \<open>Results\<close>

definition same_results :: "usb_ctx \<Rightarrow> usb_ctx \<Rightarrow> bool" where
  "same_results c d \<longleftrightarrow> submitted d = submitted c \<and> reported d = reported c \<and> sync_completed d = sync_completed c \<and>
     (\<forall>i. x_status (transfer d i) = x_status (transfer c i) \<and> x_actual_length (transfer d i) = x_actual_length (transfer c i))"

definition same_answer :: "xfer \<Rightarrow> xfer \<Rightarrow> bool" where
  "same_answer x y \<longleftrightarrow> x_status y = x_status x \<and> x_actual_length y = x_actual_length x"

lemma same_results_refl [simp]: "same_results c c"
  by (simp add: same_results_def)

lemma same_results_trans: "same_results c d \<Longrightarrow> same_results d e \<Longrightarrow> same_results c e"
  by (simp add: same_results_def)

lemma same_results_upd: "same_answer (transfer c i) (f (transfer c i)) \<Longrightarrow> same_results c (upd i f c)"
  by (simp add: same_results_def same_answer_def upd_def)

lemma same_results_asked: "same_results c d \<Longrightarrow> same_results c (asked i reqs d)"
  by (simp add: same_results_def asked_def)

lemma op_cancel_answer: "op_cancel_transfer k x = (r, reqs, y) \<Longrightarrow> same_answer x y"
  by (auto simp: op_cancel_transfer_def same_answer_def Let_def split: if_splits prod.splits)

lemma surplus_answer: "same_answer x (surplus u n x)"
  by (simp add: surplus_def same_answer_def Let_def)

lemma cancel_remaining_answer: "cancel_remaining k i x = (y, reqs, result) \<Longrightarrow> same_answer x y"
  by (auto simp: cancel_remaining_def completed_def same_answer_def Let_def split: if_splits)

lemma bulk_answer: "handle_bulk_completion k x i st n = (y, reqs, result) \<Longrightarrow> same_answer x y"
  using surplus_answer [of "x\<lparr>tp_num_retired := tp_num_retired x + 1\<rparr>" "the (tp_urbs x) ! i" n]
  by (cases "bulk_verdict st")
    (auto simp: handle_bulk_completion_def Let_def same_answer_def completed_def set_reap_status_def
      split: if_splits option.splits dest!: cancel_remaining_answer)

lemma copy_iso_answer: "same_answer x (copy_iso_results ps x)"
  by (induction ps x rule: copy_iso_results.induct) (auto simp: same_answer_def Let_def)

lemma reap_urb_answer: "reap_urb k u x = Inr (y, reqs, result) \<Longrightarrow> same_answer x y"
  using bulk_answer copy_iso_answer [of x "ur_packets u"]
  by (auto simp: reap_urb_def handle_iso_completion_def handle_control_completion_def same_answer_def Let_def
    split: if_splits option.splits)

lemma cancel_results: "same_results c (snd (libusb_cancel_transfer k i c))"
proof -
  obtain r reqs x where x: "op_cancel_transfer k (transfer c i) = (r, reqs, x)" by (metis prod_cases3)
  show ?thesis using op_cancel_answer [OF x]
    by (auto simp: libusb_cancel_transfer_def x Let_def same_answer_def intro!: same_results_asked same_results_upd)
qed

lemma handle_timeout_results: "same_results c (handle_timeout k i c)"
proof -
  obtain r d where d: "libusb_cancel_transfer k i c = (r, d)" by fastforce
  have "same_results d (upd i (\<lambda>x. x\<lparr>it_flags := insert TIMED_OUT (it_flags x)\<rparr>) d)"
    by (rule same_results_upd) (simp add: same_answer_def)
  then show ?thesis using cancel_results [of c k i] by (auto simp: handle_timeout_def d intro: same_results_trans)
qed

lemma timeouts_loop_results: "same_results c (timeouts_loop ks now is c)"
  by (induction ks now "is" c rule: timeouts_loop.induct) (auto intro: same_results_trans handle_timeout_results)

lemma handle_timeouts_results: "same_results c (snd (handle_timeouts ks clock c))"
  by (simp add: handle_timeouts_def timeouts_loop_results split: option.split)

lemma mark_results: "mark_until_flying handle is c = (r, d) \<Longrightarrow> same_results c d"
proof (induction handle "is" c rule: mark_until_flying.induct)
  case (2 handle i "is" c)
  have "same_results c (upd i (\<lambda>x. x\<lparr>it_flags := insert DEVICE_DISAPPEARED (it_flags x)\<rparr>) c)"
    by (rule same_results_upd) (simp add: same_answer_def)
  then show ?case using 2 by (auto split: if_splits intro: same_results_trans)
qed simp

lemma kernel_wrote_step: "same_results c (kernel_wrote w c)"
  by (simp add: kernel_wrote_def same_results_upd same_answer_def split: prod.split)

lemma kernel_wrote_results: "same_results c (fold kernel_wrote ws c)"
  by (induction ws arbitrary: c) (auto intro: same_results_trans kernel_wrote_step)

lemma kernel_wrote_inv: "usb_inv c \<Longrightarrow> usb_inv (fold kernel_wrote ws c)"
proof (induction ws arbitrary: c)
  case (Cons w ws)
  have "usb_inv (kernel_wrote w c)"
    using Cons.prems by (auto simp: kernel_wrote_def unseen_def intro!: inv_upd split: prod.split)
  then show ?case using Cons.IH by simp
qed simp

section \<open>A statement about results\<close>

locale results_kept = transfer_callback cb for cb +
  fixes P :: "usb_ctx \<Rightarrow> bool"
  assumes P_same: "P c \<Longrightarrow> same_results c d \<Longrightarrow> usb_inv d \<Longrightarrow> P d"
    and P_completion: "P c \<Longrightarrow> usb_inv c \<Longrightarrow> i \<in> set (flying c) \<Longrightarrow> tp_urbs (transfer c i) = None \<Longrightarrow>
      P (usbi_handle_transfer_completion cb i status c)"
begin

lemma kept_reap_loop: "usb_inv c \<Longrightarrow> P c \<Longrightarrow> P (snd (reap_loop cb us errno c))"
proof (induction us arbitrary: c)
  case (Cons ku us)
  obtain k u where ku: "ku = (k, u)" by fastforce
  let ?i = "ur_transfer u"
  show ?case
  proof (cases "reap_urb k u (transfer c ?i)")
    case (Inl r)
    then show ?thesis using Cons.prems by (simp add: ku Let_def)
  next
    case (Inr y)
    obtain x reqs result where y: "y = (x, reqs, result)" by (metis prod_cases3)
    note same = reap_urb_same [OF Inr [unfolded y]]
    let ?c = "asked ?i reqs (upd ?i (\<lambda>_. x) c)"
    have inv: "usb_inv ?c" using same Cons.prems by (intro inv_asked inv_upd) (auto simp: same_flight_def unseen_def)
    have "P ?c"
      using reap_urb_answer [OF Inr [unfolded y]] by (intro P_same [OF Cons.prems(2) _ inv] same_results_asked same_results_upd)
    moreover have "?i \<in> set (flying ?c) \<and> tp_urbs (transfer ?c ?i) = None" if "result \<noteq> None"
      using same usb_invD(4) [OF Cons.prems(1), of ?i] that by auto
    ultimately have "usb_inv d \<and> P d" if "d = (case result of None \<Rightarrow> ?c
        | Some Cancellation \<Rightarrow> usbi_handle_transfer_cancellation cb ?i ?c
        | Some (Completion status) \<Rightarrow> usbi_handle_transfer_completion cb ?i status ?c)" for d
      using inv that unfolding usbi_handle_transfer_cancellation_def
      by (auto split: option.split outcome.split intro: inv_completion P_completion)
    then show ?thesis using Cons.IH Inr y by (simp add: ku Let_def)
  qed
qed simp

lemma kept_disconnect:
  "usb_inv c \<Longrightarrow> P c \<Longrightarrow> usbi_handle_disconnect cb handle fuel c = Some d \<Longrightarrow> P d"
proof (induction fuel arbitrary: c)
  case (Suc fuel)
  obtain r c' where m: "mark_until_flying handle (flying c) c = (r, c')" by fastforce
  note c' = mark_until_flying_inv [OF Suc.prems(1) m]
  have p: "P c'" using P_same [OF Suc.prems(2) mark_results [OF m]] c' by blast
  show ?case
  proof (cases r)
    case None
    then show ?thesis using Suc.prems m p by simp
  next
    case (Some i)
    let ?c = "upd i op_clear_transfer_priv c'"
    have i: "i \<in> set (flying c')" using c' Some usb_invD(3) by blast
    have n: "tp_urbs (op_clear_transfer_priv (transfer c' i)) = None"
      using usb_invD(4) [of c' i] c' by (cases "tp_urbs (transfer c' i) = None") (simp_all add: op_clear_transfer_priv_def)
    have inv: "usb_inv ?c" using c' by (intro inv_upd) (auto simp: unseen_def op_clear_transfer_priv_def)
    have "P ?c" by (intro P_same [OF p _ inv] same_results_upd) (simp add: same_answer_def op_clear_transfer_priv_def)
    then have "P (usbi_handle_transfer_completion cb i TRANSFER_NO_DEVICE ?c)"
        "usb_inv (usbi_handle_transfer_completion cb i TRANSFER_NO_DEVICE ?c)"
      using inv i n by (auto intro: P_completion inv_completion)
    then show ?thesis using Suc.IH Suc.prems(3) m Some by simp
  qed
qed simp

lemma kept_op_handle_events:
  "usb_inv c \<Longrightarrow> P c \<Longrightarrow> op_handle_events cb fuel es c = Some (r, d) \<Longrightarrow> P d"
proof (induction es arbitrary: c)
  case (Cons e es)
  show ?case
  proof (cases e)
    case (Fd_error handle)
    then obtain c' where "usbi_handle_disconnect cb handle fuel c = Some c'" "op_handle_events cb fuel es c' = Some (r, d)"
      using Cons.prems(3) by (auto split: option.splits)
    then show ?thesis using Cons.IH inv_disconnect [OF Cons.prems(1)] kept_disconnect [OF Cons.prems(1,2)] by blast
  next
    case (Fd_urbs us errno)
    obtain r' c' where l: "reap_loop cb us errno c = (r', c')" by fastforce
    then have "usb_inv c' \<and> P c'"
      using inv_reap_loop [OF Cons.prems(1), of us errno] kept_reap_loop [OF Cons.prems(1,2), of us errno] by simp
    then show ?thesis using Cons.prems(3) Cons.IH by (auto simp: Fd_urbs l split: if_splits)
  qed
qed simp

lemma kept_events:
  assumes "usb_inv c" "P c" "libusb_handle_events_completed cb fuel ev c = Some (r, d)"
  shows "usb_inv d \<and> P d"
proof -
  let ?c = "fold kernel_wrote (sr_written ev) c"
  have inv: "usb_inv ?c" using assms(1) by (rule kernel_wrote_inv)
  have p: "P ?c" using P_same [OF assms(2) kernel_wrote_results inv] .
  have "usb_inv d" using inv_libusb_handle_events [OF inv] assms(3) by (simp add: libusb_handle_events_completed_def)
  moreover have "P (snd (handle_timeouts (sr_kernel ev) (sr_clock' ev) ?c))"
    by (rule P_same [OF p handle_timeouts_results inv_handle_timeouts [OF inv]])
  ultimately show ?thesis using assms(3) p kept_op_handle_events [OF inv p]
    by (auto simp: libusb_handle_events_completed_def libusb_handle_events_timeout_completed_def handle_events_def
      split: option.splits poll_answer.splits)
qed

lemma kept_wait:
  "usb_inv c \<Longrightarrow> P c \<Longrightarrow> sync_transfer_wait_for_completion cb fuel i rounds c = Some d \<Longrightarrow>
   usb_inv d \<and> P d \<and> i \<in> sync_completed d"
proof (induction rounds arbitrary: c)
  case (Cons ev rounds)
  show ?case
  proof (cases "i \<in> sync_completed c")
    case True
    then show ?thesis using Cons.prems by simp
  next
    case False
    then obtain r c' where e: "libusb_handle_events_completed cb fuel ev c = Some (r, c')"
      using Cons.prems(3) by (auto split: option.splits)
    note c' = kept_events [OF Cons.prems(1,2) e]
    let ?c = "snd (libusb_cancel_transfer (sr_kernel ev i) i c')"
    have "usb_inv ?c \<and> P ?c" using c' P_same cancel_results inv_cancel by blast
    then show ?thesis using Cons.prems(3) Cons.IH False e c' by (auto split: if_splits)
  qed
qed (simp split: if_splits)

end

section \<open>The awaited transfer\<close>

text \<open>What the context says about transfer \<open>i\<close> did not change.\<close>

definition same_result :: "nat \<Rightarrow> usb_ctx \<Rightarrow> usb_ctx \<Rightarrow> bool" where
  "same_result i c d \<longleftrightarrow> count_list (submitted d) i = count_list (submitted c) i \<and>
     filter (\<lambda>e. fst e = i) (reported d) = filter (\<lambda>e. fst e = i) (reported c) \<and>
     (i \<in> sync_completed d \<longleftrightarrow> i \<in> sync_completed c) \<and> same_answer (transfer c i) (transfer d i)"

definition awaited :: "nat \<Rightarrow> usb_ctx \<Rightarrow> bool" where
  "awaited i c \<longleftrightarrow> count_list (submitted c) i = 1 \<and>
     (i \<in> sync_completed c \<longrightarrow> filter (\<lambda>e. fst e = i) (reported c) \<noteq> []) \<and>
     (\<forall>e \<in> set (reported c). fst e = i \<longrightarrow> e = (i, x_status (transfer c i), x_actual_length (transfer c i)))"

lemma same_results_result: "same_results c d \<Longrightarrow> same_result i c d"
  by (simp add: same_results_def same_result_def same_answer_def)

lemma set_reported_filter: "e \<in> set l \<and> fst e = i \<longleftrightarrow> e \<in> set (filter (\<lambda>e. fst e = i) l)"
  by auto

lemma awaited_same: "awaited i c \<Longrightarrow> same_result i c d \<Longrightarrow> awaited i d"
  using set_reported_filter [of _ "reported c" i] set_reported_filter [of _ "reported d" i]
  unfolding awaited_def same_result_def same_answer_def by metis

lemma count_filter: "count_list (map fst l) i = length (filter (\<lambda>e. fst e = i) l)"
  by (induction l) auto

text \<open>A completion reports, calls the callback and gives up the device.\<close>

lemma completion_parts:
  assumes "usb_inv c" "j \<in> set (flying c)" "tp_urbs (transfer c j) = None"
  obtains e st n where "usb_inv e" "same_results (cb j e) (usbi_handle_transfer_completion cb j status c)"
    "submitted e = submitted c" "reported e = (j, st, n) # reported c" "sync_completed e = sync_completed c"
    "\<And>k. k \<noteq> j \<Longrightarrow> transfer e k = transfer c k" "x_status (transfer e j) = st" "x_actual_length (transfer e j) = n"
proof -
  let ?x = "(transfer c j)\<lparr>it_flags := insert COMPLETED (flags_of c j - {IN_FLIGHT})\<rparr>"
  let ?s = "final_status ?x status"
  define e where "e = upd j (\<lambda>_. ?x\<lparr>x_status := ?s, x_actual_length := it_transferred ?x\<rparr>) (c\<lparr>flying := remove1 j (flying c)\<rparr>)
      \<lparr>reported := (j, ?s, it_transferred ?x) # reported c\<rparr>"
  have "usb_inv e" by (rule inv_ended [OF assms]) (use assms(3) in \<open>simp_all add: e_def\<close>)
  moreover have "same_results (cb j e) (usbi_handle_transfer_completion cb j status c)"
    using assms(2)
    by (simp add: usbi_handle_transfer_completion_def Let_def remove_from_flying_present upd_def libusb_free_transfer_def
        same_results_def e_def)
  ultimately show ?thesis
    by (rule that [where st = ?s and n = "it_transferred ?x"]) (simp_all add: e_def upd_def)
qed

locale sync_client = transfer_callback client for client +
  fixes i :: nat
  assumes client_other: "usb_inv c \<Longrightarrow> j \<noteq> i \<Longrightarrow> same_result i c (client j c)"
begin

lemma sync_callbacks_inv: "usb_inv c \<Longrightarrow> usb_inv (sync_callbacks client i j c)"
  by (cases "j = i") (auto simp: sync_callbacks_def sync_transfer_cb_def unseen_def intro: cb_inv inv_unseen)

lemma awaited_completion:
  assumes a: "awaited i c" and inv: "usb_inv c" and j: "j \<in> set (flying c)" "tp_urbs (transfer c j) = None"
  shows "awaited i (usbi_handle_transfer_completion (sync_callbacks client i) j status c)" (is "awaited i ?d")
proof -
  obtain e st n where e: "usb_inv e" "same_results (sync_callbacks client i j e) ?d"
      "submitted e = submitted c" "reported e = (j, st, n) # reported c" "sync_completed e = sync_completed c"
      "\<And>k. k \<noteq> j \<Longrightarrow> transfer e k = transfer c k" "x_status (transfer e j) = st" "x_actual_length (transfer e j) = n"
    using completion_parts [OF inv j, where cb = "sync_callbacks client i" and status = status] by metis
  have "awaited i (sync_callbacks client i j e)"
  proof (cases "j = i")
    case True
    have "filter (\<lambda>e. fst e = i) (reported c) = []"
      using usb_invD(5) [OF inv, of i] a j True by (simp add: awaited_def count_filter)
    then have "\<not> (r \<in> set (reported c) \<and> fst r = i)" for r by (simp add: set_reported_filter)
    then show ?thesis using a True e by (auto simp: awaited_def sync_callbacks_def sync_transfer_cb_def)
  next
    case False
    then have "same_result i c e" using e(3-6) by (simp add: same_result_def same_answer_def)
    then have "awaited i e" using a awaited_same by blast
    then show ?thesis using False client_other [OF e(1)] awaited_same by (simp add: sync_callbacks_def)
  qed
  then show ?thesis using e(2) awaited_same same_results_result by blast
qed

end

sublocale sync_client \<subseteq> results_kept "sync_callbacks client i" "awaited i"
  by unfold_locales (auto intro: sync_callbacks_inv awaited_completion awaited_same same_results_result)

context sync_client begin

lemma awaited_answer:
  assumes "usb_inv c" "awaited i c" "sync_transfer_wait_for_completion (sync_callbacks client i) fuel i rounds c = Some d"
  shows "usb_inv d" "i \<notin> set (flying d)"
    "filter (\<lambda>e. fst e = i) (reported d) = [(i, x_status (transfer d i), x_actual_length (transfer d i))]"
proof -
  have d: "usb_inv d" "awaited i d" "i \<in> sync_completed d" using kept_wait [OF assms] by auto
  then show "usb_inv d" by simp
  let ?l = "filter (\<lambda>e. fst e = i) (reported d)"
  have "?l \<noteq> []" "1 = length ?l + of_bool (i \<in> set (flying d))"
    using d usb_invD(5) [OF d(1), of i] by (simp_all add: awaited_def count_filter)
  then have l: "length ?l = 1" and "i \<notin> set (flying d)" by (cases ?l; auto split: if_splits)+
  then show "i \<notin> set (flying d)" by simp
  obtain e where e: "?l = [e]" using l by (auto simp: length_Suc_conv)
  then have "e \<in> set (reported d) \<and> fst e = i" by (simp add: set_reported_filter)
  then show "?l = [(i, x_status (transfer d i), x_actual_length (transfer d i))]"
    using d(2) e by (auto simp: awaited_def)
qed

end

section \<open>Submission\<close>

lemma submit_bulk_answer: "submit_bulk_transfer k x = (r, reqs, y) \<Longrightarrow> r \<le> 0 \<and> same_answer x y"
  by (auto simp: submit_bulk_transfer_def same_answer_def Let_def usb_errors split: if_splits prod.splits option.splits)

lemma submit_iso_answer: "submit_iso_transfer k x = (r, reqs, y) \<Longrightarrow> r \<le> 0 \<and> same_answer x y"
  by (auto simp: submit_iso_transfer_def same_answer_def Let_def usb_errors split: if_splits prod.splits option.splits)

lemma op_submit_answer: "op_submit_transfer k x = (r, reqs, y) \<Longrightarrow> r \<le> 0 \<and> same_answer x y"
  using submit_bulk_answer submit_iso_answer
  by (auto simp: op_submit_transfer_def submit_control_transfer_def same_answer_def Let_def usb_errors split: if_splits)

text \<open>What a submission of transfer \<open>j\<close> leaves alone.\<close>

definition only_submits :: "nat \<Rightarrow> int \<Rightarrow> usb_ctx \<Rightarrow> usb_ctx \<Rightarrow> bool" where
  "only_submits j r c d \<longleftrightarrow> r \<le> 0 \<and> submitted d = (if r = 0 then j # submitted c else submitted c) \<and>
     reported d = reported c \<and> sync_completed d = sync_completed c \<and> (\<forall>k. k \<noteq> j \<longrightarrow> transfer d k = transfer c k) \<and>
     same_answer (transfer c j) (transfer d j)"

lemma remove_from_flying_simps:
  "submitted (remove_from_flying_list j c) = submitted c" "reported (remove_from_flying_list j c) = reported c"
  "sync_completed (remove_from_flying_list j c) = sync_completed c"
  "k \<noteq> j \<Longrightarrow> transfer (remove_from_flying_list j c) k = transfer c k"
  "same_answer x (transfer (remove_from_flying_list j c) j) = same_answer x (transfer c j)"
  by (simp_all add: remove_from_flying_list_def upd_def same_answer_def)

lemma sync_completed_simps:
  "sync_completed (upd j f c) = sync_completed c" "sync_completed (asked j reqs c) = sync_completed c"
  "sync_completed (ref_device n j c) = sync_completed c" "sync_completed (add_to_flying_list j c) = sync_completed c"
  by (simp_all add: upd_def asked_def ref_device_def add_to_flying_list_def Let_def)

lemma clear_priv_answer: "same_answer x (op_clear_transfer_priv y) = same_answer x y"
  by (simp add: op_clear_transfer_priv_def same_answer_def)

lemma submit_only:
  assumes "libusb_submit_transfer clock k gone j c = (r, d)"
  shows "only_submits j r c d"
proof (cases "IN_FLIGHT \<in> flags_of c j")
  case True
  then show ?thesis using assms by (auto simp: libusb_submit_transfer_def only_submits_def usb_errors same_answer_def)
next
  case False
  let ?x0 = "(transfer c j)\<lparr>it_transferred := 0, it_flags := {}\<rparr>"
  obtain q x where x: "calculate_timeout clock ?x0 = (q, x)" by fastforce
  then have sx: "same_answer (transfer c j) x"
    by (auto simp: calculate_timeout_def same_answer_def Let_def split: if_splits option.splits)
  show ?thesis
  proof (cases "q < 0")
    case True
    then show ?thesis using assms False x sx
      by (auto simp: libusb_submit_transfer_def only_submits_def usb_errors sync_completed_simps)
  next
    case q: False
    obtain r' reqs y where y: "op_submit_transfer k (x\<lparr>it_flags := insert SUBMITTING (it_flags x)\<rparr>) = (r', reqs, y)"
      by (metis prod_cases3)
    then have r: "r' \<le> 0" "same_answer (transfer c j) (y\<lparr>it_flags := fs\<rparr>)" for fs
      using op_submit_answer [OF y] sx by (auto simp: same_answer_def)
    show ?thesis using assms False x q y r
      by (auto simp: libusb_submit_transfer_def only_submits_def Let_def usb_errors sync_completed_simps
          remove_from_flying_simps clear_priv_answer split: if_splits)
  qed
qed

lemma resubmitting_other: "j \<noteq> i \<Longrightarrow> same_result i c (resubmitting clock k j c)"
  using submit_only [of clock k False j c]
  by (auto simp: resubmitting_def same_result_def only_submits_def same_answer_def prod_eq_iff split: if_splits)

interpretation sync_streaming: sync_client "resubmitting clock k" i for clock k i
  by unfold_locales (simp add: resubmitting_other)

section \<open>Answers\<close>

text \<open>A new transfer is submitted: it is awaited, or the submission failed and it is idle.\<close>

definition new_transfer :: "nat \<Rightarrow> usb_ctx \<Rightarrow> bool" where
  "new_transfer i c \<longleftrightarrow> usb_inv c \<and> i \<notin> set (submitted c) \<and> i \<notin> sync_completed c"

lemma new_transfer_submitted:
  assumes "new_transfer i c" "IN_FLIGHT \<notin> it_flags x" "tp_urbs x = None"
    "libusb_submit_transfer clock k gone i (upd i (\<lambda>_. x) c) = (r, d)"
  shows "usb_inv d" "r = 0 \<Longrightarrow> awaited i d" "r \<noteq> 0 \<Longrightarrow> r < 0 \<and> i \<notin> set (flying d) \<and> reported d = reported c"
proof -
  note n = assms(1) [unfolded new_transfer_def]
  have z: "count_list (submitted c) i = 0" using n by (simp add: count_list_0_iff)
  then have f: "i \<notin> set (flying c)" "filter (\<lambda>e. fst e = i) (reported c) = []"
    using usb_invD(5) [of c i] n by (auto simp: count_filter)
  have "usb_inv (upd i (\<lambda>_. x) c)" using n f(1) assms(2,3) by (blast intro: inv_idle)
  then have "usb_inv (snd (libusb_submit_transfer clock k gone i (upd i (\<lambda>_. x) c)))" by (rule inv_submit)
  then show inv: "usb_inv d" by (simp add: assms(4))
  note o = submit_only [OF assms(4), unfolded only_submits_def upd_simps sync_completed_simps]
  have "\<not> (e \<in> set (reported c) \<and> fst e = i)" for e using f(2) by (simp add: set_reported_filter)
  then show "awaited i d" if "r = 0" using o that n z by (auto simp: awaited_def)
  show "r < 0 \<and> i \<notin> set (flying d) \<and> reported d = reported c" if "r \<noteq> 0"
    using o that z usb_invD(5) [OF inv, of i] by (auto split: if_splits)
qed

lemma inv_freed: "usb_inv c \<Longrightarrow> usb_inv (libusb_free_transfer i c)"
  by (erule inv_unseen) (simp_all add: libusb_free_transfer_def unseen_def)

lemma inv_copy_answer: "usb_inv c \<Longrightarrow> usb_inv (snd (copy_answer i data c))"
  by (auto simp: copy_answer_def Let_def unseen_def intro: inv_upd)

lemma copy_answer_simps:
  assumes "copy_answer i data c = (data', d)"
  shows "flying d = flying c" "reported d = reported c" "x_status (transfer d i) = x_status (transfer c i)"
    "x_actual_length (transfer d i) = x_actual_length (transfer c i)" "x_buffer (transfer d i) = x_buffer (transfer c i)"
    "x_ub (transfer d i) \<or> data' = take (x_actual_length (transfer c i)) (drop CONTROL_SETUP_SIZE (x_buffer (transfer c i))) @
       drop (x_actual_length (transfer c i)) data"
  using assms by (auto simp: copy_answer_def Let_def split: if_splits)

lemma freed_simps:
  "flying (libusb_free_transfer i c) = flying c" "reported (libusb_free_transfer i c) = reported c"
  "transfer (libusb_free_transfer i c) = transfer c" "freed (libusb_free_transfer i c) = i # freed c"
  by (simp_all add: libusb_free_transfer_def)

lemma alloc_idle:
  "it_flags (libusb_fill_control_transfer h b t (libusb_alloc_transfer n)\<lparr>x_flags := fs\<rparr>) = {}"
  "tp_urbs (libusb_fill_control_transfer h b t (libusb_alloc_transfer n)\<lparr>x_flags := fs\<rparr>) = None"
  "it_flags (libusb_fill_bulk_transfer h e b l t (libusb_alloc_transfer n)\<lparr>x_type := ty\<rparr>) = {}"
  "tp_urbs (libusb_fill_bulk_transfer h e b l t (libusb_alloc_transfer n)\<lparr>x_type := ty\<rparr>) = None"
  by (simp_all add: libusb_fill_control_transfer_def libusb_fill_bulk_transfer_def libusb_alloc_transfer_def)

text \<open>
  C16. A synchronous control transfer returns only when its transfer is no longer in flight, so that freeing it is safe, even
  while the events of other transfers, which their callback submits again, are handled inside of it. Either the submission
  failed, with an error and nothing reported; or one result was reported, and the function returns its length or the error for its status,
  and for a read the data behind the setup packet.\<close>

theorem usb_control_answer:
  assumes "new_transfer i c"
    "libusb_control_transfer (resubmitting clock0 k0) fuel clock k gone rounds i handle requesttype req wValue wIndex data wLength
       timeout c = Some (r, data', d)"
  shows "usb_inv d \<and> i \<notin> set (flying d) \<and> i \<in> set (freed d) \<and>
    (r < 0 \<and> data' = data \<and> reported d = reported c \<or>
     (\<exists>st n. filter (\<lambda>e. fst e = i) (reported d) = [(i, st, n)] \<and>
       r = (if st = TRANSFER_COMPLETED then int n else status_error st) \<and>
       (x_ub (transfer d i) \<or>
        data' = (if bit requesttype 7 then take n (drop CONTROL_SETUP_SIZE (x_buffer (transfer d i))) @ drop n data else data))))"
proof -
  define x where "x = (libusb_fill_control_transfer handle (libusb_fill_control_setup requesttype req wValue wIndex wLength @
      (if \<not> bit requesttype 7 then take (unat wLength) data else replicate (unat wLength) 0)) timeout
      (libusb_alloc_transfer 0))\<lparr>x_flags := {FREE_BUFFER}\<rparr>"
  have x: "IN_FLIGHT \<notin> it_flags x" "tp_urbs x = None" by (simp_all add: x_def alloc_idle)
  obtain q e where s: "libusb_submit_transfer clock k gone i (upd i (\<lambda>_. x) c) = (q, e)" by fastforce
  note sub = new_transfer_submitted [OF assms(1) x s]
  note run = assms(2) [unfolded libusb_control_transfer_def Let_def x_def [symmetric] s prod.case]
  show ?thesis
  proof (cases "q = 0")
    case False
    then show ?thesis using run sub inv_freed [OF sub(1), of i] by (auto simp: freed_simps)
  next
    case True
    then obtain f where w: "sync_transfer_wait_for_completion (sync_callbacks (resubmitting clock0 k0) i) fuel i rounds e = Some f"
      using run by (auto split: option.splits)
    note f = sync_streaming.awaited_answer [OF sub(1) sub(2) [OF True] w]
    obtain data2 g where g: "(if bit requesttype 7 then copy_answer i data f else (data, f)) = (data2, g)" by fastforce
    have d: "data' = data2" "d = libusb_free_transfer i g"
        "r = (if x_status (transfer g i) = TRANSFER_COMPLETED then int (x_actual_length (transfer g i))
              else status_error (x_status (transfer g i)))"
      using run True w g by auto
    have "usb_inv g" using inv_copy_answer [OF f(1), of i data] f(1) g by (auto split: if_splits)
    then have "usb_inv d" by (simp add: d(2) inv_freed)
    then show ?thesis using f g copy_answer_simps [of i data f data2 g] unfolding d freed_simps
      by (auto split: if_splits)
  qed
qed

text \<open>
  For the example: while transfer 0 streams, transfer 5 reads two bytes. First a URB of the stream comes back and is
  submitted again, then the answer with its two bytes.
\<close>

definition example_rounds :: "sync_round list" where
  "example_rounds =
     [\<lparr>sr_kernel = (\<lambda>i. willing), sr_clock = Some (7, 0), sr_clock' = Some (7, 0), sr_written = [(0, 0, [1, 2])],
       sr_poll = (\<lambda>tv. Poll_ready [Fd_urbs [urb_back 0 0 2] 11])\<rparr>,
      \<lparr>sr_kernel = (\<lambda>i. willing), sr_clock = Some (7, 0), sr_clock' = Some (7, 0), sr_written = [(5, 8, [0xAB, 0xCD])],
       sr_poll = (\<lambda>tv. Poll_ready [Fd_urbs [urb_back 5 0 2] 11])\<rparr>]"

definition streaming_ctx :: usb_ctx where
  "streaming_ctx = snd (libusb_submit_transfer (Some (7, 0)) willing False 0 (usb_start two_transfers))"

lemma streaming_ctx_new: "new_transfer 5 streaming_ctx"
proof -
  have "usb_inv streaming_ctx" unfolding streaming_ctx_def by (intro inv_submit usb_start_inv)
  moreover have "submitted streaming_ctx = [0]" "sync_completed streaming_ctx = {}" by code_simp+
  ultimately show ?thesis by (simp add: new_transfer_def)
qed

lemma example_read:
  "map_option (\<lambda>(r, data, ctx). (r, data, flying ctx, reported ctx))
     (libusb_control_transfer (resubmitting (Some (7, 0)) willing) 3 (Some (7, 0)) willing False example_rounds 5
        0 0xC0 0 0 0 [0, 0] 2 300 streaming_ctx) =
   Some (2, [0xAB, 0xCD], [0], [(5, TRANSFER_COMPLETED, 2), (0, TRANSFER_COMPLETED, 2)])"
  by code_simp

theorem usb_control_answer_witness:
  "\<exists>ctx. libusb_control_transfer (resubmitting (Some (7, 0)) willing) 3 (Some (7, 0)) willing False example_rounds 5
      0 0xC0 0 0 0 [0, 0] 2 300 streaming_ctx = Some (2, [0xAB, 0xCD], ctx) \<and>
    5 \<notin> set (flying ctx) \<and> (\<exists>st n. filter (\<lambda>e. fst e = 5) (reported ctx) = [(5, st, n)])"
proof -
  obtain ctx where r: "libusb_control_transfer (resubmitting (Some (7, 0)) willing) 3 (Some (7, 0)) willing False example_rounds 5
      0 0xC0 0 0 0 [0, 0] 2 300 streaming_ctx = Some (2, [0xAB, 0xCD], ctx)"
    using example_read by auto
  show ?thesis using usb_control_answer [OF streaming_ctx_new r] r by auto
qed

text \<open>The same for bulk and interrupt transfers; the length is given back apart from the result.\<close>

lemma usb_bulk_answer:
  assumes "new_transfer i c"
    "do_sync_bulk_transfer (resubmitting clock0 k0) fuel clock k gone rounds i handle endpoint buffer len timeout type c =
       Some (r, transferred, buffer', d)"
  shows "usb_inv d \<and> i \<notin> set (flying d) \<and> i \<in> set (freed d) \<and>
    (r < 0 \<and> transferred = None \<and> reported d = reported c \<or>
     (\<exists>st n. filter (\<lambda>e. fst e = i) (reported d) = [(i, st, n)] \<and> transferred = Some n \<and> r = status_error st))"
proof -
  define x where "x = (libusb_fill_bulk_transfer handle endpoint buffer len timeout (libusb_alloc_transfer 0))\<lparr>x_type := type\<rparr>"
  have x: "IN_FLIGHT \<notin> it_flags x" "tp_urbs x = None" by (simp_all add: x_def alloc_idle)
  obtain q e where s: "libusb_submit_transfer clock k gone i (upd i (\<lambda>_. x) c) = (q, e)" by fastforce
  note sub = new_transfer_submitted [OF assms(1) x s]
  note run = assms(2) [unfolded do_sync_bulk_transfer_def Let_def x_def [symmetric] s prod.case]
  show ?thesis
  proof (cases "q = 0")
    case False
    then show ?thesis using run sub inv_freed [OF sub(1), of i] by (auto simp: freed_simps)
  next
    case True
    then obtain f where w: "sync_transfer_wait_for_completion (sync_callbacks (resubmitting clock0 k0) i) fuel i rounds e = Some f"
      using run by (auto split: option.splits)
    note f = sync_streaming.awaited_answer [OF sub(1) sub(2) [OF True] w]
    then show ?thesis using run True w inv_freed [OF f(1), of i] by (auto simp: freed_simps)
  qed
qed

text \<open>A request that the backend refuses: a data stage of more than 4096 bytes.\<close>

lemma setup_wLength_eq: "setup_wLength (libusb_fill_control_setup t req v ix wLength @ rest) = wLength"
  by (rule bit_word_eqI)
    (auto simp: setup_wLength_def libusb_fill_control_setup_def bit_or_iff bit_push_bit_iff bit_ucast_iff bit_drop_bit_eq)

lemma usb_control_too_long:
  assumes "unat wLength > MAX_CTRL_BUFFER_LENGTH" "timeout = 0" "new_transfer i c"
  shows "\<exists>d. libusb_control_transfer client fuel clock k gone rounds i handle requesttype req wValue wIndex data wLength timeout c =
    Some (LIBUSB_ERROR_INVALID_PARAM, data, d)"
  using assms
  by (simp add: libusb_control_transfer_def libusb_submit_transfer_def calculate_timeout_def libusb_fill_control_transfer_def
      libusb_alloc_transfer_def setup_wLength_eq op_submit_transfer_def submit_control_transfer_def usb_errors Let_def)

end
