(* ===== verification/UsbDesc.thy ===== *)
theory UsbDesc
  imports UsbTypes
begin

text \<open>
  The descriptor parser of the bundled libusb (\<open>libusb/descriptor.c\<close>). A buffer with its \<open>size\<close> is the list of the bytes
  that remain; every read goes through \<open>usbi_parse_descriptor\<close>, which gives \<open>None\<close> for a read behind
  the end. The host is little endian, so that \<open>host_endian\<close> makes no difference, and \<open>malloc\<close> succeeds. A
  function of the source returns its error code (\<open>Inl\<close>) or its result (\<open>Inr\<close>).
\<close>

section \<open>Constants\<close>


definition DESC_HEADER_LENGTH :: nat where "DESC_HEADER_LENGTH = 2"
definition CONFIG_DESC_LENGTH :: nat where "CONFIG_DESC_LENGTH = 9"
definition INTERFACE_DESC_LENGTH :: nat where "INTERFACE_DESC_LENGTH = 9"
definition ENDPOINT_DESC_LENGTH :: nat where "ENDPOINT_DESC_LENGTH = 7"
definition ENDPOINT_AUDIO_DESC_LENGTH :: nat where "ENDPOINT_AUDIO_DESC_LENGTH = 9"
definition USB_MAXENDPOINTS :: nat where "USB_MAXENDPOINTS = 32"
definition USB_MAXINTERFACES :: nat where "USB_MAXINTERFACES = 32"

definition DT_DEVICE :: nat where "DT_DEVICE = 1"
definition DT_CONFIG :: nat where "DT_CONFIG = 2"
definition DT_STRING :: nat where "DT_STRING = 3"
definition DT_INTERFACE :: nat where "DT_INTERFACE = 4"
definition DT_ENDPOINT :: nat where "DT_ENDPOINT = 5"
definition DT_BOS :: nat where "DT_BOS = 15"
definition DT_DEVICE_CAPABILITY :: nat where "DT_DEVICE_CAPABILITY = 16"
definition DT_SS_ENDPOINT_COMPANION :: nat where "DT_SS_ENDPOINT_COMPANION = 48"
definition SS_ENDPOINT_COMPANION_SIZE :: nat where "SS_ENDPOINT_COMPANION_SIZE = 6"
definition BOS_SIZE :: nat where "BOS_SIZE = 5"
definition DEVICE_CAPABILITY_SIZE :: nat where "DEVICE_CAPABILITY_SIZE = 3"

lemmas usb_constants = usb_errors
  DESC_HEADER_LENGTH_def CONFIG_DESC_LENGTH_def INTERFACE_DESC_LENGTH_def ENDPOINT_DESC_LENGTH_def
  ENDPOINT_AUDIO_DESC_LENGTH_def USB_MAXENDPOINTS_def USB_MAXINTERFACES_def
  DT_DEVICE_def DT_CONFIG_def DT_STRING_def DT_INTERFACE_def DT_ENDPOINT_def DT_BOS_def
  DT_DEVICE_CAPABILITY_def DT_SS_ENDPOINT_COMPANION_def SS_ENDPOINT_COMPANION_SIZE_def BOS_SIZE_def
  DEVICE_CAPABILITY_SIZE_def

section \<open>Fields\<close>

fun le_nat :: "u8 list \<Rightarrow> nat" where
  "le_nat [] = 0"
| "le_nat (b # bs) = unat b + 256 * le_nat bs"

definition field_width :: "char \<Rightarrow> nat" where
  "field_width c = (if c = CHR ''b'' then 1 else if c = CHR ''w'' then 2 else if c = CHR ''d'' then 4
     else if c = CHR ''u'' then 16 else 0)"

text \<open>The fields of a descriptor in the order of the format, each as a number.\<close>

fun usbi_parse_descriptor :: "u8 list \<Rightarrow> string \<Rightarrow> nat list option" where
  "usbi_parse_descriptor source [] = Some []"
| "usbi_parse_descriptor source (c # cp) =
     (let n = field_width c in
        if length source < n then None
        else case usbi_parse_descriptor (drop n source) cp of
          None \<Rightarrow> None
        | Some vs \<Rightarrow> Some (if n = 0 then vs else le_nat (take n source) # vs))"

section \<open>Structures\<close>

record usb_endpoint =
  ep_bLength :: nat
  ep_bDescriptorType :: nat
  ep_bEndpointAddress :: nat
  ep_bmAttributes :: nat
  ep_wMaxPacketSize :: nat
  ep_bInterval :: nat
  ep_bRefresh :: nat
  ep_bSynchAddress :: nat
  ep_extra :: "u8 list"

text \<open>\<open>endpoint\<close> is \<open>None\<close> for the NULL pointer.\<close>

record usb_altsetting =
  if_bLength :: nat
  if_bDescriptorType :: nat
  if_bInterfaceNumber :: nat
  if_bAlternateSetting :: nat
  if_bNumEndpoints :: nat
  if_bInterfaceClass :: nat
  if_bInterfaceSubClass :: nat
  if_bInterfaceProtocol :: nat
  if_iInterface :: nat
  if_endpoint :: "usb_endpoint list option"
  if_extra :: "u8 list"

record usb_config =
  cf_bLength :: nat
  cf_bDescriptorType :: nat
  cf_wTotalLength :: nat
  cf_bNumInterfaces :: nat
  cf_bConfigurationValue :: nat
  cf_iConfiguration :: nat
  cf_bmAttributes :: nat
  cf_MaxPower :: nat
  cf_interface :: "usb_altsetting list list"
  cf_extra :: "u8 list"

text \<open>The fields of a shorter format leave the zeros of \<open>memset\<close>.\<close>

definition endpoint_of :: "nat list \<Rightarrow> usb_endpoint" where
  "endpoint_of v = \<lparr>ep_bLength = v ! 0, ep_bDescriptorType = v ! 1, ep_bEndpointAddress = v ! 2,
     ep_bmAttributes = v ! 3, ep_wMaxPacketSize = v ! 4, ep_bInterval = v ! 5,
     ep_bRefresh = (if length v > 6 then v ! 6 else 0),
     ep_bSynchAddress = (if length v > 7 then v ! 7 else 0), ep_extra = []\<rparr>"

definition altsetting_of :: "nat list \<Rightarrow> usb_altsetting" where
  "altsetting_of v = \<lparr>if_bLength = v ! 0, if_bDescriptorType = v ! 1, if_bInterfaceNumber = v ! 2,
     if_bAlternateSetting = v ! 3, if_bNumEndpoints = v ! 4, if_bInterfaceClass = v ! 5,
     if_bInterfaceSubClass = v ! 6, if_bInterfaceProtocol = v ! 7, if_iInterface = v ! 8,
     if_endpoint = None, if_extra = []\<rparr>"

definition config_of :: "nat list \<Rightarrow> usb_config" where
  "config_of v = \<lparr>cf_bLength = v ! 0, cf_bDescriptorType = v ! 1, cf_wTotalLength = v ! 2,
     cf_bNumInterfaces = v ! 3, cf_bConfigurationValue = v ! 4, cf_iConfiguration = v ! 5,
     cf_bmAttributes = v ! 6, cf_MaxPower = v ! 7, cf_interface = [], cf_extra = []\<rparr>"

definition no_endpoint :: usb_endpoint where
  "no_endpoint = endpoint_of (replicate 8 0)"

section \<open>Skipping\<close>

text \<open>
  The loop that all three parsers have over class and vendor descriptors, from \<open>n\<close> bytes skipped: a
  descriptor of invalid length, one that is cut off, or the number of bytes before a standard descriptor
  or the end.
\<close>

definition proper :: "nat \<Rightarrow> bool" where
  "proper t \<longleftrightarrow> t = DT_ENDPOINT \<or> t = DT_INTERFACE \<or> t = DT_CONFIG \<or> t = DT_DEVICE"

datatype skip = Outside | Invalid | Truncated nat | Skipped nat

function skip_descriptors :: "u8 list \<Rightarrow> nat \<Rightarrow> skip" where
  "skip_descriptors buffer n =
     (if length buffer < DESC_HEADER_LENGTH then Skipped n
      else case usbi_parse_descriptor buffer ''bb'' of
        None \<Rightarrow> Outside
      | Some header \<Rightarrow>
          let bLength = header ! 0 in
          if bLength < DESC_HEADER_LENGTH then Invalid
          else if bLength > length buffer then Truncated n
          else if proper (header ! 1) then Skipped n
          else skip_descriptors (drop bLength buffer) (n + bLength))"
  by pat_completeness auto
termination
  by (relation "measure (\<lambda>(buffer, n). length buffer)") (auto simp: DESC_HEADER_LENGTH_def)

section \<open>Endpoints\<close>

text \<open>The result \<open>r\<close> (an error, 0 for none, or the bytes consumed) and the structure.\<close>

definition parse_endpoint :: "u8 list \<Rightarrow> (int \<times> usb_endpoint) option" where
  "parse_endpoint buffer =
     (if length buffer < DESC_HEADER_LENGTH then Some (LIBUSB_ERROR_IO, no_endpoint)
      else case usbi_parse_descriptor buffer ''bb'' of
        None \<Rightarrow> None
      | Some header \<Rightarrow>
          let bLength = header ! 0 in
          if header ! 1 \<noteq> DT_ENDPOINT then Some (0, no_endpoint)
          else if bLength > length buffer then Some (0, no_endpoint)
          else if bLength < ENDPOINT_DESC_LENGTH then Some (LIBUSB_ERROR_IO, no_endpoint)
          else case usbi_parse_descriptor buffer
                (if bLength \<ge> ENDPOINT_AUDIO_DESC_LENGTH then ''bbbbwbbb'' else ''bbbbwb'') of
            None \<Rightarrow> None
          | Some v \<Rightarrow>
              let endpoint = endpoint_of v; rest = drop bLength buffer in
              case skip_descriptors rest 0 of
                Outside \<Rightarrow> None
              | Invalid \<Rightarrow> Some (LIBUSB_ERROR_IO, endpoint)
              | Truncated n \<Rightarrow> Some (int (bLength + n), endpoint)
              | Skipped n \<Rightarrow> Some (int (bLength + n), endpoint\<lparr>ep_extra := take n rest\<rparr>))"

text \<open>The endpoints of an alternate setting, up to the first that is none, and the bytes they take.\<close>

fun parse_endpoints :: "nat \<Rightarrow> u8 list \<Rightarrow> (int + usb_endpoint list \<times> nat) option" where
  "parse_endpoints 0 buffer = Some (Inr ([], 0))"
| "parse_endpoints (Suc k) buffer = (case parse_endpoint buffer of
     None \<Rightarrow> None
   | Some (r, endpoint) \<Rightarrow>
       if r < 0 then Some (Inl r)
       else if r = 0 then Some (Inr ([], 0))
       else case parse_endpoints k (drop (nat r) buffer) of
         None \<Rightarrow> None
       | Some (Inl e) \<Rightarrow> Some (Inl e)
       | Some (Inr (endpoints, n)) \<Rightarrow> Some (Inr (endpoint # endpoints, nat r + n)))"

section \<open>Interfaces\<close>

text \<open>
  The rest of an alternate setting after its header: the skipped descriptors and the endpoints. The
  result says whether the loop may go on (it ends at a descriptor that is cut off), and the bytes consumed.
\<close>

definition parse_altsetting :: "usb_altsetting \<Rightarrow> u8 list \<Rightarrow> (int + bool \<times> usb_altsetting \<times> nat) option" where
  "parse_altsetting ifp buffer = (case skip_descriptors buffer 0 of
     Outside \<Rightarrow> None
   | Invalid \<Rightarrow> Some (Inl LIBUSB_ERROR_IO)
   | Truncated n \<Rightarrow> Some (Inr (False, ifp, n))
   | Skipped n \<Rightarrow>
       let ifp = ifp\<lparr>if_extra := take n buffer\<rparr> in
       if if_bNumEndpoints ifp > 0 then
         (case parse_endpoints (if_bNumEndpoints ifp) (drop n buffer) of
            None \<Rightarrow> None
          | Some (Inl r) \<Rightarrow> Some (Inl r)
          | Some (Inr (endpoints, m)) \<Rightarrow>
              Some (Inr (True, ifp\<lparr>if_endpoint := Some endpoints, if_bNumEndpoints := length endpoints\<rparr>, n + m)))
       else Some (Inr (True, ifp, n)))"

text \<open>\<open>None\<close> as interface number is the initial -1. The result: the bytes parsed and the settings.\<close>

function parse_interface ::
    "nat option \<Rightarrow> nat \<Rightarrow> usb_altsetting list \<Rightarrow> u8 list \<Rightarrow> (int + nat \<times> usb_altsetting list) option" where
  "parse_interface interface_number parsed altsetting buffer =
     (if length buffer < INTERFACE_DESC_LENGTH then Some (Inr (parsed, altsetting))
      else case usbi_parse_descriptor buffer ''bbbbbbbbb'' of
        None \<Rightarrow> None
      | Some v \<Rightarrow>
          let ifp = altsetting_of v; bLength = if_bLength ifp in
          if if_bDescriptorType ifp \<noteq> DT_INTERFACE then Some (Inr (parsed, altsetting))
          else if bLength < INTERFACE_DESC_LENGTH then Some (Inl LIBUSB_ERROR_IO)
          else if bLength > length buffer then Some (Inr (parsed, altsetting))
          else if if_bNumEndpoints ifp > USB_MAXENDPOINTS then Some (Inl LIBUSB_ERROR_IO)
          else
            let number = (case interface_number of None \<Rightarrow> if_bInterfaceNumber ifp | Some k \<Rightarrow> k) in
            case parse_altsetting ifp (drop bLength buffer) of
              None \<Rightarrow> None
            | Some (Inl r) \<Rightarrow> Some (Inl r)
            | Some (Inr (False, ifp, n)) \<Rightarrow> Some (Inr (parsed + bLength + n, altsetting @ [ifp]))
            | Some (Inr (True, ifp, n)) \<Rightarrow>
                let buffer' = drop (bLength + n) buffer; altsetting = altsetting @ [ifp];
                    parsed = parsed + bLength + n in
                if length buffer' < INTERFACE_DESC_LENGTH then Some (Inr (parsed, altsetting))
                else case usbi_parse_descriptor buffer' ''bbb'' of
                  None \<Rightarrow> None
                | Some next \<Rightarrow>
                    if next ! 1 \<noteq> DT_INTERFACE \<or> next ! 2 \<noteq> number then Some (Inr (parsed, altsetting))
                    else parse_interface (Some number) parsed altsetting buffer')"
  by pat_completeness auto
termination
  by (relation "measure (\<lambda>(i, p, a, buffer). length buffer)") (auto simp: INTERFACE_DESC_LENGTH_def)

section \<open>Configurations\<close>

text \<open>The interfaces that remain to be parsed, the extra bytes so far; the result with the bytes left.\<close>

fun parse_interfaces :: "nat \<Rightarrow> u8 list \<Rightarrow> u8 list \<Rightarrow> (int + usb_altsetting list list \<times> u8 list \<times> u8 list) option" where
  "parse_interfaces 0 extra buffer = Some (Inr ([], extra, buffer))"
| "parse_interfaces (Suc k) extra buffer = (case skip_descriptors buffer 0 of
     Outside \<Rightarrow> None
   | Invalid \<Rightarrow> Some (Inl LIBUSB_ERROR_IO)
   | Truncated n \<Rightarrow> Some (Inr ([], extra, drop n buffer))
   | Skipped n \<Rightarrow>
       let extra = (if extra = [] then take n buffer else extra); buffer = drop n buffer in
       case parse_interface None 0 [] buffer of
         None \<Rightarrow> None
       | Some (Inl r) \<Rightarrow> Some (Inl r)
       | Some (Inr (r, altsetting)) \<Rightarrow>
           if r = 0 then Some (Inr ([], extra, buffer))
           else case parse_interfaces k extra (drop r buffer) of
             None \<Rightarrow> None
           | Some (Inl e) \<Rightarrow> Some (Inl e)
           | Some (Inr (interfaces, extra, rest)) \<Rightarrow> Some (Inr (altsetting # interfaces, extra, rest)))"

text \<open>The configuration, and the bytes that are left (\<open>size\<close> at the end).\<close>

definition parse_configuration :: "u8 list \<Rightarrow> (int + usb_config \<times> u8 list) option" where
  "parse_configuration buffer =
     (if length buffer < CONFIG_DESC_LENGTH then Some (Inl LIBUSB_ERROR_IO)
      else case usbi_parse_descriptor buffer ''bbwbbbbb'' of
        None \<Rightarrow> None
      | Some v \<Rightarrow>
          let config = config_of v in
          if cf_bDescriptorType config \<noteq> DT_CONFIG then Some (Inl LIBUSB_ERROR_IO)
          else if cf_bLength config < CONFIG_DESC_LENGTH then Some (Inl LIBUSB_ERROR_IO)
          else if cf_bLength config > length buffer then Some (Inl LIBUSB_ERROR_IO)
          else if cf_bNumInterfaces config > USB_MAXINTERFACES then Some (Inl LIBUSB_ERROR_IO)
          else case parse_interfaces (cf_bNumInterfaces config) [] (drop (cf_bLength config) buffer) of
            None \<Rightarrow> None
          | Some (Inl r) \<Rightarrow> Some (Inl r)
          | Some (Inr (interfaces, extra, rest)) \<Rightarrow>
              Some (Inr (config\<lparr>cf_interface := interfaces, cf_bNumInterfaces := length interfaces,
                cf_extra := extra\<rparr>, rest)))"

definition raw_desc_to_config :: "u8 list \<Rightarrow> (int + usb_config) option" where
  "raw_desc_to_config buf = (case parse_configuration buf of
     None \<Rightarrow> None | Some (Inl r) \<Rightarrow> Some (Inl r) | Some (Inr (config, rest)) \<Rightarrow> Some (Inr config))"

end
