(* ===== verification/UsbQuery.thy ===== *)
theory UsbQuery
  imports UsbDesc
begin

text \<open>
  The functions of \<open>libusb/descriptor.c\<close> that ask a device for its descriptors: configurations, the BOS with its
  capabilities, the companion of a SuperSpeed endpoint, and strings. What the operating system or the device
  answers to a request for at most \<open>n\<close> bytes is a parameter: an error code, or the bytes written to the buffer.
\<close>

type_synonym desc_source = "nat \<Rightarrow> int + u8 list"

text \<open>The bytes that arrive in a buffer of \<open>n\<close> bytes.\<close>

definition ask :: "desc_source \<Rightarrow> nat \<Rightarrow> int + u8 list" where
  "ask source n = (case source n of Inl r \<Rightarrow> Inl r | Inr bytes \<Rightarrow> Inr (take n bytes))"

section \<open>Configurations\<close>

text \<open>Two requests: for the header with \<open>wTotalLength\<close>, and for so many bytes.\<close>

definition libusb_get_active_config_descriptor :: "desc_source \<Rightarrow> (int + usb_config) option" where
  "libusb_get_active_config_descriptor source = (case ask source CONFIG_DESC_LENGTH of
     Inl r \<Rightarrow> Some (Inl r)
   | Inr tmp \<Rightarrow>
       if length tmp < CONFIG_DESC_LENGTH then Some (Inl LIBUSB_ERROR_IO)
       else case usbi_parse_descriptor tmp ''bbw'' of
         None \<Rightarrow> None
       | Some config \<Rightarrow> (case ask source (config ! 2) of
           Inl r \<Rightarrow> Some (Inl r)
         | Inr buf \<Rightarrow> raw_desc_to_config buf))"

definition libusb_get_config_descriptor ::
    "(nat \<Rightarrow> desc_source) \<Rightarrow> nat \<Rightarrow> nat \<Rightarrow> (int + usb_config) option" where
  "libusb_get_config_descriptor source num_configurations config_index =
     (if config_index \<ge> num_configurations then Some (Inl LIBUSB_ERROR_NOT_FOUND)
      else libusb_get_active_config_descriptor (source config_index))"

text \<open>The result \<open>r\<close> and \<open>*idx\<close>; \<open>None\<close> when byte 5 of \<open>tmp\<close> was not written.\<close>

fun config_index_loop :: "(nat \<Rightarrow> desc_source) \<Rightarrow> nat \<Rightarrow> nat list \<Rightarrow> (int \<times> int) option" where
  "config_index_loop source bConfigurationValue [] = Some (0, -1)"
| "config_index_loop source bConfigurationValue (i # is) = (case ask (source i) 6 of
     Inl r \<Rightarrow> Some (r, -1)
   | Inr tmp \<Rightarrow>
       if length tmp < 6 then None
       else if unat (tmp ! 5) = bConfigurationValue then Some (0, int i)
       else config_index_loop source bConfigurationValue is)"

definition usbi_get_config_index_by_value :: "(nat \<Rightarrow> desc_source) \<Rightarrow> nat \<Rightarrow> nat \<Rightarrow> (int \<times> int) option" where
  "usbi_get_config_index_by_value source num_configurations bConfigurationValue =
     config_index_loop source bConfigurationValue [0..<num_configurations]"

text \<open>\<open>by_value\<close> is the backend's function, where it has one.\<close>

definition libusb_get_config_descriptor_by_value ::
    "(nat \<Rightarrow> int + u8 list) option \<Rightarrow> (nat \<Rightarrow> desc_source) \<Rightarrow> nat \<Rightarrow> nat \<Rightarrow> (int + usb_config) option" where
  "libusb_get_config_descriptor_by_value by_value source num_configurations bConfigurationValue =
     (case by_value of
        Some f \<Rightarrow> (case f bConfigurationValue of Inl r \<Rightarrow> Some (Inl r) | Inr buf \<Rightarrow> raw_desc_to_config buf)
      | None \<Rightarrow> (case usbi_get_config_index_by_value source num_configurations bConfigurationValue of
          None \<Rightarrow> None
        | Some (r, idx) \<Rightarrow>
            if r < 0 then Some (Inl r)
            else if idx = -1 then Some (Inl LIBUSB_ERROR_NOT_FOUND)
            else libusb_get_config_descriptor source num_configurations (nat idx)))"

section \<open>Endpoints\<close>

text \<open>
  \<open>find_endpoint\<close> of \<open>core.c\<close> goes through all settings; \<open>None\<close> when it reads an endpoint behind the array, or
  through the NULL pointer. The inner result is \<open>None\<close> for NULL.
\<close>

definition get_endpoint :: "usb_altsetting \<Rightarrow> nat \<Rightarrow> usb_endpoint option" where
  "get_endpoint altsetting i = (case if_endpoint altsetting of
     None \<Rightarrow> None
   | Some array \<Rightarrow> if i < length array then Some (array ! i) else None)"

fun endpoint_loop :: "usb_altsetting \<Rightarrow> nat \<Rightarrow> nat list \<Rightarrow> usb_endpoint option option" where
  "endpoint_loop altsetting endpoint [] = Some None"
| "endpoint_loop altsetting endpoint (i # is) = (case get_endpoint altsetting i of
     None \<Rightarrow> None
   | Some ep \<Rightarrow> if ep_bEndpointAddress ep = endpoint then Some (Some ep) else endpoint_loop altsetting endpoint is)"

fun altsetting_loop :: "nat \<Rightarrow> usb_altsetting list \<Rightarrow> usb_endpoint option option" where
  "altsetting_loop endpoint [] = Some None"
| "altsetting_loop endpoint (a # as) = (case endpoint_loop a endpoint [0..<if_bNumEndpoints a] of
     None \<Rightarrow> None
   | Some (Some ep) \<Rightarrow> Some (Some ep)
   | Some None \<Rightarrow> altsetting_loop endpoint as)"

definition find_endpoint :: "usb_config \<Rightarrow> nat \<Rightarrow> usb_endpoint option option" where
  "find_endpoint config endpoint = altsetting_loop endpoint (concat (take (cf_bNumInterfaces config) (cf_interface config)))"

definition libusb_get_max_packet_size :: "desc_source \<Rightarrow> nat \<Rightarrow> int option" where
  "libusb_get_max_packet_size source endpoint = (case libusb_get_active_config_descriptor source of
     None \<Rightarrow> None
   | Some (Inl r) \<Rightarrow> Some LIBUSB_ERROR_OTHER
   | Some (Inr config) \<Rightarrow> (case find_endpoint config endpoint of
       None \<Rightarrow> None
     | Some None \<Rightarrow> Some LIBUSB_ERROR_NOT_FOUND
     | Some (Some ep) \<Rightarrow> Some (int (ep_wMaxPacketSize ep))))"

text \<open>The transfer types isochronous (1) and interrupt (3) have up to three more transactions per microframe.\<close>

definition libusb_get_max_iso_packet_size :: "desc_source \<Rightarrow> nat \<Rightarrow> int option" where
  "libusb_get_max_iso_packet_size source endpoint = (case libusb_get_active_config_descriptor source of
     None \<Rightarrow> None
   | Some (Inl r) \<Rightarrow> Some LIBUSB_ERROR_OTHER
   | Some (Inr config) \<Rightarrow> (case find_endpoint config endpoint of
       None \<Rightarrow> None
     | Some None \<Rightarrow> Some LIBUSB_ERROR_NOT_FOUND
     | Some (Some ep) \<Rightarrow>
         let val = ep_wMaxPacketSize ep; ep_type = ep_bmAttributes ep mod 4; r = val mod 2048 in
         Some (int (if ep_type = 1 \<or> ep_type = 3 then r * (1 + val div 2048 mod 4) else r))))"

section \<open>SuperSpeed companion\<close>

text \<open>The fields \<open>bLength, bDescriptorType, bMaxBurst, bmAttributes, wBytesPerInterval\<close>.\<close>

function libusb_get_ss_endpoint_companion_descriptor :: "u8 list \<Rightarrow> (int + nat list) option" where
  "libusb_get_ss_endpoint_companion_descriptor buffer =
     (if length buffer < DESC_HEADER_LENGTH then Some (Inl LIBUSB_ERROR_NOT_FOUND)
      else case usbi_parse_descriptor buffer ''bb'' of
        None \<Rightarrow> None
      | Some header \<Rightarrow>
          let bLength = header ! 0 in
          if bLength < 2 \<or> bLength > length buffer then Some (Inl LIBUSB_ERROR_IO)
          else if header ! 1 \<noteq> DT_SS_ENDPOINT_COMPANION
            then libusb_get_ss_endpoint_companion_descriptor (drop bLength buffer)
          else if bLength < SS_ENDPOINT_COMPANION_SIZE then Some (Inl LIBUSB_ERROR_IO)
          else map_option Inr (usbi_parse_descriptor buffer ''bbbbw''))"
  by pat_completeness auto
termination
  by (relation "measure length") (auto simp: DESC_HEADER_LENGTH_def)

section \<open>BOS\<close>

text \<open>The copies of the capability descriptors, up to the first that is none or is cut off.\<close>

fun bos_capabilities :: "nat \<Rightarrow> u8 list \<Rightarrow> (int + u8 list list) option" where
  "bos_capabilities 0 buffer = Some (Inr [])"
| "bos_capabilities (Suc k) buffer =
     (if length buffer < DEVICE_CAPABILITY_SIZE then Some (Inr [])
      else case usbi_parse_descriptor buffer ''bbb'' of
        None \<Rightarrow> None
      | Some dev_cap \<Rightarrow>
          let bLength = dev_cap ! 0 in
          if dev_cap ! 1 \<noteq> DT_DEVICE_CAPABILITY then Some (Inr [])
          else if bLength < DEVICE_CAPABILITY_SIZE then Some (Inl LIBUSB_ERROR_IO)
          else if bLength > length buffer then Some (Inr [])
          else case bos_capabilities k (drop bLength buffer) of
            None \<Rightarrow> None
          | Some (Inl r) \<Rightarrow> Some (Inl r)
          | Some (Inr caps) \<Rightarrow> Some (Inr (take bLength buffer # caps)))"

record usb_bos =
  bos_bLength :: nat
  bos_bDescriptorType :: nat
  bos_wTotalLength :: nat
  bos_bNumDeviceCaps :: nat
  bos_dev_capability :: "u8 list list"

definition parse_bos :: "u8 list \<Rightarrow> (int + usb_bos) option" where
  "parse_bos buffer =
     (if length buffer < BOS_SIZE then Some (Inl LIBUSB_ERROR_IO)
      else case usbi_parse_descriptor buffer ''bbwb'' of
        None \<Rightarrow> None
      | Some h \<Rightarrow>
          if h ! 1 \<noteq> DT_BOS then Some (Inl LIBUSB_ERROR_IO)
          else if h ! 0 < BOS_SIZE then Some (Inl LIBUSB_ERROR_IO)
          else if h ! 0 > length buffer then Some (Inl LIBUSB_ERROR_IO)
          else case bos_capabilities (h ! 3) (drop (h ! 0) buffer) of
            None \<Rightarrow> None
          | Some (Inl r) \<Rightarrow> Some (Inl r)
          | Some (Inr caps) \<Rightarrow> Some (Inr \<lparr>bos_bLength = h ! 0, bos_bDescriptorType = h ! 1,
              bos_wTotalLength = h ! 2, bos_bNumDeviceCaps = length caps, bos_dev_capability = caps\<rparr>))"

definition libusb_get_bos_descriptor :: "desc_source \<Rightarrow> (int + usb_bos) option" where
  "libusb_get_bos_descriptor source = (case ask source BOS_SIZE of
     Inl r \<Rightarrow> Some (Inl r)
   | Inr header \<Rightarrow>
       if length header < BOS_SIZE then Some (Inl LIBUSB_ERROR_IO)
       else case usbi_parse_descriptor header ''bbwb'' of
         None \<Rightarrow> None
       | Some h \<Rightarrow> (case ask source (h ! 2) of
           Inl r \<Rightarrow> Some (Inl r)
         | Inr bos_data \<Rightarrow> parse_bos bos_data))"

text \<open>The three capabilities: the type, the least length and the fields.\<close>

definition get_capability :: "nat \<Rightarrow> nat \<Rightarrow> string \<Rightarrow> u8 list \<Rightarrow> (int + nat list) option" where
  "get_capability kind least format dev_cap = (case usbi_parse_descriptor dev_cap ''bbb'' of
     None \<Rightarrow> None
   | Some h \<Rightarrow>
       if h ! 2 \<noteq> kind then Some (Inl LIBUSB_ERROR_INVALID_PARAM)
       else if h ! 0 < least then Some (Inl LIBUSB_ERROR_IO)
       else map_option Inr (usbi_parse_descriptor dev_cap format))"

definition libusb_get_usb_2_0_extension_descriptor :: "u8 list \<Rightarrow> (int + nat list) option" where
  "libusb_get_usb_2_0_extension_descriptor = get_capability 2 7 ''bbbd''"

definition libusb_get_ss_usb_device_capability_descriptor :: "u8 list \<Rightarrow> (int + nat list) option" where
  "libusb_get_ss_usb_device_capability_descriptor = get_capability 3 10 ''bbbbwbbw''"

definition libusb_get_container_id_descriptor :: "u8 list \<Rightarrow> (int + nat list) option" where
  "libusb_get_container_id_descriptor = get_capability 4 20 ''bbbbu''"

section \<open>Strings\<close>

text \<open>
  \<open>tbuf\<close> has 255 bytes, \<open>None\<close> where nothing was written yet. \<open>get_byte\<close> is \<open>None\<close> for a byte that was not written, and for
  one behind the array.
\<close>

definition get_byte :: "u8 option list \<Rightarrow> nat \<Rightarrow> u8 option" where
  "get_byte tbuf i = (if i < length tbuf then tbuf ! i else None)"

definition receive :: "u8 list \<Rightarrow> u8 option list \<Rightarrow> u8 option list" where
  "receive bytes tbuf = map Some bytes @ drop (length bytes) tbuf"

text \<open>The characters from \<open>si\<close> on, when \<open>di\<close> are stored in \<open>data\<close>, which has \<open>length\<close> bytes.\<close>

function ascii_loop :: "u8 option list \<Rightarrow> nat \<Rightarrow> nat \<Rightarrow> nat \<Rightarrow> nat \<Rightarrow> u8 list option" where
  "ascii_loop tbuf bLength len di si =
     (if bLength \<le> si \<or> len \<le> di + 1 then Some []
      else case get_byte tbuf si of
        None \<Rightarrow> None
      | Some c \<Rightarrow>
          if bit c 7 then map_option ((#) 0x3f) (ascii_loop tbuf bLength len (di + 1) (si + 2))
          else case get_byte tbuf (si + 1) of
            None \<Rightarrow> None
          | Some h \<Rightarrow> map_option ((#) (if h \<noteq> 0 then 0x3f else c)) (ascii_loop tbuf bLength len (di + 1) (si + 2)))"
  by pat_completeness auto
termination by (relation "measure (\<lambda>(tbuf, bLength, len, di, si). bLength - si)") auto

text \<open>
  \<open>get_string desc_index langid\<close> is the device's answer. The result is an error, or the characters before the
  terminating zero, whose number is the return value.
\<close>

definition libusb_get_string_descriptor_ascii ::
    "(nat \<Rightarrow> nat \<Rightarrow> desc_source) \<Rightarrow> nat \<Rightarrow> nat \<Rightarrow> (int + u8 list) option" where
  "libusb_get_string_descriptor_ascii get_string desc_index len =
     (if desc_index = 0 then Some (Inl LIBUSB_ERROR_INVALID_PARAM)
      else case ask (get_string 0 0) 255 of
        Inl r \<Rightarrow> Some (Inl r)
      | Inr langs \<Rightarrow>
          if length langs < 4 then Some (Inl LIBUSB_ERROR_IO)
          else
            let tbuf = receive langs (replicate 255 None); langid = le_nat (take 2 (drop 2 langs)) in
            case ask (get_string desc_index langid) 255 of
              Inl r \<Rightarrow> Some (Inl r)
            | Inr answer \<Rightarrow>
                let tbuf = receive answer tbuf in
                case (get_byte tbuf 0, get_byte tbuf 1) of
                  (Some t0, Some t1) \<Rightarrow>
                    if unat t1 \<noteq> DT_STRING then Some (Inl LIBUSB_ERROR_IO)
                    else if unat t0 > length answer then Some (Inl LIBUSB_ERROR_IO)
                    else if len = 0 then None
                    else map_option Inr (ascii_loop tbuf (unat t0) len 0 2)
                | _ \<Rightarrow> None)"

end
