(* ===== verification/UsbDescProps.thy ===== *)
theory UsbDescProps
  imports UsbQuery
begin

text \<open>
  What the descriptor parser guarantees: it never reads behind a buffer and what it returns is well formed,
  for every byte string; and it parses the descriptors of every well-formed configuration back to that configuration.
\<close>

section \<open>Reading stays inside the buffer\<close>

lemma field_width_simps [simp]:
  "field_width CHR ''b'' = 1" "field_width CHR ''w'' = 2" "field_width CHR ''d'' = 4" "field_width CHR ''u'' = 16"
  by (simp_all add: field_width_def)

definition format_width :: "string \<Rightarrow> nat" where
  "format_width f = sum_list (map field_width f)"

lemma parse_descriptor_inside:
  "format_width f \<le> length source \<Longrightarrow> \<exists>v. usbi_parse_descriptor source f = Some v"
  by (induction source f rule: usbi_parse_descriptor.induct)
    (fastforce simp: format_width_def Let_def split: option.splits)+

lemma parse_header:
  assumes "2 \<le> length buffer"
  shows "usbi_parse_descriptor buffer ''bb'' = Some [unat (buffer ! 0), unat (buffer ! 1)]"
  using assms by (cases buffer; cases "tl buffer") (auto simp: numeral_2_eq_2)

declare skip_descriptors.simps [simp del] parse_interface.simps [simp del] ascii_loop.simps [simp del] usbi_parse_descriptor.simps [simp del]

text \<open>One round of the loop over a descriptor with the header \<open>l\<close>, \<open>t\<close>.\<close>

lemma skip_step:
  assumes "2 \<le> length buffer"
  shows "skip_descriptors buffer n =
    (let l = unat (buffer ! 0) in
     if l < 2 then Invalid else if l > length buffer then Truncated n
     else if proper (unat (buffer ! 1)) then Skipped n else skip_descriptors (drop l buffer) (n + l))"
  using assms parse_header [OF assms] by (subst skip_descriptors.simps) (simp add: DESC_HEADER_LENGTH_def Let_def)

lemma skip_end: "length buffer < 2 \<Longrightarrow> skip_descriptors buffer n = Skipped n"
  by (subst skip_descriptors.simps) (simp add: DESC_HEADER_LENGTH_def)

lemma skip_inside:
  "\<exists>m. n \<le> m \<and> m \<le> n + length buffer \<and>
     (skip_descriptors buffer n = Invalid \<or> skip_descriptors buffer n = Truncated m \<or> skip_descriptors buffer n = Skipped m)"
proof (induction buffer arbitrary: n rule: length_induct)
  case (1 buffer)
  show ?case
  proof (cases "length buffer < 2")
    case False
    define l where "l = unat (buffer ! 0)"
    show ?thesis
    proof (cases "2 \<le> l \<and> l \<le> length buffer \<and> \<not> proper (unat (buffer ! 1))")
      case True
      then have "length (drop l buffer) < length buffer" using False by auto
      then obtain m where "n + l \<le> m" "m \<le> n + l + length (drop l buffer)"
        "skip_descriptors (drop l buffer) (n + l) = Invalid \<or> skip_descriptors (drop l buffer) (n + l) = Truncated m \<or>
         skip_descriptors (drop l buffer) (n + l) = Skipped m"
        using "1" by blast
      then show ?thesis using True False
        by (intro exI [of _ m]) (simp add: skip_step Let_def flip: l_def)
    next
      case f: False
      then show ?thesis using False by (intro exI [of _ n]) (auto simp: skip_step Let_def simp flip: l_def)
    qed
  qed (auto simp: skip_end)
qed

lemma skip_cases:
  obtains "skip_descriptors buffer 0 = Invalid"
  | n where "n \<le> length buffer" "skip_descriptors buffer 0 = Truncated n"
  | n where "n \<le> length buffer" "skip_descriptors buffer 0 = Skipped n"
  using skip_inside [of 0 buffer] by auto

lemma parse_endpoint_inside:
  "\<exists>r ep. parse_endpoint buffer = Some (r, ep) \<and> r \<le> int (length buffer) \<and> (r < 0 \<longrightarrow> r = LIBUSB_ERROR_IO)"
proof (cases "length buffer < DESC_HEADER_LENGTH")
  case True
  then show ?thesis by (simp add: parse_endpoint_def usb_constants)
next
  case long: False
  then obtain l t where h: "usbi_parse_descriptor buffer ''bb'' = Some [l, t]"
    using parse_header [of buffer] by (simp add: DESC_HEADER_LENGTH_def)
  show ?thesis
  proof (cases "t = DT_ENDPOINT \<and> l \<le> length buffer \<and> ENDPOINT_DESC_LENGTH \<le> l")
    case ok: True
    let ?f = "if l \<ge> ENDPOINT_AUDIO_DESC_LENGTH then ''bbbbwbbb'' else ''bbbbwb''"
    have "format_width ?f \<le> length buffer" using ok by (simp add: format_width_def usb_constants)
    then obtain v where v: "usbi_parse_descriptor buffer ?f = Some v" using parse_descriptor_inside by blast
    have e: "parse_endpoint buffer = (case skip_descriptors (drop l buffer) 0 of Outside \<Rightarrow> None
        | Invalid \<Rightarrow> Some (LIBUSB_ERROR_IO, endpoint_of v)
        | Truncated n \<Rightarrow> Some (int (l + n), endpoint_of v)
        | Skipped n \<Rightarrow> Some (int (l + n), (endpoint_of v)\<lparr>ep_extra := take n (drop l buffer)\<rparr>))"
      using long ok h v by (simp add: parse_endpoint_def Let_def del: usbi_parse_descriptor.simps split: skip.splits)
    show ?thesis
      by (cases rule: skip_cases [of "drop l buffer"]) (use ok in \<open>auto simp: e LIBUSB_ERROR_IO_def\<close>)
  next
    case False
    then show ?thesis using h long
      by (auto simp: parse_endpoint_def usb_constants simp del: usbi_parse_descriptor.simps)
  qed
qed

lemma parse_endpoints_inside:
  "\<exists>x. parse_endpoints k buffer = Some x \<and> (case x of Inl e \<Rightarrow> e = LIBUSB_ERROR_IO
     | Inr (eps, n) \<Rightarrow> n \<le> length buffer \<and> length eps \<le> k)"
proof (induction k arbitrary: buffer)
  case (Suc k)
  obtain r ep where e: "parse_endpoint buffer = Some (r, ep)" "r \<le> int (length buffer)" "r < 0 \<longrightarrow> r = LIBUSB_ERROR_IO"
    using parse_endpoint_inside [of buffer] by blast
  obtain x where x: "parse_endpoints k (drop (nat r) buffer) = Some x" "case x of Inl e \<Rightarrow> e = LIBUSB_ERROR_IO
     | Inr (eps, n) \<Rightarrow> n \<le> length (drop (nat r) buffer) \<and> length eps \<le> k"
    using Suc.IH by blast
  show ?case using e x by (cases x) (auto simp: nat_le_iff)
qed simp

text \<open>A setting that the parser returns: no more endpoints are counted than were parsed, or the array is NULL.\<close>

definition altsetting_ok :: "usb_altsetting \<Rightarrow> bool" where
  "altsetting_ok a \<longleftrightarrow> if_bNumEndpoints a \<le> USB_MAXENDPOINTS \<and>
     (case if_endpoint a of None \<Rightarrow> True | Some eps \<Rightarrow> length eps = if_bNumEndpoints a)"

lemma parse_altsetting_inside:
  assumes "if_bNumEndpoints ifp \<le> USB_MAXENDPOINTS" "if_endpoint ifp = None"
  shows "\<exists>x. parse_altsetting ifp buffer = Some x \<and> (case x of Inl e \<Rightarrow> e = LIBUSB_ERROR_IO
     | Inr (go, a, n) \<Rightarrow> n \<le> length buffer \<and> altsetting_ok a)"
proof (cases rule: skip_cases [of buffer])
  case (3 n)
  obtain x where "parse_endpoints (if_bNumEndpoints ifp) (drop n buffer) = Some x" "case x of Inl e \<Rightarrow> e = LIBUSB_ERROR_IO
     | Inr (eps, m) \<Rightarrow> m \<le> length (drop n buffer) \<and> length eps \<le> if_bNumEndpoints ifp"
    using parse_endpoints_inside by blast
  then show ?thesis using assms 3
    by (cases x) (auto simp: parse_altsetting_def Let_def altsetting_ok_def)
qed (use assms in \<open>auto simp: parse_altsetting_def altsetting_ok_def\<close>)

lemma parse_bytes:
  "n \<le> length source \<Longrightarrow> usbi_parse_descriptor source (replicate n CHR ''b'') = Some (map unat (take n source))"
proof (induction n arbitrary: source)
  case (Suc n)
  then show ?case by (cases source) (auto simp: usbi_parse_descriptor.simps)
qed (simp add: usbi_parse_descriptor.simps)

lemma parse_bytes9: "9 \<le> length source \<Longrightarrow> usbi_parse_descriptor source ''bbbbbbbbb'' = Some (map unat (take 9 source))"
  using parse_bytes [of 9 source] by (simp add: numeral_eq_Suc)

lemma parse_bytes3: "3 \<le> length source \<Longrightarrow>
    usbi_parse_descriptor source ''bbb'' = Some [unat (source ! 0), unat (source ! 1), unat (source ! 2)]"
  using parse_bytes [of 3 source]
  by (cases source; cases "tl source"; cases "tl (tl source)") (auto simp: numeral_eq_Suc)

text \<open>One round of the loop over settings, in a buffer that holds a header.\<close>

lemma parse_interface_step:
  assumes "9 \<le> length buffer" "ifp = altsetting_of (map unat (take 9 buffer))"
  shows "parse_interface number parsed alts buffer =
       (if if_bDescriptorType ifp \<noteq> DT_INTERFACE then Some (Inr (parsed, alts))
        else if if_bLength ifp < 9 then Some (Inl LIBUSB_ERROR_IO)
        else if if_bLength ifp > length buffer then Some (Inr (parsed, alts))
        else if if_bNumEndpoints ifp > USB_MAXENDPOINTS then Some (Inl LIBUSB_ERROR_IO)
        else case parse_altsetting ifp (drop (if_bLength ifp) buffer) of
          None \<Rightarrow> None
        | Some (Inl r) \<Rightarrow> Some (Inl r)
        | Some (Inr (go, a, n)) \<Rightarrow>
            let rest = drop (if_bLength ifp + n) buffer; k = case_option (if_bInterfaceNumber ifp) (\<lambda>k. k) number in
            if go \<and> 9 \<le> length rest \<and> unat (rest ! 1) = DT_INTERFACE \<and> unat (rest ! 2) = k
            then parse_interface (Some k) (parsed + if_bLength ifp + n) (alts @ [a]) rest
            else Some (Inr (parsed + if_bLength ifp + n, alts @ [a])))"
proof (cases "parse_altsetting ifp (drop (if_bLength ifp) buffer)")
  case None
  then show ?thesis using assms
    by (subst parse_interface.simps) (simp add: parse_bytes9 INTERFACE_DESC_LENGTH_def)
next
  case (Some x)
  show ?thesis
  proof (cases x)
    case (Inl r)
    then show ?thesis using Some assms
      by (subst parse_interface.simps) (simp add: parse_bytes9 INTERFACE_DESC_LENGTH_def)
  next
    case (Inr y)
    obtain go a n where "y = (go, a, n)" by (metis prod_cases3)
    then show ?thesis using Some Inr assms
      by (subst parse_interface.simps)
        (cases go; auto simp: parse_bytes9 parse_bytes3 INTERFACE_DESC_LENGTH_def Let_def)
  qed
qed

lemma parse_interface_short: "length buffer < 9 \<Longrightarrow> parse_interface number parsed alts buffer = Some (Inr (parsed, alts))"
  by (subst parse_interface.simps) (simp add: INTERFACE_DESC_LENGTH_def)

lemma parse_interface_inside:
  "list_all altsetting_ok alts \<Longrightarrow>
   \<exists>x. parse_interface number parsed alts buffer = Some x \<and> (case x of Inl e \<Rightarrow> e = LIBUSB_ERROR_IO
     | Inr (p, as) \<Rightarrow> p \<le> parsed + length buffer \<and> list_all altsetting_ok as)"
proof (induction buffer arbitrary: number parsed alts rule: length_induct)
  case (1 buffer)
  show ?case
  proof (cases "9 \<le> length buffer")
    case long: True
    define ifp where "ifp = altsetting_of (map unat (take 9 buffer))"
    note step = parse_interface_step [OF long ifp_def]
    show ?thesis
    proof (cases "if_bDescriptorType ifp = DT_INTERFACE \<and> 9 \<le> if_bLength ifp \<and>
        if_bLength ifp \<le> length buffer \<and> if_bNumEndpoints ifp \<le> USB_MAXENDPOINTS")
      case ok: True
      obtain x where x: "parse_altsetting ifp (drop (if_bLength ifp) buffer) = Some x"
          "case x of Inl e \<Rightarrow> e = LIBUSB_ERROR_IO
           | Inr (go, a, n) \<Rightarrow> n \<le> length (drop (if_bLength ifp) buffer) \<and> altsetting_ok a"
        using parse_altsetting_inside [of ifp "drop (if_bLength ifp) buffer"] ok
        by (auto simp: ifp_def altsetting_of_def)
      show ?thesis
      proof (cases x)
        case (Inr y)
        obtain go a n where y: "y = (go, a, n)" by (metis prod_cases3)
        have "length (drop (if_bLength ifp + n) buffer) < length buffer" using ok long by auto
        moreover have "list_all altsetting_ok (alts @ [a])" using x Inr y "1.prems" by simp
        ultimately obtain z where "parse_interface (Some (case_option (if_bInterfaceNumber ifp) (\<lambda>k. k) number))
            (parsed + if_bLength ifp + n) (alts @ [a]) (drop (if_bLength ifp + n) buffer) = Some z"
          "case z of Inl e \<Rightarrow> e = LIBUSB_ERROR_IO | Inr (p, as) \<Rightarrow>
            p \<le> parsed + if_bLength ifp + n + length (drop (if_bLength ifp + n) buffer) \<and> list_all altsetting_ok as"
          using "1.IH" by blast
        then show ?thesis using x ok Inr y "1.prems"
          by (simp add: step Let_def) (auto split: sum.splits)
      qed (use x ok step in \<open>simp add: step\<close>)
    qed (use "1.prems" step in \<open>auto simp: step\<close>)
  qed (use "1.prems" in \<open>auto simp: parse_interface_short\<close>)
qed

lemma parse_interfaces_inside:
  "\<exists>x. parse_interfaces k extra buffer = Some x \<and> (case x of Inl e \<Rightarrow> e = LIBUSB_ERROR_IO
     | Inr (interfaces, extra', rest) \<Rightarrow> length interfaces \<le> k \<and> length rest \<le> length buffer \<and>
         list_all (list_all altsetting_ok) interfaces)"
proof (induction k arbitrary: extra buffer)
  case (Suc k)
  show ?case
  proof (cases rule: skip_cases [of buffer])
    case (3 n)
    obtain x where x: "parse_interface None 0 [] (drop n buffer) = Some x" "case x of Inl e \<Rightarrow> e = LIBUSB_ERROR_IO
       | Inr (p, as) \<Rightarrow> p \<le> 0 + length (drop n buffer) \<and> list_all altsetting_ok as"
      using parse_interface_inside [of "[]" None 0 "drop n buffer", OF list.pred_inject(1)] by blast
    show ?thesis
    proof (cases x)
      case (Inl e)
      then show ?thesis using x 3 by simp
    next
      case (Inr y)
      obtain p as where y: "y = (p, as)" by fastforce
      let ?e = "if extra = [] then take n buffer else extra"
      obtain z where "parse_interfaces k ?e (drop p (drop n buffer)) = Some z" "case z of Inl e \<Rightarrow> e = LIBUSB_ERROR_IO
         | Inr (interfaces, extra', rest) \<Rightarrow> length interfaces \<le> k \<and> length rest \<le> length (drop p (drop n buffer)) \<and>
             list_all (list_all altsetting_ok) interfaces"
        using Suc.IH by blast
      then show ?thesis using x 3 Inr y by (cases z) (auto simp: Let_def)
    qed
  qed auto
qed simp

text \<open>
  C14. For every byte string the parser of a configuration reads no byte behind it; it fails only with
  \<open>LIBUSB_ERROR_IO\<close>, and a configuration it returns has as many interfaces as it counts, at most 32, each
  alternate setting with at most 32 endpoints, and as many as it counts unless the array is NULL.\<close>

theorem usb_parse_safe:
  "\<exists>x. raw_desc_to_config buf = Some x \<and>
     (case x of Inl r \<Rightarrow> r = LIBUSB_ERROR_IO
      | Inr c \<Rightarrow> cf_bNumInterfaces c = length (cf_interface c) \<and> length (cf_interface c) \<le> USB_MAXINTERFACES \<and>
          list_all (list_all altsetting_ok) (cf_interface c))"
proof (cases "length buf < CONFIG_DESC_LENGTH")
  case True
  then show ?thesis by (simp add: raw_desc_to_config_def parse_configuration_def)
next
  case False
  then have "format_width ''bbwbbbbb'' \<le> length buf" by (simp add: format_width_def usb_constants)
  then obtain v where v: "usbi_parse_descriptor buf ''bbwbbbbb'' = Some v" using parse_descriptor_inside by blast
  obtain x where x: "parse_interfaces (cf_bNumInterfaces (config_of v)) [] (drop (cf_bLength (config_of v)) buf) = Some x"
      "case x of Inl e \<Rightarrow> e = LIBUSB_ERROR_IO
       | Inr (interfaces, extra', rest) \<Rightarrow> length interfaces \<le> cf_bNumInterfaces (config_of v) \<and>
           length rest \<le> length (drop (cf_bLength (config_of v)) buf) \<and> list_all (list_all altsetting_ok) interfaces"
    using parse_interfaces_inside by blast
  show ?thesis using False v x
    by (cases x) (auto simp: raw_desc_to_config_def parse_configuration_def Let_def)
qed

section \<open>Endpoint lookup\<close>

text \<open>Where every setting has the endpoints it counts, the loops find the first endpoint with the address.\<close>

definition endpoints :: "usb_altsetting \<Rightarrow> usb_endpoint list" where
  "endpoints a = (case if_endpoint a of None \<Rightarrow> [] | Some es \<Rightarrow> es)"

lemma endpoint_loop_find:
  "if_endpoint a = Some (done @ es) \<Longrightarrow> endpoint_loop a addr [length done..<length (done @ es)] =
     Some (List.find (\<lambda>e. ep_bEndpointAddress e = addr) es)"
proof (induction es arbitrary: "done")
  case (Cons e es)
  have "[length done..<length (done @ e # es)] = length done # [length (done @ [e])..<length ((done @ [e]) @ es)]"
    by (subst upt_conv_Cons) simp_all
  then show ?case using Cons.IH [of "done @ [e]"] Cons.prems by (simp add: get_endpoint_def)
qed simp

lemma find_append: "List.find P (xs @ ys) = (case List.find P xs of None \<Rightarrow> List.find P ys | Some x \<Rightarrow> Some x)"
  by (induction xs) auto

lemma altsetting_loop_find:
  assumes "list_all (\<lambda>a. if_bNumEndpoints a = length (endpoints a)) as"
  shows "altsetting_loop addr as = Some (List.find (\<lambda>e. ep_bEndpointAddress e = addr) (concat (map endpoints as)))"
  using assms
proof (induction "as")
  case (Cons a "as")
  have "endpoint_loop a addr [0..<if_bNumEndpoints a] = Some (List.find (\<lambda>e. ep_bEndpointAddress e = addr) (endpoints a))"
    using Cons.prems endpoint_loop_find [of a "[]" _ addr] by (cases "if_endpoint a") (auto simp: endpoints_def)
  then show ?case using Cons by (auto simp: find_append split: option.splits)
qed simp

section \<open>Strings\<close>

text \<open>A string of UTF-16 code units, as a string descriptor.\<close>

definition enc_string :: "u16 list \<Rightarrow> u8 list" where
  "enc_string ws = [word_of_nat (2 + 2 * length ws), 3] @ concat (map (\<lambda>w. [ucast w, ucast (drop_bit 8 w)]) ws)"

definition ascii_char :: "u16 \<Rightarrow> u8" where
  "ascii_char w = (if w < 128 then ucast w else 0x3f)"

lemma ascii_unit:
  fixes w :: u16
  shows "bit (ucast w :: u8) 7 \<or> (ucast (drop_bit 8 w) :: u8) \<noteq> 0 \<longleftrightarrow> \<not> w < 128"
proof -
  have "bit (ucast w :: u8) 7 \<longleftrightarrow> bit w 7" by (simp add: bit_simps)
  also have "\<dots> \<longleftrightarrow> bit (unat w) 7" unfolding bit_unsigned_iff by auto
  finally have low: "bit (ucast w :: u8) 7 \<longleftrightarrow> odd (unat w div 128)" by (simp add: bit_iff_odd)
  have lt: "unat w < 2 ^ LENGTH(16)" by (rule unsigned_less)
  then have "unat (ucast (drop_bit 8 w) :: u8) = unat w div 256"
    by (simp only: unsigned_ucast_eq unsigned_drop_bit_eq take_bit_eq_mod drop_bit_eq_div) (simp add: unat_div_distrib)
  then have high: "(ucast (drop_bit 8 w) :: u8) = 0 \<longleftrightarrow> unat w div 256 = 0" by (metis unat_eq_zero)
  define q where "q = unat w div 128"
  have q: "unat w div 256 = q div 2" "w < 128 \<longleftrightarrow> q = 0"
    by (simp_all add: q_def word_less_nat_alt div_eq_0_iff flip: div_mult2_eq)
  show ?thesis unfolding low high q q_def [symmetric] by presburger
qed

text \<open>The loop from the unit \<open>k\<close> on, when all units are in the buffer.\<close>

lemma ascii_loop_units:
  assumes "\<And>i. i < length ws \<Longrightarrow> get_byte tbuf (2 + 2 * i) = Some (ucast (ws ! i)) \<and>
      get_byte tbuf (2 + 2 * i + 1) = Some (ucast (drop_bit 8 (ws ! i)))" and "k \<le> length ws"
  shows "ascii_loop tbuf (2 + 2 * length ws) len k (2 + 2 * k) = Some (map ascii_char (take (len - 1 - k) (drop k ws)))"
  using assms(2)
proof (induction k rule: inc_induct)
  case base
  then show ?case by (subst ascii_loop.simps) simp
next
  case (step k)
  show ?case
  proof (cases "len \<le> k + 1")
    case True
    then show ?thesis by (subst ascii_loop.simps) simp
  next
    case False
    let ?w = "ws ! k"
    have d: "take (len - Suc k) (drop k ws) = ?w # take (len - Suc (Suc k)) (drop (Suc k) ws)"
      using False step.hyps by (subst Cons_nth_drop_Suc [symmetric]) (auto simp: take_Cons' Suc_diff_Suc)
    have g: "get_byte tbuf (2 + 2 * k) = Some (ucast ?w)" "get_byte tbuf (2 + 2 * k + 1) = Some (ucast (drop_bit 8 ?w))"
      using assms(1) step.hyps by auto
    show ?thesis
      using False step.hyps step.IH g ascii_unit [of ?w]
      by (subst ascii_loop.simps) (auto simp: d ascii_char_def)
  qed
qed

lemma nth_pairs:
  "i < length ws \<Longrightarrow> concat (map (\<lambda>w. [a w, b w]) ws) ! (2 * i) = a (ws ! i) \<and>
     concat (map (\<lambda>w. [a w, b w]) ws) ! (2 * i + 1) = b (ws ! i)"
proof (induction ws arbitrary: i)
  case (Cons w ws)
  then show ?case by (cases i) auto
qed simp

lemma length_enc_string: "length (enc_string ws) = 2 + 2 * length ws"
  by (induction ws) (simp_all add: enc_string_def)

lemma get_byte_enc_string:
  assumes "i < length ws" "length ws \<le> 126" "length tbuf = 255"
  shows "get_byte (receive (enc_string ws) tbuf) (2 + 2 * i) = Some (ucast (ws ! i)) \<and>
    get_byte (receive (enc_string ws) tbuf) (2 + 2 * i + 1) = Some (ucast (drop_bit 8 (ws ! i)))"
proof -
  have "get_byte (receive (enc_string ws) tbuf) j = Some (enc_string ws ! j)" if "j < 2 + 2 * length ws" for j
    using that assms by (simp add: get_byte_def receive_def nth_append length_enc_string)
  moreover have "2 + 2 * i < 2 + 2 * length ws" "2 + 2 * i + 1 < 2 + 2 * length ws" using assms by auto
  ultimately show ?thesis using nth_pairs [OF assms(1), of "\<lambda>w. ucast w :: u8" "\<lambda>w. ucast (drop_bit 8 w)"]
    by (simp add: enc_string_def)
qed

text \<open>
  A string descriptor of up to 126 UTF-16 code units comes back as its characters, with a question mark for each
  that is not ASCII, cut to what the buffer holds beside the terminating zero.\<close>

lemma usb_string_ascii:
  assumes "0 < desc_index" "0 < len" "length ws \<le> 126"
    and "get_string 0 0 255 = Inr langs" "4 \<le> length langs" "length langs \<le> 255"
    and "get_string desc_index (le_nat (take 2 (drop 2 langs))) 255 = Inr (enc_string ws)"
  shows "libusb_get_string_descriptor_ascii get_string desc_index len = Some (Inr (map ascii_char (take (len - 1) ws)))"
proof -
  define tbuf where "tbuf = receive (enc_string ws) (receive langs (replicate 255 None))"
  have "length (receive langs (replicate 255 None)) = 255" using assms by (simp add: receive_def)
  then have loop: "ascii_loop tbuf (2 + 2 * length ws) len 0 2 = Some (map ascii_char (take (len - 1) ws))"
    using ascii_loop_units [of ws tbuf 0 len] get_byte_enc_string assms(3) by (simp add: tbuf_def)
  have "get_byte tbuf 0 = Some (word_of_nat (2 + 2 * length ws))" "get_byte tbuf 1 = Some 3"
    using assms by (simp_all add: tbuf_def get_byte_def receive_def enc_string_def)
  moreover have "unat (word_of_nat (2 + 2 * length ws) :: u8) = 2 + 2 * length ws"
    unfolding unat_of_nat using assms(3) by simp
  moreover have "ask (get_string 0 0) 255 = Inr langs"
      "ask (get_string desc_index (le_nat (take 2 (drop 2 langs)))) 255 = Inr (enc_string ws)"
    using assms length_enc_string [of ws] by (simp_all add: ask_def)
  ultimately show ?thesis using assms loop length_enc_string [of ws]
    by (simp add: libusb_get_string_descriptor_ascii_def Let_def DT_STRING_def flip: tbuf_def)
qed

text \<open>The letters \<open>Ab\<close>, a letter that is not ASCII, and a buffer of three bytes.\<close>

lemma usb_string_ascii_example:
  "libusb_get_string_descriptor_ascii (\<lambda>i langid n. Inr (if i = 0 then [4, 3, 9, 4] else enc_string [0xE9, 0x62, 0x63])) 2 3 =
     Some (Inr [0x3f, 0x62])"
proof -
  have "libusb_get_string_descriptor_ascii (\<lambda>i langid n. Inr (if i = 0 then [4, 3, 9, 4] else enc_string [0xE9, 0x62, 0x63])) 2 3 =
      Some (Inr (map ascii_char (take (3 - 1) [0xE9, 0x62, 0x63])))"
    by (rule usb_string_ascii [where langs = "[4, 3, 9, 4]"]) simp_all
  then show ?thesis by (simp add: ascii_char_def)
qed

text \<open>
  A descriptor of 255 bytes (its length is odd, which the loop does not expect) with an ASCII byte at its end: the loop reads
  \<open>tbuf[255]\<close>, one byte behind the array.
\<close>

lemma ascii_loop_overrun:
  assumes "length tbuf = 255" "tbuf ! 254 = Some c" "\<not> bit c 7" "di + 1 < len"
  shows "ascii_loop tbuf 255 len di 254 = None"
  using assms by (subst ascii_loop.simps) (simp add: get_byte_def)

text \<open>
  A configuration whose interface announces an endpoint and then has a class specific descriptor that is cut off: the setting
  keeps its count with a NULL array, and looking for an endpoint reads through it.
\<close>

definition truncated_interface :: "u8 list" where
  "truncated_interface = [9, 2, 20, 0, 1, 1, 0, 128, 50, 9, 4, 0, 0, 1, 255, 0, 0, 0, 9, 0x21]"

lemma truncated_interface_parsed:
  "map_option (map_sum id (\<lambda>c. (map (map (\<lambda>a. (if_bNumEndpoints a, if_endpoint a))) (cf_interface c), find_endpoint c 129)))
     (raw_desc_to_config truncated_interface) = Some (Inr ([[(1, None)]], None))"
  by code_simp

end
