(* ===== verification/UsbRoundTrip.thy ===== *)
theory UsbRoundTrip
  imports UsbDescProps
begin

text \<open>
  The descriptors of a configuration as USB lays them out, and the proof that the parser of \<open>libusb/descriptor.c\<close> reads
  them back: no interface, setting, endpoint or class specific byte is lost or attached to the wrong structure.
\<close>

section \<open>The layout\<close>

definition byte :: "nat \<Rightarrow> u8" where "byte n = word_of_nat n"

definition le16 :: "nat \<Rightarrow> u8 list" where "le16 w = [byte w, byte (w div 256)]"

definition enc_endpoint :: "usb_endpoint \<Rightarrow> u8 list" where
  "enc_endpoint e = [byte (ep_bLength e), byte (ep_bDescriptorType e), byte (ep_bEndpointAddress e),
     byte (ep_bmAttributes e)] @ le16 (ep_wMaxPacketSize e) @ [byte (ep_bInterval e)] @
     (if ep_bLength e = 9 then [byte (ep_bRefresh e), byte (ep_bSynchAddress e)] else []) @ ep_extra e"

definition enc_altsetting :: "usb_altsetting \<Rightarrow> u8 list" where
  "enc_altsetting a = map byte [if_bLength a, if_bDescriptorType a, if_bInterfaceNumber a, if_bAlternateSetting a,
     if_bNumEndpoints a, if_bInterfaceClass a, if_bInterfaceSubClass a, if_bInterfaceProtocol a, if_iInterface a] @
     if_extra a @ concat (map enc_endpoint (endpoints a))"

definition enc_interface :: "usb_altsetting list \<Rightarrow> u8 list" where
  "enc_interface alts = concat (map enc_altsetting alts)"

definition enc_config :: "usb_config \<Rightarrow> u8 list" where
  "enc_config c = [byte (cf_bLength c), byte (cf_bDescriptorType c)] @ le16 (cf_wTotalLength c) @
     map byte [cf_bNumInterfaces c, cf_bConfigurationValue c, cf_iConfiguration c, cf_bmAttributes c, cf_MaxPower c] @
     cf_extra c @ concat (map enc_interface (cf_interface c))"

section \<open>Well-formed configurations\<close>

text \<open>Class and vendor specific bytes: whole descriptors, none of a standard type.\<close>

function class_bytes :: "u8 list \<Rightarrow> bool" where
  "class_bytes xs =
     (if xs = [] then True
      else if length xs < 2 \<or> unat (xs ! 0) < 2 \<or> length xs < unat (xs ! 0) \<or> proper (unat (xs ! 1)) then False
      else class_bytes (drop (unat (xs ! 0)) xs))"
  by pat_completeness auto
termination by (relation "measure length") auto

declare class_bytes.simps [simp del]

definition wf_endpoint :: "usb_endpoint \<Rightarrow> bool" where
  "wf_endpoint e \<longleftrightarrow> ep_bDescriptorType e = DT_ENDPOINT \<and>
     (ep_bLength e = 7 \<and> ep_bRefresh e = 0 \<and> ep_bSynchAddress e = 0 \<or> ep_bLength e = 9) \<and>
     ep_bEndpointAddress e < 256 \<and> ep_bmAttributes e < 256 \<and> ep_wMaxPacketSize e < 65536 \<and> ep_bInterval e < 256 \<and>
     ep_bRefresh e < 256 \<and> ep_bSynchAddress e < 256 \<and> class_bytes (ep_extra e)"

definition wf_altsetting :: "usb_altsetting \<Rightarrow> bool" where
  "wf_altsetting a \<longleftrightarrow> if_bLength a = 9 \<and> if_bDescriptorType a = DT_INTERFACE \<and> if_bInterfaceNumber a < 256 \<and>
     if_bAlternateSetting a < 256 \<and> if_bNumEndpoints a \<le> USB_MAXENDPOINTS \<and> if_bInterfaceClass a < 256 \<and>
     if_bInterfaceSubClass a < 256 \<and> if_bInterfaceProtocol a < 256 \<and> if_iInterface a < 256 \<and> class_bytes (if_extra a) \<and>
     if_bNumEndpoints a = length (endpoints a) \<and> if_endpoint a \<noteq> Some [] \<and> list_all wf_endpoint (endpoints a)"

definition wf_interface :: "usb_altsetting list \<Rightarrow> bool" where
  "wf_interface alts \<longleftrightarrow> alts \<noteq> [] \<and> list_all wf_altsetting alts \<and>
     list_all (\<lambda>a. if_bInterfaceNumber a = if_bInterfaceNumber (hd alts)) alts"

fun separate :: "usb_altsetting list list \<Rightarrow> bool" where
  "separate (a # b # is) \<longleftrightarrow> if_bInterfaceNumber (hd a) \<noteq> if_bInterfaceNumber (hd b) \<and> separate (b # is)"
| "separate is \<longleftrightarrow> True"

definition wf_config :: "usb_config \<Rightarrow> bool" where
  "wf_config c \<longleftrightarrow> cf_bLength c = 9 \<and> cf_bDescriptorType c = DT_CONFIG \<and> cf_wTotalLength c < 65536 \<and>
     cf_bNumInterfaces c = length (cf_interface c) \<and> cf_bNumInterfaces c \<le> USB_MAXINTERFACES \<and>
     cf_bConfigurationValue c < 256 \<and> cf_iConfiguration c < 256 \<and> cf_bmAttributes c < 256 \<and> cf_MaxPower c < 256 \<and>
     class_bytes (cf_extra c) \<and> (cf_interface c = [] \<longrightarrow> cf_extra c = []) \<and>
     list_all wf_interface (cf_interface c) \<and> separate (cf_interface c)"

section \<open>Bytes\<close>

lemma unat_byte: "unat (byte n) = n mod 256"
  by (simp add: byte_def unat_of_nat)

lemma unat_byte_small [simp]: "n < 256 \<Longrightarrow> unat (byte n) = n"
  by (simp add: unat_byte)

lemma le_nat_byte [simp]: "n < 256 \<Longrightarrow> le_nat [byte n] = n"
  by simp

lemma le_nat_le16: "w < 65536 \<Longrightarrow> le_nat [byte w, byte (w div 256)] = w"
  by (simp add: unat_byte)

section \<open>Skipping\<close>

text \<open>What may follow class specific bytes: nothing, or a standard descriptor that is there in full.\<close>

definition starts_proper :: "u8 list \<Rightarrow> bool" where
  "starts_proper ys \<longleftrightarrow> ys = [] \<or> 2 \<le> length ys \<and> 2 \<le> unat (ys ! 0) \<and> unat (ys ! 0) \<le> length ys \<and> proper (unat (ys ! 1))"

lemma skip_class_bytes:
  "class_bytes xs \<Longrightarrow> starts_proper ys \<Longrightarrow> skip_descriptors (xs @ ys) n = Skipped (n + length xs)"
proof (induction xs arbitrary: n rule: length_induct)
  case (1 xs)
  show ?case
  proof (cases "xs = []")
    case True
    then show ?thesis using "1.prems" by (auto simp: starts_proper_def skip_end skip_step Let_def)
  next
    case False
    define l where "l = unat (xs ! 0)"
    have x: "2 \<le> length xs" "2 \<le> l" "l \<le> length xs" "\<not> proper (unat (xs ! 1))" "class_bytes (drop l xs)"
      using "1.prems"(1) False by (simp_all only: class_bytes.simps [of xs] l_def split: if_splits) simp_all
    have "length (drop l xs) < length xs" using x by auto
    then have "skip_descriptors (drop l xs @ ys) (n + l) = Skipped (n + l + length (drop l xs))"
      using "1.IH" x "1.prems" by blast
    then show ?thesis using x False by (simp add: skip_step Let_def nth_append flip: l_def)
  qed
qed

section \<open>Endpoints\<close>

lemma parse_endpoint_enc:
  assumes "wf_endpoint e" "starts_proper ys"
  shows "parse_endpoint (enc_endpoint e @ ys) = Some (int (length (enc_endpoint e)), e)"
proof -
  have skip: "skip_descriptors (ep_extra e @ ys) 0 = Skipped (length (ep_extra e))"
    using assms by (simp add: skip_class_bytes wf_endpoint_def)
  show ?thesis
  proof (cases "ep_bLength e = 9")
    case True
    then show ?thesis using assms skip
      by (simp add: parse_endpoint_def enc_endpoint_def le16_def usbi_parse_descriptor.simps Let_def wf_endpoint_def
        usb_constants le_nat_le16 endpoint_of_def del: le_nat.simps(2))
  next
    case False
    then show ?thesis using assms skip
      by (simp add: parse_endpoint_def enc_endpoint_def le16_def usbi_parse_descriptor.simps Let_def wf_endpoint_def
        usb_constants le_nat_le16 endpoint_of_def del: le_nat.simps(2))
  qed
qed

lemma starts_endpoint: "wf_endpoint e \<Longrightarrow> starts_proper (enc_endpoint e @ ys)"
  by (auto simp: starts_proper_def enc_endpoint_def le16_def wf_endpoint_def usb_constants proper_def)

lemma parse_endpoints_enc:
  "list_all wf_endpoint es \<Longrightarrow> starts_proper ys \<Longrightarrow>
   parse_endpoints (length es) (concat (map enc_endpoint es) @ ys) = Some (Inr (es, length (concat (map enc_endpoint es))))"
proof (induction es)
  case (Cons e es)
  have "starts_proper (concat (map enc_endpoint es) @ ys)"
    using Cons.prems by (cases es) (auto intro: starts_endpoint)
  moreover have "enc_endpoint e \<noteq> []" by (simp add: enc_endpoint_def)
  ultimately show ?case using Cons by (simp add: parse_endpoint_enc)
qed simp

section \<open>Interfaces\<close>

definition header :: "usb_altsetting \<Rightarrow> usb_altsetting" where
  "header a = a\<lparr>if_endpoint := None, if_extra := []\<rparr>"

lemma altsetting_header:
  assumes "wf_altsetting a"
  shows "altsetting_of (map unat (take 9 (enc_altsetting a @ ys))) = header a"
  using assms
  by (simp add: enc_altsetting_def altsetting_of_def header_def wf_altsetting_def usb_constants)

lemma length_enc_altsetting: "9 \<le> length (enc_altsetting a)"
  by (simp add: enc_altsetting_def)

lemma starts_altsetting: "wf_altsetting a \<Longrightarrow> starts_proper (enc_altsetting a @ ys)"
  by (simp add: starts_proper_def enc_altsetting_def wf_altsetting_def usb_constants proper_def)

lemma parse_altsetting_enc:
  assumes "wf_altsetting a" "starts_proper ys"
  shows "parse_altsetting (header a) (drop 9 (enc_altsetting a) @ ys) = Some (Inr (True, a, length (enc_altsetting a) - 9))"
proof -
  let ?es = "concat (map enc_endpoint (endpoints a))"
  have "starts_proper (?es @ ys)"
    using assms by (cases "endpoints a") (auto simp: wf_altsetting_def intro: starts_endpoint)
  then have skip: "skip_descriptors (if_extra a @ ?es @ ys) 0 = Skipped (length (if_extra a))"
    using assms by (simp add: skip_class_bytes wf_altsetting_def)
  have eps: "parse_endpoints (if_bNumEndpoints a) (?es @ ys) = Some (Inr (endpoints a, length ?es))"
    using assms parse_endpoints_enc [of "endpoints a" ys] by (simp add: wf_altsetting_def)
  have d: "drop 9 (enc_altsetting a) = if_extra a @ ?es" by (simp add: enc_altsetting_def)
  have l: "length (enc_altsetting a) - 9 = length (if_extra a) + length ?es" by (simp add: enc_altsetting_def)
  show ?thesis
  proof (cases "if_endpoint a")
    case None
    then show ?thesis using assms skip
      by (simp add: parse_altsetting_def d l header_def endpoints_def wf_altsetting_def)
  next
    case (Some es)
    then show ?thesis using assms skip eps
      by (simp add: parse_altsetting_def d l header_def endpoints_def wf_altsetting_def Let_def)
  qed
qed

text \<open>What may follow an interface: the end, or another interface.\<close>

definition follows :: "nat \<Rightarrow> u8 list \<Rightarrow> bool" where
  "follows k ys \<longleftrightarrow> starts_proper ys \<and> \<not> (9 \<le> length ys \<and> unat (ys ! 1) = DT_INTERFACE \<and> unat (ys ! 2) = k)"

lemma parse_interface_enc:
  assumes "alts \<noteq> []" "list_all wf_altsetting alts" "list_all (\<lambda>a. if_bInterfaceNumber a = k) alts" "follows k ys"
    "number = None \<or> number = Some k"
  shows "parse_interface number parsed before (enc_interface alts @ ys) =
    Some (Inr (parsed + length (enc_interface alts), before @ alts))"
  using assms
proof (induction alts arbitrary: number parsed before)
  case (Cons a alts)
  let ?ys = "enc_interface alts @ ys"
  have a: "wf_altsetting a" "if_bInterfaceNumber a = k" using Cons.prems by auto
  have sp: "starts_proper ?ys"
    using Cons.prems by (cases alts) (auto simp: enc_interface_def follows_def intro: starts_altsetting)
  have e: "enc_interface (a # alts) @ ys = enc_altsetting a @ ?ys" by (simp add: enc_interface_def)
  have long: "9 \<le> length (enc_altsetting a @ ?ys)" using length_enc_altsetting [of a] by simp
  have h: "if_bLength (header a) = 9" "if_bDescriptorType (header a) = DT_INTERFACE"
      "if_bNumEndpoints (header a) \<le> USB_MAXENDPOINTS" "if_bInterfaceNumber (header a) = k"
    using a by (auto simp: header_def wf_altsetting_def)
  have d: "drop 9 (enc_altsetting a @ ?ys) = drop 9 (enc_altsetting a) @ ?ys"
    using length_enc_altsetting [of a] by simp
  obtain m where m: "length (enc_altsetting a) = 9 + m"
    using length_enc_altsetting [of a] le_Suc_ex by blast
  then have r: "drop (9 + m) (enc_altsetting a @ ?ys) = ?ys" by simp
  have next_header: "alts \<noteq> [] \<Longrightarrow> 9 \<le> length ?ys \<and> unat (?ys ! 1) = DT_INTERFACE \<and> unat (?ys ! 2) = k"
    using Cons.prems
    by (cases alts) (auto simp: enc_interface_def enc_altsetting_def wf_altsetting_def usb_constants)
  have k: "case_option k (\<lambda>k. k) number = k" using Cons.prems by auto
  have step: "parse_interface number parsed before (enc_altsetting a @ ?ys) =
      (if 9 \<le> length ?ys \<and> unat (?ys ! 1) = DT_INTERFACE \<and> unat (?ys ! 2) = k
       then parse_interface (Some k) (parsed + length (enc_altsetting a)) (before @ [a]) ?ys
       else Some (Inr (parsed + length (enc_altsetting a), before @ [a])))"
    using parse_altsetting_enc [OF a(1) sp] long
    by (simp only: parse_interface_step [OF long refl] altsetting_header [OF a(1)] h d m k Let_def)
      (simp add: r m h(3) add.assoc leD del: drop_append)
  show ?case
  proof (cases "alts = []")
    case True
    then show ?thesis using step Cons.prems by (auto simp: e enc_interface_def follows_def)
  next
    case False
    then show ?thesis using step next_header [OF False] Cons.IH [of "Some k"] Cons.prems
      by (simp add: e) (simp add: enc_interface_def)
  qed
qed simp

section \<open>Configurations\<close>

lemma follows_interfaces:
  assumes "list_all wf_interface is" "is \<noteq> [] \<longrightarrow> if_bInterfaceNumber (hd (hd is)) \<noteq> k"
  shows "follows k (concat (map enc_interface is))"
proof (cases "is")
  case (Cons alts "is'")
  then obtain a as where alts: "alts = a # as" "wf_altsetting a"
    using assms by (cases alts) (auto simp: wf_interface_def)
  have e: "concat (map enc_interface is) = enc_altsetting a @ (enc_interface as @ concat (map enc_interface is'))"
    by (simp add: Cons alts enc_interface_def)
  have "unat ((enc_altsetting a @ zs) ! 2) = if_bInterfaceNumber a" for zs
    using alts by (simp add: enc_altsetting_def wf_altsetting_def)
  then show ?thesis using assms Cons alts starts_altsetting
    unfolding follows_def e by simp
qed (simp add: follows_def starts_proper_def)

lemma starts_interfaces: "list_all wf_interface is \<Longrightarrow> starts_proper (concat (map enc_interface is))"
  by (cases "is"; cases "hd is") (auto simp: wf_interface_def enc_interface_def starts_proper_def [of "[]"] intro: starts_altsetting)

lemma parse_interfaces_enc:
  assumes "list_all wf_interface is" "separate is" "class_bytes bytes" "is = [] \<longrightarrow> bytes = []" "extra = [] \<or> bytes = []"
  shows "parse_interfaces (length is) extra (bytes @ concat (map enc_interface is)) = Some (Inr (is, extra @ bytes, []))"
  using assms
proof (induction "is" arbitrary: extra bytes)
  case (Cons alts "is")
  let ?rest = "concat (map enc_interface is)"
  have alts: "alts \<noteq> []" "list_all wf_altsetting alts"
      "list_all (\<lambda>a. if_bInterfaceNumber a = if_bInterfaceNumber (hd alts)) alts"
    using Cons.prems by (auto simp: wf_interface_def)
  have "separate is" and other: "is \<noteq> [] \<longrightarrow> if_bInterfaceNumber (hd (hd is)) \<noteq> if_bInterfaceNumber (hd alts)"
    using Cons.prems(2) by (cases "is"; simp)+
  have i: "parse_interface None 0 [] (enc_interface alts @ ?rest) = Some (Inr (length (enc_interface alts), alts))"
    using parse_interface_enc [OF alts follows_interfaces [OF _ other]] Cons.prems by simp
  have s: "skip_descriptors (bytes @ enc_interface alts @ ?rest) 0 = Skipped (length bytes)"
    using skip_class_bytes [OF Cons.prems(3) starts_interfaces [OF Cons.prems(1)]] by simp
  have ne: "enc_interface alts \<noteq> []"
    using alts(1) by (cases alts) (simp_all add: enc_interface_def enc_altsetting_def)
  have r: "parse_interfaces (length is) (extra @ bytes) ?rest = Some (Inr (is, extra @ bytes, []))"
    using Cons.IH [of "[]" "extra @ bytes"] Cons.prems \<open>separate is\<close> by (simp add: class_bytes.simps [of "[]"])
  show ?case using i s ne r Cons.prems(5) by (cases "extra = []") (auto simp: Let_def)
qed simp

lemma parse_config_header:
  assumes "wf_config c"
  shows "usbi_parse_descriptor (enc_config c) ''bbwbbbbb'' = Some [9, DT_CONFIG, cf_wTotalLength c, cf_bNumInterfaces c,
    cf_bConfigurationValue c, cf_iConfiguration c, cf_bmAttributes c, cf_MaxPower c]"
  using assms
  by (simp add: enc_config_def le16_def usbi_parse_descriptor.simps Let_def wf_config_def usb_constants le_nat_le16
    del: le_nat.simps(2))

text \<open>The parser reads the descriptors of every well-formed configuration back.\<close>

lemma usb_desc_roundtrip:
  assumes "wf_config c"
  shows "raw_desc_to_config (enc_config c) = Some (Inr c)"
proof -
  have d: "drop 9 (enc_config c) = cf_extra c @ concat (map enc_interface (cf_interface c))"
    and l: "9 \<le> length (enc_config c)"
    by (simp_all add: enc_config_def le16_def)
  have "parse_interfaces (cf_bNumInterfaces c) [] (drop 9 (enc_config c)) = Some (Inr (cf_interface c, cf_extra c, []))"
    unfolding d using parse_interfaces_enc [of "cf_interface c" "cf_extra c" "[]"] assms by (simp add: wf_config_def)
  then show ?thesis using assms l
    by (simp add: raw_desc_to_config_def parse_configuration_def parse_config_header config_of_def Let_def)
      (auto simp: wf_config_def usb_constants)
qed

text \<open>A device with one interface of one bulk endpoint and two class specific bytes before the interface.\<close>

definition rtl_config :: usb_config where
  "rtl_config = \<lparr>cf_bLength = 9, cf_bDescriptorType = 2, cf_wTotalLength = 27, cf_bNumInterfaces = 1,
     cf_bConfigurationValue = 1, cf_iConfiguration = 4, cf_bmAttributes = 128, cf_MaxPower = 250,
     cf_interface = [[\<lparr>if_bLength = 9, if_bDescriptorType = 4, if_bInterfaceNumber = 0, if_bAlternateSetting = 0,
        if_bNumEndpoints = 1, if_bInterfaceClass = 255, if_bInterfaceSubClass = 255, if_bInterfaceProtocol = 255,
        if_iInterface = 5, if_endpoint = Some [\<lparr>ep_bLength = 7, ep_bDescriptorType = 5, ep_bEndpointAddress = 129,
          ep_bmAttributes = 2, ep_wMaxPacketSize = 512, ep_bInterval = 0, ep_bRefresh = 0, ep_bSynchAddress = 0,
          ep_extra = []\<rparr>], if_extra = []\<rparr>]], cf_extra = [2, 0x21]\<rparr>"

lemma rtl_config_wf: "wf_config rtl_config"
proof -
  have "class_bytes []" by (simp add: class_bytes.simps)
  moreover have "class_bytes [2, 0x21]" by (simp add: class_bytes.simps proper_def usb_constants)
  ultimately show ?thesis
    by (simp add: wf_config_def rtl_config_def wf_interface_def wf_altsetting_def wf_endpoint_def endpoints_def usb_constants)
qed

end
