(* ===== verification/UsbConfigs.thy ===== *)
theory UsbConfigs
  imports UsbRoundTrip UsbQuery
begin

text \<open>
  The cached descriptors of a device in the Linux backend (\<open>os/linux_usbfs.c\<close>): how they are read when a device is found,
  and how a configuration is looked up by index, by value, or as the active one. A pointer into the descriptors with its
  \<open>size\<close> is the list of the bytes from there on. The search over descriptors of length zero does not return, which is
  \<open>None\<close>. What files and the kernel answer are parameters.
\<close>

section \<open>State\<close>

definition LIBUSB_ERROR_ACCESS :: int where "LIBUSB_ERROR_ACCESS = -3"
definition DEVICE_DESC_LENGTH :: nat where "DEVICE_DESC_LENGTH = 18"

record linux_env =
  sysfs_can_relate_devices :: bool
  sysfs_has_descriptors :: bool

datatype usb_speed = SPEED_UNKNOWN | SPEED_LOW | SPEED_FULL | SPEED_HIGH | SPEED_SUPER

record linux_device =
  bus_number :: u8
  device_address :: u8
  speed :: usb_speed
  sysfs_dir :: "string option"
  descriptors :: "u8 list"
  active_config :: int

section \<open>Seeking\<close>

definition desc_header :: "u8 list \<Rightarrow> nat list" where
  "desc_header buffer = the (usbi_parse_descriptor buffer ''bb'')"

text \<open>From offset \<open>i\<close> on; the result is an error or an offset.\<close>

partial_function (option) seek_to_next_descriptor :: "nat \<Rightarrow> nat \<Rightarrow> u8 list \<Rightarrow> (int + nat) option" where
  "seek_to_next_descriptor descriptor_type i buffer =
     (if buffer = [] then Some (Inl LIBUSB_ERROR_NOT_FOUND)
      else if length buffer < 2 then Some (Inl LIBUSB_ERROR_IO)
      else let header = desc_header buffer; bLength = header ! 0 in
        if i \<noteq> 0 \<and> header ! 1 = descriptor_type then Some (Inr i)
        else if bLength > length buffer then Some (Inl LIBUSB_ERROR_IO)
        else seek_to_next_descriptor descriptor_type (i + bLength) (drop bLength buffer))"

definition config_header :: "u8 list \<Rightarrow> usb_config" where
  "config_header buffer = config_of (the (usbi_parse_descriptor buffer ''bbwbbbbb''))"

definition seek_to_next_config :: "linux_env \<Rightarrow> u8 list \<Rightarrow> (int + nat) option" where
  "seek_to_next_config env buffer =
     (if buffer = [] then Some (Inl LIBUSB_ERROR_NOT_FOUND)
      else if length buffer < CONFIG_DESC_LENGTH then Some (Inl LIBUSB_ERROR_IO)
      else let config = config_header buffer in
        if cf_bDescriptorType config \<noteq> DT_CONFIG then Some (Inl LIBUSB_ERROR_IO)
        else if sysfs_has_descriptors env then
          (case seek_to_next_descriptor DT_CONFIG 0 buffer of
             None \<Rightarrow> None
           | Some (Inl r) \<Rightarrow> Some (if r = LIBUSB_ERROR_NOT_FOUND then Inr (length buffer) else Inl r)
           | Some (Inr i) \<Rightarrow> Some (Inr i))
        else if cf_wTotalLength config < CONFIG_DESC_LENGTH then Some (Inl LIBUSB_ERROR_IO)
        else if cf_wTotalLength config > length buffer then Some (Inr (length buffer))
        else Some (Inr (cf_wTotalLength config)))"

section \<open>Configurations\<close>

text \<open>The loop of \<open>op_get_config_descriptor_by_value\<close>; the buffer it gives is the first \<open>next\<close> bytes.\<close>

partial_function (option) by_value_loop :: "linux_env \<Rightarrow> u8 \<Rightarrow> u8 list \<Rightarrow> (int + u8 list) option" where
  "by_value_loop env value descs = (case seek_to_next_config env descs of
     None \<Rightarrow> None
   | Some (Inl r) \<Rightarrow> Some (Inl r)
   | Some (Inr next) \<Rightarrow>
       if descs ! 5 = value then Some (Inr (take next descs))
       else by_value_loop env value (drop next descs))"

definition op_get_config_descriptor_by_value :: "linux_env \<Rightarrow> linux_device \<Rightarrow> u8 \<Rightarrow> (int + u8 list) option" where
  "op_get_config_descriptor_by_value env dev value = by_value_loop env value (drop DEVICE_DESC_LENGTH (descriptors dev))"

text \<open>\<open>attr\<close>: what \<open>sysfs_get_active_config\<close> reads (an error, or a value, -1 for unconfigured).\<close>

definition op_get_active_config_descriptor ::
    "linux_env \<Rightarrow> int + int \<Rightarrow> linux_device \<Rightarrow> nat \<Rightarrow> (int + u8 list) option" where
  "op_get_active_config_descriptor env attr dev len =
     (case if sysfs_can_relate_devices env then attr else Inr (active_config dev) of
        Inl r \<Rightarrow> Some (Inl r)
      | Inr config \<Rightarrow>
          if config = -1 then Some (Inl LIBUSB_ERROR_NOT_FOUND)
          else case op_get_config_descriptor_by_value env dev (word_of_int config) of
            None \<Rightarrow> None
          | Some (Inl r) \<Rightarrow> Some (Inl r)
          | Some (Inr config_desc) \<Rightarrow> Some (Inr (take len config_desc)))"

partial_function (option) by_index_loop :: "linux_env \<Rightarrow> nat \<Rightarrow> nat \<Rightarrow> u8 list \<Rightarrow> (int + u8 list) option" where
  "by_index_loop env config_index i descs = (case seek_to_next_config env descs of
     None \<Rightarrow> None
   | Some (Inl r) \<Rightarrow> Some (Inl r)
   | Some (Inr r) \<Rightarrow>
       if i = config_index then Some (Inr (take r descs))
       else by_index_loop env config_index (i + 1) (drop r descs))"

definition op_get_config_descriptor :: "linux_env \<Rightarrow> linux_device \<Rightarrow> nat \<Rightarrow> nat \<Rightarrow> (int + u8 list) option" where
  "op_get_config_descriptor env dev config_index len =
     (case by_index_loop env config_index 0 (drop DEVICE_DESC_LENGTH (descriptors dev)) of
        None \<Rightarrow> None
      | Some (Inl r) \<Rightarrow> Some (Inl r)
      | Some (Inr config_desc) \<Rightarrow> Some (Inr (take len config_desc)))"

text \<open>
  \<open>sysfs_get_active_config\<close>: an error of \<open>open\<close>, an error of \<open>read\<close>, or up to five bytes. \<open>strtol\<close> skips white space, takes a
  sign and the digits.
\<close>

definition digit :: "u8 \<Rightarrow> bool" where
  "digit c \<longleftrightarrow> 0x30 \<le> c \<and> c \<le> 0x39"

fun digits_value :: "int \<Rightarrow> u8 list \<Rightarrow> int" where
  "digits_value v [] = v"
| "digits_value v (c # cs) = (if digit c then digits_value (10 * v + (uint c - 0x30)) cs else v)"

definition strtol :: "u8 list \<Rightarrow> int option" where
  "strtol s = (let t = dropWhile (\<lambda>c. c = 0x20 \<or> 0x09 \<le> c \<and> c \<le> 0x0d) s;
     (sign, u) = (case t of c # cs \<Rightarrow> if c = 0x2d then (-1, cs) else if c = 0x2b then (1, cs) else (1, t) | [] \<Rightarrow> (1, [])) in
     case u of c # cs \<Rightarrow> if digit c then Some (sign * digits_value 0 u) else None | [] \<Rightarrow> None)"

datatype attr_read = Attr_open_error int | Attr_read_error | Attr_bytes "u8 list"

definition sysfs_get_active_config :: "attr_read \<Rightarrow> int + int" where
  "sysfs_get_active_config a = (case a of
     Attr_open_error r \<Rightarrow> Inl r
   | Attr_read_error \<Rightarrow> Inl LIBUSB_ERROR_IO
   | Attr_bytes bytes \<Rightarrow>
       if bytes = [] then Inr (-1)
       else let tmp = take 5 (bytes @ replicate 5 0) in
         if tmp ! 4 \<noteq> 0 then Inl LIBUSB_ERROR_IO
         else if tmp ! 0 = 0 then Inl LIBUSB_ERROR_IO
         else case strtol tmp of None \<Rightarrow> Inl LIBUSB_ERROR_IO | Some num \<Rightarrow> Inr num)"

section \<open>A new device\<close>

text \<open>
  The loop that reads the descriptors: the buffer doubles while it is full. \<open>file\<close> answers to a read of \<open>n\<close> bytes at a
  position. \<open>None\<close>: the file never ends.
\<close>

partial_function (option) read_descriptors :: "(nat \<Rightarrow> nat \<Rightarrow> int + u8 list) \<Rightarrow> nat \<Rightarrow> u8 list \<Rightarrow> (int + u8 list) option" where
  "read_descriptors file descriptors_size buffer =
     (let descriptors_size = descriptors_size * 2 in
      case file (length buffer) (descriptors_size - length buffer) of
        Inl r \<Rightarrow> Some (Inl LIBUSB_ERROR_IO)
      | Inr bytes \<Rightarrow>
          let buffer = buffer @ take (descriptors_size - length buffer) bytes in
          if length buffer = descriptors_size then read_descriptors file descriptors_size buffer
          else Some (Inr buffer))"

text \<open>\<open>usbfs_get_active_config\<close>: the answer of the control request, an errno or the byte.\<close>

definition usbfs_get_active_config :: "int + u8 \<Rightarrow> int" where
  "usbfs_get_active_config answer = (case answer of
     Inl errno \<Rightarrow> if errno = 19 then LIBUSB_ERROR_NO_DEVICE else LIBUSB_ERROR_IO
   | Inr value \<Rightarrow> uint value)"

definition speed_of :: "int \<Rightarrow> usb_speed" where
  "speed_of mbps = (if mbps = 1 then SPEED_LOW else if mbps = 12 then SPEED_FULL else if mbps = 480 then SPEED_HIGH
     else if mbps = 5000 then SPEED_SUPER else SPEED_UNKNOWN)"

text \<open>
  What the system answers: the attribute \<open>speed\<close>, the descriptor to read from (or an error), its contents, whether the
  device can be opened for writing, and the request for the active configuration.
\<close>

record device_files =
  df_speed :: int
  df_open :: int
  df_file :: "nat \<Rightarrow> nat \<Rightarrow> int + u8 list"
  df_open_rw :: int
  df_active :: "int + u8"

definition cache_active_config :: "linux_env \<Rightarrow> device_files \<Rightarrow> linux_device \<Rightarrow> int \<times> linux_device" where
  "cache_active_config env files dev =
     (if sysfs_can_relate_devices env then (0, dev)
      else if df_open_rw files < 0 then
        (0, dev\<lparr>active_config :=
           (if length (descriptors dev) \<ge> DEVICE_DESC_LENGTH + CONFIG_DESC_LENGTH
            then int (cf_bConfigurationValue (config_header (drop DEVICE_DESC_LENGTH (descriptors dev)))) else -1)\<rparr>)
      else let r = usbfs_get_active_config (df_active files) in
        if r > 0 then (0, dev\<lparr>active_config := r\<rparr>)
        else if r = 0 \<or> r = LIBUSB_ERROR_IO then (0, dev\<lparr>active_config := -1\<rparr>)
        else (r, dev))"

definition initialize_device ::
    "linux_env \<Rightarrow> device_files \<Rightarrow> u8 \<Rightarrow> u8 \<Rightarrow> string option \<Rightarrow> linux_device \<Rightarrow> (int \<times> linux_device) option" where
  "initialize_device env files busnum devaddr sysdir dev =
     (let dev = dev\<lparr>bus_number := busnum, device_address := devaddr\<rparr>;
          dev = (if sysdir \<noteq> None then dev\<lparr>sysfs_dir := sysdir,
            speed := (if df_speed files \<ge> 0 \<and> speed_of (df_speed files) \<noteq> SPEED_UNKNOWN then speed_of (df_speed files) else speed dev)\<rparr>
            else dev) in
      if df_open files < 0 then Some (df_open files, dev)
      else case read_descriptors (df_file files) 512 (descriptors dev) of
        None \<Rightarrow> None
      | Some (Inl r) \<Rightarrow> Some (r, dev)
      | Some (Inr bytes) \<Rightarrow>
          let dev = dev\<lparr>descriptors := bytes\<rparr> in
          if length bytes < DEVICE_DESC_LENGTH then Some (LIBUSB_ERROR_IO, dev)
          else Some (cache_active_config env files dev))"

end
