(* ===== verification/UsbConfigProps.thy ===== *)
theory UsbConfigProps
  imports UsbConfigs
begin

text \<open>
  The lookup of configurations in the cached descriptors: every configuration of a device is found, by its index
  and by its value, whether the descriptors come from sysfs or from usbfs, and the parser reads it back.
\<close>

section \<open>Whole descriptors\<close>

text \<open>A sequence of descriptors, none of which is a configuration.\<close>

inductive whole :: "u8 list \<Rightarrow> bool" where
  whole_nil: "whole []"
| whole_step: "2 \<le> length d \<Longrightarrow> unat (d ! 0) = length d \<Longrightarrow> unat (d ! 1) \<noteq> DT_CONFIG \<Longrightarrow> whole xs \<Longrightarrow> whole (d @ xs)"

lemma whole_append: "whole xs \<Longrightarrow> whole ys \<Longrightarrow> whole (xs @ ys)"
  by (induction xs rule: whole.induct) (simp_all add: whole_step)

lemma whole_concat: "list_all whole xss \<Longrightarrow> whole (concat xss)"
  by (induction xss) (auto intro: whole_nil whole_append)

lemma whole_one: "2 \<le> length d \<Longrightarrow> unat (d ! 0) = length d \<Longrightarrow> unat (d ! 1) \<noteq> DT_CONFIG \<Longrightarrow> whole d"
  using whole_step [of d "[]"] whole_nil by simp

lemma desc_header_eq: "2 \<le> length buffer \<Longrightarrow> desc_header buffer = [unat (buffer ! 0), unat (buffer ! 1)]"
  by (cases buffer; cases "tl buffer") (auto simp: desc_header_def field_width_def usbi_parse_descriptor.simps)

lemma seek_whole:
  "whole xs \<Longrightarrow> i \<noteq> 0 \<Longrightarrow>
   seek_to_next_descriptor DT_CONFIG i (xs @ rest) = seek_to_next_descriptor DT_CONFIG (i + length xs) rest"
proof (induction xs arbitrary: i rule: whole.induct)
  case (whole_step d xs)
  have "desc_header ((d @ xs) @ rest) = [length d, unat (d ! 1)]"
    using whole_step.hyps by (subst desc_header_eq) (auto simp: nth_append)
  then show ?case using whole_step.hyps whole_step.prems whole_step.IH [of "i + length d"]
    by (subst seek_to_next_descriptor.simps) (auto simp: add.assoc)
qed simp

lemma whole_class_bytes: "class_bytes xs \<Longrightarrow> whole xs"
proof (induction xs rule: length_induct)
  case (1 xs)
  show ?case
  proof (cases "xs = []")
    case False
    define l where "l = unat (xs ! 0)"
    have x: "2 \<le> length xs" "2 \<le> l" "l \<le> length xs" "\<not> proper (unat (xs ! 1))" "class_bytes (drop l xs)"
      using "1.prems"(1) False by (simp_all only: class_bytes.simps [of xs] l_def split: if_splits) simp_all
    then have "whole (drop l xs)" using "1.IH" by simp
    moreover have "whole (take l xs)" using x by (intro whole_one) (auto simp: proper_def l_def)
    ultimately show ?thesis using whole_append [of "take l xs" "drop l xs"] by simp
  qed (simp add: whole_nil)
qed

lemma whole_endpoint: "wf_endpoint e \<Longrightarrow> whole (enc_endpoint e)"
proof -
  assume e: "wf_endpoint e"
  let ?d = "[byte (ep_bLength e), byte (ep_bDescriptorType e), byte (ep_bEndpointAddress e),
     byte (ep_bmAttributes e)] @ le16 (ep_wMaxPacketSize e) @ [byte (ep_bInterval e)] @
     (if ep_bLength e = 9 then [byte (ep_bRefresh e), byte (ep_bSynchAddress e)] else [])"
  have "whole ?d"
    using e by (intro whole_one) (auto simp: wf_endpoint_def le16_def usb_constants)
  moreover have "whole (ep_extra e)" using e by (simp add: wf_endpoint_def whole_class_bytes)
  ultimately show "whole (enc_endpoint e)" using whole_append [of ?d "ep_extra e"] by (simp add: enc_endpoint_def)
qed

lemma whole_altsetting:
  assumes "wf_altsetting a"
  shows "whole (enc_altsetting a)"
proof -
  let ?d = "map byte [if_bLength a, if_bDescriptorType a, if_bInterfaceNumber a, if_bAlternateSetting a,
     if_bNumEndpoints a, if_bInterfaceClass a, if_bInterfaceSubClass a, if_bInterfaceProtocol a, if_iInterface a]"
  have "whole ?d" using assms by (intro whole_one) (auto simp: wf_altsetting_def usb_constants)
  moreover have "whole (if_extra a)" using assms by (simp add: wf_altsetting_def whole_class_bytes)
  moreover have "whole (concat (map enc_endpoint (endpoints a)))"
    using assms by (intro whole_concat) (auto simp: wf_altsetting_def list_all_iff whole_endpoint)
  ultimately have "whole (?d @ if_extra a @ concat (map enc_endpoint (endpoints a)))" by (intro whole_append)
  then show ?thesis unfolding enc_altsetting_def .
qed

lemma whole_interface: "wf_interface alts \<Longrightarrow> whole (enc_interface alts)"
  by (auto simp: enc_interface_def wf_interface_def list_all_iff intro!: whole_concat whole_altsetting)

section \<open>One configuration\<close>

text \<open>A configuration as a device keeps it: its total length is that of its descriptors.\<close>

definition stored :: "usb_config \<Rightarrow> bool" where
  "stored c \<longleftrightarrow> wf_config c \<and> cf_wTotalLength c = length (enc_config c)"

definition enc_body :: "usb_config \<Rightarrow> u8 list" where
  "enc_body c = cf_extra c @ concat (map enc_interface (cf_interface c))"

lemma length_enc_config: "length (enc_config c) = 9 + length (enc_body c)"
  by (simp add: enc_config_def enc_body_def le16_def)

lemma whole_body:
  assumes "wf_config c"
  shows "whole (enc_body c)"
proof -
  have "whole (cf_extra c)" using assms by (simp add: wf_config_def whole_class_bytes)
  moreover have "whole (concat (map enc_interface (cf_interface c)))"
    using assms by (intro whole_concat) (auto simp: wf_config_def list_all_iff whole_interface)
  ultimately show ?thesis unfolding enc_body_def by (rule whole_append)
qed

lemma enc_config_header:
  assumes "stored c"
  shows "desc_header (enc_config c @ ys) = [9, DT_CONFIG]" "cf_bDescriptorType (config_header (enc_config c @ ys)) = DT_CONFIG"
    "cf_wTotalLength (config_header (enc_config c @ ys)) = length (enc_config c)"
    "unat ((enc_config c @ ys) ! 5) = cf_bConfigurationValue c" "drop 9 (enc_config c @ ys) = enc_body c @ ys"
proof -
  have w: "cf_wTotalLength c < 65536" "cf_wTotalLength c = length (enc_config c)" "cf_bLength c = 9" "cf_bDescriptorType c = DT_CONFIG"
      "cf_bConfigurationValue c < 256"
    using assms by (simp_all add: stored_def wf_config_def)
  have l: "le_nat (le16 (cf_wTotalLength c)) = length (enc_config c)"
    using le_nat_le16 [OF w(1)] w(2) by (simp only: le16_def)
  have v: "the (usbi_parse_descriptor (enc_config c @ ys) ''bbwbbbbb'') =
      [cf_bLength c mod 256, cf_bDescriptorType c mod 256, length (enc_config c), cf_bNumInterfaces c mod 256,
       cf_bConfigurationValue c mod 256, cf_iConfiguration c mod 256, cf_bmAttributes c mod 256, cf_MaxPower c mod 256]"
    using l by (simp add: enc_config_def le16_def usbi_parse_descriptor.simps field_width_def unat_byte)
  show "desc_header (enc_config c @ ys) = [9, DT_CONFIG]"
    using w(3,4) by (simp add: desc_header_eq enc_config_def usb_constants)
  show "cf_bDescriptorType (config_header (enc_config c @ ys)) = DT_CONFIG"
      "cf_wTotalLength (config_header (enc_config c @ ys)) = length (enc_config c)"
    using w(4) v by (simp_all add: config_header_def config_of_def DT_CONFIG_def)
  show "unat ((enc_config c @ ys) ! 5) = cf_bConfigurationValue c" using w(5) by (simp add: enc_config_def le16_def)
  show "drop 9 (enc_config c @ ys) = enc_body c @ ys" by (simp add: enc_config_def enc_body_def le16_def)
qed

lemma seek_config:
  assumes "stored c" "rest = [] \<or> (\<exists>d ys. stored d \<and> rest = enc_config d @ ys)"
  shows "seek_to_next_config env (enc_config c @ rest) = Some (Inr (length (enc_config c)))"
proof -
  let ?n = "length (enc_config c)"
  have n: "?n = 9 + length (enc_body c)" by (rule length_enc_config)
  have e: "enc_config c \<noteq> []" using n by auto
  have s: "seek_to_next_descriptor DT_CONFIG 0 (enc_config c @ rest) = seek_to_next_descriptor DT_CONFIG ?n rest"
    using e enc_config_header(1,5) [OF assms(1), of rest] seek_whole [OF whole_body, of c 9 rest] assms(1) n
    by (subst seek_to_next_descriptor.simps) (simp add: stored_def)
  show ?thesis
  proof (cases "rest = []")
    case True
    have "seek_to_next_descriptor DT_CONFIG ?n [] = Some (Inl LIBUSB_ERROR_NOT_FOUND)"
      by (subst seek_to_next_descriptor.simps) simp
    then show ?thesis using True s n e enc_config_header(2,3) [OF assms(1), of rest]
      by (simp add: seek_to_next_config_def Let_def CONFIG_DESC_LENGTH_def)
  next
    case False
    then obtain d ys where d: "stored d" "rest = enc_config d @ ys" using assms(2) by blast
    have "seek_to_next_descriptor DT_CONFIG ?n rest = Some (Inr ?n)"
      using False n enc_config_header(1) [OF d(1), of ys] length_enc_config [of d] d(2)
      by (subst seek_to_next_descriptor.simps) simp
    then show ?thesis using s n e enc_config_header(2,3) [OF assms(1), of rest]
      by (simp add: seek_to_next_config_def Let_def CONFIG_DESC_LENGTH_def)
  qed
qed

section \<open>All configurations\<close>

abbreviation enc_configs :: "usb_config list \<Rightarrow> u8 list" where
  "enc_configs cs \<equiv> concat (map enc_config cs)"

lemma seek_configs:
  "list_all stored (c # cs) \<Longrightarrow> seek_to_next_config env (enc_configs (c # cs)) = Some (Inr (length (enc_config c)))"
  using seek_config [of c "[]" env] by (cases cs) (auto intro: seek_config)

lemma seek_no_config: "seek_to_next_config env [] = Some (Inl LIBUSB_ERROR_NOT_FOUND)"
  by (simp add: seek_to_next_config_def)

lemma by_index_configs:
  "list_all stored cs \<Longrightarrow> i \<le> config_index \<Longrightarrow> by_index_loop env config_index i (enc_configs cs) =
     Some (if config_index - i < length cs then Inr (enc_config (cs ! (config_index - i))) else Inl LIBUSB_ERROR_NOT_FOUND)"
proof (induction cs arbitrary: i)
  case Nil
  then show ?case by (subst by_index_loop.simps) (simp add: seek_no_config)
next
  case (Cons c cs)
  then show ?case using seek_configs [OF Cons.prems(1), of env]
    by (subst by_index_loop.simps) (auto simp: Suc_diff_le nth_Cons')
qed

lemma by_value_configs:
  "list_all stored cs \<Longrightarrow> by_value_loop env value (enc_configs cs) =
     Some (case find (\<lambda>c. cf_bConfigurationValue c = unat value) cs of
       Some c \<Rightarrow> Inr (enc_config c) | None \<Rightarrow> Inl LIBUSB_ERROR_NOT_FOUND)"
proof (induction cs)
  case Nil
  then show ?case by (subst by_value_loop.simps) (simp add: seek_no_config)
next
  case (Cons c cs)
  have "unat ((enc_configs (c # cs)) ! 5) = cf_bConfigurationValue c"
    using Cons.prems enc_config_header(4) [of c "enc_configs cs"] by simp
  then have "(enc_configs (c # cs)) ! 5 = value \<longleftrightarrow> cf_bConfigurationValue c = unat value"
    by (metis word_unat_eq_iff)
  then show ?case using seek_configs [OF Cons.prems, of env] Cons
    by (subst by_value_loop.simps) auto
qed

section \<open>Reading the descriptors\<close>

text \<open>A file that answers every read in full.\<close>

definition file_of :: "u8 list \<Rightarrow> nat \<Rightarrow> nat \<Rightarrow> int + u8 list" where
  "file_of bytes pos n = Inr (take n (drop pos bytes))"

lemma read_file:
  "descriptors_size > 0 \<Longrightarrow> n \<le> descriptors_size \<Longrightarrow> n \<le> length bytes \<Longrightarrow>
   read_descriptors (file_of bytes) descriptors_size (take n bytes) = Some (Inr bytes)"
proof (induction "length bytes - descriptors_size" arbitrary: descriptors_size n rule: less_induct)
  case less
  have t: "take n bytes @ take (2 * descriptors_size - n) (drop n bytes) = take (2 * descriptors_size) bytes"
    using less.prems by (metis le_add_diff_inverse mult_2 take_add trans_le_add1)
  show ?case
  proof (cases "2 * descriptors_size \<le> length bytes")
    case True
    then have "read_descriptors (file_of bytes) (descriptors_size * 2) (take (descriptors_size * 2) bytes) = Some (Inr bytes)"
      using less.prems by (intro less.hyps) auto
    then show ?thesis using less.prems True t
      by (subst read_descriptors.simps) (simp add: file_of_def Let_def mult.commute)
  next
    case False
    then show ?thesis using less.prems t
      by (subst read_descriptors.simps) (simp add: file_of_def Let_def mult.commute)
  qed
qed

lemma initialize_descriptors:
  assumes "initialize_device env files busnum devaddr sysdir dev0 = Some (0, dev)" "df_file files = file_of bytes"
    "descriptors dev0 = []"
  shows "descriptors dev = bytes"
proof -
  have "read_descriptors (file_of bytes) 512 [] = Some (Inr bytes)" using read_file [of 512 0 bytes] by simp
  then show ?thesis using assms
    by (auto simp: initialize_device_def cache_active_config_def Let_def LIBUSB_ERROR_IO_def split: if_splits)
qed

section \<open>Lookup\<close>

text \<open>The backend of a device, as the functions of \<open>descriptor.c\<close> call it.\<close>

definition config_source :: "linux_env \<Rightarrow> linux_device \<Rightarrow> nat \<Rightarrow> desc_source" where
  "config_source env dev config_index n = the (op_get_config_descriptor env dev config_index n)"

definition value_source :: "linux_env \<Rightarrow> linux_device \<Rightarrow> nat \<Rightarrow> int + u8 list" where
  "value_source env dev value = the (op_get_config_descriptor_by_value env dev (word_of_nat value))"

definition active_source :: "linux_env \<Rightarrow> int + int \<Rightarrow> linux_device \<Rightarrow> desc_source" where
  "active_source env attr dev n = the (op_get_active_config_descriptor env attr dev n)"

definition config_with_value :: "usb_config list \<Rightarrow> nat \<Rightarrow> int + usb_config" where
  "config_with_value cs value = (case find (\<lambda>c. cf_bConfigurationValue c = value) cs of
     Some c \<Rightarrow> Inr c | None \<Rightarrow> Inl LIBUSB_ERROR_NOT_FOUND)"

lemma stored_find: "list_all stored cs \<Longrightarrow> find P cs = Some c \<Longrightarrow> stored c"
  by (auto simp: find_Some_iff list_all_iff)

text \<open>Two requests read a stored configuration.\<close>

lemma two_requests:
  assumes "stored c" "\<And>n. source n = Inr (take n (enc_config c))"
  shows "libusb_get_active_config_descriptor source = Some (Inr c)"
proof -
  have w: "cf_wTotalLength c < 65536" "cf_wTotalLength c = length (enc_config c)"
    using assms by (simp_all add: stored_def wf_config_def)
  have "le_nat (le16 (cf_wTotalLength c)) = length (enc_config c)" using le_nat_le16 [OF w(1)] w(2) by (simp only: le16_def)
  then have "usbi_parse_descriptor (take 9 (enc_config c)) ''bbw'' =
      Some [cf_bLength c mod 256, cf_bDescriptorType c mod 256, length (enc_config c)]"
    by (simp add: enc_config_def le16_def usbi_parse_descriptor.simps field_width_def unat_byte)
  then show ?thesis using assms length_enc_config [of c] usb_desc_roundtrip [of c]
    by (simp add: libusb_get_active_config_descriptor_def ask_def CONFIG_DESC_LENGTH_def stored_def)
qed

lemma by_index_found:
  assumes "list_all stored cs" "length devdesc = DEVICE_DESC_LENGTH" "descriptors dev = devdesc @ enc_configs cs"
  shows "libusb_get_config_descriptor (config_source env dev) (length cs) i =
    Some (if i < length cs then Inr (cs ! i) else Inl LIBUSB_ERROR_NOT_FOUND)"
proof (cases "i < length cs")
  case True
  then have "stored (cs ! i)" using assms(1) by (simp add: list_all_length)
  moreover have "config_source env dev i n = Inr (take n (enc_config (cs ! i)))" for n
    using assms True by_index_configs [of cs 0 i env] by (simp add: config_source_def op_get_config_descriptor_def)
  ultimately show ?thesis using True by (simp add: libusb_get_config_descriptor_def two_requests)
qed (simp add: libusb_get_config_descriptor_def)

lemma by_value_found:
  assumes "list_all stored cs" "length devdesc = DEVICE_DESC_LENGTH" "descriptors dev = devdesc @ enc_configs cs"
  shows "op_get_config_descriptor_by_value env dev value = Some (case config_with_value cs (unat value) of
    Inr c \<Rightarrow> Inr (enc_config c) | Inl r \<Rightarrow> Inl r)"
  using assms by_value_configs [of cs env "value"]
  by (simp add: op_get_config_descriptor_by_value_def config_with_value_def split: option.split)

text \<open>
  C15. When a device is found whose descriptor file, in sysfs or in usbfs, holds the device descriptor and well-formed
  configurations, every configuration is then read back in full, all interfaces with their alternate settings, endpoints and class
  specific bytes: by its index, by its value, and, where sysfs tells the active configuration (\<open>sysfs_can_relate_devices\<close>), as the
  active one.\<close>

theorem usb_configs_found:
  assumes "initialize_device env files busnum devaddr sysdir dev0 = Some (0, dev)" "descriptors dev0 = []"
    "df_file files = file_of (devdesc @ enc_configs cs)" "length devdesc = DEVICE_DESC_LENGTH" "list_all stored cs" "value < 256"
  shows "libusb_get_config_descriptor (config_source env dev) (length cs) i =
      Some (if i < length cs then Inr (cs ! i) else Inl LIBUSB_ERROR_NOT_FOUND) \<and>
    libusb_get_config_descriptor_by_value (Some (value_source env dev)) (config_source env dev) (length cs) value =
      Some (config_with_value cs value) \<and>
    (sysfs_can_relate_devices env \<longrightarrow>
      libusb_get_active_config_descriptor (active_source env (Inr (int value)) dev) = Some (config_with_value cs value))"
proof -
  note d = initialize_descriptors [OF assms(1,3,2)]
  have u: "unat (word_of_nat value :: u8) = value" using assms(6) by (simp add: unat_of_nat)
  then have v: "op_get_config_descriptor_by_value env dev (word_of_nat value) = Some (case config_with_value cs value of
      Inr c \<Rightarrow> Inr (enc_config c) | Inl r \<Rightarrow> Inl r)"
    using by_value_found [OF assms(5,4) d, of env "word_of_nat value"] by simp
  have s: "stored c" if "config_with_value cs value = Inr c" for c
    using that stored_find [OF assms(5)] by (auto simp: config_with_value_def split: option.splits)
  have "libusb_get_config_descriptor_by_value (Some (value_source env dev)) (config_source env dev) (length cs) value =
      Some (config_with_value cs value)"
    using v s by (cases "config_with_value cs value")
      (auto simp: libusb_get_config_descriptor_by_value_def value_source_def stored_def usb_desc_roundtrip)
  moreover have "libusb_get_active_config_descriptor (active_source env (Inr (int value)) dev) = Some (config_with_value cs value)"
    if r: "sysfs_can_relate_devices env"
  proof (cases "config_with_value cs value")
    case (Inl e)
    then show ?thesis using r v
      by (simp add: libusb_get_active_config_descriptor_def active_source_def ask_def op_get_active_config_descriptor_def)
  next
    case (Inr c)
    then have "active_source env (Inr (int value)) dev n = Inr (take n (enc_config c))" for n
      using r v by (simp add: active_source_def op_get_active_config_descriptor_def)
    then show ?thesis using two_requests [OF s [OF Inr]] Inr by simp
  qed
  ultimately show ?thesis using by_index_found [OF assms(5,4) d] by blast
qed

text \<open>A device with two configurations, the second like the first but for its value.\<close>

definition example_configs :: "usb_config list" where
  "example_configs = [rtl_config, rtl_config\<lparr>cf_bConfigurationValue := 7\<rparr>]"

lemma example_stored: "list_all stored example_configs"
proof -
  have "length (enc_config rtl_config) = 27"
    by (simp add: rtl_config_def enc_config_def enc_interface_def enc_altsetting_def enc_endpoint_def endpoints_def le16_def)
  then have s: "stored rtl_config" using rtl_config_wf by (simp add: stored_def rtl_config_def)
  then have "stored (rtl_config\<lparr>cf_bConfigurationValue := 7\<rparr>)"
    by (simp add: stored_def wf_config_def enc_config_def)
  then show ?thesis using s by (simp add: example_configs_def)
qed

definition new_device :: linux_device where
  "new_device = \<lparr>bus_number = 0, device_address = 0, speed = SPEED_UNKNOWN, sysfs_dir = None, descriptors = [], active_config = 0\<rparr>"

definition example_files :: device_files where
  "example_files = \<lparr>df_speed = 480, df_open = 3, df_file = file_of (replicate 18 0 @ enc_configs example_configs),
     df_open_rw = -1, df_active = Inr 1\<rparr>"

lemma example_device:
  "initialize_device \<lparr>sysfs_can_relate_devices = True, sysfs_has_descriptors = True\<rparr> example_files 1 4 (Some ''1-4'') new_device =
     Some (0, new_device\<lparr>bus_number := 1, device_address := 4, speed := SPEED_HIGH, sysfs_dir := Some ''1-4'',
       descriptors := replicate 18 0 @ enc_configs example_configs\<rparr>)"
  using read_file [of 512 0 "replicate 18 0 @ enc_configs example_configs"]
  by (simp add: initialize_device_def example_files_def new_device_def Let_def speed_of_def DEVICE_DESC_LENGTH_def
      cache_active_config_def)

theorem usb_configs_found_witness:
  "\<exists>dev. libusb_get_config_descriptor (config_source \<lparr>sysfs_can_relate_devices = True, sysfs_has_descriptors = True\<rparr> dev) 2 0 =
      Some (Inr rtl_config) \<and>
    libusb_get_active_config_descriptor (active_source \<lparr>sysfs_can_relate_devices = True, sysfs_has_descriptors = True\<rparr>
      (Inr 7) dev) = Some (Inr (rtl_config\<lparr>cf_bConfigurationValue := 7\<rparr>))"
proof -
  have "descriptors new_device = []" "df_file example_files = file_of (replicate 18 0 @ enc_configs example_configs)"
      "length (replicate 18 (0::u8)) = DEVICE_DESC_LENGTH"
    by (simp_all add: new_device_def example_files_def DEVICE_DESC_LENGTH_def)
  moreover obtain dev where "initialize_device \<lparr>sysfs_can_relate_devices = True, sysfs_has_descriptors = True\<rparr> example_files
      1 4 (Some ''1-4'') new_device = Some (0, dev)"
    using example_device by blast
  ultimately have found: "libusb_get_config_descriptor (config_source \<lparr>sysfs_can_relate_devices = True,
        sysfs_has_descriptors = True\<rparr> dev) (length example_configs) 0 =
      Some (if 0 < length example_configs then Inr (example_configs ! 0) else Inl LIBUSB_ERROR_NOT_FOUND)"
    "libusb_get_active_config_descriptor (active_source \<lparr>sysfs_can_relate_devices = True, sysfs_has_descriptors = True\<rparr>
      (Inr 7) dev) = Some (config_with_value example_configs 7)"
    using usb_configs_found [OF _ _ _ _ example_stored, of _ example_files 1 4 "Some ''1-4''" new_device dev "replicate 18 0" 7 0]
    by simp_all
  have "config_with_value example_configs 7 = Inr (rtl_config\<lparr>cf_bConfigurationValue := 7\<rparr>)"
    by (simp add: config_with_value_def example_configs_def rtl_config_def)
  moreover have "length example_configs = 2" "example_configs ! 0 = rtl_config" by (simp_all add: example_configs_def)
  ultimately show ?thesis using found by (intro exI [of _ dev]) simp
qed

section \<open>Limits\<close>

text \<open>
  The search over descriptors from sysfs takes a length of zero for granted to be impossible: at a descriptor of length
  zero it stays where it is.
\<close>

lemma seek_zero_length:
  assumes "2 \<le> length buffer" "buffer ! 0 = 0"
  shows "seek_to_next_descriptor descriptor_type 0 buffer = None"
proof -
  have "\<not> (i = 0 \<and> 2 \<le> length b \<and> b ! 0 = 0)" if "seek_to_next_descriptor t i b = Some y" for t i b y
  proof (rule seek_to_next_descriptor.raw_induct [OF _ that, of "\<lambda>t i b y. \<not> (i = 0 \<and> 2 \<le> length b \<and> b ! 0 = 0)"], goal_cases)
    case (1 seek t i b y)
    then show ?case using "1"(1) [of t 0 b y] by (auto simp: desc_header_eq Let_def split: if_splits)
  qed
  then show ?thesis using assms by (cases "seek_to_next_descriptor descriptor_type 0 buffer") auto
qed

text \<open>
  Without access to the device for writing the first configuration is taken for the active one, even when there are others and
  another one is active; a device with no configuration has none.
\<close>

lemma first_config_assumed:
  assumes "\<not> sysfs_can_relate_devices env" "df_open_rw files < 0" "descriptors dev = devdesc @ enc_configs cs"
    "length devdesc = DEVICE_DESC_LENGTH" "list_all stored cs"
  shows "cache_active_config env files dev =
    (0, dev\<lparr>active_config := (case cs of [] \<Rightarrow> -1 | c # _ \<Rightarrow> int (cf_bConfigurationValue c))\<rparr>)"
proof (cases cs)
  case (Cons c cs')
  have "the (usbi_parse_descriptor (enc_config c @ enc_configs cs') ''bbwbbbbb'') ! 4 = cf_bConfigurationValue c"
    using assms(5) Cons
    by (simp add: stored_def wf_config_def enc_config_def le16_def usbi_parse_descriptor.simps field_width_def unat_byte)
  then show ?thesis using assms Cons length_enc_config [of c]
    by (simp add: cache_active_config_def config_header_def config_of_def CONFIG_DESC_LENGTH_def)
qed (use assms in \<open>simp add: cache_active_config_def CONFIG_DESC_LENGTH_def\<close>)

end
