(* ===== verification/UsbHandle.thy ===== *)
theory UsbHandle
  imports UsbConfigs UsbUrb
begin

text \<open>
  The operations on an open device (\<open>libusb/core.c\<close> over \<open>os/linux_usbfs.c\<close>): interfaces, resets, configurations, kernel
  drivers and streams. The kernel's answers to an \<open>ioctl\<close> are a parameter, negative for an errno. Interface numbers are not
  negative (the code does not refuse those, and shifts by them).
\<close>

section \<open>Kernel\<close>

definition ENOTTY :: int where "ENOTTY = 25"
definition ENODATA :: int where "ENODATA = 61"
definition usbfs_EBUSY :: int where "usbfs_EBUSY = 16"

lemmas handle_errnos = errnos ENOTTY_def ENODATA_def usbfs_EBUSY_def

datatype usb_ioctl = CLAIMINTF nat | RELEASEINTF nat | DISCONNECT_CLAIM nat | SETINTF nat nat | CLEAR_HALT u8 | RESET
  | GETDRIVER nat | DISCONNECT nat | CONNECT nat | SETCONFIG int | ALLOC_STREAMS "32 word" "u8 list" | FREE_STREAMS "u8 list"

text \<open>The answers, and the driver that an interface is bound to.\<close>

record usb_kernel =
  answer :: "usb_ioctl \<Rightarrow> int"
  driver :: "nat \<Rightarrow> string"

text \<open>
  A handle with its device, the requests it made, and the interfaces that the kernel has bound to it: by a claim that
  succeeded, until it is released or the device is reset, which \<open>usbfs\<close> answers by unbinding all of them.
\<close>

record usb_handle =
  claimed_interfaces :: "32 word"
  auto_detach_kernel_driver :: bool
  attached :: bool
  cached_config :: int
  held :: "nat set"
  ioctls :: "usb_ioctl list"

fun bound :: "usb_ioctl \<Rightarrow> nat set \<Rightarrow> nat set" where
  "bound (CLAIMINTF i) s = insert i s"
| "bound (DISCONNECT_CLAIM i) s = insert i s"
| "bound (RELEASEINTF i) s = s - {i}"
| "bound RESET s = {}"
| "bound _ s = s"

definition ioctl :: "usb_kernel \<Rightarrow> usb_ioctl \<Rightarrow> usb_handle \<Rightarrow> int \<times> usb_handle" where
  "ioctl k q h = (let r = answer k q in
     (r, h\<lparr>held := (if r \<ge> 0 then bound q (held h) else held h), ioctls := ioctls h @ [q]\<rparr>))"

text \<open>The error for an errno, by the table of the function.\<close>

fun errno_error :: "(int \<times> int) list \<Rightarrow> int \<Rightarrow> int" where
  "errno_error [] errno = LIBUSB_ERROR_OTHER"
| "errno_error ((e, r) # table) errno = (if errno = e then r else errno_error table errno)"

definition simple_ioctl :: "usb_kernel \<Rightarrow> usb_ioctl \<Rightarrow> (int \<times> int) list \<Rightarrow> usb_handle \<Rightarrow> int \<times> usb_handle" where
  "simple_ioctl k q table h = (let (r, h) = ioctl k q h in (if r \<noteq> 0 then errno_error table (- r) else 0, h))"

section \<open>Linux backend\<close>

definition op_set_configuration :: "usb_kernel \<Rightarrow> int \<Rightarrow> usb_handle \<Rightarrow> int \<times> usb_handle" where
  "op_set_configuration k config h =
     (let (r, h) = simple_ioctl k (SETCONFIG config) [(usbfs_EINVAL, LIBUSB_ERROR_NOT_FOUND), (usbfs_EBUSY, LIBUSB_ERROR_BUSY),
        (ENODEV, LIBUSB_ERROR_NO_DEVICE)] h in
      if r \<noteq> 0 then (r, h) else (0, h\<lparr>cached_config := config\<rparr>))"

definition claim_interface :: "usb_kernel \<Rightarrow> nat \<Rightarrow> usb_handle \<Rightarrow> int \<times> usb_handle" where
  "claim_interface k iface = simple_ioctl k (CLAIMINTF iface) [(ENOENT, LIBUSB_ERROR_NOT_FOUND),
     (usbfs_EBUSY, LIBUSB_ERROR_BUSY), (ENODEV, LIBUSB_ERROR_NO_DEVICE)]"

definition release_interface :: "usb_kernel \<Rightarrow> nat \<Rightarrow> usb_handle \<Rightarrow> int \<times> usb_handle" where
  "release_interface k iface = simple_ioctl k (RELEASEINTF iface) [(ENODEV, LIBUSB_ERROR_NO_DEVICE)]"

definition op_set_interface :: "usb_kernel \<Rightarrow> nat \<Rightarrow> nat \<Rightarrow> usb_handle \<Rightarrow> int \<times> usb_handle" where
  "op_set_interface k iface altsetting = simple_ioctl k (SETINTF iface altsetting) [(usbfs_EINVAL, LIBUSB_ERROR_NOT_FOUND),
     (ENODEV, LIBUSB_ERROR_NO_DEVICE)]"

definition op_clear_halt :: "usb_kernel \<Rightarrow> u8 \<Rightarrow> usb_handle \<Rightarrow> int \<times> usb_handle" where
  "op_clear_halt k endpoint = simple_ioctl k (CLEAR_HALT endpoint) [(ENOENT, LIBUSB_ERROR_NOT_FOUND),
     (ENODEV, LIBUSB_ERROR_NO_DEVICE)]"

text \<open>A driver other than usbfs is active.\<close>

definition op_kernel_driver_active :: "usb_kernel \<Rightarrow> nat \<Rightarrow> usb_handle \<Rightarrow> int \<times> usb_handle" where
  "op_kernel_driver_active k iface h =
     (let (r, h) = ioctl k (GETDRIVER iface) h in
      if r \<noteq> 0 then
        (if - r = ENODATA then 0 else errno_error [(ENODEV, LIBUSB_ERROR_NO_DEVICE)] (- r), h)
      else (if driver k iface = ''usbfs'' then 0 else 1, h))"

definition op_detach_kernel_driver :: "usb_kernel \<Rightarrow> nat \<Rightarrow> usb_handle \<Rightarrow> int \<times> usb_handle" where
  "op_detach_kernel_driver k iface h =
     (let (r, h) = ioctl k (GETDRIVER iface) h in
      if r = 0 \<and> driver k iface = ''usbfs'' then (LIBUSB_ERROR_NOT_FOUND, h)
      else simple_ioctl k (DISCONNECT iface) [(ENODATA, LIBUSB_ERROR_NOT_FOUND), (usbfs_EINVAL, LIBUSB_ERROR_INVALID_PARAM),
        (ENODEV, LIBUSB_ERROR_NO_DEVICE)] h)"

definition op_attach_kernel_driver :: "usb_kernel \<Rightarrow> nat \<Rightarrow> usb_handle \<Rightarrow> int \<times> usb_handle" where
  "op_attach_kernel_driver k iface h =
     (let (r, h) = ioctl k (CONNECT iface) h in
      if r < 0 then (errno_error [(ENODATA, LIBUSB_ERROR_NOT_FOUND), (usbfs_EINVAL, LIBUSB_ERROR_INVALID_PARAM),
        (ENODEV, LIBUSB_ERROR_NO_DEVICE), (usbfs_EBUSY, LIBUSB_ERROR_BUSY)] (- r), h)
      else if r = 0 then (LIBUSB_ERROR_NOT_FOUND, h)
      else (0, h))"

text \<open>Kernels that do not know \<open>DISCONNECT_CLAIM\<close> answer \<open>ENOTTY\<close>.\<close>

definition detach_kernel_driver_and_claim :: "usb_kernel \<Rightarrow> nat \<Rightarrow> usb_handle \<Rightarrow> int \<times> usb_handle" where
  "detach_kernel_driver_and_claim k iface h =
     (let (r, h) = ioctl k (DISCONNECT_CLAIM iface) h in
      if r = 0 then (0, h)
      else if - r \<noteq> ENOTTY then
        (errno_error [(usbfs_EBUSY, LIBUSB_ERROR_BUSY), (usbfs_EINVAL, LIBUSB_ERROR_INVALID_PARAM),
           (ENODEV, LIBUSB_ERROR_NO_DEVICE)] (- r), h)
      else
        let (r, h) = op_detach_kernel_driver k iface h in
        if r \<noteq> 0 \<and> r \<noteq> LIBUSB_ERROR_NOT_FOUND then (r, h) else claim_interface k iface h)"

definition op_claim_interface :: "usb_kernel \<Rightarrow> nat \<Rightarrow> usb_handle \<Rightarrow> int \<times> usb_handle" where
  "op_claim_interface k iface h =
     (if auto_detach_kernel_driver h then detach_kernel_driver_and_claim k iface h else claim_interface k iface h)"

definition op_release_interface :: "usb_kernel \<Rightarrow> nat \<Rightarrow> usb_handle \<Rightarrow> int \<times> usb_handle" where
  "op_release_interface k iface h =
     (let (r, h) = release_interface k iface h in
      if r \<noteq> 0 then (r, h)
      else if auto_detach_kernel_driver h then (0, snd (op_attach_kernel_driver k iface h))
      else (0, h))"

text \<open>The loops of \<open>op_reset_device\<close> over the interfaces, before and after the reset.\<close>

fun release_claimed :: "usb_kernel \<Rightarrow> nat list \<Rightarrow> usb_handle \<Rightarrow> usb_handle" where
  "release_claimed k [] h = h"
| "release_claimed k (i # is) h = release_claimed k is
     (if bit (claimed_interfaces h) i then snd (release_interface k i h) else h)"

fun reclaim :: "usb_kernel \<Rightarrow> nat list \<Rightarrow> int \<Rightarrow> usb_handle \<Rightarrow> int \<times> usb_handle" where
  "reclaim k [] result h = (result, h)"
| "reclaim k (i # is) result h =
     (if bit (claimed_interfaces h) i then
        let (r, h) = detach_kernel_driver_and_claim k i h in
        if r \<noteq> 0 then reclaim k is LIBUSB_ERROR_NOT_FOUND (h\<lparr>claimed_interfaces := unset_bit i (claimed_interfaces h)\<rparr>)
        else reclaim k is result h
      else reclaim k is result h)"

definition op_reset_device :: "usb_kernel \<Rightarrow> usb_handle \<Rightarrow> int \<times> usb_handle" where
  "op_reset_device k h =
     (let h = release_claimed k [0..<USB_MAXINTERFACES] h; (r, h) = ioctl k RESET h in
      if r \<noteq> 0 then (if - r = ENODEV then LIBUSB_ERROR_NOT_FOUND else LIBUSB_ERROR_OTHER, h)
      else reclaim k [0..<USB_MAXINTERFACES] 0 h)"

definition do_streams_ioctl :: "usb_kernel \<Rightarrow> usb_ioctl \<Rightarrow> u8 list \<Rightarrow> usb_handle \<Rightarrow> int \<times> usb_handle" where
  "do_streams_ioctl k req eps h =
     (if length eps > 30 then (LIBUSB_ERROR_INVALID_PARAM, h)
      else let (r, h) = ioctl k req h in
        (if r < 0 then errno_error [(ENOTTY, LIBUSB_ERROR_NOT_SUPPORTED), (usbfs_EINVAL, LIBUSB_ERROR_INVALID_PARAM),
           (ENODEV, LIBUSB_ERROR_NO_DEVICE)] (- r) else r, h))"

definition op_alloc_streams :: "usb_kernel \<Rightarrow> 32 word \<Rightarrow> u8 list \<Rightarrow> usb_handle \<Rightarrow> int \<times> usb_handle" where
  "op_alloc_streams k num_streams eps = do_streams_ioctl k (ALLOC_STREAMS num_streams eps) eps"

definition op_free_streams :: "usb_kernel \<Rightarrow> u8 list \<Rightarrow> usb_handle \<Rightarrow> int \<times> usb_handle" where
  "op_free_streams k eps = do_streams_ioctl k (FREE_STREAMS eps) eps"

text \<open>The result and the value of \<open>*config\<close>, which was \<open>old\<close> before.\<close>

definition op_get_configuration :: "linux_env \<Rightarrow> int + int \<Rightarrow> int + u8 \<Rightarrow> int \<Rightarrow> int \<times> int" where
  "op_get_configuration env attr control old =
     (let (r, config) = (if sysfs_can_relate_devices env then (case attr of Inl r \<Rightarrow> (r, old) | Inr c \<Rightarrow> (0, c))
        else (usbfs_get_active_config control, old)) in
      if r < 0 then (r, config) else (0, if config = -1 then 0 else config))"

section \<open>Library\<close>

definition libusb_claim_interface :: "usb_kernel \<Rightarrow> nat \<Rightarrow> usb_handle \<Rightarrow> int \<times> usb_handle" where
  "libusb_claim_interface k interface_number h =
     (if interface_number \<ge> USB_MAXINTERFACES then (LIBUSB_ERROR_INVALID_PARAM, h)
      else if \<not> attached h then (LIBUSB_ERROR_NO_DEVICE, h)
      else if bit (claimed_interfaces h) interface_number then (0, h)
      else let (r, h) = op_claim_interface k interface_number h in
        (r, if r = 0 then h\<lparr>claimed_interfaces := set_bit interface_number (claimed_interfaces h)\<rparr> else h))"

definition libusb_release_interface :: "usb_kernel \<Rightarrow> nat \<Rightarrow> usb_handle \<Rightarrow> int \<times> usb_handle" where
  "libusb_release_interface k interface_number h =
     (if interface_number \<ge> USB_MAXINTERFACES then (LIBUSB_ERROR_INVALID_PARAM, h)
      else if \<not> bit (claimed_interfaces h) interface_number then (LIBUSB_ERROR_NOT_FOUND, h)
      else let (r, h) = op_release_interface k interface_number h in
        (r, if r = 0 then h\<lparr>claimed_interfaces := unset_bit interface_number (claimed_interfaces h)\<rparr> else h))"

definition libusb_set_interface_alt_setting :: "usb_kernel \<Rightarrow> nat \<Rightarrow> nat \<Rightarrow> usb_handle \<Rightarrow> int \<times> usb_handle" where
  "libusb_set_interface_alt_setting k interface_number alternate_setting h =
     (if interface_number \<ge> USB_MAXINTERFACES then (LIBUSB_ERROR_INVALID_PARAM, h)
      else if \<not> attached h then (LIBUSB_ERROR_NO_DEVICE, h)
      else if \<not> bit (claimed_interfaces h) interface_number then (LIBUSB_ERROR_NOT_FOUND, h)
      else op_set_interface k interface_number alternate_setting h)"

text \<open>The functions that only ask whether the device is still attached.\<close>

definition when_attached :: "(usb_handle \<Rightarrow> int \<times> usb_handle) \<Rightarrow> usb_handle \<Rightarrow> int \<times> usb_handle" where
  "when_attached f h = (if \<not> attached h then (LIBUSB_ERROR_NO_DEVICE, h) else f h)"

definition libusb_clear_halt where
  "libusb_clear_halt k endpoint = when_attached (op_clear_halt k endpoint)"

definition libusb_reset_device where
  "libusb_reset_device k = when_attached (op_reset_device k)"

definition libusb_alloc_streams where
  "libusb_alloc_streams k num_streams eps = when_attached (op_alloc_streams k num_streams eps)"

definition libusb_free_streams where
  "libusb_free_streams k eps = when_attached (op_free_streams k eps)"

definition libusb_kernel_driver_active where
  "libusb_kernel_driver_active k interface_number = when_attached (op_kernel_driver_active k interface_number)"

definition libusb_detach_kernel_driver where
  "libusb_detach_kernel_driver k interface_number = when_attached (op_detach_kernel_driver k interface_number)"

definition libusb_attach_kernel_driver where
  "libusb_attach_kernel_driver k interface_number = when_attached (op_attach_kernel_driver k interface_number)"

definition libusb_set_auto_detach_kernel_driver :: "bool \<Rightarrow> usb_handle \<Rightarrow> int \<times> usb_handle" where
  "libusb_set_auto_detach_kernel_driver enable h = (0, h\<lparr>auto_detach_kernel_driver := enable\<rparr>)"

definition libusb_set_configuration where
  "libusb_set_configuration k configuration h = op_set_configuration k configuration h"

end
