(* ===== verification/UsbHandleProps.thy ===== *)
theory UsbHandleProps
  imports UsbHandle
begin

text \<open>
  The interfaces that libusb takes to be claimed are those that the kernel has bound to the handle, until the device is
  unplugged and after every operation but one: a reset that fails.
\<close>

section \<open>Effects of an operation\<close>

text \<open>The documented answers of the kernel: 0 or a negative errno.\<close>

definition documented :: "usb_kernel \<Rightarrow> bool" where
  "documented k \<longleftrightarrow> (\<forall>i. answer k (CLAIMINTF i) \<le> 0 \<and> answer k (RELEASEINTF i) \<le> 0 \<and> answer k (DISCONNECT_CLAIM i) \<le> 0)
     \<and> answer k RESET \<le> 0"

definition same_state :: "usb_handle \<Rightarrow> usb_handle \<Rightarrow> bool" where
  "same_state h h' \<longleftrightarrow> claimed_interfaces h' = claimed_interfaces h \<and> attached h' = attached h \<and>
     auto_detach_kernel_driver h' = auto_detach_kernel_driver h"

definition neutral :: "(usb_handle \<Rightarrow> int \<times> usb_handle) \<Rightarrow> bool" where
  "neutral f \<longleftrightarrow> (\<forall>h. same_state h (snd (f h)) \<and> held (snd (f h)) = held h)"

definition claims :: "nat \<Rightarrow> (usb_handle \<Rightarrow> int \<times> usb_handle) \<Rightarrow> bool" where
  "claims i f \<longleftrightarrow> (\<forall>h. same_state h (snd (f h)) \<and> held (snd (f h)) = (if fst (f h) = 0 then insert i (held h) else held h))"

definition releases :: "nat \<Rightarrow> (usb_handle \<Rightarrow> int \<times> usb_handle) \<Rightarrow> bool" where
  "releases i f \<longleftrightarrow> (\<forall>h. same_state h (snd (f h)) \<and> held (snd (f h)) = (if fst (f h) = 0 then held h - {i} else held h))"

lemmas effects = neutral_def claims_def releases_def

lemma errno_error_negative: "list_all (\<lambda>(e, r). r < 0) table \<Longrightarrow> errno_error table errno < 0"
  by (induction table errno rule: errno_error.induct) (auto simp: LIBUSB_ERROR_OTHER_def)

lemma ioctl_same: "same_state h (snd (ioctl k q h))"
  by (simp add: ioctl_def same_state_def Let_def)

lemma simple_ioctl_simps:
  "snd (simple_ioctl k q table h) = snd (ioctl k q h)"
  "list_all (\<lambda>(e, r). r < 0) table \<Longrightarrow> fst (simple_ioctl k q table h) = 0 \<longleftrightarrow> answer k q = 0"
  using errno_error_negative [of table "- answer k q"] by (auto simp: simple_ioctl_def ioctl_def Let_def)

lemma held_ioctl: "held (snd (ioctl k q h)) = (if answer k q \<ge> 0 then bound q (held h) else held h)"
  by (simp add: ioctl_def Let_def)

lemma claim_interface_claims: "documented k \<Longrightarrow> claims i (claim_interface k i)"
  using simple_ioctl_simps(2) [of "[(ENOENT, LIBUSB_ERROR_NOT_FOUND), (usbfs_EBUSY, LIBUSB_ERROR_BUSY), (ENODEV, LIBUSB_ERROR_NO_DEVICE)]"]
  by (auto simp: claims_def claim_interface_def simple_ioctl_simps(1) ioctl_same held_ioctl documented_def usb_errors
    dest: antisym)

lemma release_interface_releases: "documented k \<Longrightarrow> releases i (release_interface k i)"
  using simple_ioctl_simps(2) [of "[(ENODEV, LIBUSB_ERROR_NO_DEVICE)]"]
  by (auto simp: releases_def release_interface_def simple_ioctl_simps(1) ioctl_same held_ioctl documented_def usb_errors
    dest: antisym)

lemma neutral_ioctl: "(\<And>s. bound q s = s) \<Longrightarrow> same_state h (snd (ioctl k q h)) \<and> held (snd (ioctl k q h)) = held h"
  by (simp add: ioctl_same held_ioctl)

lemma neutral_ops:
  "neutral (op_set_interface k i a)" "neutral (op_clear_halt k e)" "neutral (op_kernel_driver_active k i)"
  "neutral (op_detach_kernel_driver k i)" "neutral (op_attach_kernel_driver k i)" "neutral (op_set_configuration k c)"
  "neutral (op_alloc_streams k n es)" "neutral (op_free_streams k es)"
  by (auto simp: neutral_def op_set_interface_def op_clear_halt_def op_kernel_driver_active_def op_detach_kernel_driver_def
    op_attach_kernel_driver_def op_set_configuration_def op_alloc_streams_def op_free_streams_def do_streams_ioctl_def
    simple_ioctl_def ioctl_def same_state_def Let_def)

lemma detach_and_claim_claims:
  assumes "documented k"
  shows "claims i (detach_kernel_driver_and_claim k i)"
  unfolding claims_def
proof
  fix h
  obtain r h1 where h1: "ioctl k (DISCONNECT_CLAIM i) h = (r, h1)" by fastforce
  obtain r2 h2 where h2: "op_detach_kernel_driver k i h1 = (r2, h2)" by fastforce
  have a: "r = answer k (DISCONNECT_CLAIM i)" "h1 = snd (ioctl k (DISCONNECT_CLAIM i) h)"
    using h1 by (auto simp: ioctl_def Let_def)
  then have "r \<le> 0" using assms by (simp add: documented_def)
  then have r: "same_state h h1" "held h1 = (if r = 0 then insert i (held h) else held h)"
    using a ioctl_same [of h k "DISCONNECT_CLAIM i"] by (simp_all add: held_ioctl)
  have s: "same_state h1 h2" "held h2 = held h1" using neutral_ops(4) [of k i] h2 by (auto simp: neutral_def dest: spec [of _ h1])
  have e: "errno_error [(usbfs_EBUSY, LIBUSB_ERROR_BUSY), (usbfs_EINVAL, LIBUSB_ERROR_INVALID_PARAM),
      (ENODEV, LIBUSB_ERROR_NO_DEVICE)] (- r) \<noteq> 0"
    using errno_error_negative [of "[(usbfs_EBUSY, LIBUSB_ERROR_BUSY), (usbfs_EINVAL, LIBUSB_ERROR_INVALID_PARAM),
      (ENODEV, LIBUSB_ERROR_NO_DEVICE)]" "- r"] by (simp add: usb_errors)
  show "same_state h (snd (detach_kernel_driver_and_claim k i h)) \<and> held (snd (detach_kernel_driver_and_claim k i h)) =
      (if fst (detach_kernel_driver_and_claim k i h) = 0 then insert i (held h) else held h)"
    using claim_interface_claims [OF assms, of i] h1 h2 r s e
    by (auto simp: detach_kernel_driver_and_claim_def Let_def claims_def same_state_def)
qed

lemma op_claim_claims: "documented k \<Longrightarrow> claims i (op_claim_interface k i)"
  using detach_and_claim_claims [of k i] claim_interface_claims [of k i] by (simp add: claims_def op_claim_interface_def)

lemma op_release_releases:
  assumes "documented k"
  shows "releases i (op_release_interface k i)"
  unfolding releases_def
proof
  fix h
  obtain r h1 where h1: "release_interface k i h = (r, h1)" by fastforce
  have "same_state h h1" "held h1 = (if r = 0 then held h - {i} else held h)"
    using release_interface_releases [OF assms, of i] h1 by (auto simp: releases_def dest: spec [of _ h])
  moreover have "same_state h1 (snd (op_attach_kernel_driver k i h1))" "held (snd (op_attach_kernel_driver k i h1)) = held h1"
    using neutral_ops(5) [of k i] by (auto simp: neutral_def)
  ultimately show "same_state h (snd (op_release_interface k i h)) \<and> held (snd (op_release_interface k i h)) =
      (if fst (op_release_interface k i h) = 0 then held h - {i} else held h)"
    using h1 by (auto simp: op_release_interface_def same_state_def)
qed

section \<open>The invariant\<close>

definition claims_agree :: "usb_handle \<Rightarrow> bool" where
  "claims_agree h \<longleftrightarrow> held h = {i. bit (claimed_interfaces h) i}"

lemma bit_below: "bit (w :: 32 word) i \<Longrightarrow> i < 32"
  using bit_imp_le_length [of w i] by simp

lemma claims_agree_claim:
  assumes "documented k" "claims_agree h"
  shows "claims_agree (snd (libusb_claim_interface k i h))"
proof -
  obtain r h1 where h1: "op_claim_interface k i h = (r, h1)" by fastforce
  then have "same_state h h1" "held h1 = (if r = 0 then insert i (held h) else held h)"
    using op_claim_claims [OF assms(1), of i] by (auto simp: claims_def dest: spec [of _ h])
  then show ?thesis using assms(2) h1
    by (auto simp: libusb_claim_interface_def claims_agree_def same_state_def bit_set_bit_iff USB_MAXINTERFACES_def)
qed

lemma claims_agree_release:
  assumes "documented k" "claims_agree h"
  shows "claims_agree (snd (libusb_release_interface k i h))"
proof -
  obtain r h1 where h1: "op_release_interface k i h = (r, h1)" by fastforce
  then have "same_state h h1" "held h1 = (if r = 0 then held h - {i} else held h)"
    using op_release_releases [OF assms(1), of i] by (auto simp: releases_def dest: spec [of _ h])
  then show ?thesis using assms(2) h1
    by (auto simp: libusb_release_interface_def claims_agree_def same_state_def bit_unset_bit_iff)
qed

lemma claims_agree_neutral: "neutral f \<Longrightarrow> claims_agree h \<Longrightarrow> claims_agree (snd (f h))"
  by (auto simp: neutral_def claims_agree_def same_state_def)

text \<open>Before the reset the interfaces are released, after it they are claimed again one by one.\<close>

lemma release_claimed_state:
  "documented k \<Longrightarrow> same_state h (release_claimed k is h) \<and>
   ((\<forall>i. answer k (RELEASEINTF i) = 0) \<longrightarrow> held (release_claimed k is h) = held h - {i \<in> set is. bit (claimed_interfaces h) i})"
proof (induction k "is" h rule: release_claimed.induct)
  case (2 k i "is" h)
  have "same_state h (snd (release_interface k i h))"
    using release_interface_releases [OF "2.prems", of i] by (simp add: releases_def)
  moreover have "answer k (RELEASEINTF i) = 0 \<Longrightarrow> held (snd (release_interface k i h)) = held h - {i}"
    by (simp add: release_interface_def simple_ioctl_simps(1) held_ioctl)
  ultimately show ?case using 2 by (auto simp: same_state_def)
qed (simp add: same_state_def)

lemma reclaim_claims_agree:
  "documented k \<Longrightarrow> distinct is \<Longrightarrow> held h = {i. bit (claimed_interfaces h) i \<and> i \<notin> set is} \<Longrightarrow>
   claims_agree (snd (reclaim k is result h))"
proof (induction "is" arbitrary: h result)
  case (Cons i "is")
  obtain r h1 where h1: "detach_kernel_driver_and_claim k i h = (r, h1)" by fastforce
  then have c: "same_state h h1" "held h1 = (if r = 0 then insert i (held h) else held h)"
    using detach_and_claim_claims [OF Cons.prems(1), of i] by (auto simp: claims_def dest: spec [of _ h])
  show ?case
  proof (cases "bit (claimed_interfaces h) i")
    case False
    then have "held h = {j. bit (claimed_interfaces h) j \<and> j \<notin> set is}" using Cons.prems(3) by auto
    then show ?thesis using Cons False by simp
  next
    case bit: True
    show ?thesis
    proof (cases "r = 0")
      case True
      then have "held h1 = {j. bit (claimed_interfaces h1) j \<and> j \<notin> set is}"
        using c Cons.prems bit by (auto simp: same_state_def)
      then show ?thesis using Cons bit True h1 by simp
    next
      case False
      let ?h = "h1\<lparr>claimed_interfaces := unset_bit i (claimed_interfaces h1)\<rparr>"
      have "held ?h = {j. bit (claimed_interfaces ?h) j \<and> j \<notin> set is}"
        using c Cons.prems bit False by (auto simp: same_state_def bit_unset_bit_iff)
      then show ?thesis using Cons bit False h1 by simp
    qed
  qed
qed (simp add: claims_agree_def)

lemma claims_agree_reset:
  assumes "documented k" "answer k RESET = 0"
  shows "claims_agree (snd (op_reset_device k h))"
proof -
  let ?h = "snd (ioctl k RESET (release_claimed k [0..<USB_MAXINTERFACES] h))"
  have "held ?h = {}" using assms(2) by (simp add: held_ioctl)
  then have "held ?h = {i. bit (claimed_interfaces ?h) i \<and> i \<notin> set [0..<USB_MAXINTERFACES]}"
    using bit_below by (auto simp: USB_MAXINTERFACES_def)
  then have "claims_agree (snd (reclaim k [0..<USB_MAXINTERFACES] 0 ?h))" using assms(1) by (intro reclaim_claims_agree) auto
  then show ?thesis using assms(2) by (simp add: op_reset_device_def ioctl_def Let_def)
qed

section \<open>Histories\<close>

datatype handle_call = Claim nat | Release nat | Set_alt nat nat | Clear_halt u8 | Reset | Driver_active nat
  | Detach_driver nat | Attach_driver nat | Auto_detach bool | Set_config int | Alloc_streams "32 word" "u8 list"
  | Free_streams "u8 list" | Unplugged

text \<open>When the device is unplugged, \<open>usbfs\<close> unbinds its interfaces from the handle.\<close>

fun handle_op :: "usb_kernel \<Rightarrow> handle_call \<Rightarrow> usb_handle \<Rightarrow> int \<times> usb_handle" where
  "handle_op k (Claim i) h = libusb_claim_interface k i h"
| "handle_op k (Release i) h = libusb_release_interface k i h"
| "handle_op k (Set_alt i a) h = libusb_set_interface_alt_setting k i a h"
| "handle_op k (Clear_halt e) h = libusb_clear_halt k e h"
| "handle_op k Reset h = libusb_reset_device k h"
| "handle_op k (Driver_active i) h = libusb_kernel_driver_active k i h"
| "handle_op k (Detach_driver i) h = libusb_detach_kernel_driver k i h"
| "handle_op k (Attach_driver i) h = libusb_attach_kernel_driver k i h"
| "handle_op k (Auto_detach b) h = libusb_set_auto_detach_kernel_driver b h"
| "handle_op k (Set_config c) h = libusb_set_configuration k c h"
| "handle_op k (Alloc_streams n es) h = libusb_alloc_streams k n es h"
| "handle_op k (Free_streams es) h = libusb_free_streams k es h"
| "handle_op k Unplugged h = (0, h\<lparr>attached := False, held := {}\<rparr>)"

fun handle_run :: "(usb_kernel \<times> handle_call) list \<Rightarrow> usb_handle \<Rightarrow> usb_handle" where
  "handle_run [] h = h"
| "handle_run ((k, p) # ps) h = handle_run ps (snd (handle_op k p h))"

text \<open>A handle as \<open>libusb_open\<close> makes it.\<close>

definition opened :: usb_handle where
  "opened = \<lparr>claimed_interfaces = 0, auto_detach_kernel_driver = False, attached = True, cached_config = -1, held = {}, ioctls = []\<rparr>"

lemma neutral_when_attached: "neutral f \<Longrightarrow> neutral (when_attached f)"
  by (simp add: neutral_def when_attached_def same_state_def)

lemmas library_neutral = neutral_ops(1,6) neutral_ops(2-5,7,8) [THEN neutral_when_attached]

lemma claims_agree_handle_op:
  assumes "documented k" "claims_agree h" "p = Reset \<longrightarrow> answer k RESET = 0" "p \<noteq> Unplugged"
  shows "claims_agree (snd (handle_op k p h))"
proof (cases p)
  case (Set_alt i a)
  then show ?thesis using claims_agree_neutral [OF library_neutral(1) assms(2), of k i a] assms(2)
    by (simp add: libusb_set_interface_alt_setting_def)
next
  case Reset
  then show ?thesis using assms claims_agree_reset [of k h]
    by (simp add: libusb_reset_device_def when_attached_def)
qed (use assms library_neutral [THEN claims_agree_neutral] claims_agree_claim claims_agree_release in \<open>auto simp: claims_agree_def
  libusb_clear_halt_def libusb_kernel_driver_active_def libusb_detach_kernel_driver_def libusb_attach_kernel_driver_def
  libusb_set_auto_detach_kernel_driver_def libusb_set_configuration_def libusb_alloc_streams_def libusb_free_streams_def\<close>)

text \<open>Only unplugging detaches the handle; and a handle without claims in the kernel gets none when it is detached.\<close>

lemma attached_reclaim: "documented k \<Longrightarrow> attached (snd (reclaim k is result h)) = attached h"
proof (induction "is" arbitrary: h result)
  case (Cons i "is")
  obtain r h1 where h1: "detach_kernel_driver_and_claim k i h = (r, h1)" by fastforce
  then have "attached h1 = attached h"
    using detach_and_claim_claims [OF Cons.prems, of i] by (auto simp: claims_def same_state_def dest: spec [of _ h])
  then show ?case using Cons h1 by simp
qed simp

lemma attached_reset: "documented k \<Longrightarrow> attached (snd (op_reset_device k h)) = attached h"
proof -
  assume d: "documented k"
  let ?h = "release_claimed k [0..<USB_MAXINTERFACES] h"
  obtain r h1 where h1: "ioctl k RESET ?h = (r, h1)" by fastforce
  have "attached h1 = attached h"
    using release_claimed_state [OF d, of h "[0..<USB_MAXINTERFACES]"] ioctl_same [of ?h k RESET] h1
    by (simp add: same_state_def)
  then show "attached (snd (op_reset_device k h)) = attached h"
    using attached_reclaim [OF d] h1 by (simp add: op_reset_device_def Let_def)
qed

lemmas library_calls = libusb_set_interface_alt_setting_def libusb_clear_halt_def libusb_kernel_driver_active_def
  libusb_detach_kernel_driver_def libusb_attach_kernel_driver_def libusb_set_auto_detach_kernel_driver_def
  libusb_set_configuration_def libusb_alloc_streams_def libusb_free_streams_def when_attached_def

lemma attached_handle_op:
  assumes "documented k"
  shows "attached (snd (handle_op k p h)) \<longleftrightarrow> attached h \<and> p \<noteq> Unplugged"
proof (cases p)
  case (Claim i)
  have "attached (snd (op_claim_interface k i h)) = attached h"
    using op_claim_claims [OF assms, of i] by (auto simp: claims_def same_state_def)
  then show ?thesis using Claim by (auto simp: libusb_claim_interface_def split: prod.splits)
next
  case (Release i)
  have "attached (snd (op_release_interface k i h)) = attached h"
    using op_release_releases [OF assms, of i] by (auto simp: releases_def same_state_def)
  then show ?thesis using Release by (auto simp: libusb_release_interface_def split: prod.splits)
next
  case Reset
  then show ?thesis using attached_reset [OF assms] by (simp add: libusb_reset_device_def when_attached_def)
qed (use neutral_ops in \<open>auto simp: neutral_def same_state_def library_calls\<close>)

lemma detached_handle_op:
  assumes "documented k" "\<not> attached h" "held h = {}"
  shows "held (snd (handle_op k p h)) = {}"
proof (cases p)
  case (Release i)
  have "held (snd (op_release_interface k i h)) = {}"
    using op_release_releases [OF assms(1), of i] assms(3) by (auto simp: releases_def)
  then show ?thesis using Release assms(3) by (auto simp: libusb_release_interface_def split: prod.splits)
qed (use assms neutral_ops in \<open>auto simp: neutral_def library_calls libusb_claim_interface_def libusb_reset_device_def\<close>)

definition handle_inv :: "usb_handle \<Rightarrow> bool" where
  "handle_inv h \<longleftrightarrow> (if attached h then claims_agree h else held h = {})"

lemma handle_inv_op:
  assumes "documented k" "handle_inv h" "p = Reset \<longrightarrow> answer k RESET = 0"
  shows "handle_inv (snd (handle_op k p h))"
proof (cases "attached h")
  case True
  then show ?thesis
    using assms claims_agree_handle_op [OF assms(1) _ assms(3)] attached_handle_op [OF assms(1), of p h]
    by (cases "p = Unplugged") (auto simp: handle_inv_def)
next
  case False
  then show ?thesis
    using assms detached_handle_op [OF assms(1) False] attached_handle_op [OF assms(1), of p h]
    by (auto simp: handle_inv_def)
qed

lemma handle_inv_run:
  "handle_inv h \<Longrightarrow> \<forall>(k, p) \<in> set ps. documented k \<and> (p = Reset \<longrightarrow> answer k RESET = 0) \<Longrightarrow> handle_inv (handle_run ps h)"
  by (induction ps h rule: handle_run.induct) (auto intro: handle_inv_op)

text \<open>
  C23. Whatever is done with an open device, in any order and whatever the kernel refuses, interfaces claimed and released, kernel
  drivers detached and attached, the device reset or unplugged: as long as no reset fails, the interfaces that libusb takes to be
  claimed are exactly those the kernel has bound to the handle until the device is unplugged; from then on the
  kernel has none bound to it, whatever libusb still takes for claimed.\<close>

theorem usb_claims_coherent:
  assumes "\<forall>(k, p) \<in> set ps. documented k \<and> (p = Reset \<longrightarrow> answer k RESET = 0)"
  shows "held (handle_run ps opened) =
    (if attached (handle_run ps opened) then {i. bit (claimed_interfaces (handle_run ps opened)) i} else {})"
proof -
  have "handle_inv opened" by (simp add: handle_inv_def claims_agree_def opened_def)
  from handle_inv_run [OF this assms] show ?thesis
    unfolding handle_inv_def claims_agree_def by (simp split: if_splits)
qed

text \<open>A kernel that grants everything, and one that refuses to give interface 1 back after a reset.\<close>

definition granting :: usb_kernel where
  "granting = \<lparr>answer = (\<lambda>q. 0), driver = (\<lambda>i. ''usbfs'')\<rparr>"

definition taking :: usb_kernel where
  "taking = \<lparr>answer = (\<lambda>q. if q = DISCONNECT_CLAIM 1 then -16 else 0), driver = (\<lambda>i. ''usbhid'')\<rparr>"

theorem usb_claims_coherent_witness:
  "let h = handle_run [(granting, Claim 0), (granting, Claim 1), (taking, Reset)] opened
   in held h = (if attached h then {i. bit (claimed_interfaces h) i} else {})"
  unfolding Let_def by (rule usb_claims_coherent) (simp add: documented_def granting_def taking_def)

lemma claims_example:
  "held (handle_run [(granting, Claim 0), (granting, Claim 1), (taking, Reset)] opened) = {0}"
  by code_simp

section \<open>A reset that fails\<close>

text \<open>
  C24. When the kernel refuses a reset, the interfaces were released before it and are not claimed again, but libusb still takes
  them for claimed: claiming one again then succeeds without asking the kernel, which has not bound it.\<close>

theorem usb_failed_reset_forgets:
  assumes "claims_agree h" "attached h" "documented k" "answer k RESET < 0" "\<forall>i. answer k (RELEASEINTF i) = 0"
    "bit (claimed_interfaces h) i" "libusb_reset_device k h = (r, h')"
  shows "r < 0 \<and> held h' = {} \<and> claimed_interfaces h' = claimed_interfaces h \<and> libusb_claim_interface k' i h' = (0, h')"
proof -
  let ?h = "release_claimed k [0..<USB_MAXINTERFACES] h"
  have rel: "same_state h ?h" "held ?h = held h - {i \<in> set [0..<USB_MAXINTERFACES]. bit (claimed_interfaces h) i}"
    using release_claimed_state [OF assms(3), of h "[0..<USB_MAXINTERFACES]"] assms(5) by auto
  then have "held ?h = {}" using assms(1) bit_below by (auto simp: claims_agree_def USB_MAXINTERFACES_def)
  moreover have "h' = snd (ioctl k RESET ?h)" "r < 0"
    using assms(2,4,7) by (auto simp: libusb_reset_device_def when_attached_def op_reset_device_def ioctl_def Let_def usb_errors
      split: if_splits)
  ultimately have "held h' = {}" "same_state h h'" "r < 0"
    using rel(1) assms(4) ioctl_same [of ?h k RESET] by (auto simp: held_ioctl same_state_def)
  then show ?thesis using assms(2,6) bit_below [OF assms(6)]
    by (simp add: same_state_def libusb_claim_interface_def USB_MAXINTERFACES_def)
qed

definition stubborn :: usb_kernel where
  "stubborn = \<lparr>answer = (\<lambda>q. if q = RESET then -1 else 0), driver = (\<lambda>i. ''usbfs'')\<rparr>"

theorem usb_failed_reset_forgets_witness:
  "let (r, h) = libusb_reset_device stubborn (handle_run [(granting, Claim 0)] opened) in
     r < 0 \<and> held h = {} \<and> claimed_interfaces h = 1 \<and> libusb_claim_interface granting 0 h = (0, h)"
proof -
  let ?h = "handle_run [(granting, Claim 0)] opened"
  obtain r h' where r: "libusb_reset_device stubborn ?h = (r, h')" by fastforce
  have "handle_inv ?h"
    by (rule handle_inv_run) (simp_all add: handle_inv_def claims_agree_def opened_def documented_def granting_def)
  moreover have h: "attached ?h" "claimed_interfaces ?h = 1" by code_simp+
  ultimately have "claims_agree ?h" by (simp add: handle_inv_def)
  then show ?thesis
    using h usb_failed_reset_forgets [of ?h stubborn 0 r h' granting] r by (simp add: documented_def stubborn_def)
qed

section \<open>The active configuration\<close>

text \<open>
  Where sysfs cannot relate devices, the configuration that the device reports is never stored: the caller's variable keeps what it was.
\<close>

lemma get_configuration_unset:
  assumes "\<not> sysfs_can_relate_devices env" "old \<noteq> -1"
  shows "op_get_configuration env attr (Inr v) old = (0, old)"
  using assms by (simp add: op_get_configuration_def usbfs_get_active_config_def)

lemma get_configuration_sysfs:
  assumes "sysfs_can_relate_devices env" "c \<noteq> -1"
  shows "op_get_configuration env (Inr c) control old = (0, c)"
  using assms by (simp add: op_get_configuration_def)

end
