(* ===== verification/UsbDevices.thy ===== *)
theory UsbDevices
  imports UsbConfigs
begin

text \<open>
  The devices of a libusb context (\<open>libusb/core.c\<close>, \<open>libusb/hotplug.c\<close> and the enumeration in \<open>os/linux_usbfs.c\<close>): their
  references, the list of devices and of open handles, and the hotplug messages. A device is a number, and \<open>alive\<close> are the
  devices that are allocated. The backend has no \<open>get_device_list\<close>, so that libusb has the hotplug capability. Using a device
  that was freed sets \<open>lib_ub\<close>. \<open>user_refs\<close> are the references of the client, and \<open>leaked\<close> those nobody drops any more.
\<close>

section \<open>State\<close>

datatype hotplug_event = DEVICE_ARRIVED | DEVICE_LEFT

record lib_device =
  dv_refcnt :: int
  dv_attached :: bool
  dv_session :: nat
  dv_parent :: "nat option"
  dv_port :: u8
  dv_num_configurations :: nat
  dv_linux :: linux_device

text \<open>\<open>None\<close> is \<open>LIBUSB_HOTPLUG_MATCH_ANY\<close>.\<close>

record hotplug_callback =
  hc_handle :: nat
  hc_events :: "hotplug_event set"
  hc_vendor_id :: "nat option"
  hc_product_id :: "nat option"
  hc_dev_class :: "nat option"
  hc_needs_free :: bool

text \<open>A message has no event and no device when it only wakes up the event handler.\<close>

record usb_lib =
  dev_of :: "nat \<Rightarrow> lib_device"
  alive :: "nat list"
  next_dev :: nat
  usb_devs :: "nat list"
  open_devs :: "(nat \<times> nat) list"
  hotplug_msgs :: "(hotplug_event \<times> nat) option list"
  msgs_ready :: bool
  hotplug_cbs :: "hotplug_callback list"
  next_handle :: nat
  cb_calls :: "(nat \<times> hotplug_event \<times> nat) list"
  user_refs :: "nat list"
  leaked :: "nat list"
  lib_ub :: bool

definition upd_device :: "nat \<Rightarrow> (lib_device \<Rightarrow> lib_device) \<Rightarrow> usb_lib \<Rightarrow> usb_lib" where
  "upd_device d f s = (if d \<in> set (alive s) then s\<lparr>dev_of := (dev_of s)(d := f (dev_of s d))\<rparr> else s\<lparr>lib_ub := True\<rparr>)"

section \<open>References\<close>

definition libusb_ref_device :: "nat \<Rightarrow> usb_lib \<Rightarrow> usb_lib" where
  "libusb_ref_device d = upd_device d (\<lambda>v. v\<lparr>dv_refcnt := dv_refcnt v + 1\<rparr>)"

text \<open>The last reference destroys the device, and drops its reference to its parent.\<close>

function libusb_unref_device :: "nat option \<Rightarrow> usb_lib \<Rightarrow> usb_lib" where
  "libusb_unref_device dev s = (case dev of
     None \<Rightarrow> s
   | Some d \<Rightarrow>
       if d \<notin> set (alive s) then s\<lparr>lib_ub := True\<rparr>
       else
         let s' = upd_device d (\<lambda>v. v\<lparr>dv_refcnt := dv_refcnt v - 1\<rparr>) s in
         if dv_refcnt (dev_of s' d) = 0
         then libusb_unref_device (dv_parent (dev_of s' d)) (s'\<lparr>alive := removeAll d (alive s)\<rparr>)
         else s')"
  by pat_completeness auto
termination
  by (relation "measure (\<lambda>(dev, s). length (alive s))") (auto intro: length_removeAll_less)

declare libusb_unref_device.simps [simp del]

section \<open>Hotplug\<close>

text \<open>The fields of the device descriptor, from the cached descriptors.\<close>

definition descriptor_field :: "nat \<Rightarrow> nat \<Rightarrow> lib_device \<Rightarrow> nat" where
  "descriptor_field i n v = le_nat (take n (drop i (descriptors (dv_linux v))))"

definition matches :: "nat option \<Rightarrow> nat \<Rightarrow> bool" where
  "matches wanted is \<longleftrightarrow> wanted = None \<or> wanted = Some is"

text \<open>
  Whether the callback is to be freed, and the call that was made. \<open>answers\<close> are the results of the callbacks.
\<close>

definition usbi_hotplug_match_cb ::
    "(nat \<Rightarrow> hotplug_event \<Rightarrow> nat \<Rightarrow> bool) \<Rightarrow> (hotplug_event \<times> nat) option \<Rightarrow> hotplug_callback \<Rightarrow> usb_lib \<Rightarrow> bool \<times> usb_lib" where
  "usbi_hotplug_match_cb answers msg cb s =
     (if hc_needs_free cb then (True, s)
      else case msg of
        None \<Rightarrow> (False, s)
      | Some (event, d) \<Rightarrow>
          if event \<notin> hc_events cb then (False, s)
          else if d \<notin> set (alive s) then (False, s\<lparr>lib_ub := True\<rparr>)
          else if \<not> matches (hc_vendor_id cb) (descriptor_field 8 2 (dev_of s d)) then (False, s)
          else if \<not> matches (hc_product_id cb) (descriptor_field 10 2 (dev_of s d)) then (False, s)
          else if \<not> matches (hc_dev_class cb) (descriptor_field 4 1 (dev_of s d)) then (False, s)
          else (answers (hc_handle cb) event d, s\<lparr>cb_calls := cb_calls s @ [(hc_handle cb, event, d)]\<rparr>))"

fun match_loop ::
    "(nat \<Rightarrow> hotplug_event \<Rightarrow> nat \<Rightarrow> bool) \<Rightarrow> (hotplug_event \<times> nat) option \<Rightarrow> hotplug_callback list \<Rightarrow> usb_lib \<Rightarrow>
     hotplug_callback list \<times> usb_lib" where
  "match_loop answers msg [] s = ([], s)"
| "match_loop answers msg (cb # cbs) s =
     (let (free, s) = usbi_hotplug_match_cb answers msg cb s; (rest, s) = match_loop answers msg cbs s in
      (if free then rest else cb # rest, s))"

definition usbi_hotplug_match ::
    "(nat \<Rightarrow> hotplug_event \<Rightarrow> nat \<Rightarrow> bool) \<Rightarrow> (hotplug_event \<times> nat) option \<Rightarrow> usb_lib \<Rightarrow> usb_lib" where
  "usbi_hotplug_match answers msg s =
     (let (cbs, s) = match_loop answers msg (hotplug_cbs s) s in s\<lparr>hotplug_cbs := cbs\<rparr>)"

definition usbi_hotplug_notification :: "(hotplug_event \<times> nat) option \<Rightarrow> usb_lib \<Rightarrow> usb_lib" where
  "usbi_hotplug_notification msg s = s\<lparr>hotplug_msgs := hotplug_msgs s @ [msg]\<rparr>"

text \<open>A message is taken and processed by the event handler; a device that left is dereferenced.\<close>

definition process_message :: "(nat \<Rightarrow> hotplug_event \<Rightarrow> nat \<Rightarrow> bool) \<Rightarrow> usb_lib \<Rightarrow> usb_lib" where
  "process_message answers s = (case hotplug_msgs s of
     [] \<Rightarrow> s
   | msg # msgs \<Rightarrow>
       let s = usbi_hotplug_match answers msg (s\<lparr>hotplug_msgs := msgs\<rparr>) in
       case msg of Some (DEVICE_LEFT, d) \<Rightarrow> libusb_unref_device (Some d) s | _ \<Rightarrow> s)"

fun process_messages :: "(nat \<Rightarrow> hotplug_event \<Rightarrow> nat \<Rightarrow> bool) \<Rightarrow> nat \<Rightarrow> usb_lib \<Rightarrow> usb_lib" where
  "process_messages answers 0 s = s"
| "process_messages answers (Suc n) s = process_messages answers n (process_message answers s)"

section \<open>The list of devices\<close>

definition usbi_alloc_device :: "nat \<Rightarrow> usb_lib \<Rightarrow> nat \<times> usb_lib" where
  "usbi_alloc_device session_id s =
     (let d = next_dev s in
      (d, s\<lparr>dev_of := (dev_of s)(d := \<lparr>dv_refcnt = 1, dv_attached = False, dv_session = session_id, dv_parent = None,
          dv_port = 0, dv_num_configurations = 0, dv_linux = \<lparr>bus_number = 0, device_address = 0, speed = SPEED_UNKNOWN,
          sysfs_dir = None, descriptors = [], active_config = 0\<rparr>\<rparr>), alive := d # alive s, next_dev := d + 1\<rparr>))"

definition usbi_connect_device :: "nat \<Rightarrow> usb_lib \<Rightarrow> usb_lib" where
  "usbi_connect_device d s =
     (let s = upd_device d (\<lambda>v. v\<lparr>dv_attached := True\<rparr>) s; s = s\<lparr>usb_devs := d # usb_devs s\<rparr> in
      if msgs_ready s then usbi_hotplug_notification (Some (DEVICE_ARRIVED, d)) s else s)"

text \<open>The reference of the list goes to the message; without one nobody drops it.\<close>

definition usbi_disconnect_device :: "nat \<Rightarrow> usb_lib \<Rightarrow> usb_lib" where
  "usbi_disconnect_device d s =
     (let s = upd_device d (\<lambda>v. v\<lparr>dv_attached := False\<rparr>) s; s = s\<lparr>usb_devs := remove1 d (usb_devs s)\<rparr> in
      if msgs_ready s then usbi_hotplug_notification (Some (DEVICE_LEFT, d)) s else s\<lparr>leaked := d # leaked s\<rparr>)"

definition usbi_sanitize_device :: "nat \<Rightarrow> usb_lib \<Rightarrow> int \<times> usb_lib" where
  "usbi_sanitize_device d s =
     (let num_configurations = descriptor_field 17 1 (dev_of s d) in
      if num_configurations > 8 then (LIBUSB_ERROR_IO, s)
      else (0, upd_device d (\<lambda>v. v\<lparr>dv_num_configurations := num_configurations\<rparr>) s))"

definition usbi_get_device_by_session_id :: "nat \<Rightarrow> usb_lib \<Rightarrow> nat option \<times> usb_lib" where
  "usbi_get_device_by_session_id session_id s =
     (case find (\<lambda>d. dv_session (dev_of s d) = session_id) (usb_devs s) of
        None \<Rightarrow> (None, s)
      | Some d \<Rightarrow> (Some d, libusb_ref_device d s))"

fun ref_all :: "nat list \<Rightarrow> usb_lib \<Rightarrow> usb_lib" where
  "ref_all [] s = s"
| "ref_all (d # ds) s = ref_all ds (libusb_ref_device d s)"

fun unref_all :: "nat list \<Rightarrow> usb_lib \<Rightarrow> usb_lib" where
  "unref_all [] s = s"
| "unref_all (d # ds) s = unref_all ds (libusb_unref_device (Some d) s)"

text \<open>
  The devices are collected with a reference each (\<open>discovered_devs_append\<close>), copied to the result with another,
  and the collection is freed.
\<close>

definition libusb_get_device_list :: "usb_lib \<Rightarrow> nat list \<times> usb_lib" where
  "libusb_get_device_list s =
     (let devs = usb_devs s; s = ref_all devs s; s = ref_all devs s; s = s\<lparr>user_refs := devs @ user_refs s\<rparr> in
      (devs, unref_all devs s))"

text \<open>The client gives up a reference it has.\<close>

fun drop_user_refs :: "nat list \<Rightarrow> usb_lib \<Rightarrow> usb_lib" where
  "drop_user_refs [] s = s"
| "drop_user_refs (d # ds) s = drop_user_refs ds
     (libusb_unref_device (Some d) (s\<lparr>user_refs := remove1 d (user_refs s)\<rparr>))"

definition libusb_free_device_list :: "nat list \<Rightarrow> bool \<Rightarrow> usb_lib \<Rightarrow> usb_lib" where
  "libusb_free_device_list devs unref_devices s = (if unref_devices then drop_user_refs devs s else s)"

section \<open>Ports\<close>

text \<open>The array is filled from its end, while the loop follows the parents.\<close>

function port_numbers :: "(nat \<Rightarrow> lib_device) \<Rightarrow> nat option \<Rightarrow> nat \<Rightarrow> u8 list \<Rightarrow> u8 list option" where
  "port_numbers devs dev i ports = (case dev of
     None \<Rightarrow> Some ports
   | Some d \<Rightarrow>
       if dv_port (devs d) = 0 then Some ports
       else if i = 0 then None
       else port_numbers devs (dv_parent (devs d)) (i - 1) (dv_port (devs d) # ports))"
  by pat_completeness auto
termination by (relation "measure (\<lambda>(devs, dev, i, ports). i)") auto

declare port_numbers.simps [simp del]

definition libusb_get_port_numbers :: "usb_lib \<Rightarrow> nat \<Rightarrow> nat \<Rightarrow> int + u8 list" where
  "libusb_get_port_numbers s d port_numbers_len =
     (if port_numbers_len = 0 then Inl LIBUSB_ERROR_INVALID_PARAM
      else case port_numbers (dev_of s) (Some d) port_numbers_len [] of
        None \<Rightarrow> Inl LIBUSB_ERROR_OVERFLOW
      | Some ports \<Rightarrow> Inr ports)"

end
