(* ===== verification/UsbEnum.thy ===== *)
theory UsbEnum
  imports UsbDevices UsbUrb Convenience
begin

text \<open>
  How devices come and go in the Linux backend (\<open>os/linux_usbfs.c\<close>), with opening, closing and the end of a context
  (\<open>libusb/core.c\<close>) and the registration of hotplug callbacks (\<open>libusb/hotplug.c\<close>). What sysfs holds is a parameter.
\<close>

section \<open>Kernel version\<close>

text \<open>The numbers that \<open>sscanf\<close> finds in the release, \<open>None\<close> when \<open>uname\<close> fails.\<close>

definition kernel_version_ge :: "int list option \<Rightarrow> int \<Rightarrow> int \<Rightarrow> int \<Rightarrow> int" where
  "kernel_version_ge release major minor sublevel = (case release of
     None \<Rightarrow> -1
   | Some [] \<Rightarrow> -1
   | Some (kmajor # rest) \<Rightarrow>
       if kmajor > major then 1
       else if kmajor < major then 0
       else (case rest of
         [] \<Rightarrow> of_bool (minor = 0 \<and> sublevel = 0)
       | kminor # rest \<Rightarrow>
           if kminor > minor then 1
           else if kminor < minor then 0
           else (case rest of [] \<Rightarrow> of_bool (sublevel = 0) | ksublevel # _ \<Rightarrow> of_bool (ksublevel \<ge> sublevel))))"

section \<open>Addresses\<close>

text \<open>A sysfs attribute: the errno of \<open>fopen\<close>, or the number that \<open>fscanf\<close> reads, if there is one.\<close>

definition read_sysfs_attr :: "int + int option \<Rightarrow> int" where
  "read_sysfs_attr file = (case file of
     Inl errno \<Rightarrow> if errno = ENOENT then LIBUSB_ERROR_NO_DEVICE else LIBUSB_ERROR_IO
   | Inr None \<Rightarrow> LIBUSB_ERROR_NO_DEVICE
   | Inr (Some value) \<Rightarrow> if value < 0 then LIBUSB_ERROR_IO else value)"

record sysfs =
  sys_attr :: "string \<Rightarrow> string \<Rightarrow> int + int option"
  sys_files :: "string option \<Rightarrow> u8 \<Rightarrow> u8 \<Rightarrow> device_files"

text \<open>For a device that is in sysfs and attached, with no device node given.\<close>

definition linux_get_device_address :: "linux_env \<Rightarrow> sysfs \<Rightarrow> string \<Rightarrow> int + u8 \<times> u8" where
  "linux_get_device_address env sys sys_name =
     (if \<not> sysfs_can_relate_devices env then Inl LIBUSB_ERROR_OTHER
      else
        let busnum = read_sysfs_attr (sys_attr sys sys_name ''busnum'') in
        if busnum < 0 then Inl busnum
        else if busnum > 255 then Inl LIBUSB_ERROR_INVALID_PARAM
        else
          let devaddr = read_sysfs_attr (sys_attr sys sys_name ''devnum'') in
          if devaddr < 0 then Inl devaddr
          else if devaddr > 255 then Inl LIBUSB_ERROR_INVALID_PARAM
          else Inr (word_of_int busnum, word_of_int devaddr))"

section \<open>Devices arrive\<close>

text \<open>The string before and after the last occurrence of a character.\<close>

definition strrchr_split :: "char \<Rightarrow> string \<Rightarrow> (string \<times> string) option" where
  "strrchr_split c s = (case dropWhile (\<lambda>x. x \<noteq> c) (rev s) of
     [] \<Rightarrow> None
   | _ # before \<Rightarrow> Some (rev before, rev (takeWhile (\<lambda>x. x \<noteq> c) (rev s))))"

definition parent_dir :: "string \<Rightarrow> (string \<times> string) option" where
  "parent_dir path = (case strrchr_split CHR ''.'' path of
     Some x \<Rightarrow> Some x
   | None \<Rightarrow> strrchr_split CHR ''-'' path)"

definition parent_name :: "string \<Rightarrow> string" where
  "parent_name parent_sysfs_dir = (if CHR ''-'' \<notin> set parent_sysfs_dir then ''usb'' @ parent_sysfs_dir else parent_sysfs_dir)"

text \<open>The search for the parent; a device without \<open>sysfs_dir\<close> is compared through NULL.\<close>

fun find_parent :: "usb_lib \<Rightarrow> string \<Rightarrow> nat list \<Rightarrow> nat option option" where
  "find_parent s name [] = Some None"
| "find_parent s name (it # its) = (case sysfs_dir (dv_linux (dev_of s it)) of
     None \<Rightarrow> None
   | Some dir \<Rightarrow> if dir = name then Some (Some it) else find_parent s name its)"

definition take_parent :: "nat \<Rightarrow> string \<Rightarrow> usb_lib \<Rightarrow> usb_lib" where
  "take_parent d name s = (case find_parent s name (usb_devs s) of
     None \<Rightarrow> s\<lparr>lib_ub := True\<rparr>
   | Some None \<Rightarrow> s
   | Some (Some it) \<Rightarrow> upd_device d (\<lambda>v. v\<lparr>dv_parent := Some it\<rparr>) (libusb_ref_device it s))"

definition session_of :: "u8 \<Rightarrow> u8 \<Rightarrow> nat" where
  "session_of busnum devaddr = unat busnum * 256 + unat devaddr"

text \<open>A new device up to its place in the topology: the result with the device.\<close>

definition prepare_device :: "linux_env \<Rightarrow> sysfs \<Rightarrow> u8 \<Rightarrow> u8 \<Rightarrow> string option \<Rightarrow> usb_lib \<Rightarrow> (int \<times> nat \<times> usb_lib) option" where
  "prepare_device env sys busnum devaddr dir s =
     (let (d, s) = usbi_alloc_device (session_of busnum devaddr) s in
      case initialize_device env (sys_files sys dir busnum devaddr) busnum devaddr dir (dv_linux (dev_of s d)) of
        None \<Rightarrow> None
      | Some (r, linux_dev) \<Rightarrow>
          let s = upd_device d (\<lambda>v. v\<lparr>dv_linux := linux_dev\<rparr>) s in
          if r < 0 then Some (r, d, s)
          else let (r, s) = usbi_sanitize_device d s in Some (r, d, s))"

text \<open>The name of the parent in sysfs, and the port; \<open>None\<close> for a root hub, or a name that tells neither.\<close>

definition parent_of_path :: "string \<Rightarrow> (string \<times> u8) option" where
  "parent_of_path path =
     (if take 3 path = ''usb'' then None
      else case parent_dir path of
        None \<Rightarrow> None
      | Some (before, after) \<Rightarrow> Some (parent_name before, word_of_int (atoi after)))"

text \<open>
  A device and, when it is not known yet, its parent. A path to the root hub of length \<open>n\<close> needs \<open>3 * n\<close> calls; \<open>None\<close> when
  the fuel is used up or a file never ends.
\<close>

fun linux_enumerate_device :: "linux_env \<Rightarrow> sysfs \<Rightarrow> nat \<Rightarrow> u8 \<Rightarrow> u8 \<Rightarrow> string option \<Rightarrow> usb_lib \<Rightarrow> (int \<times> usb_lib) option"
  and linux_get_parent_info :: "linux_env \<Rightarrow> sysfs \<Rightarrow> nat \<Rightarrow> nat \<Rightarrow> string option \<Rightarrow> usb_lib \<Rightarrow> (int \<times> usb_lib) option"
  and sysfs_scan_device :: "linux_env \<Rightarrow> sysfs \<Rightarrow> nat \<Rightarrow> string \<Rightarrow> usb_lib \<Rightarrow> (int \<times> usb_lib) option" where
  "linux_enumerate_device env sys 0 busnum devaddr dir s = None"
| "linux_enumerate_device env sys (Suc fuel) busnum devaddr dir s =
     (case usbi_get_device_by_session_id (session_of busnum devaddr) s of
        (Some d, s) \<Rightarrow> Some (0, libusb_unref_device (Some d) s)
      | (None, s) \<Rightarrow> (case prepare_device env sys busnum devaddr dir s of
          None \<Rightarrow> None
        | Some (r, d, s) \<Rightarrow>
            if r < 0 then Some (r, libusb_unref_device (Some d) s)
            else (case linux_get_parent_info env sys fuel d dir s of
              None \<Rightarrow> None
            | Some (r, s) \<Rightarrow>
                if r < 0 then Some (r, libusb_unref_device (Some d) s) else Some (r, usbi_connect_device d s))))"
| "linux_get_parent_info env sys 0 d dir s = None"
| "linux_get_parent_info env sys (Suc fuel) d dir s = (case dir of
     None \<Rightarrow> Some (0, s)
   | Some path \<Rightarrow> (case parent_of_path path of
       None \<Rightarrow> Some (0, s)
     | Some (name, port) \<Rightarrow>
         let s = take_parent d name (upd_device d (\<lambda>v. v\<lparr>dv_port := port\<rparr>) s) in
         if dv_parent (dev_of s d) = None then
           (case sysfs_scan_device env sys fuel name s of
              None \<Rightarrow> None
            | Some (r, s) \<Rightarrow> Some (0, take_parent d name s))
         else Some (0, s)))"
| "sysfs_scan_device env sys 0 devname s = None"
| "sysfs_scan_device env sys (Suc fuel) devname s = (case linux_get_device_address env sys devname of
     Inl r \<Rightarrow> Some (r, s)
   | Inr (busnum, devaddr) \<Rightarrow> linux_enumerate_device env sys fuel busnum devaddr (Some devname) s)"

section \<open>Devices leave\<close>

definition linux_device_disconnected :: "u8 \<Rightarrow> u8 \<Rightarrow> usb_lib \<Rightarrow> usb_lib" where
  "linux_device_disconnected busnum devaddr s =
     (case usbi_get_device_by_session_id (session_of busnum devaddr) s of
        (Some d, s) \<Rightarrow> libusb_unref_device (Some d) (usbi_disconnect_device d s)
      | (None, s) \<Rightarrow> s)"

section \<open>Opening and closing\<close>

text \<open>\<open>supports_flag_zero_packet\<close> and \<open>supports_flag_bulk_continuation\<close>; the value -1 counts as true.\<close>

definition fallback_caps :: "int \<Rightarrow> int \<Rightarrow> cap set" where
  "fallback_caps zero_packet bulk_continuation =
     (if zero_packet \<noteq> 0 then {CAP_ZERO_PACKET} else {}) \<union> (if bulk_continuation \<noteq> 0 then {CAP_BULK_CONTINUATION} else {})"

text \<open>What the kernel says of its capabilities, unless it cannot be asked.\<close>

definition handle_caps :: "cap set option \<Rightarrow> int \<Rightarrow> int \<Rightarrow> cap set" where
  "handle_caps getcap zero_packet bulk_continuation =
     (case getcap of Some caps \<Rightarrow> caps | None \<Rightarrow> fallback_caps zero_packet bulk_continuation)"

text \<open>\<open>fd\<close> is the file descriptor, or an error.\<close>

definition op_open2 :: "int \<Rightarrow> nat \<Rightarrow> usb_lib \<Rightarrow> int \<times> usb_lib" where
  "op_open2 fd d s =
     (if fd < 0 then
        (fd, if fd = LIBUSB_ERROR_NO_DEVICE \<and> dv_attached (dev_of s d)
           then linux_device_disconnected (bus_number (dv_linux (dev_of s d))) (device_address (dv_linux (dev_of s d))) s
           else s)
      else (0, s))"

text \<open>\<open>libusb_open\<close> is the same, but for where the file descriptor comes from. \<open>handle\<close> is the new handle.\<close>

definition libusb_open2 :: "int \<Rightarrow> nat \<Rightarrow> nat \<Rightarrow> usb_lib \<Rightarrow> int \<times> usb_lib" where
  "libusb_open2 fd handle d s =
     (if d \<notin> set (alive s) then (0, s\<lparr>lib_ub := True\<rparr>)
      else if \<not> dv_attached (dev_of s d) then (LIBUSB_ERROR_NO_DEVICE, s)
      else
        let s = libusb_ref_device d s; (r, s) = op_open2 fd d s in
        if r < 0 then (r, libusb_unref_device (Some d) s)
        else (0, s\<lparr>open_devs := (handle, d) # open_devs s\<rparr>))"

definition libusb_close :: "nat \<Rightarrow> usb_lib \<Rightarrow> usb_lib" where
  "libusb_close handle s = (case map_of (open_devs s) handle of
     None \<Rightarrow> s\<lparr>lib_ub := True\<rparr>
   | Some d \<Rightarrow> libusb_unref_device (Some d) (s\<lparr>open_devs := remove1 (handle, d) (open_devs s)\<rparr>))"

text \<open>The first device with the ids is opened, and the list given back.\<close>

definition libusb_open_device_with_vid_pid :: "int \<Rightarrow> nat \<Rightarrow> nat \<Rightarrow> nat \<Rightarrow> usb_lib \<Rightarrow> nat option \<times> usb_lib" where
  "libusb_open_device_with_vid_pid fd handle vendor_id product_id s =
     (let (devs, s) = libusb_get_device_list s;
          (result, s) = (case find (\<lambda>d. descriptor_field 8 2 (dev_of s d) = vendor_id \<and>
              descriptor_field 10 2 (dev_of s d) = product_id) devs of
            None \<Rightarrow> (None, s)
          | Some found \<Rightarrow> (let (r, s) = libusb_open2 fd handle found s in (if r < 0 then None else Some handle, s))) in
      (result, libusb_free_device_list devs True s))"

section \<open>Callbacks\<close>

fun match_devices :: "(nat \<Rightarrow> hotplug_event \<Rightarrow> nat \<Rightarrow> bool) \<Rightarrow> hotplug_callback \<Rightarrow> nat list \<Rightarrow> usb_lib \<Rightarrow> usb_lib" where
  "match_devices answers cb [] s = s"
| "match_devices answers cb (d # ds) s =
     match_devices answers cb ds (snd (usbi_hotplug_match_cb answers (Some (DEVICE_ARRIVED, d)) cb s))"

definition beyond :: "nat \<Rightarrow> nat option \<Rightarrow> bool" where
  "beyond limit x = (case x of None \<Rightarrow> False | Some n \<Rightarrow> n > limit)"

definition libusb_hotplug_register_callback ::
    "(nat \<Rightarrow> hotplug_event \<Rightarrow> nat \<Rightarrow> bool) \<Rightarrow> hotplug_event set \<Rightarrow> bool \<Rightarrow> nat option \<Rightarrow> nat option \<Rightarrow> nat option \<Rightarrow>
     usb_lib \<Rightarrow> (int + nat) \<times> usb_lib" where
  "libusb_hotplug_register_callback answers evs enum_flag vendor_id product_id dev_class s =
     (if beyond 65535 vendor_id \<or> beyond 65535 product_id \<or> beyond 255 dev_class
      then (Inl LIBUSB_ERROR_INVALID_PARAM, s)
      else
        let cb = \<lparr>hc_handle = next_handle s, hc_events = evs, hc_vendor_id = vendor_id, hc_product_id = product_id,
              hc_dev_class = dev_class, hc_needs_free = False\<rparr>;
            s = s\<lparr>next_handle := next_handle s + 1, hotplug_cbs := cb # hotplug_cbs s\<rparr>;
            s = (if enum_flag then
                   let (devs, s) = libusb_get_device_list s in
                   libusb_free_device_list devs True (match_devices answers cb devs s)
                 else s) in
        (Inr (hc_handle cb), s))"

definition libusb_hotplug_deregister_callback :: "nat \<Rightarrow> usb_lib \<Rightarrow> usb_lib" where
  "libusb_hotplug_deregister_callback handle s =
     usbi_hotplug_notification None (s\<lparr>hotplug_cbs :=
       map (\<lambda>cb. if hc_handle cb = handle then cb\<lparr>hc_needs_free := True\<rparr> else cb) (hotplug_cbs s)\<rparr>)"

section \<open>The end of a context\<close>

definition libusb_exit :: "(nat \<Rightarrow> hotplug_event \<Rightarrow> nat \<Rightarrow> bool) \<Rightarrow> usb_lib \<Rightarrow> usb_lib" where
  "libusb_exit answers s =
     (let s = s\<lparr>hotplug_cbs := []\<rparr>;
          s = (if open_devs s = [] then process_messages answers (length (hotplug_msgs s)) s else s) in
      unref_all (usb_devs s) (s\<lparr>usb_devs := []\<rparr>))"

end
