(* ===== verification/UsbNetlink.thy ===== *)
theory UsbNetlink
  imports UsbEnum
begin

text \<open>
  How the kernel announces devices (\<open>os/linux_netlink.c\<close>): the parser of its messages, and the thread that waits for them. A
  buffer is a list of characters; reading outside of it gives \<open>None\<close>. What the system calls answer is a parameter.
\<close>

section \<open>Strings in a buffer\<close>

definition NUL :: char where
  "NUL = CHR 0x00"

text \<open>The string at an offset, unless there is no terminator before the end of the buffer.\<close>

definition c_str :: "string \<Rightarrow> nat \<Rightarrow> string option" where
  "c_str buffer offset = (let s = drop offset buffer in if NUL \<in> set s then Some (takeWhile (\<lambda>c. c \<noteq> NUL) s) else None)"

text \<open>\<open>strncmp\<close> with the length of the key, which has no terminator inside.\<close>

fun strncmp_equal :: "string \<Rightarrow> string \<Rightarrow> bool option" where
  "strncmp_equal s [] = Some True"
| "strncmp_equal [] (k # key) = None"
| "strncmp_equal (c # s) (k # key) = (if c = k then strncmp_equal s key else Some False)"

text \<open>\<open>strtoul\<close> to the base 10, with 32 bits: the value, and whether it sets \<open>errno\<close>.\<close>

definition strtoul :: "string \<Rightarrow> nat \<times> bool" where
  "strtoul s = (case split_sign s of (neg, s) \<Rightarrow>
     let v = digits_val 10 (digits 10 s) in
     if v \<ge> 2 ^ 32 then (2 ^ 32 - 1, True) else (if neg then (2 ^ 32 - v) mod 2 ^ 32 else v, False))"

section \<open>Messages\<close>

text \<open>\<open>None\<close>: a read outside the buffer; \<open>Some None\<close>: NULL, the key is not found; otherwise the offset of the value.\<close>

function netlink_message_parse :: "string \<Rightarrow> nat \<Rightarrow> string \<Rightarrow> nat \<Rightarrow> nat option option" where
  "netlink_message_parse buffer len key offset =
     (if offset \<ge> len then Some None
      else if offset \<ge> length buffer then None
      else if buffer ! offset = NUL then Some None
      else
        let hit = (case strncmp_equal (drop offset buffer) key of
            None \<Rightarrow> None
          | Some False \<Rightarrow> Some False
          | Some True \<Rightarrow>
              if offset + length key < length buffer then Some (buffer ! (offset + length key) = CHR ''='') else None) in
        case hit of
          None \<Rightarrow> None
        | Some True \<Rightarrow> Some (Some (offset + length key + 1))
        | Some False \<Rightarrow> (case c_str buffer offset of
            None \<Rightarrow> None
          | Some s \<Rightarrow> netlink_message_parse buffer len key (offset + length s + 1)))"
  by pat_completeness auto
termination by (relation "measure (\<lambda>(buffer, len, key, offset). len - offset)") auto

declare netlink_message_parse.simps [simp del]

text \<open>The last slash behind the first character of the value at \<open>start\<close>; the search for an empty value begins before it.\<close>

fun scan_slash :: "string \<Rightarrow> nat \<Rightarrow> nat \<Rightarrow> nat option option" where
  "scan_slash buffer start p =
     (if p = start then Some None
      else if buffer ! p = CHR ''/'' then Some (Some (p + 1))
      else case p of 0 \<Rightarrow> None | Suc q \<Rightarrow> scan_slash buffer start q)"

declare scan_slash.simps [simp del]

record uevent =
  ue_detached :: bool
  ue_sys_name :: "string option"
  ue_busnum :: u8
  ue_devaddr :: u8

text \<open>A value for a key: outside the buffer, not there, or the offset with the string.\<close>

definition message_value :: "string \<Rightarrow> nat \<Rightarrow> string \<Rightarrow> (nat \<times> string) option option" where
  "message_value buffer len key = (case netlink_message_parse buffer len key 0 of
     None \<Rightarrow> None
   | Some None \<Rightarrow> Some None
   | Some (Some tmp) \<Rightarrow> (case c_str buffer tmp of None \<Rightarrow> None | Some s \<Rightarrow> Some (Some (tmp, s))))"

text \<open>From \<open>DEVICE\<close>: the number behind the last slash, and the one that begins three characters before it.\<close>

definition parse_device :: "string \<Rightarrow> nat \<Rightarrow> bool \<Rightarrow> uevent option option" where
  "parse_device buffer len detached = (case message_value buffer len ''DEVICE'' of
     None \<Rightarrow> None
   | Some None \<Rightarrow> Some None
   | Some (Some (tmp, s)) \<Rightarrow> (case strrchr_split CHR ''/'' s of
       None \<Rightarrow> Some None
     | Some (before, after) \<Rightarrow>
         let pLastSlash = tmp + length before; (devaddr, err) = strtoul after in
         if err then Some None
         else if pLastSlash < 3 then None
         else (case c_str buffer (pLastSlash - 3) of
           None \<Rightarrow> None
         | Some t \<Rightarrow>
             let (busnum, err) = strtoul t in
             if err then Some None
             else Some (Some \<lparr>ue_detached = detached, ue_sys_name = None, ue_busnum = of_nat busnum, ue_devaddr = of_nat devaddr\<rparr>))))"

definition parse_devpath :: "string \<Rightarrow> nat \<Rightarrow> bool \<Rightarrow> nat \<Rightarrow> nat \<Rightarrow> uevent option option" where
  "parse_devpath buffer len detached busnum devaddr = (case message_value buffer len ''DEVPATH'' of
     None \<Rightarrow> None
   | Some None \<Rightarrow> Some None
   | Some (Some (tmp, s)) \<Rightarrow>
       if tmp + length s = 0 then None
       else (case scan_slash buffer tmp (tmp + length s - 1) of
         None \<Rightarrow> None
       | Some pos \<Rightarrow> Some (Some \<lparr>ue_detached = detached, ue_sys_name = Option.bind pos (c_str buffer),
           ue_busnum = of_nat busnum, ue_devaddr = of_nat devaddr\<rparr>)))"

text \<open>\<open>Some None\<close> is the result -1.\<close>

definition linux_netlink_parse :: "string \<Rightarrow> nat \<Rightarrow> uevent option option" where
  "linux_netlink_parse buffer len = (case message_value buffer len ''ACTION'' of
     None \<Rightarrow> None
   | Some None \<Rightarrow> Some None
   | Some (Some (_, action)) \<Rightarrow>
       if action \<noteq> ''remove'' \<and> action \<noteq> ''add'' then Some None
       else let detached = (action = ''remove'') in
       (case message_value buffer len ''SUBSYSTEM'' of
         None \<Rightarrow> None
       | Some None \<Rightarrow> Some None
       | Some (Some (_, subsystem)) \<Rightarrow>
           if subsystem \<noteq> ''usb'' then Some None
           else (case message_value buffer len ''BUSNUM'' of
             None \<Rightarrow> None
           | Some None \<Rightarrow> parse_device buffer len detached
           | Some (Some (_, bus)) \<Rightarrow>
               let (busnum, err) = strtoul bus in
               if err then Some None
               else (case message_value buffer len ''DEVNUM'' of
                 None \<Rightarrow> None
               | Some None \<Rightarrow> Some None
               | Some (Some (_, dev)) \<Rightarrow>
                   let (devaddr, err) = strtoul dev in
                   if err then Some None else parse_devpath buffer len detached busnum devaddr))))"

section \<open>Events\<close>

text \<open>A message is told to all contexts.\<close>

fun linux_hotplug_enumerate ::
    "linux_env \<Rightarrow> sysfs \<Rightarrow> nat \<Rightarrow> u8 \<Rightarrow> u8 \<Rightarrow> string option \<Rightarrow> usb_lib list \<Rightarrow> usb_lib list option" where
  "linux_hotplug_enumerate env sys fuel busnum devaddr sys_name [] = Some []"
| "linux_hotplug_enumerate env sys fuel busnum devaddr sys_name (ctx # ctxs) =
     (case linux_enumerate_device env sys fuel busnum devaddr sys_name ctx of
        None \<Rightarrow> None
      | Some (r, ctx) \<Rightarrow> map_option (\<lambda>ctxs. ctx # ctxs) (linux_hotplug_enumerate env sys fuel busnum devaddr sys_name ctxs))"

text \<open>
  \<open>answer\<close>: an error of \<open>recvmsg\<close>, whose result -1 is a large \<open>size_t\<close>, or the bytes, of which the first 1024 are kept. A read
  outside the buffer is undefined and gives \<open>None\<close>.
\<close>

definition receive_buffer :: "string option \<Rightarrow> string \<times> nat" where
  "receive_buffer answer = (case answer of
     None \<Rightarrow> (replicate 1024 NUL, 2 ^ 32 - 1)
   | Some bytes \<Rightarrow> let bytes = take 1024 bytes in (bytes @ replicate (1024 - length bytes) NUL, length bytes))"

definition linux_netlink_read_message ::
    "linux_env \<Rightarrow> sysfs \<Rightarrow> nat \<Rightarrow> string option \<Rightarrow> usb_lib list \<Rightarrow> (int \<times> usb_lib list) option" where
  "linux_netlink_read_message env sys fuel answer ctxs =
     (let (buffer, len) = receive_buffer answer in
      if len < 32 then Some (-1, ctxs)
      else case linux_netlink_parse buffer len of
        None \<Rightarrow> None
      | Some None \<Rightarrow> Some (-1, ctxs)
      | Some (Some e) \<Rightarrow>
          if ue_detached e then Some (0, map (linux_device_disconnected (ue_busnum e) (ue_devaddr e)) ctxs)
          else map_option (\<lambda>ctxs. (0, ctxs))
            (linux_hotplug_enumerate env sys fuel (ue_busnum e) (ue_devaddr e) (ue_sys_name e) ctxs))"

text \<open>Messages are read until one is refused, at the latest when there are no more.\<close>

fun linux_netlink_hotplug_poll ::
    "linux_env \<Rightarrow> sysfs \<Rightarrow> nat \<Rightarrow> string list \<Rightarrow> usb_lib list \<Rightarrow> usb_lib list option" where
  "linux_netlink_hotplug_poll env sys fuel [] ctxs = map_option snd (linux_netlink_read_message env sys fuel None ctxs)"
| "linux_netlink_hotplug_poll env sys fuel (m # ms) ctxs = (case linux_netlink_read_message env sys fuel (Some m) ctxs of
     None \<Rightarrow> None
   | Some (r, ctxs) \<Rightarrow> if r = 0 then linux_netlink_hotplug_poll env sys fuel ms ctxs else Some ctxs)"

section \<open>The thread\<close>

text \<open>
  \<open>mo_thread\<close>: the thread was created and not joined. Joining another is undefined and sets \<open>mo_ub\<close>, with which a run of the
  library ends without a result; \<open>mo_stray\<close> are the closed descriptors that were not open.
\<close>

record monitor =
  mo_socket :: int
  mo_pipe :: "int \<times> int"
  mo_thread :: bool
  mo_open :: "int list"
  mo_stray :: "int list"
  mo_ub :: bool

text \<open>The answers of the system: the descriptor or -1 with \<open>errno\<close>, the second attempt, and what the other calls do.\<close>

record monitor_calls =
  mc_socket :: "int + int"
  mc_socket_plain :: "int option"
  mc_fcntl :: "bool \<times> bool"
  mc_bind :: bool
  mc_pipe :: "(int \<times> int) option"
  mc_thread :: bool

definition close_fd :: "int \<Rightarrow> monitor \<Rightarrow> monitor" where
  "close_fd fd m = (if fd \<in> set (mo_open m) then m\<lparr>mo_open := remove1 fd (mo_open m)\<rparr> else m\<lparr>mo_stray := fd # mo_stray m\<rparr>)"

definition set_fd_cloexec_nb :: "bool \<times> bool \<Rightarrow> int" where
  "set_fd_cloexec_nb fcntls = (if \<not> fst fcntls then -1 else if \<not> snd fcntls then -1 else 0)"

definition linux_netlink_start_event_monitor :: "monitor_calls \<Rightarrow> monitor \<Rightarrow> int \<times> monitor" where
  "linux_netlink_start_event_monitor c m =
     (let fd = (case mc_socket c of
          Inr fd \<Rightarrow> fd
        | Inl errno \<Rightarrow> if errno = usbfs_EINVAL then (case mc_socket_plain c of Some fd \<Rightarrow> fd | None \<Rightarrow> -1) else -1);
          m = m\<lparr>mo_socket := fd\<rparr> in
      if fd = -1 then (LIBUSB_ERROR_OTHER, m)
      else
        let m = m\<lparr>mo_open := fd # mo_open m\<rparr> in
        if set_fd_cloexec_nb (mc_fcntl c) \<noteq> 0 then (LIBUSB_ERROR_OTHER, (close_fd fd m)\<lparr>mo_socket := -1\<rparr>)
        else if \<not> mc_bind c then (LIBUSB_ERROR_OTHER, close_fd fd m)
        else case mc_pipe c of
          None \<Rightarrow> (LIBUSB_ERROR_OTHER, close_fd fd m)
        | Some (rd, wr) \<Rightarrow>
            let m = m\<lparr>mo_pipe := (rd, wr), mo_open := rd # wr # mo_open m\<rparr> in
            if \<not> mc_thread c then (LIBUSB_ERROR_OTHER, close_fd fd (close_fd wr (close_fd rd m)))
            else (0, m\<lparr>mo_thread := True\<rparr>))"

definition linux_netlink_stop_event_monitor :: "monitor \<Rightarrow> int \<times> monitor" where
  "linux_netlink_stop_event_monitor m =
     (if mo_socket m = -1 then (0, m)
      else
        let m = (if mo_thread m then m\<lparr>mo_thread := False\<rparr> else m\<lparr>mo_ub := True\<rparr>);
            m = (close_fd (mo_socket m) m)\<lparr>mo_socket := -1\<rparr>;
            m = close_fd (snd (mo_pipe m)) (close_fd (fst (mo_pipe m)) m) in
        (0, m\<lparr>mo_pipe := (-1, -1)\<rparr>))"

end
