(* ===== verification/UsbInit.thy ===== *)
theory UsbInit
  imports UsbNetlink
begin

text \<open>
  The start and the end of libusb: the checks of \<open>op_init\<close> and the scans for devices (\<open>os/linux_usbfs.c\<close>), and the contexts with
  their linked list (\<open>libusb/core.c\<close>, \<open>libusbi.h\<close>). Directories and the answers of the system are parameters.
\<close>

section \<open>Linked lists\<close>

text \<open>The head of the list or the list entry of a context; NULL is \<open>None\<close>, and writing through it gives \<open>None\<close>.\<close>

datatype node = Head | Entry nat

record links =
  next_of :: "node \<Rightarrow> node option"
  prev_of :: "node \<Rightarrow> node option"

definition list_init :: "node \<Rightarrow> links \<Rightarrow> links" where
  "list_init entry l = l\<lparr>next_of := (next_of l)(entry := Some entry), prev_of := (prev_of l)(entry := Some entry)\<rparr>"

definition list_add :: "node \<Rightarrow> node \<Rightarrow> links \<Rightarrow> links option" where
  "list_add entry head l =
     (let l = l\<lparr>next_of := (next_of l)(entry := next_of l head), prev_of := (prev_of l)(entry := Some head)\<rparr> in
      case next_of l head of
        None \<Rightarrow> None
      | Some n \<Rightarrow> Some (l\<lparr>prev_of := (prev_of l)(n := Some entry), next_of := (next_of l)(head := Some entry)\<rparr>))"

definition list_del :: "node \<Rightarrow> links \<Rightarrow> links option" where
  "list_del entry l = (case next_of l entry of
     None \<Rightarrow> None
   | Some n \<Rightarrow>
       let l = l\<lparr>prev_of := (prev_of l)(n := prev_of l entry)\<rparr> in
       (case prev_of l entry of
          None \<Rightarrow> None
        | Some p \<Rightarrow>
            let l = l\<lparr>next_of := (next_of l)(p := next_of l entry)\<rparr> in
            Some (l\<lparr>next_of := (next_of l)(entry := None), prev_of := (prev_of l)(entry := None)\<rparr>)))"

text \<open>What \<open>list_for_each_entry\<close> visits, in at most \<open>n\<close> steps; \<open>None\<close> when it does not come back to the head.\<close>

fun visited :: "links \<Rightarrow> nat \<Rightarrow> node \<Rightarrow> nat list option" where
  "visited l n pos = (case next_of l pos of
     None \<Rightarrow> None
   | Some Head \<Rightarrow> Some []
   | Some (Entry c) \<Rightarrow> (case n of 0 \<Rightarrow> None | Suc m \<Rightarrow> map_option (\<lambda>cs. c # cs) (visited l m (Entry c))))"

declare visited.simps [simp del]

section \<open>Where the devices are\<close>

text \<open>A number as \<open>%d\<close> reads it, and the rest.\<close>

definition scan_int :: "string \<Rightarrow> (int \<times> string) option" where
  "scan_int s = (case split_sign s of (neg, t) \<Rightarrow>
     let n = digits 10 t; v = int (digits_val 10 n) in
     if n = [] then None else Some (s32 (if neg then - v else v), drop (length n) t))"

definition is_usbdev_entry :: "string \<Rightarrow> (int \<times> int) option" where
  "is_usbdev_entry name =
     (if take 6 name \<noteq> ''usbdev'' then None
      else case scan_int (drop 6 name) of
        None \<Rightarrow> None
      | Some (busnum, s) \<Rightarrow>
          if s = [] \<or> hd s \<noteq> CHR ''.'' then None
          else map_option (\<lambda>(devnum, _). (busnum, devnum)) (scan_int (tl s)))"

definition hidden :: "string \<Rightarrow> bool" where
  "hidden name \<longleftrightarrow> name \<noteq> [] \<and> hd name = CHR ''.''"

text \<open>\<open>dirs\<close> gives the names in a directory, unless it cannot be opened.\<close>

definition check_usb_vfs :: "(string \<Rightarrow> string list option) \<Rightarrow> string \<Rightarrow> bool" where
  "check_usb_vfs dirs dirname = (case dirs dirname of None \<Rightarrow> False | Some names \<Rightarrow> \<exists>name \<in> set names. \<not> hidden name)"

text \<open>The path, and whether \<open>usbdev_names\<close> is set.\<close>

definition find_usbfs_path :: "(string \<Rightarrow> string list option) \<Rightarrow> (string \<times> bool) option" where
  "find_usbfs_path dirs =
     (if check_usb_vfs dirs ''/dev/bus/usb'' then Some (''/dev/bus/usb'', False)
      else if check_usb_vfs dirs ''/proc/bus/usb'' then Some (''/proc/bus/usb'', False)
      else case dirs ''/dev'' of
        None \<Rightarrow> None
      | Some names \<Rightarrow> if \<exists>name \<in> set names. is_usbdev_entry name \<noteq> None then Some (''/dev'', True) else None)"

text \<open>Three decimal digits, as in \<open>%03d\<close>, for a number below 1000.\<close>

definition dec3 :: "nat \<Rightarrow> string" where
  "dec3 n = map (\<lambda>d. char_of (48 + d)) [n div 100, n div 10 mod 10, n mod 10]"

section \<open>Scans\<close>

text \<open>The loops of the scans: \<open>r\<close> is their result so far.\<close>

fun scan_addresses :: "linux_env \<Rightarrow> sysfs \<Rightarrow> nat \<Rightarrow> u8 \<Rightarrow> string list \<Rightarrow> int \<Rightarrow> usb_lib \<Rightarrow> (int \<times> usb_lib) option" where
  "scan_addresses env sys fuel busnum [] r ctx = Some (r, ctx)"
| "scan_addresses env sys fuel busnum (name # names) r ctx =
     (let devaddr = atoi name in
      if hidden name \<or> devaddr = 0 then scan_addresses env sys fuel busnum names r ctx
      else case linux_enumerate_device env sys fuel busnum (word_of_int devaddr) None ctx of
        None \<Rightarrow> None
      | Some (e, ctx) \<Rightarrow> scan_addresses env sys fuel busnum names (if e \<noteq> 0 then r else 0) ctx)"

definition usbfs_scan_busdir ::
    "linux_env \<Rightarrow> sysfs \<Rightarrow> nat \<Rightarrow> (string \<Rightarrow> string list option) \<Rightarrow> string \<Rightarrow> u8 \<Rightarrow> usb_lib \<Rightarrow> (int \<times> usb_lib) option" where
  "usbfs_scan_busdir env sys fuel dirs usbfs_path busnum ctx = (case dirs (usbfs_path @ ''/'' @ dec3 (unat busnum)) of
     None \<Rightarrow> Some (LIBUSB_ERROR_IO, ctx)
   | Some names \<Rightarrow> scan_addresses env sys fuel busnum names LIBUSB_ERROR_IO ctx)"

fun scan_usbdevs :: "linux_env \<Rightarrow> sysfs \<Rightarrow> nat \<Rightarrow> string list \<Rightarrow> int \<Rightarrow> usb_lib \<Rightarrow> (int \<times> usb_lib) option" where
  "scan_usbdevs env sys fuel [] r ctx = Some (r, ctx)"
| "scan_usbdevs env sys fuel (name # names) r ctx =
     (case if hidden name then None else is_usbdev_entry name of
        None \<Rightarrow> scan_usbdevs env sys fuel names r ctx
      | Some (busnum, devaddr) \<Rightarrow>
          (case linux_enumerate_device env sys fuel (word_of_int busnum) (word_of_int devaddr) None ctx of
             None \<Rightarrow> None
           | Some (r, ctx) \<Rightarrow> scan_usbdevs env sys fuel names r ctx))"

fun scan_buses ::
    "linux_env \<Rightarrow> sysfs \<Rightarrow> nat \<Rightarrow> (string \<Rightarrow> string list option) \<Rightarrow> string \<Rightarrow> string list \<Rightarrow> int \<Rightarrow> usb_lib \<Rightarrow> (int \<times> usb_lib) option" where
  "scan_buses env sys fuel dirs usbfs_path [] r ctx = Some (r, ctx)"
| "scan_buses env sys fuel dirs usbfs_path (name # names) r ctx =
     (let busnum = atoi name in
      if hidden name \<or> busnum = 0 then scan_buses env sys fuel dirs usbfs_path names r ctx
      else case usbfs_scan_busdir env sys fuel dirs usbfs_path (word_of_int busnum) ctx of
        None \<Rightarrow> None
      | Some (r, ctx) \<Rightarrow> if r < 0 then Some (r, ctx) else scan_buses env sys fuel dirs usbfs_path names r ctx)"

definition usbfs_get_device_list ::
    "linux_env \<Rightarrow> sysfs \<Rightarrow> nat \<Rightarrow> (string \<Rightarrow> string list option) \<Rightarrow> string \<Rightarrow> bool \<Rightarrow> usb_lib \<Rightarrow> (int \<times> usb_lib) option" where
  "usbfs_get_device_list env sys fuel dirs usbfs_path usbdev_names ctx = (case dirs usbfs_path of
     None \<Rightarrow> Some (LIBUSB_ERROR_IO, ctx)
   | Some names \<Rightarrow>
       if usbdev_names then scan_usbdevs env sys fuel names 0 ctx else scan_buses env sys fuel dirs usbfs_path names 0 ctx)"

text \<open>The names of devices and root hubs, not of interfaces.\<close>

definition sysfs_name :: "string \<Rightarrow> bool" where
  "sysfs_name name \<longleftrightarrow> (name \<noteq> [] \<and> digit_val (hd name) < 10 \<or> take 3 name = ''usb'') \<and> CHR '':'' \<notin> set name"

fun scan_names :: "linux_env \<Rightarrow> sysfs \<Rightarrow> nat \<Rightarrow> string list \<Rightarrow> int \<Rightarrow> usb_lib \<Rightarrow> (int \<times> usb_lib) option" where
  "scan_names env sys fuel [] r ctx = Some (r, ctx)"
| "scan_names env sys fuel (name # names) r ctx =
     (if \<not> sysfs_name name then scan_names env sys fuel names r ctx
      else case sysfs_scan_device env sys fuel name ctx of
        None \<Rightarrow> None
      | Some (e, ctx) \<Rightarrow> scan_names env sys fuel names (if e \<noteq> 0 then r else 0) ctx)"

definition sysfs_get_device_list ::
    "linux_env \<Rightarrow> sysfs \<Rightarrow> nat \<Rightarrow> (string \<Rightarrow> string list option) \<Rightarrow> usb_lib \<Rightarrow> (int \<times> usb_lib) option" where
  "sysfs_get_device_list env sys fuel dirs ctx = (case dirs ''/sys/bus/usb/devices'' of
     None \<Rightarrow> Some (LIBUSB_ERROR_IO, ctx)
   | Some names \<Rightarrow> scan_names env sys fuel names LIBUSB_ERROR_IO ctx)"

definition linux_default_scan_devices ::
    "linux_env \<Rightarrow> sysfs \<Rightarrow> nat \<Rightarrow> (string \<Rightarrow> string list option) \<Rightarrow> string \<Rightarrow> bool \<Rightarrow> usb_lib \<Rightarrow> (int \<times> usb_lib) option" where
  "linux_default_scan_devices env sys fuel dirs usbfs_path usbdev_names ctx =
     (if sysfs_can_relate_devices env then sysfs_get_device_list env sys fuel dirs ctx
      else usbfs_get_device_list env sys fuel dirs usbfs_path usbdev_names ctx)"

section \<open>The backend\<close>

text \<open>The static variables; -1 is unknown.\<close>

record linux_statics =
  st_usbfs_path :: "string option"
  st_usbdev_names :: bool
  st_monotonic :: "bool option"
  st_bulk_continuation :: int
  st_zero_packet :: int
  st_has_descriptors :: int
  st_can_relate :: int
  st_init_count :: int

text \<open>The answers of the system, with the fuel for enumerations and the result of \<open>usbi_io_init\<close>.\<close>

record init_calls =
  ic_dirs :: "string \<Rightarrow> string list option"
  ic_monotonic :: bool
  ic_release :: "int list option"
  ic_sysfs_dir :: bool
  ic_monitor :: monitor_calls
  ic_sys :: sysfs
  ic_fuel :: nat
  ic_io :: int

definition flag_value :: "int list option \<Rightarrow> int \<Rightarrow> int \<Rightarrow> int" where
  "flag_value release sublevel v = (if v = -1 then kernel_version_ge release 2 6 sublevel else v)"

text \<open>The checks that \<open>op_init\<close> and \<open>op_init2\<close> share.\<close>

definition check_flags :: "init_calls \<Rightarrow> linux_statics \<Rightarrow> bool \<times> linux_statics" where
  "check_flags c st =
     (let flag = flag_value (ic_release c);
          st = (if st_monotonic st = None then st\<lparr>st_monotonic := Some (ic_monotonic c)\<rparr> else st);
          st = st\<lparr>st_bulk_continuation := flag 32 (st_bulk_continuation st)\<rparr> in
      if st_bulk_continuation st = -1 then (False, st)
      else let st = st\<lparr>st_zero_packet := flag 31 (st_zero_packet st)\<rparr> in
      if st_zero_packet st = -1 then (False, st)
      else let st = st\<lparr>st_has_descriptors := flag 26 (st_has_descriptors st)\<rparr> in
      if st_has_descriptors st = -1 then (False, st)
      else let st = st\<lparr>st_can_relate := flag 22 (st_can_relate st)\<rparr> in
      if st_can_relate st = -1 then (False, st)
      else (True, if (st_can_relate st \<noteq> 0 \<or> st_has_descriptors st \<noteq> 0) \<and> \<not> ic_sysfs_dir c
                  then st\<lparr>st_can_relate := 0, st_has_descriptors := 0\<rparr> else st))"

definition env_of :: "linux_statics \<Rightarrow> linux_env" where
  "env_of st = \<lparr>sysfs_can_relate_devices = st_can_relate st \<noteq> 0, sysfs_has_descriptors = st_has_descriptors st \<noteq> 0\<rparr>"

text \<open>The end of \<open>op_init\<close> and \<open>op_init2\<close>: the result of the start of the monitor is in a variable of an inner block.\<close>

definition start_and_scan ::
    "init_calls \<Rightarrow> linux_statics \<Rightarrow> monitor \<Rightarrow> usb_lib \<Rightarrow> (int \<times> linux_statics \<times> monitor \<times> usb_lib) option" where
  "start_and_scan c st mon ctx =
     (let mon = (if st_init_count st = 0 then snd (linux_netlink_start_event_monitor (ic_monitor c) mon) else mon) in
      case linux_default_scan_devices (env_of st) (ic_sys c) (ic_fuel c) (ic_dirs c) (the (st_usbfs_path st)) (st_usbdev_names st) ctx of
        None \<Rightarrow> None
      | Some (r, ctx) \<Rightarrow>
          if r = 0 then Some (r, st\<lparr>st_init_count := st_init_count st + 1\<rparr>, mon, ctx)
          else Some (r, st, if st_init_count st = 0 then snd (linux_netlink_stop_event_monitor mon) else mon, ctx))"

definition op_init ::
    "init_calls \<Rightarrow> linux_statics \<Rightarrow> monitor \<Rightarrow> usb_lib \<Rightarrow> (int \<times> linux_statics \<times> monitor \<times> usb_lib) option" where
  "op_init c st mon ctx = (case find_usbfs_path (ic_dirs c) of
     None \<Rightarrow> Some (LIBUSB_ERROR_OTHER, st\<lparr>st_usbfs_path := None\<rparr>, mon, ctx)
   | Some (path, usbdev) \<Rightarrow>
       let st = st\<lparr>st_usbfs_path := Some path, st_usbdev_names := st_usbdev_names st \<or> usbdev\<rparr>; (ok, st) = check_flags c st in
       if \<not> ok then Some (LIBUSB_ERROR_OTHER, st, mon, ctx) else start_and_scan c st mon ctx)"

definition op_init2 ::
    "string option \<Rightarrow> init_calls \<Rightarrow> linux_statics \<Rightarrow> monitor \<Rightarrow> usb_lib \<Rightarrow> (int \<times> linux_statics \<times> monitor \<times> usb_lib) option" where
  "op_init2 uspfs_path_input c st mon ctx = (case uspfs_path_input of
     None \<Rightarrow> op_init c st mon ctx
   | Some path \<Rightarrow>
       if path = [] then Some (LIBUSB_ERROR_OTHER, st, mon, ctx)
       else let (ok, st) = check_flags c (st\<lparr>st_usbfs_path := Some path\<rparr>) in
         if \<not> ok then Some (LIBUSB_ERROR_OTHER, st, mon, ctx) else start_and_scan c st mon ctx)"

text \<open>\<open>None\<close>: the assertion fails.\<close>

definition op_exit :: "linux_statics \<Rightarrow> monitor \<Rightarrow> (linux_statics \<times> monitor) option" where
  "op_exit st mon =
     (if st_init_count st = 0 then None
      else let st = st\<lparr>st_init_count := st_init_count st - 1\<rparr> in
        Some (st, if st_init_count st = 0 then snd (linux_netlink_stop_event_monitor mon) else mon))"

end
