(* ===== verification/UsbDeviceProps.thy ===== *)
theory UsbDeviceProps
  imports UsbEnum
begin

text \<open>
  The references to devices: after every history of a context the count of a device is the number of references to it, a
  device is allocated exactly as long as it is referenced, and no freed device is used.
\<close>

section \<open>Counting\<close>

text \<open>
  The references that the context holds: the list of devices, open handles, messages of devices that left, parents, the
  client, and those that were lost. A function has others in its variables, which are the list \<open>extra\<close>.
\<close>

definition refs :: "usb_lib \<Rightarrow> nat \<Rightarrow> nat" where
  "refs s d = count_list (usb_devs s) d + count_list (map snd (open_devs s)) d +
     count_list (hotplug_msgs s) (Some (DEVICE_LEFT, d)) +
     length (filter (\<lambda>c. dv_parent (dev_of s c) = Some d) (alive s)) + count_list (user_refs s) d + count_list (leaked s) d"

definition counted_refs :: "nat list \<Rightarrow> usb_lib \<Rightarrow> bool" where
  "counted_refs extra s \<longleftrightarrow> \<not> lib_ub s \<and> distinct (alive s) \<and>
     (\<forall>d. d \<in> set (alive s) \<longleftrightarrow> 0 < refs s d + count_list extra d) \<and>
     (\<forall>d \<in> set (alive s). dv_refcnt (dev_of s d) = int (refs s d + count_list extra d) \<and> d < next_dev s)"

lemma counted_refsI:
  assumes "\<not> lib_ub s" "distinct (alive s)" "\<And>d. d \<in> set (alive s) \<longleftrightarrow> 0 < refs s d + count_list extra d"
    "\<And>d. d \<in> set (alive s) \<Longrightarrow> dv_refcnt (dev_of s d) = int (refs s d + count_list extra d)"
    "\<And>d. d \<in> set (alive s) \<Longrightarrow> d < next_dev s"
  shows "counted_refs extra s"
  using assms by (simp add: counted_refs_def)

lemma counted_refsD:
  assumes "counted_refs extra s"
  shows "\<not> lib_ub s" "distinct (alive s)" "d \<in> set (alive s) \<longleftrightarrow> 0 < refs s d + count_list extra d"
    "d \<in> set (alive s) \<Longrightarrow> dv_refcnt (dev_of s d) = int (refs s d + count_list extra d)"
    "d \<in> set (alive s) \<Longrightarrow> d < next_dev s"
  using assms by (simp_all add: counted_refs_def)

lemma count_list_pos: "0 < count_list l x \<longleftrightarrow> x \<in> set l"
  using count_list_0_iff [of l x] by auto

lemma extra_alive: "counted_refs extra s \<Longrightarrow> d \<in> set extra \<Longrightarrow> d \<in> set (alive s)"
  using counted_refsD(3) [of extra s d] by (simp add: count_list_pos)

lemma referenced_alive: "counted_refs extra s \<Longrightarrow> 0 < refs s d \<Longrightarrow> d \<in> set (alive s)"
  using counted_refsD(3) [of extra s d] by simp

lemma listed_alive: "counted_refs extra s \<Longrightarrow> d \<in> set (usb_devs s) \<Longrightarrow> d \<in> set (alive s)"
  by (rule referenced_alive) (simp_all add: refs_def count_list_pos)

text \<open>A reference moves from one place to another.\<close>

lemma counted_refs_move:
  assumes "counted_refs extra s" "alive s' = alive s" "next_dev s' = next_dev s" "lib_ub s' = lib_ub s"
    "\<And>d. d \<in> set (alive s) \<Longrightarrow> dv_refcnt (dev_of s' d) = dv_refcnt (dev_of s d)"
    "\<And>d. refs s' d + count_list extra' d = refs s d + count_list extra d"
  shows "counted_refs extra' s'"
  using assms by (simp add: counted_refs_def)

lemma refs_upd_same: "(\<And>v. dv_parent (f v) = dv_parent v) \<Longrightarrow> refs (upd_device d f s) = refs s"
  by (auto simp: refs_def upd_device_def intro!: arg_cong [where f = length] filter_cong)

lemma upd_device_alive:
  "d \<in> set (alive s) \<Longrightarrow> upd_device d f s = s\<lparr>dev_of := (dev_of s)(d := f (dev_of s d))\<rparr>"
  by (simp add: upd_device_def)

lemma counted_refs_upd:
  assumes "counted_refs extra s" "d \<in> set (alive s)" "\<And>v. dv_parent (f v) = dv_parent v" "\<And>v. dv_refcnt (f v) = dv_refcnt v"
  shows "counted_refs extra (upd_device d f s)"
  by (rule counted_refs_move [OF assms(1)])
    (simp_all add: refs_upd_same [OF assms(3)], simp_all add: upd_device_alive [OF assms(2)] assms(4))

lemma counted_refs_ref:
  assumes "counted_refs extra s" "d \<in> set (alive s)"
  shows "counted_refs (d # extra) (libusb_ref_device d s)"
proof -
  let ?s = "libusb_ref_device d s"
  have r: "refs ?s = refs s" unfolding libusb_ref_device_def by (rule refs_upd_same) simp
  show ?thesis
    using counted_refsD [OF assms(1)] assms(2) unfolding counted_refs_def r
    by (auto simp: libusb_ref_device_def upd_device_alive)
qed

text \<open>Freeing a device gives up its reference to its parent.\<close>

lemma length_filter_removeAll:
  "distinct l \<Longrightarrow> d \<in> set l \<Longrightarrow> length (filter P l) = length (filter P (removeAll d l)) + of_bool (P d)"
proof (induction l)
  case (Cons x l)
  then show ?case by (cases "x = d") (auto simp: removeAll_id)
qed simp

lemma refs_freed:
  assumes "distinct (alive s)" "d \<in> set (alive s)"
  shows "refs s e = refs (s\<lparr>alive := removeAll d (alive s)\<rparr>) e + of_bool (dv_parent (dev_of s d) = Some e)"
  using length_filter_removeAll [OF assms, of "\<lambda>c. dv_parent (dev_of s c) = Some e"] by (simp add: refs_def)

lemma counted_refs_unref_option:
  "counted_refs (case dev of None \<Rightarrow> extra | Some d \<Rightarrow> d # extra) s \<Longrightarrow> counted_refs extra (libusb_unref_device dev s)"
proof (induction dev s rule: libusb_unref_device.induct)
  case (1 dev s)
  show ?case
  proof (cases dev)
    case None
    then show ?thesis using "1.prems" by (simp add: libusb_unref_device.simps)
  next
    case (Some d)
    have c: "counted_refs (d # extra) s" using "1.prems" Some by simp
    note c' = counted_refsD [OF c]
    have alive: "d \<in> set (alive s)" using c'(3) [of d] by simp
    define s' where "s' = upd_device d (\<lambda>v. v\<lparr>dv_refcnt := dv_refcnt v - 1\<rparr>) s"
    have r: "refs s' = refs s" unfolding s'_def by (rule refs_upd_same) simp
    have s': "alive s' = alive s" "next_dev s' = next_dev s" "lib_ub s' = lib_ub s"
        "\<And>e. dv_refcnt (dev_of s' e) = dv_refcnt (dev_of s e) - of_bool (e = d)"
      using alive by (simp_all add: s'_def upd_device_alive)
    have n: "dv_refcnt (dev_of s' d) = int (refs s d + count_list extra d)" using c'(4) [OF alive] s'(4) by simp
    show ?thesis
    proof (cases "dv_refcnt (dev_of s' d) = 0")
      case False
      have "counted_refs extra s'"
        using c' False n alive unfolding counted_refs_def r s'
        by (auto split: if_splits)
      then show ?thesis using Some alive False by (subst libusb_unref_device.simps) (simp flip: s'_def)
    next
      case True
      let ?t = "s'\<lparr>alive := removeAll d (alive s)\<rparr>" and ?p = "dv_parent (dev_of s' d)"
      have p: "refs s e = refs ?t e + of_bool (?p = Some e)" for e
        using refs_freed [of s' d e] c'(2) alive by (simp add: r s'(1))
      have z: "refs s d = 0" "count_list extra d = 0" using True n by simp_all
      have "counted_refs (case ?p of None \<Rightarrow> extra | Some q \<Rightarrow> q # extra) ?t"
      proof (rule counted_refsI)
        fix e
        have e: "refs ?t e + count_list (case ?p of None \<Rightarrow> extra | Some q \<Rightarrow> q # extra) e = refs s e + count_list extra e"
          using p [of e] by (cases ?p) auto
        show "e \<in> set (alive ?t) \<longleftrightarrow> 0 < refs ?t e + count_list (case ?p of None \<Rightarrow> extra | Some q \<Rightarrow> q # extra) e"
          unfolding e using c'(3) [of e] z by (cases "e = d") auto
        show "dv_refcnt (dev_of ?t e) = int (refs ?t e + count_list (case ?p of None \<Rightarrow> extra | Some q \<Rightarrow> q # extra) e)"
          if "e \<in> set (alive ?t)" unfolding e using c'(4) [of e] that s'(4) by auto
        show "e < next_dev ?t" if "e \<in> set (alive ?t)" using c'(5) [of e] that s' by auto
      qed (use c' s' in \<open>auto simp: distinct_removeAll\<close>)
      then have "counted_refs extra (libusb_unref_device ?p ?t)"
        using "1.IH" [OF Some _ s'_def True] alive by simp
      then show ?thesis using Some alive True by (subst libusb_unref_device.simps) (simp flip: s'_def)
    qed
  qed
qed

lemma counted_refs_unref: "counted_refs (d # extra) s \<Longrightarrow> counted_refs extra (libusb_unref_device (Some d) s)"
  using counted_refs_unref_option [where dev = "Some d" and extra = extra and s = s] by simp

section \<open>The invariant\<close>

text \<open>A device whose arrival is still to be told is in the list, or its leaving will be told later.\<close>

fun arrivals_ok :: "nat set \<Rightarrow> (hotplug_event \<times> nat) option list \<Rightarrow> bool" where
  "arrivals_ok devs [] \<longleftrightarrow> True"
| "arrivals_ok devs (m # ms) \<longleftrightarrow>
     (\<forall>d. m = Some (DEVICE_ARRIVED, d) \<longrightarrow> d \<in> devs \<or> Some (DEVICE_LEFT, d) \<in> set ms) \<and> arrivals_ok devs ms"

definition messages_ok :: "usb_lib \<Rightarrow> bool" where
  "messages_ok s \<longleftrightarrow> arrivals_ok (set (usb_devs s)) (hotplug_msgs s) \<and> (\<not> msgs_ready s \<longrightarrow> set (hotplug_msgs s) \<subseteq> {None})"

text \<open>No device is its own ancestor.\<close>

definition ranked :: "usb_lib \<Rightarrow> bool" where
  "ranked s \<longleftrightarrow> (\<exists>rank :: nat \<Rightarrow> nat. \<forall>d \<in> set (alive s). \<forall>p. dv_parent (dev_of s d) = Some p \<longrightarrow> rank p < rank d)"

text \<open>In sysfs (\<open>named\<close>) every listed device has a name.\<close>

definition names_ok :: "bool \<Rightarrow> usb_lib \<Rightarrow> bool" where
  "names_ok named s \<longleftrightarrow> (named \<longrightarrow> (\<forall>d \<in> set (usb_devs s). sysfs_dir (dv_linux (dev_of s d)) \<noteq> None))"

definition lib_inv :: "bool \<Rightarrow> nat list \<Rightarrow> usb_lib \<Rightarrow> bool" where
  "lib_inv named extra s \<longleftrightarrow> counted_refs extra s \<and> messages_ok s \<and> ranked s \<and> names_ok named s"

lemma arrivals_ok_mono: "arrivals_ok devs ms \<Longrightarrow> devs \<subseteq> devs' \<Longrightarrow> arrivals_ok devs' ms"
  by (induction ms) auto

lemma arrivals_ok_append: "arrivals_ok devs ms \<Longrightarrow> arrivals_ok devs ms' \<Longrightarrow> arrivals_ok devs (ms @ ms')"
  by (induction ms) auto

lemma arrivals_ok_left: "arrivals_ok devs ms \<Longrightarrow> arrivals_ok (devs - {d}) (ms @ [Some (DEVICE_LEFT, d)])"
  by (induction ms) auto

section \<open>References taken and dropped\<close>

text \<open>Operations that change counts, and free devices, but no list.\<close>

definition lists_kept :: "usb_lib \<Rightarrow> usb_lib \<Rightarrow> bool" where
  "lists_kept s s' \<longleftrightarrow> usb_devs s' = usb_devs s \<and> open_devs s' = open_devs s \<and> hotplug_msgs s' = hotplug_msgs s \<and>
     msgs_ready s' = msgs_ready s \<and> user_refs s' = user_refs s \<and> leaked s' = leaked s \<and> next_dev s' = next_dev s \<and>
     set (alive s') \<subseteq> set (alive s) \<and>
     (\<forall>x. dv_parent (dev_of s' x) = dv_parent (dev_of s x) \<and> dv_linux (dev_of s' x) = dv_linux (dev_of s x) \<and>
       dv_attached (dev_of s' x) = dv_attached (dev_of s x) \<and> dv_session (dev_of s' x) = dv_session (dev_of s x))"

lemma lists_kept_refl: "lists_kept s s"
  by (simp add: lists_kept_def)

lemma lists_kept_trans: "lists_kept s t \<Longrightarrow> lists_kept t u \<Longrightarrow> lists_kept s u"
  by (auto simp: lists_kept_def)

lemma lists_kept_ref: "lists_kept s (libusb_ref_device d s)"
  by (simp add: lists_kept_def libusb_ref_device_def upd_device_def)

lemma lists_kept_unref: "lists_kept s (libusb_unref_device dev s)"
proof (induction dev s rule: libusb_unref_device.induct)
  case (1 dev s)
  show ?case
  proof (cases dev)
    case None
    then show ?thesis by (simp add: libusb_unref_device.simps lists_kept_refl)
  next
    case (Some d)
    define s' where "s' = upd_device d (\<lambda>v. v\<lparr>dv_refcnt := dv_refcnt v - 1\<rparr>) s"
    have k: "lists_kept s s'" by (simp add: s'_def lists_kept_def upd_device_def)
    let ?t = "s'\<lparr>alive := removeAll d (alive s)\<rparr>"
    have t: "lists_kept s ?t" using k by (auto simp: lists_kept_def)
    show ?thesis
    proof (cases "d \<in> set (alive s) \<and> dv_refcnt (dev_of s' d) = 0")
      case True
      then have "lists_kept ?t (libusb_unref_device (dv_parent (dev_of s' d)) ?t)"
        using "1.IH" [OF Some _ s'_def] by simp
      then show ?thesis using lists_kept_trans [OF t] Some True by (subst libusb_unref_device.simps) (simp flip: s'_def)
    next
      case False
      then show ?thesis using k Some
        by (subst libusb_unref_device.simps) (auto simp: lists_kept_def simp flip: s'_def)
    qed
  qed
qed

lemma ranked_kept:
  assumes "ranked s" "set (alive s') \<subseteq> set (alive s)" "\<And>x. x \<in> set (alive s') \<Longrightarrow> dv_parent (dev_of s' x) = dv_parent (dev_of s x)"
  shows "ranked s'"
proof -
  obtain rank :: "nat \<Rightarrow> nat" where "\<forall>d \<in> set (alive s). \<forall>p. dv_parent (dev_of s d) = Some p \<longrightarrow> rank p < rank d"
    using assms(1) by (auto simp: ranked_def)
  then have "\<forall>d \<in> set (alive s'). \<forall>p. dv_parent (dev_of s' d) = Some p \<longrightarrow> rank p < rank d" using assms(2,3) by auto
  then show ?thesis unfolding ranked_def by blast
qed

lemma lib_inv_kept:
  assumes "lib_inv named extra s" "lists_kept s s'" "counted_refs extra' s'"
  shows "lib_inv named extra' s'"
proof -
  have "ranked s'" by (rule ranked_kept [of s]) (use assms in \<open>auto simp: lib_inv_def lists_kept_def\<close>)
  then show ?thesis using assms by (simp add: lib_inv_def lists_kept_def messages_ok_def names_ok_def)
qed

text \<open>References move, and the callbacks may change.\<close>

lemma lib_inv_move:
  assumes "lib_inv named extra s" "usb_devs s' = usb_devs s" "hotplug_msgs s' = hotplug_msgs s" "msgs_ready s' = msgs_ready s"
    "alive s' = alive s" "dev_of s' = dev_of s" "next_dev s' = next_dev s" "lib_ub s' = lib_ub s"
    "\<And>d. refs s' d + count_list extra' d = refs s d + count_list extra d"
  shows "lib_inv named extra' s'"
proof -
  have "counted_refs extra' s'"
    by (rule counted_refs_move [of extra s]) (use assms in \<open>simp_all add: lib_inv_def\<close>)
  moreover have "ranked s'" by (rule ranked_kept [of s]) (use assms in \<open>simp_all add: lib_inv_def\<close>)
  ultimately show ?thesis using assms by (simp add: lib_inv_def messages_ok_def names_ok_def)
qed

lemma lib_inv_counted: "lib_inv named extra s \<Longrightarrow> counted_refs extra s"
  by (simp add: lib_inv_def)

lemma lib_inv_perm: "lib_inv named extra s \<Longrightarrow> (\<And>d. count_list extra' d = count_list extra d) \<Longrightarrow> lib_inv named extra' s"
  by (erule lib_inv_move) simp_all

lemma lib_inv_ref: "lib_inv named extra s \<Longrightarrow> d \<in> set (alive s) \<Longrightarrow> lib_inv named (d # extra) (libusb_ref_device d s)"
  using lib_inv_kept [OF _ lists_kept_ref counted_refs_ref] lib_inv_counted by blast

lemma lib_inv_unref: "lib_inv named (d # extra) s \<Longrightarrow> lib_inv named extra (libusb_unref_device (Some d) s)"
  using lib_inv_kept [OF _ lists_kept_unref counted_refs_unref] lib_inv_counted by blast

lemma lib_inv_ref_all:
  "lib_inv named extra s \<Longrightarrow> set ds \<subseteq> set (alive s) \<Longrightarrow> lib_inv named (ds @ extra) (ref_all ds s)"
proof (induction ds arbitrary: extra s)
  case (Cons d ds)
  have "lib_inv named (d # extra) (libusb_ref_device d s)" using Cons.prems by (intro lib_inv_ref) auto
  moreover have "alive (libusb_ref_device d s) = alive s" by (simp add: libusb_ref_device_def upd_device_def)
  ultimately have "lib_inv named (ds @ d # extra) (ref_all ds (libusb_ref_device d s))" using Cons by simp
  then show ?case by (auto elim: lib_inv_perm)
qed simp

lemma lib_inv_unref_all: "lib_inv named (ds @ extra) s \<Longrightarrow> lib_inv named extra (unref_all ds s)"
  by (induction ds arbitrary: s) (auto intro: lib_inv_unref)

lemma ref_all_kept: "lists_kept s (ref_all ds s) \<and> alive (ref_all ds s) = alive s"
proof (induction ds arbitrary: s)
  case (Cons d ds)
  have "alive (libusb_ref_device d s) = alive s" by (simp add: libusb_ref_device_def upd_device_def)
  then show ?case using Cons [of "libusb_ref_device d s"] lists_kept_ref [of s d] by (auto intro: lists_kept_trans)
qed (simp add: lists_kept_refl)

lemma unref_all_kept: "lists_kept s (unref_all ds s)"
  by (induction ds arbitrary: s) (auto simp: lists_kept_refl intro: lists_kept_trans lists_kept_unref)

text \<open>The references of the client.\<close>

lemma lib_inv_user:
  "lib_inv named (ds @ extra) s \<Longrightarrow> lib_inv named extra (s\<lparr>user_refs := ds @ user_refs s\<rparr>)"
  by (erule lib_inv_move) (simp_all add: refs_def)

lemma lib_inv_drop_user:
  assumes "lib_inv named extra s" "d \<in> set (user_refs s)"
  shows "lib_inv named (d # extra) (s\<lparr>user_refs := remove1 d (user_refs s)\<rparr>)"
proof (rule lib_inv_move [OF assms(1)])
  fix e
  show "refs (s\<lparr>user_refs := remove1 d (user_refs s)\<rparr>) e + count_list (d # extra) e = refs s e + count_list extra e"
    using assms(2) count_list_pos [of "user_refs s" d] by (auto simp: refs_def)
qed simp_all

lemma lib_inv_get_device_list:
  assumes "lib_inv named extra s"
  shows "lib_inv named extra (snd (libusb_get_device_list s))"
    "user_refs (snd (libusb_get_device_list s)) = usb_devs s @ user_refs s"
    "fst (libusb_get_device_list s) = usb_devs s"
proof -
  let ?d = "usb_devs s"
  let ?t = "ref_all ?d (ref_all ?d s)"
  have a: "set ?d \<subseteq> set (alive s)" using listed_alive [OF lib_inv_counted [OF assms]] by auto
  then have "lib_inv named (?d @ extra) (ref_all ?d s)" using lib_inv_ref_all [OF assms] by blast
  then have "lib_inv named (?d @ ?d @ extra) ?t"
    using a ref_all_kept [of s ?d] lib_inv_ref_all [of named "?d @ extra" "ref_all ?d s" ?d] by simp
  then have "lib_inv named (?d @ extra) (?t\<lparr>user_refs := ?d @ user_refs ?t\<rparr>)" by (rule lib_inv_user)
  moreover have t: "user_refs ?t = user_refs s"
    using ref_all_kept [of s ?d] ref_all_kept [of "ref_all ?d s" ?d] by (simp add: lists_kept_def)
  ultimately show "lib_inv named extra (snd (libusb_get_device_list s))"
    by (simp add: libusb_get_device_list_def Let_def lib_inv_unref_all)
  show "user_refs (snd (libusb_get_device_list s)) = usb_devs s @ user_refs s" "fst (libusb_get_device_list s) = usb_devs s"
    using unref_all_kept [of "?t\<lparr>user_refs := ?d @ user_refs ?t\<rparr>" ?d] t
    by (simp_all add: libusb_get_device_list_def Let_def lists_kept_def)
qed

text \<open>The client gives up references that it has.\<close>

fun owns :: "nat list \<Rightarrow> nat list \<Rightarrow> bool" where
  "owns held [] \<longleftrightarrow> True"
| "owns held (d # ds) \<longleftrightarrow> d \<in> set held \<and> owns (remove1 d held) ds"

lemma lib_inv_drop_user_refs:
  "lib_inv named extra s \<Longrightarrow> owns (user_refs s) ds \<Longrightarrow> lib_inv named extra (drop_user_refs ds s)"
proof (induction ds arbitrary: s)
  case (Cons d ds)
  let ?s = "libusb_unref_device (Some d) (s\<lparr>user_refs := remove1 d (user_refs s)\<rparr>)"
  have "lib_inv named extra ?s" using Cons.prems by (intro lib_inv_unref lib_inv_drop_user) auto
  moreover have "user_refs ?s = remove1 d (user_refs s)"
    using lists_kept_unref [of "s\<lparr>user_refs := remove1 d (user_refs s)\<rparr>" "Some d"] by (simp add: lists_kept_def)
  ultimately show ?case using Cons by simp
qed simp

end
