(* ===== verification/UsbEnumProps.thy ===== *)
theory UsbEnumProps
  imports UsbDeviceProps
begin

text \<open>
  That the references are right after an enumeration, with the parents that it takes along, and after a device has left: for every
  fuel and every sysfs.
\<close>

section \<open>Growing\<close>

lemma refs_zero:
  "refs s x = 0 \<longleftrightarrow> x \<notin> set (usb_devs s) \<and> x \<notin> snd ` set (open_devs s) \<and> Some (DEVICE_LEFT, x) \<notin> set (hotplug_msgs s) \<and>
     (\<forall>c \<in> set (alive s). dv_parent (dev_of s c) \<noteq> Some x) \<and> x \<notin> set (user_refs s) \<and> x \<notin> set (leaked s)"
  by (auto simp: refs_def count_list_0_iff filter_empty_conv)

text \<open>Devices that were there before keep their parents (but those in \<open>X\<close>), and are not referenced anew when they were not.\<close>

definition grows_but :: "nat set \<Rightarrow> usb_lib \<Rightarrow> usb_lib \<Rightarrow> bool" where
  "grows_but X s s' \<longleftrightarrow> next_dev s \<le> next_dev s' \<and> (\<forall>x < next_dev s. (x \<notin> X \<longrightarrow> dv_parent (dev_of s' x) = dv_parent (dev_of s x)) \<and>
     dv_linux (dev_of s' x) = dv_linux (dev_of s x) \<and> (refs s x = 0 \<longrightarrow> refs s' x = 0))"

lemma grows_refl: "grows_but X s s"
  by (simp add: grows_but_def)

lemma grows_trans: "grows_but X s t \<Longrightarrow> grows_but X t u \<Longrightarrow> grows_but X s u"
  unfolding grows_but_def using order_less_le_trans by force

lemma grows_mono: "grows_but X s t \<Longrightarrow> (\<And>x. x \<in> X \<Longrightarrow> x < next_dev s \<Longrightarrow> x \<in> Y) \<Longrightarrow> grows_but Y s t"
  by (auto simp: grows_but_def)

lemma kept_grows: "lists_kept s s' \<Longrightarrow> grows_but X s s'"
  by (auto simp: lists_kept_def grows_but_def refs_zero)

section \<open>New devices\<close>

lemma lib_inv_upd:
  assumes "lib_inv named extra s" "d \<in> set (alive s)" "\<And>v. dv_parent (f v) = dv_parent v" "\<And>v. dv_refcnt (f v) = dv_refcnt v"
    "d \<notin> set (usb_devs s) \<or> (\<forall>v. dv_linux (f v) = dv_linux v)"
  shows "lib_inv named extra (upd_device d f s)"
proof -
  have "counted_refs extra (upd_device d f s)" using assms(1-4) by (intro counted_refs_upd) (simp_all add: lib_inv_def)
  moreover have "ranked (upd_device d f s)"
    by (rule ranked_kept [of s]) (use assms in \<open>simp_all add: upd_device_alive lib_inv_def\<close>)
  ultimately show ?thesis using assms by (auto simp: lib_inv_def messages_ok_def names_ok_def upd_device_alive)
qed

lemma refs_alloc:
  assumes "lib_inv named extra s" "usbi_alloc_device session s = (d, s')"
  shows "refs s' x = refs s x"
proof -
  have "d \<notin> set (alive s)" using counted_refsD(5) [OF lib_inv_counted [OF assms(1)], of d] assms(2)
    by (auto simp: usbi_alloc_device_def Let_def)
  then have c: "\<forall>c \<in> set (alive s). dv_parent (dev_of s' c) = dv_parent (dev_of s c)"
    and n: "alive s' = d # alive s" "dv_parent (dev_of s' d) = None"
    using assms(2) by (auto simp: usbi_alloc_device_def Let_def)
  have "filter (\<lambda>c. dv_parent (dev_of s' c) = Some x) (alive s') = filter (\<lambda>c. dv_parent (dev_of s c) = Some x) (alive s)"
    using c by (simp add: n cong: filter_cong)
  then show ?thesis using assms(2) by (auto simp: refs_def usbi_alloc_device_def Let_def simp del: filter.simps)
qed

lemma lib_inv_alloc:
  assumes "lib_inv named extra s" "usbi_alloc_device session s = (d, s')"
  shows "lib_inv named (d # extra) s'" "refs s' d = 0" "dv_parent (dev_of s' d) = None" "d \<in> set (alive s')" "d = next_dev s"
    "grows_but {} s s'"
proof -
  note c = counted_refsD [OF lib_inv_counted [OF assms(1)]]
  have d: "d = next_dev s" "alive s' = d # alive s" "next_dev s' = d + 1" "lib_ub s' = lib_ub s" "usb_devs s' = usb_devs s"
      "hotplug_msgs s' = hotplug_msgs s" "msgs_ready s' = msgs_ready s" "dv_refcnt (dev_of s' d) = 1" "dv_parent (dev_of s' d) = None"
      "\<And>x. x \<noteq> d \<Longrightarrow> dev_of s' x = dev_of s x"
    using assms(2) by (auto simp: usbi_alloc_device_def Let_def)
  have new: "d \<notin> set (alive s)" using c(5) [of d] d(1) by auto
  have z: "refs s d = 0" "count_list extra d = 0" using c(3) [of d] new by simp_all
  note r = refs_alloc [OF assms]
  show "refs s' d = 0" "dv_parent (dev_of s' d) = None" "d \<in> set (alive s')" "d = next_dev s" using r z d by simp_all
  have "counted_refs (d # extra) s'"
  proof (rule counted_refsI)
    fix x
    show "x \<in> set (alive s') \<longleftrightarrow> 0 < refs s' x + count_list (d # extra) x" using c(3) [of x] by (auto simp: r d(2))
    show "dv_refcnt (dev_of s' x) = int (refs s' x + count_list (d # extra) x)" if "x \<in> set (alive s')"
      using that c(4) [of x] z d(8) d(10) [of x] unfolding r d(2) by (cases "x = d") auto
    show "x < next_dev s'" if "x \<in> set (alive s')" using that c(5) [of x] d(1-3) by auto
  qed (use c(1,2) new d in auto)
  moreover have "ranked s'"
  proof -
    obtain rank :: "nat \<Rightarrow> nat" where "\<forall>x \<in> set (alive s). \<forall>p. dv_parent (dev_of s x) = Some p \<longrightarrow> rank p < rank x"
      using assms(1) by (auto simp: lib_inv_def ranked_def)
    moreover have "\<forall>x \<in> set (alive s). dev_of s' x = dev_of s x" using d(10) new by metis
    ultimately have "\<forall>x \<in> set (alive s'). \<forall>p. dv_parent (dev_of s' x) = Some p \<longrightarrow> rank p < rank x" by (simp add: d(2,9))
    then show ?thesis unfolding ranked_def by blast
  qed
  moreover have "x \<noteq> d" if "x \<in> set (usb_devs s)" for x
    using that listed_alive [OF lib_inv_counted [OF assms(1)]] new by auto
  ultimately show "lib_inv named (d # extra) s'"
    using assms(1) d by (auto simp: lib_inv_def messages_ok_def names_ok_def)
  show "grows_but {} s s'" using d r by (auto simp: grows_but_def)
qed

lemma initialize_named: "initialize_device env files busnum devaddr (Some path) dev = Some (r, dev') \<Longrightarrow> sysfs_dir dev' = Some path"
  by (auto simp: initialize_device_def cache_active_config_def Let_def split: if_splits option.splits sum.splits)

lemma upd_device_simps:
  "usb_devs (upd_device d f s) = usb_devs s" "alive (upd_device d f s) = alive s" "next_dev (upd_device d f s) = next_dev s"
  "hotplug_msgs (upd_device d f s) = hotplug_msgs s" "msgs_ready (upd_device d f s) = msgs_ready s" "leaked (upd_device d f s) = leaked s"
  "open_devs (upd_device d f s) = open_devs s" "user_refs (upd_device d f s) = user_refs s"
  "d \<in> set (alive s) \<Longrightarrow> dev_of (upd_device d f s) d = f (dev_of s d)" "x \<noteq> d \<Longrightarrow> dev_of (upd_device d f s) x = dev_of s x"
  by (simp_all add: upd_device_def)

lemma upd_dev_of: "dev_of (upd_device d f s) x = (if x = d \<and> d \<in> set (alive s) then f (dev_of s x) else dev_of s x)"
  by (simp add: upd_device_def)

lemma lib_inv_prepare:
  assumes "lib_inv named extra s" "prepare_device env sys busnum devaddr dir s = Some (r, d, s')"
  shows "lib_inv named (d # extra) s'" "refs s' d = 0" "dv_parent (dev_of s' d) = None" "d \<in> set (alive s')" "next_dev s \<le> d"
    "grows_but {} s s'" "dir \<noteq> None \<Longrightarrow> sysfs_dir (dv_linux (dev_of s' d)) \<noteq> None"
proof -
  obtain d1 s1 where a: "usbi_alloc_device (session_of busnum devaddr) s = (d1, s1)" by fastforce
  note n = lib_inv_alloc [OF assms(1) a]
  obtain r1 l where i: "initialize_device env (sys_files sys dir busnum devaddr) busnum devaddr dir (dv_linux (dev_of s1 d1)) = Some (r1, l)"
    using assms(2) a by (auto simp: prepare_device_def Let_def split: option.splits)
  let ?s = "upd_device d1 (\<lambda>v. v\<lparr>dv_linux := l\<rparr>) s1"
  let ?n = "descriptor_field 17 1 (dev_of ?s d1)"
  have u: "d1 \<notin> set (usb_devs s1)" using n(2) by (simp add: refs_zero)
  have s: "lib_inv named (d1 # extra) ?s" using n(1,4) u by (intro lib_inv_upd) simp_all
  then have "lib_inv named (d1 # extra) (upd_device d1 (\<lambda>v. v\<lparr>dv_num_configurations := ?n\<rparr>) ?s)"
    by (rule lib_inv_upd) (use n(4) in \<open>simp_all add: upd_device_simps\<close>)
  moreover have d: "d = d1" "s' = ?s \<or> s' = upd_device d1 (\<lambda>v. v\<lparr>dv_num_configurations := ?n\<rparr>) ?s"
    using assms(2) a i by (auto simp: prepare_device_def usbi_sanitize_device_def Let_def split: if_splits)
  ultimately show "lib_inv named (d # extra) s'" using s by auto
  have r: "refs s' = refs s1" using d(2) by (auto simp: refs_upd_same)
  then show "refs s' d = 0" "dv_parent (dev_of s' d) = None" "d \<in> set (alive s')" "next_dev s \<le> d"
    using d n(2-5) by (auto simp: upd_device_simps)
  have "d1 \<ge> next_dev s" using n(5) by simp
  then show "grows_but {} s s'" using n(6) d(2) r by (auto simp: grows_but_def upd_device_simps)
  show "sysfs_dir (dv_linux (dev_of s' d)) \<noteq> None" if "dir \<noteq> None"
    using that i initialize_named d n(4) by (auto simp: upd_device_simps)
qed

section \<open>Parents\<close>

lemma lib_inv_set_parent:
  assumes "lib_inv named (p # extra) s" "d \<in> set (alive s)" "dv_parent (dev_of s d) = None" "refs s d = 0" "p \<noteq> d"
  shows "lib_inv named extra (upd_device d (\<lambda>v. v\<lparr>dv_parent := Some p\<rparr>) s)" (is "lib_inv named extra ?s")
    "x \<noteq> p \<Longrightarrow> refs (upd_device d (\<lambda>v. v\<lparr>dv_parent := Some p\<rparr>) s) x = refs s x"
proof -
  note c = counted_refsD [OF lib_inv_counted [OF assms(1)]]
  have r: "refs ?s x = refs s x + of_bool (x = p)" for x
  proof -
    have "length (filter (\<lambda>c. dv_parent (dev_of ?s c) = Some x) (removeAll d (alive s))) =
        length (filter (\<lambda>c. dv_parent (dev_of s c) = Some x) (removeAll d (alive s)))"
      by (intro arg_cong [where f = length] filter_cong) (auto simp: upd_device_simps)
    then have "length (filter (\<lambda>c. dv_parent (dev_of ?s c) = Some x) (alive s)) =
        length (filter (\<lambda>c. dv_parent (dev_of s c) = Some x) (alive s)) + of_bool (x = p)"
      using length_filter_removeAll [OF c(2) assms(2)] assms(2,3) by (auto simp: upd_device_simps)
    then show ?thesis by (simp add: refs_def upd_device_simps(1-8))
  qed
  then show "x \<noteq> p \<Longrightarrow> refs ?s x = refs s x" by simp
  have "counted_refs extra ?s"
    by (rule counted_refs_move [OF lib_inv_counted [OF assms(1)]]) (use assms(2) r in \<open>auto simp: upd_device_alive\<close>)
  moreover have "ranked ?s"
  proof -
    obtain rank :: "nat \<Rightarrow> nat" where "\<forall>x \<in> set (alive s). \<forall>q. dv_parent (dev_of s x) = Some q \<longrightarrow> rank q < rank x"
      using assms(1) by (auto simp: lib_inv_def ranked_def)
    then have "\<forall>x \<in> set (alive ?s). \<forall>q. dv_parent (dev_of ?s x) = Some q \<longrightarrow> (rank(d := rank p + 1)) q < (rank(d := rank p + 1)) x"
      using assms(2,4,5) by (auto simp: upd_device_alive refs_zero)
    then show ?thesis unfolding ranked_def by blast
  qed
  ultimately show "lib_inv named extra ?s"
    using assms(1,2) by (auto simp: lib_inv_def messages_ok_def names_ok_def upd_device_alive)
qed

lemma find_parent_listed:
  "\<forall>x \<in> set its. sysfs_dir (dv_linux (dev_of s x)) \<noteq> None \<Longrightarrow>
   \<exists>r. find_parent s name its = Some r \<and> (\<forall>it. r = Some it \<longrightarrow> it \<in> set its)"
  by (induction its) auto

lemma lib_inv_take_parent:
  assumes "lib_inv True extra s" "d \<in> set extra" "refs s d = 0" "dv_parent (dev_of s d) = None"
  shows "lib_inv True extra (take_parent d name s)" "refs (take_parent d name s) d = 0" "grows_but {d} s (take_parent d name s)"
proof -
  have d: "d \<in> set (alive s)" using extra_alive [OF lib_inv_counted [OF assms(1)] assms(2)] .
  obtain r where r: "find_parent s name (usb_devs s) = Some r" "\<And>it. r = Some it \<Longrightarrow> it \<in> set (usb_devs s)"
    using find_parent_listed [of "usb_devs s" s name] assms(1) by (auto simp: lib_inv_def names_ok_def)
  have "lib_inv True extra (take_parent d name s) \<and> refs (take_parent d name s) d = 0 \<and> grows_but {d} s (take_parent d name s)"
  proof (cases r)
    case None
    then show ?thesis using r assms by (simp add: take_parent_def grows_refl)
  next
    case (Some it)
    let ?s = "libusb_ref_device it s"
    have it: "it \<in> set (alive s)" "it \<noteq> d" "refs s it \<noteq> 0"
      using r(2) [OF Some] listed_alive [OF lib_inv_counted [OF assms(1)]] assms(3) by (auto simp: refs_zero)
    have k: "lists_kept s ?s" by (rule lists_kept_ref)
    have rs: "refs ?s = refs s" unfolding libusb_ref_device_def by (rule refs_upd_same) simp
    have ref: "lib_inv True (it # extra) ?s" using assms(1) it(1) by (rule lib_inv_ref)
    have p: "d \<in> set (alive ?s)" "dv_parent (dev_of ?s d) = None" "refs ?s d = 0" "next_dev ?s = next_dev s"
      using d assms(3,4) k rs by (simp_all add: lists_kept_def libusb_ref_device_def upd_device_def)
    note q = lib_inv_set_parent [OF ref p(1-3) it(2)]
    have "refs (upd_device d (\<lambda>v. v\<lparr>dv_parent := Some it\<rparr>) ?s) x = 0" if "refs ?s x = 0" for x
      using that q(2) [of x] it(3) rs by (cases "x = it") auto
    then have "grows_but {d} ?s (upd_device d (\<lambda>v. v\<lparr>dv_parent := Some it\<rparr>) ?s)"
      by (auto simp: grows_but_def upd_device_simps upd_dev_of)
    then show ?thesis using r Some q it p(3) kept_grows [OF k, of "{d}"]
      by (auto simp: take_parent_def intro: grows_trans)
  qed
  then show "lib_inv True extra (take_parent d name s)" "refs (take_parent d name s) d = 0" "grows_but {d} s (take_parent d name s)"
    by blast+
qed

section \<open>Arrivals\<close>

lemma connect_simps:
  "dev_of (usbi_connect_device d s) x = dev_of (upd_device d (\<lambda>v. v\<lparr>dv_attached := True\<rparr>) s) x"
  "alive (usbi_connect_device d s) = alive s" "next_dev (usbi_connect_device d s) = next_dev s"
  "usb_devs (usbi_connect_device d s) = d # usb_devs s" "msgs_ready (usbi_connect_device d s) = msgs_ready s"
  "hotplug_msgs (usbi_connect_device d s) = hotplug_msgs s @ (if msgs_ready s then [Some (DEVICE_ARRIVED, d)] else [])"
  by (simp_all add: usbi_connect_device_def usbi_hotplug_notification_def Let_def upd_device_def)

lemma connect_ub: "d \<in> set (alive s) \<Longrightarrow> lib_ub (usbi_connect_device d s) = lib_ub s"
  by (simp add: usbi_connect_device_def usbi_hotplug_notification_def Let_def upd_device_def)

lemma refs_connect: "refs (usbi_connect_device d s) x = refs s x + of_bool (x = d)"
proof -
  let ?s = "upd_device d (\<lambda>v. v\<lparr>dv_attached := True\<rparr>) s"
  have "refs ?s = refs s" by (rule refs_upd_same) simp
  moreover have "refs (usbi_connect_device d s) x = refs ?s x + of_bool (x = d)"
    by (simp add: refs_def usbi_connect_device_def usbi_hotplug_notification_def Let_def upd_device_def count_list_append)
  ultimately show ?thesis by simp
qed

lemma lib_inv_connect:
  assumes "lib_inv named (d # extra) s" "named \<Longrightarrow> sysfs_dir (dv_linux (dev_of s d)) \<noteq> None"
  shows "lib_inv named extra (usbi_connect_device d s)"
proof -
  let ?s = "usbi_connect_device d s"
  note c = lib_inv_counted [OF assms(1)]
  have d: "d \<in> set (alive s)" by (rule extra_alive [OF c]) simp
  have "counted_refs extra ?s"
    by (rule counted_refs_move [OF c])
      (use d in \<open>auto simp: connect_simps upd_dev_of refs_connect connect_ub\<close>)
  moreover have "ranked ?s"
    by (rule ranked_kept [of s]) (use assms(1) in \<open>simp_all add: connect_simps upd_dev_of lib_inv_def\<close>)
  moreover have "messages_ok ?s"
    using assms(1) by (auto simp: connect_simps messages_ok_def lib_inv_def intro!: arrivals_ok_append intro: arrivals_ok_mono)
  moreover have "names_ok named ?s" using assms by (auto simp: connect_simps upd_dev_of names_ok_def lib_inv_def)
  ultimately show ?thesis by (simp add: lib_inv_def)
qed

lemma grows_connect: "grows_but X s t \<Longrightarrow> next_dev s \<le> d \<Longrightarrow> grows_but X s (usbi_connect_device d t)"
  by (auto simp: grows_but_def connect_simps refs_connect upd_dev_of)

text \<open>The three functions of the enumeration, by induction on the fuel.\<close>

definition enum_kept :: "linux_env \<Rightarrow> sysfs \<Rightarrow> bool \<Rightarrow> nat \<Rightarrow> bool" where
  "enum_kept env sys named n \<longleftrightarrow> (\<forall>busnum devaddr dir s extra r s'. (dir \<noteq> None) = named \<longrightarrow> lib_inv named extra s \<longrightarrow>
     linux_enumerate_device env sys n busnum devaddr dir s = Some (r, s') \<longrightarrow> lib_inv named extra s' \<and> grows_but {} s s')"

definition scan_kept :: "linux_env \<Rightarrow> sysfs \<Rightarrow> nat \<Rightarrow> bool" where
  "scan_kept env sys n \<longleftrightarrow> (\<forall>name s extra r s'. lib_inv True extra s \<longrightarrow>
     sysfs_scan_device env sys n name s = Some (r, s') \<longrightarrow> lib_inv True extra s' \<and> grows_but {} s s')"

definition parent_kept :: "linux_env \<Rightarrow> sysfs \<Rightarrow> bool \<Rightarrow> nat \<Rightarrow> bool" where
  "parent_kept env sys named n \<longleftrightarrow> (\<forall>d dir s extra r s'. (dir \<noteq> None) = named \<longrightarrow> lib_inv named extra s \<longrightarrow> d \<in> set extra \<longrightarrow>
     refs s d = 0 \<longrightarrow> dv_parent (dev_of s d) = None \<longrightarrow> linux_get_parent_info env sys n d dir s = Some (r, s') \<longrightarrow>
     lib_inv named extra s' \<and> refs s' d = 0 \<and> grows_but {d} s s')"

lemma session_found:
  assumes "lib_inv named extra s" "usbi_get_device_by_session_id i s = (dev, s')"
  shows "case dev of None \<Rightarrow> s' = s
    | Some d \<Rightarrow> d \<in> set (usb_devs s) \<and> s' = libusb_ref_device d s \<and> lib_inv named (d # extra) s'"
proof (cases "find (\<lambda>d. dv_session (dev_of s d) = i) (usb_devs s)")
  case (Some d)
  then have d: "d \<in> set (usb_devs s)" by (auto simp: find_Some_iff)
  then have "d \<in> set (alive s)" by (rule listed_alive [OF lib_inv_counted [OF assms(1)]])
  then have r: "lib_inv named (d # extra) (libusb_ref_device d s)" by (rule lib_inv_ref [OF assms(1)])
  have "dev = Some d" "s' = libusb_ref_device d s" using assms(2) Some by (simp_all add: usbi_get_device_by_session_id_def)
  then show ?thesis using d r by simp
qed (use assms in \<open>simp add: usbi_get_device_by_session_id_def\<close>)

lemma enum_step:
  assumes "parent_kept env sys named n"
  shows "enum_kept env sys named (Suc n)"
  unfolding enum_kept_def
proof (intro allI impI)
  fix busnum devaddr dir s extra r s'
  assume named: "(dir \<noteq> None) = named" and inv: "lib_inv named extra s"
    and e: "linux_enumerate_device env sys (Suc n) busnum devaddr dir s = Some (r, s')"
  obtain dev t where f: "usbi_get_device_by_session_id (session_of busnum devaddr) s = (dev, t)" by fastforce
  note found = session_found [OF inv f]
  show "lib_inv named extra s' \<and> grows_but {} s s'"
  proof (cases dev)
    case (Some d)
    then have "s' = libusb_unref_device (Some d) (libusb_ref_device d s)" "lib_inv named (d # extra) (libusb_ref_device d s)"
      using e f found by auto
    then show ?thesis
      using lib_inv_unref kept_grows [OF lists_kept_trans [OF lists_kept_ref lists_kept_unref]] by metis
  next
    case None
    then obtain r1 d s1 where p: "prepare_device env sys busnum devaddr dir s = Some (r1, d, s1)"
      using e f found by (auto split: option.splits)
    note q = lib_inv_prepare [OF inv p]
    have d: "d \<in> set (d # extra)" by simp
    have unref: "lib_inv named extra (libusb_unref_device (Some d) u) \<and> grows_but {} s (libusb_unref_device (Some d) u)"
      if "lib_inv named (d # extra) u" "grows_but {} s u" for u
      using that lib_inv_unref grows_trans kept_grows [OF lists_kept_unref] by metis
    show ?thesis
    proof (cases "r1 < 0")
      case True
      then show ?thesis using e f found None p unref [OF q(1,6)] by auto
    next
      case False
      then obtain r2 s2 where g: "linux_get_parent_info env sys n d dir s1 = Some (r2, s2)"
        using e f found None p by (auto split: option.splits)
      have k: "lib_inv named (d # extra) s2" "grows_but {d} s1 s2"
        using assms named q(1-3) d g unfolding parent_kept_def by blast+
      have "grows_but {d} s s1" by (rule grows_mono [OF q(6)]) simp
      then have "grows_but {d} s s2" using k(2) by (rule grows_trans)
      then have gr: "grows_but {} s s2" by (rule grows_mono) (use q(5) in auto)
      have "d < next_dev s1" using counted_refsD(5) [OF lib_inv_counted [OF q(1)] q(4)] .
      then have "named \<Longrightarrow> sysfs_dir (dv_linux (dev_of s2 d)) \<noteq> None" using k(2) q(7) named by (auto simp: grows_but_def)
      then have "lib_inv named extra (usbi_connect_device d s2)" by (rule lib_inv_connect [OF k(1)])
      then show ?thesis using e f found None p False g unref [OF k(1) gr] grows_connect [OF gr q(5)] by (auto split: if_splits)
    qed
  qed
qed

lemma scan_step: "enum_kept env sys True n \<Longrightarrow> scan_kept env sys (Suc n)"
  unfolding enum_kept_def scan_kept_def by (simp split: sum.splits prod.splits) (metis grows_refl option.distinct(1))

lemma grows_upd: "(\<And>v. dv_parent (f v) = dv_parent v) \<Longrightarrow> (\<And>v. dv_linux (f v) = dv_linux v) \<Longrightarrow> grows_but X s (upd_device d f s)"
  by (simp add: grows_but_def upd_dev_of upd_device_simps refs_upd_same)

lemma parent_step:
  assumes "scan_kept env sys n"
  shows "parent_kept env sys named (Suc n)"
  unfolding parent_kept_def
proof (intro allI impI)
  fix d dir s extra r s'
  assume named: "(dir \<noteq> None) = named" and inv: "lib_inv named extra s" and d: "d \<in> set extra" "refs s d = 0"
    "dv_parent (dev_of s d) = None" and e: "linux_get_parent_info env sys (Suc n) d dir s = Some (r, s')"
  show "lib_inv named extra s' \<and> refs s' d = 0 \<and> grows_but {d} s s'"
  proof (cases "\<exists>path name port. dir = Some path \<and> parent_of_path path = Some (name, port)")
    case False
    then have "s' = s" using e by (auto split: option.splits)
    then show ?thesis using inv d by (simp add: grows_refl)
  next
    case True
    then obtain path name port where p: "dir = Some path" "parent_of_path path = Some (name, port)" by blast
    let ?s = "upd_device d (\<lambda>v. v\<lparr>dv_port := port\<rparr>) s"
    let ?t = "take_parent d name ?s"
    have n: "named = True" using named p by simp
    have alive: "d \<in> set (alive s)" by (rule extra_alive [OF lib_inv_counted [OF inv] d(1)])
    have i: "lib_inv True extra ?s" using inv alive unfolding n by (rule lib_inv_upd) simp_all
    have d': "refs ?s d = 0" "dv_parent (dev_of ?s d) = None" using d by (simp_all add: refs_upd_same upd_dev_of)
    note t = lib_inv_take_parent [OF i d(1) d', of name]
    have g: "grows_but {d} s ?t" by (rule grows_trans [OF grows_upd t(3)]) simp_all
    show ?thesis
    proof (cases "dv_parent (dev_of ?t d) = None")
      case False
      then show ?thesis using e p t g n by (auto simp: Let_def)
    next
      case True
      then obtain r1 u where u: "sysfs_scan_device env sys n name ?t = Some (r1, u)" "s' = take_parent d name u"
        using e p by (auto simp: Let_def split: option.splits)
      have k: "lib_inv True extra u" "grows_but {} ?t u" using assms t(1) u(1) unfolding scan_kept_def by blast+
      have "d < next_dev ?t" using counted_refsD(5) [OF lib_inv_counted [OF t(1)] extra_alive [OF lib_inv_counted [OF t(1)] d(1)]] .
      then have z: "refs u d = 0" "dv_parent (dev_of u d) = None" using k(2) t(2) True by (simp_all add: grows_but_def)
      have "grows_but {d} s u" by (rule grows_trans [OF g grows_mono [OF k(2)]]) simp
      then show ?thesis using lib_inv_take_parent [OF k(1) d(1) z, of name] u(2) n grows_trans by blast
    qed
  qed
qed

lemma enumeration_kept: "enum_kept env sys named n \<and> scan_kept env sys n \<and> parent_kept env sys named n"
proof (induction n arbitrary: named)
  case 0
  show ?case by (simp add: enum_kept_def scan_kept_def parent_kept_def)
next
  case (Suc n)
  show ?case using enum_step scan_step parent_step Suc.IH by blast
qed

lemma lib_inv_enumerate:
  "lib_inv named extra s \<Longrightarrow> (dir \<noteq> None) = named \<Longrightarrow> linux_enumerate_device env sys n busnum devaddr dir s = Some (r, s') \<Longrightarrow>
   lib_inv named extra s'"
  using enumeration_kept [of env sys named n] unfolding enum_kept_def by blast

section \<open>Departures\<close>

lemma disconnect_simps:
  "dev_of (usbi_disconnect_device d s) x = dev_of (upd_device d (\<lambda>v. v\<lparr>dv_attached := False\<rparr>) s) x"
  "alive (usbi_disconnect_device d s) = alive s" "next_dev (usbi_disconnect_device d s) = next_dev s"
  "usb_devs (usbi_disconnect_device d s) = remove1 d (usb_devs s)" "msgs_ready (usbi_disconnect_device d s) = msgs_ready s"
  "hotplug_msgs (usbi_disconnect_device d s) = hotplug_msgs s @ (if msgs_ready s then [Some (DEVICE_LEFT, d)] else [])"
  "open_devs (usbi_disconnect_device d s) = open_devs s" "user_refs (usbi_disconnect_device d s) = user_refs s"
  "leaked (usbi_disconnect_device d s) = (if msgs_ready s then leaked s else d # leaked s)"
  "d \<in> set (alive s) \<Longrightarrow> lib_ub (usbi_disconnect_device d s) = lib_ub s"
  by (simp_all add: usbi_disconnect_device_def usbi_hotplug_notification_def Let_def upd_device_def)

lemma refs_disconnect:
  assumes "d \<in> set (usb_devs s)"
  shows "refs (usbi_disconnect_device d s) x = refs s x"
proof -
  have "dv_parent (dev_of (usbi_disconnect_device d s) c) = dv_parent (dev_of s c)" for c
    by (simp add: disconnect_simps upd_dev_of)
  then show ?thesis using assms count_list_pos [of "usb_devs s" d]
    by (auto simp: refs_def disconnect_simps count_list_append)
qed

lemma wakeups_ok: "set ms \<subseteq> {None} \<Longrightarrow> arrivals_ok A ms"
  by (induction ms) auto

lemma lib_inv_disconnect:
  assumes "lib_inv named extra s" "d \<in> set (usb_devs s)"
  shows "lib_inv named extra (usbi_disconnect_device d s)"
proof -
  let ?s = "usbi_disconnect_device d s"
  note c = lib_inv_counted [OF assms(1)]
  have d: "d \<in> set (alive s)" using c assms(2) by (rule listed_alive)
  have "counted_refs extra ?s"
    by (rule counted_refs_move [OF c]) (use d assms(2) in \<open>auto simp: disconnect_simps upd_dev_of refs_disconnect\<close>)
  moreover have "ranked ?s"
    by (rule ranked_kept [of s]) (use assms(1) in \<open>simp_all add: disconnect_simps upd_dev_of lib_inv_def\<close>)
  moreover have "messages_ok ?s"
  proof (cases "msgs_ready s")
    case True
    have "arrivals_ok (set (usb_devs s) - {d}) (hotplug_msgs s @ [Some (DEVICE_LEFT, d)])"
      using assms(1) by (intro arrivals_ok_left) (simp add: lib_inv_def messages_ok_def)
    then have "arrivals_ok (set (remove1 d (usb_devs s))) (hotplug_msgs s @ [Some (DEVICE_LEFT, d)])"
      by (rule arrivals_ok_mono) (use in_set_remove1 in fastforce)
    then show ?thesis using True by (simp add: messages_ok_def disconnect_simps)
  next
    case False
    then have "set (hotplug_msgs s) \<subseteq> {None}" using assms(1) by (simp add: lib_inv_def messages_ok_def)
    then have "arrivals_ok A (hotplug_msgs s)" for A by (rule wakeups_ok)
    then show ?thesis using False assms(1) by (simp add: messages_ok_def disconnect_simps lib_inv_def)
  qed
  moreover have "names_ok named ?s"
    using assms(1) set_remove1_subset [of d "usb_devs s"] by (auto simp: disconnect_simps upd_dev_of names_ok_def lib_inv_def)
  ultimately show ?thesis by (simp add: lib_inv_def)
qed

end
