(* ===== verification/UsbDeviceRuns.thy ===== *)
theory UsbDeviceRuns
  imports UsbEnumProps
begin

text \<open>
  Histories of a context: devices come and go, messages are handled, and the client opens and closes devices, keeps and returns
  references, and registers callbacks. The references are right after every history, and the end of a context frees all devices.
\<close>

section \<open>Messages\<close>

lemma refs_pop: "hotplug_msgs s = msg # msgs \<Longrightarrow> refs s d = refs (s\<lparr>hotplug_msgs := msgs\<rparr>) d + of_bool (msg = Some (DEVICE_LEFT, d))"
  by (simp add: refs_def)

lemma lib_inv_pop:
  assumes "lib_inv named extra s" "hotplug_msgs s = msg # msgs"
  shows "lib_inv named ((case msg of Some (DEVICE_LEFT, d) \<Rightarrow> [d] | _ \<Rightarrow> []) @ extra) (s\<lparr>hotplug_msgs := msgs\<rparr>)"
proof -
  let ?s = "s\<lparr>hotplug_msgs := msgs\<rparr>" and ?x = "(case msg of Some (DEVICE_LEFT, d) \<Rightarrow> [d] | _ \<Rightarrow> []) @ extra"
  have "refs ?s d + count_list ?x d = refs s d + count_list extra d" for d
    using refs_pop [OF assms(2), of d] by (auto split: option.splits prod.splits hotplug_event.splits)
  then have "counted_refs ?x ?s"
    by (intro counted_refs_move [OF lib_inv_counted [OF assms(1)]]) simp_all
  moreover have "ranked ?s" by (rule ranked_kept [of s]) (use assms(1) in \<open>simp_all add: lib_inv_def\<close>)
  ultimately show ?thesis using assms by (simp add: lib_inv_def messages_ok_def names_ok_def)
qed

lemma message_alive:
  assumes "lib_inv named extra s" "hotplug_msgs s = Some (event, d) # msgs"
  shows "d \<in> set (alive s)"
proof -
  note c = lib_inv_counted [OF assms(1)]
  have "d \<in> set (usb_devs s) \<or> Some (DEVICE_LEFT, d) \<in> set (hotplug_msgs s)"
    using assms by (cases event) (auto simp: lib_inv_def messages_ok_def)
  then show ?thesis using listed_alive [OF c] referenced_alive [OF c, of d] by (auto simp: refs_def count_list_pos)
qed

text \<open>Callbacks are called and dropped; nothing else changes.\<close>

lemma match_cb_only:
  "(\<And>event d. msg = Some (event, d) \<Longrightarrow> d \<in> set (alive s)) \<Longrightarrow>
   \<exists>calls. snd (usbi_hotplug_match_cb answers msg cb s) = s\<lparr>cb_calls := calls\<rparr>"
  by (cases s) (auto simp: usbi_hotplug_match_cb_def split: option.splits)

lemma match_loop_only:
  "(\<And>event d. msg = Some (event, d) \<Longrightarrow> d \<in> set (alive s)) \<Longrightarrow>
   \<exists>calls. snd (match_loop answers msg cbs s) = s\<lparr>cb_calls := calls\<rparr>"
proof (induction cbs arbitrary: s)
  case Nil
  show ?case by (cases s) auto
next
  case (Cons cb cbs)
  obtain calls where c: "snd (usbi_hotplug_match_cb answers msg cb s) = s\<lparr>cb_calls := calls\<rparr>"
    using match_cb_only Cons.prems by blast
  obtain calls' where "snd (match_loop answers msg cbs (s\<lparr>cb_calls := calls\<rparr>)) = s\<lparr>cb_calls := calls'\<rparr>"
    using Cons.IH [of "s\<lparr>cb_calls := calls\<rparr>"] Cons.prems by auto
  then show ?case using c by (auto split: prod.splits)
qed

lemma hotplug_match_only:
  "(\<And>event d. msg = Some (event, d) \<Longrightarrow> d \<in> set (alive s)) \<Longrightarrow>
   \<exists>calls cbs. usbi_hotplug_match answers msg s = s\<lparr>cb_calls := calls, hotplug_cbs := cbs\<rparr>"
proof -
  assume "\<And>event d. msg = Some (event, d) \<Longrightarrow> d \<in> set (alive s)"
  then obtain calls where "snd (match_loop answers msg (hotplug_cbs s) s) = s\<lparr>cb_calls := calls\<rparr>"
    using match_loop_only by blast
  then have "usbi_hotplug_match answers msg s =
      s\<lparr>cb_calls := calls, hotplug_cbs := fst (match_loop answers msg (hotplug_cbs s) s)\<rparr>"
    by (auto simp: usbi_hotplug_match_def split: prod.splits)
  then show ?thesis by blast
qed

lemma lib_inv_cbs: 
  "lib_inv named extra s \<Longrightarrow> lib_inv named extra (s\<lparr>cb_calls := calls, hotplug_cbs := cbs\<rparr>)"
  by (erule lib_inv_move) (simp_all add: refs_def)

lemma lib_inv_calls: "lib_inv named extra s \<Longrightarrow> lib_inv named extra (s\<lparr>cb_calls := calls\<rparr>)"
  by (erule lib_inv_move) (simp_all add: refs_def)

text \<open>What the handling of a message leaves: all but the message and the devices that go with it.\<close>

lemma process_message_kept:
  assumes "lib_inv named extra s"
  shows "lib_inv named extra (process_message answers s)"
    "hotplug_msgs (process_message answers s) = tl (hotplug_msgs s)"
    "usb_devs (process_message answers s) = usb_devs s" "open_devs (process_message answers s) = open_devs s"
    "user_refs (process_message answers s) = user_refs s" "leaked (process_message answers s) = leaked s"
proof -
  let ?p = "process_message answers s"
  have "lib_inv named extra ?p \<and> hotplug_msgs ?p = tl (hotplug_msgs s) \<and> usb_devs ?p = usb_devs s \<and> open_devs ?p = open_devs s \<and>
     user_refs ?p = user_refs s \<and> leaked ?p = leaked s"
  proof (cases "hotplug_msgs s")
    case Nil
    then show ?thesis using assms by (simp add: process_message_def)
  next
    case (Cons msg msgs)
    let ?s = "s\<lparr>hotplug_msgs := msgs\<rparr>"
    note pop = lib_inv_pop [OF assms Cons]
    obtain calls cbs where m: "usbi_hotplug_match answers msg ?s = ?s\<lparr>cb_calls := calls, hotplug_cbs := cbs\<rparr>" (is "_ = ?m")
      using hotplug_match_only [of msg ?s answers] message_alive [OF assms] Cons by auto
    note inv = lib_inv_cbs [OF pop, where calls = calls and cbs = cbs]
    show ?thesis
    proof (cases "\<exists>d. msg = Some (DEVICE_LEFT, d)")
      case True
      then obtain d where d: "msg = Some (DEVICE_LEFT, d)" by blast
      have "?p = libusb_unref_device (Some d) ?m" using Cons m d by (simp add: process_message_def Let_def)
      then show ?thesis using lib_inv_unref [of named d extra ?m] inv d lists_kept_unref [of ?m "Some d"] Cons
        by (simp add: lists_kept_def)
    next
      case False
      then have "?p = ?m" using Cons m by (auto simp: process_message_def Let_def split: option.splits hotplug_event.splits)
      then show ?thesis using inv False Cons by (auto split: option.splits hotplug_event.splits)
    qed
  qed
  then show "lib_inv named extra ?p" "hotplug_msgs ?p = tl (hotplug_msgs s)" "usb_devs ?p = usb_devs s"
    "open_devs ?p = open_devs s" "user_refs ?p = user_refs s" "leaked ?p = leaked s" by blast+
qed

lemma process_messages_kept:
  "lib_inv named extra s \<Longrightarrow> lib_inv named extra (process_messages answers n s) \<and>
    hotplug_msgs (process_messages answers n s) = drop n (hotplug_msgs s) \<and>
    usb_devs (process_messages answers n s) = usb_devs s \<and> open_devs (process_messages answers n s) = open_devs s \<and>
    user_refs (process_messages answers n s) = user_refs s \<and> leaked (process_messages answers n s) = leaked s"
proof (induction n arbitrary: s)
  case (Suc n)
  note k = process_message_kept [OF Suc.prems, of answers]
  then show ?case using Suc.IH [OF k(1)] by (simp add: drop_Suc)
qed simp

section \<open>Operations of the client\<close>

lemma lib_inv_disconnected:
  assumes "lib_inv named extra s"
  shows "lib_inv named extra (linux_device_disconnected busnum devaddr s)"
proof -
  obtain dev t where f: "usbi_get_device_by_session_id (session_of busnum devaddr) s = (dev, t)" by fastforce
  note found = session_found [OF assms f]
  show ?thesis
  proof (cases dev)
    case None
    then show ?thesis using found f assms by (simp add: linux_device_disconnected_def)
  next
    case (Some d)
    then have "lib_inv named (d # extra) t" "d \<in> set (usb_devs t)"
      using found lists_kept_ref [of s d] by (auto simp: lists_kept_def)
    then have "lib_inv named (d # extra) (usbi_disconnect_device d t)" by (rule lib_inv_disconnect)
    then show ?thesis using Some f by (simp add: linux_device_disconnected_def lib_inv_unref)
  qed
qed

lemma lib_inv_open2:
  assumes "lib_inv named extra s" "d \<in> set (alive s)"
  shows "lib_inv named extra (snd (libusb_open2 fd handle d s))"
proof -
  let ?s = "libusb_ref_device d s"
  have i: "lib_inv named (d # extra) ?s" using assms by (rule lib_inv_ref)
  have o: "lib_inv named (d # extra) (snd (op_open2 fd d ?s))" using i by (simp add: op_open2_def lib_inv_disconnected)
  have e: "0 \<le> fst (op_open2 fd d ?s) \<Longrightarrow> snd (op_open2 fd d ?s) = ?s" by (simp add: op_open2_def split: if_splits)
  have "lib_inv named extra (?s\<lparr>open_devs := (handle, d) # open_devs ?s\<rparr>)"
    by (rule lib_inv_move [OF i]) (simp_all add: refs_def)
  then show ?thesis using assms o e lib_inv_unref [OF o]
    by (auto simp: libusb_open2_def Let_def split: prod.splits)
qed

lemma count_list_map_remove1:
  "x \<in> set l \<Longrightarrow> count_list (map f l) y = count_list (map f (remove1 x l)) y + of_bool (f x = y)"
  by (induction l) auto

lemma lib_inv_close:
  assumes "lib_inv named extra s" "map_of (open_devs s) handle = Some d"
  shows "lib_inv named extra (libusb_close handle s)"
proof -
  have "(handle, d) \<in> set (open_devs s)" using assms(2) by (rule map_of_SomeD)
  from count_list_map_remove1 [OF this, of snd]
  have "lib_inv named (d # extra) (s\<lparr>open_devs := remove1 (handle, d) (open_devs s)\<rparr>)"
    by (intro lib_inv_move [OF assms(1)]) (simp_all add: refs_def)
  then show ?thesis using assms(2) by (simp add: libusb_close_def lib_inv_unref)
qed

lemma open2_user_refs:
  assumes "lib_inv named extra s"
  shows "user_refs (snd (libusb_open2 fd handle d s)) = user_refs s"
proof -
  have u: "user_refs (libusb_unref_device dev t) = user_refs t" for dev t using lists_kept_unref [of t dev] by (simp add: lists_kept_def)
  have r: "user_refs (libusb_ref_device x t) = user_refs t" for x t using lists_kept_ref [of t x] by (simp add: lists_kept_def)
  have "user_refs (linux_device_disconnected a b t) = user_refs t" for a b t
    by (auto simp: linux_device_disconnected_def usbi_get_device_by_session_id_def disconnect_simps u r split: option.splits)
  then show ?thesis by (auto simp: libusb_open2_def op_open2_def Let_def u r)
qed

lemma owns_append: "owns (ds @ held) ds"
  by (induction ds) auto

lemma lib_inv_free_list:
  "lib_inv named extra s \<Longrightarrow> (unref_devices \<Longrightarrow> owns (user_refs s) ds) \<Longrightarrow> lib_inv named extra (libusb_free_device_list ds unref_devices s)"
  by (simp add: libusb_free_device_list_def lib_inv_drop_user_refs)

lemma lib_inv_open_vid_pid:
  assumes "lib_inv named extra s"
  shows "lib_inv named extra (snd (libusb_open_device_with_vid_pid fd handle vendor_id product_id s))"
proof -
  obtain devs t where l: "libusb_get_device_list s = (devs, t)" by fastforce
  have t: "lib_inv named extra t" "user_refs t = usb_devs s @ user_refs s" "devs = usb_devs s"
    using lib_inv_get_device_list [OF assms] l by simp_all
  let ?P = "\<lambda>d. descriptor_field 8 2 (dev_of t d) = vendor_id \<and> descriptor_field 10 2 (dev_of t d) = product_id"
  have o: "owns (usb_devs s @ user_refs s) (usb_devs s)" by (rule owns_append)
  show ?thesis
  proof (cases "find ?P devs")
    case None
    then show ?thesis using t l o by (simp add: libusb_open_device_with_vid_pid_def lib_inv_free_list)
  next
    case (Some d)
    then have "d \<in> set (user_refs t)" using t(2,3) by (auto simp: find_Some_iff)
    then have "d \<in> set (alive t)" using referenced_alive [OF lib_inv_counted [OF t(1)], of d] by (simp add: refs_def count_list_pos)
    then have "lib_inv named extra (snd (libusb_open2 fd handle d t))" by (rule lib_inv_open2 [OF t(1)])
    moreover have "owns (user_refs (snd (libusb_open2 fd handle d t))) devs" using t o by (simp add: open2_user_refs [OF t(1)])
    ultimately show ?thesis using l Some
      by (auto simp: libusb_open_device_with_vid_pid_def Let_def lib_inv_free_list split: prod.splits)
  qed
qed

lemma match_devices_only:
  "set ds \<subseteq> set (alive s) \<Longrightarrow> \<exists>calls. match_devices answers cb ds s = s\<lparr>cb_calls := calls\<rparr>"
proof (induction ds arbitrary: s)
  case Nil
  show ?case by (cases s) auto
next
  case (Cons d ds)
  obtain calls where c: "snd (usbi_hotplug_match_cb answers (Some (DEVICE_ARRIVED, d)) cb s) = s\<lparr>cb_calls := calls\<rparr>"
    using match_cb_only [of "Some (DEVICE_ARRIVED, d)" s answers cb] Cons.prems by auto
  obtain calls' where "match_devices answers cb ds (s\<lparr>cb_calls := calls\<rparr>) = s\<lparr>cb_calls := calls'\<rparr>"
    using Cons.IH [of "s\<lparr>cb_calls := calls\<rparr>"] Cons.prems by auto
  then show ?case using c by auto
qed

lemma lib_inv_register:
  assumes "lib_inv named extra s"
  shows "lib_inv named extra (snd (libusb_hotplug_register_callback answers evs enum_flag vendor_id product_id dev_class s))"
proof -
  let ?cb = "\<lparr>hc_handle = next_handle s, hc_events = evs, hc_vendor_id = vendor_id, hc_product_id = product_id,
              hc_dev_class = dev_class, hc_needs_free = False\<rparr>"
  let ?s = "s\<lparr>next_handle := next_handle s + 1, hotplug_cbs := ?cb # hotplug_cbs s\<rparr>"
  have i: "lib_inv named extra ?s" by (rule lib_inv_move [OF assms]) (simp_all add: refs_def)
  obtain devs t where l: "libusb_get_device_list ?s = (devs, t)" by fastforce
  have t: "lib_inv named extra t" "user_refs t = usb_devs s @ user_refs s" "devs = usb_devs s"
    using lib_inv_get_device_list [OF i] l by simp_all
  have "d \<in> set (alive t)" if "d \<in> set devs" for d
    using that t(2,3) referenced_alive [OF lib_inv_counted [OF t(1)], of d] by (simp add: refs_def count_list_pos)
  then obtain calls where c: "match_devices answers ?cb devs t = t\<lparr>cb_calls := calls\<rparr>"
    using match_devices_only [of devs t answers ?cb] by blast
  have "lib_inv named extra (libusb_free_device_list devs True (t\<lparr>cb_calls := calls\<rparr>))"
    using t owns_append [of "usb_devs s" "user_refs s"] by (intro lib_inv_free_list lib_inv_calls) simp_all
  then show ?thesis using assms i l c by (auto simp: libusb_hotplug_register_callback_def Let_def)
qed

lemma lib_inv_deregister:
  assumes "lib_inv named extra s"
  shows "lib_inv named extra (libusb_hotplug_deregister_callback handle s)"
proof -
  let ?s = "libusb_hotplug_deregister_callback handle s"
  have "counted_refs extra ?s"
    by (rule counted_refs_move [OF lib_inv_counted [OF assms]])
      (simp_all add: libusb_hotplug_deregister_callback_def usbi_hotplug_notification_def refs_def count_list_append)
  moreover have "ranked ?s"
    by (rule ranked_kept [of s])
      (use assms in \<open>simp_all add: libusb_hotplug_deregister_callback_def usbi_hotplug_notification_def lib_inv_def\<close>)
  ultimately show ?thesis using assms
    by (auto simp: lib_inv_def messages_ok_def names_ok_def libusb_hotplug_deregister_callback_def usbi_hotplug_notification_def
        intro: arrivals_ok_append)
qed

section \<open>Histories\<close>

text \<open>What may happen to a context. The event handling has begun with \<open>Messages_ready\<close>, at the end of \<open>libusb_init\<close>.\<close>

datatype lib_op =
    Device_arrives linux_env sysfs nat u8 u8 "string option"
  | Device_leaves u8 u8
  | Messages_ready
  | Handle_message
  | Get_list
  | Free_list "nat list" bool
  | Ref_device nat
  | Unref_device nat
  | Open_device int nat nat
  | Open_ids int nat nat nat
  | Close_device nat
  | Register_callback "hotplug_event set" bool "nat option" "nat option" "nat option"
  | Deregister_callback nat

text \<open>
  What the client must observe: it returns only references that it has, opens or references only devices that it has a reference or
  a handle of, and closes open handles. \<open>named\<close> tells whether devices are found in sysfs.
\<close>

fun allowed :: "bool \<Rightarrow> lib_op \<Rightarrow> usb_lib \<Rightarrow> bool" where
  "allowed named (Device_arrives env sys fuel busnum devaddr dir) s \<longleftrightarrow> (dir \<noteq> None) = named"
| "allowed named (Free_list ds unref) s \<longleftrightarrow> (unref \<longrightarrow> owns (user_refs s) ds)"
| "allowed named (Ref_device d) s \<longleftrightarrow> d \<in> set (user_refs s) \<union> snd ` set (open_devs s)"
| "allowed named (Unref_device d) s \<longleftrightarrow> d \<in> set (user_refs s)"
| "allowed named (Open_device fd handle d) s \<longleftrightarrow> d \<in> set (user_refs s) \<union> snd ` set (open_devs s)"
| "allowed named (Close_device handle) s \<longleftrightarrow> map_of (open_devs s) handle \<noteq> None"
| "allowed named _ s \<longleftrightarrow> True"

fun lib_do :: "(nat \<Rightarrow> hotplug_event \<Rightarrow> nat \<Rightarrow> bool) \<Rightarrow> lib_op \<Rightarrow> usb_lib \<Rightarrow> usb_lib option" where
  "lib_do answers (Device_arrives env sys fuel busnum devaddr dir) s =
     map_option snd (linux_enumerate_device env sys fuel busnum devaddr dir s)"
| "lib_do answers (Device_leaves busnum devaddr) s = Some (linux_device_disconnected busnum devaddr s)"
| "lib_do answers Messages_ready s = Some (s\<lparr>msgs_ready := True\<rparr>)"
| "lib_do answers Handle_message s = Some (process_message answers s)"
| "lib_do answers Get_list s = Some (snd (libusb_get_device_list s))"
| "lib_do answers (Free_list ds unref) s = Some (libusb_free_device_list ds unref s)"
| "lib_do answers (Ref_device d) s = (let s = libusb_ref_device d s in Some (s\<lparr>user_refs := d # user_refs s\<rparr>))"
| "lib_do answers (Unref_device d) s = Some (libusb_unref_device (Some d) (s\<lparr>user_refs := remove1 d (user_refs s)\<rparr>))"
| "lib_do answers (Open_device fd handle d) s = Some (snd (libusb_open2 fd handle d s))"
| "lib_do answers (Open_ids fd handle vendor_id product_id) s =
     Some (snd (libusb_open_device_with_vid_pid fd handle vendor_id product_id s))"
| "lib_do answers (Close_device handle) s = Some (libusb_close handle s)"
| "lib_do answers (Register_callback evs enum_flag vendor_id product_id dev_class) s =
     Some (snd (libusb_hotplug_register_callback answers evs enum_flag vendor_id product_id dev_class s))"
| "lib_do answers (Deregister_callback handle) s = Some (libusb_hotplug_deregister_callback handle s)"

text \<open>A history; \<open>None\<close> when the client breaks the rules, or when an enumeration did not end.\<close>

fun lib_run :: "(nat \<Rightarrow> hotplug_event \<Rightarrow> nat \<Rightarrow> bool) \<Rightarrow> bool \<Rightarrow> lib_op list \<Rightarrow> usb_lib \<Rightarrow> usb_lib option" where
  "lib_run answers named [] s = Some s"
| "lib_run answers named (op # ops) s =
     (if allowed named op s then case lib_do answers op s of None \<Rightarrow> None | Some s \<Rightarrow> lib_run answers named ops s else None)"

text \<open>A context after \<open>libusb_init\<close> has allocated it.\<close>

definition new_context :: "(nat \<Rightarrow> lib_device) \<Rightarrow> usb_lib" where
  "new_context memory = \<lparr>dev_of = memory, alive = [], next_dev = 0, usb_devs = [], open_devs = [], hotplug_msgs = [],
     msgs_ready = False, hotplug_cbs = [], next_handle = 1, cb_calls = [], user_refs = [], leaked = [], lib_ub = False\<rparr>"

lemma client_alive:
  "lib_inv named extra s \<Longrightarrow> d \<in> set (user_refs s) \<union> snd ` set (open_devs s) \<Longrightarrow> d \<in> set (alive s)"
  using referenced_alive [OF lib_inv_counted, of named extra s d] by (auto simp: refs_def count_list_pos)

lemma lib_inv_ready:
  assumes "lib_inv named extra s"
  shows "lib_inv named extra (s\<lparr>msgs_ready := True\<rparr>)"
proof -
  have "counted_refs extra (s\<lparr>msgs_ready := True\<rparr>)"
    by (rule counted_refs_move [OF lib_inv_counted [OF assms]]) (simp_all add: refs_def)
  moreover have "ranked (s\<lparr>msgs_ready := True\<rparr>)" by (rule ranked_kept [of s]) (use assms in \<open>simp_all add: lib_inv_def\<close>)
  ultimately show ?thesis using assms by (simp add: lib_inv_def messages_ok_def names_ok_def)
qed

lemma lib_inv_user_ref:
  assumes "lib_inv named extra s" "d \<in> set (alive s)"
  shows "lib_inv named extra (libusb_ref_device d s\<lparr>user_refs := d # user_refs (libusb_ref_device d s)\<rparr>)"
  using lib_inv_user [of named "[d]" extra "libusb_ref_device d s"] lib_inv_ref [OF assms] by simp

lemma lib_do_inv:
  assumes "lib_inv named [] s" "allowed named op s" "lib_do answers op s = Some s'"
  shows "lib_inv named [] s'"
proof (cases op)
  case (Device_arrives env sys fuel busnum devaddr dir)
  then show ?thesis using assms by (auto intro: lib_inv_enumerate)
next
  case (Ref_device d)
  then have "d \<in> set (alive s)" using assms client_alive by auto
  then show ?thesis using assms(1,3) Ref_device lib_inv_user_ref by (auto simp: Let_def)
next
  case (Open_device fd handle d)
  then have "d \<in> set (alive s)" using assms client_alive by auto
  then show ?thesis using assms(1,3) Open_device lib_inv_open2 by auto
next
  case (Device_leaves busnum devaddr)
  then show ?thesis using assms(1,3) lib_inv_disconnected by auto
next
  case Messages_ready
  then show ?thesis using assms(1,3) lib_inv_ready by auto
next
  case Handle_message
  then show ?thesis using assms(1,3) process_message_kept(1) by auto
next
  case Get_list
  then show ?thesis using assms(1,3) lib_inv_get_device_list(1) by auto
next
  case (Free_list ds unref)
  then show ?thesis using assms lib_inv_free_list by auto
next
  case (Unref_device d)
  then have "lib_inv named [d] (s\<lparr>user_refs := remove1 d (user_refs s)\<rparr>)" using assms(1,2) lib_inv_drop_user by auto
  then show ?thesis using assms(3) Unref_device lib_inv_unref by auto
next
  case (Open_ids fd handle vendor_id product_id)
  then show ?thesis using assms(1,3) lib_inv_open_vid_pid by auto
next
  case (Close_device handle)
  then show ?thesis using assms lib_inv_close by auto
next
  case (Register_callback evs enum_flag vendor_id product_id dev_class)
  then show ?thesis using assms(1,3) lib_inv_register by auto
next
  case (Deregister_callback handle)
  then show ?thesis using assms(1,3) lib_inv_deregister by auto
qed

lemma lib_run_inv: "lib_inv named [] s \<Longrightarrow> lib_run answers named ops s = Some s' \<Longrightarrow> lib_inv named [] s'"
  by (induction ops arbitrary: s) (auto split: if_splits option.splits dest: lib_do_inv)

lemma lib_inv_new: "lib_inv named [] (new_context memory)"
  by (simp add: new_context_def lib_inv_def counted_refs_def messages_ok_def ranked_def names_ok_def refs_def)

section \<open>The end of a context\<close>

text \<open>Without references from elsewhere there are no devices: a youngest descendant would be unreferenced.\<close>

lemma unreferenced_none:
  assumes "lib_inv named [] s" "usb_devs s = []" "open_devs s = []" "hotplug_msgs s = []" "user_refs s = []" "leaked s = []"
  shows "alive s = []"
proof (rule ccontr)
  assume "alive s \<noteq> []"
  obtain rank :: "nat \<Rightarrow> nat" where r: "\<forall>x \<in> set (alive s). \<forall>p. dv_parent (dev_of s x) = Some p \<longrightarrow> rank p < rank x"
    using assms(1) by (auto simp: lib_inv_def ranked_def)
  have "Max (rank ` set (alive s)) \<in> rank ` set (alive s)" using \<open>alive s \<noteq> []\<close> by (intro Max_in) auto
  then obtain d where d: "d \<in> set (alive s)" "rank d = Max (rank ` set (alive s))" by auto
  then have "0 < refs s d" using counted_refsD(3) [OF lib_inv_counted [OF assms(1)], of d] by simp
  then obtain c where "c \<in> set (alive s)" "dv_parent (dev_of s c) = Some d"
    using assms(2-6) by (auto simp: refs_def filter_empty_conv)
  moreover have "rank c \<le> rank d" if "c \<in> set (alive s)" for c using that d(2) by simp
  ultimately show False using r by fastforce
qed

lemma exit_frees:
  assumes "lib_inv named [] s" "open_devs s = []" "user_refs s = []" "leaked s = []"
  shows "alive (libusb_exit answers s) = []" "\<not> lib_ub (libusb_exit answers s)"
proof -
  let ?s = "s\<lparr>hotplug_cbs := []\<rparr>"
  define t where "t = process_messages answers (length (hotplug_msgs s)) ?s"
  have "lib_inv named [] ?s" using lib_inv_cbs [OF assms(1), where cbs = "[]" and calls = "cb_calls s"] by simp
  note k = process_messages_kept [OF this, of answers "length (hotplug_msgs s)", folded t_def]
  let ?t = "t\<lparr>usb_devs := []\<rparr>"
  have c: "counted_refs (usb_devs t) ?t"
    by (rule counted_refs_move [OF lib_inv_counted [of named "[]" t]]) (use k in \<open>simp_all add: refs_def\<close>)
  moreover have "ranked ?t" by (rule ranked_kept [of t]) (use k in \<open>simp_all add: lib_inv_def\<close>)
  ultimately have i: "lib_inv named (usb_devs t @ []) ?t" using k by (simp add: lib_inv_def messages_ok_def names_ok_def)
  let ?u = "unref_all (usb_devs t) ?t"
  have u: "lib_inv named [] ?u" using i by (rule lib_inv_unref_all)
  have e: "libusb_exit answers s = ?u" using assms(2) by (simp add: libusb_exit_def Let_def t_def)
  have "usb_devs ?u = []" "open_devs ?u = []" "hotplug_msgs ?u = []" "user_refs ?u = []" "leaked ?u = []"
    using unref_all_kept [of ?t "usb_devs t"] k assms by (simp_all add: lists_kept_def)
  then show "alive (libusb_exit answers s) = []" unfolding e by (rule unreferenced_none [OF u])
  show "\<not> lib_ub (libusb_exit answers s)" unfolding e using counted_refsD(1) [OF lib_inv_counted [OF u]] .
qed

section \<open>The results\<close>

text \<open>
  C21. After every history of a context in which the client keeps the rules, with whatever sysfs and the callbacks answer, no freed
  device was used, the count of every device is the number of references to it (by the list, open handles, messages of departure,
  children, the client, and those that were lost), and a device is allocated exactly as long as it is referenced.
\<close>

theorem usb_devices_counted:
  assumes "lib_run answers named ops (new_context memory) = Some s"
  shows "\<not> lib_ub s \<and> (\<forall>d. d \<in> set (alive s) \<longleftrightarrow> 0 < refs s d) \<and> (\<forall>d \<in> set (alive s). dv_refcnt (dev_of s d) = int (refs s d))"
proof -
  have "counted_refs [] s" using lib_run_inv [OF lib_inv_new assms] by (rule lib_inv_counted)
  from counted_refsD [OF this] show ?thesis by simp
qed

text \<open>A root hub and a receiver that is found first; the hub is taken along as its parent.\<close>

definition receiver_bytes :: "u8 list" where
  "receiver_bytes = [18, 1, 0, 2, 0, 0, 0, 64, 0xda, 0x0b, 0x38, 0x28, 0, 1, 1, 2, 3, 1]"

definition example_sysfs :: sysfs where
  "example_sysfs = \<lparr>sys_attr = (\<lambda>name attr. if name = ''usb1'' then Inr (Some 1) else Inl 2),
     sys_files = (\<lambda>dir busnum devaddr. \<lparr>df_speed = 480, df_open = 3, df_file = (\<lambda>pos n. Inr (take n (drop pos receiver_bytes))),
       df_open_rw = 4, df_active = Inr 1\<rparr>)\<rparr>"

definition example_env :: linux_env where
  "example_env = \<lparr>sysfs_can_relate_devices = True, sysfs_has_descriptors = True\<rparr>"

definition example_memory :: "nat \<Rightarrow> lib_device" where
  "example_memory d = \<lparr>dv_refcnt = 0, dv_attached = False, dv_session = 0, dv_parent = None, dv_port = 0, dv_num_configurations = 0,
     dv_linux = \<lparr>bus_number = 0, device_address = 0, speed = SPEED_UNKNOWN, sysfs_dir = None, descriptors = [], active_config = 0\<rparr>\<rparr>"

definition example_history :: "lib_op list" where
  "example_history = [Device_arrives example_env example_sysfs 6 1 2 (Some ''1-1''), Messages_ready,
     Register_callback {DEVICE_LEFT} False (Some 0x0bda) None None, Get_list, Open_device 5 7 0, Free_list [0, 1] True,
     Device_leaves 1 2, Handle_message]"

text \<open>The receiver (0) has left and is still open; the hub (1) is in the list and its parent.\<close>

declare read_descriptors.simps [code]

lemma example_history_run:
  "map_option (\<lambda>s. (alive s, usb_devs s, open_devs s, cb_calls s, map (\<lambda>d. dv_refcnt (dev_of s d)) [0, 1]))
     (lib_run (\<lambda>h e d. False) True example_history (new_context example_memory)) =
   Some ([1, 0], [1], [(7, 0)], [(1, DEVICE_LEFT, 0)], [1, 2])"
  by code_simp

lemma example_history_exit:
  "map_option (\<lambda>s. (alive s, usb_devs s, open_devs s, user_refs s, leaked s, hotplug_msgs s))
     (lib_run (\<lambda>h e d. False) True (example_history @ [Close_device 7]) (new_context example_memory)) =
   Some ([1], [1], [], [], [], [])"
  by code_simp

text \<open>In the state of the example the list, the child and nobody else refer to the hub, and the handle to the receiver.\<close>

theorem usb_devices_counted_witness:
  "\<exists>s. lib_run (\<lambda>h e d. False) True example_history (new_context example_memory) = Some s \<and> \<not> lib_ub s \<and>
     refs s 0 = 1 \<and> refs s 1 = 2 \<and> refs s 2 = 0"
proof -
  obtain s where s: "lib_run (\<lambda>h e d. False) True example_history (new_context example_memory) = Some s"
      "alive s = [1, 0]" "dv_refcnt (dev_of s 0) = 1" "dv_refcnt (dev_of s 1) = 2"
    using example_history_run by (auto simp: map_option_eq_Some)
  note c = usb_devices_counted [OF s(1)]
  have "\<not> lib_ub s" "refs s 0 = 1" "refs s 1 = 2" using c s(2-4) by auto
  moreover have "2 \<in> set (alive s) \<longleftrightarrow> 0 < refs s 2" using c by blast
  ultimately show ?thesis using s(1,2) by simp
qed

text \<open>
  C22. When the client has closed its handles and returned its references, and no departure was lost, \<open>libusb_exit\<close> frees every device
  of the context, whatever messages are left, and uses no freed device.
\<close>

theorem usb_exit_frees:
  assumes "lib_run answers named ops (new_context memory) = Some s" "open_devs s = []" "user_refs s = []" "leaked s = []"
  shows "alive (libusb_exit answers s) = [] \<and> \<not> lib_ub (libusb_exit answers s)"
  using exit_frees [OF lib_run_inv [OF lib_inv_new assms(1)] assms(2-4)] by blast

theorem usb_exit_frees_witness:
  "\<exists>s. lib_run (\<lambda>h e d. False) True (example_history @ [Close_device 7]) (new_context example_memory) = Some s \<and>
     alive s = [1] \<and> alive (libusb_exit (\<lambda>h e d. False) s) = []"
proof -
  obtain s where s: "lib_run (\<lambda>h e d. False) True (example_history @ [Close_device 7]) (new_context example_memory) = Some s"
      "alive s = [1]" "open_devs s = []" "user_refs s = []" "leaked s = []"
    using example_history_exit by (auto simp: map_option_eq_Some)
  then show ?thesis using usb_exit_frees [OF s(1,3-5)] by blast
qed

end
