(* ===== verification/UsbContexts.thy ===== *)
theory UsbContexts
  imports UsbInit UsbDeviceRuns
begin

text \<open>
  The contexts of libusb (\<open>libusb/core.c\<close>): \<open>libusb_init\<close>, \<open>libusb_init2\<close> and \<open>libusb_exit\<close> over the default context with its
  count, the list of active contexts and the static variables of the backend. \<open>None\<close> is undefined behaviour or a failed assertion.
\<close>

section \<open>State\<close>

text \<open>Each of the two functions has a static variable \<open>first_init\<close> of its own.\<close>

record usb_world =
  w_static :: linux_statics
  w_monitor :: monitor
  w_links :: links
  w_first_init :: bool
  w_first_init2 :: bool
  w_default :: "nat option"
  w_default_refcnt :: int
  w_ctx :: "nat \<Rightarrow> usb_lib"
  w_live :: "nat list"
  w_next :: nat
  w_memory :: "nat \<Rightarrow> lib_device"

datatype init_function = Init | Init2 "string option"

definition first_init :: "init_function \<Rightarrow> usb_world \<Rightarrow> bool" where
  "first_init f w = (case f of Init \<Rightarrow> w_first_init w | Init2 _ \<Rightarrow> w_first_init2 w)"

definition clear_first_init :: "init_function \<Rightarrow> usb_world \<Rightarrow> usb_world" where
  "clear_first_init f w = (case f of Init \<Rightarrow> w\<lparr>w_first_init := False\<rparr> | Init2 _ \<Rightarrow> w\<lparr>w_first_init2 := False\<rparr>)"

definition backend_init ::
    "init_function \<Rightarrow> init_calls \<Rightarrow> linux_statics \<Rightarrow> monitor \<Rightarrow> usb_lib \<Rightarrow> (int \<times> linux_statics \<times> monitor \<times> usb_lib) option" where
  "backend_init f = (case f of Init \<Rightarrow> op_init | Init2 path \<Rightarrow> op_init2 path)"

section \<open>Start\<close>

text \<open>A new context, entered in the list.\<close>

definition add_context :: "init_function \<Rightarrow> usb_world \<Rightarrow> (nat \<times> usb_world) option" where
  "add_context f w =
     (let ctx = w_next w;
          w = w\<lparr>w_next := ctx + 1, w_ctx := (w_ctx w)(ctx := new_context (w_memory w)), w_live := ctx # w_live w\<rparr>;
          w = (if w_default w = None then w\<lparr>w_default := Some ctx, w_default_refcnt := w_default_refcnt w + 1\<rparr> else w);
          w = (if first_init f w then (clear_first_init f w)\<lparr>w_links := list_init Head (w_links w)\<rparr> else w) in
      map_option (\<lambda>l. (ctx, w\<lparr>w_links := l\<rparr>)) (list_add (Entry ctx) Head (w_links w)))"

text \<open>The label \<open>err_free_ctx\<close>.\<close>

definition free_context :: "nat \<Rightarrow> usb_world \<Rightarrow> usb_world option" where
  "free_context ctx w =
     (let w = (if w_default w = Some ctx then w\<lparr>w_default := None, w_default_refcnt := w_default_refcnt w - 1\<rparr> else w) in
      map_option (\<lambda>l.
        let s = w_ctx w ctx; s = unref_all (usb_devs s) (s\<lparr>usb_devs := []\<rparr>) in
        w\<lparr>w_links := l, w_ctx := (w_ctx w)(ctx := s), w_live := removeAll ctx (w_live w)\<rparr>) (list_del (Entry ctx) (w_links w)))"

text \<open>\<open>own\<close>: the caller asks for a context. The result is the error code with the context that was stored for it.\<close>

definition libusb_init_with :: "init_function \<Rightarrow> bool \<Rightarrow> init_calls \<Rightarrow> usb_world \<Rightarrow> (int \<times> nat option \<times> usb_world) option" where
  "libusb_init_with f own c w =
     (if \<not> own \<and> w_default w \<noteq> None then Some (0, None, w\<lparr>w_default_refcnt := w_default_refcnt w + 1\<rparr>)
      else case add_context f w of
        None \<Rightarrow> None
      | Some (ctx, w) \<Rightarrow> (case backend_init f c (w_static w) (w_monitor w) (w_ctx w ctx) of
          None \<Rightarrow> None
        | Some (r, st, mon, s) \<Rightarrow>
            let w = w\<lparr>w_static := st, w_monitor := mon, w_ctx := (w_ctx w)(ctx := s)\<rparr> in
            if r \<noteq> 0 then map_option (\<lambda>w. (r, None, w)) (free_context ctx w)
            else if ic_io c < 0 then (case op_exit st mon of
                None \<Rightarrow> None
              | Some (st, mon) \<Rightarrow>
                  map_option (\<lambda>w. (ic_io c, None, w)) (free_context ctx (w\<lparr>w_static := st, w_monitor := mon\<rparr>)))
            else Some (0, if own then Some ctx else None, w\<lparr>w_ctx := (w_ctx w)(ctx := s\<lparr>msgs_ready := True\<rparr>)\<rparr>)))"

definition libusb_init :: "bool \<Rightarrow> init_calls \<Rightarrow> usb_world \<Rightarrow> (int \<times> nat option \<times> usb_world) option" where
  "libusb_init = libusb_init_with Init"

definition libusb_init2 :: "string option \<Rightarrow> bool \<Rightarrow> init_calls \<Rightarrow> usb_world \<Rightarrow> (int \<times> nat option \<times> usb_world) option" where
  "libusb_init2 path = libusb_init_with (Init2 path)"

section \<open>End\<close>

text \<open>What follows when a context is destroyed: \<open>libusb_exit\<close> for its devices, and the end of the backend.\<close>

definition destroy_context :: "(nat \<Rightarrow> hotplug_event \<Rightarrow> nat \<Rightarrow> bool) \<Rightarrow> nat \<Rightarrow> usb_world \<Rightarrow> usb_world option" where
  "destroy_context answers ctx w = (case list_del (Entry ctx) (w_links w) of
     None \<Rightarrow> None
   | Some l \<Rightarrow> (case op_exit (w_static w) (w_monitor w) of
       None \<Rightarrow> None
     | Some (st, mon) \<Rightarrow>
         Some (w\<lparr>w_links := l, w_ctx := (w_ctx w)(ctx := libusb_exit answers (w_ctx w ctx)), w_static := st, w_monitor := mon,
           w_live := removeAll ctx (w_live w)\<rparr>)))"

text \<open>The context is NULL for the default context; a context that was freed, or a missing default, is undefined.\<close>

definition libusb_exit_context :: "(nat \<Rightarrow> hotplug_event \<Rightarrow> nat \<Rightarrow> bool) \<Rightarrow> nat option \<Rightarrow> usb_world \<Rightarrow> usb_world option" where
  "libusb_exit_context answers ctx w = (case if ctx = None then w_default w else ctx of
     None \<Rightarrow> None
   | Some c \<Rightarrow>
       if c \<notin> set (w_live w) then None
       else if w_default w = Some c then
         let n = w_default_refcnt w - 1; w = w\<lparr>w_default_refcnt := n\<rparr> in
         if n > 0 then Some w else destroy_context answers c (w\<lparr>w_default := None\<rparr>)
       else destroy_context answers c w)"

text \<open>The contexts that are told of a device, and its arrival there.\<close>

definition active_contexts :: "usb_world \<Rightarrow> nat list option" where
  "active_contexts w = visited (w_links w) (w_next w) Head"

end
