(* ===== verification/UsbContextProps.thy ===== *)
theory UsbContextProps
  imports UsbContexts
begin

text \<open>
  The linked list of contexts against a list of numbers, what holds of all contexts as long as only one of the two functions starts
  them, and what goes wrong with both, or when the monitor of the kernel's messages does not start.
\<close>

section \<open>Linked lists\<close>

text \<open>From \<open>a\<close> over the entries of \<open>xs\<close> to \<open>b\<close>, in both directions.\<close>

fun chain :: "links \<Rightarrow> node \<Rightarrow> nat list \<Rightarrow> node \<Rightarrow> bool" where
  "chain l a [] b \<longleftrightarrow> next_of l a = Some b \<and> prev_of l b = Some a"
| "chain l a (x # xs) b \<longleftrightarrow> next_of l a = Some (Entry x) \<and> prev_of l (Entry x) = Some a \<and> chain l (Entry x) xs b"

definition linked :: "links \<Rightarrow> nat list \<Rightarrow> bool" where
  "linked l xs \<longleftrightarrow> distinct xs \<and> chain l Head xs Head"

lemma chain_append: "chain l a (xs @ x # ys) b \<longleftrightarrow> chain l a xs (Entry x) \<and> chain l (Entry x) ys b"
  by (induction xs arbitrary: a) auto

lemma chain_frame:
  "(\<And>n. n \<in> insert a (Entry ` set xs) \<Longrightarrow> next_of l' n = next_of l n) \<Longrightarrow>
   (\<And>n. n \<in> insert b (Entry ` set xs) \<Longrightarrow> prev_of l' n = prev_of l n) \<Longrightarrow> chain l' a xs b = chain l a xs b"
proof (induction xs arbitrary: a)
  case (Cons x xs)
  have "chain l' (Entry x) xs b = chain l (Entry x) xs b" by (rule Cons.IH) (use Cons.prems in auto)
  then show ?case using Cons.prems by auto
qed simp

lemma chain_snoc:
  "chain l a xs b \<Longrightarrow> \<exists>p. prev_of l b = Some p \<and> (p = a \<and> xs = [] \<or> (\<exists>y ys. p = Entry y \<and> xs = ys @ [y]))"
  by (induction xs arbitrary: a) (auto, metis append_Cons append_Nil)

lemma linked_init: "linked (list_init Head l) []"
  by (simp add: linked_def list_init_def)

lemma linked_add:
  assumes "linked l xs" "x \<notin> set xs"
  shows "\<exists>l'. list_add (Entry x) Head l = Some l' \<and> linked l' (x # xs)"
proof (cases xs)
  case Nil
  then show ?thesis using assms by (auto simp: linked_def list_add_def Let_def)
next
  case (Cons y ys)
  let ?l = "l\<lparr>next_of := (next_of l)(Entry x := Some (Entry y), Head := Some (Entry x)),
      prev_of := (prev_of l)(Entry x := Some Head, Entry y := Some (Entry x))\<rparr>"
  have p: "next_of l Head = Some (Entry y)" "chain l (Entry y) ys Head" using assms Cons by (auto simp: linked_def)
  have a: "list_add (Entry x) Head l = Some ?l" using p by (simp add: list_add_def Let_def fun_upd_twist)
  have "chain ?l (Entry y) ys Head = chain l (Entry y) ys Head"
    by (rule chain_frame) (use assms Cons in \<open>auto simp: linked_def\<close>)
  then show ?thesis using a p assms Cons by (auto simp: linked_def)
qed

text \<open>Taking out the entry between \<open>us\<close> and \<open>vs\<close>.\<close>

lemma chain_del:
  assumes "chain l a (us @ x # vs) b" "distinct (us @ x # vs)" "a \<notin> Entry ` set (us @ x # vs)" "b \<notin> Entry ` set (us @ x # vs)"
    "prev_of l (Entry x) = Some p" "next_of l (Entry x) = Some n"
    "next_of l' = (next_of l)(p := Some n, Entry x := None)" "prev_of l' = (prev_of l)(n := Some p, Entry x := None)"
  shows "chain l' a (us @ vs) b"
  using assms
proof (induction us arbitrary: a)
  case Nil
  then have p: "p = a" "chain l (Entry x) vs b" by auto
  show ?case
  proof (cases vs)
    case Nil
    then show ?thesis using Nil.prems p by auto
  next
    case (Cons y ys)
    then have "n = Entry y" "chain l (Entry y) ys b" using p(2) Nil.prems by auto
    moreover have "chain l' (Entry y) ys b = chain l (Entry y) ys b"
      by (rule chain_frame) (use Nil.prems Cons p calculation in auto)
    ultimately show ?thesis using Nil.prems p Cons by auto
  qed
next
  case (Cons u us)
  have "chain l (Entry u) (us @ x # vs) b" using Cons.prems by simp
  then have i: "chain l' (Entry u) (us @ vs) b" using Cons.IH [of "Entry u"] Cons.prems by auto
  from chain_append [of l "Entry u" us x vs b] chain_snoc [of l "Entry u" us "Entry x"] Cons.prems
  have p: "p = Entry u \<or> p \<in> Entry ` set us" by auto
  have "chain l (Entry x) vs b" using chain_append [of l a "u # us" x vs b] Cons.prems by simp
  then have n: "n = b \<or> n \<in> Entry ` set vs" using Cons.prems by (cases vs) auto
  have "next_of l' a = next_of l a" using p Cons.prems by auto
  moreover have "prev_of l' (Entry u) = prev_of l (Entry u)" using n Cons.prems by auto
  ultimately show ?case using i Cons.prems by simp
qed

lemma linked_del:
  assumes "linked l xs" "x \<in> set xs"
  shows "\<exists>l'. list_del (Entry x) l = Some l' \<and> linked l' (removeAll x xs)"
proof -
  obtain us vs where s: "xs = us @ x # vs" using assms(2) by (auto simp: in_set_conv_decomp)
  have d: "distinct (us @ x # vs)" and p: "chain l Head (us @ x # vs) Head" using assms(1) s by (auto simp: linked_def)
  then have ps: "chain l Head us (Entry x)" "chain l (Entry x) vs Head" by (simp_all add: chain_append)
  obtain b where b: "prev_of l (Entry x) = Some b" "b \<noteq> Entry x" using chain_snoc [OF ps(1)] d by auto
  obtain n where n: "next_of l (Entry x) = Some n" "n \<noteq> Entry x" using ps(2) d by (cases vs) auto
  let ?l = "l\<lparr>next_of := (next_of l)(b := Some n, Entry x := None), prev_of := (prev_of l)(n := Some b, Entry x := None)\<rparr>"
  have "list_del (Entry x) l = Some ?l" using b n by (simp add: list_del_def Let_def)
  moreover have "chain ?l Head (us @ vs) Head" by (rule chain_del [OF p d _ _ b(1) n(1)]) auto
  moreover have "removeAll x xs = us @ vs" "distinct (us @ vs)" using s d by (auto simp: removeAll_id)
  ultimately show ?thesis by (simp add: linked_def)
qed

lemma chain_visited: "chain l a xs Head \<Longrightarrow> length xs \<le> n \<Longrightarrow> visited l n a = Some xs"
proof (induction xs arbitrary: a n)
  case Nil
  then show ?case by (subst visited.simps) simp
next
  case (Cons x xs)
  then obtain m where "n = Suc m" "visited l m (Entry x) = Some xs" by (cases n) auto
  then show ?case using Cons.prems by (subst visited.simps) simp
qed

section \<open>The backend\<close>

lemma check_flags_count: "check_flags c st = (ok, st') \<Longrightarrow> st_init_count st' = st_init_count st"
  by (auto simp: check_flags_def Let_def split: if_splits)

lemma start_and_scan_count:
  "start_and_scan c st mon ctx = Some (r, st', mon', ctx') \<Longrightarrow> st_init_count st' = st_init_count st + of_bool (r = 0)"
  by (auto simp: start_and_scan_def Let_def split: option.splits if_splits)

lemma op_init_count: "op_init c st mon ctx = Some (r, st', mon', ctx') \<Longrightarrow> st_init_count st' = st_init_count st + of_bool (r = 0)"
  by (auto simp: op_init_def LIBUSB_ERROR_OTHER_def dest!: start_and_scan_count check_flags_count
      split: option.splits if_splits prod.splits)

lemma backend_init_count:
  "backend_init f c st mon ctx = Some (r, st', mon', ctx') \<Longrightarrow> st_init_count st' = st_init_count st + of_bool (r = 0)"
  by (auto simp: backend_init_def op_init2_def LIBUSB_ERROR_OTHER_def dest!: op_init_count start_and_scan_count check_flags_count
      split: init_function.splits option.splits if_splits prod.splits)

lemma op_exit_count:
  "st_init_count st \<noteq> 0 \<Longrightarrow> \<exists>st' mon'. op_exit st mon = Some (st', mon') \<and> st_init_count st' = st_init_count st - 1"
  by (simp add: op_exit_def Let_def)

section \<open>Contexts\<close>

text \<open>
  With one of the two functions, \<open>f\<close>: the list is that of the contexts that live, the default context is one of them, and the
  backend was started once for each.
\<close>

definition world_ok :: "init_function \<Rightarrow> usb_world \<Rightarrow> bool" where
  "world_ok f w \<longleftrightarrow> (if first_init f w then w_live w = [] else linked (w_links w) (w_live w)) \<and>
     distinct (w_live w) \<and> (\<forall>c \<in> set (w_live w). c < w_next w) \<and> (\<forall>c. w_default w = Some c \<longrightarrow> c \<in> set (w_live w)) \<and>
     st_init_count (w_static w) = int (length (w_live w))"

lemma first_init_simps:
  "first_init f (clear_first_init f w) \<longleftrightarrow> False"
  "first_init f (w\<lparr>w_links := l\<rparr>) = first_init f w" "first_init f (w\<lparr>w_default := d\<rparr>) = first_init f w"
  "first_init f (w\<lparr>w_default_refcnt := n\<rparr>) = first_init f w" "first_init f (w\<lparr>w_ctx := x\<rparr>) = first_init f w"
  "first_init f (w\<lparr>w_live := cs\<rparr>) = first_init f w" "first_init f (w\<lparr>w_next := i\<rparr>) = first_init f w"
  "first_init f (w\<lparr>w_static := st\<rparr>) = first_init f w" "first_init f (w\<lparr>w_monitor := m\<rparr>) = first_init f w"
  "w_links (clear_first_init f w) = w_links w" "w_live (clear_first_init f w) = w_live w" "w_next (clear_first_init f w) = w_next w"
  "w_default (clear_first_init f w) = w_default w" "w_static (clear_first_init f w) = w_static w" "w_ctx (clear_first_init f w) = w_ctx w"
  "w_monitor (clear_first_init f w) = w_monitor w"
  by (simp_all add: first_init_def clear_first_init_def split: init_function.splits)

text \<open>The state between the entry in the list and the start of the backend.\<close>

definition entered :: "init_function \<Rightarrow> nat \<Rightarrow> usb_world \<Rightarrow> bool" where
  "entered f ctx w \<longleftrightarrow> \<not> first_init f w \<and> linked (w_links w) (w_live w) \<and> ctx \<in> set (w_live w) \<and>
     (\<forall>c \<in> set (w_live w). c < w_next w) \<and> (\<forall>c. w_default w = Some c \<longrightarrow> c \<in> set (w_live w)) \<and>
     st_init_count (w_static w) + 1 = int (length (w_live w))"

lemma linked_distinct: "linked l xs \<Longrightarrow> distinct xs"
  by (simp add: linked_def)

lemma add_context_ok:
  assumes "world_ok f w"
  shows "\<exists>w'. add_context f w = Some (w_next w, w') \<and> entered f (w_next w) w' \<and> w_live w' = w_next w # w_live w \<and>
     w_static w' = w_static w \<and> w_monitor w' = w_monitor w \<and> w_ctx w' (w_next w) = new_context (w_memory w)"
proof -
  let ?l = "if first_init f w then list_init Head (w_links w) else w_links w"
  have n: "w_next w \<notin> set (w_live w)" using assms by (auto simp: world_ok_def)
  have "linked ?l (w_live w)" using assms linked_init by (auto simp: world_ok_def)
  then obtain l where l: "list_add (Entry (w_next w)) Head ?l = Some l" "linked l (w_next w # w_live w)"
    using linked_add [OF _ n] by blast
  then show ?thesis using assms
    by (auto simp: add_context_def Let_def first_init_simps entered_def world_ok_def split: if_splits)
qed

lemma length_removed: "distinct xs \<Longrightarrow> x \<in> set xs \<Longrightarrow> int (length (removeAll x xs)) = int (length xs) - 1"
  using length_filter_removeAll [of xs x "\<lambda>_. True"] by simp

lemma free_context_ok:
  assumes "entered f ctx w"
  shows "\<exists>w'. free_context ctx w = Some w' \<and> world_ok f w'"
proof -
  let ?w = "if w_default w = Some ctx then w\<lparr>w_default := None, w_default_refcnt := w_default_refcnt w - 1\<rparr> else w"
  have c: "linked (w_links ?w) (w_live w)" "ctx \<in> set (w_live w)" using assms by (simp_all add: entered_def)
  obtain l where l: "list_del (Entry ctx) (w_links ?w) = Some l" "linked l (removeAll ctx (w_live w))"
    using linked_del [OF c] by blast
  have d: "distinct (w_live w)" using c(1) by (rule linked_distinct)
  show ?thesis using assms l d length_removed [OF d c(2)]
    by (auto simp: free_context_def Let_def world_ok_def entered_def first_init_simps distinct_removeAll)
qed

lemma init_ok:
  assumes "world_ok f w" "libusb_init_with f own c w = Some (r, stored, w')"
  shows "world_ok f w'"
proof (cases "\<not> own \<and> w_default w \<noteq> None")
  case True
  then show ?thesis using assms by (auto simp: libusb_init_with_def world_ok_def first_init_simps)
next
  case False
  obtain w1 where a: "add_context f w = Some (w_next w, w1)" "entered f (w_next w) w1"
    using add_context_ok [OF assms(1)] by blast
  obtain e st mon s where b: "backend_init f c (w_static w1) (w_monitor w1) (w_ctx w1 (w_next w)) = Some (e, st, mon, s)"
    using assms(2) a False by (auto simp: libusb_init_with_def split: option.splits)
  let ?w = "w1\<lparr>w_static := st, w_monitor := mon, w_ctx := (w_ctx w1)(w_next w := s)\<rparr>"
  have n: "st_init_count st = st_init_count (w_static w1) + of_bool (e = 0)" by (rule backend_init_count [OF b])
  consider (bad) "e \<noteq> 0" | (io) "e = 0" "ic_io c < 0" | (good) "e = 0" "\<not> ic_io c < 0" by blast
  then show ?thesis
  proof cases
    case bad
    then have "entered f (w_next w) ?w" using a(2) n by (simp add: entered_def first_init_simps)
    then obtain w2 where "free_context (w_next w) ?w = Some w2" "world_ok f w2" using free_context_ok by blast
    then show ?thesis using assms(2) a b bad False by (auto simp: libusb_init_with_def Let_def)
  next
    case io
    have "st_init_count st \<noteq> 0" using n io a(2) by (auto simp: entered_def)
    then obtain st' mon' where x: "op_exit st mon = Some (st', mon')" "st_init_count st' = st_init_count (w_static w1)"
      using op_exit_count [of st mon] n io by auto
    then have "entered f (w_next w) (?w\<lparr>w_static := st', w_monitor := mon'\<rparr>)" using a(2) by (simp add: entered_def first_init_simps)
    then obtain w2 where "free_context (w_next w) (?w\<lparr>w_static := st', w_monitor := mon'\<rparr>) = Some w2" "world_ok f w2"
      using free_context_ok by blast
    then show ?thesis using assms(2) a b io x False by (auto simp: libusb_init_with_def Let_def)
  next
    case good
    then have "w' = ?w\<lparr>w_ctx := (w_ctx ?w)(w_next w := s\<lparr>msgs_ready := True\<rparr>)\<rparr>"
      using assms(2) a b False by (auto simp: libusb_init_with_def Let_def)
    then show ?thesis using a(2) n good linked_distinct [of "w_links w1" "w_live w1"]
      by (simp add: entered_def world_ok_def first_init_simps)
  qed
qed

lemma destroy_ok:
  assumes "world_ok f w" "ctx \<in> set (w_live w)" "w_default w \<noteq> Some ctx"
  shows "\<exists>w'. destroy_context answers ctx w = Some w' \<and> world_ok f w'"
proof -
  have c: "linked (w_links w) (w_live w)" "\<not> first_init f w" using assms by (auto simp: world_ok_def split: if_splits)
  obtain l where l: "list_del (Entry ctx) (w_links w) = Some l" "linked l (removeAll ctx (w_live w))"
    using linked_del [OF c(1) assms(2)] by blast
  have d: "distinct (w_live w)" using c(1) by (rule linked_distinct)
  have n: "int (length (removeAll ctx (w_live w))) = int (length (w_live w)) - 1" "0 < length (w_live w)"
    using length_removed [OF d assms(2)] assms(2) by auto
  then obtain st mon where "op_exit (w_static w) (w_monitor w) = Some (st, mon)"
      "st_init_count st = st_init_count (w_static w) - 1"
    using assms(1) by (auto simp: op_exit_def world_ok_def Let_def)
  then show ?thesis using assms l c(2) d n
    by (auto simp: destroy_context_def world_ok_def first_init_simps distinct_removeAll)
qed

lemma exit_ok:
  assumes "world_ok f w" "(if ctx = None then w_default w else ctx) = Some c" "c \<in> set (w_live w)"
  shows "\<exists>w'. libusb_exit_context answers ctx w = Some w' \<and> world_ok f w'"
proof -
  let ?n = "w_default_refcnt w - 1"
  have k: "world_ok f (w\<lparr>w_default_refcnt := ?n\<rparr>)" "world_ok f (w\<lparr>w_default_refcnt := ?n, w_default := None\<rparr>)"
    using assms(1) by (simp_all add: world_ok_def first_init_simps)
  have "\<exists>w'. destroy_context answers c (w\<lparr>w_default_refcnt := ?n, w_default := None\<rparr>) = Some w' \<and> world_ok f w'"
    by (rule destroy_ok [OF k(2)]) (use assms(3) in simp_all)
  moreover have "w_default w \<noteq> Some c \<Longrightarrow> \<exists>w'. destroy_context answers c w = Some w' \<and> world_ok f w'"
    by (rule destroy_ok [OF assms(1,3)])
  ultimately show ?thesis using assms(2,3) k(1) by (auto simp: libusb_exit_context_def Let_def)
qed

section \<open>Histories\<close>

datatype world_op = Start bool init_calls | Stop "nat option"

text \<open>The client ends only contexts that live, and the default context only when there is one.\<close>

definition world_step ::
    "(nat \<Rightarrow> hotplug_event \<Rightarrow> nat \<Rightarrow> bool) \<Rightarrow> init_function \<Rightarrow> world_op \<Rightarrow> usb_world \<Rightarrow> usb_world option" where
  "world_step answers f op w = (case op of
     Start own c \<Rightarrow> map_option (\<lambda>(r, stored, w). w) (libusb_init_with f own c w)
   | Stop ctx \<Rightarrow> (case if ctx = None then w_default w else ctx of
         None \<Rightarrow> None
       | Some c \<Rightarrow> if c \<in> set (w_live w) then libusb_exit_context answers ctx w else None))"

text \<open>A run has no result when a thread is joined that was not created.\<close>

fun world_run ::
    "(nat \<Rightarrow> hotplug_event \<Rightarrow> nat \<Rightarrow> bool) \<Rightarrow> init_function \<Rightarrow> world_op list \<Rightarrow> usb_world \<Rightarrow> usb_world option" where
  "world_run answers f [] w = Some w"
| "world_run answers f (op # ops) w = (case world_step answers f op w of
     None \<Rightarrow> None
   | Some w \<Rightarrow> if mo_ub (w_monitor w) then None else world_run answers f ops w)"

text \<open>Before the first call.\<close>

definition new_statics :: linux_statics where
  "new_statics = \<lparr>st_usbfs_path = None, st_usbdev_names = False, st_monotonic = None, st_bulk_continuation = -1,
     st_zero_packet = -1, st_has_descriptors = -1, st_can_relate = -1, st_init_count = 0\<rparr>"

definition new_monitor :: monitor where
  "new_monitor = \<lparr>mo_socket = -1, mo_pipe = (-1, -1), mo_thread = False, mo_open = [], mo_stray = [], mo_ub = False\<rparr>"

definition new_world :: "(nat \<Rightarrow> lib_device) \<Rightarrow> usb_world" where
  "new_world memory = \<lparr>w_static = new_statics, w_monitor = new_monitor, w_links = \<lparr>next_of = Map.empty, prev_of = Map.empty\<rparr>,
     w_first_init = True, w_first_init2 = True, w_default = None, w_default_refcnt = 0, w_ctx = (\<lambda>_. new_context memory),
     w_live = [], w_next = 0, w_memory = memory\<rparr>"

lemma world_ok_new: "world_ok f (new_world memory)"
  by (simp add: world_ok_def new_world_def new_statics_def first_init_def split: init_function.splits)

lemma world_step_ok: "world_ok f w \<Longrightarrow> world_step answers f op w = Some w' \<Longrightarrow> world_ok f w'"
proof (cases op)
  case (Stop ctx)
  assume w: "world_ok f w" "world_step answers f op w = Some w'"
  then obtain c where c: "(if ctx = None then w_default w else ctx) = Some c" "c \<in> set (w_live w)"
    by (auto simp: world_step_def Stop split: option.splits if_splits)
  then show ?thesis using exit_ok [OF w(1) c, of answers] w(2) by (auto simp: world_step_def Stop)
qed (auto simp: world_step_def init_ok)

lemma world_run_ok: "world_ok f w \<Longrightarrow> world_run answers f ops w = Some w' \<Longrightarrow> world_ok f w'"
  by (induction answers f ops w rule: world_run.induct) (auto dest: world_step_ok split: option.splits if_splits)

lemma world_listed: "world_ok f w \<Longrightarrow> w_live w \<noteq> [] \<Longrightarrow> active_contexts w = Some (w_live w)"
proof -
  assume ok: "world_ok f w" and live: "w_live w \<noteq> []"
  have "set (w_live w) \<subseteq> {..<w_next w}" using ok by (auto simp: world_ok_def)
  then have "card (set (w_live w)) \<le> w_next w" using card_mono [of "{..<w_next w}"] by fastforce
  then have "length (w_live w) \<le> w_next w" using ok distinct_card [of "w_live w"] by (simp add: world_ok_def)
  then show ?thesis using ok live chain_visited by (auto simp: world_ok_def linked_def active_contexts_def split: if_splits)
qed

section \<open>The monitor of a started backend\<close>

text \<open>The thread runs, and the descriptors that are open are the socket and the two of the pipe.\<close>

definition monitoring :: "monitor \<Rightarrow> bool" where
  "monitoring m \<longleftrightarrow> mo_thread m \<and> mo_socket m \<noteq> -1 \<and> \<not> mo_ub m \<and> mo_stray m = [] \<and>
     mo_open m = [fst (mo_pipe m), snd (mo_pipe m), mo_socket m]"

definition backend_ok :: "linux_statics \<Rightarrow> monitor \<Rightarrow> bool" where
  "backend_ok st mon \<longleftrightarrow> 0 \<le> st_init_count st \<and> (if st_init_count st = 0 then mon = new_monitor else monitoring mon)"

definition monitor_starts :: "world_op \<Rightarrow> bool" where
  "monitor_starts op \<longleftrightarrow> (case op of
     Start own c \<Rightarrow> fst (linux_netlink_start_event_monitor (ic_monitor c) new_monitor) = 0 | Stop ctx \<Rightarrow> True)"

lemma start_monitoring:
  "fst (linux_netlink_start_event_monitor c new_monitor) = 0 \<Longrightarrow> monitoring (snd (linux_netlink_start_event_monitor c new_monitor))"
  unfolding linux_netlink_start_event_monitor_def Let_def
  by (simp add: monitoring_def new_monitor_def LIBUSB_ERROR_OTHER_def split: if_splits option.splits prod.splits)

lemma stop_monitoring: "monitoring m \<Longrightarrow> snd (linux_netlink_stop_event_monitor m) = new_monitor"
  by (cases m) (auto simp: linux_netlink_stop_event_monitor_def monitoring_def close_fd_def new_monitor_def Let_def)

lemma start_and_scan_backend:
  assumes "start_and_scan c st mon ctx = Some (r, st', mon', ctx')" "backend_ok st mon"
    "fst (linux_netlink_start_event_monitor (ic_monitor c) new_monitor) = 0"
  shows "backend_ok st' mon'"
  using assms start_monitoring [OF assms(3)] stop_monitoring
  by (auto simp: start_and_scan_def backend_ok_def Let_def split: option.splits if_splits)

lemma backend_ok_cong: "st_init_count st' = st_init_count st \<Longrightarrow> backend_ok st' mon = backend_ok st mon"
  by (simp add: backend_ok_def)

lemma op_init_backend:
  assumes "op_init c st mon ctx = Some (r, st', mon', ctx')" "backend_ok st mon"
    "fst (linux_netlink_start_event_monitor (ic_monitor c) new_monitor) = 0"
  shows "backend_ok st' mon'"
proof (cases "find_usbfs_path (ic_dirs c)")
  case None
  then show ?thesis using assms(1,2) by (auto simp: op_init_def backend_ok_def)
next
  case (Some p)
  obtain path usbdev where p: "p = (path, usbdev)" by fastforce
  obtain ok st2 where f: "check_flags c (st\<lparr>st_usbfs_path := Some path, st_usbdev_names := st_usbdev_names st \<or> usbdev\<rparr>) = (ok, st2)"
    by fastforce
  have "backend_ok st2 mon" using assms(2) check_flags_count [OF f] backend_ok_cong [of st2 st] by simp
  then show ?thesis using assms(1) Some p f start_and_scan_backend [OF _ _ assms(3)] by (auto simp: op_init_def split: if_splits)
qed

lemma op_init2_backend:
  assumes "op_init2 (Some path) c st mon ctx = Some (r, st', mon', ctx')" "backend_ok st mon"
    "fst (linux_netlink_start_event_monitor (ic_monitor c) new_monitor) = 0"
  shows "backend_ok st' mon'"
proof -
  obtain ok st2 where f: "check_flags c (st\<lparr>st_usbfs_path := Some path\<rparr>) = (ok, st2)" by fastforce
  have "backend_ok st2 mon" using assms(2) check_flags_count [OF f] backend_ok_cong [of st2 st] by simp
  then show ?thesis using assms(1,2) f start_and_scan_backend [OF _ _ assms(3)] by (auto simp: op_init2_def split: if_splits)
qed

lemma backend_init_backend:
  assumes "backend_init f c st mon ctx = Some (r, st', mon', ctx')" "backend_ok st mon"
    "fst (linux_netlink_start_event_monitor (ic_monitor c) new_monitor) = 0"
  shows "backend_ok st' mon'"
proof -
  have none: "op_init2 None = op_init" by (intro ext) (simp add: op_init2_def)
  have "op_init c st mon ctx = Some (r, st', mon', ctx') \<or>
      (\<exists>path. op_init2 (Some path) c st mon ctx = Some (r, st', mon', ctx'))"
  proof (cases f)
    case (Init2 path)
    then show ?thesis using assms(1) none by (cases path) (auto simp: backend_init_def)
  qed (use assms(1) in \<open>simp add: backend_init_def\<close>)
  then show ?thesis using op_init_backend [OF _ assms(2,3)] op_init2_backend [OF _ assms(2,3)] by blast
qed

lemma op_exit_backend: "op_exit st mon = Some (st', mon') \<Longrightarrow> backend_ok st mon \<Longrightarrow> backend_ok st' mon'"
  by (auto simp: op_exit_def backend_ok_def Let_def stop_monitoring split: if_splits)

lemma add_context_backend:
  "add_context f w = Some (ctx, w') \<Longrightarrow> w_static w' = w_static w \<and> w_monitor w' = w_monitor w"
  by (auto simp: add_context_def Let_def first_init_simps split: if_splits)

lemma free_context_backend: "free_context ctx w = Some w' \<Longrightarrow> w_static w' = w_static w \<and> w_monitor w' = w_monitor w"
  by (auto simp: free_context_def Let_def)

lemma world_step_backend:
  assumes "world_step answers f op w = Some w'" "monitor_starts op" "backend_ok (w_static w) (w_monitor w)"
  shows "backend_ok (w_static w') (w_monitor w')"
proof (cases op)
  case (Start own c)
  then obtain r stored where i: "libusb_init_with f own c w = Some (r, stored, w')" using assms(1) by (auto simp: world_step_def)
  have m: "fst (linux_netlink_start_event_monitor (ic_monitor c) new_monitor) = 0"
    using assms(2) by (simp add: monitor_starts_def Start)
  show ?thesis using i assms(3)
    by (auto simp: libusb_init_with_def Let_def dest!: add_context_backend free_context_backend backend_init_backend [OF _ _ m]
        op_exit_backend split: if_splits option.splits)
next
  case (Stop ctx)
  then show ?thesis using assms(1,3)
    by (auto simp: world_step_def libusb_exit_context_def destroy_context_def Let_def op_exit_backend split: option.splits if_splits)
qed

lemma world_run_backend:
  "world_run answers f ops w = Some w' \<Longrightarrow> list_all monitor_starts ops \<Longrightarrow> backend_ok (w_static w) (w_monitor w) \<Longrightarrow>
   backend_ok (w_static w') (w_monitor w')"
  by (induction answers f ops w rule: world_run.induct) (auto dest: world_step_backend split: option.splits if_splits)

text \<open>The end of a context is defined: no thread is joined that was not created, and no descriptor closed that is not open.\<close>

definition exit_defined :: "(nat \<Rightarrow> hotplug_event \<Rightarrow> nat \<Rightarrow> bool) \<Rightarrow> usb_world \<Rightarrow> nat \<Rightarrow> bool" where
  "exit_defined answers w c \<longleftrightarrow> (case libusb_exit_context answers (Some c) w of
     None \<Rightarrow> False | Some w' \<Rightarrow> \<not> mo_ub (w_monitor w') \<and> mo_stray (w_monitor w') = [])"

lemma backend_ok_defined: "backend_ok st mon \<Longrightarrow> \<not> mo_ub mon \<and> mo_stray mon = []"
  by (auto simp: backend_ok_def monitoring_def new_monitor_def split: if_splits)

text \<open>
  C17. As long as contexts are started by one of \<open>libusb_init\<close> and \<open>libusb_init2\<close> only, whatever the system answers, the linked list
  of contexts is exactly that of the contexts that live, the newest first, the backend is started once for each of them,
  and \<open>libusb_exit\<close> of any of them finds it in the list, and the backend started, as it asserts. If moreover the
  monitor of the kernel's messages started whenever it was to, then ending any of them is defined: no thread is joined that was
  not created, no descriptor closed that is not open. (C19 is what happens otherwise.)
\<close>

theorem usb_contexts_listed:
  assumes "world_run answers f ops (new_world memory) = Some w"
  shows "(w_live w = [] \<or> active_contexts w = Some (w_live w)) \<and> distinct (w_live w) \<and>
     st_init_count (w_static w) = int (length (w_live w)) \<and>
     list_all (\<lambda>c. libusb_exit_context answers (Some c) w \<noteq> None) (w_live w) \<and>
     (list_all monitor_starts ops \<longrightarrow> list_all (exit_defined answers w) (w_live w))"
proof -
  have ok: "world_ok f w" using world_run_ok [OF world_ok_new assms] .
  have e: "\<exists>w'. libusb_exit_context answers (Some c) w = Some w'" if "c \<in> set (w_live w)" for c
    using exit_ok [OF ok, of "Some c" c answers] that by auto
  have "exit_defined answers w c" if m: "list_all monitor_starts ops" and c: "c \<in> set (w_live w)" for c
  proof -
    obtain w' where x: "libusb_exit_context answers (Some c) w = Some w'" using e [OF c] by blast
    have "backend_ok (w_static w) (w_monitor w)"
      by (rule world_run_backend [OF assms m]) (simp add: backend_ok_def new_world_def new_statics_def)
    moreover have "world_step answers f (Stop (Some c)) w = Some w'" using x c by (simp add: world_step_def)
    ultimately have "backend_ok (w_static w') (w_monitor w')" using world_step_backend by (force simp: monitor_starts_def)
    then show ?thesis using x backend_ok_defined by (simp add: exit_defined_def)
  qed
  then show ?thesis using ok e world_listed [OF ok] by (auto simp: world_ok_def list_all_iff)
qed

text \<open>A kernel with sysfs where a root hub is found; \<open>bound\<close> tells whether the socket of the monitor can be bound.\<close>

definition example_calls :: "bool \<Rightarrow> init_calls" where
  "example_calls bind_ok = \<lparr>ic_dirs = (\<lambda>path. if path = ''/dev/bus/usb'' then Some [''.'', ''001'']
       else if path = ''/sys/bus/usb/devices'' then Some [''.'', ''usb1'', ''1-0:1.0''] else None),
     ic_monotonic = True, ic_release = Some [3, 4, 67], ic_sysfs_dir = True,
     ic_monitor = \<lparr>mc_socket = Inr 40, mc_socket_plain = None, mc_fcntl = (True, True), mc_bind = bind_ok, mc_pipe = Some (41, 42),
       mc_thread = True\<rparr>,
     ic_sys = example_sysfs, ic_fuel = 9, ic_io = 0\<rparr>"

text \<open>The list of its world, the contexts that live, the sessions of the first two, and the default.\<close>

definition world_view :: "usb_world \<Rightarrow> nat list option \<times> nat list \<times> nat list list \<times> nat option \<times> int" where
  "world_view w = (active_contexts w, w_live w,
     map (\<lambda>c. map (\<lambda>d. dv_session (dev_of (w_ctx w c) d)) (usb_devs (w_ctx w c))) [0, 1], w_default w, st_init_count (w_static w))"

lemma example_world:
  "map_option world_view (world_run (\<lambda>h e d. False) Init [Start True (example_calls True), Start True (example_calls True),
     Start False (example_calls True), Stop (Some 0)] (new_world example_memory)) =
   Some (Some [1, 0], [1, 0], [[257], [257]], Some 0, 2)"
  by code_simp

theorem usb_contexts_listed_witness:
  "\<exists>w. world_run (\<lambda>h e d. False) Init [Start True (example_calls True), Start True (example_calls True),
     Start False (example_calls True), Stop (Some 0)] (new_world example_memory) = Some w \<and> w_live w = [1, 0] \<and>
     active_contexts w = Some [1, 0] \<and> exit_defined (\<lambda>h e d. False) w 1 \<and> exit_defined (\<lambda>h e d. False) w 0"
proof -
  obtain w where w: "world_run (\<lambda>h e d. False) Init [Start True (example_calls True), Start True (example_calls True),
     Start False (example_calls True), Stop (Some 0)] (new_world example_memory) = Some w" "w_live w = [1, 0]"
    using example_world by (auto simp: world_view_def map_option_eq_Some)
  have "monitor_starts (Start own (example_calls True))" for own
    by (simp add: monitor_starts_def example_calls_def linux_netlink_start_event_monitor_def set_fd_cloexec_nb_def Let_def)
  then show ?thesis using usb_contexts_listed [OF w(1)] w by (simp add: monitor_starts_def)
qed

section \<open>Both functions\<close>

text \<open>What a successful start leaves, but for the devices.\<close>

lemma backend_init_monitor:
  "backend_init f c st mon ctx = Some (0, st', mon', ctx') \<Longrightarrow> st_init_count st = 0 \<Longrightarrow>
   mon' = snd (linux_netlink_start_event_monitor (ic_monitor c) mon)"
  by (auto simp: backend_init_def op_init2_def op_init_def start_and_scan_def Let_def LIBUSB_ERROR_OTHER_def
      dest: check_flags_count split: init_function.splits option.splits if_splits prod.splits)

lemma init_success:
  assumes "libusb_init_with f True c w = Some (0, Some a, w')"
  shows "\<exists>w1 st mon s. add_context f w = Some (a, w1) \<and>
     w' = w1\<lparr>w_static := st, w_monitor := mon, w_ctx := (w_ctx w1)(a := s)\<rparr> \<and>
     st_init_count st = st_init_count (w_static w1) + 1 \<and>
     (st_init_count (w_static w1) = 0 \<longrightarrow> mon = snd (linux_netlink_start_event_monitor (ic_monitor c) (w_monitor w1)))"
proof -
  obtain b w1 where a: "add_context f w = Some (b, w1)" using assms by (auto simp: libusb_init_with_def split: option.splits)
  obtain r st mon s where i: "backend_init f c (w_static w1) (w_monitor w1) (w_ctx w1 b) = Some (r, st, mon, s)"
    using assms a by (auto simp: libusb_init_with_def split: option.splits)
  have r: "r = 0" "\<not> ic_io c < 0" "a = b"
      "w' = w1\<lparr>w_static := st, w_monitor := mon, w_ctx := (w_ctx w1)(b := s\<lparr>msgs_ready := True\<rparr>)\<rparr>"
    using assms a i by (auto simp: libusb_init_with_def Let_def split: if_splits option.splits)
  then show ?thesis using a backend_init_count [OF i] backend_init_monitor [of f c "w_static w1" "w_monitor w1"] i by fastforce
qed

text \<open>
  C18. \<open>libusb_init2\<close> and \<open>libusb_init\<close> have a static variable \<open>first_init\<close> each. When a context is started by the first and then one
  by the second, the list is set up again and the first context is lost from it, so that no device is announced to it any
  more; and when the first context ends, the second is lost as well, which still lives.
\<close>

theorem usb_mixed_init_loses:
  assumes "libusb_init2 uspfs_path True c (new_world memory) = Some (0, Some a, w1)" "libusb_init True c' w1 = Some (0, Some b, w2)"
  shows "w_live w2 = [b, a] \<and> active_contexts w2 = Some [b] \<and>
     (\<exists>w3. libusb_exit_context answers (Some a) w2 = Some w3 \<and> w_live w3 = [b] \<and> active_contexts w3 = Some [])"
proof -
  obtain x1 st1 mon1 s1 where 1: "add_context (Init2 uspfs_path) (new_world memory) = Some (a, x1)"
      "w1 = x1\<lparr>w_static := st1, w_monitor := mon1, w_ctx := (w_ctx x1)(a := s1)\<rparr>" "st_init_count st1 = st_init_count (w_static x1) + 1"
    using init_success assms(1) unfolding libusb_init2_def by blast
  obtain x2 st2 mon2 s2 where 2: "add_context Init w1 = Some (b, x2)"
      "w2 = x2\<lparr>w_static := st2, w_monitor := mon2, w_ctx := (w_ctx x2)(b := s2)\<rparr>" "st_init_count st2 = st_init_count (w_static x2) + 1"
    using init_success assms(2) unfolding libusb_init_def by blast
  have a: "a = 0" "w_live w1 = [0]" "w_default w1 = Some 0" "w_default_refcnt w1 = 1" "w_first_init w1" "w_next w1 = 1"
      "next_of (w_links w1) (Entry 0) = Some Head" "prev_of (w_links w1) (Entry 0) = Some Head" "st_init_count (w_static w1) = 1"
    using 1 by (auto simp: add_context_def new_world_def new_statics_def first_init_def clear_first_init_def list_init_def
        list_add_def Let_def)
  have b: "b = 1" "w_live w2 = [1, 0]" "w_default w2 = Some 0" "w_default_refcnt w2 = 1" "w_next w2 = 2"
      "next_of (w_links w2) (Entry 0) = Some Head" "prev_of (w_links w2) (Entry 0) = Some Head"
      "next_of (w_links w2) (Entry 1) = Some Head" "next_of (w_links w2) Head = Some (Entry 1)" "st_init_count (w_static w2) = 2"
    using 2 a by (auto simp: add_context_def first_init_def clear_first_init_def list_init_def list_add_def Let_def)
  have "active_contexts w2 = Some [1]" using b by (simp add: active_contexts_def visited.simps)
  moreover obtain l where l: "list_del (Entry 0) (w_links w2) = Some l" "next_of l Head = Some Head"
    using b by (auto simp: list_del_def Let_def)
  moreover obtain st mon where "op_exit (w_static w2) (w_monitor w2) = Some (st, mon)"
    using op_exit_count [of "w_static w2" "w_monitor w2"] b by auto
  ultimately show ?thesis using a b
    by (auto simp: libusb_exit_context_def destroy_context_def Let_def active_contexts_def visited.simps)
qed

text \<open>The observable part of the example: two contexts of which the list has one, and none in the end.\<close>

lemma example_mixed:
  "Option.bind (libusb_init2 (Some ''/dev/bus/usb'') True (example_calls True) (new_world example_memory))
     (\<lambda>(r1, a, w1). map_option (\<lambda>(r2, b, w2). (r1, a, r2, b, active_contexts w2)) (libusb_init True (example_calls True) w1)) =
   Some (0, Some 0, 0, Some 1, Some [1])"
  by code_simp

theorem usb_mixed_init_loses_witness:
  "\<exists>w1 w2 w3. libusb_init2 (Some ''/dev/bus/usb'') True (example_calls True) (new_world example_memory) = Some (0, Some 0, w1) \<and>
     libusb_init True (example_calls True) w1 = Some (0, Some 1, w2) \<and> active_contexts w2 = Some [1] \<and>
     libusb_exit_context (\<lambda>h e d. False) (Some 0) w2 = Some w3 \<and> w_live w3 = [1] \<and> active_contexts w3 = Some []"
proof -
  obtain w1 w2 where w: "libusb_init2 (Some ''/dev/bus/usb'') True (example_calls True) (new_world example_memory) = Some (0, Some 0, w1)"
      "libusb_init True (example_calls True) w1 = Some (0, Some 1, w2)"
    using example_mixed by (auto simp: bind_eq_Some_conv map_option_eq_Some)
  show ?thesis using usb_mixed_init_loses [OF w] w by auto
qed

section \<open>The monitor\<close>

text \<open>
  C19. When the socket for the messages of the kernel cannot be bound, \<open>libusb_init\<close> succeeds all the same, and the \<open>libusb_exit\<close> that
  follows joins a thread that was never created and closes the socket a second time.
\<close>

theorem usb_exit_joins_unstarted:
  assumes "libusb_init True c (new_world memory) = Some (0, Some a, w)" "mc_socket (ic_monitor c) = Inr fd" "fd \<ge> 0"
    "mc_fcntl (ic_monitor c) = (True, True)" "\<not> mc_bind (ic_monitor c)"
  shows "\<exists>w'. libusb_exit_context answers (Some a) w = Some w' \<and> mo_ub (w_monitor w') \<and> fd \<in> set (mo_stray (w_monitor w'))"
proof -
  obtain x st mon s where 1: "add_context Init (new_world memory) = Some (a, x)"
      "w = x\<lparr>w_static := st, w_monitor := mon, w_ctx := (w_ctx x)(a := s)\<rparr>" "st_init_count st = st_init_count (w_static x) + 1"
      "st_init_count (w_static x) = 0 \<longrightarrow> mon = snd (linux_netlink_start_event_monitor (ic_monitor c) (w_monitor x))"
    using init_success assms(1) unfolding libusb_init_def by blast
  have a: "a = 0" "w_live w = [0]" "w_default w = Some 0" "w_default_refcnt w = 1" "st_init_count (w_static w) = 1"
      "next_of (w_links w) (Entry 0) = Some Head" "prev_of (w_links w) (Entry 0) = Some Head"
      "w_monitor w = snd (linux_netlink_start_event_monitor (ic_monitor c) new_monitor)"
    using 1 by (auto simp: add_context_def new_world_def new_statics_def first_init_def clear_first_init_def list_init_def
        list_add_def Let_def)
  have m: "w_monitor w = new_monitor\<lparr>mo_socket := fd\<rparr>"
    unfolding a(8) using assms(2-5)
    by (simp add: linux_netlink_start_event_monitor_def set_fd_cloexec_nb_def close_fd_def new_monitor_def Let_def)
  obtain l where "list_del (Entry 0) (w_links w) = Some l" using a by (auto simp: list_del_def Let_def)
  then show ?thesis using a(1-5) m assms(3)
    by (auto simp: libusb_exit_context_def destroy_context_def op_exit_def linux_netlink_stop_event_monitor_def close_fd_def
        new_monitor_def Let_def)
qed

lemma example_unbound:
  "map_option (\<lambda>(r, a, w). (r, a)) (libusb_init True (example_calls False) (new_world example_memory)) = Some (0, Some 0)"
  by code_simp

theorem usb_exit_joins_unstarted_witness:
  "\<exists>w w'. libusb_init True (example_calls False) (new_world example_memory) = Some (0, Some 0, w) \<and>
     libusb_exit_context (\<lambda>h e d. False) (Some 0) w = Some w' \<and> mo_ub (w_monitor w') \<and> 40 \<in> set (mo_stray (w_monitor w'))"
proof -
  obtain w where w: "libusb_init True (example_calls False) (new_world example_memory) = Some (0, Some 0, w)"
    using example_unbound by (auto simp: map_option_eq_Some)
  show ?thesis using usb_exit_joins_unstarted [OF w, of 40] w by (auto simp: example_calls_def)
qed

end
