(* ===== verification/UsbNetlinkProps.thy ===== *)
theory UsbNetlinkProps
  imports UsbInit UsbDeviceRuns
begin

text \<open>
  That the messages of the kernel are understood, that reading them stays inside the buffer but for an empty path, and that the
  references are right after scans and messages.
\<close>

section \<open>Looking up\<close>

text \<open>A message: entries of the form key, equals sign and value, each with a terminator.\<close>

definition enc_message :: "string list \<Rightarrow> string" where
  "enc_message es = concat (map (\<lambda>e. e @ [NUL]) es)"

fun entry_value :: "string \<Rightarrow> string list \<Rightarrow> string option" where
  "entry_value key [] = None"
| "entry_value key (e # es) =
     (if take (length key + 1) e = key @ ''='' then Some (drop (length key + 1) e) else entry_value key es)"

definition entry_ok :: "string \<Rightarrow> bool" where
  "entry_ok e \<longleftrightarrow> e \<noteq> [] \<and> NUL \<notin> set e"

lemma strncmp_entry:
  "NUL \<notin> set key \<Longrightarrow> strncmp_equal (e @ NUL # rest) key = Some (take (length key) e = key)"
proof (induction e key rule: strncmp_equal.induct)
  case (2 k key)
  then show ?case by auto
qed auto

lemma c_str_entry: "NUL \<notin> set e \<Longrightarrow> c_str (pre @ e @ NUL # rest) (length pre) = Some e"
proof -
  assume "NUL \<notin> set e"
  then have "takeWhile (\<lambda>c. c \<noteq> NUL) (e @ NUL # rest) = e" by (induction e) auto
  then show ?thesis by (simp add: c_str_def Let_def)
qed

lemma take_Suc_key:
  "take (Suc (length key)) e = key @ [c] \<longleftrightarrow> take (length key) e = key \<and> length key < length e \<and> e ! length key = c"
  by (cases "length key < length e") (auto simp: take_Suc_conv_app_nth dest: arg_cong [where f = length])

lemma parse_entry:
  assumes "entry_ok e" "NUL \<notin> set key" "buffer = pre @ e @ NUL # rest" "length pre < len"
  shows "netlink_message_parse buffer len key (length pre) =
     (if take (length key + 1) e = key @ ''='' then Some (Some (length pre + length key + 1))
      else netlink_message_parse buffer len key (length pre + length e + 1))"
proof -
  have e: "e \<noteq> []" "hd e \<noteq> NUL" "NUL \<notin> set e" using assms(1) by (cases e; auto simp: entry_ok_def)+
  have b: "drop (length pre) buffer = e @ NUL # rest" "buffer ! length pre = hd e" "length pre < length buffer"
    using e assms(3) by (auto simp: nth_append hd_conv_nth)
  have c: "c_str buffer (length pre) = Some e" unfolding assms(3) by (rule c_str_entry [OF e(3)])
  have s: "strncmp_equal (drop (length pre) buffer) key = Some (take (length key) e = key)"
    unfolding b(1) by (rule strncmp_entry [OF assms(2)])
  have n: "length pre + length key < length buffer" "buffer ! (length pre + length key) = (e @ [NUL]) ! length key"
    if "take (length key) e = key"
  proof -
    have "length key \<le> length e" using that by (metis length_take min.cobounded1)
    then show "length pre + length key < length buffer" "buffer ! (length pre + length key) = (e @ [NUL]) ! length key"
      using assms(3) by (auto simp: nth_append)
  qed
  have x: "netlink_message_parse buffer len key (length pre) = (case
      if take (length key) e = key then Some (buffer ! (length pre + length key) = CHR ''='') else Some False of
        None \<Rightarrow> None
      | Some True \<Rightarrow> Some (Some (Suc (length pre + length key)))
      | Some False \<Rightarrow> netlink_message_parse buffer len key (Suc (length pre + length e)))"
    by (subst netlink_message_parse.simps) (use e(2) assms(4) b(2,3) c s n(1) in \<open>simp add: Let_def\<close>)
  have k: "take (length key + 1) e = key @ ''='' \<longleftrightarrow> take (length key) e = key \<and> (e @ [NUL]) ! length key = CHR ''=''"
    by (auto simp: take_Suc_key nth_append NUL_def nth_Cons' split: if_splits dest: arg_cong [where f = length])
  show ?thesis
  proof (cases "take (length key) e = key")
    case True
    then show ?thesis using x k n(2) by (cases "(e @ [NUL]) ! length key = CHR ''=''") simp_all
  next
    case False
    then show ?thesis using x k by simp
  qed
qed

lemma parse_entries:
  "list_all entry_ok es \<Longrightarrow> NUL \<notin> set key \<Longrightarrow> buffer = pre @ enc_message es @ pad \<Longrightarrow> len = length pre + length (enc_message es) \<Longrightarrow>
   case entry_value key es of None \<Rightarrow> netlink_message_parse buffer len key (length pre) = Some None
   | Some v \<Rightarrow> \<exists>pos us rest. netlink_message_parse buffer len key (length pre) = Some (Some pos) \<and> pos = length us \<and> length key < pos \<and>
       buffer = us @ v @ NUL # rest \<and> NUL \<notin> set v"
proof (induction es arbitrary: pre)
  case Nil
  then show ?case by (subst netlink_message_parse.simps) (simp add: enc_message_def)
next
  case (Cons e es)
  have b: "buffer = pre @ e @ NUL # (enc_message es @ pad)" "buffer = (pre @ e @ [NUL]) @ enc_message es @ pad"
    using Cons.prems by (simp_all add: enc_message_def)
  have l: "length pre < len" "len = length (pre @ e @ [NUL]) + length (enc_message es)"
    using Cons.prems by (simp_all add: enc_message_def)
  have e: "entry_ok e" using Cons.prems by simp
  note p = parse_entry [OF e Cons.prems(2) b(1) l(1)]
  show ?case
  proof (cases "take (length key + 1) e = key @ ''=''")
    case True
    then have "e = (key @ ''='') @ drop (length key + 1) e" by (metis append_take_drop_id)
    moreover from this have "NUL \<notin> set (drop (length key + 1) e)" using e by (metis Un_iff entry_ok_def set_append)
    ultimately have u: "buffer = (pre @ key @ ''='') @ drop (length key + 1) e @ NUL # (enc_message es @ pad)"
        "NUL \<notin> set (drop (length key + 1) e)" using b(1) by auto
    have "netlink_message_parse buffer len key (length pre) = Some (Some (length (pre @ key @ ''='')))"
      using p True by simp
    moreover have "length key < length (pre @ key @ ''='')" by simp
    ultimately have "\<exists>pos us rest. netlink_message_parse buffer len key (length pre) = Some (Some pos) \<and> pos = length us \<and>
       length key < pos \<and> buffer = us @ drop (length key + 1) e @ NUL # rest \<and> NUL \<notin> set (drop (length key + 1) e)"
      using u by blast
    moreover have "entry_value key (e # es) = Some (drop (length key + 1) e)" using True by simp
    ultimately show ?thesis by (simp only: option.case)
  next
    case False
    have "case entry_value key es of None \<Rightarrow> netlink_message_parse buffer len key (length (pre @ e @ [NUL])) = Some None
      | Some v \<Rightarrow> \<exists>pos us rest. netlink_message_parse buffer len key (length (pre @ e @ [NUL])) = Some (Some pos) \<and> pos = length us \<and>
          length key < pos \<and> buffer = us @ v @ NUL # rest \<and> NUL \<notin> set v"
      by (rule Cons.IH) (use Cons.prems b(2) l(2) in auto)
    moreover have "netlink_message_parse buffer len key (length pre) = netlink_message_parse buffer len key (length (pre @ e @ [NUL]))"
      using False p by simp
    moreover have "entry_value key (e # es) = entry_value key es" using False by simp
    ultimately show ?thesis by (simp only:)
  qed
qed

lemma message_values:
  assumes "list_all entry_ok es" "NUL \<notin> set key" "buffer = enc_message es @ pad" "len = length (enc_message es)"
  shows "case entry_value key es of None \<Rightarrow> message_value buffer len key = Some None
    | Some v \<Rightarrow> \<exists>us rest. message_value buffer len key = Some (Some (length us, v)) \<and> length key < length us \<and>
        buffer = us @ v @ NUL # rest \<and> NUL \<notin> set v"
  using parse_entries [OF assms(1,2), of buffer "[]" pad len] assms(3,4) c_str_entry
  by (fastforce simp: message_value_def split: option.splits)

section \<open>Numbers\<close>

lemma digit_char: "(d :: nat) < 10 \<Longrightarrow> of_char (char_of (48 + d) :: char) = 48 + d"
  by (simp add: of_char_of)

lemma digit_val_char: "(d :: nat) < 10 \<Longrightarrow> digit_val (char_of (48 + d)) = d"
  by (simp add: digit_val_def digit_char Let_def)

lemma digit_plain:
  assumes "(d :: nat) < 10"
  shows "\<not> is_space (char_of (48 + d))" "char_of (48 + d) \<noteq> CHR ''-''" "char_of (48 + d) \<noteq> CHR ''+''"
proof -
  have c: "char_of (48 + d) \<noteq> c" if "(of_char c :: nat) \<notin> {48..57}" for c :: char using that digit_char [OF assms] assms by auto
  show "char_of (48 + d) \<noteq> CHR ''-''" "char_of (48 + d) \<noteq> CHR ''+''" by (rule c, simp)+
  have "char_of (48 + d) \<noteq> CHR '' ''" by (rule c) simp
  then show "\<not> is_space (char_of (48 + d))" using assms by (simp add: is_space_def digit_char)
qed

lemma strtoul_dec3:
  assumes "n < 1000"
  shows "strtoul (dec3 n) = (n, False)"
proof -
  let ?d = "[n div 100, n div 10 mod 10, n mod 10]"
  have d: "list_all (\<lambda>d. d < 10) ?d" using assms by auto
  have s: "split_sign (dec3 n) = (False, dec3 n)" using digit_plain [of "n div 100"] d by (simp add: split_sign_def dec3_def)
  have "digits 10 (dec3 n) = dec3 n" using d by (simp add: digits_def dec3_def digit_val_char)
  moreover have "digits_val 10 (dec3 n) = (n div 100 * 10 + n div 10 mod 10) * 10 + n mod 10"
    using d by (simp add: digits_val_def dec3_def digit_val_char)
  moreover have "(n div 100 * 10 + n div 10 mod 10) * 10 + n mod 10 = n"
    using div_mult2_eq [of n 10 10] div_mult_mod_eq [of "n div 10" 10] div_mult_mod_eq [of n 10] by simp
  ultimately show ?thesis using assms s by (simp add: strtoul_def)
qed

section \<open>The path\<close>

text \<open>The last slash is found unless it is the first character.\<close>

lemma scan_slash_found:
  "CHR ''/'' \<notin> set name \<Longrightarrow> dir \<noteq> [] \<Longrightarrow> buffer = us @ dir @ CHR ''/'' # name @ rest \<Longrightarrow>
   scan_slash buffer (length us) (length us + length dir + length name) = Some (Some (length us + length dir + 1))"
proof (induction name arbitrary: rest rule: rev_induct)
  case Nil
  then show ?case by (subst scan_slash.simps) (auto simp: nth_append)
next
  case (snoc c name)
  have "scan_slash buffer (length us) (length us + length dir + length name) = Some (Some (length us + length dir + 1))"
    by (rule snoc.IH [of "c # rest"]) (use snoc.prems in auto)
  moreover have "buffer ! (length us + length dir + length (name @ [c])) = c"
    using snoc.prems(3) by (simp add: nth_append)
  ultimately show ?case using snoc.prems(1,2) by (subst scan_slash.simps) auto
qed

section \<open>Messages of the kernel\<close>

lemma value_found:
  assumes "list_all entry_ok es" "NUL \<notin> set key" "buffer = enc_message es @ pad" "entry_value key es = Some v"
  shows "\<exists>us rest. message_value buffer (length (enc_message es)) key = Some (Some (length us, v)) \<and>
     buffer = us @ v @ NUL # rest \<and> NUL \<notin> set v"
  using message_values [OF assms(1-3) refl] assms(4) by auto

lemma parse_devpath_found:
  assumes "list_all entry_ok es" "buffer = enc_message es @ pad" "entry_value ''DEVPATH'' es = Some (dir @ ''/'' @ name)"
    "dir \<noteq> []" "CHR ''/'' \<notin> set name"
  shows "parse_devpath buffer (length (enc_message es)) detached busnum devaddr =
     Some (Some \<lparr>ue_detached = detached, ue_sys_name = Some name, ue_busnum = of_nat busnum, ue_devaddr = of_nat devaddr\<rparr>)"
proof -
  obtain us rest where v: "message_value buffer (length (enc_message es)) ''DEVPATH'' = Some (Some (length us, dir @ ''/'' @ name))"
      "buffer = us @ (dir @ ''/'' @ name) @ NUL # rest" "NUL \<notin> set (dir @ ''/'' @ name)"
    using value_found [OF assms(1) _ assms(2,3)] by (auto simp: NUL_def)
  have "scan_slash buffer (length us) (length us + length dir + length name) = Some (Some (length us + length dir + 1))"
    by (rule scan_slash_found [OF assms(5,4), where rest = "NUL # rest"]) (simp add: v(2))
  moreover have "length us + length (dir @ ''/'' @ name) - 1 = length us + length dir + length name" by simp
  moreover have "buffer = (us @ dir @ ''/'') @ name @ NUL # rest" using v(2) by simp
  then have "c_str buffer (length us + length dir + 1) = Some name"
    using c_str_entry [of name "us @ dir @ ''/''" rest] v(3) by simp
  ultimately show ?thesis using v(1) by (simp add: parse_devpath_def add.assoc)
qed

lemma linux_netlink_parse_found:
  assumes "list_all entry_ok es" "buffer = enc_message es @ pad"
    "entry_value ''ACTION'' es = Some (if detached then ''remove'' else ''add'')" "entry_value ''SUBSYSTEM'' es = Some ''usb''"
    "entry_value ''BUSNUM'' es = Some (dec3 busnum)" "entry_value ''DEVNUM'' es = Some (dec3 devaddr)" "busnum < 256" "devaddr < 256"
    "entry_value ''DEVPATH'' es = Some (dir @ ''/'' @ name)" "dir \<noteq> []" "CHR ''/'' \<notin> set name"
  shows "linux_netlink_parse buffer (length (enc_message es)) =
     Some (Some \<lparr>ue_detached = detached, ue_sys_name = Some name, ue_busnum = of_nat busnum, ue_devaddr = of_nat devaddr\<rparr>)"
proof -
  have n: "NUL \<notin> set ''ACTION''" "NUL \<notin> set ''SUBSYSTEM''" "NUL \<notin> set ''BUSNUM''" "NUL \<notin> set ''DEVNUM''" by (simp_all add: NUL_def)
  note found = value_found [OF assms(1) _ assms(2)]
  obtain a b c d where "message_value buffer (length (enc_message es)) ''ACTION'' = Some (Some (a, if detached then ''remove'' else ''add''))"
      "message_value buffer (length (enc_message es)) ''SUBSYSTEM'' = Some (Some (b, ''usb''))"
      "message_value buffer (length (enc_message es)) ''BUSNUM'' = Some (Some (c, dec3 busnum))"
      "message_value buffer (length (enc_message es)) ''DEVNUM'' = Some (Some (d, dec3 devaddr))"
    using found [OF n(1) assms(3)] found [OF n(2) assms(4)] found [OF n(3) assms(5)] found [OF n(4) assms(6)] by blast
  then show ?thesis using parse_devpath_found [OF assms(1,2,9-11)] strtoul_dec3 [of busnum] strtoul_dec3 [of devaddr] assms(7,8)
    by (simp add: linux_netlink_parse_def)
qed

text \<open>
  C20. A message of the kernel that an USB device was added or removed, of up to 1024 bytes, with its entries in any order and among
  any others, is understood: every context is told of exactly the bus, the address and the name of the device.
\<close>

theorem usb_uevent_understood:
  assumes "list_all entry_ok es" "length (enc_message es) \<in> {32..1024}"
    "entry_value ''ACTION'' es = Some (if detached then ''remove'' else ''add'')" "entry_value ''SUBSYSTEM'' es = Some ''usb''"
    "entry_value ''BUSNUM'' es = Some (dec3 busnum)" "entry_value ''DEVNUM'' es = Some (dec3 devaddr)" "busnum < 256" "devaddr < 256"
    "entry_value ''DEVPATH'' es = Some (dir @ ''/'' @ name)" "dir \<noteq> []" "CHR ''/'' \<notin> set name"
  shows "linux_netlink_read_message env sys fuel (Some (enc_message es)) ctxs =
     (if detached then Some (0, map (linux_device_disconnected (of_nat busnum) (of_nat devaddr)) ctxs)
      else map_option (\<lambda>ctxs. (0, ctxs))
        (linux_hotplug_enumerate env sys fuel (of_nat busnum) (of_nat devaddr) (Some name) ctxs))"
proof -
  have "receive_buffer (Some (enc_message es)) =
      (enc_message es @ replicate (1024 - length (enc_message es)) NUL, length (enc_message es))"
    using assms(2) by (simp add: receive_buffer_def Let_def)
  then show ?thesis
    using linux_netlink_parse_found [OF assms(1) refl assms(3-11), of "replicate (1024 - length (enc_message es)) NUL"] assms(2)
    by (simp add: linux_netlink_read_message_def)
qed

definition example_message :: "string list" where
  "example_message = [''add@/devices/pci0000:00/usb1'', ''ACTION=add'', ''DEVPATH=/devices/pci0000:00/usb1'', ''SUBSYSTEM=usb'',
     ''DEVTYPE=usb_device'', ''BUSNUM=001'', ''DEVNUM=001'']"

text \<open>The hub of the example is added to a new context by the message.\<close>

theorem usb_uevent_understood_witness:
  "map_option (\<lambda>(r, ctxs). (r, map (\<lambda>s. map (\<lambda>d. (dv_session (dev_of s d), sysfs_dir (dv_linux (dev_of s d)))) (usb_devs s)) ctxs))
     (linux_netlink_read_message example_env example_sysfs 3 (Some (enc_message example_message)) [new_context example_memory]) =
   Some (0, [[(257, Some ''usb1'')]])"
proof -
  let ?es = example_message
  have l: "length (enc_message ?es) \<in> {32..1024}" by (simp add: enc_message_def example_message_def)
  have p: "list_all entry_ok ?es"
      "entry_value ''ACTION'' ?es = Some (if False then ''remove'' else ''add'')" "entry_value ''SUBSYSTEM'' ?es = Some ''usb''"
      "entry_value ''BUSNUM'' ?es = Some (dec3 1)" "entry_value ''DEVNUM'' ?es = Some (dec3 1)" "(1 :: nat) < 256" "(1 :: nat) < 256"
      "entry_value ''DEVPATH'' ?es = Some (''/devices/pci0000:00'' @ ''/'' @ ''usb1'')" "''/devices/pci0000:00'' \<noteq> []"
      "CHR ''/'' \<notin> set ''usb1''"
    by code_simp+
  have "linux_netlink_read_message example_env example_sysfs 3 (Some (enc_message example_message)) [new_context example_memory] =
      map_option (\<lambda>ctxs. (0, ctxs)) (linux_hotplug_enumerate example_env example_sysfs 3 (of_nat 1) (of_nat 1) (Some ''usb1'')
        [new_context example_memory])"
    using usb_uevent_understood [OF p(1) l p(2-), of example_env example_sysfs 3 "[new_context example_memory]"] by (simp only: if_False)
  moreover have "map_option (\<lambda>ctxs. map (\<lambda>s. map (\<lambda>d. (dv_session (dev_of s d), sysfs_dir (dv_linux (dev_of s d)))) (usb_devs s)) ctxs)
      (linux_hotplug_enumerate example_env example_sysfs 3 1 1 (Some ''usb1'') [new_context example_memory]) =
    Some [[(257, Some ''usb1'')]]"
    by code_simp
  ultimately show ?thesis by (auto simp: map_option_eq_Some)
qed

section \<open>Reads outside of the buffer\<close>

definition terminated :: "string \<Rightarrow> bool" where
  "terminated buffer \<longleftrightarrow> buffer \<noteq> [] \<and> last buffer = NUL"

lemma terminated_drop: "terminated buffer \<Longrightarrow> n < length buffer \<Longrightarrow> terminated (drop n buffer)"
  by (simp add: terminated_def last_drop)

lemma c_str_terminated: "terminated buffer \<Longrightarrow> n < length buffer \<Longrightarrow> \<exists>s. c_str buffer n = Some s"
  using terminated_drop [of buffer n] last_in_set [of "drop n buffer"] by (auto simp: c_str_def Let_def terminated_def)

lemma strncmp_terminated:
  "terminated s \<Longrightarrow> NUL \<notin> set key \<Longrightarrow> \<exists>b. strncmp_equal s key = Some b \<and> (b \<longrightarrow> length key < length s)"
  by (induction s key rule: strncmp_equal.induct) (auto simp: terminated_def split: if_splits)

lemma parse_terminated:
  "terminated buffer \<Longrightarrow> len \<le> length buffer \<Longrightarrow> NUL \<notin> set key \<Longrightarrow>
   \<exists>r. netlink_message_parse buffer len key offset = Some r \<and> (\<forall>pos. r = Some pos \<longrightarrow> length key < pos \<and> pos < length buffer)"
proof (induction buffer len key offset rule: netlink_message_parse.induct)
  case (1 buffer len key offset)
  show ?case
  proof (cases "offset \<ge> len \<or> buffer ! offset = NUL")
    case True
    then show ?thesis using "1.prems" by (subst netlink_message_parse.simps) auto
  next
    case False
    then have o: "offset < len" "offset < length buffer" "buffer ! offset \<noteq> NUL" using "1.prems" by auto
    obtain b where b: "strncmp_equal (drop offset buffer) key = Some b" "b \<longrightarrow> length key < length (drop offset buffer)"
      using strncmp_terminated [OF terminated_drop [OF "1.prems"(1) o(2)] "1.prems"(3)] by blast
    obtain s where s: "c_str buffer offset = Some s" using c_str_terminated [OF "1.prems"(1) o(2)] by blast
    define hit where "hit \<longleftrightarrow> b \<and> buffer ! (offset + length key) = CHR ''=''"
    have r: "netlink_message_parse buffer len key offset = (if hit then Some (Some (offset + length key + 1))
        else netlink_message_parse buffer len key (offset + length s + 1))"
      by (subst netlink_message_parse.simps) (use o b s in \<open>cases b; auto simp: hit_def\<close>)
    show ?thesis
    proof (cases hit)
      case True
      then have "offset + length key < length buffer" "buffer ! (offset + length key) \<noteq> last buffer"
        using b(2) "1.prems"(1) by (auto simp: hit_def terminated_def NUL_def)
      then have "offset + length key + 1 < length buffer"
        using "1.prems"(1) by (cases "offset + length key = length buffer - 1") (auto simp: terminated_def last_conv_nth)
      then show ?thesis using r True by auto
    next
      case False
      have h: "(case strncmp_equal (drop offset buffer) key of None \<Rightarrow> None | Some True \<Rightarrow>
            if offset + length key < length buffer then Some (buffer ! (offset + length key) = CHR ''='') else None
          | Some False \<Rightarrow> Some False) = Some False"
        using b o False by (cases b) (auto simp: hit_def)
      have "\<exists>r. netlink_message_parse buffer len key (offset + length s + 1) = Some r \<and>
          (\<forall>pos. r = Some pos \<longrightarrow> length key < pos \<and> pos < length buffer)"
        by (rule "1.IH" [OF _ _ _ refl h refl s]) (use o "1.prems" in auto)
      then show ?thesis using r False by simp
    qed
  qed
qed

lemma value_terminated:
  assumes "terminated buffer" "len \<le> length buffer" "NUL \<notin> set key"
  shows "\<exists>r. message_value buffer len key = Some r \<and>
     (\<forall>tmp s. r = Some (tmp, s) \<longrightarrow> length key < tmp \<and> tmp < length buffer \<and> c_str buffer tmp = Some s)"
  using parse_terminated [OF assms, of 0] c_str_terminated [OF assms(1)]
  by (fastforce simp: message_value_def split: option.splits)

lemma takeWhile_shorter: "x \<in> set l \<Longrightarrow> \<not> P x \<Longrightarrow> length (takeWhile P l) < length l"
  by (induction l) auto

lemma c_str_within: "c_str buffer n = Some s \<Longrightarrow> n + length s < length buffer"
proof -
  assume "c_str buffer n = Some s"
  then have s: "NUL \<in> set (drop n buffer)" "s = takeWhile (\<lambda>c. c \<noteq> NUL) (drop n buffer)"
    by (auto simp: c_str_def Let_def split: if_splits)
  then have "length s < length (drop n buffer)" using takeWhile_shorter by force
  then show ?thesis by simp
qed

lemma scan_slash_total: "start \<le> p \<Longrightarrow> scan_slash buffer start p \<noteq> None"
  by (induction p) (subst scan_slash.simps; auto)+

lemma parse_device_within:
  assumes "terminated buffer" "len \<le> length buffer"
  shows "parse_device buffer len detached \<noteq> None"
proof -
  have n: "NUL \<notin> set ''DEVICE''" by (simp add: NUL_def)
  obtain r where r: "message_value buffer len ''DEVICE'' = Some r"
      "\<And>tmp s. r = Some (tmp, s) \<Longrightarrow> length ''DEVICE'' < tmp \<and> tmp < length buffer \<and> c_str buffer tmp = Some s"
    using value_terminated [OF assms n] by blast
  show ?thesis
  proof (cases r)
    case None
    then show ?thesis using r by (simp add: parse_device_def)
  next
    case (Some x)
    obtain tmp s where x: "x = (tmp, s)" by fastforce
    have t: "6 < tmp" "tmp + length s < length buffer" using r(2) [of tmp s] Some x c_str_within by auto
    show ?thesis
    proof (cases "strrchr_split CHR ''/'' s")
      case None
      then show ?thesis using r Some x by (simp add: parse_device_def)
    next
      case (Some y)
      obtain before after where y: "y = (before, after)" by fastforce
      have "length before \<le> length (dropWhile (\<lambda>x. x \<noteq> CHR ''/'') (rev s))"
        using Some y by (auto simp: strrchr_split_def split: list.splits)
      then have "length before \<le> length s" using length_dropWhile_le [of "\<lambda>x. x \<noteq> CHR ''/''" "rev s"] by simp
      then have "tmp + length before - 3 < length buffer" "\<not> tmp + length before < 3" using t by linarith+
      moreover from this obtain u where "c_str buffer (tmp + length before - 3) = Some u" using c_str_terminated [OF assms(1)] by blast
      ultimately show ?thesis using r(1) \<open>r = Some x\<close> x Some y by (simp add: parse_device_def Let_def split: prod.splits)
    qed
  qed
qed

text \<open>
  No message makes the parser read outside of its buffer, when there is a terminator at the end (so that it was shorter than the
  buffer) and the path is not empty.
\<close>

lemma netlink_parse_within:
  assumes "terminated buffer" "len \<le> length buffer" "\<And>tmp. message_value buffer len ''DEVPATH'' \<noteq> Some (Some (tmp, []))"
  shows "linux_netlink_parse buffer len \<noteq> None"
proof -
  have n: "NUL \<notin> set ''ACTION''" "NUL \<notin> set ''SUBSYSTEM''" "NUL \<notin> set ''BUSNUM''" "NUL \<notin> set ''DEVNUM''" "NUL \<notin> set ''DEVPATH''"
    by (simp_all add: NUL_def)
  have v: "message_value buffer len key \<noteq> None" if "NUL \<notin> set key" for key using value_terminated [OF assms(1,2) that] by auto
  have p: "parse_devpath buffer len detached busnum devaddr \<noteq> None" for detached busnum devaddr
  proof (cases "message_value buffer len ''DEVPATH''")
    case None
    then show ?thesis using v [OF n(5)] by simp
  next
    case (Some r)
    show ?thesis
    proof (cases r)
      case (Some x)
      obtain tmp s where x: "x = (tmp, s)" by fastforce
      have "s \<noteq> []" using assms(3) [of tmp] \<open>message_value buffer len ''DEVPATH'' = Some r\<close> Some x by auto
      then have "tmp \<le> tmp + length s - 1" "tmp + length s \<noteq> 0" by (cases s; simp)+
      moreover from this obtain pos where "scan_slash buffer tmp (tmp + length s - 1) = Some pos" using scan_slash_total by blast
      ultimately show ?thesis using \<open>message_value buffer len ''DEVPATH'' = Some r\<close> Some x
        by (simp add: parse_devpath_def)
    qed (use Some in \<open>simp add: parse_devpath_def\<close>)
  qed
  show ?thesis using v [OF n(1)] v [OF n(2)] v [OF n(3)] v [OF n(4)] p parse_device_within [OF assms(1,2)]
    by (auto simp: linux_netlink_parse_def Let_def split: option.splits prod.splits)
qed

text \<open>Without a terminator, and with an empty path that nothing before it stops, it does.\<close>

lemma unterminated_overruns: "linux_netlink_parse (fst (receive_buffer (Some (replicate 1024 CHR ''A'')))) 1024 = None"
proof -
  have "receive_buffer (Some (replicate 1024 CHR ''A'')) = (replicate 1024 CHR ''A'', 1024)" by (simp add: receive_buffer_def Let_def)
  moreover have "netlink_message_parse (replicate 1024 CHR ''A'') 1024 ''ACTION'' 0 = None"
    by (subst netlink_message_parse.simps)
      (simp add: NUL_def c_str_def numeral_eq_Suc)
  ultimately show ?thesis by (simp add: linux_netlink_parse_def message_value_def)
qed

lemma empty_path_overruns:
  "linux_netlink_parse (enc_message [''ACTION=add'', ''SUBSYSTEM=usb'', ''BUSNUM=001'', ''DEVNUM=002'', ''DEVPATH='']) 64 = None"
  by code_simp

section \<open>References after scans and messages\<close>

lemma lib_inv_scan: "lib_inv True extra s \<Longrightarrow> sysfs_scan_device env sys n name s = Some (r, s') \<Longrightarrow> lib_inv True extra s'"
  using enumeration_kept [of env sys True n] unfolding scan_kept_def by blast

lemma lib_inv_scan_names:
  "lib_inv True extra s \<Longrightarrow> scan_names env sys n names r s = Some (r', s') \<Longrightarrow> lib_inv True extra s'"
  by (induction names arbitrary: r s) (auto split: if_splits option.splits dest: lib_inv_scan)

lemma lib_inv_usbfs:
  "lib_inv False extra s \<Longrightarrow> linux_enumerate_device env sys n busnum devaddr None s = Some (r, s') \<Longrightarrow> lib_inv False extra s'"
  by (erule lib_inv_enumerate) simp_all

lemma lib_inv_scan_addresses:
  "lib_inv False extra s \<Longrightarrow> scan_addresses env sys n busnum names r s = Some (r', s') \<Longrightarrow> lib_inv False extra s'"
  by (induction names arbitrary: r s) (auto simp: Let_def split: if_splits option.splits dest: lib_inv_usbfs)

lemma lib_inv_scan_usbdevs:
  "lib_inv False extra s \<Longrightarrow> scan_usbdevs env sys n names r s = Some (r', s') \<Longrightarrow> lib_inv False extra s'"
  by (induction names arbitrary: r s) (auto split: if_splits option.splits, meson lib_inv_usbfs)

lemma lib_inv_scan_buses:
  "lib_inv False extra s \<Longrightarrow> scan_buses env sys n dirs usbfs names r s = Some (r', s') \<Longrightarrow> lib_inv False extra s'"
  by (induction names arbitrary: r s)
    (auto simp: Let_def usbfs_scan_busdir_def split: if_splits option.splits dest: lib_inv_scan_addresses)

lemma lib_inv_default_scan:
  assumes "lib_inv (sysfs_can_relate_devices env) extra s" "linux_default_scan_devices env sys n dirs usbfs usbdev s = Some (r, s')"
  shows "lib_inv (sysfs_can_relate_devices env) extra s'"
proof (cases "sysfs_can_relate_devices env")
  case True
  then show ?thesis using assms
    by (auto simp: linux_default_scan_devices_def sysfs_get_device_list_def split: option.splits dest: lib_inv_scan_names)
next
  case False
  then show ?thesis using assms
    by (auto simp: linux_default_scan_devices_def usbfs_get_device_list_def split: option.splits if_splits
        dest: lib_inv_scan_usbdevs lib_inv_scan_buses)
qed

lemma lib_inv_start_and_scan:
  "lib_inv (st_can_relate st \<noteq> 0) extra s \<Longrightarrow> start_and_scan c st mon s = Some (r, st', mon', s') \<Longrightarrow>
   lib_inv (st_can_relate st' \<noteq> 0) extra s'"
  using lib_inv_default_scan [of "env_of st" extra s "ic_sys c" "ic_fuel c" "ic_dirs c" "the (st_usbfs_path st)" "st_usbdev_names st"]
  by (auto simp: start_and_scan_def env_of_def Let_def split: option.splits if_splits)

text \<open>The references are right in a context that was just started.\<close>

lemma init_counted:
  "op_init c st mon (new_context memory) = Some (r, st', mon', s') \<Longrightarrow> counted_refs [] s'"
  by (auto simp: op_init_def split: option.splits if_splits prod.splits
      intro: lib_inv_counted lib_inv_new lib_inv_start_and_scan [OF lib_inv_new])

end
