(* ===== verification/UsbEvents.thy ===== *)
theory UsbEvents
  imports UsbInit
begin

text \<open>
  How threads share the handling of events of a context (\<open>libusb/io.c\<close>, \<open>libusb_close\<close> of \<open>core.c\<close>): the lock for events, the lock
  and condition for those that wait, and the event pipe. What happens under \<open>event_data_lock\<close> is one step. Of the lists of
  messages and completed transfers only the length is kept, of the pipe the number of bytes.
\<close>

section \<open>State\<close>

text \<open>
  Where a thread is in \<open>libusb_handle_events_timeout_completed\<close> or in \<open>libusb_close\<close>. The flag is \<open>special_event\<close>; \<open>H_complete\<close> has the
  result of the last completion as well. From \<open>W_active\<close> to \<open>W_wait\<close> it holds the lock of the
  waiters.
\<close>

datatype pc =
    Idle
  | H_try | H_trylock | H_active | H_completed | H_fds | H_poll | H_event | H_complete bool bool | H_backend bool | H_unlock | H_release | H_broadcast
  | W_lock | W_active | W_flag | W_wait | W_sleep | W_awake
  | C_lock int | C_active int | C_relock int | C_reactive int | C_unlock_inner int | C_release_inner int | C_broadcast_inner int
  | C_remove int | C_end | C_unlock | C_release | C_broadcast

text \<open>\<open>ev_holder\<close> is the thread that holds the events lock and how often; \<open>ev_stuck\<close>: a thread reads from the empty pipe.\<close>

record ev_state =
  ev_pc :: "nat \<Rightarrow> pc"
  ev_holder :: "(nat \<times> nat) option"
  ev_waiters_lock :: "nat option"
  ev_active :: bool
  device_close :: nat
  pollfds_modified :: bool
  hotplug_messages :: nat
  completed_transfers :: nat
  event_pipe :: nat
  ipollfds :: "int list"
  pollfds :: "int list"
  ev_stuck :: bool

section \<open>The event pipe\<close>

definition usbi_pending_events :: "ev_state \<Rightarrow> bool" where
  "usbi_pending_events s \<longleftrightarrow> device_close s > 0 \<or> pollfds_modified s \<or> hotplug_messages s > 0 \<or> completed_transfers s > 0"

definition usbi_signal_event :: "ev_state \<Rightarrow> ev_state" where
  "usbi_signal_event s = s\<lparr>event_pipe := event_pipe s + 1\<rparr>"

text \<open>The reading end blocks.\<close>

definition usbi_clear_event :: "ev_state \<Rightarrow> ev_state" where
  "usbi_clear_event s = (if event_pipe s = 0 then s\<lparr>ev_stuck := True\<rparr> else s\<lparr>event_pipe := event_pipe s - 1\<rparr>)"

definition signal_unless :: "bool \<Rightarrow> ev_state \<Rightarrow> ev_state" where
  "signal_unless pending s = (if pending then s else usbi_signal_event s)"

definition clear_unless_pending :: "ev_state \<Rightarrow> ev_state" where
  "clear_unless_pending s = (if usbi_pending_events s then s else usbi_clear_event s)"

definition notify_message :: "ev_state \<Rightarrow> ev_state" where
  "notify_message s = signal_unless (usbi_pending_events s) (s\<lparr>hotplug_messages := hotplug_messages s + 1\<rparr>)"

definition usbi_signal_transfer_completion :: "ev_state \<Rightarrow> ev_state" where
  "usbi_signal_transfer_completion s = signal_unless (usbi_pending_events s) (s\<lparr>completed_transfers := completed_transfers s + 1\<rparr>)"

definition usbi_fd_notification :: "ev_state \<Rightarrow> ev_state" where
  "usbi_fd_notification s = signal_unless (usbi_pending_events s) (s\<lparr>pollfds_modified := True\<rparr>)"

definition usbi_add_pollfd :: "int \<Rightarrow> ev_state \<Rightarrow> ev_state" where
  "usbi_add_pollfd fd s = usbi_fd_notification (s\<lparr>ipollfds := ipollfds s @ [fd]\<rparr>)"

definition usbi_remove_pollfd :: "int \<Rightarrow> ev_state \<Rightarrow> ev_state" where
  "usbi_remove_pollfd fd s =
     (if fd \<notin> set (ipollfds s) then s else usbi_fd_notification (s\<lparr>ipollfds := remove1 fd (ipollfds s)\<rparr>))"

section \<open>Steps under the lock of the event data\<close>

definition close_begins :: "ev_state \<Rightarrow> ev_state" where
  "close_begins s = signal_unless (usbi_pending_events s) (s\<lparr>device_close := device_close s + 1\<rparr>)"

definition close_ends :: "ev_state \<Rightarrow> ev_state" where
  "close_ends s = clear_unless_pending (s\<lparr>device_close := device_close s - 1\<rparr>)"

definition update_pollfds :: "ev_state \<Rightarrow> ev_state" where
  "update_pollfds s =
     (if pollfds_modified s then clear_unless_pending (s\<lparr>pollfds := ipollfds s, pollfds_modified := False\<rparr>) else s)"

text \<open>The message is taken off its list and processed later; the flag is whether there was one.\<close>

definition take_message :: "ev_state \<Rightarrow> bool \<times> ev_state" where
  "take_message s = (hotplug_messages s > 0, s\<lparr>hotplug_messages := hotplug_messages s - 1\<rparr>)"

section \<open>Threads\<close>

abbreviation goto :: "nat \<Rightarrow> pc \<Rightarrow> ev_state \<Rightarrow> ev_state" where
  "goto t p s \<equiv> s\<lparr>ev_pc := (ev_pc s)(t := p)\<rparr>"

text \<open>\<open>pthread_cond_broadcast\<close>: those who sleep have to take the lock again.\<close>

definition wake_all :: "ev_state \<Rightarrow> ev_state" where
  "wake_all s = s\<lparr>ev_pc := (\<lambda>t. if ev_pc s t = W_sleep then W_awake else ev_pc s t)\<rparr>"

text \<open>
  The steps of the threads, and of others that add messages, completions and descriptors. Where the outcome depends on a flag of
  the client, the descriptors or the time, there is a rule for each.
\<close>

inductive ev_step :: "ev_state \<Rightarrow> ev_state \<Rightarrow> bool" where
  message: "ev_step s (notify_message s)"
| completion: "ev_step s (usbi_signal_transfer_completion s)"
| add_fd: "ev_step s (usbi_add_pollfd fd s)"
  \<comment> \<open>\<open>libusb_try_lock_events\<close>\<close>
| call: "ev_pc s t = Idle \<Longrightarrow> ev_step s (goto t H_try s)"
| try_closing: "ev_pc s t = H_try \<Longrightarrow> device_close s > 0 \<Longrightarrow> ev_step s (goto t W_lock s)"
| try_free: "ev_pc s t = H_try \<Longrightarrow> device_close s = 0 \<Longrightarrow> ev_step s (goto t H_trylock s)"
| trylock_fails: "ev_pc s t = H_trylock \<Longrightarrow> ev_holder s \<noteq> None \<Longrightarrow> ev_step s (goto t W_lock s)"
| trylock: "ev_pc s t = H_trylock \<Longrightarrow> ev_holder s = None \<Longrightarrow> ev_step s (goto t H_active (s\<lparr>ev_holder := Some (t, 1)\<rparr>))"
| active: "ev_pc s t = H_active \<Longrightarrow> ev_step s (goto t H_completed (s\<lparr>ev_active := True\<rparr>))"
| completed_set: "ev_pc s t = H_completed \<Longrightarrow> ev_step s (goto t H_unlock s)"
| completed_unset: "ev_pc s t = H_completed \<Longrightarrow> ev_step s (goto t H_fds s)"
  \<comment> \<open>\<open>handle_events\<close>\<close>
| fds: "ev_pc s t = H_fds \<Longrightarrow> ev_step s (goto t H_poll (update_pollfds s))"
| poll_ends: "ev_pc s t = H_poll \<Longrightarrow> ev_step s (goto t H_unlock s)"
| poll_pipe: "ev_pc s t = H_poll \<Longrightarrow> event_pipe s > 0 \<Longrightarrow> ev_step s (goto t H_event s)"
| poll_other: "ev_pc s t = H_poll \<Longrightarrow> ev_step s (goto t (H_backend False) s)"
| event_completes: "ev_pc s t = H_event \<Longrightarrow> take_message s = (special, s') \<Longrightarrow> completed_transfers s' > 0 \<Longrightarrow>
    ev_step s (goto t (H_complete special ok) (s'\<lparr>completed_transfers := completed_transfers s' - 1\<rparr>))"
| event_handled: "ev_pc s t = H_event \<Longrightarrow> take_message s = (special, s') \<Longrightarrow> completed_transfers s' = 0 \<Longrightarrow>
    ev_step s (goto t (if special then H_poll else H_unlock) (clear_unless_pending s'))"
| event_more: "ev_pc s t = H_event \<Longrightarrow> take_message s = (special, s') \<Longrightarrow> completed_transfers s' = 0 \<Longrightarrow>
    ev_step s (goto t (H_backend special) (clear_unless_pending s'))"
| complete: "ev_pc s t = H_complete special True \<Longrightarrow> completed_transfers s > 0 \<Longrightarrow>
    ev_step s (goto t (H_complete special ok) (s\<lparr>completed_transfers := completed_transfers s - 1\<rparr>))"
| complete_error: "ev_pc s t = H_complete special False \<Longrightarrow> ev_step s (goto t H_unlock (clear_unless_pending s))"
| complete_handled: "ev_pc s t = H_complete special True \<Longrightarrow> completed_transfers s = 0 \<Longrightarrow>
    ev_step s (goto t (if special then H_poll else H_unlock) (clear_unless_pending s))"
| complete_more: "ev_pc s t = H_complete special True \<Longrightarrow> completed_transfers s = 0 \<Longrightarrow>
    ev_step s (goto t (H_backend special) (clear_unless_pending s))"
| backend: "ev_pc s t = H_backend special \<Longrightarrow> ev_step s (goto t (if special then H_poll else H_unlock) s)"
| backend_error: "ev_pc s t = H_backend special \<Longrightarrow> ev_step s (goto t H_unlock s)"
  \<comment> \<open>\<open>libusb_unlock_events\<close>\<close>
| unlock: "ev_pc s t = H_unlock \<Longrightarrow> ev_step s (goto t H_release (s\<lparr>ev_active := False\<rparr>))"
| release: "ev_pc s t = H_release \<Longrightarrow> ev_step s (goto t H_broadcast (s\<lparr>ev_holder := None\<rparr>))"
| broadcast: "ev_pc s t = H_broadcast \<Longrightarrow> ev_waiters_lock s = None \<Longrightarrow> ev_step s (goto t Idle (wake_all s))"
  \<comment> \<open>waiting for another thread\<close>
| wait_lock: "ev_pc s t = W_lock \<Longrightarrow> ev_waiters_lock s = None \<Longrightarrow> ev_step s (goto t W_active (s\<lparr>ev_waiters_lock := Some t\<rparr>))"
| wait_done: "ev_pc s t = W_active \<Longrightarrow> ev_step s (goto t Idle (s\<lparr>ev_waiters_lock := None\<rparr>))"
| wait_closing: "ev_pc s t = W_active \<Longrightarrow> device_close s > 0 \<Longrightarrow> ev_step s (goto t W_wait s)"
| wait_flag: "ev_pc s t = W_active \<Longrightarrow> device_close s = 0 \<Longrightarrow> ev_step s (goto t W_flag s)"
| wait_active: "ev_pc s t = W_flag \<Longrightarrow> ev_active s \<Longrightarrow> ev_step s (goto t W_wait s)"
| wait_retry: "ev_pc s t = W_flag \<Longrightarrow> \<not> ev_active s \<Longrightarrow> ev_step s (goto t H_try (s\<lparr>ev_waiters_lock := None\<rparr>))"
| wait_sleep: "ev_pc s t = W_wait \<Longrightarrow> ev_step s (goto t W_sleep (s\<lparr>ev_waiters_lock := None\<rparr>))"
| wait_timeout: "ev_pc s t = W_sleep \<Longrightarrow> ev_step s (goto t W_awake s)"
| wait_end: "ev_pc s t = W_awake \<Longrightarrow> ev_waiters_lock s = None \<Longrightarrow> ev_step s (goto t Idle s)"
  \<comment> \<open>\<open>libusb_close\<close>, with \<open>do_close\<close> that takes the recursive lock again\<close>
| close: "ev_pc s t = Idle \<Longrightarrow> ev_step s (goto t (C_lock fd) (close_begins s))"
| close_lock: "ev_pc s t = C_lock fd \<Longrightarrow> ev_holder s = None \<Longrightarrow> ev_step s (goto t (C_active fd) (s\<lparr>ev_holder := Some (t, 1)\<rparr>))"
| close_active: "ev_pc s t = C_active fd \<Longrightarrow> ev_step s (goto t (C_relock fd) (s\<lparr>ev_active := True\<rparr>))"
| close_relock: "ev_pc s t = C_relock fd \<Longrightarrow> ev_holder s = Some (t, n) \<Longrightarrow>
    ev_step s (goto t (C_reactive fd) (s\<lparr>ev_holder := Some (t, n + 1)\<rparr>))"
| close_reactive: "ev_pc s t = C_reactive fd \<Longrightarrow> ev_step s (goto t (C_unlock_inner fd) (s\<lparr>ev_active := True\<rparr>))"
| close_unlock_inner: "ev_pc s t = C_unlock_inner fd \<Longrightarrow> ev_step s (goto t (C_release_inner fd) (s\<lparr>ev_active := False\<rparr>))"
| close_release_inner: "ev_pc s t = C_release_inner fd \<Longrightarrow> ev_holder s = Some (t, n) \<Longrightarrow>
    ev_step s (goto t (C_broadcast_inner fd) (s\<lparr>ev_holder := (if n = 1 then None else Some (t, n - 1))\<rparr>))"
| close_broadcast_inner: "ev_pc s t = C_broadcast_inner fd \<Longrightarrow> ev_waiters_lock s = None \<Longrightarrow>
    ev_step s (goto t (C_remove fd) (wake_all s))"
| close_remove: "ev_pc s t = C_remove fd \<Longrightarrow> ev_step s (goto t C_end (usbi_remove_pollfd fd s))"
| close_end: "ev_pc s t = C_end \<Longrightarrow> ev_step s (goto t C_unlock (close_ends s))"
| close_unlock: "ev_pc s t = C_unlock \<Longrightarrow> ev_step s (goto t C_release (s\<lparr>ev_active := False\<rparr>))"
| close_release: "ev_pc s t = C_release \<Longrightarrow> ev_step s (goto t C_broadcast (s\<lparr>ev_holder := None\<rparr>))"
| close_broadcast: "ev_pc s t = C_broadcast \<Longrightarrow> ev_waiters_lock s = None \<Longrightarrow> ev_step s (goto t Idle (wake_all s))"

section \<open>Start\<close>

text \<open>
  The parts of \<open>usbi_io_init\<close> that matter: the lists are set up, the pipe is made, and its reading end is added. \<open>early\<close> is the number
  of messages of another thread between the first and the second; their signal goes to a descriptor that is not the pipe.
\<close>

definition usbi_io_init :: "int \<Rightarrow> nat \<Rightarrow> ev_state" where
  "usbi_io_init fd early =
     (let s = \<lparr>ev_pc = (\<lambda>_. Idle), ev_holder = None, ev_waiters_lock = None, ev_active = False, device_close = 0,
          pollfds_modified = False, hotplug_messages = 0, completed_transfers = 0, event_pipe = 0, ipollfds = [], pollfds = [],
          ev_stuck = False\<rparr>;
          s = (notify_message ^^ early) s; s = s\<lparr>event_pipe := 0\<rparr> in
      usbi_add_pollfd fd s)"

end
