(* ===== verification/UsbEventProps.thy ===== *)
theory UsbEventProps
  imports UsbEvents
begin

text \<open>
  What holds in every interleaving of threads that handle events and close devices: who has the lock, that pending events keep the
  pipe readable and nobody reads it when it is empty, and that a thread that waits is woken.
\<close>

section \<open>Regions\<close>

text \<open>How often a thread has the events lock.\<close>

fun depth :: "pc \<Rightarrow> nat" where
  "depth (C_reactive _) = 2" | "depth (C_unlock_inner _) = 2" | "depth (C_release_inner _) = 2"
| "depth H_active = 1" | "depth H_completed = 1" | "depth H_fds = 1" | "depth H_poll = 1" | "depth H_event = 1"
| "depth (H_complete _ _) = 1" | "depth (H_backend _) = 1" | "depth H_unlock = 1" | "depth H_release = 1"
| "depth (C_active _) = 1" | "depth (C_relock _) = 1" | "depth (C_broadcast_inner _) = 1" | "depth (C_remove _) = 1"
| "depth C_end = 1" | "depth C_unlock = 1" | "depth C_release = 1"
| "depth _ = 0"

text \<open>Between the two changes of \<open>device_close\<close>.\<close>

fun closing :: "pc \<Rightarrow> bool" where
  "closing (C_lock _) = True" | "closing (C_active _) = True" | "closing (C_relock _) = True" | "closing (C_reactive _) = True"
| "closing (C_unlock_inner _) = True" | "closing (C_release_inner _) = True" | "closing (C_broadcast_inner _) = True"
| "closing (C_remove _) = True" | "closing C_end = True" | "closing _ = False"

text \<open>A thread that wakes the others before it ends.\<close>

definition will_broadcast :: "pc \<Rightarrow> bool" where
  "will_broadcast p \<longleftrightarrow> depth p > 0 \<or> closing p \<or> p = H_broadcast \<or> p = C_broadcast"

definition reads_pipe :: "pc \<Rightarrow> bool" where
  "reads_pipe p \<longleftrightarrow> p = H_event \<or> (\<exists>special ok. p = H_complete special ok)"

definition has_waiters_lock :: "pc \<Rightarrow> bool" where
  "has_waiters_lock p \<longleftrightarrow> p \<in> {W_active, W_flag, W_wait}"

section \<open>Invariants\<close>

definition lock_ok :: "ev_state \<Rightarrow> bool" where
  "lock_ok s \<longleftrightarrow> (\<forall>t. depth (ev_pc s t) = (case ev_holder s of Some (u, n) \<Rightarrow> if t = u then n else 0 | None \<Rightarrow> 0)) \<and>
     (\<forall>u n. ev_holder s = Some (u, n) \<longrightarrow> n > 0)"

definition active_ok :: "ev_state \<Rightarrow> bool" where
  "active_ok s \<longleftrightarrow> (ev_active s \<longrightarrow> ev_holder s \<noteq> None) \<and> (\<forall>t. ev_pc s t \<in> {H_release, C_release} \<longrightarrow> \<not> ev_active s)"

definition closing_ok :: "ev_state \<Rightarrow> bool" where
  "closing_ok s \<longleftrightarrow> finite {t. closing (ev_pc s t)} \<and> card {t. closing (ev_pc s t)} = device_close s"

definition waiters_lock_ok :: "ev_state \<Rightarrow> bool" where
  "waiters_lock_ok s \<longleftrightarrow> (\<forall>t. has_waiters_lock (ev_pc s t) \<longleftrightarrow> ev_waiters_lock s = Some t)"

definition pipe_ok :: "ev_state \<Rightarrow> bool" where
  "pipe_ok s \<longleftrightarrow> (usbi_pending_events s \<or> (\<exists>t. reads_pipe (ev_pc s t)) \<longrightarrow> event_pipe s > 0) \<and> \<not> ev_stuck s"

definition sleep_ok :: "ev_state \<Rightarrow> bool" where
  "sleep_ok s \<longleftrightarrow> (\<forall>t. ev_pc s t \<in> {W_wait, W_sleep} \<longrightarrow> (\<exists>u. will_broadcast (ev_pc s u)))"

text \<open>What the functions on the state leave alone.\<close>

lemmas ev_functions = notify_message_def usbi_signal_transfer_completion_def usbi_add_pollfd_def usbi_remove_pollfd_def
  usbi_fd_notification_def close_begins_def close_ends_def update_pollfds_def take_message_def signal_unless_def
  clear_unless_pending_def usbi_signal_event_def usbi_clear_event_def wake_all_def

lemma lock_same:
  "lock_ok s \<Longrightarrow> ev_holder s' = ev_holder s \<Longrightarrow> (\<And>u. depth (ev_pc s' u) = depth (ev_pc s u)) \<Longrightarrow> lock_ok s'"
  by (simp add: lock_ok_def)

lemma lock_depth: "lock_ok s \<Longrightarrow> depth (ev_pc s t) > 0 \<Longrightarrow> ev_holder s = Some (t, depth (ev_pc s t))"
proof -
  assume "lock_ok s" "depth (ev_pc s t) > 0"
  then have d: "depth (ev_pc s t) = (case ev_holder s of Some (u, n) \<Rightarrow> if t = u then n else 0 | None \<Rightarrow> 0)" "depth (ev_pc s t) \<noteq> 0"
    unfolding lock_ok_def by blast+
  then obtain u n where h: "ev_holder s = Some (u, n)" by (cases "ev_holder s") auto
  then have "t = u" using d by (cases "t = u") simp_all
  then show ?thesis using d(1) h by simp
qed

lemma lock_other: "lock_ok s \<Longrightarrow> ev_holder s = Some (t, n) \<Longrightarrow> u \<noteq> t \<Longrightarrow> depth (ev_pc s u) = 0"
  by (simp add: lock_ok_def)

lemma lock_none: "lock_ok s \<Longrightarrow> ev_holder s = None \<Longrightarrow> depth (ev_pc s u) = 0"
  by (simp add: lock_ok_def)

text \<open>The thread \<open>t\<close> goes to a place where it has the lock \<open>n\<close> times.\<close>

lemma lock_set:
  assumes "lock_ok s" "ev_holder s = None \<or> (\<exists>m. ev_holder s = Some (t, m))" "depth p = n"
    "ev_pc s' = (ev_pc s)(t := p)" "ev_holder s' = (if n = 0 then None else Some (t, n))"
  shows "lock_ok s'"
  using assms by (auto simp: lock_ok_def split: if_splits)

lemma lock_step: "ev_step s s' \<Longrightarrow> lock_ok s \<Longrightarrow> lock_ok s'"
proof (induction rule: ev_step.induct)
  case (trylock s t)
  then show ?case by - (rule lock_set [of s t _ 1], simp_all)
next
  case (release s t)
  then show ?case using lock_depth [of s t] by - (rule lock_set [of s t _ 0], simp_all)
next
  case (close_lock s t fd)
  then show ?case by - (rule lock_set [of s t _ 1], simp_all)
next
  case (close_relock s t fd n)
  then show ?case using lock_depth [of s t] by - (rule lock_set [of s t _ 2], simp_all)
next
  case (close_release_inner s t fd n)
  then show ?case using lock_depth [of s t] by - (rule lock_set [of s t _ 1], simp_all)
next
  case (close_release s t)
  then show ?case using lock_depth [of s t] by - (rule lock_set [of s t _ 0], simp_all)
qed ((rule lock_same, assumption, (auto simp: ev_functions; fail), (auto simp: ev_functions; fail))+)

lemma active_step: "ev_step s s' \<Longrightarrow> active_ok s \<Longrightarrow> lock_ok s \<Longrightarrow> active_ok s'"
proof (induction rule: ev_step.induct)
  case (release s t)
  then show ?case using lock_depth [of s t] lock_other [of s t 1] by (fastforce simp: active_ok_def)
next
  case (close_release s t)
  then show ?case using lock_depth [of s t] lock_other [of s t 1] by (fastforce simp: active_ok_def)
next
  case (active s t)
  then show ?case using lock_depth [of s t] lock_other [of s t 1] by (fastforce simp: active_ok_def)
next
  case (close_active s t fd)
  then show ?case using lock_depth [of s t] lock_other [of s t 1] by (fastforce simp: active_ok_def)
next
  case (close_reactive s t fd)
  then show ?case using lock_depth [of s t] lock_other [of s t 2] by (fastforce simp: active_ok_def)
next
  case (close_release_inner s t fd n)
  then show ?case using lock_depth [of s t] by (auto simp: active_ok_def)
qed (auto simp: active_ok_def ev_functions split: if_splits)

lemma waiters_same:
  "waiters_lock_ok s \<Longrightarrow> ev_waiters_lock s' = ev_waiters_lock s \<Longrightarrow>
   (\<And>u. has_waiters_lock (ev_pc s' u) = has_waiters_lock (ev_pc s u)) \<Longrightarrow> waiters_lock_ok s'"
  by (simp add: waiters_lock_ok_def)

lemma waiters_released:
  "waiters_lock_ok s \<Longrightarrow> has_waiters_lock (ev_pc s t) \<Longrightarrow> \<not> has_waiters_lock p \<Longrightarrow> ev_pc s' = (ev_pc s)(t := p) \<Longrightarrow>
   ev_waiters_lock s' = None \<Longrightarrow> waiters_lock_ok s'"
  by (simp add: waiters_lock_ok_def)

lemma waiters_lock_step: "ev_step s s' \<Longrightarrow> waiters_lock_ok s \<Longrightarrow> waiters_lock_ok s'"
proof (induction rule: ev_step.induct)
  case (wait_lock s t)
  then show ?case by (auto simp: waiters_lock_ok_def has_waiters_lock_def)
next
  case (wait_done s t)
  then show ?case by - (rule waiters_released [of s t Idle], simp_all add: has_waiters_lock_def)
next
  case (wait_retry s t)
  then show ?case by - (rule waiters_released [of s t H_try], simp_all add: has_waiters_lock_def)
next
  case (wait_sleep s t)
  then show ?case by - (rule waiters_released [of s t W_sleep], simp_all add: has_waiters_lock_def)
qed ((rule waiters_same, assumption, (auto simp: ev_functions has_waiters_lock_def; fail),
      (auto simp: ev_functions has_waiters_lock_def; fail))+)

text \<open>Threads that close.\<close>

lemma closing_same:
  "closing_ok s \<Longrightarrow> device_close s' = device_close s \<Longrightarrow> (\<And>u. closing (ev_pc s' u) = closing (ev_pc s u)) \<Longrightarrow> closing_ok s'"
  by (simp add: closing_ok_def)

lemma closing_step: "ev_step s s' \<Longrightarrow> closing_ok s \<Longrightarrow> closing_ok s'"
proof (induction rule: ev_step.induct)
  case (close s t fd)
  have e: "{u. closing (ev_pc (goto t (C_lock fd) (close_begins s)) u)} = insert t {u. closing (ev_pc s u)}"
    "t \<notin> {u. closing (ev_pc s u)}" "device_close (goto t (C_lock fd) (close_begins s)) = device_close s + 1"
    using close by (auto simp: ev_functions)
  then show ?case using close unfolding closing_ok_def e by simp
next
  case (close_end s t)
  have e: "{u. closing (ev_pc (goto t C_unlock (close_ends s)) u)} = {u. closing (ev_pc s u)} - {t}" "t \<in> {u. closing (ev_pc s u)}"
      "device_close (goto t C_unlock (close_ends s)) = device_close s - 1"
    using close_end by (auto simp: ev_functions)
  then show ?case using close_end unfolding closing_ok_def e by simp
qed ((rule closing_same, assumption, (auto simp: ev_functions; fail), (auto simp: ev_functions; fail))+)

text \<open>The pipe.\<close>

lemma pipe_signal:
  "pipe_ok s \<Longrightarrow> ev_pc s' = ev_pc s \<Longrightarrow> event_pipe s' = event_pipe s \<Longrightarrow> ev_stuck s' = ev_stuck s \<Longrightarrow>
   pipe_ok (signal_unless (usbi_pending_events s) s')"
  by (auto simp: pipe_ok_def ev_functions)

text \<open>A thread clears only with the events lock, when the pipe has a byte, and nobody else is about to read.\<close>

lemma pipe_clear:
  "event_pipe s > 0 \<Longrightarrow> \<not> ev_stuck s \<Longrightarrow> (\<And>u. \<not> reads_pipe (ev_pc s u)) \<Longrightarrow> pipe_ok (clear_unless_pending s)"
  by (auto simp: pipe_ok_def clear_unless_pending_def usbi_clear_event_def usbi_pending_events_def)

lemma reads_depth: "reads_pipe p \<Longrightarrow> depth p = 1"
  by (auto simp: reads_pipe_def)

lemma only_reader:
  assumes "lock_ok s" "depth (ev_pc s t) > 0" "u \<noteq> t"
  shows "\<not> reads_pipe (ev_pc s u)"
  using lock_other [OF assms(1) lock_depth [OF assms(1,2)] assms(3)] reads_depth by fastforce

lemma pipe_goto:
  "pipe_ok s \<Longrightarrow> (usbi_pending_events s' \<Longrightarrow> usbi_pending_events s) \<Longrightarrow> event_pipe s' = event_pipe s \<Longrightarrow> ev_stuck s' = ev_stuck s \<Longrightarrow>
   (\<And>u. reads_pipe (ev_pc s' u) \<Longrightarrow> reads_pipe (ev_pc s u)) \<Longrightarrow> pipe_ok s'"
  by (auto simp: pipe_ok_def)

lemma pipe_positive: "event_pipe s > 0 \<Longrightarrow> \<not> ev_stuck s \<Longrightarrow> pipe_ok s"
  by (simp add: pipe_ok_def)

lemma reads_go: "pipe_ok s \<Longrightarrow> \<not> reads_pipe p \<Longrightarrow> pipe_ok (goto t p s)"
  by (erule pipe_goto) (auto simp: usbi_pending_events_def split: if_splits)

lemma clear_goto: "goto t p (clear_unless_pending s) = clear_unless_pending (goto t p s)"
  by (simp add: clear_unless_pending_def usbi_pending_events_def usbi_clear_event_def)

lemma pipe_clear_goto:
  assumes "lock_ok s" "depth (ev_pc s t) > 0" "\<not> reads_pipe p" "event_pipe x > 0" "\<not> ev_stuck x" "ev_pc x = ev_pc s"
  shows "pipe_ok (goto t p (clear_unless_pending x))"
  unfolding clear_goto by (rule pipe_clear) (use assms only_reader in auto)

lemma pipe_remove: "pipe_ok s \<Longrightarrow> pipe_ok (usbi_remove_pollfd fd s)"
proof -
  assume p: "pipe_ok s"
  have "usbi_pending_events (s\<lparr>ipollfds := l\<rparr>) = usbi_pending_events s" for l by (simp add: usbi_pending_events_def)
  then show ?thesis using p by (auto simp: usbi_remove_pollfd_def usbi_fd_notification_def intro!: pipe_signal)
qed

lemma pipe_add: "pipe_ok s \<Longrightarrow> pipe_ok (usbi_add_pollfd fd s)"
proof -
  assume p: "pipe_ok s"
  have "usbi_pending_events (s\<lparr>ipollfds := l\<rparr>) = usbi_pending_events s" for l by (simp add: usbi_pending_events_def)
  then show ?thesis using p by (auto simp: usbi_add_pollfd_def usbi_fd_notification_def intro!: pipe_signal)
qed

lemma pipe_pending: "pipe_ok s \<Longrightarrow> usbi_pending_events s \<Longrightarrow> event_pipe s > 0 \<and> \<not> ev_stuck s"
  by (simp add: pipe_ok_def)

lemma pipe_reading: "pipe_ok s \<Longrightarrow> reads_pipe (ev_pc s t) \<Longrightarrow> event_pipe s > 0 \<and> \<not> ev_stuck s"
  by (auto simp: pipe_ok_def)

lemma closing_pending: "closing_ok s \<Longrightarrow> closing (ev_pc s t) \<Longrightarrow> device_close s > 0"
proof -
  assume c: "closing_ok s" and t: "closing (ev_pc s t)"
  then have "0 < card {u. closing (ev_pc s u)}" by (subst card_gt_0_iff) (auto simp: closing_ok_def)
  then show ?thesis using c by (simp add: closing_ok_def)
qed

lemma pipe_step: "ev_step s s' \<Longrightarrow> pipe_ok s \<Longrightarrow> lock_ok s \<Longrightarrow> closing_ok s \<Longrightarrow> pipe_ok s'"
proof (induction rule: ev_step.induct)
  case (message s)
  then show ?case unfolding notify_message_def by (auto intro!: pipe_signal)
next
  case (completion s)
  then show ?case unfolding usbi_signal_transfer_completion_def by (auto intro!: pipe_signal)
next
  case (add_fd s fd)
  then show ?case by (simp add: pipe_add)
next
  case (fds s t)
  show ?case
  proof (cases "pollfds_modified s")
    case True
    then have "event_pipe s > 0 \<and> \<not> ev_stuck s" using pipe_pending [OF fds(2)] by (simp add: usbi_pending_events_def)
    then show ?thesis using True fds unfolding update_pollfds_def
      by (auto intro!: pipe_clear_goto [of s] simp: reads_pipe_def)
  next
    case False
    then show ?thesis using fds by (simp add: update_pollfds_def reads_go reads_pipe_def)
  qed
next
  case (poll_pipe s t)
  then show ?case by (auto simp: pipe_ok_def)
next
  case (event_completes s t special s' ok)
  then show ?case using pipe_reading [of s t] by (auto simp: take_message_def reads_pipe_def intro!: pipe_positive)
next
  case (event_handled s t special s')
  then show ?case using pipe_reading [of s t]
    by (auto simp: take_message_def reads_pipe_def intro!: pipe_clear_goto [of s])
next
  case (event_more s t special s')
  then show ?case using pipe_reading [of s t]
    by (auto simp: take_message_def reads_pipe_def intro!: pipe_clear_goto [of s])
next
  case (complete s t special ok)
  then have "event_pipe s > 0 \<and> \<not> ev_stuck s" by (intro pipe_reading [of s t]) (auto simp: reads_pipe_def)
  then show ?case by (simp add: pipe_positive)
next
  case (complete_error s t special)
  then show ?case using pipe_reading [of s t] by (auto simp: reads_pipe_def intro!: pipe_clear_goto [of s])
next
  case (complete_handled s t special)
  then show ?case using pipe_reading [of s t] by (auto simp: reads_pipe_def intro!: pipe_clear_goto [of s])
next
  case (complete_more s t special)
  then show ?case using pipe_reading [of s t] by (auto simp: reads_pipe_def intro!: pipe_clear_goto [of s])
next
  case (close s t fd)
  then have "pipe_ok (close_begins s)" unfolding close_begins_def by (auto intro!: pipe_signal)
  then show ?case by (simp add: reads_go reads_pipe_def)
next
  case (close_remove s t fd)
  then show ?case using pipe_remove [of s fd] by (simp add: reads_go reads_pipe_def)
next
  case (close_end s t)
  then have "event_pipe s > 0 \<and> \<not> ev_stuck s" using closing_pending [of s t] pipe_pending [of s] by (simp add: usbi_pending_events_def)
  then show ?case using close_end unfolding close_ends_def by (auto intro!: pipe_clear_goto [of s] simp: reads_pipe_def)
qed ((rule pipe_goto, assumption, (simp add: ev_functions usbi_pending_events_def; fail), (simp add: ev_functions; fail),
      (simp add: ev_functions; fail), (auto simp: ev_functions reads_pipe_def split: if_splits; fail))+)

text \<open>Those who sleep.\<close>

lemma sleep_same:
  "sleep_ok s \<Longrightarrow> (\<And>u. ev_pc s' u \<in> {W_wait, W_sleep} \<Longrightarrow> ev_pc s u \<in> {W_wait, W_sleep}) \<Longrightarrow>
   (\<And>u. will_broadcast (ev_pc s u) \<Longrightarrow> will_broadcast (ev_pc s' u)) \<Longrightarrow> sleep_ok s'"
  unfolding sleep_ok_def by blast

lemma will_simps: "depth p > 0 \<Longrightarrow> will_broadcast p" "closing p \<Longrightarrow> will_broadcast p"
  by (simp_all add: will_broadcast_def)

lemma sleep_step:
  "ev_step s s' \<Longrightarrow> sleep_ok s \<Longrightarrow> lock_ok s \<Longrightarrow> active_ok s \<Longrightarrow> closing_ok s \<Longrightarrow> waiters_lock_ok s \<Longrightarrow> sleep_ok s'"
proof (induction rule: ev_step.induct)
  case (broadcast s t)
  then have "ev_pc s u \<noteq> W_wait" for u by (auto simp: waiters_lock_ok_def has_waiters_lock_def)
  then show ?case by (auto simp: sleep_ok_def wake_all_def split: if_splits)
next
  case (close_broadcast s t)
  then have "ev_pc s u \<noteq> W_wait" for u by (auto simp: waiters_lock_ok_def has_waiters_lock_def)
  then show ?case by (auto simp: sleep_ok_def wake_all_def split: if_splits)
next
  case (wait_closing s t)
  then have "{u. closing (ev_pc s u)} \<noteq> {}" by (metis card.empty closing_ok_def not_gr_zero)
  then obtain u where "closing (ev_pc s u)" by blast
  then have "will_broadcast (ev_pc (goto t W_wait s) u)" using wait_closing by (auto simp: will_broadcast_def)
  then show ?case unfolding sleep_ok_def by blast
next
  case (wait_active s t)
  then obtain u n where h: "ev_holder s = Some (u, n)" by (auto simp: active_ok_def)
  then have "depth (ev_pc s u) > 0" using wait_active by (auto simp: lock_ok_def)
  then have "will_broadcast (ev_pc (goto t W_wait s) u)" using wait_active by (auto simp: will_broadcast_def)
  then show ?case unfolding sleep_ok_def by blast
qed ((erule sleep_same, (auto simp: ev_functions split: if_splits; fail),
      (auto simp: ev_functions will_broadcast_def split: if_splits; fail))+)

section \<open>Reachable states\<close>

definition ev_inv :: "ev_state \<Rightarrow> bool" where
  "ev_inv s \<longleftrightarrow> lock_ok s \<and> active_ok s \<and> closing_ok s \<and> waiters_lock_ok s \<and> pipe_ok s \<and> sleep_ok s"

lemma ev_inv_step: "ev_step s s' \<Longrightarrow> ev_inv s \<Longrightarrow> ev_inv s'"
  unfolding ev_inv_def using lock_step active_step closing_step waiters_lock_step pipe_step sleep_step by blast

lemma ev_inv_reachable: "rtranclp ev_step s s' \<Longrightarrow> ev_inv s \<Longrightarrow> ev_inv s'"
  by (induction rule: rtranclp_induct) (auto intro: ev_inv_step)

lemma ev_inv_init: "ev_inv (usbi_io_init fd 0)"
  by (simp add: ev_inv_def usbi_io_init_def usbi_add_pollfd_def usbi_fd_notification_def signal_unless_def usbi_signal_event_def
      usbi_pending_events_def lock_ok_def active_ok_def closing_ok_def waiters_lock_ok_def has_waiters_lock_def pipe_ok_def
      reads_pipe_def sleep_ok_def)

text \<open>
  C11. In every interleaving of any number of threads that handle events, wait for others and close devices, and of messages,
  completions and new descriptors: at most one thread has the events lock, though \<open>do_close\<close> takes it twice; while something is
  pending the event pipe is readable, so that the handler does not miss it; no thread ever reads from the empty pipe, which
  would block it; and when a thread sleeps until another has handled events, there is a thread that will still wake it.
\<close>

theorem usb_events_shared:
  assumes "rtranclp ev_step (usbi_io_init fd 0) s"
  shows "(usbi_pending_events s \<longrightarrow> event_pipe s > 0) \<and> \<not> ev_stuck s \<and>
     (\<forall>t u. depth (ev_pc s t) > 0 \<and> depth (ev_pc s u) > 0 \<longrightarrow> t = u) \<and>
     (\<forall>t. ev_pc s t = W_sleep \<longrightarrow> (\<exists>u. u \<noteq> t \<and> will_broadcast (ev_pc s u)))"
proof -
  have i: "ev_inv s" using assms ev_inv_init by (rule ev_inv_reachable)
  have "t = u" if "depth (ev_pc s t) > 0" "depth (ev_pc s u) > 0" for t u
    using that i lock_depth [of s t] lock_depth [of s u] by (simp add: ev_inv_def)
  moreover have "\<exists>u. u \<noteq> t \<and> will_broadcast (ev_pc s u)" if "ev_pc s t = W_sleep" for t
  proof -
    obtain u where u: "will_broadcast (ev_pc s u)" using i \<open>ev_pc s t = W_sleep\<close> unfolding ev_inv_def sleep_ok_def by blast
    then have "u \<noteq> t" using that by (auto simp: will_broadcast_def)
    then show ?thesis using u by blast
  qed
  ultimately show ?thesis using i by (simp add: ev_inv_def pipe_ok_def)
qed

text \<open>A thread closes a device (with descriptor 9), and another waits for it and sleeps.\<close>

theorem usb_events_shared_witness:
  "\<exists>s. rtranclp ev_step (usbi_io_init 5 0) s \<and> ev_pc s 1 = W_sleep \<and> event_pipe s > 0 \<and>
     (\<exists>u. u \<noteq> 1 \<and> will_broadcast (ev_pc s u))"
proof -
  let ?a = "usbi_io_init 5 0"
  have i: "ev_pc ?a t = Idle" "ev_waiters_lock ?a = None" for t
    by (simp_all add: usbi_io_init_def usbi_add_pollfd_def usbi_fd_notification_def signal_unless_def usbi_signal_event_def Let_def)
  have c: "device_close (close_begins s) > 0" "ev_pc (close_begins s) = ev_pc s" "ev_waiters_lock (close_begins s) = ev_waiters_lock s"
    for s by (simp_all add: close_begins_def signal_unless_def usbi_signal_event_def)
  let ?b = "goto 0 (C_lock 9) (close_begins ?a)"
  let ?c = "goto 1 H_try ?b"
  let ?d = "goto 1 W_lock ?c"
  let ?e = "goto 1 W_active (?d\<lparr>ev_waiters_lock := Some 1\<rparr>)"
  let ?f = "goto 1 W_wait ?e"
  let ?g = "goto 1 W_sleep (?f\<lparr>ev_waiters_lock := None\<rparr>)"
  have "ev_step ?a ?b" by (rule ev_step.close) (simp add: i)
  moreover have "ev_step ?b ?c" by (rule ev_step.call) (simp add: i c)
  moreover have "ev_step ?c ?d" by (rule ev_step.try_closing) (simp_all add: c)
  moreover have "ev_step ?d ?e" by (rule ev_step.wait_lock) (simp_all add: i c)
  moreover have "ev_step ?e ?f" by (rule ev_step.wait_closing) (simp_all add: c)
  moreover have "ev_step ?f ?g" by (rule ev_step.wait_sleep) simp
  ultimately have r: "rtranclp ev_step ?a ?g" by (meson converse_rtranclp_into_rtranclp rtranclp.rtrancl_refl)
  have "usbi_pending_events ?g" using c(1) by (simp add: usbi_pending_events_def)
  then show ?thesis using usb_events_shared [OF r] r by (intro exI [of _ ?g]) simp
qed

section \<open>A message that comes too early\<close>

text \<open>
  The list of messages is ready before the pipe exists. When another thread adds a message in between, its signal is lost, the
  message keeps the context pending so that nobody signals again, and nothing is ever taken off the lists.
\<close>

definition silent :: "ev_state \<Rightarrow> bool" where
  "silent s \<longleftrightarrow> event_pipe s = 0 \<and> hotplug_messages s > 0 \<and> (\<forall>t. \<not> reads_pipe (ev_pc s t))"

lemma silent_step: "ev_step s s' \<Longrightarrow> silent s \<Longrightarrow> silent s'"
proof (induction rule: ev_step.induct)
  case (event_completes s t special s' ok)
  then show ?case by (auto simp: silent_def reads_pipe_def)
next
  case (event_handled s t special s')
  then show ?case by (auto simp: silent_def reads_pipe_def)
next
  case (event_more s t special s')
  then show ?case by (auto simp: silent_def reads_pipe_def)
qed (auto simp: silent_def reads_pipe_def ev_functions usbi_pending_events_def split: if_splits)

lemma early_message: "hotplug_messages ((notify_message ^^ n) s) = hotplug_messages s + n \<and> ev_pc ((notify_message ^^ n) s) = ev_pc s"
  by (induction n) (auto simp: notify_message_def signal_unless_def usbi_signal_event_def)

lemma early_message_stalls:
  assumes "rtranclp ev_step (usbi_io_init fd (Suc n)) s"
  shows "event_pipe s = 0" "hotplug_messages s > 0"
proof -
  have "silent (usbi_io_init fd (Suc n))"
    using early_message [of "Suc n"]
    by (auto simp: silent_def reads_pipe_def usbi_io_init_def usbi_add_pollfd_def usbi_fd_notification_def signal_unless_def
        usbi_signal_event_def usbi_pending_events_def Let_def simp del: funpow.simps)
  with assms have "silent s" by (induction rule: rtranclp_induct) (auto intro: silent_step)
  then show "event_pipe s = 0" "hotplug_messages s > 0" by (simp_all add: silent_def)
qed

end
