(* ===== verification/Spec2Isabelle.thy ===== *)
theory Spec2Isabelle
  imports Fc0013 Fc2580 R82xxGains E4kGain RtlsdrEeprom RtlsdrSearch RtlsdrRate StreamingFail
    Fir NmeaOut DspBlock AisConfigProps AisSession AisLife Args
    UsbBulk UsbTimeouts UsbSyncProps UsbConfigProps UsbHandleProps UsbContextProps UsbNetlinkProps UsbEventProps
begin

text \<open>
  A verification development for Rtl_Ais_Android: an Android application that receives AIS messages of ships
  with an RTL2832U television dongle. Its native code (\<open>app/src/main/jni\<close>) consists of a driver library for
  the dongle with five tuner drivers (\<open>rtl-sdr\<close>), a receiver for two FM channels with a command socket
  (\<open>rtl_ais_andro.c\<close>), the filter and the output of an AIS decoder (\<open>aisdecoder\<close>), and glue to Java.

  How the parts interact. \<open>RtlAisJava.c\<close> splits an option string into an argument vector and calls
  \<open>rtl_ais_main\<close>. That computes rates and lengths from the options, opens the dongle, sets the gain, the
  bandwidth, the frequency and the sample rate, and starts three activities: a thread that executes commands of a
  TCP client, a thread that demodulates, and \<open>rtlsdr_read_async\<close>, which passes every block of samples to the
  demodulator. Each call of the library becomes USB control transfers; those for the tuner chip go over an
  I2C bus behind a repeater, which the library switches on before and off after them.

  The theories and the code that they model, in the order of their dependencies:

  \<^item> \<open>Prelude\<close>: machine integers, the state monad of the model, rules for invariants and frames,
    shared lemmas. \<open>Float64\<close>: \<open>double\<close> as rounding to 53 bits.
  \<^item> \<open>Device\<close>, \<open>Regs\<close>, \<open>Chip\<close> (\<open>librtlsdr.c\<close>): the device \<open>struct rtlsdr_dev\<close> as a record together
    with the log of its USB transfers; register, array, I2C and GPIO access, FIR, baseband and clocks;
    what it means that a tuner's registers hold a value.
  \<^item> \<open>Fc0012\<close>, \<open>Fc0013\<close>, \<open>Fc2580\<close> (\<open>tuner_fc*.c\<close>), \<open>R82xx\<close>, \<open>R82xxGain\<close> (\<open>tuner_r82xx.c\<close>) and \<open>E4k\<close>
    (\<open>tuner_e4k.c\<close>): the drivers, every function of each. Their properties: \<open>R82xxRules\<close>, \<open>R82xxShadow\<close>,
    \<open>R82xxPll\<close>, \<open>R82xxGains\<close>, \<open>E4kRules\<close>, \<open>E4kTune\<close>, \<open>E4kGain\<close>, and the driver's own theory for the others.
  \<^item> \<open>Tuner\<close> (\<open>librtlsdr.c\<close>): the table of tuner operations; the locale \<open>tuner_driver\<close> is what the library relies on
    in a driver, interpreted for all five. \<open>Rtlsdr\<close>: every operation of the interface on an open device.
    \<open>RtlsdrOpen\<close>: the search for devices, probing and opening, also \<open>rtlsdr_open2\<close> of \<open>librtlsdr_andro.c\<close>.
    Properties: \<open>RtlsdrTidy\<close> (the repeater), \<open>RtlsdrEeprom\<close>, \<open>RtlsdrSearch\<close>, \<open>RtlsdrRate\<close>.
  \<^item> \<open>Streaming\<close> (\<open>librtlsdr.c\<close>): \<open>rtlsdr_read_async\<close>, the completion callback, cancellation, one call of
    libusb per step. Properties: \<open>StreamingInv\<close> (invariant, termination after a cancellation) and
    \<open>StreamingFail\<close> (the ways in which it fails).
  \<^item> \<open>Fir\<close> (\<open>aisdecoder/lib/filter.c\<close>) and \<open>NmeaOut\<close> (\<open>aisdecoder/aisdecoder.c\<close>): the FIR filter and the datagrams.
  \<^item> \<open>Dsp\<close> (\<open>rtl_ais_andro.c\<close>): from the bytes of a USB block to a block of stereo samples. Properties:
    \<open>DspProps\<close> (rotation, decimation) and \<open>DspBlock\<close> (arctangent, bounds of a whole block).
  \<^item> \<open>Convenience\<close> (\<open>convenience.c\<close>), \<open>Command\<close> (the command thread), \<open>AisConfig\<close> (\<open>rtl_ais_main\<close>: options,
    rates, set-up). Properties: \<open>AisConfigProps\<close> (the rates and the receiver that follow from the options) and
    \<open>AisSession\<close> (the dongle over a whole session). \<open>AisLife\<close>: \<open>rtl_ais_main\<close>, its threads and the calls of
    Java as a step relation over what they share, the device, the address, the file, the condition variable and the
    locks, each with its life; a use outside it is a fault, and the faults are characterised.
  \<^item> \<open>Args\<close> (\<open>RtlAisJava.c\<close>): the argument vector.
  \<^item> The bundled libusb (\<open>libusb-andro/libusb\<close>). \<open>UsbTypes\<close>: a transfer with its internal and its Linux part.
    \<open>UsbDesc\<close>, \<open>UsbQuery\<close> (\<open>descriptor.c\<close>): the parser of configurations and the queries for descriptors; properties
    \<open>UsbDescProps\<close>, \<open>UsbRoundTrip\<close>. \<open>UsbUrb\<close>, \<open>UsbReap\<close> (\<open>os/linux_usbfs.c\<close>): how a transfer is split into URBs
    and put together again; properties \<open>UsbBulk\<close>. \<open>UsbTransfer\<close> (\<open>io.c\<close>): the flying transfers, timeouts and event
    handling over that backend; properties \<open>UsbTransferInv\<close>, with the locale \<open>transfer_callback\<close> for what a callback
    may do, and \<open>UsbTimeouts\<close>. \<open>UsbSync\<close> (\<open>sync.c\<close>): control, bulk and interrupt transfers that wait; properties
    \<open>UsbSyncProps\<close>, with the locales \<open>results_kept\<close> and \<open>sync_client\<close> for the callbacks that run meanwhile.
    \<open>UsbConfigs\<close>: the cached configurations of a device; properties \<open>UsbConfigProps\<close>. \<open>UsbHandle\<close> (\<open>core.c\<close> and
    the backend): interfaces, resets, drivers and streams of an open device over the ioctls of the kernel; properties
    \<open>UsbHandleProps\<close>. \<open>UsbDevices\<close> (\<open>core.c\<close>, \<open>hotplug.c\<close>): references, device lists, hotplug messages, ports;
    \<open>UsbEnum\<close>: enumeration, opening, closing, callbacks and the end of a context. Their properties: \<open>UsbDeviceProps\<close>
    (counting), \<open>UsbEnumProps\<close> (enumeration) and \<open>UsbDeviceRuns\<close> (histories). \<open>UsbNetlink\<close> (\<open>os/linux_netlink.c\<close>): the messages
    by which the kernel announces devices, and the thread and descriptors that wait for them; properties \<open>UsbNetlinkProps\<close>.
    \<open>UsbInit\<close> (\<open>os/linux_usbfs.c\<close>, \<open>libusbi.h\<close>): linked lists, the scans for devices and the choices of \<open>op_init\<close>; \<open>UsbContexts\<close>
    (\<open>core.c\<close>): the start and end of contexts; properties \<open>UsbContextProps\<close>. \<open>UsbEvents\<close> (\<open>io.c\<close>): the locks, the event pipe and the
    waiters by which threads share the handling of events, as a step relation; properties \<open>UsbEventProps\<close>.

  The state. A driver or library operation is a term of a state monad over \<open>rtlsdr_dev\<close>, with the
  function names and the order of calls of the source. The field \<open>dev_xfers\<close> is the log of all control transfers,
  newest first; the result of a transfer, and the bytes that it reads, are an arbitrary function of that log
  (\<open>usb_env\<close>), so a theorem without a hypothesis on it holds for any dongle and any failure, and hypotheses such as
  an honest chip say that a register is read back as it was written. The writable static tables of the
  R820T and E4000 drivers are part of the state. \<open>dev_ub\<close> becomes true where the C code has undefined behaviour
  (overflow, a read outside an array, a division by zero); the signal path and the configuration report
  it by a flag or by \<open>None\<close>. Integers are \<open>nat\<close> or \<open>int\<close> with the reduction to their width written
  out (\<open>u32\<close>, \<open>s16\<close> and others), registers are \<open>8 word\<close>.

  What the groups of lemmas show. The repeater: across opening, configuration and all commands
  no transfer for the tuner is made while it is off, and it is left off. Tuning: each driver programs, for every
  frequency of its range, the nearest or the exact divider that its chip can represent, and fails or
  misbehaves exactly outside. Gains and filters: the registers that follow from a table entry, field
  by field. The shadow registers of the R820T equal the chip. The EEPROM is read back as written. Streaming: its
  invariant, its end after a cancellation, and three situations in which it leaks, hangs or starves.
  Signal path: every pass against its mathematical definition, and that no block leaves its
  buffers for any configuration that \<open>rtl_ais_main\<close> computes in the stated range.

  libusb: its parser reads nothing outside its buffer and inverts the layout of USB; a bulk transfer ends once, with its
  data gathered, in whatever order its URBs come back, unless one that ends it comes back before others, as after a stall; in every
  run without undefined behaviour every submission is reported once; timeouts cancel the transfers that expired and no others; and the
  situations in which event handling stops or URBs are used after they were freed. A synchronous transfer returns what was
  reported for it; configurations are found again in the descriptors of the device; the claimed interfaces agree with the
  kernel but for a failed reset; references to devices are counted right in every history, and all are freed at the end. The list of
  contexts is that of the contexts that live, and what goes wrong when both functions start them, or the monitor does not start;
  the messages of the kernel are understood; and threads that share the handling of events keep its locks and its pipe.

  Bounds and fuel. Only \<open>usbi_handle_disconnect\<close> has fuel, and one round for each flying transfer is enough
  (\<open>usb_disconnect_ends\<close>). The three functions of the enumeration call each other once for every ancestor of a device, which
  may be arbitrarily many in sysfs: \<open>3 * n\<close> calls are enough for a path of length \<open>n\<close>. A synchronous
  transfer takes a list of rounds of event handling. No other operation needs fuel: the loops of the source run over lists or counters, and
  those that wait for the outside (\<open>rtlsdr_read_async\<close>, \<open>recv_command\<close>) take one answer of the outside per
  step, so that a run is a list of answers; that they return is proved from the answers
  (\<open>async_cancel_returns\<close>) or refuted (\<open>async_stuck_canceling\<close>, \<open>recv_command_closed\<close>).

  Conventions. The guards for a NULL device, messages and delays are left out. \<open>unsigned long\<close> and
  \<open>size_t\<close> have 32 bits, as on the 32-bit targets of the application. Where several threads share a variable
  (\<open>async_status\<close>, \<open>do_exit\<close>) the accesses of the others are events between the steps.

  Undefined behaviour of libusb: a transfer that touches freed URBs has \<open>x_ub\<close>, a monitor that joins a thread that was not created
  \<open>mo_ub\<close>, and a run that gets there has no result (\<open>usb_run\<close>, \<open>world_run\<close>).

  Not modelled. For the driver library what libusb answers is a parameter: its own layers are modelled apart from it. Of
  libusb these are left out: the backends of other systems, the optional \<open>timerfd\<close>, the removal of a closed handle's transfers in
  \<open>do_close\<close>, and its log. What the native code prints for debugging is left out. \<open>getopt\<close> is
  third-party code whose answers are parameters. The
  command-line tools of rtl-sdr (\<open>rtl_fm\<close>, \<open>rtl_power\<close>, \<open>rtl_tcp\<close> and others) are not part of the application. The
  sound decoder (\<open>sounddecoder.c\<close>, \<open>receiver.c\<close>, \<open>protodec.c\<close>) is not in the repository. Sockets, the
  notifications of Java and the Java code have no state of the receiver. A lock is modelled by what it makes
  indivisible: the callback and the demodulator interleave in whole accesses to the block buffer.
\<close>

end
